(* ===== verification/Prelude.thy ===== *)
theory Prelude
  imports Main "HOL-Library.Word"
begin

text \<open>
  What every theory of the development shares: the width-annotated integers, the
  \<open>Result\<close> type of the Rust code as a sum, the error-and-state monad in which the
  file-system code is written, the checked integer operations the sources call, and a few
  facts on lists.

  \<^item> \<open>Result<T, E>\<close> is \<open>'e + 'a\<close>: \<open>Err\<close> is \<open>Inl\<close>, \<open>Ok\<close> is \<open>Inr\<close>. The \<open>?\<close> operator is
    \<open>rbind\<close>; \<open>iter().map(f).collect::<Result<Vec<_>>>()\<close> is \<open>rmap_all\<close>.
  \<^item> A function that reads or writes the outside world is
    \<open>'s \<Rightarrow> ('e + 'a) \<times> 's\<close>: an early return keeps every effect made before it.
\<close>

subsection \<open>Machine integers and bytes\<close>

type_synonym u8 = "8 word"
type_synonym u32 = "32 word"
type_synonym u64 = "64 word"
type_synonym bytes = "u8 list"

text \<open>\<open>str::as_bytes\<close>: a \<open>str\<close> is its UTF-8 bytes, one \<open>char\<close> each.\<close>

definition bytes_of :: "string \<Rightarrow> bytes" where
  "bytes_of s = map (\<lambda>c. word_of_nat (of_char c)) s"

definition checked_add :: "u64 \<Rightarrow> u64 \<Rightarrow> u64 option" where
  "checked_add a b = (if unat a + unat b < 2 ^ 64 then Some (a + b) else None)"

definition checked_sub :: "u64 \<Rightarrow> u64 \<Rightarrow> u64 option" where
  "checked_sub a b = (if b \<le> a then Some (a - b) else None)"

definition checked_mul :: "u64 \<Rightarrow> u64 \<Rightarrow> u64 option" where
  "checked_mul a b = (if unat a * unat b < 2 ^ 64 then Some (a * b) else None)"

text \<open>A length as \<open>usize\<close> or \<open>u64\<close>; lossless for every buffer that fits in memory.\<close>

definition len64 :: "'a list \<Rightarrow> u64" where
  "len64 xs = word_of_nat (length xs)"

lemma unat_len64: "length xs < 2 ^ 64 \<Longrightarrow> unat (len64 xs) = length xs"
  by (simp add: len64_def unat_of_nat take_bit_nat_eq_self)

lemma checked_add_Some: "checked_add a b = Some c \<Longrightarrow> unat c = unat a + unat b"
  by (auto simp: checked_add_def unat_word_ariths split: if_splits)

lemma checked_add_None: "checked_add a b = None \<longleftrightarrow> 2 ^ 64 \<le> unat a + unat b"
  by (auto simp: checked_add_def)

lemma checked_sub_Some: "checked_sub a b = Some c \<Longrightarrow> unat b + unat c = unat a"
  by (auto simp: checked_sub_def unat_sub word_le_nat_alt split: if_splits)

lemma checked_sub_None: "checked_sub a b = None \<longleftrightarrow> a < b"
  by (auto simp: checked_sub_def not_le)

lemma checked_mul_Some: "checked_mul a b = Some c \<Longrightarrow> unat c = unat a * unat b"
  by (auto simp: checked_mul_def unat_word_ariths split: if_splits)

subsection \<open>Results\<close>

abbreviation Ok :: "'a \<Rightarrow> 'e + 'a" where "Ok \<equiv> Inr"
abbreviation Err :: "'e \<Rightarrow> 'e + 'a" where "Err \<equiv> Inl"

definition rbind :: "'e + 'a \<Rightarrow> ('a \<Rightarrow> 'e + 'b) \<Rightarrow> 'e + 'b" where
  "rbind r f = (case r of Inl e \<Rightarrow> Inl e | Inr a \<Rightarrow> f a)"

definition ok_or :: "'e \<Rightarrow> 'a option \<Rightarrow> 'e + 'a" where
  "ok_or e x = (case x of None \<Rightarrow> Inl e | Some a \<Rightarrow> Inr a)"

definition map_err :: "('e \<Rightarrow> 'f) \<Rightarrow> 'e + 'a \<Rightarrow> 'f + 'a" where
  "map_err f r = (case r of Inl e \<Rightarrow> Inl (f e) | Inr a \<Rightarrow> Inr a)"

definition is_ok :: "'e + 'a \<Rightarrow> bool" where
  "is_ok r = (case r of Inl e \<Rightarrow> False | Inr a \<Rightarrow> True)"

fun rmap_all :: "('a \<Rightarrow> 'e + 'b) \<Rightarrow> 'a list \<Rightarrow> 'e + 'b list" where
  "rmap_all f [] = Inr []"
| "rmap_all f (x # xs) =
     (case f x of Inl e \<Rightarrow> Inl e
      | Inr y \<Rightarrow> (case rmap_all f xs of Inl e \<Rightarrow> Inl e | Inr ys \<Rightarrow> Inr (y # ys)))"

fun rfor_each :: "('a \<Rightarrow> 'e + unit) \<Rightarrow> 'a list \<Rightarrow> 'e + unit" where
  "rfor_each f [] = Inr ()"
| "rfor_each f (x # xs) = (case f x of Inl e \<Rightarrow> Inl e | Inr u \<Rightarrow> rfor_each f xs)"

lemma rbind_simps [simp]: "rbind (Inl e) f = Inl e" "rbind (Inr a) f = f a"
  by (simp_all add: rbind_def)

lemma ok_or_simps [simp]: "ok_or e None = Inl e" "ok_or e (Some a) = Inr a"
  by (simp_all add: ok_or_def)

lemma map_err_simps [simp]: "map_err f (Inl e) = Inl (f e)" "map_err f (Inr a) = Inr a"
  by (simp_all add: map_err_def)

lemma is_ok_simps [simp]: "\<not> is_ok (Inl e)" "is_ok (Inr a)"
  by (simp_all add: is_ok_def)

lemma rbind_eq_Ok: "rbind r f = Inr b \<longleftrightarrow> (\<exists>a. r = Inr a \<and> f a = Inr b)"
  by (cases r) auto

lemma ok_or_eq_Ok [simp]: "ok_or e x = Inr a \<longleftrightarrow> x = Some a"
  by (cases x) auto

lemma map_err_eq_Ok [simp]: "map_err f r = Inr a \<longleftrightarrow> r = Inr a"
  by (cases r) auto

lemma rmap_all_Ok:
  "rmap_all f xs = Inr ys \<longleftrightarrow> length ys = length xs \<and> (\<forall>i < length xs. f (xs ! i) = Inr (ys ! i))"
proof (induction xs arbitrary: ys)
  case Nil
  then show ?case by auto
next
  case (Cons x xs)
  show ?case
  proof (cases ys)
    case (Cons z zs)
    then have "rmap_all f (x # xs) = Inr ys \<longleftrightarrow> f x = Inr z \<and> rmap_all f xs = Inr zs"
      by (auto split: sum.splits)
    with Cons show ?thesis by (auto simp: Cons.IH All_less_Suc2)
  qed (auto split: sum.splits)
qed

lemma rmap_all_map: "(\<And>x. x \<in> set xs \<Longrightarrow> f x = Inr (g x)) \<Longrightarrow> rmap_all f xs = Inr (map g xs)"
  by (induction xs) auto

lemma rmap_all_cong [fundef_cong]:
  "xs = ys \<Longrightarrow> (\<And>x. x \<in> set ys \<Longrightarrow> f x = g x) \<Longrightarrow> rmap_all f xs = rmap_all g ys"
  by (induction xs arbitrary: ys) (auto split: sum.splits)

lemma rfor_each_Ok: "rfor_each f xs = Inr u \<longleftrightarrow> (\<forall>x \<in> set xs. f x = Inr ())"
  by (induction xs) (auto split: sum.splits)

subsection \<open>Errors and state\<close>

type_synonym ('s, 'e, 'a) stm = "'s \<Rightarrow> ('e + 'a) \<times> 's"

named_theorems io_defs \<open>unfolding of the error-and-state monad\<close>

definition io_ok :: "'a \<Rightarrow> ('s, 'e, 'a) stm" where
  [io_defs]: "io_ok a = (\<lambda>s. (Inr a, s))"

definition io_err :: "'e \<Rightarrow> ('s, 'e, 'a) stm" where
  [io_defs]: "io_err e = (\<lambda>s. (Inl e, s))"

definition io_bind :: "('s, 'e, 'a) stm \<Rightarrow> ('a \<Rightarrow> ('s, 'e, 'b) stm) \<Rightarrow> ('s, 'e, 'b) stm" where
  [io_defs]: "io_bind m f = (\<lambda>s. case m s of (Inl e, s') \<Rightarrow> (Inl e, s') | (Inr a, s') \<Rightarrow> f a s')"

definition io_map_err :: "('e \<Rightarrow> 'f) \<Rightarrow> ('s, 'e, 'a) stm \<Rightarrow> ('s, 'f, 'a) stm" where
  [io_defs]: "io_map_err f m = (\<lambda>s. case m s of (r, s') \<Rightarrow> (map_err f r, s'))"

text \<open>A computation that only reads the state.\<close>

definition io_read :: "('s \<Rightarrow> 'e + 'a) \<Rightarrow> ('s, 'e, 'a) stm" where
  [io_defs]: "io_read f = (\<lambda>s. (f s, s))"

fun io_for_each :: "('a \<Rightarrow> ('s, 'e, unit) stm) \<Rightarrow> 'a list \<Rightarrow> ('s, 'e, unit) stm" where
  "io_for_each f [] = io_ok ()"
| "io_for_each f (x # xs) = io_bind (f x) (\<lambda>_. io_for_each f xs)"

text \<open>\<open>map(f).collect::<Result<Vec<_>>>()\<close> with effects: the first error ends it.\<close>

fun io_collect :: "('a \<Rightarrow> ('s, 'e, 'b) stm) \<Rightarrow> 'a list \<Rightarrow> ('s, 'e, 'b list) stm" where
  "io_collect f [] = io_ok []"
| "io_collect f (x # xs) = io_bind (f x) (\<lambda>y. io_bind (io_collect f xs) (\<lambda>ys. io_ok (y # ys)))"

lemma io_bind_ok: "m s = (Inr a, s') \<Longrightarrow> io_bind m f s = f a s'"
  by (simp add: io_bind_def)

lemma io_bind_err: "m s = (Inl e, s') \<Longrightarrow> io_bind m f s = (Inl e, s')"
  by (simp add: io_bind_def)

lemma io_bind_eq_Ok:
  "io_bind m f s = (Inr b, t) \<longleftrightarrow> (\<exists>a s'. m s = (Inr a, s') \<and> f a s' = (Inr b, t))"
  by (auto simp: io_bind_def split: prod.splits sum.splits)

lemma io_bind_assoc: "io_bind (io_bind m f) g = io_bind m (\<lambda>a. io_bind (f a) g)"
  by (rule ext) (auto simp: io_bind_def split: prod.splits sum.splits)

lemma io_ok_apply [simp]: "io_ok a s = (Inr a, s)"
  by (simp add: io_ok_def)

lemma io_err_apply [simp]: "io_err e s = (Inl e, s)"
  by (simp add: io_err_def)

lemma io_read_apply [simp]: "io_read f s = (f s, s)"
  by (simp add: io_read_def)

lemma io_bind_simps [simp]:
  "io_bind (Pair (Inr a)) f = f a"
  "io_bind (Pair (Inl e)) f = Pair (Inl e)"
  by (auto simp: io_defs)

lemma io_map_err_eq_Ok [simp]: "io_map_err f m s = (Inr a, t) \<longleftrightarrow> m s = (Inr a, t)"
  by (auto simp: io_map_err_def split: prod.splits)

lemma io_for_each_append:
  "io_for_each f (xs @ ys) = io_bind (io_for_each f xs) (\<lambda>_. io_for_each f ys)"
  by (induction xs) (simp_all add: io_bind_assoc)

text \<open>
  An invariant of a loop: if every iteration keeps \<open>I\<close>, whether it succeeds or fails, the
  loop keeps it.
\<close>

definition io_keeps :: "('s \<Rightarrow> bool) \<Rightarrow> ('s, 'e, 'a) stm \<Rightarrow> bool" where
  "io_keeps I m \<longleftrightarrow> (\<forall>s. I s \<longrightarrow> I (snd (m s)))"

lemma io_keepsD: "io_keeps I m \<Longrightarrow> I s \<Longrightarrow> m s = (r, t) \<Longrightarrow> I t"
  by (metis io_keeps_def snd_conv)

lemma io_keeps_ok [intro]: "io_keeps I (io_ok a)"
  by (simp add: io_keeps_def)

lemma io_keeps_err [intro]: "io_keeps I (io_err e)"
  by (simp add: io_keeps_def)

lemma io_keeps_read [intro]: "io_keeps I (io_read f)"
  by (simp add: io_keeps_def)

lemma io_keeps_bind [intro]:
  "io_keeps I m \<Longrightarrow> (\<And>a. io_keeps I (f a)) \<Longrightarrow> io_keeps I (io_bind m f)"
  unfolding io_keeps_def io_bind_def
  by (auto split: prod.splits sum.splits) 

lemma io_keeps_map_err [intro]: "io_keeps I m \<Longrightarrow> io_keeps I (io_map_err f m)"
  unfolding io_keeps_def io_map_err_def by (auto split: prod.splits)

lemma io_keeps_for_each [intro]:
  "(\<And>x. x \<in> set xs \<Longrightarrow> io_keeps I (f x)) \<Longrightarrow> io_keeps I (io_for_each f xs)"
  by (induction xs) auto

subsection \<open>Lists\<close>

text \<open>\<open>Vec::splice(start..end, replacement)\<close> for a range inside the vector.\<close>

definition splice_bytes :: "'a list \<Rightarrow> nat \<Rightarrow> nat \<Rightarrow> 'a list \<Rightarrow> 'a list" where
  "splice_bytes xs i j ys = take i xs @ ys @ drop j xs"

text \<open>\<open>slice::windows(2)\<close>.\<close>

fun windows2 :: "'a list \<Rightarrow> ('a \<times> 'a) list" where
  "windows2 (x # y # zs) = (x, y) # windows2 (y # zs)"
| "windows2 _ = []"

text \<open>\<open>Vec::dedup\<close> after a sort keeps one of each run of equal elements: \<open>remdups_adj\<close>.\<close>

lemma sorted_remdups_adj_distinct:
  "sorted (xs :: 'a::linorder list) \<Longrightarrow> sorted_wrt (<) (remdups_adj xs)"
proof (induction xs rule: remdups_adj.induct)
  case (3 x y xs)
  then show ?case
    by (cases "x = y") (auto simp: less_le dest!: split_list)
qed simp_all

lemma windows2_nth: "Suc i < length xs \<Longrightarrow> (xs ! i, xs ! Suc i) \<in> set (windows2 xs)"
proof (induction xs arbitrary: i rule: windows2.induct)
  case (1 x y zs)
  then show ?case by (cases i) auto
qed auto

lemma windows2_append_subset: "set (windows2 ys) \<subseteq> set (windows2 (xs @ ys))"
proof (induction xs)
  case (Cons x xs)
  then show ?case by (cases "xs @ ys") auto
qed simp

lemma take_while_drop_while_disjoint:
  "x \<in> set (takeWhile P xs) \<Longrightarrow> P x"
  by (induction xs) (auto split: if_splits)

end
