(* ===== verification/BTree.thy ===== *)
theory BTree
  imports Prelude
begin

text \<open>
  \<open>std::collections::BTreeMap\<close> and \<open>BTreeSet\<close>, as far as the sources use them: a map is the
  list of its entries in ascending key order, a set the ascending list of its elements, which
  is the order in which Rust iterates over them.

  The contract the clients rely on is the locale \<open>ordered_map\<close>; its client lemmas (collecting
  an iterator into a map, diffing two maps) are proved from the laws alone and
  reach the rest of the development through the interpretation \<open>btm\<close>.
\<close>

subsection \<open>The interface\<close>

locale ordered_map =
  fixes lookup :: "'m \<Rightarrow> 'k::linorder \<Rightarrow> 'v option"
    and insert :: "'k \<Rightarrow> 'v \<Rightarrow> 'm \<Rightarrow> 'm"
    and empty :: "'m"
    and keys :: "'m \<Rightarrow> 'k list"
    and wf :: "'m \<Rightarrow> bool"
  assumes wf_empty: "wf empty"
    and wf_insert: "wf m \<Longrightarrow> wf (insert k v m)"
    and lookup_empty: "lookup empty k = None"
    and lookup_insert: "wf m \<Longrightarrow> lookup (insert k v m) = (lookup m)(k \<mapsto> v)"
    and keys_lookup: "wf m \<Longrightarrow> set (keys m) = dom (lookup m)"
    and keys_ascend: "wf m \<Longrightarrow> sorted_wrt (<) (keys m)"
begin

definition collect_map :: "('k \<times> 'v) list \<Rightarrow> 'm" where
  "collect_map kvs = foldl (\<lambda>m (k, v). insert k v m) empty kvs"

lemma collect_aux:
  "wf m \<Longrightarrow> wf (foldl (\<lambda>m (k, v). insert k v m) m kvs) \<and>
     lookup (foldl (\<lambda>m (k, v). insert k v m) m kvs) = lookup m ++ map_of (rev kvs)"
proof (induction kvs arbitrary: m)
  case (Cons kv kvs)
  obtain k v where kv: "kv = (k, v)" by force
  have upd: "lookup (insert k v m) = lookup m ++ [k \<mapsto> v]"
    by (simp only: lookup_insert [OF Cons.prems] map_add_upd map_add_empty)
  from Cons.prems have "wf (insert k v m)" by (rule wf_insert)
  from Cons.IH [OF this] show ?case
    by (simp add: kv upd del: map_add_upd)
qed simp

lemma wf_collect: "wf (collect_map kvs)"
  by (simp add: collect_map_def collect_aux wf_empty)

lemma lookup_collect: "lookup (collect_map kvs) = map_of (rev kvs)"
proof -
  have "lookup empty = Map.empty" by (rule ext) (rule lookup_empty)
  then show ?thesis by (simp add: collect_map_def collect_aux wf_empty)
qed

lemma lookup_collect_distinct:
  assumes "distinct (map fst kvs)"
  shows "lookup (collect_map kvs) = map_of kvs"
proof -
  have "map_of (rev kvs) = map_of kvs"
    by (rule map_of_eqI) (use assms in \<open>auto simp: rev_map [symmetric] intro!: map_of_is_SomeI dest: map_of_SomeD\<close>)
  then show ?thesis by (simp add: lookup_collect)
qed

lemma distinct_keys: "wf m \<Longrightarrow> distinct (keys m)"
  using keys_ascend strict_sorted_iff by blast

end

subsection \<open>The model\<close>

type_synonym ('k, 'v) btree = "('k \<times> 'v) list"

definition bt_wf :: "('k::linorder, 'v) btree \<Rightarrow> bool" where
  "bt_wf m \<longleftrightarrow> sorted_wrt (<) (map fst m)"

abbreviation bt_get :: "('k, 'v) btree \<Rightarrow> 'k \<Rightarrow> 'v option" where
  "bt_get \<equiv> map_of"

definition bt_keys :: "('k, 'v) btree \<Rightarrow> 'k list" where
  "bt_keys m = map fst m"

definition bt_values :: "('k, 'v) btree \<Rightarrow> 'v list" where
  "bt_values m = map snd m"

text \<open>\<open>BTreeMap::insert\<close>; the displaced value is what \<open>bt_get\<close> returned before.\<close>

fun bt_insert :: "'k::linorder \<Rightarrow> 'v \<Rightarrow> ('k, 'v) btree \<Rightarrow> ('k, 'v) btree" where
  "bt_insert k v [] = [(k, v)]"
| "bt_insert k v ((k', v') # m) =
     (if k < k' then (k, v) # (k', v') # m
      else if k = k' then (k, v) # m
      else (k', v') # bt_insert k v m)"

text \<open>\<open>entry(k).or_default()\<close> followed by an in-place change of the value.\<close>

definition bt_update :: "'k::linorder \<Rightarrow> 'v \<Rightarrow> ('v \<Rightarrow> 'v) \<Rightarrow> ('k, 'v) btree \<Rightarrow> ('k, 'v) btree" where
  "bt_update k d f m = bt_insert k (f (case bt_get m k of None \<Rightarrow> d | Some v \<Rightarrow> v)) m"

definition bt_remove :: "'k \<Rightarrow> ('k, 'v) btree \<Rightarrow> ('k, 'v) btree" where
  "bt_remove k m = filter (\<lambda>kv. fst kv \<noteq> k) m"

definition bt_collect :: "('k::linorder \<times> 'v) list \<Rightarrow> ('k, 'v) btree" where
  "bt_collect kvs = foldl (\<lambda>m (k, v). bt_insert k v m) [] kvs"

lemma bt_insert_keys: "set (map fst (bt_insert k v m)) = Set.insert k (set (map fst m))"
  by (induction k v m rule: bt_insert.induct) auto

lemma bt_insert_get [simp]: "bt_get (bt_insert k v m) = (bt_get m)(k \<mapsto> v)"
  by (induction k v m rule: bt_insert.induct) (auto simp: fun_eq_iff)

lemma bt_wf_Nil [simp]: "bt_wf []"
  by (simp add: bt_wf_def)

lemma bt_wf_insert [simp]: "bt_wf m \<Longrightarrow> bt_wf (bt_insert k v m)"
proof (induction k v m rule: bt_insert.induct)
  case (2 k v k' v' m)
  have "\<forall>x \<in> set (map fst (bt_insert k v m)). x = k \<or> x \<in> set (map fst m)"
    unfolding bt_insert_keys by auto
  with 2 show ?case by (fastforce simp: bt_wf_def)
qed (simp add: bt_wf_def)

lemma bt_wf_distinct: "bt_wf m \<Longrightarrow> distinct (map fst m)"
  unfolding bt_wf_def using strict_sorted_iff by blast

lemma bt_get_mem: "bt_wf m \<Longrightarrow> (k, v) \<in> set m \<longleftrightarrow> bt_get m k = Some v"
  using bt_wf_distinct by fastforce

lemma bt_wf_filter: "bt_wf m \<Longrightarrow> bt_wf (filter P m)"
proof (induction m)
  case (Cons x m)
  then show ?case by (cases "P x") (auto simp: bt_wf_def)
qed simp

lemma bt_wf_remove [simp]: "bt_wf m \<Longrightarrow> bt_wf (bt_remove k m)"
  by (simp add: bt_remove_def bt_wf_filter)

lemma bt_get_remove [simp]: "bt_get (bt_remove k m) = (bt_get m)(k := None)"
  by (rule ext, induction m) (auto simp: bt_remove_def)

lemma bt_wf_update [simp]: "bt_wf m \<Longrightarrow> bt_wf (bt_update k d f m)"
  by (simp add: bt_update_def)

lemma bt_get_update [simp]:
  "bt_get (bt_update k d f m) =
     (bt_get m)(k \<mapsto> f (case bt_get m k of None \<Rightarrow> d | Some v \<Rightarrow> v))"
  by (simp add: bt_update_def)

text \<open>Entries in ascending order are determined by the lookups.\<close>

lemma bt_wf_Cons: "bt_wf ((k, v) # m) \<longleftrightarrow> (\<forall>k' \<in> fst ` set m. k < k') \<and> bt_wf m"
  by (simp add: bt_wf_def)

lemma bt_get_head:
  assumes "bt_wf ((k, v) # m)" "bt_get ((k, v) # m) = bt_get n" "bt_wf n"
  obtains m' where "n = (k, v) # m'"
proof (cases n)
  case Nil
  with assms(2) show ?thesis by (auto simp: fun_eq_iff split: if_splits)
next
  case (Cons x n')
  obtain k' v' where x: "x = (k', v')" by force
  have "bt_get n k = Some v" using assms(2) by (metis map_of_Cons_code(2))
  then have "k' \<le> k" using assms(3) by (auto simp: Cons x bt_wf_Cons split: if_splits dest!: map_of_SomeD)
  moreover have "bt_get ((k, v) # m) k' = Some v'" using assms(2) by (simp add: Cons x)
  then have "k \<le> k'" using assms(1) by (auto simp: bt_wf_Cons split: if_splits dest!: map_of_SomeD)
  ultimately have "k = k'" by simp
  with \<open>bt_get n k = Some v\<close> show ?thesis using that by (simp add: Cons x)
qed

lemma bt_eqI:
  "bt_wf m \<Longrightarrow> bt_wf n \<Longrightarrow> bt_get m = bt_get n \<Longrightarrow> m = n"
proof (induction m arbitrary: n)
  case Nil
  then have "bt_get n = Map.empty" by simp
  then show ?case by simp
next
  case (Cons x m)
  obtain k v where x: "x = (k, v)" by force
  obtain n' where n: "n = (k, v) # n'"
    using bt_get_head [OF Cons.prems(1,3,2) [unfolded x]] by metis
  have "bt_get m k = None" "bt_get n' k = None"
    using Cons.prems(1,2) by (auto simp: x n bt_wf_Cons map_of_eq_None_iff)
  then have "bt_get m y = bt_get n' y" for y
    using fun_cong [OF Cons.prems(3), of y] by (cases "y = k") (simp_all add: x n)
  then have "bt_get m = bt_get n'" by (rule ext)
  with Cons show ?case by (simp add: x n bt_wf_Cons)
qed

interpretation btm: ordered_map bt_get bt_insert "[]" bt_keys bt_wf
  by unfold_locales (auto simp: bt_keys_def dom_map_of_conv_image_fst bt_wf_def [symmetric])

lemma bt_collect_eq: "bt_collect kvs = btm.collect_map kvs"
  by (simp add: bt_collect_def btm.collect_map_def)

lemma bt_wf_collect [simp]: "bt_wf (bt_collect kvs)"
  unfolding bt_collect_eq by (rule btm.wf_collect)

lemma bt_get_collect: "distinct (map fst kvs) \<Longrightarrow> bt_get (bt_collect kvs) = map_of kvs"
  unfolding bt_collect_eq by (rule btm.lookup_collect_distinct)

subsection \<open>Sets\<close>

type_synonym 'a btset = "'a list"

fun bs_insert :: "'a::linorder \<Rightarrow> 'a btset \<Rightarrow> 'a btset" where
  "bs_insert x [] = [x]"
| "bs_insert x (y # ys) = (if x < y then x # y # ys else if x = y then y # ys else y # bs_insert x ys)"

definition bs_collect :: "'a::linorder list \<Rightarrow> 'a btset" where
  "bs_collect xs = foldl (\<lambda>s x. bs_insert x s) [] xs"

definition bs_wf :: "'a::linorder btset \<Rightarrow> bool" where
  "bs_wf s \<longleftrightarrow> sorted_wrt (<) s"

lemma bs_insert_set [simp]: "set (bs_insert x s) = Set.insert x (set s)"
  by (induction x s rule: bs_insert.induct) auto

lemma bs_wf_Nil [simp]: "bs_wf []"
  by (simp add: bs_wf_def)

lemma bs_insert_nonempty [simp]: "bs_insert x s \<noteq> []"
  by (cases s) auto

lemma bs_wf_insert [simp]: "bs_wf s \<Longrightarrow> bs_wf (bs_insert x s)"
  by (induction x s rule: bs_insert.induct) (fastforce simp: bs_wf_def)+

lemma bs_collect_aux:
  "bs_wf s \<Longrightarrow> bs_wf (foldl (\<lambda>s x. bs_insert x s) s xs) \<and>
     set (foldl (\<lambda>s x. bs_insert x s) s xs) = set s \<union> set xs"
  by (induction xs arbitrary: s) auto

lemma bs_collect_set [simp]: "set (bs_collect xs) = set xs"
  by (simp add: bs_collect_def bs_collect_aux)

lemma bs_wf_collect [simp]: "bs_wf (bs_collect xs)"
  by (simp add: bs_collect_def bs_collect_aux)

lemma bs_eqI: "bs_wf s \<Longrightarrow> bs_wf t \<Longrightarrow> set s = set t \<Longrightarrow> s = t"
  unfolding bs_wf_def by (rule strict_sorted_equal)

lemma bs_collect_eq_iff: "bs_collect xs = bs_collect ys \<longleftrightarrow> set xs = set ys"
  by (metis bs_collect_set bs_eqI bs_wf_collect)

end
