(* ===== verification/Types.thy ===== *)
theory Types
  imports BTree "HOL-Library.Char_ord" "HOL-Library.List_Lexorder"
    "HOL-Library.Product_Lexorder" "HOL-Library.Option_ord"
begin

text \<open>
  The identities and coordinates of \<open>soopy/src/_0_types.rs\<close> and \<open>_7b_source_actions.rs\<close>.
  The newtypes over \<open>Arc<str>\<close> are synonyms of \<open>string\<close>. A type the sources use as an ordered
  map key (\<open>#[derive(PartialOrd, Ord)]\<close>) is a datatype with selectors and an instance of
  \<open>linorder\<close>: the derived order compares the variant, then the fields in declaration order,
  which is the order of the tuple its key function gives. \<open>None\<close> is below \<open>Some\<close>, strings and
  byte arrays compare lexicographically by unsigned byte, as in Rust.
\<close>

type_synonym repository_id = string
type_synonym worktree_id = string
type_synonym directory_id = string
type_synonym root_path = string
type_synonym object_id = string
type_synonym repo_path = string
type_synonym digest = bytes

subsection \<open>Contents and revisions\<close>

datatype content_id = GitBlob object_id | Blake3 digest

fun content_key :: "content_id \<Rightarrow> nat \<times> string \<times> bytes" where
  "content_key (GitBlob oid) = (0, oid, [])"
| "content_key (Blake3 d) = (1, [], d)"

lemma content_key_inject: "content_key x = content_key y \<longleftrightarrow> x = y"
  by (cases x; cases y) auto

instantiation content_id :: linorder
begin

definition less_eq_content_id :: "content_id \<Rightarrow> content_id \<Rightarrow> bool" where
  "x \<le> y \<longleftrightarrow> content_key x \<le> content_key y"

definition less_content_id :: "content_id \<Rightarrow> content_id \<Rightarrow> bool" where
  "x < y \<longleftrightarrow> content_key x < content_key y"

instance
  by standard (auto simp: less_eq_content_id_def less_content_id_def content_key_inject [symmetric])

end

datatype revision_id =
  RevWorktree (rev_worktree: worktree_id) (rev_head: "object_id option") (rev_dirty: bool)
| RevCommit object_id

fun revision_key :: "revision_id \<Rightarrow> nat \<times> string \<times> string option \<times> bool" where
  "revision_key (RevWorktree w h d) = (0, w, h, d)"
| "revision_key (RevCommit oid) = (1, oid, None, False)"

lemma revision_key_inject: "revision_key x = revision_key y \<longleftrightarrow> x = y"
  by (cases x; cases y) auto

instantiation revision_id :: linorder
begin

definition less_eq_revision_id :: "revision_id \<Rightarrow> revision_id \<Rightarrow> bool" where
  "x \<le> y \<longleftrightarrow> revision_key x \<le> revision_key y"

definition less_revision_id :: "revision_id \<Rightarrow> revision_id \<Rightarrow> bool" where
  "x < y \<longleftrightarrow> revision_key x < revision_key y"

instance
  by standard (auto simp: less_eq_revision_id_def less_revision_id_def revision_key_inject [symmetric])

end

subsection \<open>File coordinates\<close>

datatype file_ref = FileRef (fr_directory: directory_id) (fr_path: root_path)

datatype source_ref =
  SourceRef (sr_repository: repository_id) (sr_revision: revision_id) (sr_path: repo_path)

fun file_ref_key :: "file_ref \<Rightarrow> string \<times> string" where
  "file_ref_key (FileRef d p) = (d, p)"

fun source_ref_key :: "source_ref \<Rightarrow> string \<times> revision_id \<times> string" where
  "source_ref_key (SourceRef r v p) = (r, v, p)"

lemma file_ref_key_inject: "file_ref_key x = file_ref_key y \<longleftrightarrow> x = y"
  by (cases x; cases y) auto

lemma source_ref_key_inject: "source_ref_key x = source_ref_key y \<longleftrightarrow> x = y"
  by (cases x; cases y) auto

instantiation file_ref :: linorder
begin

definition less_eq_file_ref :: "file_ref \<Rightarrow> file_ref \<Rightarrow> bool" where
  "x \<le> y \<longleftrightarrow> file_ref_key x \<le> file_ref_key y"

definition less_file_ref :: "file_ref \<Rightarrow> file_ref \<Rightarrow> bool" where
  "x < y \<longleftrightarrow> file_ref_key x < file_ref_key y"

instance
  by standard (auto simp: less_eq_file_ref_def less_file_ref_def file_ref_key_inject [symmetric])

end

instantiation source_ref :: linorder
begin

definition less_eq_source_ref :: "source_ref \<Rightarrow> source_ref \<Rightarrow> bool" where
  "x \<le> y \<longleftrightarrow> source_ref_key x \<le> source_ref_key y"

definition less_source_ref :: "source_ref \<Rightarrow> source_ref \<Rightarrow> bool" where
  "x < y \<longleftrightarrow> source_ref_key x < source_ref_key y"

instance
  by standard
    (auto simp: less_eq_source_ref_def less_source_ref_def source_ref_key_inject [symmetric])

end

record source_entry =
  se_source :: source_ref
  se_content :: content_id
  se_size :: u64

record file_entry =
  fe_file :: file_ref
  fe_content :: content_id
  fe_size :: u64

record repository =
  repo_root :: string
  repo_identity :: repository_id
  repo_worktree :: worktree_id

record read_request =
  rr_source :: source_ref
  rr_expected :: "content_id option"

record source_bytes =
  sb_source :: source_ref
  sb_content :: content_id
  sb_bytes :: bytes

record file_read_request =
  frr_file :: file_ref
  frr_expected :: "content_id option"

datatype source_span = SourceSpan (ss_source: source_ref) (ss_start: u64) (ss_end: u64)

subsection \<open>Mutation roots, paths and sources\<close>

datatype source_root_id =
  RootDirectory directory_id
| RootGitWorktree repository_id worktree_id

datatype source_path = PathDirectory root_path | PathGit repo_path

fun source_path_key :: "source_path \<Rightarrow> nat \<times> string" where
  "source_path_key (PathDirectory p) = (0, p)"
| "source_path_key (PathGit p) = (1, p)"

lemma source_path_key_inject: "source_path_key x = source_path_key y \<longleftrightarrow> x = y"
  by (cases x; cases y) auto

instantiation source_path :: linorder
begin

definition less_eq_source_path :: "source_path \<Rightarrow> source_path \<Rightarrow> bool" where
  "x \<le> y \<longleftrightarrow> source_path_key x \<le> source_path_key y"

definition less_source_path :: "source_path \<Rightarrow> source_path \<Rightarrow> bool" where
  "x < y \<longleftrightarrow> source_path_key x < source_path_key y"

instance
  by standard
    (auto simp: less_eq_source_path_def less_source_path_def source_path_key_inject [symmetric])

end

datatype action_source = SourceDirectory file_ref | SourceGit source_ref

fun action_source_key :: "action_source \<Rightarrow> file_ref option \<times> source_ref option" where
  "action_source_key (SourceDirectory f) = (Some f, None)"
| "action_source_key (SourceGit s) = (None, Some s)"

text \<open>
  The variant order puts \<open>Directory\<close> below \<open>Git\<close>, so the tag is compared before the key.
\<close>

fun action_source_tag :: "action_source \<Rightarrow> nat" where
  "action_source_tag (SourceDirectory f) = 0"
| "action_source_tag (SourceGit s) = 1"

definition action_source_rank ::
  "action_source \<Rightarrow> nat \<times> file_ref option \<times> source_ref option" where
  "action_source_rank x = (action_source_tag x, action_source_key x)"

lemma action_source_rank_inject: "action_source_rank x = action_source_rank y \<longleftrightarrow> x = y"
  by (cases x; cases y) (auto simp: action_source_rank_def)

instantiation action_source :: linorder
begin

definition less_eq_action_source :: "action_source \<Rightarrow> action_source \<Rightarrow> bool" where
  "x \<le> y \<longleftrightarrow> action_source_rank x \<le> action_source_rank y"

definition less_action_source :: "action_source \<Rightarrow> action_source \<Rightarrow> bool" where
  "x < y \<longleftrightarrow> action_source_rank x < action_source_rank y"

instance
  by standard
    (auto simp: less_eq_action_source_def less_action_source_def action_source_rank_inject [symmetric])

end

datatype action_span = ActionSpan (as_source: action_source) (as_start: u64) (as_end: u64)

fun action_span_key :: "action_span \<Rightarrow> action_source \<times> u64 \<times> u64" where
  "action_span_key (ActionSpan s a b) = (s, a, b)"

lemma action_span_key_inject: "action_span_key x = action_span_key y \<longleftrightarrow> x = y"
  by (cases x; cases y) auto

instantiation action_span :: linorder
begin

definition less_eq_action_span :: "action_span \<Rightarrow> action_span \<Rightarrow> bool" where
  "x \<le> y \<longleftrightarrow> action_span_key x \<le> action_span_key y"

definition less_action_span :: "action_span \<Rightarrow> action_span \<Rightarrow> bool" where
  "x < y \<longleftrightarrow> action_span_key x < action_span_key y"

instance
  by standard
    (auto simp: less_eq_action_span_def less_action_span_def action_span_key_inject [symmetric])

end

datatype action_producer =
  ActionProducer (ap_id: string) (ap_order: "u64 option") (ap_rule: "string option")

fun action_producer_key :: "action_producer \<Rightarrow> string \<times> u64 option \<times> string option" where
  "action_producer_key (ActionProducer i ord r) = (i, ord, r)"

lemma action_producer_key_inject: "action_producer_key x = action_producer_key y \<longleftrightarrow> x = y"
  by (cases x; cases y) auto

instantiation action_producer :: linorder
begin

definition less_eq_action_producer :: "action_producer \<Rightarrow> action_producer \<Rightarrow> bool" where
  "x \<le> y \<longleftrightarrow> action_producer_key x \<le> action_producer_key y"

definition less_action_producer :: "action_producer \<Rightarrow> action_producer \<Rightarrow> bool" where
  "x < y \<longleftrightarrow> action_producer_key x < action_producer_key y"

instance
  by standard
    (auto simp: less_eq_action_producer_def less_action_producer_def
      action_producer_key_inject [symmetric])

end

subsection \<open>Source actions\<close>

record text_edit =
  te_range :: action_span
  te_replacement :: bytes
  te_producer :: action_producer

datatype source_action =
  ActCreate source_path bytes
| ActReplace action_source content_id "text_edit list"
| ActMove action_source content_id source_path
| ActDelete action_source content_id

record stage_request =
  rq_schema_version :: u32
  rq_root :: source_root_id
  rq_actions :: "source_action list"

subsection \<open>Planned files\<close>

datatype planned_file_kind = KCreate | KReplace | KMove | KDelete

fun kind_key :: "planned_file_kind \<Rightarrow> nat" where
  "kind_key KCreate = 0"
| "kind_key KReplace = 1"
| "kind_key KMove = 2"
| "kind_key KDelete = 3"

lemma kind_key_inject: "kind_key x = kind_key y \<longleftrightarrow> x = y"
  by (cases x; cases y) auto

instantiation planned_file_kind :: linorder
begin

definition less_eq_planned_file_kind :: "planned_file_kind \<Rightarrow> planned_file_kind \<Rightarrow> bool" where
  "x \<le> y \<longleftrightarrow> kind_key x \<le> kind_key y"

definition less_planned_file_kind :: "planned_file_kind \<Rightarrow> planned_file_kind \<Rightarrow> bool" where
  "x < y \<longleftrightarrow> kind_key x < kind_key y"

instance
  by standard
    (auto simp: less_eq_planned_file_kind_def less_planned_file_kind_def kind_key_inject [symmetric])

end

record file_mode_observation =
  fmo_readonly :: bool
  fmo_unix_mode :: "u32 option"

record normalized_edit =
  ne_start :: u64
  ne_end :: u64
  ne_replacement :: bytes
  ne_producers :: "action_producer list"

record planned_file =
  pf_kind :: planned_file_kind
  pf_source :: "action_source option"
  pf_path_before :: "source_path option"
  pf_path_after :: "source_path option"
  pf_content_before :: "content_id option"
  pf_content_after :: "content_id option"
  pf_mode_before :: "file_mode_observation option"
  pf_bytes_before :: "bytes option"
  pf_bytes_after :: "bytes option"
  pf_edits :: "normalized_edit list"

record mutation_plan =
  mp_root :: source_root_id
  mp_files :: "planned_file list"

fun source_path_of :: "action_source \<Rightarrow> source_path" where
  "source_path_of (SourceDirectory f) = PathDirectory (fr_path f)"
| "source_path_of (SourceGit s) = PathGit (sr_path s)"

fun path_text :: "source_path \<Rightarrow> string" where
  "path_text (PathDirectory p) = p"
| "path_text (PathGit p) = p"

end
