(* ===== verification/Edits.thy ===== *)
theory Edits
  imports Types
begin

text \<open>
  The edit half of the mutation planner, \<open>soopy/src/_7d_mutation_plan.rs\<close>:
  \<open>normalize_edits\<close> merges the edits of one source, refuses the conflicting ones and fixes an
  order; \<open>apply_edits\<close> splices them into the original bytes from the last to the first.
  The refusals of the planner are here as well, since both halves return them.
\<close>

subsection \<open>Refusals\<close>

datatype validation_error =
  UnsupportedSchemaVersion u32
| PathRootMismatch nat source_path source_root_id
| SourceRootMismatch nat action_source source_root_id
| ImmutableGitSource nat source_ref
| EditSourceMismatch nat nat action_source action_source
| InvertedEditRange nat nat u64 u64

datatype invalid_path_reason = PathEmpty | PathAbsolute | PathTraversal | PathRecordSeparator

record invalid_mutation_path =
  imp_action_index :: nat
  imp_path :: source_path
  imp_reason :: invalid_path_reason

datatype mutation_conflict =
  ExpectedContentMismatch action_source "content_id list"
| SourceOperationCollision action_source
| PathCollision source_path
| OccupiedDestination source_path
| EditOutOfBounds action_source u64 u64 u64
| OverlappingEdits action_source normalized_edit normalized_edit
| SameOffsetOrderRequired action_source u64 "normalized_edit list"
| SameOffsetOrderCollision action_source u64 "normalized_edit list"

record stale_input =
  si_source :: action_source
  si_expected :: content_id
  si_observed :: "content_id option"

datatype stage_refusal =
  RefRootMismatch source_root_id source_root_id
| RefInvalidRequest "validation_error list"
| RefInvalidPath "invalid_mutation_path list"
| RefConflict "mutation_conflict list"
| RefStale "stale_input list"
| RefUnreadable action_source string
| RefStore string

subsection \<open>Normalization\<close>

type_synonym edit_key = "u64 \<times> u64 \<times> bytes"

definition edit_key_of :: "text_edit \<Rightarrow> edit_key" where
  "edit_key_of e = (as_start (te_range e), as_end (te_range e), te_replacement e)"

definition merge_edits :: "text_edit list \<Rightarrow> (edit_key, action_producer btset) btree" where
  "merge_edits edits =
     foldl (\<lambda>m e. bt_update (edit_key_of e) [] (bs_insert (te_producer e)) m) [] edits"

definition out_of_bounds :: "u64 \<Rightarrow> edit_key \<times> action_producer btset \<Rightarrow> bool" where
  "out_of_bounds input_len = (\<lambda>((s, e, _), _). s > input_len \<or> e > input_len)"

definition normalized_of :: "edit_key \<times> action_producer btset \<Rightarrow> normalized_edit" where
  "normalized_of = (\<lambda>((s, e, r), ps).
     \<lparr>ne_start = s, ne_end = e, ne_replacement = r, ne_producers = ps\<rparr>)"

definition is_nonempty :: "normalized_edit \<Rightarrow> bool" where
  "is_nonempty e \<longleftrightarrow> ne_start e < ne_end e"

definition is_insertion :: "normalized_edit \<Rightarrow> bool" where
  "is_insertion e \<longleftrightarrow> ne_start e = ne_end e"

definition find_overlap :: "normalized_edit list \<Rightarrow> (normalized_edit \<times> normalized_edit) option" where
  "find_overlap nonempty = find (\<lambda>(l, r). ne_end l > ne_start r) (windows2 nonempty)"

definition covering :: "normalized_edit list \<Rightarrow> normalized_edit \<Rightarrow> normalized_edit option" where
  "covering nonempty ins = find (\<lambda>e. ne_start e < ne_start ins \<and> ne_start ins < ne_end e) nonempty"

fun find_covered ::
  "normalized_edit list \<Rightarrow> normalized_edit list \<Rightarrow> (normalized_edit \<times> normalized_edit) option" where
  "find_covered nonempty [] = None"
| "find_covered nonempty (ins # rest) =
     (case covering nonempty ins of Some e \<Rightarrow> Some (e, ins) | None \<Rightarrow> find_covered nonempty rest)"

definition insertion_groups :: "normalized_edit list \<Rightarrow> (u64, normalized_edit list) btree" where
  "insertion_groups normalized =
     foldl (\<lambda>g e. bt_update (ne_start e) [] (\<lambda>xs. xs @ [e]) g) [] (filter is_insertion normalized)"

type_synonym orders = "(u64 \<times> bytes, u64) btree"

record order_scan =
  os_claimed :: "u64 btset"
  os_missing :: bool
  os_collision :: bool
  os_orders :: orders

text \<open>The single order all producers of one insertion agree on, if there is one.\<close>

definition agreed_order :: "normalized_edit \<Rightarrow> u64 option" where
  "agreed_order e =
     (case bs_collect (map ap_order (ne_producers e)) of [Some order] \<Rightarrow> Some order | _ \<Rightarrow> None)"

definition scan_edit :: "u64 \<Rightarrow> order_scan \<Rightarrow> normalized_edit \<Rightarrow> order_scan" where
  "scan_edit offset st e =
     (case agreed_order e of
        None \<Rightarrow> st\<lparr>os_missing := True\<rparr>
      | Some order \<Rightarrow>
          st\<lparr>os_claimed := bs_insert order (os_claimed st),
             os_collision := (os_collision st \<or> order \<in> set (os_claimed st)),
             os_orders := bt_insert (offset, ne_replacement e) order (os_orders st)\<rparr>)"

definition scan_group :: "orders \<Rightarrow> u64 \<Rightarrow> normalized_edit list \<Rightarrow> order_scan" where
  "scan_group orders offset es =
     foldl (scan_edit offset)
       \<lparr>os_claimed = [], os_missing = False, os_collision = False, os_orders = orders\<rparr> es"

fun collect_orders ::
  "action_source \<Rightarrow> (u64, normalized_edit list) btree \<Rightarrow> orders \<Rightarrow> mutation_conflict + orders" where
  "collect_orders source [] orders = Inr orders"
| "collect_orders source ((offset, es) # groups) orders =
     (if length es < 2 then collect_orders source groups orders
      else let st = scan_group orders offset es in
        if os_missing st then Inl (SameOffsetOrderRequired source offset es)
        else if os_collision st then Inl (SameOffsetOrderCollision source offset es)
        else collect_orders source groups (os_orders st))"

definition edit_sort_key :: "orders \<Rightarrow> normalized_edit \<Rightarrow> u64 \<times> u64 option \<times> u64 \<times> bytes" where
  "edit_sort_key orders e =
     (ne_start e, bt_get orders (ne_start e, ne_replacement e), ne_end e, ne_replacement e)"

definition normalize_edits ::
  "action_source \<Rightarrow> text_edit list \<Rightarrow> nat \<Rightarrow> stage_refusal + normalized_edit list" where
  "normalize_edits source edits input_length =
     (let input_len = word_of_nat input_length;
          merged = merge_edits edits
      in case find (out_of_bounds input_len) merged of
           Some ((s, e, _), _) \<Rightarrow> Inl (RefConflict [EditOutOfBounds source s e input_len])
         | None \<Rightarrow>
       (let normalized = map normalized_of merged;
            nonempty = filter is_nonempty normalized
        in case find_overlap nonempty of
             Some (l, r) \<Rightarrow> Inl (RefConflict [OverlappingEdits source l r])
           | None \<Rightarrow>
          (case find_covered nonempty (filter is_insertion normalized) of
             Some (l, r) \<Rightarrow> Inl (RefConflict [OverlappingEdits source l r])
           | None \<Rightarrow>
            (case collect_orders source (insertion_groups normalized) [] of
               Inl c \<Rightarrow> Inl (RefConflict [c])
             | Inr orders \<Rightarrow> Inr (sort_key (edit_sort_key orders) normalized)))))"

subsection \<open>Application\<close>

text \<open>
  \<open>Vec::splice(start..end, ..)\<close> panics unless \<open>start \<le> end \<le> len\<close>; a panic is \<open>None\<close>.
\<close>

definition splice_checked :: "bytes \<Rightarrow> nat \<Rightarrow> nat \<Rightarrow> bytes \<Rightarrow> bytes option" where
  "splice_checked out i j r =
     (if i \<le> j \<and> j \<le> length out then Some (splice_bytes out i j r) else None)"

fun apply_rev :: "bytes \<Rightarrow> normalized_edit list \<Rightarrow> bytes option" where
  "apply_rev out [] = Some out"
| "apply_rev out (e # es) =
     (case splice_checked out (unat (ne_start e)) (unat (ne_end e)) (ne_replacement e) of
        None \<Rightarrow> None | Some out' \<Rightarrow> apply_rev out' es)"

definition apply_edits :: "bytes \<Rightarrow> normalized_edit list \<Rightarrow> bytes option" where
  "apply_edits input edits = apply_rev input (rev edits)"

end
