(* ===== verification/EditProofs.thy ===== *)
theory EditProofs
  imports Edits
begin

text \<open>
  Correctness of the edit half of the planner. \<open>merged_list\<close> is the list of merged edits in key
  order; \<open>normalize_edits_Ok\<close> says exactly when normalization succeeds and what it returns;
  \<open>weave\<close> is the reference semantics of a list of edits, with which the splices from the last
  edit to the first agree when the list is \<open>chained\<close>. The normalized list is chained except
  where a replacement starts at an offset at which two or more insertions compete for an order
  (\<open>order_clash\<close>): there the code sorts the replacement before the insertions and the splice
  takes the inserted text out again, as \<open>insertion_clash_loses_text\<close> shows.
\<close>

subsection \<open>Generic facts\<close>

lemma bs_collect_snoc: "bs_collect (xs @ [x]) = bs_insert x (bs_collect xs)"
  by (simp add: bs_collect_def)

lemma sorted_wrt_windows2:
  assumes "\<forall>(a, b) \<in> set (windows2 xs). R a b"
    and "\<And>a b c. a \<in> set xs \<Longrightarrow> b \<in> set xs \<Longrightarrow> c \<in> set xs \<Longrightarrow> R a b \<Longrightarrow> R b c \<Longrightarrow> R a c"
  shows "sorted_wrt R xs"
  using assms
proof (induction xs rule: windows2.induct)
  case (1 x y zs)
  have tail: "sorted_wrt R (y # zs)"
  proof (rule "1.IH")
    fix a b c
    assume "a \<in> set (y # zs)" "b \<in> set (y # zs)" "c \<in> set (y # zs)" "R a b" "R b c"
    then show "R a c" using "1.prems"(2) [of a b c] by simp
  qed (use "1.prems"(1) in auto)
  have "R x z" if "z \<in> set zs" for z
  proof (rule "1.prems"(2) [of x y z])
    show "R x y" using "1.prems"(1) by simp
    show "R y z" using tail that by simp
  qed (use that in simp_all)
  with "1.prems"(1) tail show ?case by simp
qed simp_all

lemma sorted_wrt_windows2_conv:
  "sorted_wrt R xs \<Longrightarrow> (a, b) \<in> set (windows2 xs) \<Longrightarrow> R a b"
  by (induction xs rule: windows2.induct) auto

lemma sorted_wrt_irrefl_distinct: "sorted_wrt R xs \<Longrightarrow> (\<And>x. \<not> R x x) \<Longrightarrow> distinct xs"
  by (induction xs) auto

lemma sorted_wrt_distinct_pair:
  assumes "sorted_wrt R xs" "a \<in> set xs" "b \<in> set xs" "a \<noteq> b"
  shows "R a b \<or> R b a"
  using assms by (induction xs) auto

subsection \<open>Merging\<close>

lemma merge_edits_snoc:
  "merge_edits (es @ [e]) =
     bt_update (edit_key_of e) [] (bs_insert (te_producer e)) (merge_edits es)"
  by (simp add: merge_edits_def)

lemma bt_wf_merge [simp]: "bt_wf (merge_edits es)"
  by (induction es rule: rev_induct) (simp_all add: merge_edits_snoc, simp add: merge_edits_def)

definition producers_of :: "text_edit list \<Rightarrow> edit_key \<Rightarrow> action_producer btset" where
  "producers_of es k = bs_collect (map te_producer (filter (\<lambda>e. edit_key_of e = k) es))"

lemma merge_get:
  "bt_get (merge_edits es) k =
     (if k \<in> edit_key_of ` set es then Some (producers_of es k) else None)"
proof (induction es rule: rev_induct)
  case Nil
  then show ?case by (simp add: merge_edits_def)
next
  case (snoc e es)
  show ?case
  proof (cases "edit_key_of e = k")
    case True
    show ?thesis
    proof (cases "k \<in> edit_key_of ` set es")
      case True
      then show ?thesis
        using \<open>edit_key_of e = k\<close> snoc by (simp add: merge_edits_snoc producers_of_def bs_collect_snoc)
    next
      case False
      then have "filter (\<lambda>e. edit_key_of e = k) es = []" by (auto simp: filter_empty_conv)
      with False show ?thesis
        using \<open>edit_key_of e = k\<close> snoc
        by (simp add: merge_edits_snoc producers_of_def bs_collect_def)
    qed
  next
    case False
    with snoc show ?thesis by (auto simp: merge_edits_snoc producers_of_def)
  qed
qed

lemma merge_edits_set_cong:
  assumes "set es = set fs"
  shows "merge_edits es = merge_edits fs"
proof (rule bt_eqI)
  have "producers_of es k = producers_of fs k" for k
    unfolding producers_of_def bs_collect_eq_iff using assms by auto
  then show "bt_get (merge_edits es) = bt_get (merge_edits fs)"
    by (auto simp: fun_eq_iff merge_get assms)
qed simp_all

lemma set_merge: "set (merge_edits es) = (\<lambda>k. (k, producers_of es k)) ` edit_key_of ` set es"
proof (rule set_eqI)
  fix x :: "edit_key \<times> action_producer btset"
  have "x \<in> set (merge_edits es) \<longleftrightarrow> bt_get (merge_edits es) (fst x) = Some (snd x)"
    using bt_get_mem [OF bt_wf_merge, of "fst x" "snd x" es] by simp
  also have "\<dots> \<longleftrightarrow> fst x \<in> edit_key_of ` set es \<and> x = (fst x, producers_of es (fst x))"
    by (cases x) (simp only: merge_get fst_conv snd_conv prod.inject, auto)
  also have "\<dots> \<longleftrightarrow> x \<in> (\<lambda>k. (k, producers_of es k)) ` edit_key_of ` set es"
    by (simp only: image_iff Bex_def) (metis fst_conv)
  finally show "x \<in> set (merge_edits es) \<longleftrightarrow>
      x \<in> (\<lambda>k. (k, producers_of es k)) ` edit_key_of ` set es" .
qed

subsection \<open>The normalized list\<close>

definition ne_key :: "normalized_edit \<Rightarrow> edit_key" where
  "ne_key e = (ne_start e, ne_end e, ne_replacement e)"

definition merged_list :: "text_edit list \<Rightarrow> normalized_edit list" where
  "merged_list es = map normalized_of (merge_edits es)"

lemma ne_key_normalized_of: "ne_key (normalized_of x) = fst x"
  by (cases x) (auto simp: ne_key_def normalized_of_def split: prod.splits)

lemma map_ne_key_merged: "map ne_key (merged_list es) = map fst (merge_edits es)"
  by (simp add: merged_list_def ne_key_normalized_of o_def)

lemma merged_sorted: "sorted_wrt (\<lambda>a b. ne_key a < ne_key b) (merged_list es)"
  using bt_wf_merge [of es] unfolding bt_wf_def
  by (simp flip: map_ne_key_merged add: sorted_wrt_map)

lemma merged_inj: "a \<in> set (merged_list es) \<Longrightarrow> b \<in> set (merged_list es) \<Longrightarrow> ne_key a = ne_key b \<Longrightarrow> a = b"
  using sorted_wrt_distinct_pair [OF merged_sorted, of a es b] by fastforce

lemma merged_distinct: "distinct (merged_list es)"
  by (rule sorted_wrt_irrefl_distinct [OF merged_sorted]) simp

lemma merged_mem:
  "n \<in> set (merged_list es) \<longleftrightarrow>
     ne_key n \<in> edit_key_of ` set es \<and> n = normalized_of (ne_key n, producers_of es (ne_key n))"
proof -
  have "n \<in> set (merged_list es) \<longleftrightarrow>
      (\<exists>k \<in> edit_key_of ` set es. n = normalized_of (k, producers_of es k))"
    unfolding merged_list_def set_map set_merge by blast
  then show ?thesis by (metis ne_key_normalized_of fst_conv)
qed


subsection \<open>Groups of insertions and their orders\<close>

lemma group_get:
  "bt_get (foldl (\<lambda>g e. bt_update (f e) [] (\<lambda>xs. xs @ [e]) g) [] es) k =
     (if \<exists>e \<in> set es. f e = k then Some (filter (\<lambda>e. f e = k) es) else None)"
proof (induction es rule: rev_induct)
  case (snoc e es)
  show ?case
  proof (cases "f e = k")
    case True
    have "filter (\<lambda>e. f e = k) es = []" if "\<not> (\<exists>e \<in> set es. f e = k)"
      using that by (auto simp: filter_empty_conv)
    with True snoc show ?thesis by auto
  next
    case False
    with snoc show ?thesis by auto
  qed
qed simp

lemma group_wf: "bt_wf (foldl (\<lambda>g e. bt_update (f e) [] (\<lambda>xs. xs @ [e]) g) [] es)"
  by (induction es rule: rev_induct) simp_all

lemma bt_wf_groups [simp]: "bt_wf (insertion_groups n)"
  unfolding insertion_groups_def by (rule group_wf)

lemma mem_groups:
  "(off, es) \<in> set (insertion_groups n) \<longleftrightarrow>
     es = filter (\<lambda>e. is_insertion e \<and> ne_start e = off) n \<and> es \<noteq> []"
proof -
  have "(off, es) \<in> set (insertion_groups n) \<longleftrightarrow> bt_get (insertion_groups n) off = Some es"
    by (rule bt_get_mem) simp
  also have "\<dots> \<longleftrightarrow> es = filter (\<lambda>e. is_insertion e \<and> ne_start e = off) n \<and> es \<noteq> []"
    unfolding insertion_groups_def group_get
    by (auto simp: filter_empty_conv conj_commute)
  finally show ?thesis .
qed

definition group_ok :: "normalized_edit list \<Rightarrow> bool" where
  "group_ok es \<longleftrightarrow>
     length es < 2 \<or> (\<forall>e \<in> set es. agreed_order e \<noteq> None) \<and> distinct (map agreed_order es)"

lemma scan_missing:
  "os_missing (foldl (scan_edit off) st es) \<longleftrightarrow>
     os_missing st \<or> (\<exists>e \<in> set es. agreed_order e = None)"
  by (induction es arbitrary: st) (auto simp: scan_edit_def split: option.splits)

lemma scan_collision:
  "\<forall>e \<in> set es. agreed_order e \<noteq> None \<Longrightarrow>
     os_collision (foldl (scan_edit off) st es) \<longleftrightarrow>
       os_collision st \<or> \<not> distinct (map agreed_order es) \<or>
       (\<exists>e \<in> set es. \<exists>a. agreed_order e = Some a \<and> a \<in> set (os_claimed st))"
proof (induction es arbitrary: st)
  case (Cons e es)
  then obtain a where a: "agreed_order e = Some a" by auto
  have "Some a \<in> agreed_order ` set es \<longleftrightarrow> (\<exists>e \<in> set es. agreed_order e = Some a)"
    by (auto simp: image_iff) (metis)+
  with Cons a show ?case by (auto simp: scan_edit_def)
qed simp

lemma scan_orders_other:
  "k \<notin> (\<lambda>e. (off, ne_replacement e)) ` set es \<Longrightarrow>
     bt_get (os_orders (foldl (scan_edit off) st es)) k = bt_get (os_orders st) k"
  by (induction es arbitrary: st) (auto simp: scan_edit_def split: option.splits)

lemma scan_orders_mem:
  "\<forall>e \<in> set es. agreed_order e \<noteq> None \<Longrightarrow> distinct (map ne_replacement es) \<Longrightarrow> e \<in> set es \<Longrightarrow>
     bt_get (os_orders (foldl (scan_edit off) st es)) (off, ne_replacement e) = agreed_order e"
proof (induction es arbitrary: st)
  case (Cons x es)
  show ?case
  proof (cases "e \<in> set es")
    case True
    with Cons show ?thesis by simp
  next
    case False
    with Cons.prems have "e = x" by simp
    moreover have "(off, ne_replacement x) \<notin> (\<lambda>e. (off, ne_replacement e)) ` set es"
      using Cons.prems(2) by auto
    moreover obtain a where a: "agreed_order x = Some a" using Cons.prems(1) by auto
    then have "bt_get (os_orders (scan_edit off st x)) (off, ne_replacement x) = Some a"
      by (simp add: scan_edit_def)
    ultimately show ?thesis by (simp add: scan_orders_other a)
  qed
qed simp

lemma scan_group_ok:
  "2 \<le> length es \<Longrightarrow>
     \<not> os_missing (scan_group ords off es) \<and> \<not> os_collision (scan_group ords off es) \<longleftrightarrow> group_ok es"
  by (auto simp: scan_group_def scan_missing scan_collision group_ok_def)

lemma collect_orders_ok_iff:
  "(\<exists>ords'. collect_orders src groups ords = Inr ords') \<longleftrightarrow> (\<forall>(off, es) \<in> set groups. group_ok es)"
proof (induction groups arbitrary: ords)
  case (Cons g groups)
  obtain off es where g: "g = (off, es)" by force
  show ?case
  proof (cases "length es < 2")
    case True
    with Cons show ?thesis by (simp add: g group_ok_def)
  next
    case False
    then have "2 \<le> length es" by simp
    from scan_group_ok [OF this, of ords off] Cons False show ?thesis
      by (auto simp: g Let_def)
  qed
qed simp

lemma collect_orders_other:
  "collect_orders src groups ords = Inr ords' \<Longrightarrow>
     \<forall>(off, es) \<in> set groups. 2 \<le> length es \<longrightarrow> k \<notin> (\<lambda>e. (off, ne_replacement e)) ` set es \<Longrightarrow>
     bt_get ords' k = bt_get ords k"
proof (induction groups arbitrary: ords)
  case (Cons g groups)
  obtain off es where g: "g = (off, es)" by force
  show ?case
  proof (cases "length es < 2")
    case True
    with Cons show ?thesis by (auto simp: g)
  next
    case False
    then have "bt_get ords' k = bt_get (os_orders (scan_group ords off es)) k"
      using Cons by (auto simp: g Let_def split: if_splits)
    also have "\<dots> = bt_get ords k"
      using Cons.prems(2) False by (simp add: g scan_group_def scan_orders_other)
    finally show ?thesis .
  qed
qed simp

lemma collect_orders_mem:
  "collect_orders src groups ords = Inr ords' \<Longrightarrow> distinct (map fst groups) \<Longrightarrow>
     \<forall>(off, es) \<in> set groups. distinct (map ne_replacement es) \<Longrightarrow>
     (off, es) \<in> set groups \<Longrightarrow> 2 \<le> length es \<Longrightarrow> e \<in> set es \<Longrightarrow>
     bt_get ords' (off, ne_replacement e) = agreed_order e"
proof (induction groups arbitrary: ords)
  case (Cons g groups)
  obtain off' es' where g: "g = (off', es')" by force
  show ?case
  proof (cases "(off, es) = (off', es')")
    case True
    with Cons.prems have st: "collect_orders src groups (os_orders (scan_group ords off es)) = Inr ords'"
      and ok: "group_ok es"
      using scan_group_ok [of es ords off]
      by (auto simp: g Let_def split: if_splits)
    have "bt_get ords' (off, ne_replacement e) =
        bt_get (os_orders (scan_group ords off es)) (off, ne_replacement e)"
      by (rule collect_orders_other [OF st]) (use Cons.prems(2) True in \<open>force simp: g\<close>)
    also have "\<dots> = agreed_order e"
      unfolding scan_group_def
      by (rule scan_orders_mem) (use ok Cons.prems True in \<open>auto simp: g group_ok_def\<close>)
    finally show ?thesis .
  next
    case False
    then have mem: "(off, es) \<in> set groups" using Cons.prems(4) by (auto simp: g)
    show ?thesis
    proof (cases "length es' < 2")
      case True
      with Cons mem show ?thesis by (auto simp: g)
    next
      case False
      with Cons.prems(1) have "collect_orders src groups (os_orders (scan_group ords off' es')) = Inr ords'"
        by (auto simp: g Let_def split: if_splits)
      from Cons.IH [OF this _ _ mem] Cons.prems show ?thesis by (auto simp: g)
    qed
  qed
qed simp


subsection \<open>When normalization succeeds\<close>

definition edits_in_bounds :: "text_edit list \<Rightarrow> nat \<Rightarrow> bool" where
  "edits_in_bounds es n \<longleftrightarrow>
     (\<forall>e \<in> set es. as_start (te_range e) \<le> word_of_nat n \<and> as_end (te_range e) \<le> word_of_nat n)"

definition compatible :: "normalized_edit \<Rightarrow> normalized_edit \<Rightarrow> bool" where
  "compatible a b \<longleftrightarrow>
     (is_nonempty a \<and> is_nonempty b \<longrightarrow> ne_end a \<le> ne_start b \<or> ne_end b \<le> ne_start a) \<and>
     (is_nonempty a \<and> is_insertion b \<longrightarrow> \<not> (ne_start a < ne_start b \<and> ne_start b < ne_end a))"

definition conflict_free :: "normalized_edit list \<Rightarrow> bool" where
  "conflict_free n \<longleftrightarrow> (\<forall>a \<in> set n. \<forall>b \<in> set n. a \<noteq> b \<longrightarrow> compatible a b)"

definition insertions_ordered :: "normalized_edit list \<Rightarrow> bool" where
  "insertions_ordered n \<longleftrightarrow>
     (\<forall>off. group_ok (filter (\<lambda>e. is_insertion e \<and> ne_start e = off) n))"

lemma group_ok_Nil [simp]: "group_ok []"
  by (simp add: group_ok_def)

lemma find_bounds_None:
  "find (out_of_bounds (word_of_nat n)) (merge_edits es) = None \<longleftrightarrow> edits_in_bounds es n"
  by (auto simp: find_None_iff set_merge edits_in_bounds_def out_of_bounds_def edit_key_of_def not_less)

lemma nonempty_starts_sorted:
  "sorted_wrt (\<lambda>a b. ne_start a \<le> ne_start b) (merged_list es)"
  by (rule sorted_wrt_mono_rel [OF _ merged_sorted]) (auto simp: ne_key_def less_prod_def' )

lemma find_overlap_None:
  "find_overlap (filter is_nonempty (merged_list es)) = None \<longleftrightarrow>
     sorted_wrt (\<lambda>a b. ne_end a \<le> ne_start b) (filter is_nonempty (merged_list es))"
  (is "_ = None \<longleftrightarrow> sorted_wrt ?R ?ns")
proof
  assume "find_overlap ?ns = None"
  then have "\<forall>(a, b) \<in> set (windows2 ?ns). ?R a b"
    by (auto simp: find_overlap_def find_None_iff not_less)
  then show "sorted_wrt ?R ?ns"
    by (rule sorted_wrt_windows2) (auto simp: is_nonempty_def)
next
  assume "sorted_wrt ?R ?ns"
  then show "find_overlap ?ns = None"
    by (auto simp: find_overlap_def find_None_iff not_less dest: sorted_wrt_windows2_conv)
qed

lemma find_covered_None:
  "find_covered ns ins = None \<longleftrightarrow>
     (\<forall>i \<in> set ins. \<forall>e \<in> set ns. \<not> (ne_start e < ne_start i \<and> ne_start i < ne_end e))"
proof (induction ins)
  case (Cons i ins)
  have "covering ns i = None \<longleftrightarrow> (\<forall>e \<in> set ns. \<not> (ne_start e < ne_start i \<and> ne_start i < ne_end e))"
    by (auto simp: covering_def find_None_iff)
  with Cons show ?case by (cases "covering ns i") auto
qed simp

lemma sorted_wrt_distinct:
  "sorted_wrt R xs \<Longrightarrow> distinct xs \<Longrightarrow> sorted_wrt (\<lambda>a b. R a b \<and> a \<noteq> b) xs"
  by (induction xs) auto

lemma sorted_nonempty_iff:
  "sorted_wrt (\<lambda>a b. ne_end a \<le> ne_start b) (filter is_nonempty (merged_list es)) \<longleftrightarrow>
     (\<forall>a \<in> set (merged_list es). \<forall>b \<in> set (merged_list es). a \<noteq> b \<longrightarrow>
        is_nonempty a \<and> is_nonempty b \<longrightarrow> ne_end a \<le> ne_start b \<or> ne_end b \<le> ne_start a)"
  (is "sorted_wrt ?R (filter _ ?m) \<longleftrightarrow> ?C")
proof
  assume s: "sorted_wrt ?R (filter is_nonempty ?m)"
  show ?C
    using sorted_wrt_distinct_pair [OF s] by auto
next
  assume c: ?C
  have "sorted_wrt (\<lambda>a b. ne_start a \<le> ne_start b) (filter is_nonempty ?m)"
    by (rule sorted_wrt_filter [OF nonempty_starts_sorted])
  moreover have "distinct (filter is_nonempty ?m)" by (simp add: merged_distinct)
  ultimately have "sorted_wrt (\<lambda>a b. ne_start a \<le> ne_start b \<and> a \<noteq> b) (filter is_nonempty ?m)"
    by (rule sorted_wrt_distinct)
  then show "sorted_wrt ?R (filter is_nonempty ?m)"
  proof (rule sorted_wrt_mono_rel [rotated])
    fix a b
    assume "a \<in> set (filter is_nonempty ?m)" "b \<in> set (filter is_nonempty ?m)"
      and ab: "ne_start a \<le> ne_start b \<and> a \<noteq> b"
    then have mem: "a \<in> set ?m" "b \<in> set ?m" and ne: "is_nonempty a" "is_nonempty b" by auto
    from c mem ne ab have "ne_end a \<le> ne_start b \<or> ne_end b \<le> ne_start a" by blast
    moreover have "\<not> ne_end b \<le> ne_start a" using ab ne(2) by (auto simp: is_nonempty_def)
    ultimately show "?R a b" by blast
  qed
qed

lemma all_groups_ok:
  "(\<forall>off es. es = F off \<and> es \<noteq> [] \<longrightarrow> group_ok es) \<longleftrightarrow> (\<forall>off. group_ok (F off))"
proof (intro iffI allI)
  fix off
  assume "\<forall>off es. es = F off \<and> es \<noteq> [] \<longrightarrow> group_ok es"
  then show "group_ok (F off)" by (cases "F off = []") simp_all
qed simp

lemma collect_groups_ok:
  "(\<exists>ords. collect_orders src (insertion_groups n) [] = Inr ords) \<longleftrightarrow> insertions_ordered n"
proof -
  have "(\<forall>(off, es) \<in> set (insertion_groups n). group_ok es) \<longleftrightarrow>
      (\<forall>off es. (off, es) \<in> set (insertion_groups n) \<longrightarrow> group_ok es)" by blast
  also have "\<dots> \<longleftrightarrow> insertions_ordered n"
    unfolding mem_groups insertions_ordered_def by (rule all_groups_ok)
  finally show ?thesis unfolding collect_orders_ok_iff .
qed

definition norm_orders :: "action_source \<Rightarrow> text_edit list \<Rightarrow> orders" where
  "norm_orders src es =
     (case collect_orders src (insertion_groups (merged_list es)) [] of Inl c \<Rightarrow> [] | Inr o' \<Rightarrow> o')"

lemma normalize_edits_Ok:
  "normalize_edits src es n = Inr ns \<longleftrightarrow>
     edits_in_bounds es n \<and> conflict_free (merged_list es) \<and> insertions_ordered (merged_list es) \<and>
     ns = sort_key (edit_sort_key (norm_orders src es)) (merged_list es)"
proof -
  let ?m = "merged_list es"
  have conf: "conflict_free ?m \<longleftrightarrow>
      find_overlap (filter is_nonempty ?m) = None \<and>
      find_covered (filter is_nonempty ?m) (filter is_insertion ?m) = None"
    unfolding find_overlap_None sorted_nonempty_iff find_covered_None conflict_free_def compatible_def
    by (auto simp: is_nonempty_def is_insertion_def)
  show ?thesis
    unfolding normalize_edits_def Let_def find_bounds_None [symmetric] conf
      collect_groups_ok [of src, symmetric] norm_orders_def merged_list_def [symmetric]
    by (auto split: option.splits sum.splits)
qed


subsection \<open>Order and effect of the normalized edits\<close>

definition ranges_ok :: "text_edit list \<Rightarrow> bool" where
  "ranges_ok es \<longleftrightarrow> (\<forall>e \<in> set es. as_start (te_range e) \<le> as_end (te_range e))"

text \<open>A replacement that starts where two or more insertions compete for an order.\<close>

definition order_clash :: "text_edit list \<Rightarrow> bool" where
  "order_clash es \<longleftrightarrow>
     (\<exists>a \<in> set (merged_list es). is_nonempty a \<and>
        2 \<le> length (filter (\<lambda>i. is_insertion i \<and> ne_start i = ne_start a) (merged_list es)))"

definition chained :: "normalized_edit list \<Rightarrow> bool" where
  "chained ns \<longleftrightarrow> sorted_wrt (\<lambda>a b. ne_end a \<le> ne_start b) ns"

text \<open>
  The reference semantics: the output is the original with each replaced range taken out and
  the replacements put where their ranges were, in the order of the list.
\<close>

fun weave :: "bytes \<Rightarrow> nat \<Rightarrow> normalized_edit list \<Rightarrow> bytes" where
  "weave input pos [] = drop pos input"
| "weave input pos (e # es) =
     take (unat (ne_start e) - pos) (drop pos input) @ ne_replacement e @
     weave input (unat (ne_end e)) es"

lemma merged_ranges:
  assumes "ranges_ok es" "a \<in> set (merged_list es)"
  shows "ne_start a \<le> ne_end a" "\<not> is_nonempty a \<Longrightarrow> is_insertion a"
proof -
  from assms(2) obtain e where "e \<in> set es" "ne_key a = edit_key_of e"
    unfolding merged_mem by auto
  with assms(1) show "ne_start a \<le> ne_end a"
    by (auto simp: ranges_ok_def ne_key_def edit_key_of_def)
  then show "\<not> is_nonempty a \<Longrightarrow> is_insertion a"
    by (simp add: is_nonempty_def is_insertion_def)
qed

lemma norm_orders_None:
  assumes "length (filter (\<lambda>i. is_insertion i \<and> ne_start i = off) (merged_list es)) < 2"
    and "insertions_ordered (merged_list es)"
  shows "bt_get (norm_orders src es) (off, r) = None"
proof -
  from assms(2) obtain ords where
    ords: "collect_orders src (insertion_groups (merged_list es)) [] = Inr ords"
    using collect_groups_ok by blast
  have "bt_get ords (off, r) = bt_get [] (off, r)"
    by (rule collect_orders_other [OF ords]) (use assms(1) in \<open>auto simp: mem_groups\<close>)
  then show ?thesis by (simp add: norm_orders_def ords)
qed

lemma norm_orders_mem:
  assumes ok: "insertions_ordered (merged_list es)"
    and e: "e \<in> set (merged_list es)" "is_insertion e"
    and two: "2 \<le> length (filter (\<lambda>i. is_insertion i \<and> ne_start i = ne_start e) (merged_list es))"
  shows "bt_get (norm_orders src es) (ne_start e, ne_replacement e) = agreed_order e"
proof -
  let ?G = "\<lambda>off. filter (\<lambda>i. is_insertion i \<and> ne_start i = off) (merged_list es)"
  from ok obtain ords where
    ords: "collect_orders src (insertion_groups (merged_list es)) [] = Inr ords"
    using collect_groups_ok by blast
  have "distinct (map ne_replacement (?G off))" for off
  proof (subst distinct_map, intro conjI inj_onI)
    show "distinct (?G off)" by (simp add: merged_distinct)
  next
    fix a b
    assume "a \<in> set (?G off)" "b \<in> set (?G off)" "ne_replacement a = ne_replacement b"
    then have "ne_key a = ne_key b" "a \<in> set (merged_list es)" "b \<in> set (merged_list es)"
      by (auto simp: ne_key_def is_insertion_def)
    then show "a = b" using merged_inj by blast
  qed
  then have "\<forall>(off, es) \<in> set (insertion_groups (merged_list es)). distinct (map ne_replacement es)"
    by (auto simp: mem_groups)
  moreover have "(ne_start e, ?G (ne_start e)) \<in> set (insertion_groups (merged_list es))"
    using e by (auto simp: mem_groups filter_empty_conv)
  ultimately have "bt_get ords (ne_start e, ne_replacement e) = agreed_order e"
    using two e
    by (intro collect_orders_mem [OF ords bt_wf_distinct [OF bt_wf_groups],
          where es = "?G (ne_start e)"]) simp_all
  then show ?thesis by (simp add: norm_orders_def ords)
qed

lemma chained_normalized:
  assumes norm: "normalize_edits src es n = Inr ns" and r: "ranges_ok es" and nc: "\<not> order_clash es"
  shows "chained ns"
proof -
  let ?m = "merged_list es" and ?K = "edit_sort_key (norm_orders src es)"
  from norm have cf: "conflict_free ?m" and io: "insertions_ordered ?m" and ns: "ns = sort_key ?K ?m"
    by (auto simp: normalize_edits_Ok)
  have "sorted_wrt (\<lambda>a b. ?K a \<le> ?K b) ns"
    using sorted_sort_key [of ?K ?m] by (simp add: ns sorted_map)
  moreover have "distinct ns" by (simp add: ns merged_distinct)
  ultimately have "sorted_wrt (\<lambda>a b. ?K a \<le> ?K b \<and> a \<noteq> b) ns" by (rule sorted_wrt_distinct)
  then show ?thesis unfolding chained_def
  proof (rule sorted_wrt_mono_rel [rotated])
    fix a b
    assume "a \<in> set ns" "b \<in> set ns" and ab: "?K a \<le> ?K b \<and> a \<noteq> b"
    then have m: "a \<in> set ?m" "b \<in> set ?m" by (auto simp: ns)
    with cf ab have comp: "compatible a b" by (auto simp: conflict_free_def)
    have le: "ne_start a \<le> ne_start b" using ab by (auto simp: edit_sort_key_def)
    note ra = merged_ranges [OF r m(1)] and rb = merged_ranges [OF r m(2)]
    show "ne_end a \<le> ne_start b"
    proof (cases "is_nonempty a")
      case False
      with ra le show ?thesis by (simp add: is_insertion_def)
    next
      case True
      show ?thesis
      proof (cases "is_nonempty b")
        case b: True
        have "\<not> ne_end b \<le> ne_start a" using le b by (auto simp: is_nonempty_def)
        with comp True b show ?thesis by (auto simp: compatible_def)
      next
        case b: False
        have "ne_start a \<noteq> ne_start b"
        proof
          assume eq: "ne_start a = ne_start b"
          have few: "length (filter (\<lambda>i. is_insertion i \<and> ne_start i = ne_start a) ?m) < 2"
            using nc True m(1) unfolding order_clash_def not_le [symmetric] by blast
          have "ne_end a \<le> ne_end b"
            using ab eq norm_orders_None [OF few io, of src]
            by (auto simp: edit_sort_key_def)
          with True rb(2) [OF b] eq show False by (simp add: is_nonempty_def is_insertion_def)
        qed
        with le have "ne_start a < ne_start b" by simp
        with comp True rb(2) [OF b] show ?thesis by (simp add: compatible_def not_less)
      qed
    qed
  qed
qed

lemma apply_rev_append:
  "apply_rev out (xs @ ys) = (case apply_rev out xs of None \<Rightarrow> None | Some out' \<Rightarrow> apply_rev out' ys)"
  by (induction xs arbitrary: out) (auto split: option.splits)

lemma apply_chained:
  "chained es \<Longrightarrow> \<forall>e \<in> set es. p \<le> unat (ne_start e) \<and> ne_start e \<le> ne_end e \<and> unat (ne_end e) \<le> length input \<Longrightarrow>
     p \<le> length input \<Longrightarrow> apply_edits input es = Some (take p input @ weave input p es)"
proof (induction es arbitrary: p)
  case Nil
  then show ?case by (simp add: apply_edits_def)
next
  case (Cons e es)
  let ?s = "unat (ne_start e)" and ?t = "unat (ne_end e)"
  from Cons.prems have b: "p \<le> ?s" "?s \<le> ?t" "?t \<le> length input"
    by (auto simp: word_le_nat_alt)
  have "apply_edits input es = Some (take ?t input @ weave input ?t es)"
    by (rule Cons.IH) (use Cons.prems in \<open>auto simp: chained_def word_le_nat_alt\<close>)
  then have "apply_edits input (e # es) =
      Some (splice_bytes (take ?t input @ weave input ?t es) ?s ?t (ne_replacement e))"
    using b by (simp add: apply_edits_def apply_rev_append splice_checked_def)
  moreover have "take ?s input = take p input @ take (?s - p) (drop p input)"
    using b(1) by (metis le_add_diff_inverse take_add)
  ultimately show ?case using b by (simp add: splice_bytes_def min_def)
qed

lemma normalized_bounds:
  assumes "normalize_edits src es n = Inr ns" "ranges_ok es" "n < 2 ^ 64" "e \<in> set ns"
  shows "ne_start e \<le> ne_end e" "unat (ne_end e) \<le> n"
proof -
  from assms(1) have ib: "edits_in_bounds es n"
    and ns: "ns = sort_key (edit_sort_key (norm_orders src es)) (merged_list es)"
    unfolding normalize_edits_Ok by auto
  from assms(4) have m: "e \<in> set (merged_list es)" by (simp add: ns)
  then obtain x where x: "x \<in> set es" "ne_key e = edit_key_of x" unfolding merged_mem by auto
  from x ib have "ne_end e \<le> word_of_nat n"
    by (auto simp: edits_in_bounds_def ne_key_def edit_key_of_def)
  then show "unat (ne_end e) \<le> n"
    using assms(3) by (simp add: word_le_nat_alt unat_of_nat take_bit_nat_eq_self)
  show "ne_start e \<le> ne_end e" using merged_ranges [OF assms(2) m] by simp
qed


subsection \<open>Properties\<close>

text \<open>C6 -- Applying the normalized edits of a source shorter than \<open>2^64\<close> bytes gives the original with
  exactly the replaced ranges exchanged, all offsets read in original coordinates, whenever the
  edits have ordered ranges, as the shape check of a request asks, and no replacement starts at
  an offset where two or more insertions stand (the other case is \<open>insertion_clash_loses_text\<close>).
  In particular no splice panics.\<close>

theorem apply_normalized_weave:
  assumes "normalize_edits src es (length input) = Inr ns"
    and "ranges_ok es" and "\<not> order_clash es" and "length input < 2 ^ 64"
  shows "apply_edits input ns = Some (weave input 0 ns)"
proof -
  have "apply_edits input ns = Some (take 0 input @ weave input 0 ns)"
    by (rule apply_chained [OF chained_normalized [OF assms(1-3)]])
      (use normalized_bounds [OF assms(1,2,4)] in auto)
  then show ?thesis by simp
qed

definition sample_source :: action_source where
  "sample_source = SourceDirectory (FileRef ''root'' ''a.txt'')"

definition sample_edit :: "u64 \<Rightarrow> u64 \<Rightarrow> bytes \<Rightarrow> u64 option \<Rightarrow> text_edit" where
  "sample_edit a b r ord =
     \<lparr>te_range = ActionSpan sample_source a b, te_replacement = r,
      te_producer = ActionProducer ''p'' ord None\<rparr>"

definition sample_edits :: "text_edit list" where
  "sample_edits = [sample_edit 1 3 [9] None, sample_edit 0 0 [8] (Some 2), sample_edit 0 0 [7] (Some 1)]"

definition sample_normalized :: "normalized_edit list" where
  "sample_normalized =
     [\<lparr>ne_start = 0, ne_end = 0, ne_replacement = [7], ne_producers = [ActionProducer ''p'' (Some 1) None]\<rparr>,
      \<lparr>ne_start = 0, ne_end = 0, ne_replacement = [8], ne_producers = [ActionProducer ''p'' (Some 2) None]\<rparr>,
      \<lparr>ne_start = 1, ne_end = 3, ne_replacement = [9], ne_producers = [ActionProducer ''p'' None None]\<rparr>]"

lemma sample_normalizes: "normalize_edits sample_source sample_edits 5 = Inr sample_normalized"
  by code_simp

lemma sample_ranges: "ranges_ok sample_edits" "\<not> order_clash sample_edits"
  by code_simp+

theorem apply_normalized_weave_witness:
  "apply_edits [1, 2, 3, 4, 5] sample_normalized = Some [7, 8, 1, 9, 4, 5]"
proof -
  have "apply_edits [1, 2, 3, 4, 5] sample_normalized =
      Some (weave [1, 2, 3, 4, 5] 0 sample_normalized)"
  proof (rule apply_normalized_weave [OF _ sample_ranges, of sample_source])
    have "length [1, 2, 3, 4, 5 :: u8] = 5" by simp
    then show "normalize_edits sample_source sample_edits (length [1, 2, 3, 4, 5 :: u8]) =
        Inr sample_normalized"
      by (simp only: sample_normalizes)
  qed simp
  then show ?thesis by (simp add: sample_normalized_def)
qed

text \<open>C22 -- Normalization succeeds exactly when every edit lies inside the input, no two distinct
  edits overlap (two replacements are disjoint, no insertion falls strictly inside a
  replacement) and every offset with several insertions has one agreed, distinct order per
  insertion; the result is then the merged edits, sorted by offset, claimed order, end and
  replacement.\<close>

theorem normalize_edits_success:
  "(\<exists>ns. normalize_edits src es n = Inr ns) \<longleftrightarrow>
     edits_in_bounds es n \<and> conflict_free (merged_list es) \<and> insertions_ordered (merged_list es)"
  by (simp add: normalize_edits_Ok)

text \<open>The outcome does not depend on the order in which producers submit their edits, nor on
  how often the same edit of the same producer is submitted.\<close>

theorem normalize_submission_order:
  assumes "set es = set fs"
  shows "normalize_edits src es n = normalize_edits src fs n"
  by (simp only: normalize_edits_def merge_edits_set_cong [OF assms])

theorem normalize_submission_order_witness:
  "normalize_edits sample_source (rev sample_edits @ sample_edits) 5 = Inr sample_normalized"
proof -
  have "normalize_edits sample_source (rev sample_edits @ sample_edits) 5 =
      normalize_edits sample_source sample_edits 5"
    by (rule normalize_submission_order) simp
  then show ?thesis by (simp add: sample_normalizes)
qed

text \<open>Insertions at one offset end up in the order all their producers claim: of two of them,
  the one that stands first has the smaller \<open>same_offset_order\<close>.\<close>

theorem insertions_in_claimed_order:
  assumes "normalize_edits src es n = Inr ns"
  shows "sorted_wrt (\<lambda>a b. is_insertion a \<and> is_insertion b \<and> ne_start a = ne_start b \<longrightarrow>
     (\<exists>i j. agreed_order a = Some i \<and> agreed_order b = Some j \<and> i < j)) ns"
proof -
  let ?m = "merged_list es" and ?K = "edit_sort_key (norm_orders src es)"
  from assms have io: "insertions_ordered ?m" and ns: "ns = sort_key ?K ?m"
    by (auto simp: normalize_edits_Ok)
  have "sorted_wrt (\<lambda>a b. ?K a \<le> ?K b) ns"
    using sorted_sort_key [of ?K ?m] by (simp add: ns sorted_map)
  then have "sorted_wrt (\<lambda>a b. ?K a \<le> ?K b \<and> a \<noteq> b) ns"
    by (rule sorted_wrt_distinct) (simp add: ns merged_distinct)
  then show ?thesis
  proof (rule sorted_wrt_mono_rel [rotated], intro impI)
    fix a b
    assume mem: "a \<in> set ns" "b \<in> set ns" and ab: "?K a \<le> ?K b \<and> a \<noteq> b"
      and ins: "is_insertion a \<and> is_insertion b \<and> ne_start a = ne_start b"
    let ?G = "filter (\<lambda>i. is_insertion i \<and> ne_start i = ne_start a) ?m"
    from mem have m: "a \<in> set ?m" "b \<in> set ?m" by (auto simp: ns)
    with ins have G: "a \<in> set ?G" "b \<in> set ?G" by auto
    have two: "2 \<le> length ?G"
      using G ab by (cases ?G; cases "tl ?G") auto
    with io have ok: "\<forall>e \<in> set ?G. agreed_order e \<noteq> None" "distinct (map agreed_order ?G)"
      unfolding insertions_ordered_def group_ok_def not_less [symmetric] by blast+
    from ok(1) G obtain i j where ij: "agreed_order a = Some i" "agreed_order b = Some j" by blast
    from ok(2) G ab have "agreed_order a \<noteq> agreed_order b"
      by (auto simp: distinct_map inj_on_def)
    moreover have "agreed_order a \<le> agreed_order b"
      using ab ins norm_orders_mem [OF io m(1) _ two, of src]
        norm_orders_mem [OF io m(2), of src] two
      by (auto simp: edit_sort_key_def)
    ultimately show "\<exists>i j. agreed_order a = Some i \<and> agreed_order b = Some j \<and> i < j"
      using ij by auto
  qed
qed

theorem insertions_in_claimed_order_witness:
  "agreed_order (sample_normalized ! 0) = Some 1 \<and> agreed_order (sample_normalized ! 1) = Some 2"
proof -
  have "sorted_wrt (\<lambda>a b. is_insertion a \<and> is_insertion b \<and> ne_start a = ne_start b \<longrightarrow>
     (\<exists>i j. agreed_order a = Some i \<and> agreed_order b = Some j \<and> i < j)) sample_normalized"
    by (rule insertions_in_claimed_order [OF sample_normalizes])
  then show ?thesis by (simp add: sample_normalized_def agreed_order_def bs_collect_def)
qed

subsection \<open>A replacement where insertions compete\<close>

definition insertion_at :: "action_source \<Rightarrow> u64 \<Rightarrow> bytes \<Rightarrow> string \<Rightarrow> u64 \<Rightarrow> text_edit" where
  "insertion_at src a x name order =
     \<lparr>te_range = ActionSpan src a a, te_replacement = x, te_producer = ActionProducer name (Some order) None\<rparr>"

lemma clash_normalizes:
  fixes a b :: u64
  assumes "a < b" "unat b \<le> n" "n < 2 ^ 64" "o1 < o2" "x \<noteq> y" "r \<noteq> x" "r \<noteq> y"
    and "e = \<lparr>te_range = ActionSpan src a b, te_replacement = r, te_producer = ActionProducer p ord pr\<rparr>"
  shows "normalize_edits src [e, insertion_at src a x p1 o1, insertion_at src a y p2 o2] n =
    Inr (map normalized_of [((a, b, r), [ActionProducer p ord pr]), ((a, a, x), [ActionProducer p1 (Some o1) None]),
      ((a, a, y), [ActionProducer p2 (Some o2) None])])"
proof -
  let ?L = "word_of_nat n :: u64"
  have b: "b \<le> ?L" using assms(2,3) by (simp add: word_le_nat_alt unat_of_nat take_bit_nat_eq_self)
  then have bd: "\<not> ?L < b" "\<not> ?L < a" "\<not> b \<le> a" "a \<noteq> b" "\<not> b < a" using assms(1) by auto
  have m: "merge_edits [e, insertion_at src a x p1 o1, insertion_at src a y p2 o2] =
     (if x < y then [((a, a, x), [ActionProducer p1 (Some o1) None]), ((a, a, y), [ActionProducer p2 (Some o2) None])]
      else [((a, a, y), [ActionProducer p2 (Some o2) None]), ((a, a, x), [ActionProducer p1 (Some o1) None])]) @
     [((a, b, r), [ActionProducer p ord pr])]"
    using assms(1,5) bd less_not_sym [of x y]
    by (simp add: merge_edits_def edit_key_of_def insertion_at_def assms(8) bt_update_def)
  have ag: "agreed_order \<lparr>ne_start = s, ne_end = s', ne_replacement = z, ne_producers = [ActionProducer q (Some k) None]\<rparr> = Some k" for s s' z q k
    by (simp add: agreed_order_def bs_collect_def)
  have k: "(a, Some o1, a, x) < (a, Some o2, a, y)" "(a, None, b, r) < (a, Some o1, a, x)" "(a, None, b, r) < (a, Some o2, a, y)"
    using assms(4) by simp_all
  show ?thesis
    using bd assms(1,4-7) less_not_sym [OF assms(4)] not_le [of o2 o1]
    by (cases "x < y") (simp_all add: normalize_edits_def m out_of_bounds_def normalized_of_def is_nonempty_def is_insertion_def
      find_overlap_def insertion_groups_def bt_update_def scan_group_def scan_edit_def ag edit_sort_key_def covering_def Let_def)
qed
lemma clash_applies:
  assumes "unat a \<le> unat b" "unat b \<le> length input"
  shows "apply_edits input (map normalized_of [((a, b, r), ps), ((a, a, x), qs), ((a, a, y), rs)]) =
    Some (take (unat a) input @ r @ drop (unat b - unat a) (x @ y @ drop (unat a) input))"
proof -
  have t: "take (unat a) (take (unat a) input @ z) = take (unat a) input" for z
    using assms by simp
  have d: "drop (unat b) (take (unat a) input @ z) = drop (unat b - unat a) z" for z
    using assms by simp
  show ?thesis
    using assms by (simp add: apply_edits_def normalized_of_def splice_checked_def splice_bytes_def t d)
qed

text \<open>C23 -- Two insertions with claimed orders at the offset \<open>a\<close> where a replacement of \<open>[a, b)\<close> starts are
  accepted, and the result is wrong, whatever the texts, as long as the three differ: the
  replacement sorts first (its missing order is below every claimed one), is applied last, and
  its splice removes the first \<open>b - a\<close> bytes of the inserted text and what follows it instead of the
  range it names. If the range is at least as long as the inserted text, none of it is left and
  the end of the range, which was replaced, still stands.\<close>

theorem insertion_clash_loses_text:
  fixes a b :: u64
  assumes "a < b" and "unat b \<le> length input" and "length input < 2 ^ 64" and "o1 < o2" and "x \<noteq> y" and "r \<noteq> x" and "r \<noteq> y"
    and "e = \<lparr>te_range = ActionSpan src a b, te_replacement = r, te_producer = ActionProducer p ord pr\<rparr>"
  shows "\<exists>ns. normalize_edits src [e, insertion_at src a x p1 o1, insertion_at src a y p2 o2] (length input) = Inr ns \<and>
    apply_edits input ns = Some (take (unat a) input @ r @ drop (unat b - unat a) (x @ y @ drop (unat a) input)) \<and>
    (length (x @ y) \<le> unat b - unat a \<longrightarrow>
      apply_edits input ns = Some (take (unat a) input @ r @ drop (unat b - length (x @ y)) input))"
proof -
  have ab: "unat a \<le> unat b" using assms(1) by (simp add: word_less_nat_alt)
  have tail: "length (x @ y) \<le> unat b - unat a \<Longrightarrow>
      drop (unat b - unat a) (x @ y @ drop (unat a) input) = drop (unat b - length (x @ y)) input"
    using ab by (simp add: add.commute)
  show ?thesis
    using clash_normalizes [OF assms(1-8)] clash_applies [OF ab assms(2)] tail by simp
qed

theorem insertion_clash_loses_text_witness:
  "\<exists>ns. apply_edits [0, 1, 2, 3, 4, 5, 6, 7, 8, 9] ns = Some [0, 1, 2, 3, 4, 82, 6, 7, 8, 9]"
proof -
  have "\<exists>ns. normalize_edits sample_source [sample_edit 5 8 [82] None, insertion_at sample_source 5 [88] ''p'' 1,
      insertion_at sample_source 5 [89] ''p'' 2] (length [0, 1, 2, 3, 4, 5, 6, 7, 8, 9 :: u8]) = Inr ns \<and>
    apply_edits [0, 1, 2, 3, 4, 5, 6, 7, 8, 9] ns =
      Some (take (unat (5 :: u64)) [0, 1, 2, 3, 4, 5, 6, 7, 8, 9] @ [82] @
        drop (unat (8 :: u64) - unat (5 :: u64)) ([88] @ [89] @ drop (unat (5 :: u64)) [0, 1, 2, 3, 4, 5, 6, 7, 8, 9])) \<and>
    (length ([88] @ [89 :: u8]) \<le> unat (8 :: u64) - unat (5 :: u64) \<longrightarrow>
      apply_edits [0, 1, 2, 3, 4, 5, 6, 7, 8, 9] ns =
        Some (take (unat (5 :: u64)) [0, 1, 2, 3, 4, 5, 6, 7, 8, 9] @ [82] @
          drop (unat (8 :: u64) - length ([88] @ [89 :: u8])) [0, 1, 2, 3, 4, 5, 6, 7, 8, 9]))"
    by (rule insertion_clash_loses_text) (simp_all add: sample_edit_def)
  then show ?thesis by auto
qed

end
