(* ===== verification/Actions.thy ===== *)
theory Actions
  imports Edits
begin

text \<open>
  \<open>soopy/src/_7b_source_actions.rs\<close> and \<open>_7c_edit_producers.rs\<close>: requests, the shape check a
  request must pass before anything is read, and the batches in which edit producers hand over
  their edits. The datatypes of the requests are in \<open>Types\<close>, the validation errors in \<open>Edits\<close>.
\<close>

subsection \<open>Construction\<close>

definition SOURCE_ACTION_SCHEMA_VERSION :: u32 where "SOURCE_ACTION_SCHEMA_VERSION = 1"

definition span_of_source_span :: "source_span \<Rightarrow> action_span" where
  "span_of_source_span s = ActionSpan (SourceGit (ss_source s)) (ss_start s) (ss_end s)"

definition producer_unordered :: "string \<Rightarrow> action_producer" where
  "producer_unordered i = ActionProducer i None None"

definition producer_ordered :: "string \<Rightarrow> u64 \<Rightarrow> action_producer" where
  "producer_ordered i order = ActionProducer i (Some order) None"

definition producer_with_rule :: "string \<Rightarrow> action_producer \<Rightarrow> action_producer" where
  "producer_with_rule r p = ActionProducer (ap_id p) (ap_order p) (Some r)"

definition from_source_span :: "source_span \<Rightarrow> bytes \<Rightarrow> action_producer \<Rightarrow> text_edit" where
  "from_source_span span replacement producer =
     \<lparr>te_range = span_of_source_span span, te_replacement = replacement, te_producer = producer\<rparr>"

record utf8_text_edit =
  ute_range :: action_span
  ute_replacement :: string
  ute_producer :: action_producer

definition text_edit_of_utf8 :: "utf8_text_edit \<Rightarrow> text_edit" where
  "text_edit_of_utf8 e =
     \<lparr>te_range = ute_range e, te_replacement = bytes_of (ute_replacement e), te_producer = ute_producer e\<rparr>"

definition stage_request_new :: "source_root_id \<Rightarrow> source_action list \<Rightarrow> stage_request" where
  "stage_request_new root actions =
     \<lparr>rq_schema_version = SOURCE_ACTION_SCHEMA_VERSION, rq_root = root, rq_actions = actions\<rparr>"

subsection \<open>The shape of a request\<close>

definition validate_path :: "source_root_id \<Rightarrow> nat \<Rightarrow> source_path \<Rightarrow> validation_error list" where
  "validate_path root i p =
     (case (root, p) of
        (RootDirectory d, PathDirectory q) \<Rightarrow> []
      | (RootGitWorktree r w, PathGit q) \<Rightarrow> []
      | _ \<Rightarrow> [PathRootMismatch i p root])"

definition validate_source :: "source_root_id \<Rightarrow> nat \<Rightarrow> action_source \<Rightarrow> validation_error list" where
  "validate_source root i source =
     (case (root, source) of
        (RootDirectory d, SourceDirectory f) \<Rightarrow>
          (if d = fr_directory f then [] else [SourceRootMismatch i source root])
      | (RootGitWorktree r w, SourceGit s) \<Rightarrow>
          (if sr_repository s \<noteq> r then [SourceRootMismatch i source root]
           else (case sr_revision s of
               RevWorktree sw h d \<Rightarrow> (if sw = w then [] else [SourceRootMismatch i source root])
             | RevCommit c \<Rightarrow> [ImmutableGitSource i s]))
      | _ \<Rightarrow> [SourceRootMismatch i source root])"

definition validate_edit :: "nat \<Rightarrow> action_source \<Rightarrow> nat \<Rightarrow> text_edit \<Rightarrow> validation_error list" where
  "validate_edit i source j e =
     (if as_source (te_range e) \<noteq> source
      then [EditSourceMismatch i j source (as_source (te_range e))] else []) @
     (if as_start (te_range e) > as_end (te_range e)
      then [InvertedEditRange i j (as_start (te_range e)) (as_end (te_range e))] else [])"

fun validate_action :: "source_root_id \<Rightarrow> nat \<Rightarrow> source_action \<Rightarrow> validation_error list" where
  "validate_action root i (ActCreate p b) = validate_path root i p"
| "validate_action root i (ActReplace source expected edits) =
     validate_source root i source @
     concat (map (\<lambda>(j, e). validate_edit i source j e) (enumerate 0 edits))"
| "validate_action root i (ActMove source expected destination) =
     validate_source root i source @ validate_path root i destination"
| "validate_action root i (ActDelete source expected) = validate_source root i source"

definition validate_shape :: "stage_request \<Rightarrow> validation_error list + unit" where
  "validate_shape request =
     (let errors =
        (if rq_schema_version request \<noteq> SOURCE_ACTION_SCHEMA_VERSION
         then [UnsupportedSchemaVersion (rq_schema_version request)] else []) @
        concat (map (\<lambda>(i, a). validate_action (rq_root request) i a) (enumerate 0 (rq_actions request)))
      in if errors = [] then Inr () else Inl errors)"

subsection \<open>Produced edits\<close>

definition PRODUCED_EDIT_SCHEMA_VERSION :: u32 where "PRODUCED_EDIT_SCHEMA_VERSION = 1"

record produced_edit =
  pe_range :: action_span
  pe_replacement :: bytes
  pe_producers :: "action_producer list"

record produced_edit_batch =
  pb_schema_version :: u32
  pb_edits :: "produced_edit list"

datatype batch_error = BatchSchemaVersion u32 | EmptyProducers nat

datatype conversion_error = AstGrepOffsetOverflow

definition produced_new :: "action_span \<Rightarrow> bytes \<Rightarrow> action_producer \<Rightarrow> produced_edit" where
  "produced_new span replacement producer =
     \<lparr>pe_range = span, pe_replacement = replacement, pe_producers = [producer]\<rparr>"

definition from_text_edit :: "text_edit \<Rightarrow> produced_edit" where
  "from_text_edit e =
     \<lparr>pe_range = te_range e, pe_replacement = te_replacement e, pe_producers = [te_producer e]\<rparr>"

definition from_utf8_text_edit :: "utf8_text_edit \<Rightarrow> produced_edit" where
  "from_utf8_text_edit e = from_text_edit (text_edit_of_utf8 e)"

definition batch_new :: "produced_edit list \<Rightarrow> produced_edit_batch" where
  "batch_new edits = \<lparr>pb_schema_version = PRODUCED_EDIT_SCHEMA_VERSION, pb_edits = edits\<rparr>"

definition batch_validate :: "produced_edit_batch \<Rightarrow> batch_error list + unit" where
  "batch_validate b =
     (let errors =
        (if pb_schema_version b \<noteq> PRODUCED_EDIT_SCHEMA_VERSION
         then [BatchSchemaVersion (pb_schema_version b)] else []) @
        concat (map (\<lambda>(i, e). if pe_producers e = [] then [EmptyProducers i] else [])
          (enumerate 0 (pb_edits b)))
      in if errors = [] then Inr () else Inl errors)"

definition expand_edit :: "produced_edit \<Rightarrow> text_edit list" where
  "expand_edit e =
     map (\<lambda>p. \<lparr>te_range = pe_range e, te_replacement = pe_replacement e, te_producer = p\<rparr>) (pe_producers e)"

definition into_text_edits :: "produced_edit_batch \<Rightarrow> batch_error list + text_edit list" where
  "into_text_edits b = rbind (batch_validate b) (\<lambda>_. Inr (concat (map expand_edit (pb_edits b))))"

type_synonym edit_groups = "(action_span \<times> bytes, action_producer list) btree"

definition group_edits :: "produced_edit list \<Rightarrow> edit_groups" where
  "group_edits edits =
     foldl (\<lambda>g e. bt_update (pe_range e, pe_replacement e) [] (\<lambda>ps. ps @ pe_producers e) g) [] edits"

definition deduplicate_equivalent_edits :: "produced_edit list \<Rightarrow> produced_edit list" where
  "deduplicate_equivalent_edits edits =
     map (\<lambda>((span, replacement), producers).
       \<lparr>pe_range = span, pe_replacement = replacement, pe_producers = remdups_adj (sort producers)\<rparr>)
       (group_edits edits)"

definition batch_deduplicate :: "produced_edit_batch \<Rightarrow> batch_error list + produced_edit_batch" where
  "batch_deduplicate b =
     rbind (batch_validate b) (\<lambda>_. Inr (batch_new (deduplicate_equivalent_edits (pb_edits b))))"

definition into_edits :: "produced_edit_batch \<Rightarrow> batch_error list + produced_edit list" where
  "into_edits b = rbind (batch_validate b) (\<lambda>_. Inr (pb_edits b))"

record biome_mutation =
  bm_range :: action_span
  bm_replacement :: string
  bm_producer :: action_producer

definition produced_of_biome :: "biome_mutation \<Rightarrow> produced_edit" where
  "produced_of_biome e = produced_new (bm_range e) (bytes_of (bm_replacement e)) (bm_producer e)"

text \<open>\<open>usize\<close> is 64 bits wide, so both conversions to \<open>u64\<close> succeed.\<close>

definition from_ast_grep_parts ::
  "action_source \<Rightarrow> u64 \<Rightarrow> u64 \<Rightarrow> bytes \<Rightarrow> action_producer \<Rightarrow> conversion_error + produced_edit" where
  "from_ast_grep_parts source position deleted_length inserted producer =
     rbind (ok_or AstGrepOffsetOverflow (checked_add position deleted_length)) (\<lambda>finish.
       Inr (produced_new (ActionSpan source position finish) inserted producer))"

end
