(* ===== verification/ActionProofs.thy ===== *)
theory ActionProofs
  imports Actions EditProofs
begin

text \<open>
  What the shape check of a request promises, and what merging the edits of several producers
  keeps.
\<close>

subsection \<open>The shape of a request\<close>

text \<open>A path and a source that belong to a root: of its kind, and a source moreover in the same
  directory, or in the same worktree of the same repository and not at a commit.\<close>

fun path_of_root :: "source_root_id \<Rightarrow> source_path \<Rightarrow> bool" where
  "path_of_root (RootDirectory d) p = (\<exists>q. p = PathDirectory q)"
| "path_of_root (RootGitWorktree r w) p = (\<exists>q. p = PathGit q)"

fun source_of_root :: "source_root_id \<Rightarrow> action_source \<Rightarrow> bool" where
  "source_of_root (RootDirectory d) s = (\<exists>q. s = SourceDirectory (FileRef d q))"
| "source_of_root (RootGitWorktree r w) s = (\<exists>h b q. s = SourceGit (SourceRef r (RevWorktree w h b) q))"

fun action_shaped :: "source_root_id \<Rightarrow> source_action \<Rightarrow> bool" where
  "action_shaped root (ActCreate p b) = path_of_root root p"
| "action_shaped root (ActReplace s c edits) =
     (source_of_root root s \<and> (\<forall>e \<in> set edits. as_source (te_range e) = s \<and> as_start (te_range e) \<le> as_end (te_range e)))"
| "action_shaped root (ActMove s c d) = (source_of_root root s \<and> path_of_root root d)"
| "action_shaped root (ActDelete s c) = source_of_root root s"

lemma concat_enumerate_Nil:
  "concat (map (\<lambda>(i, x). f i x) (enumerate n xs)) = [] \<longleftrightarrow> (\<forall>i < length xs. f (n + i) (xs ! i) = [])"
proof -
  have "concat (map (\<lambda>(i, x). f i x) (enumerate n xs)) = [] \<longleftrightarrow> (\<forall>p \<in> set (enumerate n xs). case p of (i, x) \<Rightarrow> f i x = [])"
    by auto
  also have "\<dots> \<longleftrightarrow> (\<forall>i < length xs. f (n + i) (xs ! i) = [])"
    by (auto simp: all_set_conv_all_nth nth_enumerate_eq)
  finally show ?thesis .
qed

lemma validate_path_Nil: "validate_path root i p = [] \<longleftrightarrow> path_of_root root p"
  by (cases root; cases p) (auto simp: validate_path_def)

lemma validate_source_Nil: "validate_source root i s = [] \<longleftrightarrow> source_of_root root s"
proof (cases root)
  case (RootDirectory d)
  then show ?thesis
    by (cases s) (auto simp: validate_source_def, metis file_ref.collapse)
next
  case (RootGitWorktree r w)
  show ?thesis
  proof (cases s)
    case (SourceGit g)
    obtain r' v q where "g = SourceRef r' v q" by (cases g)
    then show ?thesis using RootGitWorktree SourceGit by (cases v) (auto simp: validate_source_def)
  qed (simp add: RootGitWorktree validate_source_def)
qed

lemma validate_action_Nil: "validate_action root i a = [] \<longleftrightarrow> action_shaped root a"
proof (cases a)
  case (ActReplace s c edits)
  have "concat (map (\<lambda>(j, e). validate_edit i s j e) (enumerate 0 edits)) = [] \<longleftrightarrow>
      (\<forall>e \<in> set edits. as_source (te_range e) = s \<and> as_start (te_range e) \<le> as_end (te_range e))"
    unfolding concat_enumerate_Nil by (auto simp: validate_edit_def all_set_conv_all_nth not_less)
  then show ?thesis using ActReplace by (simp add: validate_source_Nil del: concat_eq_Nil_conv)
qed (simp_all add: validate_path_Nil validate_source_Nil)

lemma validate_shape_Ok:
  "validate_shape request = Inr () \<longleftrightarrow>
     rq_schema_version request = SOURCE_ACTION_SCHEMA_VERSION \<and>
     list_all (action_shaped (rq_root request)) (rq_actions request)"
  unfolding validate_shape_def Let_def
  by (simp add: concat_enumerate_Nil validate_action_Nil list_all_length del: concat_eq_Nil_conv)

text \<open>C25 -- A request passes the shape check exactly when it has the current schema version and
  every action names the request's root: created paths and destinations are of the root's kind,
  sources are in the very directory, or in the very worktree of the very repository and not at a
  commit, and every edit lies in the source it is submitted for and has ordered offsets. (The
  text of a path is not looked at here; \<open>plan_mutations\<close> refuses \<open>..\<close> after this check.)\<close>

theorem validate_shape_exact:
  "validate_shape request = Inr () \<longleftrightarrow>
     rq_schema_version request = SOURCE_ACTION_SCHEMA_VERSION \<and>
     list_all (action_shaped (rq_root request)) (rq_actions request)"
  by (rule validate_shape_Ok)

subsection \<open>Produced edits\<close>

text \<open>What a batch says: which producer wants which replacement in which range.\<close>

definition claims :: "produced_edit list \<Rightarrow> (action_span \<times> bytes \<times> action_producer) set" where
  "claims edits = {(pe_range e, pe_replacement e, p) | e p. e \<in> set edits \<and> p \<in> set (pe_producers e)}"

definition batch_key :: "produced_edit \<Rightarrow> action_span \<times> bytes" where
  "batch_key e = (pe_range e, pe_replacement e)"

lemma group_aux:
  "bt_wf g \<Longrightarrow>
     bt_wf (foldl (\<lambda>g e. bt_update (pe_range e, pe_replacement e) [] (\<lambda>ps. ps @ pe_producers e) g) g edits)"
  by (induction edits arbitrary: g) simp_all

lemma group_wf_edits: "bt_wf (group_edits edits)"
  by (simp add: group_edits_def group_aux)

lemma group_snoc:
  "group_edits (edits @ [e]) =
     bt_update (pe_range e, pe_replacement e) [] (\<lambda>ps. ps @ pe_producers e) (group_edits edits)"
  by (simp add: group_edits_def)

lemma group_get_edits:
  "bt_get (group_edits edits) k =
     (if k \<in> batch_key ` set edits
      then Some (concat (map pe_producers (filter (\<lambda>e. batch_key e = k) edits))) else None)"
proof (induction edits rule: rev_induct)
  case (snoc e edits)
  show ?case
  proof (cases "k = batch_key e")
    case True
    have "concat (map pe_producers (filter (\<lambda>e'. batch_key e' = k) edits)) = []" if "k \<notin> batch_key ` set edits"
      using that by (auto simp: filter_empty_conv)
    then show ?thesis by (auto simp: group_snoc batch_key_def [symmetric] True [symmetric] snoc.IH)
  next
    case False
    then show ?thesis by (simp add: group_snoc snoc batch_key_def [symmetric])
  qed
qed (simp add: group_edits_def)

lemma dedup_map:
  "map batch_key (deduplicate_equivalent_edits edits) = map fst (group_edits edits)"
  unfolding deduplicate_equivalent_edits_def by (auto simp: batch_key_def)

lemma dedup_mem:
  "e \<in> set (deduplicate_equivalent_edits edits) \<longleftrightarrow>
     (\<exists>ps. bt_get (group_edits edits) (batch_key e) = Some ps \<and> pe_producers e = remdups_adj (sort ps))"
proof -
  have row: "e = (\<lambda>((r, b), ps).
        \<lparr>pe_range = r, pe_replacement = b, pe_producers = remdups_adj (sort ps)\<rparr>) x \<longleftrightarrow>
      batch_key e = fst x \<and> pe_producers e = remdups_adj (sort (snd x))" for x
    by (cases x) (auto simp: batch_key_def)
  have "e \<in> set (deduplicate_equivalent_edits edits) \<longleftrightarrow>
      (\<exists>x \<in> set (group_edits edits). batch_key e = fst x \<and> pe_producers e = remdups_adj (sort (snd x)))"
    unfolding deduplicate_equivalent_edits_def set_map image_iff row ..
  also have "\<dots> \<longleftrightarrow> (\<exists>ps. (batch_key e, ps) \<in> set (group_edits edits) \<and> pe_producers e = remdups_adj (sort ps))"
    by force
  finally show ?thesis by (simp add: bt_get_mem [OF group_wf_edits])
qed

lemma claims_dedup: "claims (deduplicate_equivalent_edits edits) = claims edits"
proof -
  have "(r, b, p) \<in> claims (deduplicate_equivalent_edits edits) \<longleftrightarrow>
      (\<exists>ps. bt_get (group_edits edits) (r, b) = Some ps \<and> p \<in> set ps)" for r b p
  proof
    assume "(r, b, p) \<in> claims (deduplicate_equivalent_edits edits)"
    then show "\<exists>ps. bt_get (group_edits edits) (r, b) = Some ps \<and> p \<in> set ps"
      by (auto simp: claims_def dedup_mem batch_key_def)
  next
    assume "\<exists>ps. bt_get (group_edits edits) (r, b) = Some ps \<and> p \<in> set ps"
    then obtain ps where ps: "bt_get (group_edits edits) (r, b) = Some ps" "p \<in> set ps" by blast
    let ?e = "\<lparr>pe_range = r, pe_replacement = b, pe_producers = remdups_adj (sort ps)\<rparr>"
    have "?e \<in> set (deduplicate_equivalent_edits edits)" using ps(1) by (simp add: dedup_mem batch_key_def)
    moreover have "p \<in> set (pe_producers ?e)" using ps(2) by simp
    ultimately show "(r, b, p) \<in> claims (deduplicate_equivalent_edits edits)"
      unfolding claims_def by force
  qed
  moreover have "(\<exists>ps. bt_get (group_edits edits) (r, b) = Some ps \<and> p \<in> set ps) \<longleftrightarrow> (r, b, p) \<in> claims edits" for r b p
  proof -
    have "(\<exists>ps. bt_get (group_edits edits) (r, b) = Some ps \<and> p \<in> set ps) \<longleftrightarrow>
        (\<exists>e \<in> set edits. batch_key e = (r, b) \<and> p \<in> set (pe_producers e))"
      by (auto simp: group_get_edits) (metis image_eqI)
    also have "\<dots> \<longleftrightarrow> (r, b, p) \<in> claims edits"
      unfolding claims_def batch_key_def by auto
    finally show ?thesis .
  qed
  ultimately show ?thesis by auto
qed

lemma dedup_sorted:
  "sorted_wrt (\<lambda>a b. batch_key a < batch_key b) (deduplicate_equivalent_edits edits)"
proof -
  have "sorted_wrt (<) (map batch_key (deduplicate_equivalent_edits edits))"
    using group_wf_edits [of edits] unfolding dedup_map bt_wf_def .
  then show ?thesis by (simp add: sorted_wrt_map)
qed

lemma dedup_producers:
  "e \<in> set (deduplicate_equivalent_edits edits) \<Longrightarrow> sorted_wrt (<) (pe_producers e)"
  by (auto simp: dedup_mem sorted_remdups_adj_distinct)

text \<open>Merging equivalent edits loses nothing and invents nothing: who wants which bytes in
  which range is the same before and after. The result is canonical: one edit per range and
  replacement, in strictly ascending order, each with its producers in strictly ascending
  order.\<close>

theorem deduplicate_canonical:
  "claims (deduplicate_equivalent_edits edits) = claims edits \<and>
   sorted_wrt (\<lambda>a b. batch_key a < batch_key b) (deduplicate_equivalent_edits edits) \<and>
   list_all (\<lambda>e. sorted_wrt (<) (pe_producers e)) (deduplicate_equivalent_edits edits)"
  using claims_dedup dedup_sorted dedup_producers by (simp add: list_all_iff)

lemma set_expanded: "set (concat (map expand_edit edits)) =
    (\<lambda>(r, b, p). \<lparr>te_range = r, te_replacement = b, te_producer = p\<rparr>) ` claims edits"
  by (auto simp: expand_edit_def claims_def image_iff)

lemma dedup_nonempty:
  "\<forall>e \<in> set edits. pe_producers e \<noteq> [] \<Longrightarrow> e \<in> set (deduplicate_equivalent_edits edits) \<Longrightarrow> pe_producers e \<noteq> []"
proof -
  assume ne: "\<forall>e \<in> set edits. pe_producers e \<noteq> []" and e: "e \<in> set (deduplicate_equivalent_edits edits)"
  obtain ps where ps: "bt_get (group_edits edits) (batch_key e) = Some ps" "pe_producers e = remdups_adj (sort ps)"
    using e by (auto simp: dedup_mem)
  then obtain f where f: "f \<in> set edits" "batch_key f = batch_key e"
    by (metis (mono_tags, lifting) group_get_edits imageE option.distinct(1))
  obtain p where p: "p \<in> set (pe_producers f)" using ne f(1) by (cases "pe_producers f") auto
  have "ps = concat (map pe_producers (filter (\<lambda>e'. batch_key e' = batch_key e) edits))"
    using ps(1) by (simp add: group_get_edits split: if_splits)
  then have "p \<in> set ps" using f p by auto
  then show "pe_producers e \<noteq> []" using ps(2) by (metis empty_iff empty_set remdups_adj_set set_sort)
qed

lemma batch_validate_Ok:
  "batch_validate b = Inr () \<longleftrightarrow>
     pb_schema_version b = PRODUCED_EDIT_SCHEMA_VERSION \<and> (\<forall>e \<in> set (pb_edits b). pe_producers e \<noteq> [])"
  unfolding batch_validate_def Let_def append_is_Nil_conv concat_enumerate_Nil
  by (auto simp: all_set_conv_all_nth)

text \<open>A batch that validates can be merged before it is turned into text edits without any
  effect on the plan: the merged batch validates too, and the planner normalizes its edits to
  the same result, or refuses them alike.\<close>

theorem deduplicate_preserves_plan:
  assumes "into_text_edits b = Inr edits"
  shows "\<exists>b' edits'. batch_deduplicate b = Inr b' \<and> into_text_edits b' = Inr edits' \<and>
    normalize_edits source edits' n = normalize_edits source edits n"
proof -
  let ?d = "deduplicate_equivalent_edits (pb_edits b)"
  have v: "batch_validate b = Inr ()" and edits: "edits = concat (map expand_edit (pb_edits b))"
    using assms by (auto simp: into_text_edits_def rbind_eq_Ok)
  then have v': "batch_validate (batch_new ?d) = Inr ()"
    using dedup_nonempty [of "pb_edits b"] by (simp add: batch_validate_Ok batch_new_def)
  have same: "set (concat (map expand_edit ?d)) = set edits"
    unfolding edits set_expanded claims_dedup ..
  have "normalize_edits source (concat (map expand_edit ?d)) n = normalize_edits source edits n"
    unfolding normalize_edits_def merge_edits_set_cong [OF same] ..
  then show ?thesis
    using v v' by (simp add: batch_deduplicate_def into_text_edits_def batch_new_def)
qed

definition sample_batch :: produced_edit_batch where
  "sample_batch = batch_new
     [produced_new (ActionSpan sample_source 1 3) [9] (producer_unordered ''b''),
      produced_new (ActionSpan sample_source 0 1) [8] (producer_unordered ''a''),
      produced_new (ActionSpan sample_source 1 3) [9] (producer_unordered ''a'')]"

theorem deduplicate_preserves_plan_witness:
  "\<exists>b edits. batch_deduplicate sample_batch = Inr b \<and> length (pb_edits b) = 2 \<and>
     into_text_edits b = Inr edits \<and>
     normalize_edits sample_source edits 5 =
       normalize_edits sample_source (concat (map expand_edit (pb_edits sample_batch))) 5"
proof -
  have i: "into_text_edits sample_batch = Inr (concat (map expand_edit (pb_edits sample_batch)))"
    by code_simp
  have "length (deduplicate_equivalent_edits (pb_edits sample_batch)) = 2" by code_simp
  then have "batch_deduplicate sample_batch = Inr b \<Longrightarrow> length (pb_edits b) = 2" for b
    by (auto simp: batch_deduplicate_def batch_new_def rbind_eq_Ok)
  then show ?thesis using deduplicate_preserves_plan [OF i, of sample_source 5] by blast
qed

text \<open>An ast-grep edit is taken over exactly when its end does not overflow; the range then
  starts at the given position, covers the deleted length, and is ordered.\<close>

theorem from_ast_grep_exact:
  "from_ast_grep_parts source position deleted inserted producer =
     (if 2 ^ 64 \<le> unat position + unat deleted then Inl AstGrepOffsetOverflow
      else Inr \<lparr>pe_range = ActionSpan source position (position + deleted), pe_replacement = inserted,
        pe_producers = [producer]\<rparr>) \<and>
   (unat position + unat deleted < 2 ^ 64 \<longleftrightarrow> unat (position + deleted) = unat position + unat deleted)"
proof -
  have "unat (position + deleted) < 2 ^ 64" using unsigned_less [of "position + deleted"] by simp
  then show ?thesis
    by (auto simp: from_ast_grep_parts_def checked_add_def produced_new_def unat_word_ariths)
qed

end
