(* ===== verification/StdPath.thy ===== *)
theory StdPath
  imports Prelude "HOL-Library.Sublist"
begin

text \<open>
  \<open>std::path\<close> on Unix, as far as the sources use it. A \<open>str\<close> is its UTF-8 bytes, one \<open>char\<close>
  each. \<open>components\<close> is \<open>Path::components\<close>: it drops empty parts and every \<open>.\<close> but a leading
  one. \<open>os_names\<close> is what the operating system sees of the same text: a trailing \<open>/\<close> or \<open>/.\<close>
  demands a directory, which is kept as a final \<open>.\<close>. An absolute path is the list of its names
  below \<open>/\<close>.
\<close>

type_synonym apath = "string list"

datatype component = RootDir | CurDir | ParentDir | Normal string

fun split_on :: "char \<Rightarrow> string \<Rightarrow> string list" where
  "split_on c [] = [[]]"
| "split_on c (x # xs) =
     (if x = c then [] # split_on c xs
      else (case split_on c xs of [] \<Rightarrow> [[x]] | p # ps \<Rightarrow> (x # p) # ps))"

definition str_contains :: "char \<Rightarrow> string \<Rightarrow> bool" where
  "str_contains c s \<longleftrightarrow> c \<in> set s"

definition slash :: char where "slash = CHR ''/''"

definition is_absolute :: "string \<Rightarrow> bool" where
  "is_absolute s \<longleftrightarrow> (case s of [] \<Rightarrow> False | c # _ \<Rightarrow> c = slash)"

fun body_components :: "string list \<Rightarrow> component list" where
  "body_components [] = []"
| "body_components (p # ps) =
     (if p = [] \<or> p = ''.'' then body_components ps
      else if p = ''..'' then ParentDir # body_components ps
      else Normal p # body_components ps)"

definition components :: "string \<Rightarrow> component list" where
  "components s =
     (if is_absolute s then RootDir # body_components (split_on slash s)
      else (case split_on slash s of
              [] \<Rightarrow> []
            | p # ps \<Rightarrow> (if p = ''.'' then CurDir # body_components ps
                        else body_components (p # ps))))"

definition needs_dir :: "string \<Rightarrow> bool" where
  "needs_dir s \<longleftrightarrow> s \<noteq> [] \<and> last (split_on slash s) \<in> {[], ''.''}"

definition os_names :: "string \<Rightarrow> string list" where
  "os_names s =
     filter (\<lambda>p. p \<noteq> [] \<and> p \<noteq> ''.'') (split_on slash s) @ (if needs_dir s then [''.''] else [])"

text \<open>\<open>Path::join\<close>: an absolute right side replaces the left one.\<close>

definition join_path :: "apath \<Rightarrow> string \<Rightarrow> apath" where
  "join_path root s = (if is_absolute s then os_names s else root @ os_names s)"

text \<open>\<open>Path::parent\<close> works on components, so a final \<open>.\<close> does not count.\<close>

definition path_parent :: "apath \<Rightarrow> apath option" where
  "path_parent p =
     (let q = (if p \<noteq> [] \<and> last p = ''.'' then butlast p else p)
      in if q = [] then None else Some (butlast q))"

text \<open>\<open>Path::display\<close>.\<close>

fun show_path :: "apath \<Rightarrow> string" where
  "show_path [] = ''/''"
| "show_path [n] = slash # n"
| "show_path (n # ns) = slash # n @ show_path ns"

text \<open>\<open>Path::starts_with\<close> and \<open>Path::strip_prefix\<close> on component lists.\<close>

definition path_starts_with :: "apath \<Rightarrow> apath \<Rightarrow> bool" where
  "path_starts_with p base \<longleftrightarrow> prefix base p"

definition path_strip_prefix :: "apath \<Rightarrow> apath \<Rightarrow> apath option" where
  "path_strip_prefix base p = (if prefix base p then Some (drop (length base) p) else None)"

text \<open>
  A plain relative path: no component but names, nothing that asks the operating system for a
  directory. For these the two readings of the text agree.
\<close>

definition plain_rel :: "string \<Rightarrow> bool" where
  "plain_rel s \<longleftrightarrow> \<not> is_absolute s \<and> \<not> needs_dir s \<and> s \<noteq> [] \<and> ''..'' \<notin> set (split_on slash s)"

lemma split_on_nonempty [simp]: "split_on c s \<noteq> []"
  by (induction s) (auto split: list.splits)

lemma split_on_no_sep: "p \<in> set (split_on c s) \<Longrightarrow> c \<notin> set p"
proof (induction s arbitrary: p)
  case (Cons x s)
  show ?case
  proof (cases "x = c")
    case True
    with Cons show ?thesis by auto
  next
    case False
    obtain q qs where "split_on c s = q # qs" by (cases "split_on c s") auto
    with Cons False show ?thesis by auto
  qed
qed simp

lemma set_body_components:
  "set (body_components ps) =
     (\<lambda>p. if p = ''..'' then ParentDir else Normal p) ` {p \<in> set ps. p \<noteq> [] \<and> p \<noteq> ''.''}"
  by (induction ps) auto

lemma parent_dir_iff: "ParentDir \<in> set (components s) \<longleftrightarrow> ''..'' \<in> set (split_on slash s)"
proof (cases "is_absolute s")
  case True
  then show ?thesis by (auto simp: components_def set_body_components)
next
  case False
  obtain p ps where "split_on slash s = p # ps" by (cases "split_on slash s") auto
  with False show ?thesis
    by (cases "p = ''.''") (auto simp: components_def set_body_components)
qed

lemma root_dir_iff: "RootDir \<in> set (components s) \<longleftrightarrow> is_absolute s"
proof (cases "is_absolute s")
  case False
  obtain p ps where "split_on slash s = p # ps" by (cases "split_on slash s") auto
  with False show ?thesis
    by (cases "p = ''.''") (auto simp: components_def set_body_components)
qed (simp add: components_def)

lemma normal_iff:
  "Normal n \<in> set (components s) \<longleftrightarrow>
     n \<in> set (split_on slash s) \<and> n \<noteq> [] \<and> n \<noteq> ''.'' \<and> n \<noteq> ''..''"
proof (cases "is_absolute s")
  case True
  then show ?thesis by (auto simp: components_def set_body_components)
next
  case False
  obtain p ps where "split_on slash s = p # ps" by (cases "split_on slash s") auto
  with False show ?thesis
    by (cases "p = ''.''") (auto simp: components_def set_body_components)
qed

lemma os_names_no_dotdot:
  "''..'' \<notin> set (split_on slash s) \<Longrightarrow> ''..'' \<notin> set (os_names s)"
  by (auto simp: os_names_def)

lemma os_names_plain:
  assumes "plain_rel s"
  shows "''.'' \<notin> set (os_names s)" "''..'' \<notin> set (os_names s)" "[] \<notin> set (os_names s)"
    "os_names s \<noteq> []"
proof -
  show "''.'' \<notin> set (os_names s)" "''..'' \<notin> set (os_names s)" "[] \<notin> set (os_names s)"
    using assms by (auto simp: os_names_def plain_rel_def)
  have "last (split_on slash s) \<noteq> [] \<and> last (split_on slash s) \<noteq> ''.''"
    using assms unfolding plain_rel_def needs_dir_def by blast
  moreover have "last (split_on slash s) \<in> set (split_on slash s)" by simp
  ultimately have "last (split_on slash s) \<in> set (os_names s)"
    unfolding os_names_def by simp
  then show "os_names s \<noteq> []" by (metis list.set(1) empty_iff)
qed

lemma join_plain: "plain_rel s \<Longrightarrow> join_path root s = root @ os_names s"
  by (simp add: join_path_def plain_rel_def)

lemma path_parent_snoc: "n \<noteq> ''.'' \<Longrightarrow> path_parent (p @ [n]) = Some p"
  by (simp add: path_parent_def)

text \<open>
  On a plain path the walk over all components but the last that the sources do visits the
  names of the path but the last.
\<close>

lemma body_components_plain:
  "''..'' \<notin> set ps \<Longrightarrow>
     body_components ps = map Normal (filter (\<lambda>p. p \<noteq> [] \<and> p \<noteq> ''.'') ps)"
  by (induction ps) auto

lemma components_plain:
  assumes "plain_rel s"
  obtains "components s = map Normal (os_names s)"
  | "components s = CurDir # map Normal (os_names s)"
proof -
  obtain p ps where sp: "split_on slash s = p # ps" by (cases "split_on slash s") auto
  have no: "''..'' \<notin> set ps" "p \<noteq> ''..''" using assms by (auto simp: plain_rel_def sp)
  show ?thesis
  proof (cases "p = ''.''")
    case True
    with no have "components s = CurDir # map Normal (os_names s)"
      using assms by (simp add: components_def sp os_names_def plain_rel_def body_components_plain)
    then show ?thesis by (rule that(2))
  next
    case False
    with no have "components s = map Normal (os_names s)"
      using assms
      by (simp add: components_def sp os_names_def plain_rel_def body_components_plain
          del: body_components.simps)
    then show ?thesis by (rule that(1))
  qed
qed

end
