(* ===== verification/FileSystem.thy ===== *)
theory FileSystem
  imports StdPath BTree "HOL-Library.List_Lexorder" "HOL-Library.Char_ord"
begin

unbundle bit_operations_syntax

text \<open>
  The part of \<open>std::fs\<close> on a Unix system that the sources call, over an explicit state. A file
  system is the ordered map from absolute paths to nodes; a file carries its bytes and its
  \<open>st_mode\<close>, a symbolic link its text. Paths are resolved name by name as the kernel does
  (\<open>walk\<close>): every name but the last must lead to a directory, symbolic links are followed, at
  most 40 of them, the last one only where the call follows it.

  Beside the nodes the state has what the sources observe or leave behind: the held advisory
  locks, the tally of device syncs, the trace of changes and syncs in order, the umask and the
  device number of each place. Access rights are not enforced (the process may read, write and
  search everything), the disk does not fill up, and \<open>hard_link\<close> copies the node: no linked
  file is ever written in place by the sources.
\<close>

datatype node = NFile bytes u32 | NDir | NSymlink string | NOther

type_synonym fs = "(apath, node) btree"

datatype sync_level = SyncData | SyncFence | SyncFlush

record device_sync_counts =
  dsc_data :: u64
  dsc_fences :: u64
  dsc_flushes :: u64

datatype event =
  EvSync apath sync_level
| EvPut apath
| EvMkdir apath
| EvRename apath apath
| EvRemove apath
| EvMode apath

record world =
  w_fs :: fs
  w_umask :: u32
  w_dev :: "apath \<Rightarrow> nat"
  w_locks :: "apath set"
  w_counts :: device_sync_counts
  w_log :: "event list"

datatype io_error =
  NotFound | NotADirectory | IsADirectory | AlreadyExists | DirectoryNotEmpty
| FilesystemLoop | InvalidInput | OtherError string

text \<open>\<open>io::Error\<close> as \<open>Display\<close> writes it on Linux.\<close>

fun io_text :: "io_error \<Rightarrow> string" where
  "io_text NotFound = ''No such file or directory (os error 2)''"
| "io_text NotADirectory = ''Not a directory (os error 20)''"
| "io_text IsADirectory = ''Is a directory (os error 21)''"
| "io_text AlreadyExists = ''File exists (os error 17)''"
| "io_text DirectoryNotEmpty = ''Directory not empty (os error 39)''"
| "io_text FilesystemLoop = ''Too many levels of symbolic links (os error 40)''"
| "io_text InvalidInput = ''Invalid argument (os error 22)''"
| "io_text (OtherError s) = s"

type_synonym 'a io = "(world, io_error, 'a) stm"

definition S_IFREG :: u32 where "S_IFREG = 0x8000"
definition perm_bits :: u32 where "perm_bits = 0xFFF"
definition write_bits :: u32 where "write_bits = 0x92"

text \<open>The mode of a file created with \<open>open(.., 0o666)\<close>.\<close>

definition fresh_of :: "u32 \<Rightarrow> u32" where
  "fresh_of umask = (S_IFREG OR (0x1B6 AND NOT umask))"

definition fresh_mode :: "world \<Rightarrow> u32" where
  "fresh_mode w = fresh_of (w_umask w)"

subsection \<open>Path resolution\<close>

fun walk :: "nat \<Rightarrow> fs \<Rightarrow> bool \<Rightarrow> apath \<Rightarrow> string list \<Rightarrow> io_error + apath" where
  "walk n fs follow cur [] = Inr cur"
| "walk n fs follow cur (c # cs) =
     (case bt_get fs cur of
        None \<Rightarrow> Inl NotFound
      | Some NDir \<Rightarrow>
          (if c = ''.'' then walk n fs follow cur cs
           else if c = ''..'' then walk n fs follow (butlast cur) cs
           else (case bt_get fs (cur @ [c]) of
                   Some (NSymlink t) \<Rightarrow>
                     (if cs = [] \<and> \<not> follow then Inr (cur @ [c])
                      else (case n of
                              0 \<Rightarrow> Inl FilesystemLoop
                            | Suc m \<Rightarrow> walk m fs follow (if is_absolute t then [] else cur) (os_names t @ cs)))
                 | _ \<Rightarrow> walk n fs follow (cur @ [c]) cs))
      | Some _ \<Rightarrow> Inl NotADirectory)"

definition resolve :: "fs \<Rightarrow> apath \<Rightarrow> io_error + apath" where
  "resolve fs p = walk 40 fs True [] p"

definition resolve_nofollow :: "fs \<Rightarrow> apath \<Rightarrow> io_error + apath" where
  "resolve_nofollow fs p = walk 40 fs False [] p"

subsection \<open>Reading\<close>

text \<open>\<open>fs::symlink_metadata\<close>, \<open>fs::metadata\<close>, \<open>fs::canonicalize\<close>, \<open>Path::exists\<close>, \<open>Path::is_dir\<close>,
  \<open>fs::read\<close>, \<open>fs::read_dir\<close>.\<close>

definition lstat :: "fs \<Rightarrow> apath \<Rightarrow> io_error + node" where
  "lstat fs p = rbind (resolve_nofollow fs p) (\<lambda>q. ok_or NotFound (bt_get fs q))"

definition stat :: "fs \<Rightarrow> apath \<Rightarrow> io_error + node" where
  "stat fs p = rbind (resolve fs p) (\<lambda>q. ok_or NotFound (bt_get fs q))"

definition canonicalize :: "fs \<Rightarrow> apath \<Rightarrow> io_error + apath" where
  "canonicalize fs p =
     rbind (resolve fs p) (\<lambda>q. if bt_get fs q = None then Inl NotFound else Inr q)"

definition path_exists :: "fs \<Rightarrow> apath \<Rightarrow> bool" where
  "path_exists fs p = is_ok (stat fs p)"

definition path_is_dir :: "fs \<Rightarrow> apath \<Rightarrow> bool" where
  "path_is_dir fs p \<longleftrightarrow> stat fs p = Inr NDir"

definition fs_read :: "fs \<Rightarrow> apath \<Rightarrow> io_error + bytes" where
  "fs_read fs p = rbind (stat fs p) (\<lambda>n. case n of
       NFile b m \<Rightarrow> Inr b
     | NDir \<Rightarrow> Inl IsADirectory
     | NSymlink t \<Rightarrow> Inl InvalidInput
     | NOther \<Rightarrow> Inl (OtherError ''not a regular file''))"

definition node_len :: "node \<Rightarrow> u64" where
  "node_len n = (case n of NFile b m \<Rightarrow> len64 b | NSymlink t \<Rightarrow> len64 t | _ \<Rightarrow> 0)"

definition read_dir :: "fs \<Rightarrow> apath \<Rightarrow> io_error + (string \<times> node) list" where
  "read_dir fs p = rbind (resolve fs p) (\<lambda>q. case bt_get fs q of
       None \<Rightarrow> Inl NotFound
     | Some NDir \<Rightarrow> Inr (map (\<lambda>(k, n). (last k, n)) (filter (\<lambda>(k, n). k \<noteq> [] \<and> butlast k = q) fs))
     | Some _ \<Rightarrow> Inl NotADirectory)"

text \<open>\<open>Permissions::readonly\<close>, and the effect of \<open>fchmod\<close> on \<open>st_mode\<close>.\<close>

definition mode_readonly :: "u32 \<Rightarrow> bool" where
  "mode_readonly m \<longleftrightarrow> m AND write_bits = 0"

definition chmod_mode :: "u32 \<Rightarrow> u32 \<Rightarrow> u32" where
  "chmod_mode old new = ((old AND NOT perm_bits) OR (new AND perm_bits))"

subsection \<open>Changing\<close>

definition io_log :: "event \<Rightarrow> world \<Rightarrow> world" where
  "io_log ev w = w\<lparr>w_log := w_log w @ [ev]\<rparr>"

definition set_node :: "apath \<Rightarrow> node \<Rightarrow> world \<Rightarrow> world" where
  "set_node p n w = w\<lparr>w_fs := bt_insert p n (w_fs w)\<rparr>"

definition drop_node :: "apath \<Rightarrow> world \<Rightarrow> world" where
  "drop_node p w = w\<lparr>w_fs := bt_remove p (w_fs w)\<rparr>"

text \<open>\<open>fs::write\<close>: create or truncate, following a final link, keeping the mode of a file that
  exists.\<close>

definition fs_write :: "apath \<Rightarrow> bytes \<Rightarrow> unit io" where
  "fs_write p b = (\<lambda>w. case resolve (w_fs w) p of
       Inl e \<Rightarrow> (Inl e, w)
     | Inr q \<Rightarrow> (case bt_get (w_fs w) q of
           None \<Rightarrow> (Inr (), io_log (EvPut q) (set_node q (NFile b (fresh_mode w)) w))
         | Some (NFile old m) \<Rightarrow> (Inr (), io_log (EvPut q) (set_node q (NFile b m) w))
         | Some NDir \<Rightarrow> (Inl IsADirectory, w)
         | Some _ \<Rightarrow> (Inl (OtherError ''not a regular file''), w)))"

text \<open>\<open>File::set_permissions\<close> on the file opened at a path.\<close>

definition fs_chmod :: "apath \<Rightarrow> (u32 \<Rightarrow> u32) \<Rightarrow> unit io" where
  "fs_chmod p f = (\<lambda>w. case resolve (w_fs w) p of
       Inl e \<Rightarrow> (Inl e, w)
     | Inr q \<Rightarrow> (case bt_get (w_fs w) q of
           None \<Rightarrow> (Inl NotFound, w)
         | Some (NFile b m) \<Rightarrow>
             (Inr (), io_log (EvMode q) (set_node q (NFile b (chmod_mode m (f m))) w))
         | Some _ \<Rightarrow> (Inr (), w)))"

definition fs_mkdir :: "apath \<Rightarrow> unit io" where
  "fs_mkdir p = (\<lambda>w. case resolve_nofollow (w_fs w) p of
       Inl e \<Rightarrow> (Inl e, w)
     | Inr q \<Rightarrow>
         (if bt_get (w_fs w) q \<noteq> None then (Inl AlreadyExists, w)
          else (Inr (), io_log (EvMkdir q) (set_node q NDir w))))"

text \<open>\<open>fs::create_dir_all\<close>, as the standard library does it: try the directory itself, on
  \<open>NotFound\<close> its parents first, and forgive a failure where a directory is there.\<close>

function create_dir_all :: "apath \<Rightarrow> unit io" where
  "create_dir_all p = (\<lambda>w. case fs_mkdir p w of
       (Inr u, w') \<Rightarrow> (Inr (), w')
     | (Inl e, w') \<Rightarrow>
         (if e \<noteq> NotFound then (if path_is_dir (w_fs w') p then Inr () else Inl e, w')
          else (case path_parent p of
              None \<Rightarrow> (Inl (OtherError ''failed to create whole tree''), w')
            | Some q \<Rightarrow> (case create_dir_all q w' of
                (Inl e, w2) \<Rightarrow> (Inl e, w2)
              | (Inr u, w2) \<Rightarrow> (case fs_mkdir p w2 of
                  (Inr u, w3) \<Rightarrow> (Inr (), w3)
                | (Inl e, w3) \<Rightarrow> (if path_is_dir (w_fs w3) p then Inr () else Inl e, w3))))))"
  by pat_completeness auto

termination
  by (relation "measure length")
    (auto simp: path_parent_def Let_def split: if_splits)

declare create_dir_all.simps [simp del]

definition fs_remove_file :: "apath \<Rightarrow> unit io" where
  "fs_remove_file p = (\<lambda>w. case resolve_nofollow (w_fs w) p of
       Inl e \<Rightarrow> (Inl e, w)
     | Inr q \<Rightarrow> (case bt_get (w_fs w) q of
           None \<Rightarrow> (Inl NotFound, w)
         | Some NDir \<Rightarrow> (Inl IsADirectory, w)
         | Some _ \<Rightarrow> (Inr (), io_log (EvRemove q) (drop_node q w))))"

text \<open>\<open>fs::rename\<close>: a directory moves with everything below it and replaces only an empty
  directory; anything else replaces anything but a directory.\<close>

definition move_tree :: "apath \<Rightarrow> apath \<Rightarrow> fs \<Rightarrow> fs" where
  "move_tree p q fs =
     bt_collect (map (\<lambda>(k, n). (if prefix p k then q @ drop (length p) k else k, n))
       (filter (\<lambda>(k, n). k \<noteq> q) fs))"

definition rename_into :: "apath \<Rightarrow> apath \<Rightarrow> node \<Rightarrow> unit io" where
  "rename_into p q n = (\<lambda>w.
     (if p = q then (Inr (), w)
      else if n = NDir then
        (if prefix p q then (Inl InvalidInput, w)
         else if bt_get (w_fs w) q = Some NDir \<and> (\<exists>k \<in> set (bt_keys (w_fs w)). strict_prefix q k)
         then (Inl DirectoryNotEmpty, w)
         else if bt_get (w_fs w) q \<noteq> None \<and> bt_get (w_fs w) q \<noteq> Some NDir then (Inl NotADirectory, w)
         else (Inr (), io_log (EvRename p q) (w\<lparr>w_fs := move_tree p q (w_fs w)\<rparr>)))
      else if bt_get (w_fs w) q = Some NDir then (Inl IsADirectory, w)
      else (Inr (), io_log (EvRename p q) (set_node q n (drop_node p w)))))"

definition fs_rename :: "apath \<Rightarrow> apath \<Rightarrow> unit io" where
  "fs_rename src dst = (\<lambda>w. case resolve_nofollow (w_fs w) src of
       Inl e \<Rightarrow> (Inl e, w)
     | Inr p \<Rightarrow> (case bt_get (w_fs w) p of
           None \<Rightarrow> (Inl NotFound, w)
         | Some n \<Rightarrow> (case resolve_nofollow (w_fs w) dst of
               Inl e \<Rightarrow> (Inl e, w)
             | Inr q \<Rightarrow> rename_into p q n w)))"

definition fs_hard_link :: "apath \<Rightarrow> apath \<Rightarrow> unit io" where
  "fs_hard_link src dst = (\<lambda>w. case lstat (w_fs w) src of
       Inl e \<Rightarrow> (Inl e, w)
     | Inr n \<Rightarrow>
         (if n = NDir then (Inl (OtherError ''Operation not permitted (os error 1)''), w)
          else (case resolve_nofollow (w_fs w) dst of
              Inl e \<Rightarrow> (Inl e, w)
            | Inr q \<Rightarrow>
                (if bt_get (w_fs w) q \<noteq> None then (Inl AlreadyExists, w)
                 else (Inr (), io_log (EvPut q) (set_node q n w))))))"

text \<open>\<open>OpenOptions::new().create(true).truncate(false).read(true).write(true).open(path)\<close>.\<close>

definition open_or_create :: "apath \<Rightarrow> unit io" where
  "open_or_create p = (\<lambda>w. case resolve (w_fs w) p of
       Inl e \<Rightarrow> (Inl e, w)
     | Inr q \<Rightarrow> (case bt_get (w_fs w) q of
           None \<Rightarrow> (Inr (), io_log (EvPut q) (set_node q (NFile [] (fresh_mode w)) w))
         | Some NDir \<Rightarrow> (Inl IsADirectory, w)
         | Some _ \<Rightarrow> (Inr (), w)))"

end
