(* ===== verification/FsFacts.thy ===== *)
theory FsFacts
  imports FileSystem
begin

text \<open>
  What the operations of \<open>FileSystem\<close> do on a well-formed file system, stated over the lookup
  function of the tree. \<open>tree g\<close> says that everything present has a directory above it and that
  a regular file has the \<open>st_mode\<close> of one; \<open>clear g p\<close> that nothing but directories stands above
  \<open>p\<close>, which is what the sources check before they touch \<open>p\<close>. On a clear path the kernel's
  resolution is the identity, so each operation is one update of the lookup function.
\<close>

subsection \<open>Trees\<close>

type_synonym tree = "apath \<Rightarrow> node option"

definition mode_regular :: "u32 \<Rightarrow> bool" where
  "mode_regular m \<longleftrightarrow> m AND NOT perm_bits = S_IFREG"

definition tree :: "tree \<Rightarrow> bool" where
  "tree g \<longleftrightarrow> g [] = Some NDir \<and> (\<forall>p c. g (p @ [c]) \<noteq> None \<longrightarrow> g p = Some NDir) \<and>
     (\<forall>p b m. g p = Some (NFile b m) \<longrightarrow> mode_regular m)"

definition fs_ok :: "fs \<Rightarrow> bool" where
  "fs_ok fs \<longleftrightarrow> bt_wf fs \<and> tree (bt_get fs)"

definition world_ok :: "world \<Rightarrow> bool" where
  "world_ok w \<longleftrightarrow> fs_ok (w_fs w)"

definition names_ok :: "apath \<Rightarrow> bool" where
  "names_ok p \<longleftrightarrow> ''.'' \<notin> set p \<and> ''..'' \<notin> set p"

definition clear :: "tree \<Rightarrow> apath \<Rightarrow> bool" where
  "clear g p \<longleftrightarrow> (\<forall>q. strict_prefix q p \<longrightarrow> g q = None \<or> g q = Some NDir)"

abbreviation w_tree :: "world \<Rightarrow> tree" where
  "w_tree w \<equiv> bt_get (w_fs w)"

lemma tree_parent: "tree g \<Longrightarrow> g (p @ [c]) \<noteq> None \<Longrightarrow> g p = Some NDir"
  unfolding tree_def by blast

lemma tree_root: "tree g \<Longrightarrow> g [] = Some NDir"
  by (simp add: tree_def)

lemma tree_mode: "tree g \<Longrightarrow> g p = Some (NFile b m) \<Longrightarrow> mode_regular m"
  by (auto simp: tree_def)

lemma tree_above:
  assumes "tree g" "g (p @ q) \<noteq> None" "q \<noteq> []"
  shows "g p = Some NDir"
  using assms(2,3)
proof (induction q rule: rev_induct)
  case (snoc c q)
  then have "g (p @ q) = Some NDir" using tree_parent [OF assms(1), of "p @ q" c] by simp
  with snoc.IH show ?case by (cases "q = []") auto
qed simp

lemma tree_strict_prefix: "tree g \<Longrightarrow> strict_prefix q p \<Longrightarrow> g p \<noteq> None \<Longrightarrow> g q = Some NDir"
  by (auto simp: strict_prefix_def prefix_def intro: tree_above)

lemma tree_prefix_dir: "tree g \<Longrightarrow> prefix q p \<Longrightarrow> g p = Some NDir \<Longrightarrow> g q = Some NDir"
  using tree_strict_prefix [of g q p] by (cases "q = p") (auto simp: strict_prefix_def)

lemma tree_below_file:
  assumes "tree g" "strict_prefix p q" "g p \<noteq> Some NDir"
  shows "g q = None"
  using tree_strict_prefix [OF assms(1,2)] assms(3) by metis

lemma clear_above: "clear g p \<Longrightarrow> strict_prefix q p \<Longrightarrow> g q = None \<or> g q = Some NDir"
  by (auto simp: clear_def)

lemma clear_prefix: "clear g p \<Longrightarrow> prefix q p \<Longrightarrow> clear g q"
  unfolding clear_def by (meson prefix_order.less_le_trans)

lemma clear_present: "tree g \<Longrightarrow> g p \<noteq> None \<Longrightarrow> clear g p"
  unfolding clear_def by (auto dest: tree_strict_prefix)

lemma names_ok_append [simp]: "names_ok (p @ q) \<longleftrightarrow> names_ok p \<and> names_ok q"
  by (auto simp: names_ok_def)

lemma names_ok_Nil [simp]: "names_ok []"
  by (simp add: names_ok_def)

lemma names_ok_Cons [simp]: "names_ok (c # p) \<longleftrightarrow> c \<noteq> ''.'' \<and> c \<noteq> ''..'' \<and> names_ok p"
  by (auto simp: names_ok_def)

lemma names_ok_prefix: "names_ok p \<Longrightarrow> prefix q p \<Longrightarrow> names_ok q"
  by (auto simp: prefix_def)

subsection \<open>Resolution of a clear path\<close>

lemma walk_clear:
  assumes "tree (bt_get fs)" "names_ok (cur @ ds @ [c])" "clear (bt_get fs) (cur @ ds @ [c])"
  shows "walk n fs follow cur (ds @ [c]) =
     (if bt_get fs (cur @ ds) = Some NDir then walk n fs follow (cur @ ds) [c] else Inl NotFound)"
  using assms(2,3)
proof (induction ds arbitrary: cur)
  case Nil
  have "bt_get fs cur = None \<or> bt_get fs cur = Some NDir"
    by (rule clear_above [OF Nil.prems(2)]) (simp add: strict_prefix_def)
  then show ?case by auto
next
  case (Cons d ds)
  have cur: "bt_get fs cur = None \<or> bt_get fs cur = Some NDir"
    by (rule clear_above [OF Cons.prems(2)]) (simp add: strict_prefix_def)
  have step: "bt_get fs (cur @ [d]) = None \<or> bt_get fs (cur @ [d]) = Some NDir"
    by (rule clear_above [OF Cons.prems(2)]) (auto simp: strict_prefix_def prefix_def)
  show ?case
  proof (cases "bt_get fs cur = None")
    case True
    then have "bt_get fs (cur @ d # ds) = None"
      using tree_above [OF assms(1), of cur "d # ds"] by force
    with True show ?thesis by simp
  next
    case False
    with cur have "walk n fs follow cur ((d # ds) @ [c]) = walk n fs follow (cur @ [d]) (ds @ [c])"
      using step Cons.prems(1) by auto
    also have "\<dots> = (if bt_get fs (cur @ d # ds) = Some NDir
        then walk n fs follow (cur @ d # ds) [c] else Inl NotFound)"
      using Cons.IH [of "cur @ [d]"] Cons.prems by simp
    finally show ?thesis .
  qed
qed

lemma walk_last:
  assumes "bt_get fs d = Some NDir" "c \<noteq> ''.''" "c \<noteq> ''..''"
    and "follow \<Longrightarrow> \<forall>t. bt_get fs (d @ [c]) \<noteq> Some (NSymlink t)"
  shows "walk n fs follow d [c] = Inr (d @ [c])"
  using assms by (auto split: option.splits node.splits)

lemma resolve_nofollow_clear:
  assumes "tree (bt_get fs)" "names_ok p" "clear (bt_get fs) p"
  shows "resolve_nofollow fs p =
     (if p = [] \<or> bt_get fs (butlast p) = Some NDir then Inr p else Inl NotFound)"
proof (cases p rule: rev_cases)
  case (snoc d c)
  then show ?thesis
    using assms walk_clear [of fs "[]" d c 40 False] walk_last [of fs d c False 40]
    by (simp add: resolve_nofollow_def)
qed (simp add: resolve_nofollow_def)

lemma resolve_clear:
  assumes "tree (bt_get fs)" "names_ok p" "clear (bt_get fs) p"
    and "\<forall>t. bt_get fs p \<noteq> Some (NSymlink t)"
  shows "resolve fs p =
     (if p = [] \<or> bt_get fs (butlast p) = Some NDir then Inr p else Inl NotFound)"
proof (cases p rule: rev_cases)
  case (snoc d c)
  then show ?thesis
    using assms walk_clear [of fs "[]" d c 40 True] walk_last [of fs d c True 40]
    by (simp add: resolve_def)
qed (simp add: resolve_def)

lemma tree_butlast: "tree g \<Longrightarrow> g p \<noteq> None \<Longrightarrow> p \<noteq> [] \<Longrightarrow> g (butlast p) = Some NDir"
  by (cases p rule: rev_cases) (auto dest: tree_parent)

lemma lstat_clear:
  assumes "tree (bt_get fs)" "names_ok p" "clear (bt_get fs) p"
  shows "lstat fs p = ok_or NotFound (bt_get fs p)"
  using assms tree_butlast [OF assms(1), of p] tree_root [OF assms(1)]
  by (cases "bt_get fs p") (auto simp: lstat_def resolve_nofollow_clear)

lemma stat_clear:
  assumes "tree (bt_get fs)" "names_ok p" "clear (bt_get fs) p"
    and "\<forall>t. bt_get fs p \<noteq> Some (NSymlink t)"
  shows "stat fs p = ok_or NotFound (bt_get fs p)"
  using assms tree_butlast [OF assms(1), of p] tree_root [OF assms(1)]
  by (cases "bt_get fs p") (auto simp: stat_def resolve_clear)

lemma stat_present:
  assumes "tree (bt_get fs)" "names_ok p" "bt_get fs p = Some n" "\<forall>t. n \<noteq> NSymlink t"
  shows "stat fs p = Inr n"
  using stat_clear [OF assms(1,2) clear_present] assms by simp

lemma lstat_present:
  "tree (bt_get fs) \<Longrightarrow> names_ok p \<Longrightarrow> bt_get fs p = Some n \<Longrightarrow> lstat fs p = Inr n"
  using lstat_clear [of fs p] clear_present [of "bt_get fs" p] by simp

lemma fs_read_file:
  "tree (bt_get fs) \<Longrightarrow> names_ok p \<Longrightarrow> bt_get fs p = Some (NFile b m) \<Longrightarrow> fs_read fs p = Inr b"
  by (simp add: fs_read_def stat_present)

lemma fs_read_absent:
  assumes "tree (bt_get fs)" "names_ok p" "clear (bt_get fs) p" "bt_get fs p = None"
  shows "fs_read fs p = Inl NotFound"
  using assms by (simp add: fs_read_def stat_clear)

lemma path_exists_clear:
  assumes "tree (bt_get fs)" "names_ok p" "clear (bt_get fs) p"
    and "\<forall>t. bt_get fs p \<noteq> Some (NSymlink t)"
  shows "path_exists fs p \<longleftrightarrow> bt_get fs p \<noteq> None"
  using assms by (cases "bt_get fs p") (auto simp: path_exists_def stat_clear)

lemma path_is_dir_present:
  "tree (bt_get fs) \<Longrightarrow> names_ok p \<Longrightarrow> bt_get fs p = Some NDir \<Longrightarrow> path_is_dir fs p"
  by (simp add: path_is_dir_def stat_present)

lemma canonicalize_dir:
  assumes "tree (bt_get fs)" "names_ok p" "bt_get fs p = Some NDir"
  shows "canonicalize fs p = Inr p"
proof -
  have "clear (bt_get fs) p" using assms by (simp add: clear_present)
  then have "resolve fs p = Inr p"
    using assms tree_butlast [OF assms(1), of p] by (auto simp: resolve_clear)
  with assms show ?thesis by (simp add: canonicalize_def)
qed

subsection \<open>Updates of trees\<close>

definition mkdirs :: "apath \<Rightarrow> tree \<Rightarrow> tree" where
  "mkdirs d g = (\<lambda>q. if prefix q d then Some NDir else g q)"

lemma tree_add:
  assumes "tree g" "g p = Some NDir" "g (p @ [c]) \<noteq> Some NDir" "\<And>b m. n = NFile b m \<Longrightarrow> mode_regular m"
  shows "tree (g(p @ [c] \<mapsto> n))"
proof -
  have below: "g ((p @ [c]) @ [d]) = None" for d
    using tree_parent [OF assms(1), of "p @ [c]" d] assms(3) by metis
  have "(g(p @ [c] \<mapsto> n)) q = Some NDir" if "(g(p @ [c] \<mapsto> n)) (q @ [d]) \<noteq> None" for q d
    using that below [of d] assms(2) tree_parent [OF assms(1), of q d]
    by (cases "q = p @ [c]"; cases "q @ [d] = p @ [c]") auto
  moreover have "mode_regular m" if "(g(p @ [c] \<mapsto> n)) q = Some (NFile b m)" for q b m
    using that assms(4) tree_mode [OF assms(1)] by (auto split: if_splits)
  ultimately show ?thesis using assms(1) unfolding tree_def by simp
qed

lemma tree_put:
  assumes "tree g" "p \<noteq> []" "g (butlast p) = Some NDir" "g p \<noteq> Some NDir"
    and "\<And>b m. n = NFile b m \<Longrightarrow> mode_regular m"
  shows "tree (g(p \<mapsto> n))"
  using assms tree_add [of g "butlast p" "last p" n] by simp

lemma tree_del:
  assumes "tree g" "g p \<noteq> Some NDir"
  shows "tree (g(p := None))"
proof -
  have "p \<noteq> []" using assms by (auto simp: tree_def)
  moreover have "(g(p := None)) q = Some NDir" if "(g(p := None)) (q @ [d]) \<noteq> None" for q d
    using that tree_parent [OF assms(1), of q d] assms(2) by (auto split: if_splits)
  moreover have "mode_regular m" if "(g(p := None)) q = Some (NFile b m)" for q b m
    using that tree_mode [OF assms(1)] by (auto split: if_splits)
  ultimately show ?thesis using assms(1) unfolding tree_def by simp
qed

lemma mkdirs_Nil: "tree g \<Longrightarrow> mkdirs [] g = g"
  by (auto simp: mkdirs_def fun_eq_iff tree_def)

lemma mkdirs_snoc: "mkdirs (d @ [c]) g = (mkdirs d g)(d @ [c] \<mapsto> NDir)"
  by (auto simp: mkdirs_def fun_eq_iff)

lemma mkdirs_same: "tree g \<Longrightarrow> g d = Some NDir \<Longrightarrow> mkdirs d g = g"
  using tree_prefix_dir [of g _ d] unfolding mkdirs_def by (auto simp: fun_eq_iff)

lemma tree_mkdirs:
  assumes "tree g" "clear g d" "g d = None \<or> g d = Some NDir"
  shows "tree (mkdirs d g)"
proof -
  have above: "g q = None \<or> g q = Some NDir" if "prefix q d" for q
    using clear_above [OF assms(2), of q] assms(3) that by (auto simp: strict_prefix_def)
  show ?thesis
    unfolding tree_def
  proof (intro conjI allI impI)
    show "mkdirs d g [] = Some NDir" by (simp add: mkdirs_def)
  next
    fix p c assume "mkdirs d g (p @ [c]) \<noteq> None"
    then show "mkdirs d g p = Some NDir"
      using tree_parent [OF assms(1), of p c] append_prefixD [of p "[c]" d]
      unfolding mkdirs_def by metis
  next
    fix p b m assume "mkdirs d g p = Some (NFile b m)"
    then show "mode_regular m" using assms(1) by (auto simp: mkdirs_def tree_mode split: if_splits)
  qed
qed

subsection \<open>Operations on worlds\<close>

lemma io_log_simps [simp]:
  "w_fs (io_log e w) = w_fs w" "w_umask (io_log e w) = w_umask w" "w_dev (io_log e w) = w_dev w"
  "w_locks (io_log e w) = w_locks w" "w_counts (io_log e w) = w_counts w"
  "w_log (io_log e w) = w_log w @ [e]"
  by (simp_all add: io_log_def)

lemma set_node_simps [simp]:
  "w_fs (set_node p n w) = bt_insert p n (w_fs w)" "w_umask (set_node p n w) = w_umask w"
  "w_dev (set_node p n w) = w_dev w" "w_locks (set_node p n w) = w_locks w"
  "w_counts (set_node p n w) = w_counts w" "w_log (set_node p n w) = w_log w"
  by (simp_all add: set_node_def)

lemma drop_node_simps [simp]:
  "w_fs (drop_node p w) = bt_remove p (w_fs w)" "w_umask (drop_node p w) = w_umask w"
  "w_dev (drop_node p w) = w_dev w" "w_locks (drop_node p w) = w_locks w"
  "w_counts (drop_node p w) = w_counts w" "w_log (drop_node p w) = w_log w"
  by (simp_all add: drop_node_def)

lemma fresh_mode_simps [simp]: 
  "fresh_mode (io_log e w) = fresh_mode w" "fresh_mode (set_node p n w) = fresh_mode w"
  "fresh_mode (drop_node p w) = fresh_mode w"
  by (simp_all add: fresh_mode_def)

lemma mode_regular_of [simp]: "mode_regular (fresh_of u)"
  unfolding mode_regular_def fresh_of_def perm_bits_def S_IFREG_def
  by (rule bit_word_eqI) (auto simp: bit_simps numeral_eq_Suc split: nat.splits elim!: less_SucE)

lemma mode_regular_fresh [simp]: "mode_regular (fresh_mode w)"
  by (simp add: fresh_mode_def)

lemma mode_regular_chmod [simp]: "mode_regular (chmod_mode m x) \<longleftrightarrow> mode_regular m"
proof -
  have "chmod_mode m x AND NOT perm_bits = m AND NOT perm_bits"
    unfolding chmod_mode_def by (rule bit_word_eqI) (auto simp: bit_simps)
  then show ?thesis by (simp add: mode_regular_def)
qed

lemma chmod_regular:
  assumes "mode_regular m" "mode_regular x"
  shows "chmod_mode m x = x"
proof -
  have "chmod_mode m x = (m AND NOT perm_bits) OR (x AND perm_bits)"
    by (simp add: chmod_mode_def)
  also have "\<dots> = (x AND NOT perm_bits) OR (x AND perm_bits)"
    using assms by (simp add: mode_regular_def)
  also have "\<dots> = x" by (rule bit_word_eqI) (auto simp: bit_simps)
  finally show ?thesis .
qed

subsection \<open>Each operation as an update of the tree\<close>

definition same_env :: "world \<Rightarrow> world \<Rightarrow> bool" where
  "same_env w w' \<longleftrightarrow> w_umask w' = w_umask w \<and> w_dev w' = w_dev w \<and> w_locks w' = w_locks w"

definition moves :: "world \<Rightarrow> world \<Rightarrow> tree \<Rightarrow> bool" where
  "moves w w' g \<longleftrightarrow> world_ok w' \<and> w_tree w' = g \<and> same_env w w'"

lemma world_ok_tree: "world_ok w \<Longrightarrow> tree (w_tree w)"
  by (simp add: world_ok_def fs_ok_def)

lemma world_ok_wf: "world_ok w \<Longrightarrow> bt_wf (w_fs w)"
  by (simp add: world_ok_def fs_ok_def)

lemma movesD:
  "moves w w' g \<Longrightarrow> world_ok w'" "moves w w' g \<Longrightarrow> w_tree w' = g" "moves w w' g \<Longrightarrow> same_env w w'"
  by (simp_all add: moves_def)

lemma moves_refl: "world_ok w \<Longrightarrow> moves w w (w_tree w)"
  by (simp add: moves_def same_env_def)

lemma moves_trans: "moves w w1 g1 \<Longrightarrow> moves w1 w2 g2 \<Longrightarrow> moves w w2 g2"
  by (auto simp: moves_def same_env_def)

lemma moves_fresh: "moves w w' g \<Longrightarrow> fresh_mode w' = fresh_mode w"
  by (simp add: moves_def same_env_def fresh_mode_def)

lemma moves_set:
  assumes "world_ok w" "p \<noteq> []" "w_tree w (butlast p) = Some NDir" "w_tree w p \<noteq> Some NDir"
    and "\<And>b m. n = NFile b m \<Longrightarrow> mode_regular m"
  shows "moves w (io_log e (set_node p n w)) ((w_tree w)(p \<mapsto> n))"
  using assms tree_put [of "w_tree w" p n]
  by (simp add: moves_def same_env_def world_ok_def fs_ok_def)

lemma moves_drop:
  assumes "world_ok w" "w_tree w p \<noteq> Some NDir"
  shows "moves w (io_log e (drop_node p w)) ((w_tree w)(p := None))"
  using assms tree_del [of "w_tree w" p]
  by (simp add: moves_def same_env_def world_ok_def fs_ok_def)

lemma parent_clear:
  assumes "tree g" "p \<noteq> []" "g (butlast p) = Some NDir"
  shows "clear g p"
proof -
  obtain d c where p: "p = d @ [c]" using assms(2) by (cases p rule: rev_cases) auto
  show ?thesis
    unfolding clear_def
  proof (intro allI impI)
    fix q assume "strict_prefix q p"
    then have "prefix q d" by (auto simp: p strict_prefix_def)
    then show "g q = None \<or> g q = Some NDir"
      using tree_prefix_dir [OF assms(1), of q d] assms(3) by (simp add: p)
  qed
qed

lemma resolve_nofollow_parent:
  assumes "world_ok w" "names_ok p" "p \<noteq> []" "w_tree w (butlast p) = Some NDir"
  shows "resolve_nofollow (w_fs w) p = Inr p"
  using assms parent_clear [of "w_tree w" p] by (simp add: resolve_nofollow_clear world_ok_tree)

lemma resolve_parent:
  assumes "world_ok w" "names_ok p" "p \<noteq> []" "w_tree w (butlast p) = Some NDir"
    "\<forall>t. w_tree w p \<noteq> Some (NSymlink t)"
  shows "resolve (w_fs w) p = Inr p"
  using assms parent_clear [of "w_tree w" p] by (simp add: resolve_clear world_ok_tree)

lemma fs_mkdir_moves:
  assumes "world_ok w" "names_ok p" "p \<noteq> []" "w_tree w (butlast p) = Some NDir" "w_tree w p = None"
  shows "\<exists>w'. fs_mkdir p w = (Inr (), w') \<and> moves w w' ((w_tree w)(p \<mapsto> NDir))"
  using assms resolve_nofollow_parent [OF assms(1-4)] moves_set [of w p NDir "EvMkdir p"]
  by (simp add: fs_mkdir_def)

lemma path_parent_names: "names_ok (d @ [c]) \<Longrightarrow> path_parent (d @ [c]) = Some d"
  by (simp add: path_parent_snoc)

lemma fs_mkdir_present:
  assumes "world_ok w" "names_ok p" "w_tree w p \<noteq> None"
  shows "fs_mkdir p w = (Inl AlreadyExists, w)"
proof -
  have "clear (w_tree w) p" using assms by (simp add: clear_present world_ok_tree)
  then have "resolve_nofollow (w_fs w) p = Inr p"
    using assms tree_butlast [OF world_ok_tree [OF assms(1)] assms(3)]
    by (auto simp: resolve_nofollow_clear world_ok_tree)
  with assms show ?thesis by (auto simp: fs_mkdir_def)
qed

lemma create_dir_all_present:
  assumes "world_ok w" "names_ok p" "w_tree w p = Some NDir"
  shows "create_dir_all p w = (Inr (), w)"
  using assms by (subst create_dir_all.simps)
    (simp add: fs_mkdir_present path_is_dir_present world_ok_tree)

lemma create_dir_all_moves:
  assumes "world_ok w" "names_ok d" "clear (w_tree w) d" "w_tree w d = None \<or> w_tree w d = Some NDir"
  shows "\<exists>w'. create_dir_all d w = (Inr (), w') \<and> moves w w' (mkdirs d (w_tree w))"
  using assms(2-4)
proof (induction d rule: rev_induct)
  case Nil
  then show ?case
    using assms(1) create_dir_all_present [OF assms(1), of "[]"] tree_root [OF world_ok_tree [OF assms(1)]]
    by (auto simp: mkdirs_Nil world_ok_tree intro!: moves_refl)
next
  case (snoc c d)
  note t = world_ok_tree [OF assms(1)]
  have d: "w_tree w d = None \<or> w_tree w d = Some NDir"
    by (rule clear_above [OF snoc.prems(2)]) (simp add: strict_prefix_def)
  have cd: "clear (w_tree w) d" by (rule clear_prefix [OF snoc.prems(2)]) simp
  consider "w_tree w (d @ [c]) = Some NDir" | "w_tree w (d @ [c]) = None" "w_tree w d = Some NDir"
    | "w_tree w (d @ [c]) = None" "w_tree w d = None"
    using d snoc.prems(3) by metis
  then show ?case
  proof cases
    case 1
    with snoc.prems(1) assms(1) show ?thesis
      by (auto simp: create_dir_all_present mkdirs_same [OF t] intro!: moves_refl)
  next
    case 2
    then obtain w' where "fs_mkdir (d @ [c]) w = (Inr (), w')"
        "moves w w' ((w_tree w)(d @ [c] \<mapsto> NDir))"
      using fs_mkdir_moves [OF assms(1) snoc.prems(1)] by auto
    then show ?thesis
      using 2 by (subst create_dir_all.simps) (auto simp: mkdirs_snoc mkdirs_same [OF t])
  next
    case 3
    have "resolve_nofollow (w_fs w) (d @ [c]) = Inl NotFound"
      using 3 snoc.prems by (simp add: resolve_nofollow_clear t)
    then have nf: "fs_mkdir (d @ [c]) w = (Inl NotFound, w)" by (simp add: fs_mkdir_def)
    obtain w1 where w1: "create_dir_all d w = (Inr (), w1)" "moves w w1 (mkdirs d (w_tree w))"
      using snoc.IH [OF _ cd d] snoc.prems(1) by auto
    have "w_tree w1 (d @ [c]) = None" "w_tree w1 d = Some NDir"
      using movesD(2) [OF w1(2)] 3(1) by (auto simp: mkdirs_def prefix_def)
    then obtain w2 where "fs_mkdir (d @ [c]) w1 = (Inr (), w2)"
        "moves w1 w2 ((w_tree w1)(d @ [c] \<mapsto> NDir))"
      using fs_mkdir_moves [OF movesD(1) [OF w1(2)] snoc.prems(1)] by auto
    then show ?thesis
      using nf w1 moves_trans [OF w1(2)] movesD(2) [OF w1(2)] snoc.prems(1)
      by (subst create_dir_all.simps) (auto simp: path_parent_names mkdirs_snoc)
  qed
qed

lemma fs_write_moves:
  assumes "world_ok w" "names_ok p" "p \<noteq> []" "w_tree w (butlast p) = Some NDir"
    and "w_tree w p = None \<and> m = fresh_mode w \<or> (\<exists>old. w_tree w p = Some (NFile old m))"
  shows "\<exists>w'. fs_write p b w = (Inr (), w') \<and> moves w w' ((w_tree w)(p \<mapsto> NFile b m))"
proof -
  have "resolve (w_fs w) p = Inr p" using assms by (auto intro!: resolve_parent)
  moreover have "mode_regular m"
    using assms(5) tree_mode [OF world_ok_tree [OF assms(1)]] by auto
  ultimately show ?thesis
    using assms moves_set [of w p "NFile b m" "EvPut p"] by (auto simp: fs_write_def)
qed

lemma fs_chmod_moves:
  assumes "world_ok w" "names_ok p" "w_tree w p = Some (NFile b m)"
  shows "\<exists>w'. fs_chmod p f w = (Inr (), w') \<and> moves w w' ((w_tree w)(p \<mapsto> NFile b (chmod_mode m (f m))))"
proof -
  note t = world_ok_tree [OF assms(1)]
  have ne: "p \<noteq> []" using tree_root [OF t] assms(3) by auto
  have parent: "w_tree w (butlast p) = Some NDir" using tree_butlast [OF t _ ne] assms(3) by simp
  then have "resolve (w_fs w) p = Inr p" using assms ne by (auto intro!: resolve_parent)
  moreover have "mode_regular m" using tree_mode [OF t assms(3)] .
  ultimately show ?thesis
    using assms ne parent moves_set [of w p "NFile b (chmod_mode m (f m))" "EvMode p"]
    by (auto simp: fs_chmod_def)
qed

lemma fs_remove_moves:
  assumes "world_ok w" "names_ok p" "w_tree w p = Some n" "n \<noteq> NDir"
  shows "\<exists>w'. fs_remove_file p w = (Inr (), w') \<and> moves w w' ((w_tree w)(p := None))"
proof -
  note t = world_ok_tree [OF assms(1)]
  have ne: "p \<noteq> []" using tree_root [OF t] assms(3,4) by auto
  have "w_tree w (butlast p) = Some NDir" using tree_butlast [OF t _ ne] assms(3) by simp
  then have "resolve_nofollow (w_fs w) p = Inr p"
    using assms ne by (auto intro!: resolve_nofollow_parent)
  then show ?thesis
    using assms moves_drop [of w p "EvRemove p"] by (cases n) (auto simp: fs_remove_file_def)
qed

lemma fs_remove_absent:
  assumes "world_ok w" "names_ok p" "clear (w_tree w) p" "w_tree w p = None"
  shows "fs_remove_file p w = (Inl NotFound, w)"
  using assms by (auto simp: fs_remove_file_def resolve_nofollow_clear world_ok_tree split: if_splits)

lemma fs_rename_moves:
  assumes "world_ok w" "names_ok p" "names_ok q" "p \<noteq> q" "w_tree w p = Some n" "n \<noteq> NDir"
    and "q \<noteq> []" "w_tree w (butlast q) = Some NDir" "w_tree w q \<noteq> Some NDir"
  shows "\<exists>w'. fs_rename p q w = (Inr (), w') \<and> moves w w' ((w_tree w)(p := None, q \<mapsto> n))"
proof -
  note t = world_ok_tree [OF assms(1)]
  have ne: "p \<noteq> []" using tree_root [OF t] assms(5,6) by auto
  have "w_tree w (butlast p) = Some NDir" using tree_butlast [OF t _ ne] assms(5) by simp
  then have res: "resolve_nofollow (w_fs w) p = Inr p" "resolve_nofollow (w_fs w) q = Inr q"
    using assms ne by (auto intro!: resolve_nofollow_parent)
  have "tree ((w_tree w)(p := None))" using assms by (intro tree_del [OF t]) simp
  then have "tree ((w_tree w)(p := None, q \<mapsto> n))"
    using assms tree_mode [OF t, of p] by (intro tree_put) auto
  then show ?thesis
    using assms res
    by (auto simp: fs_rename_def rename_into_def moves_def same_env_def world_ok_def fs_ok_def)
qed

lemma open_or_create_moves:
  assumes "world_ok w" "names_ok p" "p \<noteq> []" "w_tree w (butlast p) = Some NDir"
    and "w_tree w p = None \<or> (\<exists>b m. w_tree w p = Some (NFile b m))"
  shows "\<exists>w' g. open_or_create p w = (Inr (), w') \<and> moves w w' g \<and>
    g = (case w_tree w p of None \<Rightarrow> (w_tree w)(p \<mapsto> NFile [] (fresh_mode w)) | Some n \<Rightarrow> w_tree w)"
proof -
  have "resolve (w_fs w) p = Inr p" using assms by (auto intro!: resolve_parent)
  then show ?thesis
    using assms moves_set [of w p "NFile [] (fresh_mode w)" "EvPut p"] moves_refl [of w]
    by (auto simp: open_or_create_def)
qed

end
