(* ===== verification/DurableWrite.thy ===== *)
theory DurableWrite
  imports FsFacts
begin

text \<open>
  The device-sync seam, \<open>soopy/src/_0a_durable_write.rs\<close>. A sync changes no node; it bumps the
  process-wide tally of its level and leaves an \<open>EvSync\<close> in the trace, so the order of syncs
  and changes can be stated. \<open>publish_file\<close> is modelled by its net effect: the randomly named
  temporary file lives in the target's directory only between creation and rename, and is
  removed on every error path. The per-phase meters feed only the tracing spans and are left
  out.
\<close>

subsection \<open>Syncs\<close>

definition bump :: "sync_level \<Rightarrow> device_sync_counts \<Rightarrow> device_sync_counts" where
  "bump level c = (case level of
       SyncData \<Rightarrow> c\<lparr>dsc_data := dsc_data c + 1\<rparr>
     | SyncFence \<Rightarrow> c\<lparr>dsc_fences := dsc_fences c + 1\<rparr>
     | SyncFlush \<Rightarrow> c\<lparr>dsc_flushes := dsc_flushes c + 1\<rparr>)"

definition device_sync_counts :: "world \<Rightarrow> device_sync_counts" where
  "device_sync_counts w = w_counts w"

text \<open>\<open>Sub for DeviceSyncCounts\<close>; the subtraction of \<open>u64\<close> wraps in a release build.\<close>

definition counts_sub :: "device_sync_counts \<Rightarrow> device_sync_counts \<Rightarrow> device_sync_counts" where
  "counts_sub now earlier =
     \<lparr>dsc_data = dsc_data now - dsc_data earlier,
      dsc_fences = dsc_fences now - dsc_fences earlier,
      dsc_flushes = dsc_flushes now - dsc_flushes earlier\<rparr>"

definition sync_file :: "apath \<Rightarrow> sync_level \<Rightarrow> unit io" where
  "sync_file p level = (\<lambda>w.
     (Inr (), io_log (EvSync p level) (w\<lparr>w_counts := bump level (w_counts w)\<rparr>)))"

definition sync_directory :: "apath \<Rightarrow> sync_level \<Rightarrow> unit io" where
  "sync_directory p level =
     io_bind (io_read (\<lambda>w. stat (w_fs w) p)) (\<lambda>_. sync_file p level)"

subsection \<open>Publication\<close>

definition parent_or_root :: "apath \<Rightarrow> apath" where
  "parent_or_root p = (case path_parent p of Some q \<Rightarrow> q | None \<Rightarrow> [])"

text \<open>\<open>tempfile_in(parent)\<close> needs a directory there; its mode is that of a plain create.\<close>

definition temporary_in :: "apath \<Rightarrow> u32 io" where
  "temporary_in parent = io_read (\<lambda>w. rbind (stat (w_fs w) parent) (\<lambda>n.
     if n = NDir then Inr (fresh_mode w) else Inl NotADirectory))"

text \<open>\<open>NamedTempFile::persist\<close>: a rename over the target.\<close>

definition persist :: "node \<Rightarrow> apath \<Rightarrow> unit io" where
  "persist n p = (\<lambda>w. case resolve_nofollow (w_fs w) p of
       Inl e \<Rightarrow> (Inl e, w)
     | Inr q \<Rightarrow>
         (if bt_get (w_fs w) q = Some NDir then (Inl IsADirectory, w)
          else (Inr (), io_log (EvPut q) (set_node q n w))))"

text \<open>\<open>prepare\<close> is what the callback does to the mode of the open temporary file.\<close>

definition publish_file :: "apath \<Rightarrow> bytes \<Rightarrow> sync_level \<Rightarrow> (u32 \<Rightarrow> u32) \<Rightarrow> unit io" where
  "publish_file p b level prepare =
     io_bind (temporary_in (parent_or_root p)) (\<lambda>m.
     io_bind (sync_file p level) (\<lambda>_.
     persist (NFile b (prepare m)) p))"

definition same_device :: "world \<Rightarrow> apath \<Rightarrow> apath \<Rightarrow> bool" where
  "same_device w l r =
     (case (rbind (stat (w_fs w) l) (\<lambda>_. resolve (w_fs w) l),
            rbind (stat (w_fs w) r) (\<lambda>_. resolve (w_fs w) r)) of
        (Inr a, Inr b) \<Rightarrow> w_dev w a = w_dev w b
      | _ \<Rightarrow> False)"

subsection \<open>Facts\<close>

lemma sync_file_moves:
  "world_ok w \<Longrightarrow> \<exists>w'. sync_file p level w = (Inr (), w') \<and> moves w w' (w_tree w)"
  by (simp add: sync_file_def moves_def world_ok_def same_env_def)

lemma sync_directory_moves:
  assumes "world_ok w" "names_ok p" "w_tree w p = Some NDir"
  shows "\<exists>w'. sync_directory p level w = (Inr (), w') \<and> moves w w' (w_tree w)"
  using assms stat_present [of "w_fs w" p NDir] sync_file_moves [of w p level]
  by (simp add: sync_directory_def io_bind_def world_ok_tree)

lemma parent_or_root_snoc: "names_ok (d @ [c]) \<Longrightarrow> parent_or_root (d @ [c]) = d"
  by (simp add: parent_or_root_def path_parent_names)

lemma parent_or_root_butlast: "names_ok p \<Longrightarrow> p \<noteq> [] \<Longrightarrow> parent_or_root p = butlast p"
  by (cases p rule: rev_cases) (auto simp: parent_or_root_snoc)

lemma publish_file_moves:
  assumes "world_ok w" "names_ok p" "p \<noteq> []" "w_tree w (butlast p) = Some NDir"
    and "w_tree w p \<noteq> Some NDir" "mode_regular (prepare (fresh_mode w))"
  shows "\<exists>w'. publish_file p b level prepare w = (Inr (), w') \<and>
     moves w w' ((w_tree w)(p \<mapsto> NFile b (prepare (fresh_mode w))))"
proof -
  obtain d c where p: "p = d @ [c]" using assms(3) by (cases p rule: rev_cases) auto
  obtain w1 where w1: "sync_file p level w = (Inr (), w1)" "moves w w1 (w_tree w)"
    using sync_file_moves [OF assms(1)] by blast
  note t1 = movesD(1) [OF w1(2)] movesD(2) [OF w1(2)]
  have "temporary_in (parent_or_root p) w = (Inr (fresh_mode w), w)"
    using assms p
    by (simp add: temporary_in_def parent_or_root_snoc stat_present world_ok_tree)
  moreover have "resolve_nofollow (w_fs w1) p = Inr p"
    using assms t1 by (intro resolve_nofollow_parent) auto
  moreover have "moves w1 (io_log (EvPut p) (set_node p (NFile b (prepare (fresh_mode w))) w1))
      ((w_tree w)(p \<mapsto> NFile b (prepare (fresh_mode w))))"
    using assms t1 moves_set [of w1 p "NFile b (prepare (fresh_mode w))" "EvPut p"] by simp
  ultimately show ?thesis
    using w1 assms t1 moves_trans [OF w1(2)]
    by (auto simp: publish_file_def persist_def io_bind_def)
qed

end
