(* ===== verification/External.thy ===== *)
theory External
  imports DurableWrite Types
begin

text \<open>
  The code the crate calls but does not contain, as the record \<open>ext\<close> of functions every model
  takes as an argument: the digest of \<open>blake3\<close> with its hexadecimal form, and Git as
  \<open>_2_repository::discover\<close>, \<open>git hash-object\<close> and \<open>git cat-file --batch\<close> (one answer: its header
  line and the output after it) report it, and which files the operating system refuses to open or
  to read although they are there (permissions, a device error). What a proof needs of them is a named
  predicate: \<open>digests_ok\<close> is the documented format of a digest, \<open>no_collision\<close> says of one byte
  string that no other has its digest.

  Also here: the pieces of the standard library for text that the sources use, UTF-8 validity
  and decimal numbers.
\<close>

record ext =
  x_hash :: "bytes \<Rightarrow> digest"
  x_hex :: "digest \<Rightarrow> string"
  x_from_hex :: "string \<Rightarrow> digest option"
  x_discover :: "apath \<Rightarrow> string + repository"
  x_hash_object :: "repository \<Rightarrow> bytes \<Rightarrow> string + object_id"
  x_cat_file :: "repository \<Rightarrow> string \<Rightarrow> string \<times> bytes"
  x_open_fails :: "apath \<Rightarrow> bool"
  x_read_fails :: "apath \<Rightarrow> bool"

definition plain_name :: "string \<Rightarrow> bool" where
  "plain_name n \<longleftrightarrow> n \<noteq> [] \<and> slash \<notin> set n \<and> n \<noteq> ''.'' \<and> n \<noteq> ''..''"

definition hex_char :: "char \<Rightarrow> bool" where
  "hex_char c \<longleftrightarrow> c \<in> set ''0123456789abcdef''"

definition digests_ok :: "('x) ext_scheme \<Rightarrow> bool" where
  "digests_ok X \<longleftrightarrow> (\<forall>b. length (x_hash X b) = 32) \<and>
     (\<forall>d. length d = 32 \<longrightarrow> x_from_hex X (x_hex X d) = Some d \<and> length (x_hex X d) = 64 \<and>
        list_all hex_char (x_hex X d)) \<and>
     (\<forall>s d. x_from_hex X s = Some d \<longrightarrow> length d = 32)"

definition no_collision :: "('x) ext_scheme \<Rightarrow> bytes \<Rightarrow> bool" where
  "no_collision X b \<longleftrightarrow> (\<forall>c. x_hash X c = x_hash X b \<longrightarrow> c = b)"

lemma no_collisionD: "no_collision X b \<Longrightarrow> x_hash X c = x_hash X b \<Longrightarrow> c = b"
  by (simp add: no_collision_def)

lemma digest_length: "digests_ok X \<Longrightarrow> length (x_hash X b) = 32"
  by (simp add: digests_ok_def)

lemma hex_inj:
  assumes "digests_ok X" "length d = 32" "length e = 32" "x_hex X d = x_hex X e"
  shows "d = e"
  using assms unfolding digests_ok_def by (metis option.inject)

lemma not_hex_char: "\<not> hex_char CHR ''/''" "\<not> hex_char CHR ''.''"
  by (simp_all add: hex_char_def)

lemma hex_chars:
  assumes "digests_ok X" "length d = 32"
  shows "x_hex X d \<noteq> []" "CHR ''/'' \<notin> set (x_hex X d)" "CHR ''.'' \<notin> set (x_hex X d)"
proof -
  have l: "length (x_hex X d) = 64" and h: "list_all hex_char (x_hex X d)"
    using assms by (simp_all add: digests_ok_def)
  from l show "x_hex X d \<noteq> []" by (metis list.size(3) zero_neq_numeral)
  from h not_hex_char show "CHR ''/'' \<notin> set (x_hex X d)" "CHR ''.'' \<notin> set (x_hex X d)"
    unfolding list_all_iff by metis+
qed

lemma plain_no_dot: "n \<noteq> [] \<Longrightarrow> CHR ''/'' \<notin> set n \<Longrightarrow> CHR ''.'' \<notin> set n \<Longrightarrow> plain_name n"
  by (cases n) (auto simp: plain_name_def slash_def)

lemma plain_hex: "digests_ok X \<Longrightarrow> length d = 32 \<Longrightarrow> plain_name (x_hex X d)"
  using hex_chars [of X d] by (rule plain_no_dot)

lemma plain_json: "n \<noteq> [] \<Longrightarrow> CHR ''/'' \<notin> set n \<Longrightarrow> plain_name (n @ ''.json'')"
  by (cases n) (auto simp: plain_name_def slash_def)

lemma plain_hex_json: "digests_ok X \<Longrightarrow> length d = 32 \<Longrightarrow> plain_name (x_hex X d @ ''.json'')"
  using hex_chars [of X d] by (simp add: plain_json)

lemma split_on_none: "c \<notin> set s \<Longrightarrow> split_on c s = [s]"
  by (induction s) auto

lemma join_plain_name: "plain_name n \<Longrightarrow> join_path p n = p @ [n]"
  by (auto simp: plain_name_def join_path_def os_names_def needs_dir_def split_on_none is_absolute_def
      split: list.splits)

lemma plain_name_ok: "plain_name n \<Longrightarrow> names_ok (p @ [n]) \<longleftrightarrow> names_ok p"
  by (auto simp: plain_name_def)

subsection \<open>Decimal numbers\<close>

definition digit_char :: "nat \<Rightarrow> char" where
  "digit_char d = char_of (48 + d)"

fun show_nat :: "nat \<Rightarrow> string" where
  "show_nat n = (if n < 10 then [digit_char n] else show_nat (n div 10) @ [digit_char (n mod 10)])"

declare show_nat.simps [simp del]

subsection \<open>UTF-8\<close>

text \<open>\<open>std::str::from_utf8(bytes).is_ok()\<close>: the well-formed byte sequences of the Unicode
  standard, so no overlong forms, no surrogates, nothing above U+10FFFF.\<close>

definition cont_byte :: "u8 \<Rightarrow> bool" where
  "cont_byte b \<longleftrightarrow> 0x80 \<le> b \<and> b \<le> 0xBF"

fun utf8_valid :: "bytes \<Rightarrow> bool" where
  "utf8_valid [] = True"
| "utf8_valid (a # bs) =
     (if a \<le> 0x7F then utf8_valid bs
      else if 0xC2 \<le> a \<and> a \<le> 0xDF then
        (case bs of b # r \<Rightarrow> cont_byte b \<and> utf8_valid r | _ \<Rightarrow> False)
      else if 0xE0 \<le> a \<and> a \<le> 0xEF then
        (case bs of b # c # r \<Rightarrow>
           (if a = 0xE0 then 0xA0 \<le> b \<and> b \<le> 0xBF
            else if a = 0xED then 0x80 \<le> b \<and> b \<le> 0x9F else cont_byte b) \<and>
           cont_byte c \<and> utf8_valid r | _ \<Rightarrow> False)
      else if 0xF0 \<le> a \<and> a \<le> 0xF4 then
        (case bs of b # c # d # r \<Rightarrow>
           (if a = 0xF0 then 0x90 \<le> b \<and> b \<le> 0xBF
            else if a = 0xF4 then 0x80 \<le> b \<and> b \<le> 0x8F else cont_byte b) \<and>
           cont_byte c \<and> cont_byte d \<and> utf8_valid r | _ \<Rightarrow> False)
      else False)"

end
