(* ===== verification/DebugText.thy ===== *)
theory DebugText
  imports External Edits
begin

text \<open>
  The text that \<open>{:?}\<close> prints for the types the planner formats: Rust's derived \<open>Debug\<close>. The
  planner sorts its conflicts by this text. Inside a \<open>str\<close> the printable characters stand for
  themselves, which is what the model does with every byte outside ASCII.
\<close>

definition hex_digit :: "nat \<Rightarrow> char" where
  "hex_digit d = char_of (if d < 10 then 48 + d else 87 + d)"

fun show_hex :: "nat \<Rightarrow> string" where
  "show_hex n = (if n < 16 then [hex_digit n] else show_hex (n div 16) @ [hex_digit (n mod 16)])"

declare show_hex.simps [simp del]

definition backslash :: char where "backslash = char_of (92 :: nat)"
definition quote :: char where "quote = char_of (34 :: nat)"

definition dbg_char :: "char \<Rightarrow> string" where
  "dbg_char c =
     (let n = of_char c :: nat
      in if n = 0 then [backslash, CHR ''0'']
         else if n = 9 then [backslash, CHR ''t'']
         else if n = 10 then [backslash, CHR ''n'']
         else if n = 13 then [backslash, CHR ''r'']
         else if c = quote \<or> c = backslash then [backslash, c]
         else if n < 32 \<or> n = 127 then [backslash] @ ''u{'' @ show_hex n @ ''}''
         else [c])"

definition dbg_str :: "string \<Rightarrow> string" where
  "dbg_str s = [quote] @ concat (map dbg_char s) @ [quote]"

fun comma_join :: "string list \<Rightarrow> string" where
  "comma_join [] = []"
| "comma_join [s] = s"
| "comma_join (s # ss) = s @ '', '' @ comma_join ss"

definition dbg_list :: "('a \<Rightarrow> string) \<Rightarrow> 'a list \<Rightarrow> string" where
  "dbg_list f xs = ''['' @ comma_join (map f xs) @ '']''"

definition dbg_tuple :: "string \<Rightarrow> string \<Rightarrow> string" where
  "dbg_tuple name v = name @ ''('' @ v @ '')''"

definition dbg_struct :: "string \<Rightarrow> (string \<times> string) list \<Rightarrow> string" where
  "dbg_struct name entries =
     name @ '' { '' @ comma_join (map (\<lambda>(f, v). f @ '': '' @ v) entries) @ '' }''"

definition dbg_option :: "('a \<Rightarrow> string) \<Rightarrow> 'a option \<Rightarrow> string" where
  "dbg_option f x = (case x of None \<Rightarrow> ''None'' | Some v \<Rightarrow> dbg_tuple ''Some'' (f v))"

definition dbg_bool :: "bool \<Rightarrow> string" where
  "dbg_bool b = (if b then ''true'' else ''false'')"

definition dbg_word :: "'w::len word \<Rightarrow> string" where
  "dbg_word w = show_nat (unat w)"

definition dbg_bytes :: "bytes \<Rightarrow> string" where
  "dbg_bytes b = dbg_list dbg_word b"

fun dbg_content :: "content_id \<Rightarrow> string" where
  "dbg_content (GitBlob oid) = dbg_tuple ''GitBlob'' (dbg_tuple ''ObjectId'' (dbg_str oid))"
| "dbg_content (Blake3 d) = dbg_tuple ''Blake3'' (dbg_bytes d)"

fun dbg_revision :: "revision_id \<Rightarrow> string" where
  "dbg_revision (RevWorktree w h d) = dbg_struct ''Worktree''
     [(''worktree'', dbg_tuple ''WorktreeId'' (dbg_str w)),
      (''head'', dbg_option (\<lambda>oid. dbg_tuple ''ObjectId'' (dbg_str oid)) h), (''dirty'', dbg_bool d)]"
| "dbg_revision (RevCommit oid) = dbg_tuple ''Commit'' (dbg_tuple ''ObjectId'' (dbg_str oid))"

fun dbg_source :: "action_source \<Rightarrow> string" where
  "dbg_source (SourceDirectory f) = dbg_struct ''Directory'' [(''file'', dbg_struct ''FileRef''
     [(''directory'', dbg_tuple ''DirectoryId'' (dbg_str (fr_directory f))),
      (''path'', dbg_tuple ''RootPath'' (dbg_str (fr_path f)))])]"
| "dbg_source (SourceGit s) = dbg_struct ''Git'' [(''source'', dbg_struct ''SourceRef''
     [(''repository'', dbg_tuple ''RepositoryId'' (dbg_str (sr_repository s))),
      (''revision'', dbg_revision (sr_revision s)),
      (''path'', dbg_tuple ''RepoPath'' (dbg_str (sr_path s)))])]"

fun dbg_path :: "source_path \<Rightarrow> string" where
  "dbg_path (PathDirectory p) = dbg_struct ''Directory'' [(''path'', dbg_tuple ''RootPath'' (dbg_str p))]"
| "dbg_path (PathGit p) = dbg_struct ''Git'' [(''path'', dbg_tuple ''RepoPath'' (dbg_str p))]"

definition dbg_producer :: "action_producer \<Rightarrow> string" where
  "dbg_producer p = dbg_struct ''ActionProducer''
     [(''id'', dbg_str (ap_id p)), (''same_offset_order'', dbg_option dbg_word (ap_order p)),
      (''rule'', dbg_option dbg_str (ap_rule p))]"

definition dbg_edit :: "normalized_edit \<Rightarrow> string" where
  "dbg_edit e = dbg_struct ''NormalizedEdit''
     [(''start'', dbg_word (ne_start e)), (''end'', dbg_word (ne_end e)),
      (''replacement'', dbg_bytes (ne_replacement e)), (''producers'', dbg_list dbg_producer (ne_producers e))]"

fun dbg_conflict :: "mutation_conflict \<Rightarrow> string" where
  "dbg_conflict (ExpectedContentMismatch s es) = dbg_struct ''ExpectedContentMismatch''
     [(''source'', dbg_source s), (''expected'', dbg_list dbg_content es)]"
| "dbg_conflict (SourceOperationCollision s) = dbg_struct ''SourceOperationCollision''
     [(''source'', dbg_source s)]"
| "dbg_conflict (PathCollision p) = dbg_struct ''PathCollision'' [(''path'', dbg_path p)]"
| "dbg_conflict (OccupiedDestination p) = dbg_struct ''OccupiedDestination'' [(''path'', dbg_path p)]"
| "dbg_conflict (EditOutOfBounds s a b n) = dbg_struct ''EditOutOfBounds''
     [(''source'', dbg_source s), (''start'', dbg_word a), (''end'', dbg_word b), (''input_len'', dbg_word n)]"
| "dbg_conflict (OverlappingEdits s l r) = dbg_struct ''OverlappingEdits''
     [(''source'', dbg_source s), (''left'', dbg_edit l), (''right'', dbg_edit r)]"
| "dbg_conflict (SameOffsetOrderRequired s n es) = dbg_struct ''SameOffsetOrderRequired''
     [(''source'', dbg_source s), (''offset'', dbg_word n), (''edits'', dbg_list dbg_edit es)]"
| "dbg_conflict (SameOffsetOrderCollision s n es) = dbg_struct ''SameOffsetOrderCollision''
     [(''source'', dbg_source s), (''offset'', dbg_word n), (''edits'', dbg_list dbg_edit es)]"

end
