(* ===== verification/Readers.thy ===== *)
theory Readers
  imports External DebugText
begin

text \<open>
  Source roots, \<open>soopy/src/_2a_directory.rs\<close> and \<open>_4a_git_root.rs\<close>: a directory root is named by
  the digest of its canonical path, a Git root by what Git reports. The caches a root carries are
  not part of its identity and are left out here.
\<close>

record directory_root =
  dr_root :: apath
  dr_identity :: directory_id

definition directory_identity :: "('x) ext_scheme \<Rightarrow> apath \<Rightarrow> directory_id" where
  "directory_identity X root = x_hex X (x_hash X (bytes_of (show_path root)))"

definition directory_open :: "('x) ext_scheme \<Rightarrow> fs \<Rightarrow> apath \<Rightarrow> string + directory_root" where
  "directory_open X fs p =
     rbind (map_err (\<lambda>_. ''canonicalize directory '' @ show_path p) (canonicalize fs p)) (\<lambda>root.
       if \<not> path_is_dir fs root then Inl (show_path root @ '' is not a directory'')
       else Inr \<lparr>dr_root = root, dr_identity = directory_identity X root\<rparr>)"

datatype source_root =
  DirectorySource directory_root
| GitSource directory_root repository

definition open_directory :: "('x) ext_scheme \<Rightarrow> fs \<Rightarrow> apath \<Rightarrow> string + source_root" where
  "open_directory X fs p = rbind (directory_open X fs p) (\<lambda>d. Inr (DirectorySource d))"

definition discover_git :: "('x) ext_scheme \<Rightarrow> fs \<Rightarrow> apath \<Rightarrow> string + source_root" where
  "discover_git X fs p =
     rbind (x_discover X p) (\<lambda>repository.
     rbind (directory_open X fs (join_path [] (repo_root repository))) (\<lambda>d.
       Inr (GitSource d repository)))"

fun root_directory :: "source_root \<Rightarrow> directory_root" where
  "root_directory (DirectorySource d) = d"
| "root_directory (GitSource d r) = d"

fun root_git :: "source_root \<Rightarrow> repository option" where
  "root_git (DirectorySource d) = None"
| "root_git (GitSource d r) = Some r"

fun source_root_id_of :: "source_root \<Rightarrow> source_root_id" where
  "source_root_id_of (DirectorySource d) = RootDirectory (dr_identity d)"
| "source_root_id_of (GitSource d r) = RootGitWorktree (repo_identity r) (repo_worktree r)"

lemma directory_open_dir:
  assumes "tree (bt_get fs)" "names_ok p" "bt_get fs p = Some NDir"
  shows "directory_open X fs p = Inr \<lparr>dr_root = p, dr_identity = directory_identity X p\<rparr>"
  using assms by (simp add: directory_open_def canonicalize_dir path_is_dir_present)

text \<open>
  Reading sources: the path contract of \<open>soopy/src/_1a_path.rs\<close>, \<open>read_each\<close> of a directory root
  (\<open>_3a_files.rs\<close>), the answers of \<open>git cat-file --batch\<close> (\<open>_6_git_batch.rs\<close>) and \<open>read_each\<close>,
  \<open>read_many\<close> and the directories of a snapshot of the source tree (\<open>_7_source_tree.rs\<close>).

  \<open>read_each\<close> calls its visitor after every request; the visitor's state is the state of the
  monad, so it keeps what it was given before an error.
\<close>

subsection \<open>Paths\<close>

fun first_bad_component :: "component list \<Rightarrow> component option" where
  "first_bad_component [] = None"
| "first_bad_component (c # cs) =
     (case c of ParentDir \<Rightarrow> Some c | RootDir \<Rightarrow> Some c | _ \<Rightarrow> first_bad_component cs)"

definition ensure_repository_relative :: "string \<Rightarrow> string + unit" where
  "ensure_repository_relative p =
     (case first_bad_component (components p) of
        None \<Rightarrow> Inr ()
      | Some ParentDir \<Rightarrow> Inl (''repository path escapes its root: '' @ dbg_str p)
      | Some _ \<Rightarrow> Inl (''repository path must be relative, not absolute: '' @ dbg_str p))"

definition line_feed :: char where "line_feed = char_of (10 :: nat)"
definition carriage_return :: char where "carriage_return = char_of (13 :: nat)"

definition ensure_line_safe :: "string \<Rightarrow> string + unit" where
  "ensure_line_safe p =
     (if str_contains line_feed p \<or> str_contains carriage_return p
      then Inl (''path contains a newline or carriage return, which the Git batch protocol cannot carry: '' @ dbg_str p)
      else Inr ())"

definition path_for :: "directory_root \<Rightarrow> root_path \<Rightarrow> string + apath" where
  "path_for root p =
     (if is_absolute p \<or> ParentDir \<in> set (components p)
      then Inl (''file path is not directory-relative: '' @ p)
      else Inr (join_path (dr_root root) p))"

text \<open>\<open>File::open\<close> then \<open>read_to_end\<close>: a directory opens but cannot be read, and either call may be
  refused on a file that is there. The text of the error is the context the code gives it.\<close>

definition open_and_read :: "('x) ext_scheme \<Rightarrow> fs \<Rightarrow> apath \<Rightarrow> string + bytes" where
  "open_and_read X fs p =
     (if x_open_fails X p then Inl (''open '' @ show_path p)
      else rbind (map_err (\<lambda>e. (if e = IsADirectory then ''read '' else ''open '') @ show_path p) (fs_read fs p)) (\<lambda>b.
        if x_read_fails X p then Inl (''read '' @ show_path p) else Inr b))"

subsection \<open>A directory root\<close>

record file_bytes_ref =
  fbr_file :: file_ref
  fbr_content :: content_id
  fbr_bytes :: bytes

definition file_read_one ::
  "('x) ext_scheme \<Rightarrow> fs \<Rightarrow> directory_root \<Rightarrow> file_read_request \<Rightarrow> string + file_bytes_ref" where
  "file_read_one X fs root request =
     (if fr_directory (frr_file request) \<noteq> dr_identity root
      then Inl ''file read request belongs to another directory''
      else rbind (path_for root (fr_path (frr_file request))) (\<lambda>p.
        rbind (open_and_read X fs p) (\<lambda>b.
        if frr_expected request \<noteq> None \<and> frr_expected request \<noteq> Some (Blake3 (x_hash X b))
        then Inl (''content changed for '' @ fr_path (frr_file request))
        else Inr \<lparr>fbr_file = frr_file request, fbr_content = Blake3 (x_hash X b), fbr_bytes = b\<rparr>)))"

definition visit_each :: "('r \<Rightarrow> string + 'a) \<Rightarrow> 'r list \<Rightarrow> ('a \<Rightarrow> ('s, string, unit) stm) \<Rightarrow> ('s, string, unit) stm" where
  "visit_each read_one requests visit =
     io_for_each (\<lambda>r. io_bind (io_read (\<lambda>_. read_one r)) visit) requests"

definition file_read_each ::
  "('x) ext_scheme \<Rightarrow> fs \<Rightarrow> directory_root \<Rightarrow> file_read_request list \<Rightarrow>
     (file_bytes_ref \<Rightarrow> ('s, string, unit) stm) \<Rightarrow> ('s, string, unit) stm" where
  "file_read_each X fs root requests visit = visit_each (file_read_one X fs root) requests visit"

subsection \<open>One answer of the Git batch reader\<close>

definition is_space :: "char \<Rightarrow> bool" where
  "is_space c \<longleftrightarrow> (let n = of_char c :: nat in n = 32 \<or> 9 \<le> n \<and> n \<le> 13)"

fun split_whitespace :: "string \<Rightarrow> string list" where
  "split_whitespace [] = []"
| "split_whitespace (c # cs) =
     (if is_space c then split_whitespace cs
      else (case cs of
          [] \<Rightarrow> [[c]]
        | d # ds \<Rightarrow> (if is_space d then [c] # split_whitespace cs
                   else (case split_whitespace cs of [] \<Rightarrow> [[c]] | w # ws \<Rightarrow> (c # w) # ws))))"

definition trim :: "string \<Rightarrow> string" where
  "trim s = rev (dropWhile is_space (rev (dropWhile is_space s)))"

text \<open>\<open>str::parse::<usize>()\<close>: an optional plus sign, at least one decimal digit, at most 64 bits.\<close>

definition digit_value :: "char \<Rightarrow> nat option" where
  "digit_value c = (let n = of_char c :: nat in if 48 \<le> n \<and> n \<le> 57 then Some (n - 48) else None)"

fun parse_digits :: "nat \<Rightarrow> string \<Rightarrow> nat option" where
  "parse_digits acc [] = Some acc"
| "parse_digits acc (c # cs) =
     (case digit_value c of None \<Rightarrow> None
      | Some d \<Rightarrow> (let n = 10 * acc + d in if n < 2 ^ 64 then parse_digits n cs else None))"

definition parse_usize :: "string \<Rightarrow> nat option" where
  "parse_usize s =
     (let digits = (case s of [] \<Rightarrow> [] | c # cs \<Rightarrow> if c = CHR ''+'' then cs else s)
      in if digits = [] then None else parse_digits 0 digits)"

definition read_spec_into :: "('x) ext_scheme \<Rightarrow> repository \<Rightarrow> string \<Rightarrow> string + object_id \<times> bytes" where
  "read_spec_into X repo spec =
     (let (header, output) = x_cat_file X repo spec;
          words = split_whitespace header
      in if length words \<noteq> 3 \<or> words ! 1 \<noteq> ''blob''
         then Inl (''git cat-file response for '' @ spec @ '': '' @ trim header)
         else rbind (ok_or ''parse Git blob size'' (parse_usize (words ! 2))) (\<lambda>size.
           if length output < size + 1 then Inl ''failed to fill whole buffer''
           else if output ! size \<noteq> 10 then Inl ''git cat-file response missing blob terminator''
           else Inr (words ! 0, take size output)))"

subsection \<open>The source tree\<close>

record source_bytes_ref =
  sbr_source :: source_ref
  sbr_content :: content_id
  sbr_bytes :: bytes

definition read_worktree ::
  "('x) ext_scheme \<Rightarrow> fs \<Rightarrow> repository \<Rightarrow> read_request \<Rightarrow> string + bytes \<times> content_id" where
  "read_worktree X fs repo request =
     rbind (open_and_read X fs (join_path (join_path [] (repo_root repo)) (sr_path (rr_source request)))) (\<lambda>b.
     (case rr_expected request of
        Some (GitBlob oid) \<Rightarrow> rbind (x_hash_object X repo b) (\<lambda>observed. Inr (b, GitBlob observed))
      | _ \<Rightarrow> Inr (b, Blake3 (x_hash X b))))"

definition read_commit ::
  "('x) ext_scheme \<Rightarrow> repository \<Rightarrow> object_id \<Rightarrow> read_request \<Rightarrow> string + bytes \<times> content_id" where
  "read_commit X repo commit request =
     (let path = sr_path (rr_source request)
      in rbind (read_spec_into X repo (commit @ '':'' @ path)) (\<lambda>(oid, b).
         (case rr_expected request of
            None \<Rightarrow> Inr (b, GitBlob oid)
          | Some (GitBlob expected) \<Rightarrow>
              (if expected = oid then Inr (b, GitBlob oid)
               else Inl (''commit:path '' @ commit @ '':'' @ path @ '' resolved to '' @ oid @ '' but '' @
                 expected @ '' was expected''))
          | Some (Blake3 d) \<Rightarrow> Inl ''commit read requires a Git blob identity'')))"

definition tree_read_one ::
  "('x) ext_scheme \<Rightarrow> fs \<Rightarrow> repository \<Rightarrow> read_request \<Rightarrow> string + source_bytes_ref" where
  "tree_read_one X fs repo request =
     (if sr_repository (rr_source request) \<noteq> repo_identity repo
      then Inl ''read request belongs to another repository''
      else rbind (ensure_repository_relative (sr_path (rr_source request))) (\<lambda>_.
        rbind (case sr_revision (rr_source request) of
            RevWorktree w h d \<Rightarrow>
              (if w \<noteq> repo_worktree repo then Inl ''worktree read request belongs to another worktree''
               else read_worktree X fs repo request)
          | RevCommit c \<Rightarrow> read_commit X repo c request) (\<lambda>(b, content).
        if rr_expected request \<noteq> None \<and> rr_expected request \<noteq> Some content
        then Inl (''content changed for '' @ sr_path (rr_source request))
        else Inr \<lparr>sbr_source = rr_source request, sbr_content = content, sbr_bytes = b\<rparr>)))"

definition tree_read_each ::
  "('x) ext_scheme \<Rightarrow> fs \<Rightarrow> repository \<Rightarrow> read_request list \<Rightarrow>
     (source_bytes_ref \<Rightarrow> ('s, string, unit) stm) \<Rightarrow> ('s, string, unit) stm" where
  "tree_read_each X fs repo requests visit = visit_each (tree_read_one X fs repo) requests visit"

definition read_many ::
  "('x) ext_scheme \<Rightarrow> fs \<Rightarrow> repository \<Rightarrow> read_request list \<Rightarrow> string + source_bytes list" where
  "read_many X fs repo requests =
     (case tree_read_each X fs repo requests (\<lambda>answer answers. (Inr (), answers @
         [\<lparr>sb_source = sbr_source answer, sb_content = sbr_content answer, sb_bytes = sbr_bytes answer\<rparr>])) [] of
        (Inl e, answers) \<Rightarrow> Inl e
      | (Inr u, answers) \<Rightarrow> Inr answers)"

text \<open>The directories of a snapshot: every proper parent of a listed path.\<close>

definition rsplit_slash :: "string \<Rightarrow> string option" where
  "rsplit_slash p = (if slash \<in> set p then Some (rev (tl (dropWhile (\<lambda>c. c \<noteq> slash) (rev p)))) else None)"

lemma rsplit_slash_shorter: "rsplit_slash p = Some q \<Longrightarrow> length q < length p"
proof -
  assume "rsplit_slash p = Some q"
  then have s: "slash \<in> set p" and q: "q = rev (tl (dropWhile (\<lambda>c. c \<noteq> slash) (rev p)))"
    by (auto simp: rsplit_slash_def split: if_splits)
  have "dropWhile (\<lambda>c. c \<noteq> slash) (rev p) \<noteq> []" using s by (auto simp: dropWhile_eq_Nil_conv)
  then show ?thesis using q length_dropWhile_le [of "\<lambda>c. c \<noteq> slash" "rev p"]
    by (cases "dropWhile (\<lambda>c. c \<noteq> slash) (rev p)") auto
qed

function parents_of :: "string \<Rightarrow> string list" where
  "parents_of p = (case rsplit_slash p of None \<Rightarrow> [] | Some q \<Rightarrow> q # parents_of q)"
  by pat_completeness auto

termination
  by (relation "measure length") (auto dest: rsplit_slash_shorter)

declare parents_of.simps [simp del]

definition snapshot_directories :: "source_entry list \<Rightarrow> repo_path btset" where
  "snapshot_directories files = bs_collect (concat (map (\<lambda>f. parents_of (sr_path (se_source f))) files))"

end
