(* ===== verification/Plan.thy ===== *)
theory Plan
  imports Actions Readers
begin

text \<open>
  The planner, \<open>plan_mutations\<close> of \<open>soopy/src/_7d_mutation_plan.rs\<close>: it checks a request against its
  root, groups the actions per source, reads every source once, compares it with what the
  producer expected, and derives the bytes of every output. The edit half is in \<open>Edits\<close>.

  A call that may panic (\<open>expect\<close>, \<open>unreachable!\<close>, a splice out of range) returns an option of
  its \<open>Result\<close>: \<open>None\<close> is the panic.
\<close>

type_synonym 'a outcome = "(stage_refusal + 'a) option"

definition obind :: "'a outcome \<Rightarrow> ('a \<Rightarrow> 'b outcome) \<Rightarrow> 'b outcome" where
  "obind r f = (case r of None \<Rightarrow> None | Some (Inl e) \<Rightarrow> Some (Inl e) | Some (Inr a) \<Rightarrow> f a)"

fun omap_all :: "('a \<Rightarrow> 'b outcome) \<Rightarrow> 'a list \<Rightarrow> 'b list outcome" where
  "omap_all f [] = Some (Inr [])"
| "omap_all f (x # xs) = obind (f x) (\<lambda>y. obind (omap_all f xs) (\<lambda>ys. Some (Inr (y # ys))))"

subsection \<open>Paths of a request\<close>

definition invalid_reason :: "string \<Rightarrow> invalid_path_reason option" where
  "invalid_reason raw =
     (if raw = [] \<or> raw = ''.'' then Some PathEmpty
      else if str_contains line_feed raw \<or> str_contains carriage_return raw then Some PathRecordSeparator
      else if is_absolute raw then Some PathAbsolute
      else if ParentDir \<in> set (components raw) then Some PathTraversal
      else None)"

definition push_invalid_path :: "nat \<Rightarrow> source_path \<Rightarrow> invalid_mutation_path list" where
  "push_invalid_path i p =
     (case invalid_reason (path_text p) of
        None \<Rightarrow> []
      | Some r \<Rightarrow> [\<lparr>imp_action_index = i, imp_path = p, imp_reason = r\<rparr>])"

fun action_paths :: "source_action \<Rightarrow> source_path list" where
  "action_paths (ActCreate p b) = [p]"
| "action_paths (ActReplace s e edits) = [source_path_of s]"
| "action_paths (ActDelete s e) = [source_path_of s]"
| "action_paths (ActMove s e d) = [source_path_of s, d]"

definition invalid_paths :: "stage_request \<Rightarrow> invalid_mutation_path list" where
  "invalid_paths request =
     concat (map (\<lambda>(i, a). concat (map (push_invalid_path i) (action_paths a)))
       (enumerate 0 (rq_actions request)))"

subsection \<open>Grouping\<close>

datatype source_operation =
  OpReplace content_id "text_edit list"
| OpMove content_id source_path
| OpDelete content_id

record grouped_actions =
  ga_creates :: "(source_path, bytes) btree"
  ga_sources :: "(action_source, source_operation) btree"

record grouping = grouped_actions +
  ga_conflicts :: "mutation_conflict list"

definition canonical_content_ids :: "content_id list \<Rightarrow> content_id list" where
  "canonical_content_ids ids = remdups_adj (sort ids)"

definition add_conflict :: "mutation_conflict \<Rightarrow> grouping \<Rightarrow> grouping" where
  "add_conflict c g = g\<lparr>ga_conflicts := ga_conflicts g @ [c]\<rparr>"

definition insert_non_replace :: "action_source \<Rightarrow> source_operation \<Rightarrow> grouping \<Rightarrow> grouping" where
  "insert_non_replace s op g =
     (let g' = g\<lparr>ga_sources := bt_insert s op (ga_sources g)\<rparr>
      in if bt_get (ga_sources g) s \<noteq> None then add_conflict (SourceOperationCollision s) g' else g')"

fun group_action :: "grouping \<Rightarrow> source_action \<Rightarrow> grouping" where
  "group_action g (ActCreate p b) =
     (let g' = g\<lparr>ga_creates := bt_insert p b (ga_creates g)\<rparr>
      in if bt_get (ga_creates g) p \<noteq> None then add_conflict (PathCollision p) g' else g')"
| "group_action g (ActReplace s expected edits) =
     (case bt_get (ga_sources g) s of
        None \<Rightarrow> g\<lparr>ga_sources := bt_insert s (OpReplace expected edits) (ga_sources g)\<rparr>
      | Some (OpReplace existing existing_edits) \<Rightarrow>
          (if existing = expected
           then g\<lparr>ga_sources := bt_insert s (OpReplace existing (existing_edits @ edits)) (ga_sources g)\<rparr>
           else add_conflict (ExpectedContentMismatch s (canonical_content_ids [existing, expected])) g)
      | Some _ \<Rightarrow> add_conflict (SourceOperationCollision s) g)"
| "group_action g (ActMove s expected destination) = insert_non_replace s (OpMove expected destination) g"
| "group_action g (ActDelete s expected) = insert_non_replace s (OpDelete expected) g"

definition root_base :: "source_root \<Rightarrow> apath" where
  "root_base root = (case root of DirectorySource d \<Rightarrow> dr_root d | GitSource d r \<Rightarrow> join_path [] (repo_root r))"

definition destination_is_occupied :: "fs \<Rightarrow> source_root \<Rightarrow> source_path \<Rightarrow> bool" where
  "destination_is_occupied fs root p =
     (case (root, p) of
        (DirectorySource d, PathDirectory q) \<Rightarrow> is_ok (lstat fs (join_path (root_base root) q))
      | (GitSource d r, PathGit q) \<Rightarrow> is_ok (lstat fs (join_path (root_base root) q))
      | _ \<Rightarrow> False)"

definition check_destination ::
  "fs \<Rightarrow> source_root \<Rightarrow> source_path btset \<Rightarrow>
     source_path btset \<times> mutation_conflict list \<Rightarrow> source_path \<Rightarrow> source_path btset \<times> mutation_conflict list" where
  "check_destination fs root source_paths = (\<lambda>(seen, conflicts) p.
     (bs_insert p seen,
      conflicts @ (if p \<in> set seen then [PathCollision p] else []) @
        (if p \<in> set source_paths \<or> destination_is_occupied fs root p then [OccupiedDestination p] else [])))"

definition move_destinations :: "(action_source, source_operation) btree \<Rightarrow> source_path list" where
  "move_destinations sources =
     concat (map (\<lambda>op. case op of OpMove e d \<Rightarrow> [d] | _ \<Rightarrow> []) (bt_values sources))"

definition group_actions :: "fs \<Rightarrow> source_root \<Rightarrow> stage_request \<Rightarrow> stage_refusal + grouped_actions" where
  "group_actions fs root request =
     (let g = foldl group_action \<lparr>ga_creates = [], ga_sources = [], ga_conflicts = []\<rparr> (rq_actions request);
          source_paths = bs_collect (map source_path_of (bt_keys (ga_sources g)));
          (seen, conflicts) = foldl (check_destination fs root source_paths) ([], ga_conflicts g)
            (bt_keys (ga_creates g) @ move_destinations (ga_sources g))
      in case remdups_adj (sort_key dbg_conflict conflicts) of
           [] \<Rightarrow> Inr \<lparr>ga_creates = ga_creates g, ga_sources = ga_sources g\<rparr>
         | c # cs \<Rightarrow> Inl (RefConflict (c # cs)))"

subsection \<open>Reading the inputs\<close>

record source_input =
  in_content :: content_id
  in_bytes :: bytes
  in_mode :: file_mode_observation

type_synonym inputs = "(action_source, source_input) btree"

definition direct_source_path :: "source_root \<Rightarrow> action_source \<Rightarrow> string + apath" where
  "direct_source_path root source =
     (case (root, source) of
        (DirectorySource d, SourceDirectory f) \<Rightarrow> Inr (join_path (root_base root) (fr_path f))
      | (GitSource d r, SourceGit s) \<Rightarrow> Inr (join_path (root_base root) (sr_path s))
      | _ \<Rightarrow> Inl ''source root does not match target root'')"

definition direct_source_mode :: "fs \<Rightarrow> source_root \<Rightarrow> action_source \<Rightarrow> string + file_mode_observation" where
  "direct_source_mode fs root source =
     rbind (direct_source_path root source) (\<lambda>p.
     rbind (map_err (\<lambda>e. ''read direct source metadata '' @ show_path p @ '': '' @ io_text e) (lstat fs p)) (\<lambda>n.
     (case n of
        NFile b m \<Rightarrow> Inr \<lparr>fmo_readonly = mode_readonly m, fmo_unix_mode = Some m\<rparr>
      | _ \<Rightarrow> Inl (''source target is not a regular file: '' @ show_path p))))"

fun expected_content :: "source_operation \<Rightarrow> content_id" where
  "expected_content (OpReplace e edits) = e"
| "expected_content (OpMove e d) = e"
| "expected_content (OpDelete e) = e"

definition expected_for_git_read :: "source_operation \<Rightarrow> content_id option" where
  "expected_for_git_read op =
     (case expected_content op of GitBlob oid \<Rightarrow> Some (GitBlob oid) | Blake3 d \<Rightarrow> None)"

text \<open>The visitor that files an answer under its source; \<open>None\<close> is the panic of its \<open>expect\<close>.\<close>

definition collect_input ::
  "(action_source, file_mode_observation) btree \<Rightarrow> action_source \<Rightarrow> content_id \<Rightarrow> bytes \<Rightarrow>
     (inputs option, string, unit) stm" where
  "collect_input modes s content b = (\<lambda>st.
     case st of
       None \<Rightarrow> (Inl ''mode checked before read'', None)
     | Some inputs \<Rightarrow> (case bt_get modes s of
           None \<Rightarrow> (Inl ''mode checked before read'', None)
         | Some m \<Rightarrow> (Inr (), Some (bt_insert s \<lparr>in_content = content, in_bytes = b, in_mode = m\<rparr> inputs))))"

fun file_request :: "action_source \<times> source_operation \<Rightarrow> file_read_request option" where
  "file_request (SourceDirectory f, op) = Some \<lparr>frr_file = f, frr_expected = None\<rparr>"
| "file_request (SourceGit s, op) = None"

fun tree_request :: "action_source \<times> source_operation \<Rightarrow> read_request option" where
  "tree_request (SourceGit s, op) = Some \<lparr>rr_source = s, rr_expected = expected_for_git_read op\<rparr>"
| "tree_request (SourceDirectory f, op) = None"

definition git_read_refusal :: "grouped_actions \<Rightarrow> action_source \<Rightarrow> string \<Rightarrow> inputs outcome" where
  "git_read_refusal g source detail =
     (if sublist ''content changed'' detail
      then (case bt_get (ga_sources g) source of
          None \<Rightarrow> None
        | Some op \<Rightarrow> (case expected_for_git_read op of
            None \<Rightarrow> None
          | Some e \<Rightarrow> Some (Inl (RefStale [\<lparr>si_source = source, si_expected = e, si_observed = None\<rparr>]))))
      else Some (Inl (RefUnreadable source detail)))"

definition read_directory_inputs ::
  "('x) ext_scheme \<Rightarrow> fs \<Rightarrow> directory_root \<Rightarrow> grouped_actions \<Rightarrow>
     (action_source, file_mode_observation) btree \<Rightarrow> inputs outcome" where
  "read_directory_inputs X fs d g modes =
     (case those (map file_request (ga_sources g)) of
        None \<Rightarrow> None
      | Some requests \<Rightarrow>
          (case file_read_each X fs d requests (\<lambda>answer.
              collect_input modes (SourceDirectory (fbr_file answer)) (fbr_content answer) (fbr_bytes answer)) (Some []) of
             (result, None) \<Rightarrow> None
           | (Inr u, Some inputs) \<Rightarrow> Some (Inr inputs)
           | (Inl detail, Some inputs) \<Rightarrow>
               (case find (\<lambda>s. bt_get inputs s = None) (bt_keys (ga_sources g)) of
                  None \<Rightarrow> None
                | Some s \<Rightarrow> Some (Inl (RefUnreadable s detail)))))"

definition read_git_inputs ::
  "('x) ext_scheme \<Rightarrow> fs \<Rightarrow> repository \<Rightarrow> grouped_actions \<Rightarrow>
     (action_source, file_mode_observation) btree \<Rightarrow> inputs outcome" where
  "read_git_inputs X fs repo g modes =
     (case those (map tree_request (ga_sources g)) of
        None \<Rightarrow> None
      | Some requests \<Rightarrow>
          (case tree_read_each X fs repo requests (\<lambda>answer.
              collect_input modes (SourceGit (sbr_source answer)) (sbr_content answer) (sbr_bytes answer)) (Some []) of
             (result, None) \<Rightarrow> None
           | (Inr u, Some inputs) \<Rightarrow> Some (Inr inputs)
           | (Inl detail, Some inputs) \<Rightarrow>
               (case find (\<lambda>r. bt_get inputs (SourceGit (rr_source r)) = None) requests of
                  None \<Rightarrow> None
                | Some r \<Rightarrow> git_read_refusal g (SourceGit (rr_source r)) detail)))"

definition read_inputs ::
  "('x) ext_scheme \<Rightarrow> fs \<Rightarrow> source_root \<Rightarrow> grouped_actions \<Rightarrow> inputs outcome" where
  "read_inputs X fs root g =
     (case rmap_all (\<lambda>s. rbind (map_err (RefUnreadable s) (direct_source_mode fs root s)) (\<lambda>m. Inr (s, m)))
         (bt_keys (ga_sources g)) of
        Inl refusal \<Rightarrow> Some (Inl refusal)
      | Inr modes \<Rightarrow>
          (case root of
             DirectorySource d \<Rightarrow> read_directory_inputs X fs d g (bt_collect modes)
           | GitSource d repo \<Rightarrow> read_git_inputs X fs repo g (bt_collect modes)))"

definition stale_input_of :: "inputs \<Rightarrow> action_source \<times> source_operation \<Rightarrow> stale_input list option" where
  "stale_input_of inputs = (\<lambda>(s, op). map_option (\<lambda>i.
     if expected_content op \<noteq> in_content i
     then [\<lparr>si_source = s, si_expected = expected_content op, si_observed = Some (in_content i)\<rparr>] else [])
     (bt_get inputs s))"

definition stale_inputs :: "grouped_actions \<Rightarrow> inputs \<Rightarrow> stale_input list option" where
  "stale_inputs g inputs = map_option concat (those (map (stale_input_of inputs) (ga_sources g)))"

subsection \<open>The plan\<close>

definition blake3_content :: "('x) ext_scheme \<Rightarrow> bytes \<Rightarrow> content_id" where
  "blake3_content X b = Blake3 (x_hash X b)"

definition planned_create :: "('x) ext_scheme \<Rightarrow> source_path \<times> bytes \<Rightarrow> planned_file" where
  "planned_create X = (\<lambda>(p, b). \<lparr>pf_kind = KCreate, pf_source = None, pf_path_before = None, pf_path_after = Some p,
     pf_content_before = None, pf_content_after = Some (blake3_content X b), pf_mode_before = None,
     pf_bytes_before = None, pf_bytes_after = Some b, pf_edits = []\<rparr>)"

definition planned_existing ::
  "planned_file_kind \<Rightarrow> action_source \<Rightarrow> source_input \<Rightarrow> source_path option \<Rightarrow> content_id option \<Rightarrow>
     bytes option \<Rightarrow> normalized_edit list \<Rightarrow> planned_file" where
  "planned_existing k s i after content b edits =
     \<lparr>pf_kind = k, pf_source = Some s, pf_path_before = Some (source_path_of s), pf_path_after = after,
      pf_content_before = Some (in_content i), pf_content_after = content, pf_mode_before = Some (in_mode i),
      pf_bytes_before = Some (in_bytes i), pf_bytes_after = b, pf_edits = edits\<rparr>"

definition plan_source ::
  "('x) ext_scheme \<Rightarrow> inputs \<Rightarrow> action_source \<times> source_operation \<Rightarrow> planned_file outcome" where
  "plan_source X inputs = (\<lambda>(s, op).
     case bt_get inputs s of
       None \<Rightarrow> None
     | Some i \<Rightarrow> (case op of
           OpReplace e edits \<Rightarrow>
             (case normalize_edits s edits (length (in_bytes i)) of
                Inl refusal \<Rightarrow> Some (Inl refusal)
              | Inr ns \<Rightarrow> (case apply_edits (in_bytes i) ns of
                  None \<Rightarrow> None
                | Some out \<Rightarrow> Some (Inr (planned_existing KReplace s i (Some (source_path_of s))
                    (Some (blake3_content X out)) (Some out) ns))))
         | OpMove e d \<Rightarrow> Some (Inr (planned_existing KMove s i (Some d) (Some (in_content i)) (Some (in_bytes i)) []))
         | OpDelete e \<Rightarrow> Some (Inr (planned_existing KDelete s i None None None []))))"

definition planned_file_key :: "planned_file \<Rightarrow> source_path option \<times> source_path option \<times> planned_file_kind" where
  "planned_file_key f = (pf_path_after f, pf_path_before f, pf_kind f)"

definition plan_mutations ::
  "('x) ext_scheme \<Rightarrow> fs \<Rightarrow> source_root \<Rightarrow> stage_request \<Rightarrow> mutation_plan outcome" where
  "plan_mutations X fs root request =
     (if rq_root request \<noteq> source_root_id_of root
      then Some (Inl (RefRootMismatch (rq_root request) (source_root_id_of root)))
      else case validate_shape request of
        Inl errors \<Rightarrow> Some (Inl (RefInvalidRequest errors))
      | Inr u \<Rightarrow>
     (if invalid_paths request \<noteq> [] then Some (Inl (RefInvalidPath (invalid_paths request)))
      else case group_actions fs root request of
        Inl refusal \<Rightarrow> Some (Inl refusal)
      | Inr g \<Rightarrow>
     obind (read_inputs X fs root g) (\<lambda>inputs.
     case stale_inputs g inputs of
       None \<Rightarrow> None
     | Some (s # ss) \<Rightarrow> Some (Inl (RefStale (s # ss)))
     | Some [] \<Rightarrow>
     obind (omap_all (plan_source X inputs) (ga_sources g)) (\<lambda>files.
     Some (Inr \<lparr>mp_root = rq_root request,
       mp_files = sort_key planned_file_key (map (planned_create X) (ga_creates g) @ files)\<rparr>)))))"

end
