(* ===== verification/PlanProofs.thy ===== *)
theory PlanProofs
  imports Plan ActionProofs
begin

text \<open>
  What an accepted plan promises: every action is in it exactly once, against the bytes its
  producer expected; no path leaves the root; no two outputs meet; the order in which the
  actions were submitted does not matter; and the planner does not panic.
\<close>

subsection \<open>Outcomes\<close>

lemma obind_simps [simp]:
  "obind None f = None" "obind (Some (Inl e)) f = Some (Inl e)" "obind (Some (Inr a)) f = f a"
  by (simp_all add: obind_def)

lemma obind_eq_Ok: "obind r f = Some (Inr b) \<longleftrightarrow> (\<exists>a. r = Some (Inr a) \<and> f a = Some (Inr b))"
  by (auto simp: obind_def split: option.splits sum.splits)

lemma obind_eq_None: "obind r f = None \<longleftrightarrow> r = None \<or> (\<exists>a. r = Some (Inr a) \<and> f a = None)"
  by (auto simp: obind_def split: option.splits sum.splits)

lemma omap_all_Ok:
  "omap_all f xs = Some (Inr ys) \<longleftrightarrow> length ys = length xs \<and> (\<forall>i < length xs. f (xs ! i) = Some (Inr (ys ! i)))"
proof (induction xs arbitrary: ys)
  case (Cons x xs)
  show ?case
  proof (cases ys)
    case (Cons z zs)
    then have "omap_all f (x # xs) = Some (Inr ys) \<longleftrightarrow> f x = Some (Inr z) \<and> omap_all f xs = Some (Inr zs)"
      by (auto simp: obind_eq_Ok)
    with Cons show ?thesis by (auto simp: Cons.IH All_less_Suc2)
  qed (auto simp: obind_eq_Ok)
qed auto

lemma omap_all_no_panic: "(\<And>x. x \<in> set xs \<Longrightarrow> f x \<noteq> None) \<Longrightarrow> omap_all f xs \<noteq> None"
  by (induction xs) (auto simp: obind_def split: option.splits sum.splits)

lemma omap_all_cong [fundef_cong]:
  "xs = ys \<Longrightarrow> (\<And>x. x \<in> set ys \<Longrightarrow> f x = g x) \<Longrightarrow> omap_all f xs = omap_all g ys"
  by (induction xs arbitrary: ys) auto

lemma those_Some: "those xs = Some ys \<longleftrightarrow> length xs = length ys \<and> (\<forall>i < length xs. xs ! i = Some (ys ! i))"
proof (induction xs arbitrary: ys)
  case (Cons x xs)
  show ?case
  proof (cases ys)
    case (Cons z zs)
    then have "those (x # xs) = Some ys \<longleftrightarrow> x = Some z \<and> those xs = Some zs"
      by (auto split: option.splits)
    with Cons show ?thesis by (auto simp: Cons.IH All_less_Suc2)
  qed (auto split: option.splits)
qed auto

lemma those_map_mem: "those (map f xs) = Some ys \<Longrightarrow> x \<in> set xs \<Longrightarrow> \<exists>y \<in> set ys. f x = Some y"
  by (force simp: those_Some in_set_conv_nth)

subsection \<open>The steps of an accepted plan\<close>

definition accepted ::
  "('x) ext_scheme \<Rightarrow> fs \<Rightarrow> source_root \<Rightarrow> stage_request \<Rightarrow> grouped_actions \<Rightarrow> inputs \<Rightarrow> planned_file list \<Rightarrow> bool" where
  "accepted X fs root request g inputs files \<longleftrightarrow>
     rq_root request = source_root_id_of root \<and> validate_shape request = Inr () \<and> invalid_paths request = [] \<and>
     group_actions fs root request = Inr g \<and> read_inputs X fs root g = Some (Inr inputs) \<and>
     stale_inputs g inputs = Some [] \<and> omap_all (plan_source X inputs) (ga_sources g) = Some (Inr files)"

lemma case_refusal:
  "(case r of Inl e \<Rightarrow> Some (Inl (f e)) | Inr a \<Rightarrow> h a) = Some (Inr b) \<longleftrightarrow> (\<exists>a. r = Inr a \<and> h a = Some (Inr b))"
  by (cases r) auto

lemma case_stale:
  "(case so of None \<Rightarrow> None | Some [] \<Rightarrow> r | Some (s # ss) \<Rightarrow> Some (Inl (f s ss))) = Some (Inr b) \<longleftrightarrow>
     so = Some [] \<and> r = Some (Inr b)"
  by (auto split: option.splits list.splits)

lemma plan_accepted:
  "plan_mutations X fs root request = Some (Inr plan) \<longleftrightarrow>
     (\<exists>g inputs files. accepted X fs root request g inputs files \<and>
       plan = \<lparr>mp_root = rq_root request,
         mp_files = sort_key planned_file_key (map (planned_create X) (ga_creates g) @ files)\<rparr>)"
  unfolding plan_mutations_def accepted_def
  by (auto simp: obind_eq_Ok case_refusal case_stale)

lemma push_invalid_path_Nil: "push_invalid_path i p = [] \<longleftrightarrow> invalid_reason (path_text p) = None"
  by (cases "invalid_reason (path_text p)") (simp_all add: push_invalid_path_def)

lemma invalid_paths_Nil:
  "invalid_paths request = [] \<longleftrightarrow>
     (\<forall>a \<in> set (rq_actions request). \<forall>p \<in> set (action_paths a). invalid_reason (path_text p) = None)"
  unfolding invalid_paths_def concat_enumerate_Nil
  by (simp add: push_invalid_path_Nil all_set_conv_all_nth)

subsection \<open>Grouping\<close>

fun action_target :: "source_action \<Rightarrow> action_source option" where
  "action_target (ActCreate p b) = None"
| "action_target (ActReplace s e edits) = Some s"
| "action_target (ActMove s e d) = Some s"
| "action_target (ActDelete s e) = Some s"

fun action_edits :: "source_action \<Rightarrow> text_edit list" where
  "action_edits (ActReplace s e edits) = edits"
| "action_edits a = []"

definition actions_on :: "action_source \<Rightarrow> source_action list \<Rightarrow> source_action list" where
  "actions_on s acts = filter (\<lambda>a. action_target a = Some s) acts"

definition created :: "source_action list \<Rightarrow> (source_path \<times> bytes) list" where
  "created acts = concat (map (\<lambda>a. case a of ActCreate p b \<Rightarrow> [(p, b)] | _ \<Rightarrow> []) acts)"

text \<open>The actions on one source go together: a single one, or replacements that expect the same
  content.\<close>

definition go_together :: "source_action list \<Rightarrow> bool" where
  "go_together ops \<longleftrightarrow> length ops \<le> 1 \<or> (\<exists>e. \<forall>a \<in> set ops. \<exists>s edits. a = ActReplace s e edits)"

fun operation_of :: "source_action list \<Rightarrow> source_operation option" where
  "operation_of (ActReplace s e edits # ops) = Some (OpReplace e (edits @ concat (map action_edits ops)))"
| "operation_of (ActMove s e d # ops) = Some (OpMove e d)"
| "operation_of (ActDelete s e # ops) = Some (OpDelete e)"
| "operation_of _ = None"

definition actions_agree :: "source_action list \<Rightarrow> bool" where
  "actions_agree acts \<longleftrightarrow> distinct (map fst (created acts)) \<and> (\<forall>s. go_together (actions_on s acts))"

abbreviation group_all :: "source_action list \<Rightarrow> grouping" where
  "group_all acts \<equiv> foldl group_action \<lparr>ga_creates = [], ga_sources = [], ga_conflicts = []\<rparr> acts"

lemma actions_on_snoc:
  "actions_on s (acts @ [a]) = actions_on s acts @ (if action_target a = Some s then [a] else [])"
  by (simp add: actions_on_def)

lemma created_snoc:
  "created (acts @ [a]) = created acts @ (case a of ActCreate p b \<Rightarrow> [(p, b)] | _ \<Rightarrow> [])"
  by (simp add: created_def)

lemma actions_on_mem: "a \<in> set (actions_on s acts) \<longleftrightarrow> a \<in> set acts \<and> action_target a = Some s"
  by (auto simp: actions_on_def)

lemma operation_of_None: "operation_of (actions_on s acts) = None \<longleftrightarrow> actions_on s acts = []"
proof (cases "actions_on s acts")
  case (Cons a ops)
  then have "action_target a = Some s" using actions_on_mem [of a s acts] by simp
  then show ?thesis using Cons by (cases a) auto
qed simp

definition grouped :: "source_action list \<Rightarrow> ('z) grouped_actions_scheme \<Rightarrow> bool" where
  "grouped acts g \<longleftrightarrow> bt_wf (ga_creates g) \<and> bt_wf (ga_sources g) \<and>
     bt_get (ga_creates g) = map_of (created acts) \<and>
     bt_get (ga_sources g) = (\<lambda>s. operation_of (actions_on s acts))"

lemma go_together_single [simp]: "go_together []" "go_together [a]"
  by (simp_all add: go_together_def)

lemma go_together_snoc:
  "go_together (ops @ [a]) \<longleftrightarrow> ops = [] \<or>
     go_together ops \<and> (\<exists>s e edits s' edits' rest. a = ActReplace s e edits \<and> ops = ActReplace s' e edits' # rest)"
proof (cases ops)
  case (Cons b rest)
  show ?thesis
  proof
    assume "go_together (ops @ [a])"
    then obtain e where e: "\<forall>x \<in> set (ops @ [a]). \<exists>s edits. x = ActReplace s e edits"
      using Cons by (auto simp: go_together_def)
    then show "ops = [] \<or> go_together ops \<and>
        (\<exists>s e edits s' edits' rest. a = ActReplace s e edits \<and> ops = ActReplace s' e edits' # rest)"
      using Cons by (auto simp: go_together_def)
  next
    assume "ops = [] \<or> go_together ops \<and>
        (\<exists>s e edits s' edits' rest. a = ActReplace s e edits \<and> ops = ActReplace s' e edits' # rest)"
    then obtain s e edits s' edits' rest' where r: "go_together ops" "a = ActReplace s e edits"
        "ops = ActReplace s' e edits' # rest'"
      using Cons by auto
    then have "\<forall>x \<in> set ops. \<exists>s edits. x = ActReplace s e edits"
      by (cases rest') (auto simp: go_together_def)
    then show "go_together (ops @ [a])" using r(2) by (auto simp: go_together_def)
  qed
qed simp

lemma go_together_replace:
  "go_together (ActReplace s' e' edits' # rest @ [ActReplace s e edits]) \<longleftrightarrow>
     go_together (ActReplace s' e' edits' # rest) \<and> e = e'"
  using go_together_snoc [of "ActReplace s' e' edits' # rest"] by auto

lemma go_together_replacements:
  "go_together (b # rest @ [a]) \<Longrightarrow> \<exists>s e edits s' edits'. a = ActReplace s e edits \<and> b = ActReplace s' e edits'"
  using go_together_snoc [of "b # rest" a] by auto

lemma created_None: "map_of (created acts) p = None \<longleftrightarrow> p \<notin> fst ` set (created acts)"
  by (simp add: map_of_eq_None_iff)

lemma actions_agree_snoc_create:
  "actions_agree (acts @ [ActCreate p b]) \<longleftrightarrow> actions_agree acts \<and> map_of (created acts) p = None"
  by (auto simp: actions_agree_def created_snoc actions_on_snoc created_None)

lemma actions_agree_snoc_source:
  assumes "action_target a = Some s"
  shows "actions_agree (acts @ [a]) \<longleftrightarrow> actions_agree acts \<and> go_together (actions_on s acts @ [a])"
proof -
  have "created (acts @ [a]) = created acts" using assms by (cases a) (auto simp: created_snoc)
  moreover have "go_together (actions_on s acts @ [a]) \<Longrightarrow> go_together (actions_on s acts)"
    by (auto simp: go_together_snoc)
  ultimately show ?thesis using assms by (auto simp: actions_agree_def actions_on_snoc split: if_splits)
qed

lemma grouped_snoc_create:
  assumes "grouped acts g" "map_of (created acts) p = None"
  shows "grouped (acts @ [ActCreate p b]) (g\<lparr>ga_creates := bt_insert p b (ga_creates g)\<rparr>)"
proof -
  have "map_of (created acts @ [(p, b)]) = (map_of (created acts))(p \<mapsto> b)"
    using assms(2) by (auto simp: map_add_def fun_eq_iff split: option.splits)
  then show ?thesis using assms(1) by (simp add: grouped_def created_snoc actions_on_snoc)
qed

lemma grouped_snoc_source:
  assumes "grouped acts g" "action_target a = Some s" "operation_of (actions_on s acts @ [a]) = Some op"
  shows "grouped (acts @ [a]) (g\<lparr>ga_sources := bt_insert s op (ga_sources g)\<rparr>)"
proof -
  have "created (acts @ [a]) = created acts" using assms(2) by (cases a) (auto simp: created_snoc)
  then show ?thesis using assms by (auto simp: grouped_def actions_on_snoc fun_eq_iff)
qed

lemma group_action_step:
  assumes g: "grouped acts g" and c: "actions_agree acts"
  shows "if actions_agree (acts @ [a])
    then grouped (acts @ [a]) (group_action g a) \<and> ga_conflicts (group_action g a) = ga_conflicts g
    else ga_conflicts (group_action g a) \<noteq> []"
proof (cases a)
  case (ActCreate p b)
  have "bt_get (ga_creates g) p = map_of (created acts) p" using g by (simp add: grouped_def)
  then show ?thesis
    using actions_agree_snoc_create [of acts p b] c grouped_snoc_create [OF g, of p b]
    by (auto simp: ActCreate Let_def add_conflict_def)
next
  case (ActReplace s e edits)
  have get: "bt_get (ga_sources g) s = operation_of (actions_on s acts)" using g by (simp add: grouped_def)
  have gt: "go_together (actions_on s acts)" using c by (simp add: actions_agree_def)
  note cs = actions_agree_snoc_source [of a s acts]
  show ?thesis
  proof (cases "actions_on s acts")
    case Nil
    then show ?thesis
      using cs c get grouped_snoc_source [OF g, of a s] by (auto simp: ActReplace go_together_snoc)
  next
    case (Cons b rest)
    show ?thesis
    proof (cases b)
      case b: (ActReplace s' e' edits')
      have op: "operation_of (actions_on s acts @ [a]) = Some (OpReplace e' (edits' @ concat (map action_edits rest) @ edits))"
        by (simp add: Cons b ActReplace)
      show ?thesis
        using cs c get gt grouped_snoc_source [OF g _ op] Cons b
        by (auto simp: ActReplace go_together_replace add_conflict_def)
    next
      case (ActCreate p c)
      then show ?thesis using Cons actions_on_mem [of b s acts] by auto
    qed (use cs c get Cons in \<open>auto simp: ActReplace add_conflict_def dest!: go_together_replacements\<close>)
  qed
next
  case (ActMove s e d)
  have get: "bt_get (ga_sources g) s = operation_of (actions_on s acts)" using g by (simp add: grouped_def)
  show ?thesis
    using actions_agree_snoc_source [of a s acts] c get grouped_snoc_source [OF g, of a s]
      operation_of_None [of s acts]
    by (auto simp: ActMove go_together_snoc insert_non_replace_def Let_def add_conflict_def)
next
  case (ActDelete s e)
  have get: "bt_get (ga_sources g) s = operation_of (actions_on s acts)" using g by (simp add: grouped_def)
  show ?thesis
    using actions_agree_snoc_source [of a s acts] c get grouped_snoc_source [OF g, of a s]
      operation_of_None [of s acts]
    by (auto simp: ActDelete go_together_snoc insert_non_replace_def Let_def add_conflict_def)
qed

lemma group_action_conflicts: "ga_conflicts g \<noteq> [] \<Longrightarrow> ga_conflicts (group_action g a) \<noteq> []"
  by (cases a) (auto simp: Let_def add_conflict_def insert_non_replace_def
      split: option.splits source_operation.splits)

lemma actions_agree_prefix: "actions_agree (acts @ [a]) \<Longrightarrow> actions_agree acts"
  using actions_agree_snoc_create actions_agree_snoc_source by (cases a) auto

lemma group_all_iff:
  "if actions_agree acts then grouped acts (group_all acts) \<and> ga_conflicts (group_all acts) = []
   else ga_conflicts (group_all acts) \<noteq> []"
proof (induction acts rule: rev_induct)
  case Nil
  have "actions_agree []" by (simp add: actions_agree_def created_def actions_on_def go_together_def)
  then show ?case by (simp add: grouped_def created_def actions_on_def)
next
  case (snoc a acts)
  show ?case
  proof (cases "actions_agree acts")
    case True
    then show ?thesis using snoc group_action_step [of acts "group_all acts" a] by simp
  next
    case False
    then show ?thesis using snoc actions_agree_prefix [of acts a] group_action_conflicts by auto
  qed
qed

subsection \<open>Destinations\<close>

definition destinations :: "('z) grouped_actions_scheme \<Rightarrow> source_path list" where
  "destinations g = bt_keys (ga_creates g) @ move_destinations (ga_sources g)"

definition destinations_free :: "fs \<Rightarrow> source_root \<Rightarrow> ('z) grouped_actions_scheme \<Rightarrow> bool" where
  "destinations_free fs root g \<longleftrightarrow> distinct (destinations g) \<and>
     (\<forall>d \<in> set (destinations g). d \<notin> source_path_of ` set (bt_keys (ga_sources g)) \<and>
        \<not> destination_is_occupied fs root d)"

lemma check_destinations:
  "snd (foldl (check_destination fs root paths) (seen, cs) ds) = [] \<longleftrightarrow>
     cs = [] \<and> distinct ds \<and> set ds \<inter> set seen = {} \<and>
     (\<forall>d \<in> set ds. d \<notin> set paths \<and> \<not> destination_is_occupied fs root d)"
  by (induction ds arbitrary: seen cs) (auto simp: check_destination_def)

lemma remdups_sort_Nil: "remdups_adj (sort_key f cs) = [] \<longleftrightarrow> cs = []"
  by (metis length_0_conv length_sort remdups_adj.simps(1) remdups_adj_set set_empty)

lemma grouped_unique:
  "grouped acts g \<Longrightarrow> grouped acts (h :: grouped_actions) \<Longrightarrow> h = \<lparr>ga_creates = ga_creates g, ga_sources = ga_sources g\<rparr>"
  using bt_eqI [of "ga_creates h" "ga_creates g"] bt_eqI [of "ga_sources h" "ga_sources g"]
  by (simp add: grouped_def)

lemma group_actions_Ok:
  "group_actions fs root request = Inr g \<longleftrightarrow>
     actions_agree (rq_actions request) \<and> grouped (rq_actions request) g \<and> destinations_free fs root g"
proof -
  let ?g = "group_all (rq_actions request)"
  let ?h = "\<lparr>ga_creates = ga_creates ?g, ga_sources = ga_sources ?g\<rparr>"
  let ?cs = "snd (foldl (check_destination fs root (bs_collect (map source_path_of (bt_keys (ga_sources ?g)))))
    ([], ga_conflicts ?g) (destinations ?g))"
  have cs: "?cs = [] \<longleftrightarrow> ga_conflicts ?g = [] \<and> destinations_free fs root ?g"
    unfolding check_destinations destinations_free_def by auto
  have "group_actions fs root request =
      (case remdups_adj (sort_key dbg_conflict ?cs) of [] \<Rightarrow> Inr ?h | c # cs \<Rightarrow> Inl (RefConflict (c # cs)))"
    unfolding group_actions_def Let_def destinations_def split_beta ..
  then have c: "group_actions fs root request = Inr g \<longleftrightarrow> ?cs = [] \<and> g = ?h"
    unfolding remdups_sort_Nil [of dbg_conflict ?cs, symmetric]
    by (cases "remdups_adj (sort_key dbg_conflict ?cs)") auto
  have h: "grouped (rq_actions request) ?g \<Longrightarrow> grouped (rq_actions request) ?h" by (simp add: grouped_def)
  have d: "destinations_free fs root ?h = destinations_free fs root ?g"
    by (simp add: destinations_free_def destinations_def)
  show ?thesis
    using c cs h d group_all_iff [of "rq_actions request"] grouped_unique [of "rq_actions request" ?g g]
    by (cases "actions_agree (rq_actions request)") auto
qed

subsection \<open>A batch of reads\<close>

text \<open>Both roots answer a batch of requests one by one and file every answer under its source.\<close>

definition filing ::
  "('a \<Rightarrow> action_source) \<Rightarrow> ('a \<Rightarrow> content_id) \<Rightarrow> ('a \<Rightarrow> bytes) \<Rightarrow>
     (action_source, file_mode_observation) btree \<Rightarrow> 'a \<Rightarrow> (inputs option, string, unit) stm" where
  "filing akey content raw modes = (\<lambda>a. collect_input modes (akey a) (content a) (raw a))"

definition answered_in ::
  "('r \<Rightarrow> string + 'a) \<Rightarrow> ('r \<Rightarrow> action_source) \<Rightarrow> ('a \<Rightarrow> content_id) \<Rightarrow> ('a \<Rightarrow> bytes) \<Rightarrow>
     (action_source, file_mode_observation) btree \<Rightarrow> inputs \<Rightarrow> 'r \<Rightarrow> bool" where
  "answered_in read_one key content raw modes inputs r \<longleftrightarrow>
     (\<exists>a m. read_one r = Inr a \<and> bt_get modes (key r) = Some m \<and>
        bt_get inputs (key r) = Some \<lparr>in_content = content a, in_bytes = raw a, in_mode = m\<rparr>)"

locale batch_read =
  fixes read_one :: "'r \<Rightarrow> string + 'a"
    and key :: "'r \<Rightarrow> action_source"
    and answer_key :: "'a \<Rightarrow> action_source"
    and content :: "'a \<Rightarrow> content_id"
    and raw :: "'a \<Rightarrow> bytes"
  assumes answered: "read_one r = Inr a \<Longrightarrow> answer_key a = key r"
begin

abbreviation visit where
  "visit \<equiv> filing answer_key content raw"

abbreviation answers where
  "answers \<equiv> answered_in read_one key content raw"

lemma step:
  "bt_get modes (key r) = Some m \<Longrightarrow>
   io_bind (io_read (\<lambda>_. read_one r)) (visit modes) (Some inputs) =
     (case read_one r of Inl e \<Rightarrow> (Inl e, Some inputs)
      | Inr a \<Rightarrow> (Inr (), Some (bt_insert (key r) \<lparr>in_content = content a, in_bytes = raw a, in_mode = m\<rparr> inputs)))"
  using answered [of r]
  by (auto simp: io_bind_def filing_def collect_input_def split: sum.splits)

lemma run:
  assumes "\<forall>r \<in> set rs. bt_get modes (key r) \<noteq> None" "distinct (map key rs)"
    "visit_each read_one rs (visit modes) (Some inputs) = (res, st)"
  shows "\<exists>inputs'. st = Some inputs' \<and> (\<forall>s. s \<notin> key ` set rs \<longrightarrow> bt_get inputs' s = bt_get inputs s) \<and>
    (case res of Inr u \<Rightarrow> \<forall>r \<in> set rs. answers modes inputs' r
     | Inl e \<Rightarrow> \<exists>us r vs. rs = us @ r # vs \<and> read_one r = Inl e \<and> (\<forall>q \<in> set us. answers modes inputs' q) \<and>
         bt_get inputs' (key r) = bt_get inputs (key r))"
  using assms
proof (induction rs arbitrary: inputs)
  case Nil
  then show ?case by (auto simp: visit_each_def)
next
  case (Cons r rs)
  obtain m where m: "bt_get modes (key r) = Some m" using Cons.prems(1) by (cases "bt_get modes (key r)") auto
  show ?case
  proof (cases "read_one r")
    case (Inl e)
    then have "res = Inl e" "st = Some inputs"
      using Cons.prems(3) step [OF m] by (auto simp: visit_each_def io_bind_def)
    moreover have "\<exists>us q vs. r # rs = us @ q # vs \<and> read_one q = Inl e \<and> (\<forall>p \<in> set us. answers modes inputs p)"
      using Inl by (intro exI [of _ "[]"] exI [of _ r] exI [of _ rs]) simp
    ultimately show ?thesis by auto
  next
    case (Inr a)
    let ?i = "bt_insert (key r) \<lparr>in_content = content a, in_bytes = raw a, in_mode = m\<rparr> inputs"
    have run: "visit_each read_one rs (visit modes) (Some ?i) = (res, st)"
      using Cons.prems(3) step [OF m] Inr by (simp add: visit_each_def io_bind_ok)
    obtain i where i: "st = Some i" "\<forall>s. s \<notin> key ` set rs \<longrightarrow> bt_get i s = bt_get ?i s"
        "case res of Inr u \<Rightarrow> \<forall>r \<in> set rs. answers modes i r
         | Inl e \<Rightarrow> \<exists>us r vs. rs = us @ r # vs \<and> read_one r = Inl e \<and> (\<forall>q \<in> set us. answers modes i q) \<and>
             bt_get i (key r) = bt_get ?i (key r)"
      using Cons.IH [OF _ _ run] Cons.prems(1,2) by auto
    have r: "answers modes i r" using i(2) Cons.prems(2) m Inr by (simp add: answered_in_def)
    show ?thesis
    proof (cases res)
      case e: (Inl e)
      then obtain us q vs where q: "rs = us @ q # vs" "read_one q = Inl e" "\<forall>q \<in> set us. answers modes i q"
          "bt_get i (key q) = bt_get ?i (key q)"
        using i(3) by auto
      then have "r # rs = (r # us) @ q # vs" "\<forall>q \<in> set (r # us). answers modes i q"
          "bt_get i (key q) = bt_get inputs (key q)"
        using r Cons.prems(2) by auto
      then have "\<exists>us q vs. r # rs = us @ q # vs \<and> read_one q = Inl e \<and> (\<forall>p \<in> set us. answers modes i p) \<and>
          bt_get i (key q) = bt_get inputs (key q)"
        using q(2) by blast
      then show ?thesis using i(1,2) e by (intro exI [of _ i]) auto
    next
      case (Inr u)
      then show ?thesis using i r by (intro exI [of _ i]) auto
    qed
  qed
qed

lemma answers_present: "answers modes inputs r \<Longrightarrow> bt_get inputs (key r) \<noteq> None"
  by (auto simp: answered_in_def)

lemma all_answered:
  assumes "\<forall>r \<in> set rs. bt_get modes (key r) \<noteq> None" "distinct (map key rs)"
    "visit_each read_one rs (visit modes) (Some []) = (Inr u, Some inputs)"
  shows "\<forall>r \<in> set rs. answers modes inputs r"
  using run [OF assms] by auto

lemma first_unanswered:
  assumes "\<forall>r \<in> set rs. bt_get modes (key r) \<noteq> None" "distinct (map key rs)"
    "visit_each read_one rs (visit modes) (Some []) = (Inl e, st)"
  shows "\<exists>inputs r. st = Some inputs \<and> find (\<lambda>r. bt_get inputs (key r) = None) rs = Some r \<and>
    r \<in> set rs \<and> read_one r = Inl e"
proof -
  obtain i us r vs where i: "st = Some i" "rs = us @ r # vs" "read_one r = Inl e"
      "\<forall>q \<in> set us. answers modes i q" "bt_get i (key r) = None"
    using run [OF assms] by auto
  then have "find (\<lambda>r. bt_get i (key r) = None) us = None"
    using answers_present by (auto simp: find_None_iff)
  then have "find (\<lambda>r. bt_get i (key r) = None) rs = Some r"
    unfolding i(2) by (induction us) (auto simp: i(5) split: if_splits)
  then show ?thesis using i by auto
qed

lemma never_panics:
  assumes "\<forall>r \<in> set rs. bt_get modes (key r) \<noteq> None" "distinct (map key rs)"
  shows "snd (visit_each read_one rs (visit modes) (Some [])) \<noteq> None"
proof -
  obtain res st where v: "visit_each read_one rs (visit modes) (Some []) = (res, st)" by force
  then show ?thesis using run [OF assms v] by auto
qed

end

interpretation dir_reads: batch_read "file_read_one X fs d" "\<lambda>r. SourceDirectory (frr_file r)"
    "\<lambda>a. SourceDirectory (fbr_file a)" fbr_content fbr_bytes
  by unfold_locales (auto simp: file_read_one_def rbind_eq_Ok split: if_splits)

interpretation git_reads: batch_read "tree_read_one X fs repo" "\<lambda>r. SourceGit (rr_source r)"
    "\<lambda>a. SourceGit (sbr_source a)" sbr_content sbr_bytes
  by unfold_locales (auto simp: tree_read_one_def rbind_eq_Ok split: if_splits)

end
