(* ===== verification/PlanReads.thy ===== *)
theory PlanReads
  imports PlanProofs
begin

text \<open>
  What the planner reads: every grouped source once, the bytes that are on disk, under the mode
  that is on disk; and why none of its \<open>expect\<close>s can fail.
\<close>

subsection \<open>Metadata without following links and the file behind it\<close>

lemma walk_follow:
  "walk n fs follow cur cs = Inr q \<Longrightarrow> \<not> follow \<Longrightarrow> bt_get fs q = Some (NFile b m) \<Longrightarrow>
     walk n fs True cur cs = Inr q"
proof (induction n fs follow cur cs rule: walk.induct)
  case (2 n fs follow cur c cs)
  have d: "bt_get fs cur = Some NDir" using "2.prems"(1) by (auto split: option.splits node.splits)
  show ?case
  proof (cases "bt_get fs (cur @ [c]) = None \<or> c = ''.'' \<or> c = ''..''")
    case True
    then show ?thesis using 2 d by (auto split: if_splits)
  next
    case False
    then obtain x where x: "bt_get fs (cur @ [c]) = Some x" by auto
    show ?thesis
    proof (cases x)
      case (NSymlink t)
      have "cs \<noteq> []" using "2.prems" d False x NSymlink by auto
      then obtain k where k: "n = Suc k" using "2.prems"(1) d False x NSymlink \<open>cs \<noteq> []\<close> by (cases n) auto
      then show ?thesis using 2 d False x NSymlink \<open>cs \<noteq> []\<close> by auto
    qed (use 2 d False x in auto)
  qed
qed simp

lemma lstat_file_reads: "lstat fs p = Inr (NFile b m) \<Longrightarrow> fs_read fs p = Inr b"
  using walk_follow [of 40 fs False "[]" p]
  by (auto simp: lstat_def fs_read_def stat_def resolve_def resolve_nofollow_def rbind_eq_Ok)

definition source_file :: "source_root \<Rightarrow> action_source \<Rightarrow> apath" where
  "source_file root s = join_path (root_base root) (path_text (source_path_of s))"

lemma direct_source_path_Ok: "direct_source_path root s = Inr p \<Longrightarrow> p = source_file root s"
  by (cases root; cases s) (auto simp: direct_source_path_def source_file_def)

lemma direct_source_mode_Ok:
  assumes "direct_source_mode fs root s = Inr m"
  shows "\<exists>b u. lstat fs (source_file root s) = Inr (NFile b u) \<and> m = \<lparr>fmo_readonly = mode_readonly u, fmo_unix_mode = Some u\<rparr>"
proof -
  obtain p n where p: "direct_source_path root s = Inr p" "lstat fs p = Inr n"
      "(case n of NFile b m \<Rightarrow> Inr \<lparr>fmo_readonly = mode_readonly m, fmo_unix_mode = Some m\<rparr>
        | _ \<Rightarrow> Inl (''source target is not a regular file: '' @ show_path p)) = Inr m"
    using assms unfolding direct_source_mode_def rbind_eq_Ok map_err_eq_Ok by blast
  then show ?thesis using direct_source_path_Ok [OF p(1)] by (cases n) auto
qed

lemma modes_collected:
  assumes "rmap_all (\<lambda>s. rbind (map_err (RefUnreadable s) (f s)) (\<lambda>m. Inr (s, m))) ks = Inr modes" "distinct ks"
  shows "map fst modes = ks" "s \<in> set ks \<Longrightarrow> \<exists>m. f s = Inr m \<and> bt_get (bt_collect modes) s = Some m"
proof -
  have len: "length modes = length ks"
    and each: "\<And>i. i < length ks \<Longrightarrow> \<exists>m. f (ks ! i) = Inr m \<and> modes ! i = (ks ! i, m)"
    using assms(1) unfolding rmap_all_Ok rbind_eq_Ok map_err_eq_Ok by auto
  show keys: "map fst modes = ks"
  proof (rule nth_equalityI)
    fix i assume "i < length (map fst modes)"
    then show "map fst modes ! i = ks ! i" using len each [of i] by auto
  qed (simp add: len)
  show "\<exists>m. f s = Inr m \<and> bt_get (bt_collect modes) s = Some m" if sk: "s \<in> set ks"
  proof -
    obtain i where i: "i < length ks" "ks ! i = s" using sk unfolding in_set_conv_nth by blast
    then obtain m where m: "f s = Inr m" "modes ! i = (s, m)" using each [OF i(1)] by auto
    have "(s, m) \<in> set modes" using i len m(2) by (metis nth_mem)
    then have "map_of modes s = Some m" using keys assms(2) by simp
    then show ?thesis using m(1) keys assms(2) by (simp add: bt_get_collect)
  qed
qed

lemma file_requests: "those (map file_request xs) = Some rs \<Longrightarrow> map (\<lambda>r. SourceDirectory (frr_file r)) rs = map fst xs"
proof (induction xs arbitrary: rs)
  case (Cons x xs)
  obtain s op where x: "x = (s, op)" by force
  show ?case using Cons by (cases s) (auto simp: x split: option.splits)
qed simp

lemma tree_requests:
  "those (map tree_request xs) = Some rs \<Longrightarrow> map (\<lambda>r. SourceGit (rr_source r)) rs = map fst xs \<and>
     map rr_expected rs = map (expected_for_git_read \<circ> snd) xs"
proof (induction xs arbitrary: rs)
  case (Cons x xs)
  obtain s op where x: "x = (s, op)" by force
  show ?case using Cons by (cases s) (auto simp: x split: option.splits)
qed simp

lemma file_requests_total:
  "\<forall>x \<in> set xs. \<exists>f. fst x = SourceDirectory f \<Longrightarrow> those (map file_request xs) \<noteq> None"
  by (induction xs) (auto split: option.splits)

lemma tree_requests_total:
  "\<forall>x \<in> set xs. \<exists>f. fst x = SourceGit f \<Longrightarrow> those (map tree_request xs) \<noteq> None"
  by (induction xs) (auto split: option.splits)

subsection \<open>One input\<close>

text \<open>The input of a source is what is in its file now; its content is the digest, or what Git
  says is the blob of these bytes.\<close>

definition input_of :: "('x) ext_scheme \<Rightarrow> fs \<Rightarrow> source_root \<Rightarrow> action_source \<Rightarrow> source_input \<Rightarrow> bool" where
  "input_of X fs root s i \<longleftrightarrow>
     (\<exists>u. lstat fs (source_file root s) = Inr (NFile (in_bytes i) u) \<and>
        in_mode i = \<lparr>fmo_readonly = mode_readonly u, fmo_unix_mode = Some u\<rparr>) \<and>
     (case in_content i of
        Blake3 d \<Rightarrow> d = x_hash X (in_bytes i)
      | GitBlob oid \<Rightarrow> (\<exists>dir repo. root = GitSource dir repo \<and> x_hash_object X repo (in_bytes i) = Inr oid))"

lemma open_and_read_Ok [simp]:
  "open_and_read X fs p = Inr b \<longleftrightarrow> fs_read fs p = Inr b \<and> \<not> x_open_fails X p \<and> \<not> x_read_fails X p"
  by (auto simp: open_and_read_def rbind_eq_Ok)

lemma input_of_directory:
  assumes "direct_source_mode fs (DirectorySource d) (SourceDirectory f) = Inr m"
    "file_read_one X fs d \<lparr>frr_file = f, frr_expected = None\<rparr> = Inr a"
  shows "input_of X fs (DirectorySource d) (SourceDirectory f)
    \<lparr>in_content = fbr_content a, in_bytes = fbr_bytes a, in_mode = m\<rparr>"
proof -
  obtain b u where l: "lstat fs (source_file (DirectorySource d) (SourceDirectory f)) = Inr (NFile b u)"
      "m = \<lparr>fmo_readonly = mode_readonly u, fmo_unix_mode = Some u\<rparr>"
    using direct_source_mode_Ok [OF assms(1)] by blast
  have "fs_read fs (join_path (dr_root d) (fr_path f)) = Inr (fbr_bytes a)" "fbr_content a = Blake3 (x_hash X (fbr_bytes a))"
    using assms(2) by (auto simp: file_read_one_def path_for_def rbind_eq_Ok split: if_splits)
  then show ?thesis
    using l lstat_file_reads [OF l(1)] by (auto simp: input_of_def source_file_def root_base_def)
qed

lemma read_worktree_Ok:
  "read_worktree X fs repo request = Inr (b, c) \<Longrightarrow>
     fs_read fs (join_path (join_path [] (repo_root repo)) (sr_path (rr_source request))) = Inr b \<and>
     (case c of Blake3 d \<Rightarrow> d = x_hash X b | GitBlob oid \<Rightarrow> x_hash_object X repo b = Inr oid)"
  by (cases "rr_expected request"; cases "the (rr_expected request)")
    (auto simp: read_worktree_def rbind_eq_Ok)

lemma tree_read_worktree:
  assumes "tree_read_one X fs repo request = Inr a" "sr_revision (rr_source request) = RevWorktree w h dirty"
  shows "sbr_source a = rr_source request \<and> read_worktree X fs repo request = Inr (sbr_bytes a, sbr_content a)"
  using assms by (auto simp: tree_read_one_def rbind_eq_Ok split: if_splits)

lemma input_of_git:
  assumes "direct_source_mode fs (GitSource d repo) (SourceGit s) = Inr m"
    "tree_read_one X fs repo \<lparr>rr_source = s, rr_expected = e\<rparr> = Inr a"
    and wt: "sr_revision s = RevWorktree w h dirty"
  shows "input_of X fs (GitSource d repo) (SourceGit s)
    \<lparr>in_content = sbr_content a, in_bytes = sbr_bytes a, in_mode = m\<rparr>"
proof -
  obtain b u where l: "lstat fs (source_file (GitSource d repo) (SourceGit s)) = Inr (NFile b u)"
      "m = \<lparr>fmo_readonly = mode_readonly u, fmo_unix_mode = Some u\<rparr>"
    using direct_source_mode_Ok [OF assms(1)] by blast
  have "read_worktree X fs repo \<lparr>rr_source = s, rr_expected = e\<rparr> = Inr (sbr_bytes a, sbr_content a)"
    using tree_read_worktree [OF assms(2)] wt by auto
  note r = read_worktree_Ok [OF this]
  show ?thesis
    using l lstat_file_reads [OF l(1)] r
    by (auto simp: input_of_def source_file_def root_base_def split: content_id.splits)
qed

lemma inputs_read:
  assumes wf: "bt_wf (ga_sources g)"
    and src: "\<forall>s \<in> set (bt_keys (ga_sources g)). source_of_root (source_root_id_of root) s"
    and ok: "read_inputs X fs root g = Some (Inr inputs)"
    and mem: "(s, op) \<in> set (ga_sources g)"
  shows "\<exists>i. bt_get inputs s = Some i \<and> input_of X fs root s i"
proof -
  let ?ks = "bt_keys (ga_sources g)"
  have dk: "distinct ?ks" using wf bt_wf_distinct by (simp add: bt_keys_def)
  have sk: "s \<in> set ?ks" using mem by (force simp: bt_keys_def)
  obtain ms where ms: "rmap_all (\<lambda>s. rbind (map_err (RefUnreadable s) (direct_source_mode fs root s)) (\<lambda>m. Inr (s, m))) ?ks = Inr ms"
    using ok by (auto simp: read_inputs_def split: sum.splits)
  note modes = modes_collected [OF ms dk]
  have pres: "bt_get (bt_collect ms) k \<noteq> None" if "k \<in> set ?ks" for k using modes(2) [OF that] by auto
  show ?thesis
  proof (cases root)
    case (DirectorySource d)
    then have r: "read_directory_inputs X fs d g (bt_collect ms) = Some (Inr inputs)"
      using ok ms by (simp add: read_inputs_def)
    then obtain rs where rs: "those (map file_request (ga_sources g)) = Some rs"
      by (auto simp: read_directory_inputs_def split: option.splits)
    have v: "visit_each (file_read_one X fs d) rs (filing (\<lambda>a. SourceDirectory (fbr_file a)) fbr_content fbr_bytes (bt_collect ms)) (Some []) = (Inr (), Some inputs)"
      using r rs by (auto simp: read_directory_inputs_def file_read_each_def filing_def
          split: option.splits prod.splits sum.splits)
    have keys: "map (\<lambda>r. SourceDirectory (frr_file r)) rs = ?ks"
      using file_requests [OF rs] by (simp add: bt_keys_def)
    have mp: "\<forall>r \<in> set rs. bt_get (bt_collect ms) (SourceDirectory (frr_file r)) \<noteq> None"
      using pres keys by (metis (no_types, lifting) image_eqI list.set_map)
    obtain rq where rq: "rq \<in> set rs" "file_request (s, op) = Some rq" using those_map_mem [OF rs mem] by blast
    then obtain f where f: "s = SourceDirectory f" "rq = \<lparr>frr_file = f, frr_expected = None\<rparr>"
      by (cases s) auto
    have "answered_in (file_read_one X fs d) (\<lambda>r. SourceDirectory (frr_file r)) fbr_content fbr_bytes (bt_collect ms) inputs rq"
      using dir_reads.all_answered [OF mp _ v] keys dk rq(1) by metis
    then obtain a m where a: "file_read_one X fs d rq = Inr a" "bt_get (bt_collect ms) s = Some m"
        "bt_get inputs s = Some \<lparr>in_content = fbr_content a, in_bytes = fbr_bytes a, in_mode = m\<rparr>"
      by (auto simp: answered_in_def f)
    moreover have "direct_source_mode fs root s = Inr m" using modes(2) [OF sk] a(2) by auto
    ultimately show ?thesis
      using input_of_directory [of fs d f m X a] f DirectorySource by auto
  next
    case (GitSource d repo)
    then have r: "read_git_inputs X fs repo g (bt_collect ms) = Some (Inr inputs)"
      using ok ms by (simp add: read_inputs_def)
    then obtain rs where rs: "those (map tree_request (ga_sources g)) = Some rs"
      by (auto simp: read_git_inputs_def split: option.splits)
    have v: "visit_each (tree_read_one X fs repo) rs (filing (\<lambda>a. SourceGit (sbr_source a)) sbr_content sbr_bytes (bt_collect ms)) (Some []) = (Inr (), Some inputs)"
      using r rs by (auto simp: read_git_inputs_def tree_read_each_def filing_def git_read_refusal_def
          split: option.splits prod.splits sum.splits if_splits)
    have keys: "map (\<lambda>r. SourceGit (rr_source r)) rs = ?ks"
      using tree_requests [OF rs] by (simp add: bt_keys_def)
    have mp: "\<forall>r \<in> set rs. bt_get (bt_collect ms) (SourceGit (rr_source r)) \<noteq> None"
      using pres keys by (metis (no_types, lifting) image_eqI list.set_map)
    obtain rq where rq: "rq \<in> set rs" "tree_request (s, op) = Some rq" using those_map_mem [OF rs mem] by blast
    then obtain q where q: "s = SourceGit q" "rq = \<lparr>rr_source = q, rr_expected = expected_for_git_read op\<rparr>"
      by (cases s) auto
    have "source_of_root (source_root_id_of root) s" using src sk by blast
    then obtain w h b where wt: "sr_revision q = RevWorktree w h b" using GitSource q by auto
    have "answered_in (tree_read_one X fs repo) (\<lambda>r. SourceGit (rr_source r)) sbr_content sbr_bytes (bt_collect ms) inputs rq"
      using git_reads.all_answered [OF mp _ v] keys dk rq(1) by metis
    then obtain a m where a: "tree_read_one X fs repo rq = Inr a" "bt_get (bt_collect ms) s = Some m"
        "bt_get inputs s = Some \<lparr>in_content = sbr_content a, in_bytes = sbr_bytes a, in_mode = m\<rparr>"
      by (auto simp: answered_in_def q)
    moreover have "direct_source_mode fs root s = Inr m" using modes(2) [OF sk] a(2) by auto
    ultimately show ?thesis
      using input_of_git [of fs d repo q m X "expected_for_git_read op" a w h b] q wt GitSource by auto
  qed
qed

end
