(* ===== verification/PlanTotal.thy ===== *)
theory PlanTotal
  imports PlanReads
begin

text \<open>
  Why the planner does not panic: every \<open>expect\<close> of \<open>plan_mutations\<close> is discharged by an earlier
  check, and no splice of a normalized edit is out of range.
\<close>

subsection \<open>Splices\<close>

text \<open>Going from the last edit to the first, the text before an edit's end is still there: the edits
  behind it either start there or only insert.\<close>

definition spaced :: "normalized_edit list \<Rightarrow> bool" where
  "spaced ns \<longleftrightarrow> sorted_wrt (\<lambda>a b. ne_start a \<le> ne_start b \<and> (is_insertion b \<or> ne_end a \<le> ne_start b)) ns"

lemma apply_spaced:
  "spaced ns \<Longrightarrow> \<forall>e \<in> set ns. ne_start e \<le> ne_end e \<and> unat (ne_end e) \<le> length input \<Longrightarrow>
     \<exists>out. apply_edits input ns = Some out \<and>
       (\<forall>p \<le> length input. (\<forall>e \<in> set ns. is_insertion e \<or> p \<le> unat (ne_start e)) \<longrightarrow> p \<le> length out)"
proof (induction ns)
  case Nil
  then show ?case by (simp add: apply_edits_def)
next
  case (Cons e ns)
  let ?s = "unat (ne_start e)" and ?t = "unat (ne_end e)"
  have b: "?s \<le> ?t" "?t \<le> length input" using Cons.prems(2) by (auto simp: word_le_nat_alt)
  have behind: "\<forall>x \<in> set ns. is_insertion x \<or> ?t \<le> unat (ne_start x)"
    using Cons.prems(1) by (auto simp: spaced_def word_le_nat_alt)
  obtain out where out: "apply_edits input ns = Some out"
      "\<forall>p \<le> length input. (\<forall>e \<in> set ns. is_insertion e \<or> p \<le> unat (ne_start e)) \<longrightarrow> p \<le> length out"
    using Cons.IH Cons.prems by (auto simp: spaced_def)
  have t: "?t \<le> length out" using out(2) b(2) behind by blast
  have app: "apply_edits input (e # ns) = Some (splice_bytes out ?s ?t (ne_replacement e))"
    using out(1) b(1) t by (simp add: apply_edits_def apply_rev_append splice_checked_def)
  have len: "length (splice_bytes out ?s ?t (ne_replacement e)) = ?s + length (ne_replacement e) + (length out - ?t)"
    using b(1) t by (simp add: splice_bytes_def)
  have "p \<le> length (splice_bytes out ?s ?t (ne_replacement e))"
    if p: "p \<le> length input" "\<forall>x \<in> set (e # ns). is_insertion x \<or> p \<le> unat (ne_start x)" for p
  proof (cases "is_insertion e")
    case True
    then have "?s = ?t" by (simp add: is_insertion_def)
    moreover have "p \<le> length out" using out(2) p by simp
    ultimately show ?thesis unfolding len using t by simp
  next
    case False
    then have "p \<le> ?s" using p(2) by simp
    then show ?thesis unfolding len by simp
  qed
  then show ?case using app by blast
qed

lemma normalized_spaced:
  assumes norm: "normalize_edits src es n = Inr ns" and r: "ranges_ok es"
  shows "spaced ns"
proof -
  let ?m = "merged_list es" and ?K = "edit_sort_key (norm_orders src es)"
  from norm have cf: "conflict_free ?m" and ns: "ns = sort_key ?K ?m"
    by (auto simp: normalize_edits_Ok)
  have "sorted_wrt (\<lambda>a b. ?K a \<le> ?K b) ns"
    using sorted_sort_key [of ?K ?m] by (simp add: ns sorted_map)
  then have "sorted_wrt (\<lambda>a b. ?K a \<le> ?K b \<and> a \<noteq> b) ns"
    by (rule sorted_wrt_distinct) (simp add: ns merged_distinct)
  then show ?thesis unfolding spaced_def
  proof (rule sorted_wrt_mono_rel [rotated])
    fix a b
    assume "a \<in> set ns" "b \<in> set ns" and ab: "?K a \<le> ?K b \<and> a \<noteq> b"
    then have m: "a \<in> set ?m" "b \<in> set ?m" by (auto simp: ns)
    with cf ab have comp: "compatible a b" by (auto simp: conflict_free_def)
    have le: "ne_start a \<le> ne_start b" using ab by (auto simp: edit_sort_key_def)
    note ra = merged_ranges [OF r m(1)] and rb = merged_ranges [OF r m(2)]
    have "is_insertion b \<or> ne_end a \<le> ne_start b"
    proof (cases "is_nonempty b")
      case b: True
      show ?thesis
      proof (cases "is_nonempty a")
        case True
        have "\<not> ne_end b \<le> ne_start a" using le b by (auto simp: is_nonempty_def)
        with comp True b show ?thesis by (auto simp: compatible_def)
      qed (use ra le in \<open>simp add: is_insertion_def\<close>)
    qed (use rb in simp)
    then show "ne_start a \<le> ne_start b \<and> (is_insertion b \<or> ne_end a \<le> ne_start b)" using le by blast
  qed
qed

lemma apply_normalized_total:
  assumes "normalize_edits src es (length input) = Inr ns" "ranges_ok es" "length input < 2 ^ 64"
  shows "apply_edits input ns \<noteq> None"
  using apply_spaced [OF normalized_spaced [OF assms(1,2)], of input] normalized_bounds [OF assms] by auto

subsection \<open>Grouped sources of a shaped request\<close>

lemma operation_edits:
  "operation_of acts = Some (OpReplace e edits) \<Longrightarrow> set edits \<subseteq> (\<Union>a \<in> set acts. set (action_edits a))"
  by (cases acts; cases "hd acts") auto

lemma operation_shaped:
  assumes "list_all (action_shaped rid) acts" "operation_of (actions_on s acts) = Some (OpReplace e edits)"
  shows "ranges_ok edits"
proof -
  have "x \<in> set edits \<Longrightarrow> \<exists>a \<in> set acts. x \<in> set (action_edits a)" for x
    proof -
    have "x \<in> set edits \<Longrightarrow> x \<in> (\<Union>a \<in> set (actions_on s acts). set (action_edits a))"
      using operation_edits [OF assms(2)] by blast
    then show "x \<in> set edits \<Longrightarrow> \<exists>a \<in> set acts. x \<in> set (action_edits a)" by (auto simp: actions_on_mem)
  qed
  moreover have "a \<in> set acts \<Longrightarrow> x \<in> set (action_edits a) \<Longrightarrow> as_start (te_range x) \<le> as_end (te_range x)" for a x
    using assms(1) by (cases a) (auto simp: list_all_iff)
  ultimately show ?thesis unfolding ranges_ok_def by blast
qed

lemma grouped_target:
  assumes "grouped acts g" "(s, op) \<in> set (ga_sources g)"
  shows "operation_of (actions_on s acts) = Some op" "\<exists>a \<in> set acts. action_target a = Some s"
proof -
  show op: "operation_of (actions_on s acts) = Some op"
    using assms bt_get_mem [of "ga_sources g" s op] by (simp add: grouped_def)
  then have "actions_on s acts \<noteq> []" using operation_of_None [of s acts] by auto
  then obtain a where "a \<in> set (actions_on s acts)" by (cases "actions_on s acts") auto
  then show "\<exists>a \<in> set acts. action_target a = Some s" using actions_on_mem [of a s acts] by blast
qed

lemma target_shaped: "action_shaped rid a \<Longrightarrow> action_target a = Some s \<Longrightarrow> source_of_root rid s"
  by (cases a) auto

lemma target_path_checked: "action_target a = Some s \<Longrightarrow> source_path_of s \<in> set (action_paths a)"
  by (cases a) auto

lemma grouped_sources:
  assumes g: "grouped (rq_actions request) g"
    and shape: "validate_shape request = Inr ()" and paths: "invalid_paths request = []"
    and s: "s \<in> set (bt_keys (ga_sources g))"
  shows "source_of_root (rq_root request) s" "invalid_reason (path_text (source_path_of s)) = None"
proof -
  obtain op where "(s, op) \<in> set (ga_sources g)" using s by (auto simp: bt_keys_def)
  then obtain a where a: "a \<in> set (rq_actions request)" "action_target a = Some s"
    using grouped_target(2) [OF g] by blast
  show "source_of_root (rq_root request) s"
    using shape a target_shaped by (auto simp: validate_shape_Ok list_all_iff)
  show "invalid_reason (path_text (source_path_of s)) = None"
    using paths a target_path_checked [OF a(2)] by (auto simp: invalid_paths_Nil)
qed

subsection \<open>Reads\<close>

lemma first_bad_component_None:
  "first_bad_component cs = None \<longleftrightarrow> ParentDir \<notin> set cs \<and> RootDir \<notin> set cs"
  by (induction cs) (auto split: component.splits)

lemma invalid_reason_None:
  "invalid_reason p = None \<longleftrightarrow> p \<noteq> [] \<and> p \<noteq> ''.'' \<and> \<not> str_contains line_feed p \<and>
     \<not> str_contains carriage_return p \<and> \<not> is_absolute p \<and> ParentDir \<notin> set (components p)"
  by (simp add: invalid_reason_def)

lemma relative_ok: "invalid_reason p = None \<Longrightarrow> ensure_repository_relative p = Inr ()"
  using first_bad_component_None [of "components p"] root_dir_iff [of p]
  by (simp add: ensure_repository_relative_def invalid_reason_None)

text \<open>A regular worktree file without an expected blob is read, unless the operating system refuses
  it; then the error names the file.\<close>

definition refused_file :: "('x) ext_scheme \<Rightarrow> apath \<Rightarrow> bool" where
  "refused_file X p \<longleftrightarrow> x_open_fails X p \<or> x_read_fails X p"

lemma open_and_read_refused:
  assumes "fs_read fs p = Inr b"
  shows "open_and_read X fs p = (if x_open_fails X p then Inl (''open '' @ show_path p)
    else if x_read_fails X p then Inl (''read '' @ show_path p) else Inr b)"
  using assms by (simp add: open_and_read_def)

lemma unexpected_read:
  assumes "source_of_root (source_root_id_of (GitSource d repo)) (SourceGit s)"
    "invalid_reason (sr_path s) = None"
    "direct_source_mode fs (GitSource d repo) (SourceGit s) = Inr m"
    "tree_read_one X fs repo \<lparr>rr_source = s, rr_expected = None\<rparr> = Inl e"
  shows "let p = source_file (GitSource d repo) (SourceGit s)
    in refused_file X p \<and> (e = ''open '' @ show_path p \<or> e = ''read '' @ show_path p)"
proof -
  obtain w h b q where s: "s = SourceRef (repo_identity repo) (RevWorktree (repo_worktree repo) h b) q"
    using assms(1) by auto
  obtain c u where "lstat fs (source_file (GitSource d repo) (SourceGit s)) = Inr (NFile c u)"
    using direct_source_mode_Ok [OF assms(3)] by blast
  then have "fs_read fs (join_path (join_path [] (repo_root repo)) q) = Inr c"
    using lstat_file_reads s by (simp add: source_file_def root_base_def)
  from open_and_read_refused [OF this, of X] show ?thesis
    using relative_ok [OF assms(2)] s assms(4)
    by (auto simp: tree_read_one_def read_worktree_def source_file_def root_base_def refused_file_def split: if_splits)
qed

text \<open>No file that is refused has the words of a changed content in its name.\<close>

definition refusals_plain :: "('x) ext_scheme \<Rightarrow> bool" where
  "refusals_plain X \<longleftrightarrow> (\<forall>p. refused_file X p \<longrightarrow> \<not> sublist ''content changed'' (show_path p))"

lemma find_map: "find P (map f xs) = map_option f (find (P \<circ> f) xs)"
  by (induction xs) auto

lemma case_read_None:
  assumes "snd v = Some i" "\<And>detail. fst v = Inl detail \<Longrightarrow> h detail i \<noteq> None"
  shows "(case v of (result, None) \<Rightarrow> None | (Inr u, Some inputs) \<Rightarrow> Some (Inr inputs)
     | (Inl detail, Some inputs) \<Rightarrow> h detail inputs) \<noteq> None"
  using assms by (cases v; cases "fst v") auto

lemma read_inputs_total:
  assumes wf: "bt_wf (ga_sources g)"
    and src: "\<forall>s \<in> set (bt_keys (ga_sources g)). source_of_root (source_root_id_of root) s \<and>
      invalid_reason (path_text (source_path_of s)) = None"
    and plain: "refusals_plain X"
  shows "read_inputs X fs root g \<noteq> None"
proof -
  let ?ks = "bt_keys (ga_sources g)"
  have dk: "distinct ?ks" using wf bt_wf_distinct by (simp add: bt_keys_def)
  show ?thesis
  proof (cases "rmap_all (\<lambda>s. rbind (map_err (RefUnreadable s) (direct_source_mode fs root s)) (\<lambda>m. Inr (s, m))) ?ks")
    case (Inl e)
    then show ?thesis by (simp add: read_inputs_def)
  next
    case ms: (Inr ms)
    note modes = modes_collected [OF ms dk]
    have pres: "bt_get (bt_collect ms) k \<noteq> None" if "k \<in> set ?ks" for k using modes(2) [OF that] by auto
    show ?thesis
    proof (cases root)
      case (DirectorySource d)
      have "\<forall>x \<in> set (ga_sources g). \<exists>f. fst x = SourceDirectory f"
        using src DirectorySource by (fastforce simp: bt_keys_def)
      then obtain rs where rs: "those (map file_request (ga_sources g)) = Some rs"
        using file_requests_total by (metis not_None_eq)
      have keys: "map (\<lambda>r. SourceDirectory (frr_file r)) rs = ?ks"
        using file_requests [OF rs] by (simp add: bt_keys_def)
      have mp: "\<forall>r \<in> set rs. bt_get (bt_collect ms) (SourceDirectory (frr_file r)) \<noteq> None"
        using pres keys by (metis (no_types, lifting) image_eqI list.set_map)
      have dr: "distinct (map (\<lambda>r. SourceDirectory (frr_file r)) rs)" using keys dk by simp
      let ?v = "visit_each (file_read_one X fs d) rs
        (filing (\<lambda>a. SourceDirectory (fbr_file a)) fbr_content fbr_bytes (bt_collect ms)) (Some [])"
      obtain i where i: "snd ?v = Some i" using dir_reads.never_panics [OF mp dr] by (metis not_None_eq)
      have "find (\<lambda>s. bt_get i s = None) ?ks \<noteq> None" if "fst ?v = Inl e" for e
      proof -
        have "?v = (Inl e, Some i)" using that i by (simp add: prod_eq_iff)
        from dir_reads.first_unanswered [OF mp dr this]
        obtain r where "find (\<lambda>r. bt_get i (SourceDirectory (frr_file r)) = None) rs = Some r" by auto
        then show ?thesis unfolding keys [symmetric] find_map by (simp add: o_def)
      qed
      then have "read_directory_inputs X fs d g (bt_collect ms) \<noteq> None"
        unfolding read_directory_inputs_def rs option.case file_read_each_def
        by (intro case_read_None [OF i [unfolded filing_def]]) (auto simp: filing_def split: option.splits)
      then show ?thesis using ms DirectorySource by (simp add: read_inputs_def)
    next
      case (GitSource d repo)
      have "\<forall>x \<in> set (ga_sources g). \<exists>f. fst x = SourceGit f"
        using src GitSource by (fastforce simp: bt_keys_def)
      then obtain rs where rs: "those (map tree_request (ga_sources g)) = Some rs"
        using tree_requests_total by (metis not_None_eq)
      have keys: "map (\<lambda>r. SourceGit (rr_source r)) rs = ?ks"
        using tree_requests [OF rs] by (simp add: bt_keys_def)
      have mp: "\<forall>r \<in> set rs. bt_get (bt_collect ms) (SourceGit (rr_source r)) \<noteq> None"
        using pres keys by (metis (no_types, lifting) image_eqI list.set_map)
      have dr: "distinct (map (\<lambda>r. SourceGit (rr_source r)) rs)" using keys dk by simp
      let ?v = "visit_each (tree_read_one X fs repo) rs
        (filing (\<lambda>a. SourceGit (sbr_source a)) sbr_content sbr_bytes (bt_collect ms)) (Some [])"
      obtain i where i: "snd ?v = Some i" using git_reads.never_panics [OF mp dr] by (metis not_None_eq)
      have "(case find (\<lambda>r. bt_get i (SourceGit (rr_source r)) = None) rs of None \<Rightarrow> None
          | Some r \<Rightarrow> git_read_refusal g (SourceGit (rr_source r)) e) \<noteq> None" if "fst ?v = Inl e" for e
      proof -
        have "?v = (Inl e, Some i)" using that i by (simp add: prod_eq_iff)
        from git_reads.first_unanswered [OF mp dr this]
        obtain r where r: "find (\<lambda>r. bt_get i (SourceGit (rr_source r)) = None) rs = Some r" "r \<in> set rs"
            "tree_read_one X fs repo r = Inl e" by auto
        obtain k where k: "k < length rs" "rs ! k = r" using r(2) by (auto simp: in_set_conv_nth)
        have len: "length rs = length (ga_sources g)" using rs by (simp add: those_Some)
        obtain s op where x: "ga_sources g ! k = (s, op)" "(s, op) \<in> set (ga_sources g)"
          using k len by (metis nth_mem surj_pair)
        have "tree_request (ga_sources g ! k) = Some (rs ! k)" using rs k(1) len by (simp add: those_Some)
        then have "tree_request (s, op) = Some r" using k(2) x(1) by simp
        then have q: "s = SourceGit (rr_source r)" "r = \<lparr>rr_source = rr_source r, rr_expected = expected_for_git_read op\<rparr>"
          by (cases s; auto)+
        have sk: "s \<in> set ?ks" using x(2) by (force simp: bt_keys_def)
        have get: "bt_get (ga_sources g) s = Some op" using x(2) bt_get_mem [OF wf] by simp
        have "expected_for_git_read op \<noteq> None \<or> \<not> sublist ''content changed'' e"
        proof (rule disjCI)
          assume ch: "\<not> \<not> sublist ''content changed'' e"
          show "expected_for_git_read op \<noteq> None"
          proof
            assume none: "expected_for_git_read op = None"
            obtain m where m: "direct_source_mode fs (GitSource d repo) (SourceGit (rr_source r)) = Inr m"
              using modes(2) [OF sk] q(1) GitSource by auto
            have e: "tree_read_one X fs repo \<lparr>rr_source = rr_source r, rr_expected = None\<rparr> = Inl e"
              using r(3) q(2) none by simp
            have "source_of_root (source_root_id_of (GitSource d repo)) (SourceGit (rr_source r))"
              "invalid_reason (sr_path (rr_source r)) = None"
              using src sk q(1) GitSource by force+
            from unexpected_read [OF this m e] ch plain show False
              by (auto simp: Let_def refusals_plain_def sublist_Cons_right)
          qed
        qed
        then show ?thesis using r(1) get q(1) by (auto simp: git_read_refusal_def)
      qed
      then have "read_git_inputs X fs repo g (bt_collect ms) \<noteq> None"
        unfolding read_git_inputs_def rs option.case tree_read_each_def
        by (intro case_read_None [OF i [unfolded filing_def]]) (simp add: filing_def)
      then show ?thesis using ms GitSource by (simp add: read_inputs_def)
    qed
  qed
qed

end
