(* ===== verification/PlanTheorems.thy ===== *)
theory PlanTheorems
  imports PlanTotal
begin

text \<open>
  The guarantees of \<open>plan_mutations\<close>.
\<close>

subsection \<open>Totality\<close>

lemma those_total: "\<forall>x \<in> set xs. f x \<noteq> None \<Longrightarrow> those (map f xs) \<noteq> None"
  by (induction xs) (auto split: option.splits)

lemma grouped_wf: "grouped acts g \<Longrightarrow> bt_wf (ga_sources g)"
  by (simp add: grouped_def)

lemma plan_source_total:
  assumes "bt_get inputs s = Some i" "input_of X fs root s i"
    and "\<And>e edits. op = OpReplace e edits \<Longrightarrow> ranges_ok edits"
    and "\<forall>p b. fs_read fs p = Inr b \<longrightarrow> length b < 2 ^ 64"
  shows "plan_source X inputs (s, op) \<noteq> None"
proof -
  have "length (in_bytes i) < 2 ^ 64"
    using assms(2,4) lstat_file_reads by (fastforce simp: input_of_def)
  then have tot: "normalize_edits s edits (length (in_bytes i)) = Inr ns \<Longrightarrow> op = OpReplace e edits \<Longrightarrow>
      apply_edits (in_bytes i) ns \<noteq> None" for e edits ns
    using apply_normalized_total [OF _ assms(3)] by blast
  show ?thesis
  proof (cases op)
    case (OpReplace e edits)
    show ?thesis
    proof (cases "normalize_edits s edits (length (in_bytes i))")
      case (Inr ns)
      then obtain out where "apply_edits (in_bytes i) ns = Some out" using tot OpReplace by blast
      then show ?thesis using assms(1) OpReplace Inr by (simp add: plan_source_def)
    qed (simp add: plan_source_def assms(1) OpReplace)
  qed (simp_all add: plan_source_def assms(1))
qed

text \<open>C17 -- The planner panics in one case only. If no file that the operating system refuses to open
  or to read has \<open>content changed\<close> in its path, then, whatever the request and whatever else is on
  disk, no \<open>expect\<close> of it fails, no \<open>unreachable!\<close> is reached and no splice is out of range, as long
  as files are shorter than \<open>2^64\<close> bytes. The next property is the case left out.\<close>

theorem plan_never_panics:
  assumes "\<forall>p b. fs_read fs p = Inr b \<longrightarrow> length b < 2 ^ 64"
    and "\<forall>p. x_open_fails X p \<or> x_read_fails X p \<longrightarrow> \<not> sublist ''content changed'' (show_path p)"
  shows "plan_mutations X fs root request \<noteq> None"
proof (cases "rq_root request = source_root_id_of root \<and> validate_shape request = Inr () \<and> invalid_paths request = []")
  case False
  then show ?thesis by (auto simp: plan_mutations_def split: sum.splits)
next
  case checked: True
  show ?thesis
  proof (cases "group_actions fs root request")
    case (Inl refusal)
    then show ?thesis using checked by (simp add: plan_mutations_def)
  next
    case g: (Inr g)
    then have gr: "grouped (rq_actions request) g" by (simp add: group_actions_Ok)
    note src = grouped_sources [OF gr] grouped_wf [OF gr]
    have total: "read_inputs X fs root g \<noteq> None"
      by (rule read_inputs_total) (use src checked assms(2) in \<open>auto simp: refusals_plain_def refused_file_def\<close>)
    have rest: "obind (omap_all (plan_source X inputs) (ga_sources g)) h \<noteq> None \<and> stale_inputs g inputs \<noteq> None"
      if "read_inputs X fs root g = Some (Inr inputs)" "\<And>files. h files \<noteq> None" for inputs h
    proof -
      have read: "\<exists>i. bt_get inputs s = Some i \<and> input_of X fs root s i" if "(s, op) \<in> set (ga_sources g)" for s op
        using inputs_read [OF src(3) _ \<open>read_inputs X fs root g = Some (Inr inputs)\<close> that] src(1) checked by auto
      have "stale_input_of inputs x \<noteq> None" if "x \<in> set (ga_sources g)" for x
        using read that by (cases x) (auto simp: stale_input_of_def)
      then have "stale_inputs g inputs \<noteq> None"
        using those_total [of "ga_sources g" "stale_input_of inputs"] by (simp add: stale_inputs_def)
      moreover have "plan_source X inputs x \<noteq> None" if x: "x \<in> set (ga_sources g)" for x
      proof -
        obtain s op where so: "x = (s, op)" by force
        obtain i where i: "bt_get inputs s = Some i" "input_of X fs root s i" using read x so by blast
        have "ranges_ok edits" if "op = OpReplace e edits" for e edits
          using operation_shaped [of "rq_root request" "rq_actions request" s e edits]
            grouped_target(1) [OF gr] x so that checked by (auto simp: validate_shape_Ok)
        then show ?thesis using plan_source_total [OF i _ assms(1)] so by blast
      qed
      then have "omap_all (plan_source X inputs) (ga_sources g) \<noteq> None" by (rule omap_all_no_panic)
      ultimately show ?thesis using that(2) by (auto simp: obind_eq_None)
    qed
    have inner: "(case stale_inputs g inputs of None \<Rightarrow> None
        | Some [] \<Rightarrow> obind (omap_all (plan_source X inputs) (ga_sources g)) (\<lambda>files. Some (Inr (q files)))
        | Some (s # ss) \<Rightarrow> Some (Inl (RefStale (s # ss)))) \<noteq> None"
      if "read_inputs X fs root g = Some (Inr inputs)" for inputs q
      using rest [OF that, of "\<lambda>files. Some (Inr (q files))"] by (auto split: option.splits list.splits)
    show ?thesis
    proof
      assume "plan_mutations X fs root request = None"
      then have "obind (read_inputs X fs root g) (\<lambda>inputs. case stale_inputs g inputs of None \<Rightarrow> None
          | Some [] \<Rightarrow> obind (omap_all (plan_source X inputs) (ga_sources g)) (\<lambda>files. Some (Inr
              \<lparr>mp_root = rq_root request, mp_files = sort_key planned_file_key (map (planned_create X) (ga_creates g) @ files)\<rparr>))
          | Some (s # ss) \<Rightarrow> Some (Inl (RefStale (s # ss)))) = None"
        using checked g by (simp add: plan_mutations_def)
      then obtain inputs where "read_inputs X fs root g = Some (Inr inputs)"
          "(case stale_inputs g inputs of None \<Rightarrow> None
          | Some [] \<Rightarrow> obind (omap_all (plan_source X inputs) (ga_sources g)) (\<lambda>files. Some (Inr
              \<lparr>mp_root = rq_root request, mp_files = sort_key planned_file_key (map (planned_create X) (ga_creates g) @ files)\<rparr>))
          | Some (s # ss) \<Rightarrow> Some (Inl (RefStale (s # ss)))) = None"
        using total unfolding obind_eq_None by blast
      then show False
        using inner [of inputs "\<lambda>files. \<lparr>mp_root = rq_root request,
          mp_files = sort_key planned_file_key (map (planned_create X) (ga_creates g) @ files)\<rparr>"] by blast
    qed
  qed
qed

lemma one_replace:
  assumes "rq_actions request = [ActReplace s e edits]"
  shows "group_actions fs root request = Inr \<lparr>ga_creates = [], ga_sources = [(s, OpReplace e edits)]\<rparr>"
  using assms by (simp add: group_actions_def move_destinations_def bt_keys_def bt_values_def)

text \<open>C18 -- The case left out panics: a request that replaces one file of a Git worktree, expecting a
  BLAKE3 identity, when the operating system refuses to open or to read that file and its path
  contains \<open>content changed\<close>. The reader's error names the path, the planner takes it for a changed
  blob, and the \<open>expect\<close> on the blob identity the producer expected fails.\<close>

theorem unreadable_source_panics:
  assumes "rq_root request = source_root_id_of (GitSource d repo)" "validate_shape request = Inr ()" "invalid_paths request = []"
    and act: "rq_actions request = [ActReplace (SourceGit s) (Blake3 c) edits]"
    and path: "p = join_path (join_path [] (repo_root repo)) (sr_path s)"
    and "lstat fs p = Inr (NFile b m)" and "x_open_fails X p \<or> x_read_fails X p"
    and "sublist ''content changed'' (show_path p)"
  shows "plan_mutations X fs (GitSource d repo) request = None"
proof -
  have sh: "source_of_root (source_root_id_of (GitSource d repo)) (SourceGit s)" "invalid_reason (sr_path s) = None"
    using assms(1-4) by (auto simp: validate_shape_Ok invalid_paths_Nil)
  then obtain w h q where s: "s = SourceRef (repo_identity repo) (RevWorktree (repo_worktree repo) h w) q" by auto
  have read: "open_and_read X fs p = (if x_open_fails X p then Inl (''open '' @ show_path p) else Inl (''read '' @ show_path p))"
    using open_and_read_refused [OF lstat_file_reads [OF assms(6)], of X] assms(7) by auto
  have ch: "sublist ''content changed'' (''open '' @ show_path p)" "sublist ''content changed'' (''read '' @ show_path p)"
    using assms(8) by (simp_all add: sublist_Cons_right)
  have one: "tree_read_one X fs repo \<lparr>rr_source = s, rr_expected = None\<rparr> =
      Inl ((if x_open_fails X p then ''open '' else ''read '') @ show_path p)"
    using relative_ok [OF sh(2)] s read path by (simp add: tree_read_one_def read_worktree_def)
  have mode: "direct_source_mode fs (GitSource d repo) (SourceGit s) = Inr \<lparr>fmo_readonly = mode_readonly m, fmo_unix_mode = Some m\<rparr>"
    using assms(6) path by (simp add: direct_source_mode_def direct_source_path_def root_base_def)
  show ?thesis
    using assms(1-3) ch mode one
    by (simp add: plan_mutations_def one_replace [OF act] read_inputs_def read_git_inputs_def bt_keys_def tree_read_each_def
        visit_each_def io_defs git_read_refusal_def expected_for_git_read_def obind_def)
qed

subsection \<open>Confinement\<close>

lemma relative_join:
  assumes "invalid_reason p = None"
  shows "join_path base p = base @ os_names p" "''..'' \<notin> set (os_names p)"
  using assms os_names_no_dotdot [of p] parent_dir_iff [of p]
  by (simp_all add: invalid_reason_None join_path_def)

lemma omap_all_source: "omap_all f xs = Some (Inr ys) \<Longrightarrow> y \<in> set ys \<Longrightarrow> \<exists>x \<in> set xs. f x = Some (Inr y)"
  unfolding omap_all_Ok by (metis in_set_conv_nth)

lemma omap_all_image: "omap_all f xs = Some (Inr ys) \<Longrightarrow> x \<in> set xs \<Longrightarrow> \<exists>y \<in> set ys. f x = Some (Inr y)"
  unfolding omap_all_Ok by (metis in_set_conv_nth)

lemma planned_paths:
  assumes "accepted X fs root request g inputs files" "f \<in> set (map (planned_create X) (ga_creates g) @ files)"
    "pf_path_before f = Some p \<or> pf_path_after f = Some p"
  shows "\<exists>a \<in> set (rq_actions request). p \<in> set (action_paths a)"
proof -
  have gr: "grouped (rq_actions request) g"
    using assms(1) by (simp add: accepted_def group_actions_Ok)
  show ?thesis
  proof (cases "f \<in> planned_create X ` set (ga_creates g)")
    case True
    then obtain q b where qb: "(q, b) \<in> set (ga_creates g)" "f = planned_create X (q, b)" by auto
    then have "p = q" using assms(3) by (simp add: planned_create_def)
    moreover have "map_of (created (rq_actions request)) q = Some b"
      using gr qb(1) bt_get_mem [of "ga_creates g" q b] by (simp add: grouped_def)
    ultimately obtain a where "a \<in> set (rq_actions request)" "a = ActCreate p b"
      by (auto simp: created_def split: source_action.splits dest!: map_of_SomeD)
    then show ?thesis by force
  next
    case False
    then have "f \<in> set files" using assms(2) by simp
    then obtain x where x: "x \<in> set (ga_sources g)" "plan_source X inputs x = Some (Inr f)"
      using assms(1) omap_all_source by (fastforce simp: accepted_def)
    obtain s op where so: "x = (s, op)" by force
    obtain a where a: "a \<in> set (rq_actions request)" "action_target a = Some s"
      using grouped_target(2) [OF gr] x so by blast
    have op: "operation_of (actions_on s (rq_actions request)) = Some op"
      using grouped_target(1) [OF gr] x so by blast
    have "p = source_path_of s \<or> (\<exists>e d. op = OpMove e d \<and> p = d)"
      using x(2) so assms(3)
      by (auto simp: plan_source_def planned_existing_def split: option.splits sum.splits source_operation.splits)
    then show ?thesis
    proof
      assume "p = source_path_of s"
      then show ?thesis using a target_path_checked by blast
    next
      assume "\<exists>e d. op = OpMove e d \<and> p = d"
      then obtain e where "op = OpMove e p" by blast
      then obtain s' rest where "actions_on s (rq_actions request) = ActMove s' e p # rest"
        using op by (cases "actions_on s (rq_actions request)"; cases "hd (actions_on s (rq_actions request))") auto
      then have "ActMove s' e p \<in> set (rq_actions request)"
        by (metis actions_on_mem list.set_intros(1))
      then show ?thesis by force
    qed
  qed
qed

lemma action_paths_of_root: "action_shaped rid a \<Longrightarrow> p \<in> set (action_paths a) \<Longrightarrow> path_of_root rid p"
  by (cases a; cases rid) auto

text \<open>Confinement: every path of an accepted plan is of the kind of its root, carries no line
  break, and joined to the root names a place below it: the root's own components followed by
  names none of which is \<open>..\<close>.\<close>

theorem plan_confined:
  assumes "plan_mutations X fs root request = Some (Inr plan)" and "f \<in> set (mp_files plan)"
    and "pf_path_before f = Some p \<or> pf_path_after f = Some p"
  shows "path_of_root (rq_root request) p \<and> ensure_line_safe (path_text p) = Inr () \<and>
    (\<exists>names. join_path (root_base root) (path_text p) = root_base root @ names \<and> ''..'' \<notin> set names)"
proof -
  obtain g inputs files where acc: "accepted X fs root request g inputs files"
      "f \<in> set (map (planned_create X) (ga_creates g) @ files)"
    using assms(1,2) by (auto simp: plan_accepted)
  obtain a where a: "a \<in> set (rq_actions request)" "p \<in> set (action_paths a)"
    using planned_paths [OF acc assms(3)] by blast
  have "invalid_reason (path_text p) = None" using acc(1) a by (auto simp: accepted_def invalid_paths_Nil)
  moreover have "path_of_root (rq_root request) p"
    using acc(1) a action_paths_of_root by (auto simp: accepted_def validate_shape_Ok list_all_iff)
  ultimately show ?thesis
    using relative_join(1) [of "path_text p" "root_base root"] relative_join(2) [of "path_text p"]
    by (auto simp: invalid_reason_None ensure_line_safe_def)
qed

end
