(* ===== verification/PlanExact.thy ===== *)
theory PlanExact
  imports PlanTheorems
begin

text \<open>
  The content of an accepted plan, its independence of the submission order, and how its outputs
  keep apart.
\<close>

subsection \<open>Exactness\<close>

fun action_expected :: "source_action \<Rightarrow> content_id option" where
  "action_expected (ActCreate p b) = None"
| "action_expected (ActReplace s e edits) = Some e"
| "action_expected (ActMove s e d) = Some e"
| "action_expected (ActDelete s e) = Some e"

fun output_of ::
  "('x) ext_scheme \<Rightarrow> action_source \<Rightarrow> source_input \<Rightarrow> source_operation \<Rightarrow> planned_file \<Rightarrow> bool" where
  "output_of X s i (OpReplace e edits) f \<longleftrightarrow> (\<exists>ns out. normalize_edits s edits (length (in_bytes i)) = Inr ns \<and>
     apply_edits (in_bytes i) ns = Some out \<and>
     f = planned_existing KReplace s i (Some (source_path_of s)) (Some (blake3_content X out)) (Some out) ns)"
| "output_of X s i (OpMove e d) f \<longleftrightarrow>
     f = planned_existing KMove s i (Some d) (Some (in_content i)) (Some (in_bytes i)) []"
| "output_of X s i (OpDelete e) f \<longleftrightarrow> f = planned_existing KDelete s i None None None []"

text \<open>The file the actions on one source ask for: computed from what is on disk now, which is what
  each of them expected.\<close>

definition planned_for ::
  "('x) ext_scheme \<Rightarrow> fs \<Rightarrow> source_root \<Rightarrow> source_action list \<Rightarrow> action_source \<Rightarrow> planned_file \<Rightarrow> bool" where
  "planned_for X fs root acts s f \<longleftrightarrow> (\<exists>i op. operation_of (actions_on s acts) = Some op \<and>
     input_of X fs root s i \<and> (\<forall>a \<in> set (actions_on s acts). action_expected a = Some (in_content i)) \<and>
     output_of X s i op f)"

lemma plan_source_Ok:
  "plan_source X inputs (s, op) = Some (Inr f) \<longleftrightarrow> (\<exists>i. bt_get inputs s = Some i \<and> output_of X s i op f)"
  by (cases op) (auto simp: plan_source_def split: option.splits sum.splits)

lemma go_together_expected:
  "go_together ops \<Longrightarrow> operation_of ops = Some op \<Longrightarrow> a \<in> set ops \<Longrightarrow> action_expected a = Some (expected_content op)"
proof -
  assume g: "go_together ops" and op: "operation_of ops = Some op" and a: "a \<in> set ops"
  show ?thesis
  proof (cases "length ops \<le> 1")
    case True
    then have "ops = [a]" using a by (cases ops) auto
    then show ?thesis using op by (cases a) auto
  next
    case False
    then obtain e where e: "\<forall>x \<in> set ops. \<exists>s edits. x = ActReplace s e edits" using g by (auto simp: go_together_def)
    then obtain s edits rest where "ops = ActReplace s e edits # rest" using a by (cases ops) auto
    then show ?thesis using op e a by auto
  qed
qed

lemma input_of_unique:
  "input_of X fs root s i \<Longrightarrow> input_of X fs root s j \<Longrightarrow> in_content i = in_content j \<Longrightarrow> i = j"
  by (cases i; cases j) (auto simp: input_of_def)

lemma output_of_source: "output_of X s i op f \<Longrightarrow> pf_source f = Some s"
  by (cases op) (auto simp: planned_existing_def)

lemma planned_for_unique:
  assumes "planned_for X fs root acts s f" "planned_for X fs root acts s f'"
  shows "f = f'"
proof -
  obtain i j op where ij: "operation_of (actions_on s acts) = Some op" "input_of X fs root s i" "input_of X fs root s j"
      "\<forall>a \<in> set (actions_on s acts). action_expected a = Some (in_content i)"
      "\<forall>a \<in> set (actions_on s acts). action_expected a = Some (in_content j)"
      "output_of X s i op f" "output_of X s j op f'"
    using assms unfolding planned_for_def by (elim exE conjE) simp
  have "actions_on s acts \<noteq> []" using ij(1) operation_of_None [of s acts] by auto
  then have "in_content i = in_content j" using ij(4,5) by (cases "actions_on s acts") auto
  then have "i = j" using input_of_unique ij(2,3) by blast
  then show ?thesis using ij(6,7) by (cases op) auto
qed

lemma stale_inputs_fresh:
  assumes "stale_inputs g inputs = Some []" "(s, op) \<in> set (ga_sources g)" "bt_get inputs s = Some i"
  shows "in_content i = expected_content op"
proof -
  obtain xs where xs: "those (map (stale_input_of inputs) (ga_sources g)) = Some xs" "concat xs = []"
    using assms(1) by (auto simp: stale_inputs_def)
  obtain x where "x \<in> set xs" "stale_input_of inputs (s, op) = Some x"
    using those_map_mem [OF xs(1) assms(2)] by blast
  then show ?thesis using xs(2) assms(3) by (auto simp: stale_input_of_def split: if_splits)
qed

lemma accepted_planned:
  assumes acc: "accepted X fs root request g inputs files"
  shows "f \<in> set files \<longleftrightarrow> (\<exists>s. planned_for X fs root (rq_actions request) s f)"
proof -
  let ?acts = "rq_actions request"
  have gr: "grouped ?acts g" and ag: "actions_agree ?acts"
    and fresh: "stale_inputs g inputs = Some []" and fl: "omap_all (plan_source X inputs) (ga_sources g) = Some (Inr files)"
    using acc by (auto simp: accepted_def group_actions_Ok)
  note wf = grouped_wf [OF gr]
  have read: "\<exists>i. bt_get inputs s = Some i \<and> input_of X fs root s i" if "(s, op) \<in> set (ga_sources g)" for s op
  proof (rule inputs_read [OF wf _ _ that])
    show "\<forall>s \<in> set (bt_keys (ga_sources g)). source_of_root (source_root_id_of root) s"
      using grouped_sources(1) [OF gr] acc by (auto simp: accepted_def)
    show "read_inputs X fs root g = Some (Inr inputs)" using acc by (simp add: accepted_def)
  qed
  have one: "(plan_source X inputs (s, op) = Some (Inr f)) = planned_for X fs root ?acts s f"
    if so: "(s, op) \<in> set (ga_sources g)" for s op f
  proof -
    obtain i where i: "bt_get inputs s = Some i" "input_of X fs root s i" using read [OF so] by blast
    have op: "operation_of (actions_on s ?acts) = Some op" by (rule grouped_target(1) [OF gr so])
    have e: "\<forall>a \<in> set (actions_on s ?acts). action_expected a = Some (in_content i)"
      using go_together_expected [OF _ op] ag stale_inputs_fresh [OF fresh so i(1)] by (auto simp: actions_agree_def)
    show ?thesis
    proof
      assume "plan_source X inputs (s, op) = Some (Inr f)"
      then show "planned_for X fs root ?acts s f"
        unfolding planned_for_def using i op e by (auto simp: plan_source_Ok)
    next
      assume p: "planned_for X fs root ?acts s f"
      then obtain j where j: "input_of X fs root s j" "output_of X s j op f"
          "\<forall>a \<in> set (actions_on s ?acts). action_expected a = Some (in_content j)"
        using op by (auto simp: planned_for_def)
      have "actions_on s ?acts \<noteq> []" using op operation_of_None [of s ?acts] by auto
      then have "in_content i = in_content j" using e j(3) by (cases "actions_on s ?acts") auto
      then have "i = j" using input_of_unique i(2) j(1) by blast
      then show "plan_source X inputs (s, op) = Some (Inr f)" using i j by (auto simp: plan_source_Ok)
    qed
  qed
  show ?thesis
  proof
    assume "f \<in> set files"
    then obtain x where "x \<in> set (ga_sources g)" "plan_source X inputs x = Some (Inr f)"
      using omap_all_source [OF fl] by blast
    then show "\<exists>s. planned_for X fs root ?acts s f" using one by (metis surj_pair)
  next
    assume "\<exists>s. planned_for X fs root ?acts s f"
    then obtain s where s: "planned_for X fs root ?acts s f" by blast
    then obtain op where "operation_of (actions_on s ?acts) = Some op" by (auto simp: planned_for_def)
    then have so: "(s, op) \<in> set (ga_sources g)" using gr bt_get_mem [OF wf] by (simp add: grouped_def)
    then obtain f' where "f' \<in> set files" "plan_source X inputs (s, op) = Some (Inr f')"
      using omap_all_image [OF fl] by blast
    then show "f \<in> set files" using one [OF so] s planned_for_unique [OF s] by blast
  qed
qed

lemma created_mem: "(p, b) \<in> set (created acts) \<longleftrightarrow> ActCreate p b \<in> set acts"
  by (force simp: created_def split: source_action.splits)

lemma accepted_creates:
  assumes "accepted X fs root request g inputs files"
  shows "(p, b) \<in> set (ga_creates g) \<longleftrightarrow> ActCreate p b \<in> set (rq_actions request)"
proof -
  have gr: "grouped (rq_actions request) g" and ag: "actions_agree (rq_actions request)"
    using assms by (auto simp: accepted_def group_actions_Ok)
  have "(p, b) \<in> set (ga_creates g) \<longleftrightarrow> map_of (created (rq_actions request)) p = Some b"
    using gr bt_get_mem [of "ga_creates g" p b] by (simp add: grouped_def)
  also have "\<dots> \<longleftrightarrow> (p, b) \<in> set (created (rq_actions request))"
    using ag by (auto simp: actions_agree_def intro: map_of_SomeD)
  finally show ?thesis by (simp add: created_mem)
qed

lemma accepted_distinct:
  assumes acc: "accepted X fs root request g inputs files"
  shows "distinct (map (planned_create X) (ga_creates g) @ files)"
proof -
  have gr: "grouped (rq_actions request) g"
    and fl: "omap_all (plan_source X inputs) (ga_sources g) = Some (Inr files)"
    using acc by (auto simp: accepted_def group_actions_Ok)
  have "distinct (ga_creates g)" using gr bt_wf_distinct distinct_map by (auto simp: grouped_def)
  then have c: "distinct (map (planned_create X) (ga_creates g))"
    by (auto simp: distinct_map inj_on_def planned_create_def)
  have srcs: "map pf_source files = map (Some \<circ> fst) (ga_sources g)"
  proof (rule nth_equalityI)
    show "length (map pf_source files) = length (map (Some \<circ> fst) (ga_sources g))"
      using fl by (simp add: omap_all_Ok)
    fix k assume k: "k < length (map pf_source files)"
    obtain s op where so: "ga_sources g ! k = (s, op)" by force
    have "plan_source X inputs (s, op) = Some (Inr (files ! k))"
      using fl k so by (auto simp: omap_all_Ok)
    then show "map pf_source files ! k = map (Some \<circ> fst) (ga_sources g) ! k"
      using k so fl output_of_source by (auto simp: plan_source_Ok omap_all_Ok)
  qed
  have "distinct (map (Some \<circ> fst) (ga_sources g))"
    using bt_wf_distinct [OF grouped_wf [OF gr]] by (auto simp: distinct_map inj_on_def)
  then have d: "distinct files" using srcs by (metis distinct_map)
  have "pf_source f \<noteq> None" if "f \<in> set files" for f
    using srcs that by (metis (no_types, lifting) comp_apply imageE list.set_map option.distinct(1) image_eqI)
  then have "set (map (planned_create X) (ga_creates g)) \<inter> set files = {}"
  proof -
    have "pf_source f = None" if "f \<in> set (map (planned_create X) (ga_creates g))" for f
      using that by (auto simp: planned_create_def)
    then show ?thesis using \<open>\<And>f. f \<in> set files \<Longrightarrow> pf_source f \<noteq> None\<close> by blast
  qed
  then show ?thesis using c d by simp
qed

text \<open>C7 -- Functional correctness of the planner: an accepted plan consists of exactly one file per
  created path, with the submitted bytes, and exactly one per source that is acted upon,
  computed from the bytes and the mode that are on disk, whose content is what every action on
  it expected; the files are in canonical order.\<close>

theorem plan_exact:
  assumes "plan_mutations X fs root request = Some (Inr plan)"
  shows "mp_root plan = source_root_id_of root \<and> distinct (mp_files plan) \<and>
    sorted (map planned_file_key (mp_files plan)) \<and>
    set (mp_files plan) = {planned_create X (p, b) | p b. ActCreate p b \<in> set (rq_actions request)} \<union>
      {f. \<exists>s. planned_for X fs root (rq_actions request) s f}"
proof -
  obtain g inputs files where acc: "accepted X fs root request g inputs files"
      and plan: "plan = \<lparr>mp_root = rq_root request,
        mp_files = sort_key planned_file_key (map (planned_create X) (ga_creates g) @ files)\<rparr>"
    using assms by (auto simp: plan_accepted)
  have "set (mp_files plan) = planned_create X ` set (ga_creates g) \<union> set files" by (simp add: plan)
  also have "planned_create X ` set (ga_creates g) = {planned_create X (p, b) | p b. ActCreate p b \<in> set (rq_actions request)}"
    using accepted_creates [OF acc] by (auto simp: image_iff)
  also have "set files = {f. \<exists>s. planned_for X fs root (rq_actions request) s f}"
    using accepted_planned [OF acc] by blast
  finally show ?thesis
    using acc accepted_distinct [OF acc] plan by (simp add: accepted_def del: set_map)
qed

end
