(* ===== verification/PlanOrder.thy ===== *)
theory PlanOrder
  imports PlanExact "HOL-Library.Multiset"
begin

text \<open>
  The order in which the actions were submitted is irrelevant to an accepted plan, and where its
  outputs can meet.
\<close>

subsection \<open>Submission order\<close>

text \<open>The same operation up to the order in which its edits were submitted.\<close>

fun same_operation :: "source_operation \<Rightarrow> source_operation \<Rightarrow> bool" where
  "same_operation (OpReplace e edits) op \<longleftrightarrow> (\<exists>edits'. op = OpReplace e edits' \<and> set edits' = set edits)"
| "same_operation op op' \<longleftrightarrow> op' = op"

abbreviation same_entry :: "action_source \<times> source_operation \<Rightarrow> action_source \<times> source_operation \<Rightarrow> bool" where
  "same_entry x y \<equiv> fst y = fst x \<and> same_operation (snd x) (snd y)"

definition same_groups :: "grouped_actions \<Rightarrow> grouped_actions \<Rightarrow> bool" where
  "same_groups g h \<longleftrightarrow> ga_creates h = ga_creates g \<and> list_all2 same_entry (ga_sources g) (ga_sources h)"

lemma same_operation_expected: "same_operation op op' \<Longrightarrow> expected_content op' = expected_content op"
  by (cases op) auto

lemma same_expected_for_git: "same_operation op op' \<Longrightarrow> expected_for_git_read op' = expected_for_git_read op"
  by (simp add: expected_for_git_read_def same_operation_expected)

lemma list_all2_map_eq:
  "list_all2 P xs ys \<Longrightarrow> (\<And>x y. P x y \<Longrightarrow> f y = f x) \<Longrightarrow> map f ys = map f xs"
  by (induction rule: list_all2_induct) auto

lemma same_map:
  assumes "same_groups g h" "\<And>x y. same_entry x y \<Longrightarrow> f y = f x"
  shows "map f (ga_sources h) = map f (ga_sources g)"
  by (rule list_all2_map_eq [where P = same_entry]) (use assms in \<open>auto simp: same_groups_def\<close>)

lemma same_keys: "same_groups g h \<Longrightarrow> bt_keys (ga_sources h) = bt_keys (ga_sources g)"
  unfolding bt_keys_def by (rule same_map) auto

lemma same_file_requests: "same_groups g h \<Longrightarrow> map file_request (ga_sources h) = map file_request (ga_sources g)"
proof (rule same_map)
  fix x y assume "same_entry x y"
  then show "file_request y = file_request x" by (cases x; cases y; cases "fst x") auto
qed

lemma same_tree_requests: "same_groups g h \<Longrightarrow> map tree_request (ga_sources h) = map tree_request (ga_sources g)"
proof (rule same_map)
  fix x y assume "same_entry x y"
  then show "tree_request y = tree_request x"
    by (cases x; cases y; cases "fst x") (auto simp: same_expected_for_git)
qed

lemma same_get:
  assumes "same_groups g h"
  shows "rel_option same_operation (bt_get (ga_sources g) s) (bt_get (ga_sources h) s)"
proof -
  have "list_all2 same_entry xs ys \<Longrightarrow> rel_option same_operation (map_of xs s) (map_of ys s)" for xs ys
    by (induction rule: list_all2_induct) auto
  then show ?thesis using assms by (simp add: same_groups_def)
qed

lemma same_git_refusal:
  assumes "same_groups g h"
  shows "git_read_refusal h s detail = git_read_refusal g s detail"
  using same_get [OF assms, of s] same_expected_for_git
  by (cases rule: option.rel_cases) (auto simp: git_read_refusal_def)

lemma same_read_inputs:
  assumes "same_groups g h"
  shows "read_inputs X fs root h = read_inputs X fs root g"
  unfolding read_inputs_def read_directory_inputs_def read_git_inputs_def
    same_keys [OF assms] same_file_requests [OF assms] same_tree_requests [OF assms] same_git_refusal [OF assms] ..

lemma same_stale_inputs:
  assumes "same_groups g h"
  shows "stale_inputs h inputs = stale_inputs g inputs"
proof -
  have "map (stale_input_of inputs) (ga_sources h) = map (stale_input_of inputs) (ga_sources g)"
  proof (rule same_map [OF assms])
    fix x y assume "same_entry x y"
    then have "fst y = fst x" "expected_content (snd y) = expected_content (snd x)"
      using same_operation_expected by auto
    then show "stale_input_of inputs y = stale_input_of inputs x"
      by (simp only: stale_input_of_def split_beta)
  qed
  then show ?thesis by (simp only: stale_inputs_def)
qed

lemma same_plan_source:
  assumes "same_entry x y"
  shows "plan_source X inputs y = plan_source X inputs x"
proof (cases "snd x")
  case (OpReplace e edits)
  then obtain edits' where e: "snd y = OpReplace e edits'" "set edits' = set edits" using assms by auto
  have "normalize_edits s edits' n = normalize_edits s edits n" for s n
    by (simp only: normalize_edits_def merge_edits_set_cong [OF e(2)])
  then show ?thesis using assms OpReplace e(1) by (cases x; cases y) (simp add: plan_source_def split: option.split)
qed (use assms in \<open>cases x; cases y; auto\<close>)+

lemma omap_all_map: "omap_all f xs = omap_all id (map f xs)"
  by (induction xs) simp_all

lemma same_plan_sources:
  assumes "same_groups g h"
  shows "omap_all (plan_source X inputs) (ga_sources h) = omap_all (plan_source X inputs) (ga_sources g)"
proof -
  have "map (plan_source X inputs) (ga_sources h) = map (plan_source X inputs) (ga_sources g)"
    by (rule same_map [OF assms same_plan_source])
  then show ?thesis using omap_all_map [of "plan_source X inputs"] by metis
qed

lemma same_destinations:
  assumes "same_groups g h"
  shows "destinations h = destinations g"
proof -
  have "map (\<lambda>x. case snd x of OpMove e d \<Rightarrow> [d] | _ \<Rightarrow> []) (ga_sources h) =
      map (\<lambda>x. case snd x of OpMove e d \<Rightarrow> [d] | _ \<Rightarrow> []) (ga_sources g)"
  proof (rule same_map [OF assms])
    fix x y assume "same_entry x y"
    then show "(case snd y of OpMove e d \<Rightarrow> [d] | _ \<Rightarrow> []) = (case snd x of OpMove e d \<Rightarrow> [d] | _ \<Rightarrow> [])"
      by (cases "snd x") auto
  qed
  then have "move_destinations (ga_sources h) = move_destinations (ga_sources g)"
    by (simp add: move_destinations_def bt_values_def comp_def)
  then show ?thesis using assms by (simp add: destinations_def same_groups_def)
qed

lemma operation_of_replacements:
  assumes "ops \<noteq> []" "\<forall>a \<in> set ops. \<exists>s edits. a = ActReplace s e edits"
  shows "operation_of ops = Some (OpReplace e (concat (map action_edits ops)))"
  using assms by (cases ops) auto

lemma operation_of_order:
  assumes m: "mset ops' = mset ops" and g: "go_together ops"
  shows "rel_option same_operation (operation_of ops) (operation_of ops')"
proof (cases "length ops \<le> 1")
  case True
  then have "ops' = ops" using m by (cases ops) (auto dest: mset_eq_length)
  moreover have "same_operation op op" for op by (cases op) auto
  ultimately show ?thesis by (simp add: option.rel_refl)
next
  case False
  then obtain e where e: "\<forall>a \<in> set ops. \<exists>s edits. a = ActReplace s e edits" using g by (auto simp: go_together_def)
  have s: "set ops' = set ops" using m by (rule mset_eq_setD)
  have "ops \<noteq> []" "ops' \<noteq> []" using False m by auto
  then show ?thesis using operation_of_replacements [of ops e] operation_of_replacements [of ops' e] e s by simp
qed

lemma go_together_order: "mset ops' = mset ops \<Longrightarrow> go_together ops \<Longrightarrow> go_together ops'"
  unfolding go_together_def using mset_eq_setD [of ops' ops] mset_eq_length [of ops' ops] by simp

lemma actions_on_order: "mset acts' = mset acts \<Longrightarrow> mset (actions_on s acts') = mset (actions_on s acts)"
  by (simp add: actions_on_def)

lemma created_order: "mset acts' = mset acts \<Longrightarrow> mset (created acts') = mset (created acts)"
  unfolding created_def mset_concat sum_mset_sum_list [symmetric] mset_map by (metis multiset.map_comp)

lemma actions_agree_order:
  assumes m: "mset acts' = mset acts" and a: "actions_agree acts"
  shows "actions_agree acts'"
proof -
  have "mset (map fst (created acts')) = mset (map fst (created acts))" using created_order [OF m] by simp
  then show ?thesis
    using a go_together_order [OF actions_on_order [OF m]] mset_eq_imp_distinct_iff unfolding actions_agree_def by metis
qed

lemma grouped_order:
  assumes m: "mset acts' = mset acts" and a: "actions_agree acts" and g: "grouped acts g" and h: "grouped acts' h"
  shows "same_groups g h"
proof -
  have d: "distinct (map fst (created acts))" "distinct (map fst (created acts'))"
    using a actions_agree_order [OF m a] by (auto simp: actions_agree_def)
  have "map_of (created acts') = map_of (created acts)"
    by (rule map_of_eqI) (use d created_order [OF m] in \<open>auto dest: mset_eq_setD simp: map_of_eq_Some_iff\<close>)
  then have c: "ga_creates h = ga_creates g" using g h by (intro bt_eqI) (auto simp: grouped_def)
  have r: "rel_option same_operation (bt_get (ga_sources g) s) (bt_get (ga_sources h) s)" for s
    using operation_of_order [OF actions_on_order [OF m, of s]] a g h by (simp add: grouped_def actions_agree_def)
  have wf: "bt_wf (ga_sources g)" "bt_wf (ga_sources h)" using g h by (auto simp: grouped_def)
  have k: "bt_keys (ga_sources h) = bt_keys (ga_sources g)"
  proof (rule sorted_distinct_set_unique)
    have "s \<in> set (bt_keys (ga_sources h)) \<longleftrightarrow> s \<in> set (bt_keys (ga_sources g))" for s
      using r [of s] by (cases rule: option.rel_cases)
        (auto simp: bt_keys_def map_of_eq_None_iff dest: map_of_SomeD intro: rev_image_eqI)
    then show "set (bt_keys (ga_sources h)) = set (bt_keys (ga_sources g))" by blast
  qed (use wf bt_wf_distinct in \<open>auto simp: bt_wf_def bt_keys_def strict_sorted_iff\<close>)
  have "list_all2 same_entry (ga_sources g) (ga_sources h)"
  proof (rule list_all2_all_nthI)
    show len: "length (ga_sources g) = length (ga_sources h)"
      using k unfolding bt_keys_def by (metis length_map)
    fix i assume i: "i < length (ga_sources g)"
    obtain s op where so: "ga_sources g ! i = (s, op)" by force
    obtain s' op' where so': "ga_sources h ! i = (s', op')" by force
    have "map fst (ga_sources h) ! i = map fst (ga_sources g) ! i" using k by (simp add: bt_keys_def)
    then have "s' = s" using i len so so' by simp
    moreover have "bt_get (ga_sources g) s = Some op" "bt_get (ga_sources h) s' = Some op'"
      using bt_get_mem [OF wf(1), of s op] bt_get_mem [OF wf(2), of s' op'] nth_mem i len so so' by metis+
    ultimately show "same_entry (ga_sources g ! i) (ga_sources h ! i)" using r [of s] so so' by simp
  qed
  then show ?thesis using c by (simp add: same_groups_def)
qed

lemma accepted_order:
  assumes acc: "accepted X fs root request g inputs files"
    and m: "mset (rq_actions request') = mset (rq_actions request)"
    and q: "rq_root request' = rq_root request" "rq_schema_version request' = rq_schema_version request"
  shows "\<exists>h. same_groups g h \<and> accepted X fs root request' h inputs files"
proof -
  have s: "set (rq_actions request') = set (rq_actions request)" using m by (rule mset_eq_setD)
  have ag: "actions_agree (rq_actions request)" and gr: "grouped (rq_actions request) g"
    and free: "destinations_free fs root g"
    using acc by (auto simp: accepted_def group_actions_Ok)
  have ag': "actions_agree (rq_actions request')" by (rule actions_agree_order [OF m ag])
  define h :: grouped_actions where "h = \<lparr>ga_creates = ga_creates (group_all (rq_actions request')),
    ga_sources = ga_sources (group_all (rq_actions request'))\<rparr>"
  have "grouped (rq_actions request') (group_all (rq_actions request'))"
    using group_all_iff [of "rq_actions request'"] ag' by simp
  then have gr': "grouped (rq_actions request') h" by (simp add: h_def grouped_def)
  have same: "same_groups g h" by (rule grouped_order [OF m ag gr gr'])
  have "destinations_free fs root h"
    using free unfolding destinations_free_def same_destinations [OF same] same_keys [OF same] .
  then have "group_actions fs root request' = Inr h" using ag' gr' by (simp add: group_actions_Ok)
  moreover have "validate_shape request' = Inr ()" "invalid_paths request' = []"
    using acc s q by (auto simp: accepted_def validate_shape_Ok invalid_paths_Nil list_all_iff)
  ultimately have "accepted X fs root request' h inputs files"
    using acc q unfolding accepted_def same_read_inputs [OF same] same_stale_inputs [OF same] same_plan_sources [OF same]
    by simp
  then show ?thesis using same by blast
qed

text \<open>C20 -- The plan does not depend on the order in which the actions of a request were submitted:
  the same actions in any order, against the same files, are accepted alike, with the same
  plan.\<close>

theorem plan_order_independent:
  assumes "plan_mutations X fs root request = Some (Inr plan)"
    and "mset (rq_actions request') = mset (rq_actions request)"
    and "rq_root request' = rq_root request" "rq_schema_version request' = rq_schema_version request"
  shows "plan_mutations X fs root request' = Some (Inr plan)"
proof -
  obtain g inputs files where acc: "accepted X fs root request g inputs files"
      and plan: "plan = \<lparr>mp_root = rq_root request,
        mp_files = sort_key planned_file_key (map (planned_create X) (ga_creates g) @ files)\<rparr>"
    using assms(1) by (auto simp: plan_accepted)
  obtain h where h: "same_groups g h" "accepted X fs root request' h inputs files"
    using accepted_order [OF acc assms(2,3,4)] by blast
  have "ga_creates h = ga_creates g" using h(1) by (simp add: same_groups_def)
  then show ?thesis unfolding plan_accepted using h(2) plan assms(3) by metis
qed

subsection \<open>Outputs keep apart\<close>

lemma distinct_concat_apart:
  "distinct (concat (map h xs)) \<Longrightarrow> x \<in> set xs \<Longrightarrow> y \<in> set xs \<Longrightarrow> x \<noteq> y \<Longrightarrow> set (h x) \<inter> set (h y) = {}"
  by (induction xs) auto

lemma move_destinations_apart:
  assumes "distinct (move_destinations m)" "(s, OpMove e d) \<in> set m" "(s', OpMove e' d) \<in> set m"
  shows "s = s' \<and> e = e'"
proof (rule ccontr)
  let ?h = "\<lambda>x. case snd x of OpMove e d \<Rightarrow> [d] | _ \<Rightarrow> []"
  assume "\<not> (s = s' \<and> e = e')"
  then have "set (?h (s, OpMove e d)) \<inter> set (?h (s', OpMove e' d)) = {}"
    using assms by (intro distinct_concat_apart [of ?h m]) (auto simp: move_destinations_def bt_values_def comp_def)
  then show False by simp
qed

text \<open>The provenance of a planned file.\<close>

lemma accepted_file:
  assumes acc: "accepted X fs root request g inputs files"
    and f: "f \<in> set (map (planned_create X) (ga_creates g) @ files)"
  obtains (created) p b where "(p, b) \<in> set (ga_creates g)" "f = planned_create X (p, b)"
  | (existing) s op i where "(s, op) \<in> set (ga_sources g)" "output_of X s i op f"
      "bt_get inputs s = Some i"
proof -
  have fl: "omap_all (plan_source X inputs) (ga_sources g) = Some (Inr files)" using acc by (simp add: accepted_def)
  consider "f \<in> planned_create X ` set (ga_creates g)" | "f \<in> set files" using f by auto
  then show thesis
  proof cases
    case 1
    then show thesis using created by auto
  next
    case 2
    then obtain x where "x \<in> set (ga_sources g)" "plan_source X inputs x = Some (Inr f)"
      using omap_all_source [OF fl] by blast
    then show thesis using existing by (metis plan_source_Ok surj_pair)
  qed
qed

lemma output_of_paths:
  "output_of X s i op f \<Longrightarrow> pf_path_before f = Some (source_path_of s) \<and>
     pf_path_after f = (case op of OpReplace e edits \<Rightarrow> Some (source_path_of s) | OpMove e d \<Rightarrow> Some d | OpDelete e \<Rightarrow> None) \<and>
     pf_kind f = (case op of OpReplace e edits \<Rightarrow> KReplace | OpMove e d \<Rightarrow> KMove | OpDelete e \<Rightarrow> KDelete)"
  by (cases op) (auto simp: planned_existing_def)

lemma output_of_functional: "output_of X s i op f \<Longrightarrow> output_of X s i op f' \<Longrightarrow> f = f'"
  by (cases op) auto

lemma accepted_destination_apart:
  assumes acc: "accepted X fs root request g inputs files"
    and f: "f \<in> set (map (planned_create X) (ga_creates g) @ files)"
    and f': "f' \<in> set (map (planned_create X) (ga_creates g) @ files)"
    and k: "pf_kind f \<in> {KCreate, KMove}" and d: "pf_path_after f = Some d"
  shows "\<not> destination_is_occupied fs root d \<and> pf_path_before f' \<noteq> Some d \<and> (pf_path_after f' = Some d \<longrightarrow> f' = f)"
proof -
  have gr: "grouped (rq_actions request) g" and free: "destinations_free fs root g"
    using acc by (auto simp: accepted_def group_actions_Ok)
  have dis: "distinct (bt_keys (ga_creates g))" "distinct (move_destinations (ga_sources g))"
      "set (bt_keys (ga_creates g)) \<inter> set (move_destinations (ga_sources g)) = {}"
    using free by (auto simp: destinations_free_def destinations_def)
  have mv: "d' \<in> set (move_destinations (ga_sources g))" if "(s, OpMove e d') \<in> set (ga_sources g)" for s e d'
    using that by (force simp: move_destinations_def bt_values_def)
  have key: "p \<in> set (bt_keys (ga_creates g))" if "(p, b) \<in> set (ga_creates g)" for p b
    using that by (force simp: bt_keys_def)
  have from_f: "(\<exists>b. (d, b) \<in> set (ga_creates g) \<and> f = planned_create X (d, b)) \<or>
      (\<exists>s e i. (s, OpMove e d) \<in> set (ga_sources g) \<and> output_of X s i (OpMove e d) f \<and> bt_get inputs s = Some i)"
    using acc f
  proof (cases rule: accepted_file)
    case (existing s op i)
    then show ?thesis using output_of_paths [OF existing(2)] k d by (cases op) auto
  qed (use d in \<open>auto simp: planned_create_def\<close>)
  then have dst: "d \<in> set (destinations g)" using mv key by (auto simp: destinations_def)
  have away: "d \<noteq> source_path_of s" if "(s, op) \<in> set (ga_sources g)" for s op
    using free dst that by (force simp: destinations_free_def bt_keys_def)
  show ?thesis
    using acc f'
  proof (cases rule: accepted_file)
    case (created p b)
    have "f' = f" if "p = d"
      using from_f created that dis(1,3) mv key by (auto simp: bt_keys_def dest: eq_key_imp_eq_value)
    then show ?thesis using free dst created by (auto simp: destinations_free_def planned_create_def)
  next
    case (existing s op i)
    note paths = output_of_paths [OF existing(2)]
    have "f' = f" if op: "op = OpMove e d" for e
    proof -
      have "d \<notin> set (bt_keys (ga_creates g))" using mv existing(1) op dis(3) by auto
      then obtain s' e' i' where s': "(s', OpMove e' d) \<in> set (ga_sources g)" "output_of X s' i' (OpMove e' d) f"
          "bt_get inputs s' = Some i'"
        using from_f key by blast
      then have "s' = s" "e' = e" using move_destinations_apart [OF dis(2), of s' e' d s e] existing(1) op by auto
      then show ?thesis using s' existing op by auto
    qed
    then show ?thesis
      using free dst paths away [OF existing(1)] by (cases op) (auto simp: destinations_free_def)
  qed
qed

lemma accepted_directory_apart:
  assumes acc: "accepted X fs (DirectorySource d) request g inputs files"
    and f: "f \<in> set (map (planned_create X) (ga_creates g) @ files)"
    and f': "f' \<in> set (map (planned_create X) (ga_creates g) @ files)"
    and same: "pf_path_before f = Some p" "pf_path_before f' = Some p"
  shows "f' = f"
proof -
  have gr: "grouped (rq_actions request) g" using acc by (auto simp: accepted_def group_actions_Ok)
  obtain s op i where s: "(s, op) \<in> set (ga_sources g)" "output_of X s i op f" "bt_get inputs s = Some i"
    using acc f by (cases rule: accepted_file) (use same in \<open>auto simp: planned_create_def\<close>)
  obtain s' op' i' where s': "(s', op') \<in> set (ga_sources g)" "output_of X s' i' op' f'" "bt_get inputs s' = Some i'"
    using acc f' by (cases rule: accepted_file) (use same in \<open>auto simp: planned_create_def\<close>)
  have k: "s \<in> set (bt_keys (ga_sources g))" "s' \<in> set (bt_keys (ga_sources g))"
    using s(1) s'(1) by (force simp: bt_keys_def)+
  have root: "source_of_root (source_root_id_of (DirectorySource d)) s" "source_of_root (source_root_id_of (DirectorySource d)) s'"
    using grouped_sources(1) [OF gr] k acc by (auto simp: accepted_def)
  have "source_path_of s = source_path_of s'"
    using output_of_paths [OF s(2)] output_of_paths [OF s'(2)] same by simp
  then have "s = s'" using root by auto
  then show ?thesis
    using s s' grouped_target(1) [OF gr s(1)] grouped_target(1) [OF gr s'(1)] output_of_functional by auto
qed

text \<open>C19 -- The outputs of an accepted plan keep apart: the destination of a creation or a move is
  free on disk, is no source of the plan and is the output of no other file; in a directory root
  no two files of the plan start from the same path, and no two end at the same one.\<close>

theorem plan_outputs_apart:
  assumes "plan_mutations X fs root request = Some (Inr plan)"
    and "f \<in> set (mp_files plan)" "f' \<in> set (mp_files plan)"
  shows "(pf_kind f \<in> {KCreate, KMove} \<and> pf_path_after f = Some d \<longrightarrow>
      \<not> destination_is_occupied fs root d \<and> pf_path_before f' \<noteq> Some d \<and> (pf_path_after f' = Some d \<longrightarrow> f' = f)) \<and>
    ((\<exists>dir. root = DirectorySource dir) \<and> f \<noteq> f' \<longrightarrow>
      (pf_path_before f = None \<or> pf_path_before f \<noteq> pf_path_before f') \<and>
      (pf_path_after f = None \<or> pf_path_after f \<noteq> pf_path_after f'))"
proof -
  obtain g inputs files where acc: "accepted X fs root request g inputs files"
      and plan: "plan = \<lparr>mp_root = rq_root request,
        mp_files = sort_key planned_file_key (map (planned_create X) (ga_creates g) @ files)\<rparr>"
    using assms(1) by (auto simp: plan_accepted)
  have m: "f \<in> set (map (planned_create X) (ga_creates g) @ files)" "f' \<in> set (map (planned_create X) (ga_creates g) @ files)"
    using assms(2,3) plan by auto
  note apart = accepted_destination_apart [OF acc m] accepted_destination_apart [OF acc m(2,1)]
  have before: "f' = f" if "root = DirectorySource dir" "pf_path_before f = Some p" "pf_path_before f' = Some p" for dir p
    using accepted_directory_apart [OF acc [unfolded that(1)] m that(2,3)] .
  have replaced: "pf_path_before h = pf_path_after h" if "h \<in> set (map (planned_create X) (ga_creates g) @ files)"
      "pf_kind h \<notin> {KCreate, KMove}" "pf_path_after h \<noteq> None" for h
    using acc that(1)
  proof (cases rule: accepted_file)
    case (existing s op i)
    then show ?thesis using output_of_paths [OF existing(2)] that by (cases op) auto
  qed (use that in \<open>auto simp: planned_create_def\<close>)
  have after: "f' = f" if "root = DirectorySource dir" "pf_path_after f = Some p" "pf_path_after f' = Some p" for dir p
    using apart that before replaced m by (metis option.distinct(1))
  show ?thesis using apart before after by (metis option.exhaust)
qed

subsection \<open>One file at two revisions\<close>

lemma operation_of_replace:
  assumes "go_together ops" "ActReplace s e edits \<in> set ops"
  shows "\<exists>e edits. operation_of ops = Some (OpReplace e edits)"
proof (cases ops)
  case (Cons a rest)
  have "\<exists>s e edits. a = ActReplace s e edits"
    using assms Cons by (auto simp: go_together_def)
  then show ?thesis using Cons by auto
qed (use assms in simp)

lemma replaced_file:
  assumes acc: "accepted X fs root request g inputs files"
    and a: "ActReplace s e edits \<in> set (rq_actions request)"
  shows "\<exists>f i. f \<in> set files \<and> pf_source f = Some s \<and> pf_kind f = KReplace \<and> pf_path_after f = Some (source_path_of s) \<and>
    input_of X fs root s i \<and> pf_bytes_before f = Some (in_bytes i)"
proof -
  have checks: "validate_shape request = Inr ()" "invalid_paths request = []" "rq_root request = source_root_id_of root"
    and g: "grouped (rq_actions request) g" and together: "go_together (actions_on s (rq_actions request))"
    and read: "read_inputs X fs root g = Some (Inr inputs)"
    and files: "omap_all (plan_source X inputs) (ga_sources g) = Some (Inr files)"
    using acc by (auto simp: accepted_def group_actions_Ok actions_agree_def)
  have "ActReplace s e edits \<in> set (actions_on s (rq_actions request))" using a by (simp add: actions_on_mem)
  then obtain e' es where "operation_of (actions_on s (rq_actions request)) = Some (OpReplace e' es)"
    using operation_of_replace [OF together] by blast
  then have so: "(s, OpReplace e' es) \<in> set (ga_sources g)"
    using g bt_get_mem [of "ga_sources g" s] by (simp add: grouped_def)
  have "\<forall>s \<in> set (bt_keys (ga_sources g)). source_of_root (source_root_id_of root) s"
    using grouped_sources(1) [OF g checks(1,2)] checks(3) by auto
  then obtain i where i: "bt_get inputs s = Some i" "input_of X fs root s i"
    using inputs_read [OF grouped_wf [OF g] _ read so] by blast
  obtain f where f: "f \<in> set files" "plan_source X inputs (s, OpReplace e' es) = Some (Inr f)"
    using omap_all_image [OF files so] by blast
  then have out: "output_of X s i (OpReplace e' es) f" using i by (simp add: plan_source_Ok)
  then have "pf_bytes_before f = Some (in_bytes i)" by (auto simp: planned_existing_def)
  then show ?thesis using f(1) i(2) output_of_source [OF out] output_of_paths [OF out] by auto
qed

text \<open>C21 -- In a Git root the planner groups by the whole source reference, revision included, and
  never compares a recorded revision with the worktree. So whenever it accepts a request with
  two replacements of one worktree file whose producers recorded different heads or dirty
  flags, it has neither merged nor refused them: the plan has two different outputs at the same
  path, each computed from the same bytes without the other's edits.\<close>

theorem stale_revision_splits_source:
  assumes "plan_mutations X fs root request = Some (Inr plan)"
    and "ActReplace (SourceGit (SourceRef r (RevWorktree w h d) p)) e edits \<in> set (rq_actions request)"
    and "ActReplace (SourceGit (SourceRef r (RevWorktree w h' d') p)) e' edits' \<in> set (rq_actions request)"
    and "(h, d) \<noteq> (h', d')"
  shows "\<exists>f f' b. {f, f'} \<subseteq> set (mp_files plan) \<and> f \<noteq> f' \<and> pf_kind f = KReplace \<and> pf_kind f' = KReplace \<and>
    pf_path_after f = Some (PathGit p) \<and> pf_path_after f' = Some (PathGit p) \<and>
    pf_bytes_before f = Some b \<and> pf_bytes_before f' = Some b"
proof -
  let ?s = "SourceGit (SourceRef r (RevWorktree w h d) p)" and ?s' = "SourceGit (SourceRef r (RevWorktree w h' d') p)"
  obtain g inputs files where acc: "accepted X fs root request g inputs files"
      and plan: "plan = \<lparr>mp_root = rq_root request,
        mp_files = sort_key planned_file_key (map (planned_create X) (ga_creates g) @ files)\<rparr>"
    using assms(1) by (auto simp: plan_accepted)
  obtain f i where f: "f \<in> set files" "pf_source f = Some ?s" "pf_kind f = KReplace" "pf_path_after f = Some (PathGit p)"
      "input_of X fs root ?s i" "pf_bytes_before f = Some (in_bytes i)"
    using replaced_file [OF acc assms(2)] by auto
  obtain f' j where f': "f' \<in> set files" "pf_source f' = Some ?s'" "pf_kind f' = KReplace" "pf_path_after f' = Some (PathGit p)"
      "input_of X fs root ?s' j" "pf_bytes_before f' = Some (in_bytes j)"
    using replaced_file [OF acc assms(3)] by auto
  have "in_bytes i = in_bytes j" using f(5) f'(5) by (auto simp: input_of_def source_file_def)
  moreover have "f \<noteq> f'" using f(2) f'(2) assms(4) by auto
  ultimately show ?thesis using f f' plan by auto
qed

end
