(* ===== verification/StageStore.thy ===== *)
theory StageStore
  imports External Edits
begin

text \<open>
  Sealed stages and their stores, \<open>soopy/src/_7e_stage_store.rs\<close>: \<open>seal_plan\<close> turns a planner
  result into a content-addressed transaction, whose identity is the digest of its canonical
  bytes; \<open>mem_*\<close> is \<open>InMemoryStageStore\<close>, \<open>dss_*\<close> is \<open>DurableStageStore\<close> over the file system of
  \<open>FileSystem\<close>. The serde encodings and the unified diff of \<open>diffy\<close> are fields of \<open>stage_ext\<close>.
  An \<open>anyhow::Error\<close> is its outermost message.
\<close>

type_synonym stage_id = digest
type_synonym staged_content_id = digest

subsection \<open>Data\<close>

record staged_file =
  sf_kind :: planned_file_kind
  sf_source :: "action_source option"
  sf_path_before :: "source_path option"
  sf_path_after :: "source_path option"
  sf_content_before :: "content_id option"
  sf_content_after :: "content_id option"
  sf_mode_before :: "file_mode_observation option"
  sf_staged_bytes :: "staged_content_id option"
  sf_edits :: "normalized_edit list"
  sf_bytes_after :: "bytes option"

record file_preview =
  fp_kind :: planned_file_kind
  fp_path_before :: "source_path option"
  fp_path_after :: "source_path option"
  fp_summary :: string
  fp_unified :: "string option"
  fp_binary :: bool
  fp_before_bytes :: u64
  fp_after_bytes :: u64

record staged_transaction =
  st_id :: stage_id
  st_root :: source_root_id
  st_files :: "staged_file list"
  st_previews :: "file_preview list"

record identity_file =
  if_kind :: planned_file_kind
  if_source :: "action_source option"
  if_path_before :: "source_path option"
  if_path_after :: "source_path option"
  if_content_before :: "content_id option"
  if_content_after :: "content_id option"
  if_mode_before :: "file_mode_observation option"
  if_staged_bytes :: "staged_content_id option"
  if_edits :: "normalized_edit list"

record stage_identity =
  si_schema_version :: u32
  si_root :: source_root_id
  si_files :: "identity_file list"

record stored_manifest =
  sm_schema_version :: u32
  sm_id :: stage_id
  sm_identity :: bytes
  sm_root :: source_root_id
  sm_files :: "staged_file list"
  sm_previews :: "file_preview list"

record cleanup_policy =
  cp_retain :: "stage_id btset"
  cp_remove_manifests :: bool
  cp_remove_unreferenced_blobs :: bool

record stage_ext = ext +
  x_enc_identity :: "stage_identity \<Rightarrow> bytes"
  x_enc_manifest :: "stored_manifest \<Rightarrow> bytes"
  x_dec_manifest :: "bytes \<Rightarrow> stored_manifest option"
  x_unified :: "bytes \<Rightarrow> bytes \<Rightarrow> string"

definition STAGE_STORE_SCHEMA_VERSION :: u32 where "STAGE_STORE_SCHEMA_VERSION = 1"

subsection \<open>Sealing\<close>

definition identity_file_of :: "staged_file \<Rightarrow> identity_file" where
  "identity_file_of f =
     \<lparr>if_kind = sf_kind f, if_source = sf_source f, if_path_before = sf_path_before f,
      if_path_after = sf_path_after f, if_content_before = sf_content_before f,
      if_content_after = sf_content_after f, if_mode_before = sf_mode_before f,
      if_staged_bytes = sf_staged_bytes f, if_edits = sf_edits f\<rparr>"

type_synonym stage_sort_key = "source_path option \<times> source_path option \<times> planned_file_kind"

definition identity_key :: "identity_file \<Rightarrow> stage_sort_key" where
  "identity_key f = (if_path_after f, if_path_before f, if_kind f)"

definition staged_key :: "staged_file \<Rightarrow> stage_sort_key" where
  "staged_key f = (sf_path_after f, sf_path_before f, sf_kind f)"

definition identity_bytes :: "('x) stage_ext_scheme \<Rightarrow> source_root_id \<Rightarrow> staged_file list \<Rightarrow> bytes" where
  "identity_bytes X root files =
     x_enc_identity X
       \<lparr>si_schema_version = STAGE_STORE_SCHEMA_VERSION, si_root = root,
        si_files = sort_key identity_key (map identity_file_of files)\<rparr>"

definition preview_summary ::
  "planned_file_kind \<Rightarrow> source_path option \<Rightarrow> source_path option \<Rightarrow> nat \<Rightarrow> string" where
  "preview_summary kind before after n =
     (case (before, after, kind) of
        (_, Some path, KCreate) \<Rightarrow> ''create '' @ path_text path @ '' ('' @ show_nat n @ '' bytes)''
      | (Some path, _, KDelete) \<Rightarrow> ''delete '' @ path_text path
      | (Some src, Some dst, KMove) \<Rightarrow>
          ''move '' @ path_text src @ '' -> '' @ path_text dst @ '' ('' @ show_nat n @ '' bytes)''
      | (_, Some path, _) \<Rightarrow> ''update '' @ path_text path @ '' ('' @ show_nat n @ '' bytes)''
      | _ \<Rightarrow> ''empty staged operation'')"

definition preview ::
  "('x) stage_ext_scheme \<Rightarrow> planned_file_kind \<Rightarrow> source_path option \<Rightarrow> source_path option \<Rightarrow>
     bytes option \<Rightarrow> bytes option \<Rightarrow> file_preview" where
  "preview X kind path_before path_after before after =
     (let b = (case before of None \<Rightarrow> [] | Some x \<Rightarrow> x);
          a = (case after of None \<Rightarrow> [] | Some x \<Rightarrow> x);
          binary = (\<not> utf8_valid b \<or> \<not> utf8_valid a)
      in \<lparr>fp_kind = kind, fp_path_before = path_before, fp_path_after = path_after,
          fp_summary = preview_summary kind path_before path_after (length a),
          fp_unified = (if binary then None else Some (x_unified X b a)),
          fp_binary = binary, fp_before_bytes = len64 b, fp_after_bytes = len64 a\<rparr>)"

definition staged_of :: "('x) stage_ext_scheme \<Rightarrow> planned_file \<Rightarrow> staged_file" where
  "staged_of X f =
     \<lparr>sf_kind = pf_kind f, sf_source = pf_source f, sf_path_before = pf_path_before f,
      sf_path_after = pf_path_after f, sf_content_before = pf_content_before f,
      sf_content_after = pf_content_after f, sf_mode_before = pf_mode_before f,
      sf_staged_bytes = map_option (x_hash X) (pf_bytes_after f), sf_edits = pf_edits f,
      sf_bytes_after = None\<rparr>"

definition preview_of :: "('x) stage_ext_scheme \<Rightarrow> planned_file \<Rightarrow> file_preview" where
  "preview_of X f =
     preview X (pf_kind f) (pf_path_before f) (pf_path_after f) (pf_bytes_before f) (pf_bytes_after f)"

definition plan_blobs :: "('x) stage_ext_scheme \<Rightarrow> mutation_plan \<Rightarrow> (staged_content_id \<times> bytes) list" where
  "plan_blobs X plan =
     concat (map (\<lambda>f. case pf_bytes_after f of None \<Rightarrow> [] | Some b \<Rightarrow> [(x_hash X b, b)]) (mp_files plan))"

definition seal_plan ::
  "('x) stage_ext_scheme \<Rightarrow> mutation_plan \<Rightarrow>
     staged_transaction \<times> (staged_content_id \<times> bytes) list" where
  "seal_plan X plan =
     (let pairs = sort_key (\<lambda>(f, _). staged_key f)
            (zip (map (staged_of X) (mp_files plan)) (map (preview_of X) (mp_files plan)));
          files = map fst pairs
      in (\<lparr>st_id = x_hash X (identity_bytes X (mp_root plan) files), st_root = mp_root plan,
           st_files = files, st_previews = map snd pairs\<rparr>,
          plan_blobs X plan))"

definition canonical_manifest_bytes :: "('x) stage_ext_scheme \<Rightarrow> staged_transaction \<Rightarrow> bytes" where
  "canonical_manifest_bytes X t = identity_bytes X (st_root t) (st_files t)"

definition recompute_id :: "('x) stage_ext_scheme \<Rightarrow> staged_transaction \<Rightarrow> stage_id" where
  "recompute_id X t = x_hash X (canonical_manifest_bytes X t)"

subsection \<open>The store in memory\<close>

record mem_store =
  ms_stages :: "(stage_id, staged_transaction) btree"
  ms_blobs :: "(staged_content_id, bytes) btree"

definition mem_new :: mem_store where
  "mem_new = \<lparr>ms_stages = [], ms_blobs = []\<rparr>"

definition or_insert :: "'k::linorder \<Rightarrow> 'v \<Rightarrow> ('k, 'v) btree \<Rightarrow> ('k, 'v) btree" where
  "or_insert k v m = (case bt_get m k of None \<Rightarrow> bt_insert k v m | Some u \<Rightarrow> m)"

definition mem_save ::
  "('x) stage_ext_scheme \<Rightarrow> mutation_plan \<Rightarrow> (mem_store, string, staged_transaction) stm" where
  "mem_save X plan = (\<lambda>s.
     let (t, blobs) = seal_plan X plan
     in (Inr t, \<lparr>ms_stages = bt_insert (st_id t) t (ms_stages s),
                 ms_blobs = foldl (\<lambda>m (i, b). or_insert i b m) (ms_blobs s) blobs\<rparr>))"

definition mem_load_file ::
  "(staged_content_id, bytes) btree \<Rightarrow> staged_file \<Rightarrow> string + staged_file" where
  "mem_load_file blobs f =
     (case sf_staged_bytes f of
        None \<Rightarrow> Inr f
      | Some blob \<Rightarrow>
          (case bt_get blobs blob of
             None \<Rightarrow> Inl ''missing staged blob''
           | Some b \<Rightarrow> Inr (f\<lparr>sf_bytes_after := Some b\<rparr>)))"

definition mem_load ::
  "stage_id \<Rightarrow> (mem_store, string, staged_transaction option) stm" where
  "mem_load i = io_read (\<lambda>s. case bt_get (ms_stages s) i of
       None \<Rightarrow> Inr None
     | Some t \<Rightarrow> rbind (rmap_all (mem_load_file (ms_blobs s)) (st_files t))
         (\<lambda>fs. Inr (Some (t\<lparr>st_files := fs\<rparr>))))"

definition mem_discard :: "stage_id \<Rightarrow> (mem_store, string, bool) stm" where
  "mem_discard i = (\<lambda>s.
     (Inr (bt_get (ms_stages s) i \<noteq> None), s\<lparr>ms_stages := bt_remove i (ms_stages s)\<rparr>))"

definition mem_referenced :: "mem_store \<Rightarrow> staged_content_id btset" where
  "mem_referenced s =
     bs_collect (concat (map (\<lambda>t. List.map_filter sf_staged_bytes (st_files t)) (bt_values (ms_stages s))))"

definition mem_clean_manifests :: "cleanup_policy \<Rightarrow> mem_store \<Rightarrow> nat \<times> mem_store" where
  "mem_clean_manifests policy s =
     (let ids = filter (\<lambda>i. i \<notin> set (cp_retain policy)) (bt_keys (ms_stages s))
      in (length ids, s\<lparr>ms_stages := foldl (\<lambda>m i. bt_remove i m) (ms_stages s) ids\<rparr>))"

definition mem_clean_blobs :: "mem_store \<Rightarrow> nat \<times> mem_store" where
  "mem_clean_blobs s =
     (let referenced = mem_referenced s;
          ids = filter (\<lambda>i. i \<notin> set referenced) (bt_keys (ms_blobs s))
      in (length ids, s\<lparr>ms_blobs := foldl (\<lambda>m i. bt_remove i m) (ms_blobs s) ids\<rparr>))"

definition mem_cleanup :: "cleanup_policy \<Rightarrow> (mem_store, string, nat) stm" where
  "mem_cleanup policy = (\<lambda>s.
     let (n1, s1) = (if cp_remove_manifests policy then mem_clean_manifests policy s else (0, s));
         (n2, s2) = (if cp_remove_unreferenced_blobs policy then mem_clean_blobs s1 else (0, s1))
     in (Inr (n1 + n2), s2))"

definition mem_stage_count :: "mem_store \<Rightarrow> nat" where
  "mem_stage_count s = length (bt_keys (ms_stages s))"

definition mem_blob_count :: "mem_store \<Rightarrow> nat" where
  "mem_blob_count s = length (bt_keys (ms_blobs s))"

definition mem_blob_bytes :: "mem_store \<Rightarrow> staged_content_id \<Rightarrow> bytes option" where
  "mem_blob_bytes s i = bt_get (ms_blobs s) i"

subsection \<open>The durable store\<close>

record durable_store =
  ds_root :: apath

type_synonym 'a sio = "(world, string, 'a) stm"

definition dss_blobs_dir :: "durable_store \<Rightarrow> apath" where
  "dss_blobs_dir d = join_path (ds_root d) ''blobs''"

definition dss_manifests_dir :: "durable_store \<Rightarrow> apath" where
  "dss_manifests_dir d = join_path (ds_root d) ''manifests''"

definition dss_blob_path :: "('x) ext_scheme \<Rightarrow> durable_store \<Rightarrow> staged_content_id \<Rightarrow> apath" where
  "dss_blob_path X d i = join_path (join_path (ds_root d) ''blobs'') (x_hex X i)"

definition dss_manifest_path :: "('x) ext_scheme \<Rightarrow> durable_store \<Rightarrow> stage_id \<Rightarrow> apath" where
  "dss_manifest_path X d i = join_path (join_path (ds_root d) ''manifests'') (x_hex X i @ ''.json'')"

definition dss_open :: "apath \<Rightarrow> durable_store sio" where
  "dss_open root =
     io_map_err io_text
       (io_bind (create_dir_all (join_path root ''blobs'')) (\<lambda>_.
        io_bind (create_dir_all (join_path root ''manifests'')) (\<lambda>_.
        io_ok \<lparr>ds_root = root\<rparr>)))"

definition blob_matches :: "('x) ext_scheme \<Rightarrow> apath \<Rightarrow> digest \<Rightarrow> world \<Rightarrow> string + bool" where
  "blob_matches X p i w =
     rbind (map_err (\<lambda>_. ''read existing staged blob '' @ show_path p) (fs_read (w_fs w) p))
       (\<lambda>b. Inr (x_hash X b = i))"

text \<open>One blob of \<open>save\<close>: skipped when present and intact, else published; says whether it was.\<close>

definition dss_save_blob ::
  "('x) ext_scheme \<Rightarrow> durable_store \<Rightarrow> staged_content_id \<times> bytes \<Rightarrow> bool sio" where
  "dss_save_blob X d = (\<lambda>(i, b).
     let target = dss_blob_path X d i
     in io_bind
          (io_read (\<lambda>w. if path_exists (w_fs w) target then blob_matches X target i w else Inr False))
          (\<lambda>present. if present then io_ok False
             else io_bind
               (io_map_err (\<lambda>_. ''create staged blob '' @ show_path target)
                 (publish_file target b SyncData id))
               (\<lambda>_. io_ok True)))"

fun dss_save_blobs ::
  "('x) ext_scheme \<Rightarrow> durable_store \<Rightarrow> (staged_content_id \<times> bytes) list \<Rightarrow> bool \<Rightarrow> bool sio" where
  "dss_save_blobs X d [] published = io_ok published"
| "dss_save_blobs X d (ib # rest) published =
     io_bind (dss_save_blob X d ib) (\<lambda>p. dss_save_blobs X d rest (published \<or> p))"

definition manifest_of :: "('x) stage_ext_scheme \<Rightarrow> staged_transaction \<Rightarrow> stored_manifest" where
  "manifest_of X t =
     \<lparr>sm_schema_version = STAGE_STORE_SCHEMA_VERSION, sm_id = st_id t,
      sm_identity = identity_bytes X (st_root t) (st_files t), sm_root = st_root t,
      sm_files = st_files t, sm_previews = st_previews t\<rparr>"

definition dss_save ::
  "('x) stage_ext_scheme \<Rightarrow> durable_store \<Rightarrow> mutation_plan \<Rightarrow> staged_transaction sio" where
  "dss_save X d plan =
     (let (t, blobs) = seal_plan X plan
      in io_bind (dss_save_blobs X d blobs False) (\<lambda>published.
         io_bind (if published then io_map_err io_text (sync_directory (dss_blobs_dir d) SyncFence)
                  else io_ok ()) (\<lambda>_.
         io_bind (io_map_err io_text
           (publish_file (dss_manifest_path X d (st_id t)) (x_enc_manifest X (manifest_of X t)) SyncData id)) (\<lambda>_.
         io_bind (io_map_err io_text (sync_directory (dss_manifests_dir d) SyncFlush)) (\<lambda>_.
         io_ok t)))))"

definition dss_load_file ::
  "('x) ext_scheme \<Rightarrow> durable_store \<Rightarrow> fs \<Rightarrow> staged_file \<Rightarrow> string + staged_file" where
  "dss_load_file X d fs f =
     (case sf_staged_bytes f of
        None \<Rightarrow> Inr f
      | Some blob \<Rightarrow>
          rbind (map_err (\<lambda>_. ''read staged blob '' @ x_hex X blob) (fs_read fs (dss_blob_path X d blob)))
            (\<lambda>b. if x_hash X b \<noteq> blob then Inl ''staged blob digest mismatch''
                 else Inr (f\<lparr>sf_bytes_after := Some b\<rparr>)))"

definition dss_load_manifest ::
  "('x) stage_ext_scheme \<Rightarrow> durable_store \<Rightarrow> stage_id \<Rightarrow> fs \<Rightarrow> stored_manifest \<Rightarrow>
     string + staged_transaction option" where
  "dss_load_manifest X d i fs m =
     (if sm_schema_version m \<noteq> STAGE_STORE_SCHEMA_VERSION \<or> sm_id m \<noteq> i
      then Inl ''invalid stage manifest identity''
      else if x_hash X (sm_identity m) \<noteq> i then Inl ''stage manifest digest mismatch''
      else if identity_bytes X (sm_root m) (sm_files m) \<noteq> sm_identity m
      then Inl ''stage manifest identity bytes mismatch''
      else rbind (rmap_all (dss_load_file X d fs) (sm_files m)) (\<lambda>files.
        Inr (Some \<lparr>st_id = i, st_root = sm_root m, st_files = files, st_previews = sm_previews m\<rparr>)))"

definition dss_load ::
  "('x) stage_ext_scheme \<Rightarrow> durable_store \<Rightarrow> stage_id \<Rightarrow> staged_transaction option sio" where
  "dss_load X d i = io_read (\<lambda>w.
     let path = dss_manifest_path X d i
     in if \<not> path_exists (w_fs w) path then Inr None
        else rbind (map_err io_text (fs_read (w_fs w) path)) (\<lambda>b.
          rbind (ok_or ''decode stage manifest'' (x_dec_manifest X b)) (\<lambda>m.
            dss_load_manifest X d i (w_fs w) m)))"

definition dss_discard :: "('x) ext_scheme \<Rightarrow> durable_store \<Rightarrow> stage_id \<Rightarrow> bool sio" where
  "dss_discard X d i = (\<lambda>w.
     let path = dss_manifest_path X d i
     in if \<not> path_exists (w_fs w) path then (Inr False, w)
        else io_map_err io_text
          (io_bind (fs_remove_file path) (\<lambda>_.
           io_bind (sync_directory (dss_manifests_dir d) SyncFlush) (\<lambda>_.
           io_ok True))) w)"

definition strip_suffix :: "string \<Rightarrow> string \<Rightarrow> string option" where
  "strip_suffix suf s = (if suffix suf s then Some (take (length s - length suf) s) else None)"

text \<open>\<open>StageId::from_str\<close> and \<open>StagedContentId::from_str\<close>, the error text dropped.\<close>

definition stage_id_from_str :: "('x) ext_scheme \<Rightarrow> string \<Rightarrow> stage_id option" where
  "stage_id_from_str X s = x_from_hex X s"

text \<open>One entry of the manifest sweep and of the blob sweep: was it removed?\<close>

definition dss_sweep_manifest ::
  "('x) ext_scheme \<Rightarrow> durable_store \<Rightarrow> cleanup_policy \<Rightarrow> string \<Rightarrow> nat sio" where
  "dss_sweep_manifest X d policy name =
     (case strip_suffix ''.json'' name of
        None \<Rightarrow> io_ok 0
      | Some hex \<Rightarrow>
          (case stage_id_from_str X hex of
             None \<Rightarrow> io_ok 0
           | Some i \<Rightarrow>
               (if i \<in> set (cp_retain policy) then io_ok 0
                else io_bind (io_map_err io_text (fs_remove_file (join_path (dss_manifests_dir d) name)))
                  (\<lambda>_. io_ok 1))))"

definition dss_sweep_blob ::
  "('x) ext_scheme \<Rightarrow> durable_store \<Rightarrow> staged_content_id btset \<Rightarrow> string \<Rightarrow> nat sio" where
  "dss_sweep_blob X d referenced name =
     (case x_from_hex X name of
        None \<Rightarrow> io_ok 0
      | Some i \<Rightarrow>
          (if i \<in> set referenced then io_ok 0
           else io_bind (io_map_err io_text (fs_remove_file (join_path (dss_blobs_dir d) name)))
             (\<lambda>_. io_ok 1)))"

fun sweep :: "(string \<Rightarrow> nat sio) \<Rightarrow> string list \<Rightarrow> nat \<Rightarrow> nat sio" where
  "sweep f [] n = io_ok n"
| "sweep f (x # xs) n = io_bind (f x) (\<lambda>k. sweep f xs (n + k))"

text \<open>The blobs named by every file in the manifest directory, whatever its name.\<close>

definition dss_referenced ::
  "('x) stage_ext_scheme \<Rightarrow> durable_store \<Rightarrow> world \<Rightarrow> string + staged_content_id btset" where
  "dss_referenced X d w =
     rbind (map_err io_text (read_dir (w_fs w) (dss_manifests_dir d))) (\<lambda>entries.
     rbind (rmap_all (\<lambda>(name, _).
        rbind (map_err io_text (fs_read (w_fs w) (join_path (dss_manifests_dir d) name))) (\<lambda>b.
        rbind (ok_or ''invalid manifest'' (x_dec_manifest X b)) (\<lambda>m.
          Inr (List.map_filter sf_staged_bytes (sm_files m))))) entries) (\<lambda>refs.
     Inr (bs_collect (concat refs))))"

definition dir_names :: "apath \<Rightarrow> world \<Rightarrow> string + string list" where
  "dir_names p w = rbind (map_err io_text (read_dir (w_fs w) p)) (\<lambda>es. Inr (map fst es))"

definition dss_clean_manifests ::
  "('x) ext_scheme \<Rightarrow> durable_store \<Rightarrow> cleanup_policy \<Rightarrow> nat sio" where
  "dss_clean_manifests X d policy =
     io_bind (io_read (dir_names (dss_manifests_dir d))) (\<lambda>names.
     io_bind (sweep (dss_sweep_manifest X d policy) names 0) (\<lambda>n.
     io_bind (io_map_err io_text (sync_directory (dss_manifests_dir d) SyncFlush)) (\<lambda>_.
     io_ok n)))"

definition dss_clean_blobs :: "('x) stage_ext_scheme \<Rightarrow> durable_store \<Rightarrow> nat \<Rightarrow> nat sio" where
  "dss_clean_blobs X d n =
     io_bind (io_read (dss_referenced X d)) (\<lambda>referenced.
     io_bind (io_read (dir_names (dss_blobs_dir d))) (\<lambda>names.
     io_bind (sweep (dss_sweep_blob X d referenced) names n) (\<lambda>n'.
     io_bind (io_map_err io_text (sync_directory (dss_blobs_dir d) SyncFlush)) (\<lambda>_.
     io_ok n'))))"

definition dss_cleanup ::
  "('x) stage_ext_scheme \<Rightarrow> durable_store \<Rightarrow> cleanup_policy \<Rightarrow> nat sio" where
  "dss_cleanup X d policy =
     io_bind (if cp_remove_manifests policy then dss_clean_manifests X d policy else io_ok 0) (\<lambda>n.
     if cp_remove_unreferenced_blobs policy then dss_clean_blobs X d n else io_ok n)"

text \<open>\<open>blob_count\<close> and \<open>blob_bytes\<close> of the durable store count regular files only.\<close>

definition dss_blob_count :: "durable_store \<Rightarrow> world \<Rightarrow> string + nat" where
  "dss_blob_count d w = rbind (map_err io_text (read_dir (w_fs w) (dss_blobs_dir d))) (\<lambda>es.
     Inr (length (filter (\<lambda>(_, n). case n of NFile b m \<Rightarrow> True | _ \<Rightarrow> False) es)))"

definition dss_blob_bytes :: "durable_store \<Rightarrow> world \<Rightarrow> string + u64" where
  "dss_blob_bytes d w = rbind (map_err io_text (read_dir (w_fs w) (dss_blobs_dir d))) (\<lambda>es.
     Inr (sum_list (map (\<lambda>(_, n). node_len n)
       (filter (\<lambda>(_, n). case n of NFile b m \<Rightarrow> True | _ \<Rightarrow> False) es))))"

end
