(* ===== verification/Commit.thy ===== *)
theory Commit
  imports StageStore Readers
begin

text \<open>
  Durable application of a sealed stage to one source root, \<open>soopy/src/_7f_commit.rs\<close>: the
  engine, its journal and receipt, the preflight, the application of a journal, its recovery.
  The serde encodings of journal and receipt are fields of \<open>commit_ext\<close>. The tracing spans and
  the per-phase meters are left out; a function that returns early keeps what it did to the
  world before, as in the source.
\<close>

subsection \<open>Data\<close>

definition JOURNAL_VERSION :: u32 where "JOURNAL_VERSION = 2"

datatype commit_failpoint = AfterJournal | BeforeOperation nat | AfterOperation nat

record commit_watch_post =
  cwp_path :: source_path
  cwp_present :: bool
  cwp_content :: "content_id option"

record commit_watch_correlation =
  cwc_stage_id :: stage_id
  cwc_paths :: "source_path list"
  cwc_post :: "commit_watch_post list"

record commit_operation_receipt =
  cor_kind :: planned_file_kind
  cor_path_before :: "source_path option"
  cor_path_after :: "source_path option"
  cor_before :: "content_id option"
  cor_after :: "content_id option"

record commit_receipt =
  cr_stage_id :: stage_id
  cr_root :: source_root_id
  cr_applied_files :: nat
  cr_operations :: "commit_operation_receipt list"
  cr_journal_bytes :: u64
  cr_checkpoint_bytes :: u64
  cr_watch :: commit_watch_correlation

datatype commit_refusal =
  RootMismatch source_root_id source_root_id
| UnsafePath source_path string
| Preflight source_path string
| RecoveryRequired stage_id apath
| ReceiptDiverged stage_id source_path string
| Locked apath
| CommitIo string string
| Failpoint commit_failpoint

datatype durability = Durable | DryRun

record commit_engine =
  ce_target_root :: apath
  ce_state_root :: apath
  ce_durability :: durability
  ce_shared_device :: bool
  ce_staged_blobs :: "apath option"

record journal_operation =
  jo_kind :: planned_file_kind
  jo_before_path :: "source_path option"
  jo_after_path :: "source_path option"
  jo_expected :: "content_id option"
  jo_after_blob :: "staged_content_id option"
  jo_after_content :: "content_id option"
  jo_mode :: "file_mode_observation option"

record commit_journal =
  cj_version :: u32
  cj_stage_id :: stage_id
  cj_root :: source_root_id
  cj_operations :: "journal_operation list"

datatype operation_state = Before | After | Diverged

record commit_ext = stage_ext +
  x_enc_journal :: "commit_journal \<Rightarrow> bytes"
  x_dec_journal :: "bytes \<Rightarrow> commit_journal option"
  x_enc_receipt :: "commit_receipt \<Rightarrow> bytes"
  x_dec_receipt :: "bytes \<Rightarrow> commit_receipt option"

type_synonym 'a cio = "(world, commit_refusal, 'a) stm"

definition dry_run :: "durability \<Rightarrow> bool" where
  "dry_run d \<longleftrightarrow> d = DryRun"

definition jo_paths :: "journal_operation \<Rightarrow> source_path list" where
  "jo_paths op =
     (case jo_before_path op of None \<Rightarrow> [] | Some p \<Rightarrow> [p]) @
     (case jo_after_path op of None \<Rightarrow> [] | Some p \<Rightarrow> [p])"

subsection \<open>Refusals and paths\<close>

fun kind_debug :: "planned_file_kind \<Rightarrow> string" where
  "kind_debug KCreate = ''Create''"
| "kind_debug KReplace = ''Replace''"
| "kind_debug KMove = ''Move''"
| "kind_debug KDelete = ''Delete''"

definition missing_path :: "journal_operation \<Rightarrow> commit_refusal" where
  "missing_path op =
     CommitIo ''construct journal operation'' (''missing path for '' @ kind_debug (jo_kind op))"

definition io_refusal :: "string \<Rightarrow> commit_refusal" where
  "io_refusal e = CommitIo ''commit'' e"

definition io_refusal_context :: "string \<Rightarrow> io_error \<Rightarrow> commit_refusal" where
  "io_refusal_context operation e = CommitIo operation (io_text e)"

definition target_path :: "apath \<Rightarrow> source_path \<Rightarrow> apath" where
  "target_path root p = join_path root (path_text p)"

definition parent_of :: "apath \<Rightarrow> apath" where
  "parent_of p = parent_or_root p"

definition read_bytes :: "fs \<Rightarrow> apath \<Rightarrow> commit_refusal + bytes" where
  "read_bytes fs p = map_err (io_refusal_context ''read commit target'') (fs_read fs p)"

fun check_components :: "source_path \<Rightarrow> component list \<Rightarrow> commit_refusal + unit" where
  "check_components p [] = Inr ()"
| "check_components p (c # cs) =
     (if c = Normal ''.git'' then Inl (UnsafePath p ''.git path is confined'')
      else if c = ParentDir \<or> c = RootDir then Inl (UnsafePath p ''path escapes root'')
      else check_components p cs)"

definition validate_relative_path :: "source_path \<Rightarrow> commit_refusal + unit" where
  "validate_relative_path p =
     (let raw = path_text p
      in if raw = [] \<or> raw = ''.'' then Inl (UnsafePath p ''empty path'')
         else if is_absolute raw then Inl (UnsafePath p ''absolute path'')
         else check_components p (components raw))"

fun check_parents :: "fs \<Rightarrow> source_path \<Rightarrow> apath \<Rightarrow> component list \<Rightarrow> commit_refusal + unit" where
  "check_parents fs p current [] = Inr ()"
| "check_parents fs p current (c # cs) =
     (case c of
        Normal name \<Rightarrow>
          (case lstat fs (current @ [name]) of
             Inr (NSymlink t) \<Rightarrow> Inl (UnsafePath p ''parent component is a symlink'')
           | Inr NDir \<Rightarrow> check_parents fs p (current @ [name]) cs
           | Inr _ \<Rightarrow> Inl (Preflight p ''parent component is not a directory'')
           | Inl e \<Rightarrow>
               (if e = NotFound then check_parents fs p (current @ [name]) cs
                else Inl (io_refusal_context ''inspect parent component'' e)))
      | _ \<Rightarrow> check_parents fs p current cs)"

definition check_parent_components :: "fs \<Rightarrow> apath \<Rightarrow> source_path \<Rightarrow> commit_refusal + unit" where
  "check_parent_components fs root p =
     (let cs = components (path_text p) in check_parents fs p root (take (length cs - 1) cs))"

definition ensure_parent_dirs :: "apath \<Rightarrow> unit cio" where
  "ensure_parent_dirs p =
     (case path_parent p of
        None \<Rightarrow> io_err (CommitIo ''find target parent'' (show_path p))
      | Some parent \<Rightarrow> io_map_err (io_refusal_context ''create target parent'') (create_dir_all parent))"

subsection \<open>Modes and contents\<close>

definition mode_matches :: "u32 \<Rightarrow> file_mode_observation \<Rightarrow> bool" where
  "mode_matches mode expected =
     (if mode_readonly mode \<noteq> fmo_readonly expected then False
      else (case fmo_unix_mode expected of Some m \<Rightarrow> mode = m | None \<Rightarrow> True))"

definition content_matches ::
  "('x) ext_scheme \<Rightarrow> fs \<Rightarrow> apath \<Rightarrow> source_path \<Rightarrow> content_id option \<Rightarrow> commit_refusal + bool" where
  "content_matches X fs root p expected =
     (case expected of
        None \<Rightarrow> Inr False
      | Some cid \<Rightarrow> rbind (read_bytes fs (target_path root p)) (\<lambda>b.
          (case cid of
             Blake3 d \<Rightarrow> Inr (Blake3 (x_hash X b) = cid)
           | GitBlob oid \<Rightarrow>
               rbind (map_err io_refusal (x_discover X root)) (\<lambda>repository.
               rbind (map_err io_refusal (x_hash_object X repository b)) (\<lambda>observed.
                 Inr (GitBlob observed = cid))))))"

text \<open>\<open>set_mode\<close> on an open file: \<open>set_readonly\<close>, then the recorded mode where there is one.\<close>

definition requested_mode :: "file_mode_observation \<Rightarrow> u32 \<Rightarrow> u32" where
  "requested_mode mode st =
     (case fmo_unix_mode mode of
        Some m \<Rightarrow> m
      | None \<Rightarrow> (if fmo_readonly mode then st AND NOT write_bits else st OR write_bits))"

definition set_mode :: "file_mode_observation \<Rightarrow> u32 \<Rightarrow> u32" where
  "set_mode mode st = chmod_mode st (requested_mode mode st)"

definition write_unsynced ::
  "apath \<Rightarrow> bytes \<Rightarrow> file_mode_observation option \<Rightarrow> string \<Rightarrow> unit cio" where
  "write_unsynced p b mode operation =
     io_bind (io_map_err (io_refusal_context operation) (fs_write p b)) (\<lambda>_.
       (case mode of
          None \<Rightarrow> io_ok ()
        | Some m \<Rightarrow>
            io_bind (io_map_err (io_refusal_context operation) (io_read (\<lambda>w. stat (w_fs w) p))) (\<lambda>_.
            io_map_err (io_refusal_context ''set target mode'') (fs_chmod p (requested_mode m)))))"

definition atomic_write ::
  "apath \<Rightarrow> bytes \<Rightarrow> file_mode_observation option \<Rightarrow> durability \<Rightarrow> unit cio" where
  "atomic_write p b mode d =
     (if dry_run d then write_unsynced p b mode ''write atomic target''
      else io_map_err (io_refusal_context ''publish atomic target'')
        (publish_file p b SyncData (case mode of None \<Rightarrow> id | Some m \<Rightarrow> set_mode m)))"

definition sync_dir_when_durable :: "apath \<Rightarrow> durability \<Rightarrow> sync_level \<Rightarrow> unit cio" where
  "sync_dir_when_durable p d level =
     (if dry_run d then io_ok ()
      else io_map_err (io_refusal_context ''sync commit directory'') (sync_directory p level))"

subsection \<open>Preflight\<close>

definition verify_existing ::
  "('x) ext_scheme \<Rightarrow> fs \<Rightarrow> apath \<Rightarrow> source_path \<Rightarrow> content_id option \<Rightarrow>
     file_mode_observation option \<Rightarrow> commit_refusal + unit" where
  "verify_existing X fs root source expected mode =
     rbind (map_err (\<lambda>e. Preflight source (''source unavailable: '' @ io_text e))
       (lstat fs (target_path root source))) (\<lambda>n.
     (case n of
        NFile b st \<Rightarrow>
          rbind (content_matches X fs root source expected) (\<lambda>same.
          if \<not> same then Inl (Preflight source ''source content changed after staging'')
          else (case mode of
              None \<Rightarrow> Inl (Preflight source ''source mode was not captured'')
            | Some m \<Rightarrow>
                (if mode_matches st m then Inr ()
                 else Inl (Preflight source ''source mode changed after staging''))))
      | _ \<Rightarrow> Inl (Preflight source ''source is not a regular file'')))"

definition operation_from_file ::
  "('x) ext_scheme \<Rightarrow> staged_file \<Rightarrow> commit_refusal + journal_operation" where
  "operation_from_file X f =
     (case (sf_kind f, sf_path_before f, sf_path_after f) of
        (KCreate, Some p, _) \<Rightarrow> Inl (Preflight p ''create has a source path'')
      | (KDelete, _, Some p) \<Rightarrow> Inl (Preflight p ''delete has a destination path'')
      | _ \<Rightarrow> Inr
          \<lparr>jo_kind = sf_kind f, jo_before_path = sf_path_before f, jo_after_path = sf_path_after f,
           jo_expected = sf_content_before f,
           jo_after_blob = (case sf_staged_bytes f of
               Some blob \<Rightarrow> Some blob
             | None \<Rightarrow> map_option (x_hash X) (sf_bytes_after f)),
           jo_after_content = sf_content_after f, jo_mode = sf_mode_before f\<rparr>)"

definition before_path :: "journal_operation \<Rightarrow> commit_refusal + source_path" where
  "before_path op = ok_or (missing_path op) (jo_before_path op)"

definition after_path :: "journal_operation \<Rightarrow> commit_refusal + source_path" where
  "after_path op = ok_or (missing_path op) (jo_after_path op)"

definition preflight_operation ::
  "('x) ext_scheme \<Rightarrow> fs \<Rightarrow> apath \<Rightarrow> journal_operation \<Rightarrow> commit_refusal + unit" where
  "preflight_operation X fs root op =
     (case jo_kind op of
        KCreate \<Rightarrow>
          rbind (after_path op) (\<lambda>destination.
          if is_ok (lstat fs (target_path root destination))
          then Inl (Preflight destination ''create destination already exists'')
          else if jo_after_blob op = None
          then Inl (Preflight destination ''create has no output bytes'')
          else Inr ())
      | KReplace \<Rightarrow>
          rbind (before_path op) (\<lambda>source.
          rbind (verify_existing X fs root source (jo_expected op) (jo_mode op)) (\<lambda>_.
          if jo_after_blob op = None then Inl (Preflight source ''replace has no output bytes'')
          else Inr ()))
      | KMove \<Rightarrow>
          rbind (before_path op) (\<lambda>source.
          rbind (after_path op) (\<lambda>destination.
          rbind (verify_existing X fs root source (jo_expected op) (jo_mode op)) (\<lambda>_.
          if is_ok (lstat fs (target_path root destination))
          then Inl (Preflight destination ''move destination already exists'')
          else if jo_after_blob op = None
          then Inl (Preflight destination ''move has no output bytes'')
          else Inr ())))
      | KDelete \<Rightarrow>
          rbind (before_path op) (\<lambda>source.
          verify_existing X fs root source (jo_expected op) (jo_mode op)))"

text \<open>Both checks of every path of an operation, in the order the loops make them.\<close>

definition check_paths :: "fs \<Rightarrow> apath \<Rightarrow> journal_operation \<Rightarrow> commit_refusal + unit" where
  "check_paths fs root op =
     rfor_each (\<lambda>p. rbind (validate_relative_path p) (\<lambda>_. check_parent_components fs root p))
       (jo_paths op)"

definition preflight_file ::
  "('x) ext_scheme \<Rightarrow> fs \<Rightarrow> apath \<Rightarrow> staged_file \<Rightarrow> commit_refusal + journal_operation" where
  "preflight_file X fs root f =
     rbind (operation_from_file X f) (\<lambda>op.
     rbind (check_paths fs root op) (\<lambda>_.
     rbind (preflight_operation X fs root op) (\<lambda>_. Inr op)))"

definition preflight ::
  "('x) ext_scheme \<Rightarrow> commit_engine \<Rightarrow> fs \<Rightarrow> staged_transaction \<Rightarrow> commit_refusal + commit_journal" where
  "preflight X e fs stage =
     rbind (rmap_all (preflight_file X fs (ce_target_root e)) (st_files stage)) (\<lambda>ops.
       Inr \<lparr>cj_version = JOURNAL_VERSION, cj_stage_id = st_id stage, cj_root = st_root stage,
            cj_operations = ops\<rparr>)"

subsection \<open>Application and classification of one operation\<close>

type_synonym dirs = "apath btset"

definition apply_operation ::
  "apath \<Rightarrow> journal_operation \<Rightarrow> bytes \<Rightarrow> durability \<Rightarrow> dirs \<Rightarrow> dirs cio" where
  "apply_operation root op b d directories =
     (case jo_kind op of
        KMove \<Rightarrow>
          io_bind (io_read (\<lambda>_. before_path op)) (\<lambda>source.
          io_bind (io_read (\<lambda>_. after_path op)) (\<lambda>destination.
          let src = target_path root source; dst = target_path root destination in
          io_bind (ensure_parent_dirs dst) (\<lambda>_.
          io_bind (io_map_err (io_refusal_context ''rename staged move'') (fs_rename src dst)) (\<lambda>_.
          io_ok (bs_insert (parent_of dst) (bs_insert (parent_of src) directories))))))
      | KDelete \<Rightarrow>
          io_bind (io_read (\<lambda>_. before_path op)) (\<lambda>source.
          let src = target_path root source in
          io_bind (io_map_err (io_refusal_context ''delete staged file'') (fs_remove_file src)) (\<lambda>_.
          io_ok (bs_insert (parent_of src) directories)))
      | _ \<Rightarrow>
          io_bind (io_read (\<lambda>_. after_path op)) (\<lambda>destination.
          let p = target_path root destination in
          io_bind (ensure_parent_dirs p) (\<lambda>_.
          io_bind (atomic_write p b (jo_mode op) d) (\<lambda>_.
          io_ok (bs_insert (parent_of p) directories)))))"

definition classify_write ::
  "('x) ext_scheme \<Rightarrow> fs \<Rightarrow> apath \<Rightarrow> journal_operation \<Rightarrow> bytes option \<Rightarrow> source_path \<Rightarrow>
     commit_refusal + operation_state" where
  "classify_write X fs root op after dest =
     (let p = target_path root dest
      in case lstat fs p of
           Inr (NFile b0 m) \<Rightarrow>
             rbind (read_bytes fs p) (\<lambda>b.
             if Some b = after then Inr After
             else if jo_kind op = KReplace
             then rbind (content_matches X fs root dest (jo_expected op))
               (\<lambda>same. Inr (if same then Before else Diverged))
             else Inr Diverged)
         | Inr _ \<Rightarrow> Inl (Preflight dest ''recovery target is not a regular file'')
         | Inl e \<Rightarrow>
             (if jo_kind op = KCreate \<and> jo_expected op = None then Inr Before
              else if e = NotFound \<and> jo_kind op = KReplace
              then Inl (Preflight dest ''recovery replacement disappeared'')
              else Inr Diverged))"

definition classify_delete ::
  "('x) ext_scheme \<Rightarrow> fs \<Rightarrow> apath \<Rightarrow> journal_operation \<Rightarrow> source_path \<Rightarrow>
     commit_refusal + operation_state" where
  "classify_delete X fs root op source =
     (case lstat fs (target_path root source) of
        Inl e \<Rightarrow> (if e = NotFound then Inr After
                  else Inl (io_refusal_context ''inspect delete recovery'' e))
      | Inr _ \<Rightarrow> rbind (content_matches X fs root source (jo_expected op))
          (\<lambda>same. Inr (if same then Before else Diverged)))"

text \<open>\<open>symlink_metadata(p).ok().map(|_| read_bytes(p)).transpose()\<close>.\<close>

definition present_bytes :: "fs \<Rightarrow> apath \<Rightarrow> commit_refusal + bytes option" where
  "present_bytes fs p =
     (if is_ok (lstat fs p) then rbind (read_bytes fs p) (\<lambda>b. Inr (Some b)) else Inr None)"

definition classify_move ::
  "('x) ext_scheme \<Rightarrow> fs \<Rightarrow> apath \<Rightarrow> journal_operation \<Rightarrow> bytes option \<Rightarrow> source_path \<Rightarrow>
     source_path \<Rightarrow> commit_refusal + operation_state" where
  "classify_move X fs root op after source dest =
     rbind (present_bytes fs (target_path root source)) (\<lambda>src.
     rbind (present_bytes fs (target_path root dest)) (\<lambda>dst.
     rbind (if src \<noteq> None \<and> dst = None then content_matches X fs root source (jo_expected op)
            else Inr False) (\<lambda>before.
     Inr (if before then Before else if src = None \<and> dst = after then After else Diverged))))"

definition classify_operation ::
  "('x) ext_scheme \<Rightarrow> fs \<Rightarrow> apath \<Rightarrow> journal_operation \<Rightarrow> bytes option \<Rightarrow>
     commit_refusal + operation_state" where
  "classify_operation X fs root op after =
     (case jo_kind op of
        KDelete \<Rightarrow> rbind (before_path op) (classify_delete X fs root op)
      | KMove \<Rightarrow> rbind (before_path op) (\<lambda>source. rbind (after_path op) (\<lambda>dest.
          classify_move X fs root op after source dest))
      | _ \<Rightarrow> rbind (after_path op) (classify_write X fs root op after))"

subsection \<open>The state root\<close>

definition journal_path :: "('x) ext_scheme \<Rightarrow> commit_engine \<Rightarrow> stage_id \<Rightarrow> apath" where
  "journal_path X e i = join_path (join_path (ce_state_root e) ''journals'') (x_hex X i @ ''.json'')"

definition receipt_path :: "('x) ext_scheme \<Rightarrow> commit_engine \<Rightarrow> stage_id \<Rightarrow> apath" where
  "receipt_path X e i = join_path (join_path (ce_state_root e) ''receipts'') (x_hex X i @ ''.json'')"

definition blobs_path :: "commit_engine \<Rightarrow> apath" where
  "blobs_path e = join_path (ce_state_root e) ''blobs''"

definition blob_path :: "('x) ext_scheme \<Rightarrow> commit_engine \<Rightarrow> staged_content_id \<Rightarrow> apath" where
  "blob_path X e i = join_path (blobs_path e) (x_hex X i)"

definition lock_path :: "('x) ext_scheme \<Rightarrow> commit_engine \<Rightarrow> apath" where
  "lock_path X e =
     join_path (join_path (ce_state_root e) ''locks'')
       (x_hex X (x_hash X (bytes_of (show_path (ce_target_root e)))) @ ''.lock'')"

text \<open>\<open>lock\<close> and the \<open>Drop\<close> of \<open>RootLock\<close>: the lock is released on every way out.\<close>

definition lock_root :: "('x) ext_scheme \<Rightarrow> commit_engine \<Rightarrow> unit cio" where
  "lock_root X e =
     io_bind (io_map_err (io_refusal_context ''open root lock'') (open_or_create (lock_path X e)))
       (\<lambda>_ w. if lock_path X e \<in> w_locks w then (Inl (Locked (lock_path X e)), w)
              else (Inr (), w\<lparr>w_locks := insert (lock_path X e) (w_locks w)\<rparr>))"

definition unlock_root :: "('x) ext_scheme \<Rightarrow> commit_engine \<Rightarrow> world \<Rightarrow> world" where
  "unlock_root X e w = w\<lparr>w_locks := w_locks w - {lock_path X e}\<rparr>"

definition with_lock :: "('x) ext_scheme \<Rightarrow> commit_engine \<Rightarrow> 'a cio \<Rightarrow> 'a cio" where
  "with_lock X e m =
     io_bind (lock_root X e) (\<lambda>_ w. case m w of (r, w') \<Rightarrow> (r, unlock_root X e w'))"

definition cross_root_level :: "commit_engine \<Rightarrow> sync_level" where
  "cross_root_level e = (if ce_shared_device e then SyncFence else SyncFlush)"

definition link_staged_blob ::
  "('x) ext_scheme \<Rightarrow> commit_engine \<Rightarrow> staged_content_id \<Rightarrow> apath \<Rightarrow> bool cio" where
  "link_staged_blob X e blob destination =
     (case ce_staged_blobs e of
        None \<Rightarrow> io_ok False
      | Some source \<Rightarrow> (\<lambda>w. case fs_hard_link (join_path source (x_hex X blob)) destination w of
          (r, w') \<Rightarrow> (Inr (is_ok r), w')))"

text \<open>An existing payload is verified, a missing one written, linked or published.\<close>

definition place_payload ::
  "('x) ext_scheme \<Rightarrow> commit_engine \<Rightarrow> staged_content_id \<Rightarrow> bytes \<Rightarrow> unit cio" where
  "place_payload X e blob b = (\<lambda>w.
     let p = blob_path X e blob
     in if path_exists (w_fs w) p then
          (case fs_read (w_fs w) p of
             Inl err \<Rightarrow> (Inl (io_refusal_context ''read commit payload'' err), w)
           | Inr existing \<Rightarrow>
               (if x_hash X existing \<noteq> blob
                then (Inl (CommitIo ''verify commit payload'' ''payload digest mismatch''), w)
                else (Inr (), w)))
        else if dry_run (ce_durability e) then write_unsynced p b None ''write commit payload'' w
        else io_bind (link_staged_blob X e blob p) (\<lambda>linked.
          if linked then io_ok ()
          else io_map_err (io_refusal_context ''publish commit payload'')
            (publish_file p b SyncData id)) w)"

definition materialize_payload ::
  "('x) ext_scheme \<Rightarrow> commit_engine \<Rightarrow> staged_file \<times> journal_operation \<Rightarrow> unit cio" where
  "materialize_payload X e = (\<lambda>(f, op).
     case jo_after_blob op of
       None \<Rightarrow> io_ok ()
     | Some blob \<Rightarrow>
        (case sf_bytes_after f of
           None \<Rightarrow> io_err (CommitIo ''materialize commit payload'' ''stage has no output bytes'')
         | Some b \<Rightarrow>
            (if x_hash X b \<noteq> blob
             then io_err (CommitIo ''materialize commit payload'' ''stage blob digest mismatch'')
             else place_payload X e blob b)))"

definition materialize_payloads ::
  "('x) ext_scheme \<Rightarrow> commit_engine \<Rightarrow> staged_transaction \<Rightarrow> commit_journal \<Rightarrow> unit cio" where
  "materialize_payloads X e stage journal =
     io_bind (io_for_each (materialize_payload X e) (zip (st_files stage) (cj_operations journal))) (\<lambda>_.
     sync_dir_when_durable (blobs_path e) (ce_durability e) SyncFence)"

definition operation_bytes ::
  "('x) ext_scheme \<Rightarrow> commit_engine \<Rightarrow> fs \<Rightarrow> journal_operation \<Rightarrow> commit_refusal + bytes option" where
  "operation_bytes X e fs op =
     (case jo_after_blob op of
        None \<Rightarrow> Inr None
      | Some blob \<Rightarrow>
          rbind (map_err (io_refusal_context ''read commit payload'') (fs_read fs (blob_path X e blob)))
            (\<lambda>b. if x_hash X b \<noteq> blob
                 then Inl (CommitIo ''verify commit payload'' ''payload digest mismatch'')
                 else Inr (Some b)))"

definition actual_root_id ::
  "('x) ext_scheme \<Rightarrow> commit_engine \<Rightarrow> source_root_id \<Rightarrow> fs \<Rightarrow> string + source_root_id" where
  "actual_root_id X e expected fs =
     rbind (case expected of
         RootDirectory d \<Rightarrow> open_directory X fs (ce_target_root e)
       | RootGitWorktree r t \<Rightarrow> discover_git X fs (ce_target_root e))
       (\<lambda>root. Inr (source_root_id_of root))"

subsection \<open>Application of a journal\<close>

text \<open>The loop over the payloads, with its two interruption points.\<close>

fun apply_operations ::
  "commit_engine \<Rightarrow> commit_failpoint option \<Rightarrow> nat btset \<Rightarrow> nat \<Rightarrow>
     (journal_operation \<times> bytes option) list \<Rightarrow> dirs \<Rightarrow> dirs cio" where
  "apply_operations e failpoint completed index [] directories = io_ok directories"
| "apply_operations e failpoint completed index ((op, payload) # rest) directories =
     (if index \<in> set completed then apply_operations e failpoint completed (Suc index) rest directories
      else if failpoint = Some (BeforeOperation index)
      then io_err (Failpoint (BeforeOperation index))
      else io_bind (apply_operation (ce_target_root e) op
             (case payload of None \<Rightarrow> [] | Some b \<Rightarrow> b) (ce_durability e) directories) (\<lambda>directories'.
        if failpoint = Some (AfterOperation index)
        then io_err (Failpoint (AfterOperation index))
        else apply_operations e failpoint completed (Suc index) rest directories'))"

definition apply_journal ::
  "('x) ext_scheme \<Rightarrow> commit_engine \<Rightarrow> commit_journal \<Rightarrow> commit_failpoint option \<Rightarrow> nat btset \<Rightarrow> unit cio" where
  "apply_journal X e journal failpoint completed =
     io_bind (io_read (\<lambda>w. rmap_all (operation_bytes X e (w_fs w)) (cj_operations journal))) (\<lambda>payloads.
     io_bind (apply_operations e failpoint completed 0 (zip (cj_operations journal) payloads) []) (\<lambda>directories.
     io_bind (io_for_each (\<lambda>p. sync_dir_when_durable p (ce_durability e) SyncData) directories) (\<lambda>_.
     if directories \<noteq> [] then sync_dir_when_durable (ce_target_root e) (ce_durability e) (cross_root_level e)
     else io_ok ())))"

subsection \<open>Journal and receipt files\<close>

definition write_state_file ::
  "apath \<Rightarrow> bytes \<Rightarrow> durability \<Rightarrow> string \<Rightarrow> string \<Rightarrow> sync_level \<Rightarrow> unit cio" where
  "write_state_file p b d write_text publish_text level =
     io_bind (if dry_run d then write_unsynced p b None write_text
              else io_map_err (io_refusal_context publish_text) (publish_file p b SyncData id)) (\<lambda>_.
     sync_dir_when_durable (parent_or_root p) d level)"

definition write_journal ::
  "('x) commit_ext_scheme \<Rightarrow> apath \<Rightarrow> commit_journal \<Rightarrow> durability \<Rightarrow> sync_level \<Rightarrow> unit cio" where
  "write_journal X p journal d level =
     write_state_file p (x_enc_journal X journal) d ''write commit journal'' ''publish commit journal'' level"

definition write_receipt ::
  "('x) commit_ext_scheme \<Rightarrow> apath \<Rightarrow> commit_receipt \<Rightarrow> durability \<Rightarrow> unit cio" where
  "write_receipt X p receipt d =
     write_state_file p (x_enc_receipt X receipt) d ''write commit receipt'' ''publish commit receipt'' SyncFlush"

definition read_journal ::
  "('x) commit_ext_scheme \<Rightarrow> apath \<Rightarrow> fs \<Rightarrow> commit_refusal + commit_journal" where
  "read_journal X p fs =
     rbind (map_err (io_refusal_context ''read commit journal'') (fs_read fs p)) (\<lambda>b.
     rbind (ok_or (CommitIo ''decode commit journal'' ''invalid journal'') (x_dec_journal X b)) (\<lambda>journal.
     if cj_version journal \<noteq> JOURNAL_VERSION
     then Inl (CommitIo ''validate commit journal'' ''unsupported journal version'')
     else Inr journal))"

definition read_receipt ::
  "('x) commit_ext_scheme \<Rightarrow> commit_engine \<Rightarrow> stage_id \<Rightarrow> fs \<Rightarrow> commit_refusal + commit_receipt option" where
  "read_receipt X e i fs =
     (case fs_read fs (receipt_path X e i) of
        Inr b \<Rightarrow> (case x_dec_receipt X b of
            None \<Rightarrow> Inl (CommitIo ''decode commit receipt'' ''invalid receipt'')
          | Some r \<Rightarrow> Inr (Some r))
      | Inl err \<Rightarrow> (if err = NotFound then Inr None
                    else Inl (io_refusal_context ''read commit receipt'' err)))"

definition remove_journal :: "apath \<Rightarrow> unit cio" where
  "remove_journal p = (\<lambda>w. case fs_remove_file p w of
       (Inr u, w') \<Rightarrow> (Inr (), w')
     | (Inl e, w') \<Rightarrow> (if e = NotFound then Inr () else Inl (io_refusal_context ''remove commit journal'' e), w'))"

definition is_git_path :: "source_path \<Rightarrow> bool" where
  "is_git_path p = (case p of PathGit q \<Rightarrow> True | PathDirectory q \<Rightarrow> False)"

definition path_compatible :: "source_root_id \<Rightarrow> source_path \<Rightarrow> bool" where
  "path_compatible root p =
     (case root of RootDirectory d \<Rightarrow> \<not> is_git_path p | RootGitWorktree r t \<Rightarrow> is_git_path p)"

definition validate_journal_operation :: "source_root_id \<Rightarrow> journal_operation \<Rightarrow> commit_refusal + unit" where
  "validate_journal_operation root op =
     rbind (rfor_each validate_relative_path (jo_paths op)) (\<lambda>_.
     if list_all (path_compatible root) (jo_paths op) then Inr ()
     else Inl (CommitIo ''validate commit journal''
       (case root of RootDirectory d \<Rightarrow> ''directory journal has Git path''
                   | RootGitWorktree r t \<Rightarrow> ''Git journal has directory path'')))"

definition validate_journal :: "commit_journal \<Rightarrow> commit_refusal + unit" where
  "validate_journal journal = rfor_each (validate_journal_operation (cj_root journal)) (cj_operations journal)"

subsection \<open>Receipts\<close>

definition post_of :: "commit_operation_receipt \<Rightarrow> commit_watch_post list" where
  "post_of op =
     (case cor_kind op of
        KDelete \<Rightarrow> (case cor_path_before op of None \<Rightarrow> []
          | Some p \<Rightarrow> [\<lparr>cwp_path = p, cwp_present = False, cwp_content = None\<rparr>])
      | _ \<Rightarrow> (case cor_path_after op of None \<Rightarrow> []
          | Some p \<Rightarrow> [\<lparr>cwp_path = p, cwp_present = True, cwp_content = cor_after op\<rparr>]))"

definition cor_paths :: "commit_operation_receipt \<Rightarrow> source_path list" where
  "cor_paths op =
     (case cor_path_before op of None \<Rightarrow> [] | Some p \<Rightarrow> [p]) @
     (case cor_path_after op of None \<Rightarrow> [] | Some p \<Rightarrow> [p])"

definition watch_projection ::
  "stage_id \<Rightarrow> commit_operation_receipt list \<Rightarrow> commit_watch_correlation" where
  "watch_projection i ops =
     \<lparr>cwc_stage_id = i, cwc_paths = concat (map cor_paths ops), cwc_post = concat (map post_of ops)\<rparr>"

definition operation_receipt :: "journal_operation \<Rightarrow> commit_operation_receipt" where
  "operation_receipt op =
     \<lparr>cor_kind = jo_kind op, cor_path_before = jo_before_path op, cor_path_after = jo_after_path op,
      cor_before = jo_expected op, cor_after = jo_after_content op\<rparr>"

definition receipt ::
  "stage_id \<Rightarrow> source_root_id \<Rightarrow> journal_operation list \<Rightarrow> u64 \<Rightarrow> u64 \<Rightarrow> commit_receipt" where
  "receipt i root ops journal_bytes checkpoint_bytes =
     (let receipts = map operation_receipt ops
      in \<lparr>cr_stage_id = i, cr_root = root, cr_applied_files = length ops, cr_operations = receipts,
          cr_journal_bytes = journal_bytes, cr_checkpoint_bytes = checkpoint_bytes,
          cr_watch = watch_projection i receipts\<rparr>)"

definition stage_operation_receipts :: "staged_file list \<Rightarrow> commit_operation_receipt list" where
  "stage_operation_receipts files =
     map (\<lambda>f. \<lparr>cor_kind = sf_kind f, cor_path_before = sf_path_before f,
       cor_path_after = sf_path_after f, cor_before = sf_content_before f,
       cor_after = sf_content_after f\<rparr>) files"

definition dot_path :: source_path where
  "dot_path = PathDirectory ''.''"

definition diverged :: "stage_id \<Rightarrow> source_path \<Rightarrow> string \<Rightarrow> commit_refusal" where
  "diverged i p reason = ReceiptDiverged i p reason"

definition receipt_target :: "stage_id \<Rightarrow> commit_operation_receipt \<Rightarrow> commit_refusal + source_path" where
  "receipt_target i op =
     ok_or (diverged i (case cor_paths op of [] \<Rightarrow> dot_path | p # _ \<Rightarrow> p) ''receipt operation has no path'')
       (case cor_kind op of KDelete \<Rightarrow> cor_path_before op | _ \<Rightarrow> cor_path_after op)"

definition validate_receipt_deleted ::
  "fs \<Rightarrow> apath \<Rightarrow> stage_id \<Rightarrow> source_path \<Rightarrow> commit_refusal + unit" where
  "validate_receipt_deleted fs root i p =
     (if is_ok (lstat fs (target_path root p)) then Inl (diverged i p ''deleted path is present'')
      else Inr ())"

definition validate_receipt_present ::
  "('x) ext_scheme \<Rightarrow> fs \<Rightarrow> apath \<Rightarrow> stage_id \<Rightarrow> commit_operation_receipt \<Rightarrow> source_path \<Rightarrow>
     commit_refusal + unit" where
  "validate_receipt_present X fs root i op p =
     rbind (map_err (\<lambda>e. diverged i p (io_text e)) (lstat fs (target_path root p))) (\<lambda>n.
     rbind (case n of NFile b m \<Rightarrow> content_matches X fs root p (cor_after op) | _ \<Rightarrow> Inr False) (\<lambda>same.
     if \<not> same then Inl (diverged i p ''post-commit identity does not match receipt'')
     else if cor_kind op = KMove then
       (case cor_path_before op of
          None \<Rightarrow> Inr ()
        | Some source \<Rightarrow>
            (if is_ok (lstat fs (target_path root source))
             then Inl (diverged i source ''moved source path is still present'')
             else Inr ()))
     else Inr ()))"

definition validate_receipt_operation ::
  "('x) ext_scheme \<Rightarrow> fs \<Rightarrow> apath \<Rightarrow> stage_id \<Rightarrow> source_root_id \<Rightarrow> commit_operation_receipt \<Rightarrow>
     commit_refusal + unit" where
  "validate_receipt_operation X fs root i expected_root op =
     rbind (case find (\<lambda>p. \<not> path_compatible expected_root p) (cor_paths op) of
         Some p \<Rightarrow> Inl (diverged i p ''receipt path variant does not match root'')
       | None \<Rightarrow> Inr ()) (\<lambda>_.
     rbind (receipt_target i op) (\<lambda>p.
     rbind (validate_relative_path p) (\<lambda>_.
     rbind (check_parent_components fs root p) (\<lambda>_.
     (case cor_kind op of
        KDelete \<Rightarrow> validate_receipt_deleted fs root i p
      | _ \<Rightarrow> validate_receipt_present X fs root i op p)))))"

definition validate_receipt ::
  "('x) ext_scheme \<Rightarrow> fs \<Rightarrow> apath \<Rightarrow> commit_receipt \<Rightarrow> stage_id \<Rightarrow> source_root_id \<Rightarrow>
     commit_refusal + unit" where
  "validate_receipt X fs root r i expected_root =
     (if cr_stage_id r \<noteq> i \<or> cr_root r \<noteq> expected_root
      then Inl (diverged i dot_path ''receipt identity does not match requested stage'')
      else rfor_each (validate_receipt_operation X fs root i expected_root) (cr_operations r))"

subsection \<open>The engine\<close>

definition engine_open ::
  "durability \<Rightarrow> apath \<Rightarrow> apath \<Rightarrow> (world, string, commit_engine) stm" where
  "engine_open d target state =
     io_bind (io_map_err (\<lambda>_. ''canonicalize commit target root '' @ show_path target)
       (io_read (\<lambda>w. canonicalize (w_fs w) target))) (\<lambda>target_root.
     io_bind (io_read (\<lambda>w. if path_is_dir (w_fs w) target_root then Inr ()
       else Inl (''commit target root is not a directory: '' @ show_path target_root))) (\<lambda>_.
     io_bind (io_map_err io_text (create_dir_all (parent_or_root state))) (\<lambda>_.
     io_bind (io_map_err io_text (create_dir_all state)) (\<lambda>_.
     io_bind (io_map_err io_text (io_read (\<lambda>w. canonicalize (w_fs w) state))) (\<lambda>state_root.
     io_bind (io_read (\<lambda>_. if path_starts_with state_root target_root
       then Inl ''commit state root must be outside target root'' else Inr ())) (\<lambda>_.
     io_bind (io_for_each (\<lambda>n. io_map_err io_text (create_dir_all (join_path state_root n)))
       [''locks'', ''journals'', ''blobs'', ''receipts'']) (\<lambda>_.
     io_read (\<lambda>w. Inr
       \<lparr>ce_target_root = target_root, ce_state_root = state_root, ce_durability = d,
        ce_shared_device = same_device w target_root state_root, ce_staged_blobs = None\<rparr>))))))))"

definition with_staged_blobs :: "apath \<Rightarrow> commit_engine \<Rightarrow> commit_engine" where
  "with_staged_blobs blobs e = e\<lparr>ce_staged_blobs := Some blobs\<rparr>"

text \<open>The receipt of an earlier run: \<open>Some\<close> ends the commit with it, \<open>None\<close> goes on.\<close>

definition check_receipt ::
  "('x) commit_ext_scheme \<Rightarrow> commit_engine \<Rightarrow> staged_transaction \<Rightarrow> fs \<Rightarrow>
     commit_refusal + commit_receipt option" where
  "check_receipt X e stage fs =
     rbind (read_receipt X e (st_id stage) fs) (\<lambda>found.
     (case found of
        None \<Rightarrow> Inr None
      | Some r \<Rightarrow>
         (let expected = stage_operation_receipts (st_files stage);
              watch = watch_projection (st_id stage) expected
          in if cr_operations r \<noteq> expected \<or> cr_applied_files r \<noteq> length expected \<or> cr_watch r \<noteq> watch
             then Inl (ReceiptDiverged (st_id stage)
               (case expected of
                  [] \<Rightarrow> dot_path
                | op # _ \<Rightarrow> (case cor_path_after op of Some p \<Rightarrow> p
                    | None \<Rightarrow> (case cor_path_before op of Some p \<Rightarrow> p | None \<Rightarrow> dot_path)))
               ''receipt does not match the sealed stage'')
             else (case validate_receipt X fs (ce_target_root e) r (st_id stage) (st_root stage) of
                 Inr u \<Rightarrow> Inr (Some r)
               | Inl refusal \<Rightarrow>
                   (case refusal of
                      ReceiptDiverged i p reason \<Rightarrow>
                        (if is_ok (preflight X e fs stage) then Inr None else Inl refusal)
                    | _ \<Rightarrow> Inl refusal)))))"

definition journal_len :: "fs \<Rightarrow> apath \<Rightarrow> u64" where
  "journal_len fs p = (case stat fs p of Inr n \<Rightarrow> node_len n | Inl e \<Rightarrow> 0)"

text \<open>The end of both \<open>commit_with_failpoint\<close> and \<open>recover\<close>: receipt out, journal gone.\<close>

definition settle ::
  "('x) commit_ext_scheme \<Rightarrow> commit_engine \<Rightarrow> stage_id \<Rightarrow> commit_journal \<Rightarrow> commit_receipt cio" where
  "settle X e i journal =
     io_bind (io_read (\<lambda>w. Inr (receipt i (cj_root journal) (cj_operations journal)
       (journal_len (w_fs w) (journal_path X e i)) 0))) (\<lambda>r.
     io_bind (write_receipt X (receipt_path X e i) r (ce_durability e)) (\<lambda>_.
     io_bind (remove_journal (journal_path X e i)) (\<lambda>_.
     io_ok r)))"

definition check_root ::
  "('x) ext_scheme \<Rightarrow> commit_engine \<Rightarrow> source_root_id \<Rightarrow> fs \<Rightarrow> commit_refusal + unit" where
  "check_root X e root fs =
     rbind (map_err io_refusal (actual_root_id X e root fs)) (\<lambda>actual.
     if actual \<noteq> root then Inl (RootMismatch root actual) else Inr ())"

text \<open>From the journal-existence check to the written journal.\<close>

definition prepare_commit ::
  "('x) commit_ext_scheme \<Rightarrow> commit_engine \<Rightarrow> staged_transaction \<Rightarrow> commit_journal cio" where
  "prepare_commit X e stage =
     io_bind (io_read (\<lambda>w. if path_exists (w_fs w) (journal_path X e (st_id stage))
       then Inl (RecoveryRequired (st_id stage) (journal_path X e (st_id stage))) else Inr ())) (\<lambda>_.
     io_bind (io_read (\<lambda>w. preflight X e (w_fs w) stage)) (\<lambda>journal.
     io_bind (io_read (\<lambda>_. validate_journal journal)) (\<lambda>_.
     io_bind (materialize_payloads X e stage journal) (\<lambda>_.
     io_bind (write_journal X (journal_path X e (st_id stage)) journal (ce_durability e)
       (cross_root_level e)) (\<lambda>_.
     io_ok journal)))))"

definition commit_locked ::
  "('x) commit_ext_scheme \<Rightarrow> commit_engine \<Rightarrow> staged_transaction \<Rightarrow> commit_failpoint option \<Rightarrow>
     commit_receipt cio" where
  "commit_locked X e stage failpoint =
     io_bind (io_read (\<lambda>w. check_root X e (st_root stage) (w_fs w))) (\<lambda>_.
     io_bind (io_read (\<lambda>w. check_receipt X e stage (w_fs w))) (\<lambda>done.
     (case done of
        Some r \<Rightarrow> io_ok r
      | None \<Rightarrow>
          io_bind (prepare_commit X e stage) (\<lambda>journal.
          if failpoint = Some AfterJournal then io_err (Failpoint AfterJournal)
          else io_bind (apply_journal X e journal failpoint []) (\<lambda>_.
            settle X e (st_id stage) journal)))))"

definition commit_with_failpoint ::
  "('x) commit_ext_scheme \<Rightarrow> commit_engine \<Rightarrow> staged_transaction \<Rightarrow> commit_failpoint option \<Rightarrow>
     commit_receipt cio" where
  "commit_with_failpoint X e stage failpoint = with_lock X e (commit_locked X e stage failpoint)"

definition commit :: "('x) commit_ext_scheme \<Rightarrow> commit_engine \<Rightarrow> staged_transaction \<Rightarrow> commit_receipt cio" where
  "commit X e stage = commit_with_failpoint X e stage None"

subsection \<open>Recovery\<close>

definition classify_all ::
  "('x) ext_scheme \<Rightarrow> commit_engine \<Rightarrow> commit_journal \<Rightarrow> fs \<Rightarrow> commit_refusal + operation_state list" where
  "classify_all X e journal fs =
     rmap_all (\<lambda>op. rbind (operation_bytes X e fs op) (\<lambda>b.
       classify_operation X fs (ce_target_root e) op b)) (cj_operations journal)"

definition completed_of :: "operation_state list \<Rightarrow> nat btset" where
  "completed_of states =
     bs_collect (map fst (filter (\<lambda>(_, st). st = After) (zip [0..<length states] states)))"

definition recover_locked ::
  "('x) commit_ext_scheme \<Rightarrow> commit_engine \<Rightarrow> stage_id \<Rightarrow> commit_receipt cio" where
  "recover_locked X e i =
     io_bind (io_read (\<lambda>w. read_journal X (journal_path X e i) (w_fs w))) (\<lambda>journal.
     io_bind (io_read (\<lambda>_. if cj_stage_id journal \<noteq> i
       then Inl (CommitIo ''validate commit journal'' ''journal stage ID mismatch'') else Inr ())) (\<lambda>_.
     io_bind (io_read (\<lambda>_. validate_journal journal)) (\<lambda>_.
     io_bind (io_read (\<lambda>w. check_root X e (cj_root journal) (w_fs w))) (\<lambda>_.
     io_bind (io_read (\<lambda>w. rfor_each (check_paths (w_fs w) (ce_target_root e)) (cj_operations journal))) (\<lambda>_.
     io_bind (io_read (\<lambda>w. classify_all X e journal (w_fs w))) (\<lambda>states.
     if Diverged \<in> set states then io_err (RecoveryRequired i (journal_path X e i))
     else io_bind (apply_journal X e journal None (completed_of states)) (\<lambda>_.
       settle X e i journal)))))))"

definition recover :: "('x) commit_ext_scheme \<Rightarrow> commit_engine \<Rightarrow> stage_id \<Rightarrow> commit_receipt cio" where
  "recover X e i = with_lock X e (recover_locked X e i)"

end
