(* ===== verification/RedoLog.thy ===== *)
theory RedoLog
  imports Main
begin

text \<open>
  Replaying a list of operations after an interruption, in general. \<open>act\<close> is the effect of an
  operation, \<open>ready\<close> the state it was admitted in, \<open>finished\<close> what a recovery can observe of it.
  The laws say that an admitted operation finishes, that apart operations do not disturb each
  other, and that an operation which is ready and looks finished has no effect. From the laws
  alone: running everything that does not look finished, from any intermediate state, ends
  where the uninterrupted run ends.
\<close>

locale redo_log =
  fixes act :: "'o \<Rightarrow> 's \<Rightarrow> 's"
    and ready :: "'o \<Rightarrow> 's \<Rightarrow> bool"
    and finished :: "'o \<Rightarrow> 's \<Rightarrow> bool"
    and apart :: "'o \<Rightarrow> 'o \<Rightarrow> bool"
    and ok :: "'s \<Rightarrow> bool"
  assumes act_ok: "ok s \<Longrightarrow> ready o1 s \<Longrightarrow> ok (act o1 s)"
    and act_finished: "ok s \<Longrightarrow> ready o1 s \<Longrightarrow> finished o1 (act o1 s)"
    and act_ready: "apart o1 o2 \<Longrightarrow> ok s \<Longrightarrow> ready o1 s \<Longrightarrow> ready o2 s \<Longrightarrow> ready o2 (act o1 s)"
    and act_keeps: "apart o1 o2 \<Longrightarrow> ok s \<Longrightarrow> ready o1 s \<Longrightarrow> finished o2 s \<Longrightarrow> finished o2 (act o1 s)"
    and act_skip: "ok s \<Longrightarrow> ready o1 s \<Longrightarrow> finished o1 s \<Longrightarrow> act o1 s = s"
    and apart_sym: "apart o1 o2 \<Longrightarrow> apart o2 o1"
begin

definition run :: "'o list \<Rightarrow> 's \<Rightarrow> 's" where
  "run ops s = fold act ops s"

definition all_ready :: "'o list \<Rightarrow> 's \<Rightarrow> bool" where
  "all_ready ops s \<longleftrightarrow> ok s \<and> sorted_wrt apart ops \<and> (\<forall>x \<in> set ops. ready x s)"

fun replay :: "(bool \<times> 'o) list \<Rightarrow> 's \<Rightarrow> 's" where
  "replay [] s = s"
| "replay ((skip, x) # rest) s = replay rest (if skip then s else act x s)"

lemma run_simps [simp]: "run [] s = s" "run (x # xs) s = run xs (act x s)"
  by (simp_all add: run_def)

lemma run_append: "run (xs @ ys) s = run ys (run xs s)"
  by (simp add: run_def)

lemma all_ready_step: "all_ready (x # xs) s \<Longrightarrow> all_ready xs (act x s)"
  using act_ok act_ready by (auto simp: all_ready_def)

lemma all_ready_run: "all_ready (xs @ ys) s \<Longrightarrow> all_ready ys (run xs s)"
proof (induction xs arbitrary: s)
  case (Cons x xs)
  then show ?case using all_ready_step [of x "xs @ ys" s] by simp
qed simp

lemma finished_run:
  assumes "all_ready xs s" "finished y s" "\<forall>x \<in> set xs. apart x y"
  shows "finished y (run xs s)"
  using assms
proof (induction xs arbitrary: s)
  case (Cons x xs)
  have "finished y (act x s)" using Cons.prems act_keeps by (auto simp: all_ready_def)
  with Cons.IH [OF all_ready_step [OF Cons.prems(1)]] Cons.prems(3) show ?case by simp
qed simp

lemma all_finished: "all_ready xs s \<Longrightarrow> x \<in> set xs \<Longrightarrow> finished x (run xs s)"
proof (induction xs arbitrary: s)
  case (Cons y ys)
  note step = all_ready_step [OF Cons.prems(1)]
  show ?case
  proof (cases "x = y")
    case True
    have "finished y (act y s)" using Cons.prems(1) act_finished by (simp add: all_ready_def)
    then show ?thesis
      using Cons.prems(1) apart_sym True by (auto simp: all_ready_def intro!: finished_run [OF step])
  next
    case False
    then show ?thesis using Cons step by simp
  qed
qed simp

lemma replay_pending:
  assumes "all_ready xs s" "\<forall>x \<in> set xs. done x \<longrightarrow> finished x s"
  shows "replay (map (\<lambda>x. (done x, x)) xs) s = run xs s"
  using assms
proof (induction xs arbitrary: s)
  case (Cons x xs)
  note step = all_ready_step [OF Cons.prems(1)]
  have "\<forall>y \<in> set xs. done y \<longrightarrow> finished y (act x s)"
    using Cons.prems act_keeps by (auto simp: all_ready_def)
  moreover have "act x s = s" if "done x"
    using Cons.prems that act_skip by (auto simp: all_ready_def)
  ultimately show ?case using Cons.IH [OF step] by auto
qed simp

lemma replay_skipped: "\<forall>x \<in> set xs. done x \<Longrightarrow> replay (map (\<lambda>x. (done x, x)) xs) s = s"
  by (induction xs arbitrary: s) auto

lemma replay_append: "replay (xs @ ys) s = replay ys (replay xs s)"
proof (induction xs arbitrary: s)
  case (Cons x xs)
  then show ?case by (cases x) simp
qed simp

text \<open>The recovery: what looks finished after an interruption is skipped, the rest is run.\<close>

lemma replay_after_interruption:
  assumes "all_ready (xs @ ys) s"
  shows "replay (map (\<lambda>x. (finished x (run xs s), x)) (xs @ ys)) (run xs s) = run (xs @ ys) s"
proof -
  have xs: "all_ready xs s" using assms by (simp add: all_ready_def sorted_wrt_append)
  have "replay (map (\<lambda>x. (finished x (run xs s), x)) xs) (run xs s) = run xs s"
    by (rule replay_skipped) (simp add: all_finished [OF xs])
  then show ?thesis
    using replay_pending [OF all_ready_run [OF assms], of "\<lambda>x. finished x (run xs s)"]
    by (simp add: replay_append run_append)
qed

lemma interrupted_states:
  assumes "all_ready (xs @ ys) s" "x \<in> set (xs @ ys)"
  shows "ready x (run xs s) \<or> finished x (run xs s)"
proof -
  have "all_ready xs s" using assms(1) by (simp add: all_ready_def sorted_wrt_append)
  then show ?thesis
    using assms all_finished [of xs s] all_ready_run [OF assms(1)] by (auto simp: all_ready_def)
qed

end

end
