(* ===== verification/TreeOps.thy ===== *)
theory TreeOps
  imports Commit RedoLog
begin

text \<open>
  The effect of a journal on the tree, as the specification the commit engine is checked
  against: \<open>tree_apply\<close> is what one operation does to the lookup function of the file system,
  \<open>op_ready\<close> the state in which the preflight admits it, \<open>op_finished\<close> what the recovery's
  classification sees once it has run. The interpretation \<open>redo\<close> shows that these satisfy the
  laws of \<open>redo_log\<close>.
\<close>

subsection \<open>Specification\<close>

type_synonym jop = "journal_operation \<times> bytes option"

definition op_targets :: "apath \<Rightarrow> journal_operation \<Rightarrow> apath list" where
  "op_targets root op = map (target_path root) (jo_paths op)"

definition op_src :: "apath \<Rightarrow> journal_operation \<Rightarrow> apath" where
  "op_src root op = target_path root (the (jo_before_path op))"

definition op_dst :: "apath \<Rightarrow> journal_operation \<Rightarrow> apath" where
  "op_dst root op = target_path root (the (jo_after_path op))"

definition put_mode :: "journal_operation \<Rightarrow> u32 \<Rightarrow> u32" where
  "put_mode op u = (case jo_mode op of None \<Rightarrow> fresh_of u | Some m \<Rightarrow> set_mode m (fresh_of u))"

definition tree_apply :: "apath \<Rightarrow> u32 \<Rightarrow> jop \<Rightarrow> tree \<Rightarrow> tree" where
  "tree_apply root u = (\<lambda>(op, b) g.
     let src = op_src root op; dst = op_dst root op
     in case jo_kind op of
          KDelete \<Rightarrow> g(src := None)
        | KMove \<Rightarrow> (mkdirs (butlast dst) g)(src := None, dst := g src)
        | _ \<Rightarrow> (mkdirs (butlast dst) g)(dst \<mapsto> NFile (the b) (put_mode op u)))"

text \<open>The verdict of \<open>content_matches\<close> on bytes already read.\<close>

definition cid_matches ::
  "('x) ext_scheme \<Rightarrow> apath \<Rightarrow> content_id \<Rightarrow> bytes \<Rightarrow> commit_refusal + bool" where
  "cid_matches X root cid b =
     (case cid of
        Blake3 d \<Rightarrow> Inr (Blake3 (x_hash X b) = cid)
      | GitBlob oid \<Rightarrow>
          rbind (map_err io_refusal (x_discover X root)) (\<lambda>repository.
          rbind (map_err io_refusal (x_hash_object X repository b)) (\<lambda>observed.
            Inr (GitBlob observed = cid))))"

definition holds_file :: "('x) ext_scheme \<Rightarrow> apath \<Rightarrow> journal_operation \<Rightarrow> node option \<Rightarrow> bool" where
  "holds_file X root op n \<longleftrightarrow> (\<exists>b m cid. n = Some (NFile b m) \<and> jo_expected op = Some cid \<and>
     cid_matches X root cid b = Inr True)"

definition op_shape :: "jop \<Rightarrow> bool" where
  "op_shape = (\<lambda>(op, b). case jo_kind op of
       KCreate \<Rightarrow> jo_before_path op = None \<and> jo_after_path op \<noteq> None \<and> b \<noteq> None \<and> jo_expected op = None
     | KReplace \<Rightarrow> jo_before_path op = jo_after_path op \<and> jo_after_path op \<noteq> None \<and> b \<noteq> None
     | KMove \<Rightarrow> jo_before_path op \<noteq> None \<and> jo_after_path op \<noteq> None \<and> b \<noteq> None
     | KDelete \<Rightarrow> jo_before_path op \<noteq> None \<and> jo_after_path op = None)"

definition op_clear :: "apath \<Rightarrow> journal_operation \<Rightarrow> tree \<Rightarrow> bool" where
  "op_clear root op g \<longleftrightarrow>
     (\<forall>p \<in> set (jo_paths op). plain_rel (path_text p) \<and> clear g (target_path root p))"

definition op_ready :: "('x) ext_scheme \<Rightarrow> apath \<Rightarrow> jop \<Rightarrow> tree \<Rightarrow> bool" where
  "op_ready X root = (\<lambda>(op, b) g. op_shape (op, b) \<and> op_clear root op g \<and>
     (case jo_kind op of
        KCreate \<Rightarrow> g (op_dst root op) = None
      | KReplace \<Rightarrow> holds_file X root op (g (op_dst root op)) \<and>
          (\<exists>m b0 m0. jo_mode op = Some m \<and> fmo_unix_mode m = Some m0 \<and> g (op_dst root op) = Some (NFile b0 m0))
      | KMove \<Rightarrow> holds_file X root op (g (op_src root op)) \<and> g (op_dst root op) = None \<and>
          (\<exists>m0. g (op_src root op) = Some (NFile (the b) m0))
      | KDelete \<Rightarrow> holds_file X root op (g (op_src root op))))"

definition op_finished :: "apath \<Rightarrow> jop \<Rightarrow> tree \<Rightarrow> bool" where
  "op_finished root = (\<lambda>(op, b) g. op_shape (op, b) \<and> op_clear root op g \<and>
     (case jo_kind op of
        KDelete \<Rightarrow> g (op_src root op) = None
      | KMove \<Rightarrow> g (op_src root op) = None \<and> (\<exists>m. g (op_dst root op) = Some (NFile (the b) m))
      | _ \<Rightarrow> \<exists>m. g (op_dst root op) = Some (NFile (the b) m)))"

definition comparable :: "apath \<Rightarrow> apath \<Rightarrow> bool" where
  "comparable p q \<longleftrightarrow> prefix p q \<or> prefix q p"

definition op_apart :: "apath \<Rightarrow> jop \<Rightarrow> jop \<Rightarrow> bool" where
  "op_apart root = (\<lambda>(a, _) (b, _).
     \<forall>x \<in> set (op_targets root a). \<forall>y \<in> set (op_targets root b). \<not> comparable x y)"

subsection \<open>Points an operation changes\<close>

lemma target_plain: "plain_rel (path_text p) \<Longrightarrow> target_path root p = root @ os_names (path_text p)"
  by (simp add: target_path_def join_plain)

lemma target_nonroot: "plain_rel (path_text p) \<Longrightarrow> target_path root p \<noteq> [] \<and> strict_prefix root (target_path root p)"
  by (simp add: target_plain os_names_plain strict_prefix_def)

lemma op_paths_cases:
  assumes "op_shape (op, b)"
  shows "jo_kind op = KDelete \<Longrightarrow> op_targets root op = [op_src root op]"
    "jo_kind op = KMove \<Longrightarrow> op_targets root op = [op_src root op, op_dst root op]"
    "jo_kind op = KCreate \<Longrightarrow> op_targets root op = [op_dst root op]"
    "jo_kind op = KReplace \<Longrightarrow> op_targets root op = [op_dst root op, op_dst root op]"
  using assms by (auto simp: op_shape_def op_targets_def jo_paths_def op_src_def op_dst_def)

lemma op_clear_targets:
  "op_clear root op g \<Longrightarrow> x \<in> set (op_targets root op) \<Longrightarrow> clear g x \<and> strict_prefix root x \<and> x \<noteq> []"
  using target_nonroot by (auto simp: op_clear_def op_targets_def)

lemma op_ready_shape: "op_ready X root (op, b) g \<Longrightarrow> op_shape (op, b) \<and> op_clear root op g"
  by (auto simp: op_ready_def)

lemma strict_prefix_butlast: "dst \<noteq> [] \<Longrightarrow> prefix q (butlast dst) \<longleftrightarrow> strict_prefix q dst"
  by (cases dst rule: rev_cases) (auto simp: strict_prefix_def)

lemma tree_apply_point:
  assumes "op_ready X root (op, b) g" "q \<notin> set (op_targets root op)"
  shows "tree_apply root u (op, b) g q = g q \<or>
    (\<exists>y \<in> set (op_targets root op). strict_prefix q y \<and> tree_apply root u (op, b) g q = Some NDir)"
proof -
  note sh = op_ready_shape [OF assms(1)]
  have ne: "x \<noteq> []" if "x \<in> set (op_targets root op)" for x
    using op_clear_targets sh that by blast
  show ?thesis
    using assms(2) ne op_paths_cases [of op b root] sh
    by (cases "jo_kind op")
      (auto simp: tree_apply_def Let_def mkdirs_def strict_prefix_butlast split: if_splits)
qed

lemma tree_apply_unchanged:
  assumes "op_ready X root (op, b) g" "\<forall>y \<in> set (op_targets root op). \<not> prefix q y"
  shows "tree_apply root u (op, b) g q = g q"
  using tree_apply_point [OF assms(1), of q u] assms(2) by (auto simp: strict_prefix_def)

lemma ready_self:
  assumes "tree g" "op_ready X root (op, b) g" "x \<in> set (op_targets root op)" "y \<in> set (op_targets root op)"
  shows "\<not> strict_prefix x y"
proof
  assume xy: "strict_prefix x y"
  note sh = op_ready_shape [OF assms(2)]
  then have kind: "jo_kind op = KMove"
    using op_paths_cases [of op b root] assms(3,4) xy by (cases "jo_kind op") auto
  then have t: "op_targets root op = [op_src root op, op_dst root op]"
    using sh op_paths_cases by blast
  have src: "g (op_src root op) \<noteq> None" "g (op_src root op) \<noteq> Some NDir" and dst: "g (op_dst root op) = None"
    using assms(2) kind by (auto simp: op_ready_def holds_file_def)
  from xy t assms(3,4) consider "x = op_src root op" "y = op_dst root op" | "x = op_dst root op" "y = op_src root op"
    by (auto simp: strict_prefix_def)
  then show False
  proof cases
    case 1
    have "clear g y" using op_clear_targets sh assms(4) by blast
    with 1 src xy show False using clear_above by metis
  next
    case 2
    then show False using tree_strict_prefix [OF assms(1) xy] src(1) dst by simp
  qed
qed

lemma clear_apply:
  assumes "op_ready X root (op, b) g" "clear g q" "\<forall>y \<in> set (op_targets root op). \<not> strict_prefix y q"
  shows "clear (tree_apply root u (op, b) g) q"
  unfolding clear_def
proof (intro allI impI)
  fix z assume z: "strict_prefix z q"
  with assms(3) have "z \<notin> set (op_targets root op)" by blast
  then show "tree_apply root u (op, b) g z = None \<or> tree_apply root u (op, b) g z = Some NDir"
    using tree_apply_point [OF assms(1), of z u] clear_above [OF assms(2) z] by auto
qed


subsection \<open>The laws of the redo log\<close>

lemma tree_apply_tree:
  assumes "tree g" "op_ready X root (op, b) g"
  shows "tree (tree_apply root u (op, b) g)"
proof -
  note sh = op_ready_shape [OF assms(2)]
  let ?dst = "op_dst root op" and ?src = "op_src root op"
  have md: "tree (mkdirs (butlast ?dst) g)" "?dst \<noteq> []"
      "mkdirs (butlast ?dst) g (butlast ?dst) = Some NDir" "mkdirs (butlast ?dst) g ?dst = g ?dst"
    if "?dst \<in> set (op_targets root op)"
  proof -
    have c: "clear g ?dst" and ne: "?dst \<noteq> []" using op_clear_targets sh that by blast+
    then have "strict_prefix (butlast ?dst) ?dst" by (simp flip: strict_prefix_butlast)
    moreover from this have "clear g (butlast ?dst)" using c clear_prefix by (auto simp: strict_prefix_def)
    ultimately show "tree (mkdirs (butlast ?dst) g)"
      using clear_above [OF c] by (intro tree_mkdirs [OF assms(1)])
    show "?dst \<noteq> []" by (rule ne)
    show "mkdirs (butlast ?dst) g (butlast ?dst) = Some NDir" by (simp add: mkdirs_def)
    show "mkdirs (butlast ?dst) g ?dst = g ?dst" using ne by (simp add: mkdirs_def strict_prefix_butlast)
  qed
  have put: "tree (tree_apply root u (op, b) g)" if "jo_kind op = KCreate \<or> jo_kind op = KReplace"
  proof -
    have m: "?dst \<in> set (op_targets root op)" using op_paths_cases [of op b root] sh that by auto
    have "g ?dst \<noteq> Some NDir" using assms(2) that by (auto simp: op_ready_def)
    then have "tree ((mkdirs (butlast ?dst) g)(?dst \<mapsto> NFile (the b) (put_mode op u)))"
      using md [OF m] by (intro tree_put) (auto simp: put_mode_def set_mode_def split: option.splits)
    with that show ?thesis by (auto simp: tree_apply_def Let_def)
  qed
  show ?thesis
  proof (cases "jo_kind op")
    case KDelete
    then have "g ?src \<noteq> Some NDir" using assms(2) by (auto simp: op_ready_def holds_file_def)
    with KDelete show ?thesis by (simp add: tree_apply_def tree_del [OF assms(1)])
  next
    case KMove
    then have m: "?dst \<in> set (op_targets root op)" "?src \<in> set (op_targets root op)"
      using op_paths_cases [of op b root] sh by auto
    obtain b0 m0 where src: "g ?src = Some (NFile b0 m0)" and dst: "g ?dst = None"
      using assms(2) KMove by (auto simp: op_ready_def)
    have np: "\<not> prefix ?src (butlast ?dst)"
      using ready_self [OF assms m(2,1)] md(2) [OF m(1)] by (simp add: strict_prefix_butlast)
    have "mkdirs (butlast ?dst) g ?src \<noteq> Some NDir" using np src by (simp add: mkdirs_def)
    then have "tree ((mkdirs (butlast ?dst) g)(?src := None))" by (rule tree_del [OF md(1) [OF m(1)]])
    then have "tree ((mkdirs (butlast ?dst) g)(?src := None, ?dst \<mapsto> NFile b0 m0))"
      using md [OF m(1)] np dst src tree_mode [OF assms(1) src] by (intro tree_put) auto
    with KMove src show ?thesis by (simp add: tree_apply_def Let_def)
  qed (use put in auto)
qed

lemma op_clear_apply:
  assumes "op_ready X root (op, b) g" "op_clear root op2 g"
    and "\<forall>x \<in> set (op_targets root op). \<forall>y \<in> set (op_targets root op2). \<not> strict_prefix x y"
  shows "op_clear root op2 (tree_apply root u (op, b) g)"
  using assms clear_apply [OF assms(1)] by (auto simp: op_clear_def op_targets_def)

lemma tree_apply_finished:
  assumes "tree g" "op_ready X root (op, b) g"
  shows "op_finished root (op, b) (tree_apply root u (op, b) g)"
proof -
  note sh = op_ready_shape [OF assms(2)]
  have "op_clear root op (tree_apply root u (op, b) g)"
    using ready_self [OF assms] sh by (intro op_clear_apply [OF assms(2)]) auto
  moreover have "op_src root op \<noteq> op_dst root op" if "jo_kind op = KMove"
    using assms(2) that by (auto simp: op_ready_def)
  ultimately show ?thesis
    using sh assms(2)
    by (cases "jo_kind op") (auto simp: op_finished_def tree_apply_def Let_def op_ready_def)
qed

lemma apart_point:
  assumes "op_apart root (op, b) (op2, b2)" "op_ready X root (op, b) g" "y \<in> set (op_targets root op2)"
  shows "tree_apply root u (op, b) g y = g y"
  using assms by (intro tree_apply_unchanged) (auto simp: op_apart_def comparable_def)

lemma apart_clear:
  assumes "op_apart root (op, b) (op2, b2)" "op_ready X root (op, b) g" "op_clear root op2 g"
  shows "op_clear root op2 (tree_apply root u (op, b) g)"
  using assms by (intro op_clear_apply) (auto simp: op_apart_def comparable_def strict_prefix_def)

lemma shape_targets:
  assumes "op_shape (op, b)"
  shows "jo_kind op \<noteq> KDelete \<Longrightarrow> op_dst root op \<in> set (op_targets root op)"
    "jo_kind op \<in> {KMove, KDelete} \<Longrightarrow> op_src root op \<in> set (op_targets root op)"
  using op_paths_cases [OF assms, of root] by (cases "jo_kind op"; simp)+

lemma apart_ready:
  assumes "op_apart root (op, b) (op2, b2)" "op_ready X root (op, b) g" "op_ready X root (op2, b2) g"
  shows "op_ready X root (op2, b2) (tree_apply root u (op, b) g)"
proof -
  note pt = apart_point [OF assms(1,2), of _ u]
  have s2: "op_shape (op2, b2)" "op_clear root op2 g" using op_ready_shape [OF assms(3)] by auto
  note cl = apart_clear [OF assms(1,2) s2(2), of u]
  show ?thesis
    using assms(3) s2(1) cl pt [OF shape_targets(1) [OF s2(1)]] pt [OF shape_targets(2) [OF s2(1)]]
    by (cases "jo_kind op2") (auto simp: op_ready_def)
qed

lemma apart_finished:
  assumes "op_apart root (op, b) (op2, b2)" "op_ready X root (op, b) g" "op_finished root (op2, b2) g"
  shows "op_finished root (op2, b2) (tree_apply root u (op, b) g)"
proof -
  note pt = apart_point [OF assms(1,2), of _ u]
  have s2: "op_shape (op2, b2)" "op_clear root op2 g" using assms(3) by (auto simp: op_finished_def)
  note cl = apart_clear [OF assms(1,2) s2(2), of u]
  show ?thesis
    using assms(3) s2(1) cl pt [OF shape_targets(1) [OF s2(1)]] pt [OF shape_targets(2) [OF s2(1)]]
    by (cases "jo_kind op2") (auto simp: op_finished_def)
qed

text \<open>A replacement whose target already has the new bytes changes nothing: the mode it writes is
  the one the preflight observed.\<close>

lemma put_mode_observed:
  assumes "jo_mode op = Some m" "fmo_unix_mode m = Some m0" "mode_regular m0"
  shows "put_mode op u = m0"
  using assms by (simp add: put_mode_def set_mode_def requested_mode_def chmod_regular)

lemma finished_skip:
  assumes "tree g" "op_ready X root (op, b) g" "op_finished root (op, b) g"
  shows "tree_apply root u (op, b) g = g"
proof (cases "jo_kind op")
  case KReplace
  then obtain m m0 m1 b0 where m: "jo_mode op = Some m" "fmo_unix_mode m = Some m0"
      "g (op_dst root op) = Some (NFile b0 m0)" "g (op_dst root op) = Some (NFile (the b) m1)"
    using assms(2,3) by (auto simp: op_ready_def op_finished_def)
  have "put_mode op u = m0" using put_mode_observed m tree_mode [OF assms(1)] by blast
  moreover have "mkdirs (butlast (op_dst root op)) g = g"
  proof -
    have "op_dst root op \<noteq> []" using tree_root [OF assms(1)] m(3) by auto
    then show ?thesis using tree_butlast [OF assms(1)] m(3) by (auto intro: mkdirs_same [OF assms(1)])
  qed
  ultimately show ?thesis using KReplace m by (auto simp: tree_apply_def Let_def)
qed (use assms in \<open>auto simp: op_ready_def op_finished_def holds_file_def\<close>)

lemma op_apart_sym: "op_apart root o1 o2 \<Longrightarrow> op_apart root o2 o1"
  by (auto simp: op_apart_def comparable_def split: prod.splits)

interpretation redo: redo_log "tree_apply root u" "op_ready X root" "op_finished root" "op_apart root" tree
proof unfold_locales
  fix s :: tree and o1 o2 :: jop
  obtain a b c d where o: "o1 = (a, b)" "o2 = (c, d)" by (metis surj_pair)
  show "tree s \<Longrightarrow> op_ready X root o1 s \<Longrightarrow> tree (tree_apply root u o1 s)"
    unfolding o by (rule tree_apply_tree)
  show "tree s \<Longrightarrow> op_ready X root o1 s \<Longrightarrow> op_finished root o1 (tree_apply root u o1 s)"
    unfolding o by (rule tree_apply_finished)
  show "op_apart root o1 o2 \<Longrightarrow> tree s \<Longrightarrow> op_ready X root o1 s \<Longrightarrow> op_ready X root o2 s \<Longrightarrow>
      op_ready X root o2 (tree_apply root u o1 s)"
    unfolding o by (rule apart_ready)
  show "op_apart root o1 o2 \<Longrightarrow> tree s \<Longrightarrow> op_ready X root o1 s \<Longrightarrow> op_finished root o2 s \<Longrightarrow>
      op_finished root o2 (tree_apply root u o1 s)"
    unfolding o by (rule apart_finished)
  show "tree s \<Longrightarrow> op_ready X root o1 s \<Longrightarrow> op_finished root o1 s \<Longrightarrow> tree_apply root u o1 s = s"
    unfolding o by (rule finished_skip)
  show "op_apart root o1 o2 \<Longrightarrow> op_apart root o2 o1" by (rule op_apart_sym)
qed

end
