(* ===== verification/Refine.thy ===== *)
theory Refine
  imports TreeOps
begin

text \<open>
  The operations of the commit engine refine the specification of \<open>TreeOps\<close>: on a well-formed
  world, \<open>apply_operation\<close> of an admitted operation succeeds and performs \<open>tree_apply\<close>, in both
  durabilities, and \<open>classify_operation\<close> decides \<open>op_finished\<close>.
\<close>

subsection \<open>One operation\<close>

lemma strict_butlast: "p \<noteq> [] \<Longrightarrow> strict_prefix (butlast p) p"
  by (simp flip: strict_prefix_butlast)

lemma io_map_err_ok: "m s = (Inr a, t) \<Longrightarrow> io_map_err f m s = (Inr a, t)"
  by simp

lemma io_bind_read: "io_bind (io_read r) f s = (case r s of Inl e \<Rightarrow> (Inl e, s) | Inr a \<Rightarrow> f a s)"
  by (simp add: io_bind_def split: sum.splits)


lemma path_parent_butlast: "names_ok p \<Longrightarrow> p \<noteq> [] \<Longrightarrow> path_parent p = Some (butlast p)"
  by (cases p rule: rev_cases) (auto simp: path_parent_names)

lemma ensure_parent_moves:
  assumes "world_ok w" "names_ok p" "p \<noteq> []" "clear (w_tree w) p"
  shows "\<exists>w'. ensure_parent_dirs p w = (Inr (), w') \<and> moves w w' (mkdirs (butlast p) (w_tree w))"
proof -
  have sp: "strict_prefix (butlast p) p" using assms(3) by (simp flip: strict_prefix_butlast)
  then have "clear (w_tree w) (butlast p)" using assms(4) clear_prefix by (auto simp: strict_prefix_def)
  moreover have "names_ok (butlast p)" using assms(2) sp names_ok_prefix by (auto simp: strict_prefix_def)
  ultimately obtain w' where "create_dir_all (butlast p) w = (Inr (), w')"
      "moves w w' (mkdirs (butlast p) (w_tree w))"
    using create_dir_all_moves [OF assms(1)] clear_above [OF assms(4) sp] by blast
  then show ?thesis
    using assms by (simp add: ensure_parent_dirs_def path_parent_butlast)
qed

lemma atomic_write_moves:
  assumes "world_ok w" "names_ok p" "p \<noteq> []" "w_tree w (butlast p) = Some NDir"
    and "w_tree w p = None \<or> (\<exists>b0 m0 m. w_tree w p = Some (NFile b0 m0) \<and> mode = Some m \<and> fmo_unix_mode m = Some m0)"
  shows "\<exists>w'. atomic_write p b mode d w = (Inr (), w') \<and>
    moves w w' ((w_tree w)(p \<mapsto> NFile b (case mode of None \<Rightarrow> fresh_mode w | Some m \<Rightarrow> set_mode m (fresh_mode w))))"
proof (cases "dry_run d")
  case False
  let ?prep = "case mode of None \<Rightarrow> id | Some m \<Rightarrow> set_mode m"
  have "mode_regular (?prep (fresh_mode w))" by (cases mode) (simp_all add: set_mode_def)
  then obtain w' where "publish_file p b SyncData ?prep w = (Inr (), w')"
      "moves w w' ((w_tree w)(p \<mapsto> NFile b (?prep (fresh_mode w))))"
    using publish_file_moves [OF assms(1-4), of ?prep b SyncData] assms(5) by auto
  with False show ?thesis by (cases mode) (auto simp: atomic_write_def)
next
  case True
  note t = world_ok_tree [OF assms(1)]
  define m0 where "m0 = (case w_tree w p of Some (NFile b0 m0) \<Rightarrow> m0 | _ \<Rightarrow> fresh_mode w)"
  obtain w1 where w1: "fs_write p b w = (Inr (), w1)" "moves w w1 ((w_tree w)(p \<mapsto> NFile b m0))"
    using fs_write_moves [OF assms(1-4), of m0 b] assms(5) by (auto simp: m0_def)
  show ?thesis
  proof (cases mode)
    case None
    then have "w_tree w p = None" using assms(5) by auto
    then show ?thesis using w1 None True
      by (auto simp: atomic_write_def write_unsynced_def m0_def io_bind_def io_map_err_def)
  next
    case (Some m)
    have st: "w_tree w1 p = Some (NFile b m0)" using movesD(2) [OF w1(2)] by simp
    note ok1 = movesD(1) [OF w1(2)]
    obtain w2 where w2: "fs_chmod p (requested_mode m) w1 = (Inr (), w2)"
        "moves w1 w2 ((w_tree w1)(p \<mapsto> NFile b (chmod_mode m0 (requested_mode m m0))))"
      using fs_chmod_moves [OF ok1 assms(2) st] by blast
    have reg: "mode_regular m0" using tree_mode [OF world_ok_tree [OF ok1] st] .
    have eq: "chmod_mode m0 (requested_mode m m0) = set_mode m (fresh_mode w)"
    proof (cases "w_tree w p")
      case None
      then show ?thesis by (simp add: m0_def set_mode_def)
    next
      case (Some n)
      then have "fmo_unix_mode m = Some m0" using assms(5) \<open>mode = Some m\<close> by (auto simp: m0_def)
      then show ?thesis using reg by (simp add: set_mode_def requested_mode_def chmod_regular)
    qed
    have "stat (w_fs w1) p = Inr (NFile b m0)"
      using st assms(2) by (simp add: stat_present world_ok_tree [OF ok1])
    then show ?thesis
      using w1 w2 Some True eq moves_trans [OF w1(2) w2(2)] movesD(2) [OF w1(2)]
      by (auto simp: atomic_write_def write_unsynced_def io_bind_def io_map_err_def)
  qed
qed

definition op_dirs :: "apath \<Rightarrow> journal_operation \<Rightarrow> dirs \<Rightarrow> dirs" where
  "op_dirs root op ds =
     (case jo_kind op of
        KMove \<Rightarrow> bs_insert (parent_of (op_dst root op)) (bs_insert (parent_of (op_src root op)) ds)
      | KDelete \<Rightarrow> bs_insert (parent_of (op_src root op)) ds
      | _ \<Rightarrow> bs_insert (parent_of (op_dst root op)) ds)"

lemma target_names:
  assumes "names_ok root" "op_clear root op g" "x \<in> set (op_targets root op)"
  shows "names_ok x"
proof -
  obtain p where "plain_rel (path_text p)" "x = target_path root p"
    using assms(2,3) by (auto simp: op_clear_def op_targets_def)
  then show ?thesis using assms(1) os_names_plain by (simp add: target_plain names_ok_def)
qed

lemma apply_operation_refines:
  assumes "world_ok w" "names_ok root" "op_ready X root (op, b) (w_tree w)"
  shows "\<exists>w'. apply_operation root op (case b of None \<Rightarrow> [] | Some x \<Rightarrow> x) d ds w = (Inr (op_dirs root op ds), w') \<and>
     moves w w' (tree_apply root (w_umask w) (op, b) (w_tree w))"
proof -
  let ?g = "w_tree w" and ?src = "op_src root op" and ?dst = "op_dst root op"
  have sh: "op_shape (op, b)" "op_clear root op ?g" using op_ready_shape [OF assms(3)] by auto
  note fresh = fresh_mode_def [of w, symmetric]
  have parent: "\<exists>w1. ensure_parent_dirs ?dst w = (Inr (), w1) \<and> moves w w1 (mkdirs (butlast ?dst) ?g) \<and>
      names_ok ?dst \<and> ?dst \<noteq> [] \<and> w_tree w1 ?dst = ?g ?dst \<and> w_tree w1 (butlast ?dst) = Some NDir"
    if "?dst \<in> set (op_targets root op)"
  proof -
    have n: "names_ok ?dst" "clear ?g ?dst" "?dst \<noteq> []"
      using target_names [OF assms(2) sh(2) that] op_clear_targets [OF sh(2) that] by auto
    obtain w1 where w1: "ensure_parent_dirs ?dst w = (Inr (), w1)" "moves w w1 (mkdirs (butlast ?dst) ?g)"
      using ensure_parent_moves [OF assms(1) n(1,3,2)] by blast
    then show ?thesis
      using n movesD(2) [OF w1(2)] by (auto simp: mkdirs_def strict_prefix_butlast strict_butlast)
  qed
  have put: ?thesis if k: "jo_kind op = KCreate \<or> jo_kind op = KReplace"
  proof -
    have "?dst \<in> set (op_targets root op)" using shape_targets(1) [OF sh(1)] k by auto
    with parent obtain w1 where w1: "ensure_parent_dirs ?dst w = (Inr (), w1)"
        "moves w w1 (mkdirs (butlast ?dst) ?g)"
        "names_ok ?dst" "?dst \<noteq> []" "w_tree w1 ?dst = ?g ?dst" "w_tree w1 (butlast ?dst) = Some NDir"
      by blast
    have "w_tree w1 ?dst = None \<or> (\<exists>b0 m0 m. w_tree w1 ?dst = Some (NFile b0 m0) \<and>
        jo_mode op = Some m \<and> fmo_unix_mode m = Some m0)"
      using k assms(3) w1(5) by (auto simp: op_ready_def)
    then obtain w2 where w2: "atomic_write ?dst (the b) (jo_mode op) d w1 = (Inr (), w2)"
        "moves w1 w2 ((w_tree w1)(?dst \<mapsto> NFile (the b) (put_mode op (w_umask w))))"
      using atomic_write_moves [OF movesD(1) [OF w1(2)] w1(3,4,6)] moves_fresh [OF w1(2)]
      unfolding put_mode_def fresh by metis
    have "after_path op = Inr (the (jo_after_path op))" "b \<noteq> None"
      using sh(1) k by (auto simp: op_shape_def after_path_def)
    then show ?thesis
      using k w1 w2 moves_trans [OF w1(2) w2(2)] movesD(2) [OF w1(2)]
      by (auto simp: apply_operation_def op_dst_def [symmetric] op_dirs_def tree_apply_def Let_def
          io_bind_def)
  qed
  show ?thesis
  proof (cases "jo_kind op")
    case KDelete
    then have t: "?src \<in> set (op_targets root op)" using shape_targets(2) [OF sh(1)] by auto
    obtain b0 m0 where "?g ?src = Some (NFile b0 m0)"
      using assms(3) KDelete by (auto simp: op_ready_def holds_file_def)
    then obtain w1 where w1: "fs_remove_file ?src w = (Inr (), w1)" "moves w w1 (?g(?src := None))"
      using fs_remove_moves [OF assms(1) target_names [OF assms(2) sh(2) t]] by blast
    have "before_path op = Inr (the (jo_before_path op))"
      using sh(1) KDelete by (auto simp: op_shape_def before_path_def)
    then show ?thesis using KDelete w1(2)
      by (simp add: apply_operation_def op_src_def [symmetric] op_dirs_def tree_apply_def Let_def
          io_bind_def io_map_err_def w1(1))
  next
    case KMove
    then have t: "?src \<in> set (op_targets root op)" "?dst \<in> set (op_targets root op)"
      using shape_targets [OF sh(1)] by auto
    with parent obtain w1 where w1: "ensure_parent_dirs ?dst w = (Inr (), w1)"
        "moves w w1 (mkdirs (butlast ?dst) ?g)"
        "names_ok ?dst" "?dst \<noteq> []" "w_tree w1 ?dst = ?g ?dst" "w_tree w1 (butlast ?dst) = Some NDir"
      by blast
    obtain b0 m0 where src: "?g ?src = Some (NFile b0 m0)" and dst: "?g ?dst = None"
      using assms(3) KMove by (auto simp: op_ready_def holds_file_def)
    have "\<not> prefix ?src (butlast ?dst)"
      using ready_self [OF world_ok_tree [OF assms(1)] assms(3) t] w1(4) by (simp add: strict_prefix_butlast)
    then have src1: "w_tree w1 ?src = Some (NFile b0 m0)"
      using movesD(2) [OF w1(2)] src by (simp add: mkdirs_def)
    have "?src \<noteq> ?dst" using src dst by auto
    then obtain w2 where w2: "fs_rename ?src ?dst w1 = (Inr (), w2)"
        "moves w1 w2 ((w_tree w1)(?src := None, ?dst \<mapsto> NFile b0 m0))"
      using fs_rename_moves [OF movesD(1) [OF w1(2)] target_names [OF assms(2) sh(2) t(1)] w1(3)]
        src1 w1 dst by auto
    have "before_path op = Inr (the (jo_before_path op))" "after_path op = Inr (the (jo_after_path op))"
      using sh(1) KMove by (auto simp: op_shape_def before_path_def after_path_def)
    then show ?thesis
      using KMove src moves_trans [OF w1(2) w2(2)] movesD(2) [OF w1(2)]
      by (simp add: apply_operation_def op_src_def [symmetric] op_dst_def [symmetric] op_dirs_def
          tree_apply_def Let_def io_bind_def io_map_err_def w1(1) w2(1))
  qed (use put in auto)
qed

subsection \<open>Classification\<close>

lemma content_matches_file:
  assumes "tree (bt_get fs)" "names_ok (target_path root p)" "bt_get fs (target_path root p) = Some (NFile b m)"
  shows "content_matches X fs root p (Some cid) = cid_matches X root cid b"
  using fs_read_file [OF assms]
  by (cases cid) (auto simp: content_matches_def cid_matches_def read_bytes_def)

lemma holds_file_matches:
  assumes "tree (bt_get fs)" "names_ok (target_path root p)"
    and "holds_file X root op (bt_get fs (target_path root p))"
  shows "content_matches X fs root p (jo_expected op) = Inr True"
proof -
  obtain b m cid where f: "bt_get fs (target_path root p) = Some (NFile b m)"
      "jo_expected op = Some cid" "cid_matches X root cid b = Inr True"
    using assms(3) by (auto simp: holds_file_def)
  then show ?thesis using content_matches_file [OF assms(1,2) f(1), of X cid] by simp
qed

lemma read_bytes_file:
  "tree (bt_get fs) \<Longrightarrow> names_ok p \<Longrightarrow> bt_get fs p = Some (NFile b m) \<Longrightarrow> read_bytes fs p = Inr b"
  by (simp add: read_bytes_def fs_read_file)

lemma present_bytes_clear:
  assumes "tree (bt_get fs)" "names_ok p" "clear (bt_get fs) p"
  shows "bt_get fs p = None \<Longrightarrow> present_bytes fs p = Inr None"
    "bt_get fs p = Some (NFile b m) \<Longrightarrow> present_bytes fs p = Inr (Some b)"
  using assms by (simp_all add: present_bytes_def lstat_clear read_bytes_file)

lemma classify_refines:
  assumes t: "tree (bt_get fs)" and r: "names_ok root"
    and rf: "op_ready X root (op, b) (bt_get fs) \<or> op_finished root (op, b) (bt_get fs)"
  shows "classify_operation X fs root op b =
    Inr (if op_finished root (op, b) (bt_get fs) then After else Before)"
proof -
  let ?g = "bt_get fs" and ?src = "op_src root op" and ?dst = "op_dst root op"
  have sh: "op_shape (op, b)" "op_clear root op ?g" using rf by (auto simp: op_ready_def op_finished_def)
  have cl: "clear ?g x" "names_ok x" if "x \<in> set (op_targets root op)" for x
    using op_clear_targets [OF sh(2) that] target_names [OF r sh(2) that] by auto
  note simps = op_finished_def op_ready_def sh
  show ?thesis
  proof (cases "jo_kind op")
    case KDelete
    then have x: "?src \<in> set (op_targets root op)" and bp: "before_path op = Inr (the (jo_before_path op))"
      using shape_targets(2) [OF sh(1), of root] sh(1) by (auto simp: op_shape_def before_path_def)
    have "holds_file X root op (?g ?src)" if "?g ?src \<noteq> None"
      using rf KDelete that by (auto simp: simps)
    then show ?thesis
      using KDelete bp cl [OF x] lstat_clear [OF t] holds_file_matches [OF t, of root "the (jo_before_path op)" X op]
      by (cases "?g ?src") (auto simp: classify_operation_def classify_delete_def op_src_def simps)
  next
    case KMove
    then have x: "?src \<in> set (op_targets root op)" "?dst \<in> set (op_targets root op)"
      and bp: "before_path op = Inr (the (jo_before_path op))" "after_path op = Inr (the (jo_after_path op))"
      using shape_targets [OF sh(1), of root] sh(1) by (auto simp: op_shape_def before_path_def after_path_def)
    note pb = present_bytes_clear [OF t cl(2,1) [OF x(1)]] present_bytes_clear [OF t cl(2,1) [OF x(2)]]
    show ?thesis
    proof (cases "op_finished root (op, b) ?g")
      case True
      then obtain m where "?g ?src = None" "?g ?dst = Some (NFile (the b) m)" "b \<noteq> None"
        using KMove sh(1) by (auto simp: simps op_shape_def)
      then show ?thesis
        using True KMove bp pb by (auto simp: classify_operation_def classify_move_def op_src_def op_dst_def)
    next
      case False
      with rf KMove have "holds_file X root op (?g ?src)" "?g ?dst = None" by (auto simp: simps)
      then show ?thesis
        using False KMove bp pb holds_file_matches [OF t, of root "the (jo_before_path op)" X op] cl [OF x(1)]
        by (auto simp: classify_operation_def classify_move_def op_src_def op_dst_def holds_file_def)
    qed
  next
    case KCreate
    then have x: "?dst \<in> set (op_targets root op)" and bp: "after_path op = Inr (the (jo_after_path op))"
      and e: "jo_expected op = None" "b \<noteq> None"
      using shape_targets(1) [OF sh(1), of root] sh(1) by (auto simp: op_shape_def after_path_def)
    show ?thesis
      using KCreate bp e rf cl [OF x] lstat_clear [OF t] read_bytes_file [OF t]
      by (cases "?g ?dst") (auto simp: classify_operation_def classify_write_def op_dst_def simps)
  next
    case KReplace
    then have x: "?dst \<in> set (op_targets root op)" and bp: "after_path op = Inr (the (jo_after_path op))"
      and e: "b \<noteq> None"
      using shape_targets(1) [OF sh(1), of root] sh(1) by (auto simp: op_shape_def after_path_def)
    obtain b0 m0 where n: "?g ?dst = Some (NFile b0 m0)" using rf KReplace by (auto simp: simps)
    have h: "holds_file X root op (?g ?dst)" if "b \<noteq> Some b0"
      using rf KReplace that n e by (auto simp: simps)
    show ?thesis
      using KReplace bp e n h cl [OF x] lstat_clear [OF t] read_bytes_file [OF t]
        holds_file_matches [OF t, of root "the (jo_after_path op)" X op] rf
      by (auto simp: classify_operation_def classify_write_def op_dst_def simps)
  qed
qed

subsection \<open>The loop over the operations\<close>

definition journal_run :: "apath \<Rightarrow> u32 \<Rightarrow> jop list \<Rightarrow> tree \<Rightarrow> tree" where
  "journal_run root u zs g = fold (tree_apply root u) zs g"

definition jops_ready :: "('x) ext_scheme \<Rightarrow> apath \<Rightarrow> jop list \<Rightarrow> tree \<Rightarrow> bool" where
  "jops_ready X root zs g \<longleftrightarrow>
     tree g \<and> sorted_wrt (op_apart root) zs \<and> (\<forall>z \<in> set zs. op_ready X root z g)"

lemma jops_ready_redo:
  "jops_ready X root zs g \<longleftrightarrow> redo_log.all_ready (op_ready X root) (op_apart root) tree zs g"
  unfolding jops_ready_def redo.all_ready_def ..

lemma journal_run_redo: "journal_run root u zs g = redo_log.run (tree_apply root u) zs g"
  unfolding journal_run_def redo.run_def ..

lemma jops_ready_step: "jops_ready X root (z # zs) g \<Longrightarrow> jops_ready X root zs (tree_apply root u z g)"
  unfolding jops_ready_redo by (rule redo.all_ready_step)

lemma journal_run_simps [simp]:
  "journal_run root u [] g = g"
  "journal_run root u (z # zs) g = journal_run root u zs (tree_apply root u z g)"
  by (simp_all add: journal_run_def)

lemma moves_umask: "moves w w' g \<Longrightarrow> w_umask w' = w_umask w"
  by (simp add: moves_def same_env_def)

lemma tree_apply_dirs:
  assumes "op_ready X root (op, b) g" "g q = Some NDir"
  shows "tree_apply root u (op, b) g q = Some NDir"
proof (cases "q \<in> set (op_targets root op)")
  case False
  with tree_apply_point [OF assms(1) False, of u] assms(2) show ?thesis by auto
next
  case True
  have sh: "op_shape (op, b)" using op_ready_shape [OF assms(1)] by simp
  have "g x \<noteq> Some NDir" if "x \<in> set (op_targets root op)" for x
    using that assms(1) op_paths_cases [OF sh, of root]
    by (cases "jo_kind op") (auto simp: op_ready_def holds_file_def)
  with True assms(2) show ?thesis by blast
qed

definition dirs_ok :: "dirs \<Rightarrow> tree \<Rightarrow> bool" where
  "dirs_ok ds g \<longleftrightarrow> (\<forall>d \<in> set ds. names_ok d \<and> g d = Some NDir)"

lemma op_dirs_ok:
  assumes "tree g" "names_ok root" "op_ready X root (op, b) g" "dirs_ok ds g"
  shows "dirs_ok (op_dirs root op ds) (tree_apply root u (op, b) g)"
proof -
  let ?g' = "tree_apply root u (op, b) g"
  have sh: "op_shape (op, b)" "op_clear root op g" using op_ready_shape [OF assms(3)] by auto
  have nx: "names_ok x \<and> x \<noteq> []" if "x \<in> set (op_targets root op)" for x
    using target_names [OF assms(2) sh(2) that] op_clear_targets [OF sh(2) that] by auto
  then have par: "parent_of x = butlast x" if "x \<in> set (op_targets root op)" for x
    using that by (simp add: parent_of_def parent_or_root_butlast)
  have nb: "names_ok (butlast x)" if "x \<in> set (op_targets root op)" for x
    using nx [OF that] by (auto simp: names_ok_def dest: in_set_butlastD)
  have src: "?g' (butlast (op_src root op)) = Some NDir" if "g (op_src root op) \<noteq> None"
      "op_src root op \<in> set (op_targets root op)"
    using tree_butlast [OF assms(1) that(1)] op_clear_targets [OF sh(2) that(2)]
      tree_apply_dirs [OF assms(3)] by blast
  have fin: "tree ?g'" "op_finished root (op, b) ?g'"
    using tree_apply_tree [OF assms(1,3)] tree_apply_finished [OF assms(1,3)] by auto
  have dst: "?g' (butlast (op_dst root op)) = Some NDir" if "?g' (op_dst root op) \<noteq> None"
      "op_dst root op \<in> set (op_targets root op)"
    using tree_butlast [OF fin(1) that(1)] op_clear_targets [OF sh(2) that(2)] by blast
  have ds: "dirs_ok ds ?g'" using assms(4) tree_apply_dirs [OF assms(3)] by (auto simp: dirs_ok_def)
  show ?thesis
    using par nb ds src dst fin(2) assms(3) shape_targets [OF sh(1), of root]
    by (cases "jo_kind op")
      (auto simp: op_dirs_def dirs_ok_def op_finished_def op_ready_def holds_file_def)
qed

text \<open>Every operation that is not skipped is ready when its turn comes.\<close>

fun admits :: "('x) ext_scheme \<Rightarrow> apath \<Rightarrow> u32 \<Rightarrow> (jop \<Rightarrow> bool) \<Rightarrow> jop list \<Rightarrow> tree \<Rightarrow> bool" where
  "admits X root u skip [] g = True"
| "admits X root u skip (z # zs) g =
     (if skip z then admits X root u skip zs g
      else op_ready X root z g \<and> admits X root u skip zs (tree_apply root u z g))"

lemma admits_skipped: "\<forall>z \<in> set xs. skip z \<Longrightarrow> admits X root u skip (xs @ ys) g = admits X root u skip ys g"
  by (induction xs) auto

lemma admits_ready:
  "jops_ready X root zs g \<Longrightarrow> admits X root u skip zs g"
proof (induction zs arbitrary: g)
  case (Cons z zs)
  have "jops_ready X root zs g" using Cons.prems by (auto simp: jops_ready_def)
  then show ?case
    using Cons.IH [OF jops_ready_step [OF Cons.prems]] Cons.IH Cons.prems by (auto simp: jops_ready_def)
qed simp

lemma apply_operations_replay:
  assumes "names_ok root" "ce_target_root e = root"
  shows "world_ok w \<Longrightarrow> admits X root (w_umask w) skip zs (w_tree w) \<Longrightarrow> dirs_ok ds (w_tree w) \<Longrightarrow>
    \<forall>i < length zs. idx + i \<in> set completed \<longleftrightarrow> skip (zs ! i) \<Longrightarrow>
    \<exists>w' ds'. apply_operations e None completed idx zs ds w = (Inr ds', w') \<and> dirs_ok ds' (w_tree w') \<and>
      moves w w' (redo_log.replay (tree_apply root (w_umask w)) (map (\<lambda>z. (skip z, z)) zs) (w_tree w))"
proof (induction zs arbitrary: w ds idx)
  case Nil
  then show ?case using assms by (auto intro: moves_refl)
next
  case (Cons z zs)
  obtain op b where z: "z = (op, b)" by force
  have idx: "idx \<in> set completed \<longleftrightarrow> skip z" using Cons.prems(4) by (metis add.right_neutral length_greater_0_conv list.distinct(1) nth_Cons_0)
  have rest: "\<forall>i < length zs. Suc idx + i \<in> set completed \<longleftrightarrow> skip (zs ! i)"
    using Cons.prems(4) by (metis Suc_mono add_Suc_shift length_Cons nth_Cons_Suc)
  show ?case
  proof (cases "skip z")
    case True
    then show ?thesis using Cons.IH [OF Cons.prems(1) _ Cons.prems(3) rest] Cons.prems(2) idx z by simp
  next
    case False
    then have rd: "op_ready X root (op, b) (w_tree w)" using Cons.prems(2) z by simp
    obtain w1 where w1: "apply_operation root op (case b of None \<Rightarrow> [] | Some x \<Rightarrow> x) (ce_durability e) ds w =
        (Inr (op_dirs root op ds), w1)" "moves w w1 (tree_apply root (w_umask w) (op, b) (w_tree w))"
      using apply_operation_refines [OF Cons.prems(1) assms(1) rd] by blast
    note m1 = movesD [OF w1(2)] moves_umask [OF w1(2)]
    have "dirs_ok (op_dirs root op ds) (w_tree w1)"
      unfolding m1(2) by (rule op_dirs_ok [OF world_ok_tree [OF Cons.prems(1)] assms(1) rd Cons.prems(3)])
    moreover have "admits X root (w_umask w1) skip zs (w_tree w1)"
      using Cons.prems(2) False z m1 by simp
    ultimately obtain w2 ds2 where w2:
      "apply_operations e None completed (Suc idx) zs (op_dirs root op ds) w1 = (Inr ds2, w2)"
      "dirs_ok ds2 (w_tree w2)"
      "moves w1 w2 (redo_log.replay (tree_apply root (w_umask w1)) (map (\<lambda>z. (skip z, z)) zs) (w_tree w1))"
      using Cons.IH [OF m1(1) _ _ rest] by blast
    then show ?thesis
      using w1(1) m1 moves_trans [OF w1(2) w2(3)] False idx z assms(2)
      by (simp add: io_bind_def)
  qed
qed

lemma apply_operations_interrupted:
  assumes "names_ok root" "ce_target_root e = root"
  shows "world_ok w \<Longrightarrow> jops_ready X root zs (w_tree w) \<Longrightarrow> dirs_ok ds (w_tree w) \<Longrightarrow>
    \<exists>k w'. k \<le> length zs \<and> moves w w' (journal_run root (w_umask w) (take k zs) (w_tree w)) \<and>
      ((\<exists>f. apply_operations e fp [] idx zs ds w = (Inl (Failpoint f), w')) \<or>
       k = length zs \<and> (\<exists>ds'. apply_operations e fp [] idx zs ds w = (Inr ds', w') \<and> dirs_ok ds' (w_tree w')))"
proof (induction zs arbitrary: w ds idx)
  case Nil
  then show ?case using assms moves_refl by auto
next
  case (Cons z zs)
  obtain op b where z: "z = (op, b)" by force
  have rd: "op_ready X root (op, b) (w_tree w)" using Cons.prems(2) z by (simp add: jops_ready_def)
  obtain w1 where w1: "apply_operation root op (case b of None \<Rightarrow> [] | Some x \<Rightarrow> x) (ce_durability e) ds w =
      (Inr (op_dirs root op ds), w1)" "moves w w1 (tree_apply root (w_umask w) (op, b) (w_tree w))"
    using apply_operation_refines [OF Cons.prems(1) assms(1) rd] by blast
  note m1 = movesD [OF w1(2)] moves_umask [OF w1(2)]
  consider "fp = Some (BeforeOperation idx)" | "fp = Some (AfterOperation idx)"
    | "fp \<noteq> Some (BeforeOperation idx)" "fp \<noteq> Some (AfterOperation idx)" by blast
  then show ?case
  proof cases
    case 1
    then have "apply_operations e fp [] idx (z # zs) ds w = (Inl (Failpoint (BeforeOperation idx)), w)"
      by (simp add: z)
    then show ?thesis using moves_refl [OF Cons.prems(1)]
      by (intro exI [of _ 0] exI [of _ w]) auto
  next
    case 2
    then have "apply_operations e fp [] idx (z # zs) ds w = (Inl (Failpoint (AfterOperation idx)), w1)"
      using w1(1) assms(2) by (simp add: z io_bind_def)
    then show ?thesis using w1(2) z by (intro exI [of _ 1] exI [of _ w1]) auto
  next
    case 3
    have a1: "dirs_ok (op_dirs root op ds) (w_tree w1)"
      unfolding m1(2) by (rule op_dirs_ok [OF world_ok_tree [OF Cons.prems(1)] assms(1) rd Cons.prems(3)])
    have a2: "jops_ready X root zs (w_tree w1)"
      using jops_ready_step [OF Cons.prems(2)] z m1 by simp
    obtain k w2 where k: "k \<le> length zs"
      "moves w1 w2 (journal_run root (w_umask w1) (take k zs) (w_tree w1))"
      "(\<exists>f. apply_operations e fp [] (Suc idx) zs (op_dirs root op ds) w1 = (Inl (Failpoint f), w2)) \<or>
       k = length zs \<and> (\<exists>ds'. apply_operations e fp [] (Suc idx) zs (op_dirs root op ds) w1 = (Inr ds', w2) \<and>
         dirs_ok ds' (w_tree w2))"
      using Cons.IH [OF m1(1) a2 a1, of "Suc idx"] by (elim exE conjE) (rule that)
    have "apply_operations e fp [] idx (z # zs) ds w =
        apply_operations e fp [] (Suc idx) zs (op_dirs root op ds) w1"
      using 3 w1(1) assms(2) by (simp add: z io_bind_def)
    moreover have "moves w w2 (journal_run root (w_umask w) (take (Suc k) (z # zs)) (w_tree w))"
      using moves_trans [OF w1(2) k(2)] m1 z by simp
    ultimately show ?thesis using k(1,3) by (intro exI [of _ "Suc k"] exI [of _ w2]) auto
  qed
qed

end
