(* ===== verification/CommitRun.thy ===== *)
theory CommitRun
  imports Refine
begin

text \<open>
  The commit engine around the journal: what a sealed stage and a fit engine are, and that the
  preflight admits exactly operations that are ready, payloads land under their digests, state
  files are written without touching the target.
\<close>

subsection \<open>The state root\<close>

definition state_dirs :: "string list" where
  "state_dirs = [''locks'', ''journals'', ''blobs'', ''receipts'']"

definition engine_fit :: "commit_engine \<Rightarrow> tree \<Rightarrow> bool" where
  "engine_fit e g \<longleftrightarrow> names_ok (ce_target_root e) \<and> names_ok (ce_state_root e) \<and>
     \<not> comparable (ce_target_root e) (ce_state_root e) \<and> g (ce_target_root e) = Some NDir \<and>
     (\<forall>n \<in> set state_dirs. g (ce_state_root e @ [n]) = Some NDir)"

lemma plain_dirs: "n \<in> set state_dirs \<Longrightarrow> plain_name n"
  by (auto simp: state_dirs_def plain_name_def slash_def)

lemma state_file:
  "n \<in> set state_dirs \<Longrightarrow> plain_name f \<Longrightarrow> join_path (join_path s n) f = s @ [n, f]"
  by (simp add: join_plain_name plain_dirs)

lemma state_file_names:
  "names_ok s \<Longrightarrow> n \<in> set state_dirs \<Longrightarrow> plain_name f \<Longrightarrow> names_ok (s @ [n, f])"
  using plain_dirs [of n] by (auto simp: plain_name_def)

lemma journal_path_eq: "digests_ok X \<Longrightarrow> length i = 32 \<Longrightarrow>
    journal_path X e i = ce_state_root e @ [''journals'', x_hex X i @ ''.json'']"
  unfolding journal_path_def by (rule state_file) (simp_all add: state_dirs_def plain_hex_json)

lemma receipt_path_eq: "digests_ok X \<Longrightarrow> length i = 32 \<Longrightarrow>
    receipt_path X e i = ce_state_root e @ [''receipts'', x_hex X i @ ''.json'']"
  unfolding receipt_path_def by (rule state_file) (simp_all add: state_dirs_def plain_hex_json)

lemma blob_path_eq: "digests_ok X \<Longrightarrow> length i = 32 \<Longrightarrow>
    blob_path X e i = ce_state_root e @ [''blobs'', x_hex X i]"
  unfolding blob_path_def blobs_path_def by (rule state_file) (simp_all add: state_dirs_def plain_hex)

lemma plain_lock: "digests_ok X \<Longrightarrow> plain_name (x_hex X (x_hash X b) @ ''.lock'')"
  using hex_chars [of X "x_hash X b"] digest_length [of X b]
  by (cases "x_hex X (x_hash X b)") (auto simp: plain_name_def slash_def)

lemma lock_path_eq: "digests_ok X \<Longrightarrow> lock_path X e = ce_state_root e @
    [''locks'', x_hex X (x_hash X (bytes_of (show_path (ce_target_root e)))) @ ''.lock'']"
  unfolding lock_path_def by (rule state_file) (simp_all add: state_dirs_def plain_lock)

lemma blobs_path_eq: "blobs_path e = ce_state_root e @ [''blobs'']"
  by (simp add: blobs_path_def join_plain_name plain_dirs state_dirs_def)

text \<open>A state file lies beside the target: no target path is below it or above it.\<close>

lemma state_apart:
  assumes "\<not> comparable root s" "prefix root y"
  shows "\<not> prefix (s @ r) y"
proof
  assume "prefix (s @ r) y"
  then have "prefix s y" by (rule append_prefixD)
  with assms show False using prefix_same_cases by (auto simp: comparable_def)
qed

lemma ready_below: "op_ready X root (op, b) g \<Longrightarrow> y \<in> set (op_targets root op) \<Longrightarrow> prefix root y"
  using op_ready_shape [of X root op b g] op_clear_targets [of root op g y] by (auto simp: strict_prefix_def)

lemma tree_apply_state:
  assumes "\<not> comparable root s" "op_ready X root z g"
  shows "tree_apply root u z g (s @ r) = g (s @ r)"
proof -
  obtain op b where z: "z = (op, b)" by force
  show ?thesis
    using assms ready_below [of X root op b g] state_apart [OF assms(1)]
    unfolding z by (intro tree_apply_unchanged [of X root op b g]) auto
qed

lemma journal_run_state:
  "\<not> comparable root s \<Longrightarrow> jops_ready X root zs g \<Longrightarrow> journal_run root u zs g (s @ r) = g (s @ r)"
proof (induction zs arbitrary: g)
  case (Cons z zs)
  have "tree_apply root u z g (s @ r) = g (s @ r)"
    using Cons.prems by (intro tree_apply_state) (auto simp: jops_ready_def)
  with Cons show ?case using jops_ready_step [OF Cons.prems(2)] by simp
qed simp

text \<open>Readiness looks only at paths comparable with the target root.\<close>

lemma op_ready_cong:
  assumes "\<And>q. comparable root q \<Longrightarrow> g' q = g q"
  shows "op_ready X root z g' = op_ready X root z g"
proof -
  obtain op b where z: "z = (op, b)" by force
  have cl: "clear g' (root @ r) = clear g (root @ r)" for r
    unfolding clear_def using assms
    by (metis comparable_def prefix_append prefix_order.less_imp_le prefix_same_cases prefixI)
  have tp: "target_path root p = root @ os_names (path_text p)" if "plain_rel (path_text p)" for p
    using that by (rule target_plain)
  have "op_clear root op g' = op_clear root op g"
    unfolding op_clear_def using cl tp by metis
  moreover have "g' x = g x" if "op_clear root op g" "x \<in> set (op_targets root op)" for x
    using op_clear_targets [OF that] assms by (auto simp: comparable_def strict_prefix_def)
  moreover have "op_shape (op, b) \<Longrightarrow> (jo_kind op \<noteq> KDelete \<longrightarrow> op_dst root op \<in> set (op_targets root op)) \<and>
      (jo_kind op \<in> {KMove, KDelete} \<longrightarrow> op_src root op \<in> set (op_targets root op))"
    using shape_targets [of op b root] by blast
  ultimately show ?thesis unfolding z op_ready_def by (cases "jo_kind op") auto
qed

subsection \<open>Writing a state file\<close>

definition put_file :: "durability \<Rightarrow> u32 \<Rightarrow> bytes \<Rightarrow> node option \<Rightarrow> node" where
  "put_file d u b old = NFile b
     (case old of Some (NFile c m) \<Rightarrow> (if dry_run d then m else fresh_of u) | _ \<Rightarrow> fresh_of u)"

definition absent_or_file :: "node option \<Rightarrow> bool" where
  "absent_or_file n \<longleftrightarrow> n = None \<or> (\<exists>b m. n = Some (NFile b m))"

lemma write_state_file_moves:
  assumes "world_ok w" "names_ok p" "p \<noteq> []" "w_tree w (butlast p) = Some NDir"
    and "absent_or_file (w_tree w p)"
  shows "\<exists>w'. write_state_file p b d wt pt level w = (Inr (), w') \<and>
    moves w w' ((w_tree w)(p \<mapsto> put_file d (w_umask w) b (w_tree w p)))"
proof -
  let ?g = "(w_tree w)(p \<mapsto> put_file d (w_umask w) b (w_tree w p))"
  have par: "parent_or_root p = butlast p" "names_ok (butlast p)"
    using assms by (auto simp: parent_or_root_butlast names_ok_def dest: in_set_butlastD)
  have "\<exists>w1. (if dry_run d then write_unsynced p b None wt
      else io_map_err (io_refusal_context pt) (publish_file p b SyncData id)) w = (Inr (), w1) \<and> moves w w1 ?g"
  proof (cases "dry_run d")
    case True
    define m where "m = (case w_tree w p of Some (NFile c m) \<Rightarrow> m | _ \<Rightarrow> fresh_mode w)"
    have "w_tree w p = None \<and> m = fresh_mode w \<or> (\<exists>old. w_tree w p = Some (NFile old m))"
      using assms(5) by (auto simp: absent_or_file_def m_def)
    then obtain w1 where w1: "fs_write p b w = (Inr (), w1)" "moves w w1 ((w_tree w)(p \<mapsto> NFile b m))"
      using fs_write_moves [OF assms(1-4), of m b] by blast
    have "NFile b m = put_file d (w_umask w) b (w_tree w p)"
      using True by (auto simp: put_file_def m_def fresh_mode_def split: option.splits node.splits)
    then show ?thesis using w1 True by (auto simp: write_unsynced_def io_bind_def io_map_err_def)
  next
    case False
    have "w_tree w p \<noteq> Some NDir" using assms(5) by (auto simp: absent_or_file_def)
    then obtain w1 where "publish_file p b SyncData id w = (Inr (), w1)"
        "moves w w1 ((w_tree w)(p \<mapsto> NFile b (fresh_mode w)))"
      using publish_file_moves [OF assms(1-4), of id b SyncData] by auto
    moreover have "NFile b (fresh_mode w) = put_file d (w_umask w) b (w_tree w p)"
      using False by (auto simp: put_file_def fresh_mode_def split: option.splits node.splits)
    ultimately show ?thesis using False by auto
  qed
  then obtain w1 where w1: "(if dry_run d then write_unsynced p b None wt
      else io_map_err (io_refusal_context pt) (publish_file p b SyncData id)) w = (Inr (), w1)" "moves w w1 ?g"
    by blast
  have "w_tree w1 (butlast p) = Some NDir"
    using movesD(2) [OF w1(2)] assms(3,4) strict_butlast [OF assms(3)] by auto
  then obtain w2 where w2: "sync_dir_when_durable (butlast p) d level w1 = (Inr (), w2)" "moves w1 w2 ?g"
    using sync_directory_moves [OF movesD(1) [OF w1(2)] par(2)] movesD [OF w1(2)]
      moves_refl [OF movesD(1) [OF w1(2)]]
    by (cases "dry_run d") (auto simp: sync_dir_when_durable_def)
  show ?thesis
    using moves_trans [OF w1(2) w2(2)]
    unfolding write_state_file_def par by (simp add: io_bind_def w1(1) w2(1) del: io_bind_simps)
qed

subsection \<open>Preflight\<close>

definition file_ready :: "('x) ext_scheme \<Rightarrow> apath \<Rightarrow> staged_file \<Rightarrow> bool" where
  "file_ready X root f \<longleftrightarrow>
     sf_staged_bytes f = map_option (x_hash X) (sf_bytes_after f) \<and>
     (\<forall>b. sf_bytes_after f = Some b \<longrightarrow> no_collision X b) \<and>
     (\<forall>p. sf_path_before f = Some p \<or> sf_path_after f = Some p \<longrightarrow> \<not> needs_dir (path_text p)) \<and>
     (case sf_kind f of
        KCreate \<Rightarrow> sf_content_before f = None
      | KReplace \<Rightarrow> sf_path_before f = sf_path_after f \<and>
          (\<forall>m. sf_mode_before f = Some m \<longrightarrow> fmo_unix_mode m \<noteq> None)
      | KMove \<Rightarrow> (\<forall>cid b. sf_content_before f = Some cid \<and> cid_matches X root cid b = Inr True \<longrightarrow>
          sf_bytes_after f = Some b)
      | KDelete \<Rightarrow> True)"

lemma check_components_Ok:
  "check_components p cs = Inr () \<Longrightarrow> ParentDir \<notin> set cs \<and> RootDir \<notin> set cs \<and> Normal ''.git'' \<notin> set cs"
  by (induction cs) (auto split: if_splits)

lemma validate_relative_plain:
  assumes "validate_relative_path p = Inr ()" "\<not> needs_dir (path_text p)"
  shows "plain_rel (path_text p)"
  using assms check_components_Ok [of p "components (path_text p)"]
  by (auto simp: validate_relative_path_def Let_def plain_rel_def parent_dir_iff split: if_splits)

lemma check_parents_clear:
  assumes "tree (bt_get fs)"
  shows "check_parents fs p cur (map Normal ns) = Inr () \<Longrightarrow> names_ok (cur @ ns) \<Longrightarrow>
    clear (bt_get fs) cur \<Longrightarrow> bt_get fs cur = None \<or> bt_get fs cur = Some NDir \<Longrightarrow>
    clear (bt_get fs) (cur @ ns @ [c])"
proof (induction ns arbitrary: cur)
  case Nil
  then show ?case by (auto simp: clear_def strict_prefix_def)
next
  case (Cons n ns)
  have cl: "clear (bt_get fs) (cur @ [n])"
    using Cons.prems(3,4) by (auto simp: clear_def strict_prefix_def)
  have l: "lstat fs (cur @ [n]) = ok_or NotFound (bt_get fs (cur @ [n]))"
    using Cons.prems(2) by (intro lstat_clear [OF assms _ cl]) simp
  have "bt_get fs (cur @ [n]) = None \<or> bt_get fs (cur @ [n]) = Some NDir"
    using Cons.prems(1) l by (cases "bt_get fs (cur @ [n])") (auto split: node.splits)
  moreover from this have "check_parents fs p (cur @ [n]) (map Normal ns) = Inr ()"
    using Cons.prems(1) l by auto
  ultimately show ?case using Cons.IH [of "cur @ [n]"] Cons.prems(2) cl by simp
qed

lemma check_parent_components_clear:
  assumes "tree (bt_get fs)" "names_ok root" "bt_get fs root = Some NDir"
    and "check_parent_components fs root p = Inr ()" "plain_rel (path_text p)"
  shows "clear (bt_get fs) (target_path root p)"
proof -
  obtain ns c where ns: "os_names (path_text p) = ns @ [c]"
    using os_names_plain(4) [OF assms(5)] by (cases "os_names (path_text p)" rule: rev_cases) auto
  have "names_ok (ns @ [c])" using os_names_plain [OF assms(5)] by (simp add: names_ok_def ns)
  then have n: "names_ok (root @ ns)" using assms(2) by simp
  have root: "clear (bt_get fs) root" using assms(1,3) by (simp add: clear_present)
  have "check_parents fs p root (map Normal ns) = Inr ()"
  proof (rule components_plain [OF assms(5)])
    assume "components (path_text p) = map Normal (os_names (path_text p))"
    then show ?thesis using assms(4) by (simp add: check_parent_components_def ns)
  next
    assume "components (path_text p) = CurDir # map Normal (os_names (path_text p))"
    then show ?thesis using assms(4) by (simp add: check_parent_components_def ns)
  qed
  from check_parents_clear [OF assms(1) this n root] assms(3) show ?thesis
    by (simp add: target_plain assms(5) ns)
qed

lemma check_parents_clear_conv:
  assumes "tree (bt_get fs)"
  shows "clear (bt_get fs) (cur @ ns @ [c]) \<Longrightarrow> names_ok (cur @ ns) \<Longrightarrow>
    check_parents fs p cur (map Normal ns) = Inr ()"
proof (induction ns arbitrary: cur)
  case (Cons n ns)
  have "bt_get fs (cur @ [n]) = None \<or> bt_get fs (cur @ [n]) = Some NDir"
    by (rule clear_above [OF Cons.prems(1)]) (auto simp: strict_prefix_def)
  moreover have "lstat fs (cur @ [n]) = ok_or NotFound (bt_get fs (cur @ [n]))"
    using Cons.prems by (intro lstat_clear [OF assms] clear_prefix [OF Cons.prems(1)]) auto
  moreover have "check_parents fs p (cur @ [n]) (map Normal ns) = Inr ()"
    using Cons.IH [of "cur @ [n]"] Cons.prems by simp
  ultimately show ?case by auto
qed simp

lemma check_parent_components_conv:
  assumes "tree (bt_get fs)" "names_ok root" "clear (bt_get fs) (target_path root p)" "plain_rel (path_text p)"
  shows "check_parent_components fs root p = Inr ()"
proof -
  obtain ns c where ns: "os_names (path_text p) = ns @ [c]"
    using os_names_plain(4) [OF assms(4)] by (cases "os_names (path_text p)" rule: rev_cases) auto
  have "names_ok (ns @ [c])" using os_names_plain [OF assms(4)] by (simp add: names_ok_def ns)
  then have "check_parents fs p root (map Normal ns) = Inr ()"
    using assms by (intro check_parents_clear_conv [OF assms(1), of root ns c])
      (simp_all add: target_plain ns)
  then show ?thesis
    by (rule_tac components_plain [OF assms(4)]) (simp_all add: check_parent_components_def ns)
qed

lemma content_matches_holds:
  assumes "tree (bt_get fs)" "names_ok (target_path root p)" "bt_get fs (target_path root p) = Some (NFile b m)"
    and "content_matches X fs root p (jo_expected op) = Inr True"
  shows "holds_file X root op (bt_get fs (target_path root p))"
proof (cases "jo_expected op")
  case None
  then show ?thesis using assms(4) by (simp add: content_matches_def)
next
  case (Some cid)
  then have "cid_matches X root cid b = Inr True"
    using assms(4) content_matches_file [OF assms(1-3), of X cid] by simp
  with Some assms(3) show ?thesis by (simp add: holds_file_def)
qed

lemma verify_existing_holds:
  assumes "tree (bt_get fs)" "names_ok (target_path root p)" "clear (bt_get fs) (target_path root p)"
    and "verify_existing X fs root p (jo_expected op) (jo_mode op) = Inr ()"
  obtains b st m where "bt_get fs (target_path root p) = Some (NFile b st)" "jo_mode op = Some m"
    "mode_matches st m" "holds_file X root op (bt_get fs (target_path root p))"
proof -
  obtain b st where n: "bt_get fs (target_path root p) = Some (NFile b st)"
    using assms(4) lstat_clear [OF assms(1-3)]
    by (cases "bt_get fs (target_path root p)") (auto simp: verify_existing_def split: node.splits)
  then obtain same where same: "content_matches X fs root p (jo_expected op) = Inr same"
    using assms(4) lstat_clear [OF assms(1-3)]
    by (cases "content_matches X fs root p (jo_expected op)") (auto simp: verify_existing_def)
  with n obtain m where "same" "jo_mode op = Some m" "mode_matches st m"
    using assms(4) lstat_clear [OF assms(1-3)]
    by (cases same; cases "jo_mode op") (auto simp: verify_existing_def split: if_splits)
  moreover have "holds_file X root op (bt_get fs (target_path root p))"
    using content_matches_holds [OF assms(1,2) n] same \<open>same\<close> by simp
  ultimately show ?thesis using that n by simp
qed

lemma preflight_file_op:
  assumes "preflight_file X fs root f = Inr op"
  shows "operation_from_file X f = Inr op" "check_paths fs root op = Inr ()"
    "preflight_operation X fs root op = Inr ()"
  using assms by (auto simp: preflight_file_def rbind_eq_Ok)

lemma operation_from_file_fields:
  assumes "operation_from_file X f = Inr op" "sf_staged_bytes f = map_option (x_hash X) (sf_bytes_after f)"
  shows "jo_kind op = sf_kind f" "jo_before_path op = sf_path_before f" "jo_after_path op = sf_path_after f"
    "jo_expected op = sf_content_before f" "jo_after_blob op = map_option (x_hash X) (sf_bytes_after f)"
    "jo_after_content op = sf_content_after f" "jo_mode op = sf_mode_before f"
    "sf_kind f = KCreate \<Longrightarrow> sf_path_before f = None" "sf_kind f = KDelete \<Longrightarrow> sf_path_after f = None"
proof -
  have blob: "(case sf_staged_bytes f of None \<Rightarrow> map_option (x_hash X) (sf_bytes_after f) | Some blob \<Rightarrow> Some blob) =
      map_option (x_hash X) (sf_bytes_after f)"
    using assms(2) by (cases "sf_bytes_after f") auto
  show "jo_kind op = sf_kind f" "jo_before_path op = sf_path_before f" "jo_after_path op = sf_path_after f"
    "jo_expected op = sf_content_before f" "jo_after_blob op = map_option (x_hash X) (sf_bytes_after f)"
    "jo_after_content op = sf_content_after f" "jo_mode op = sf_mode_before f"
    "sf_kind f = KCreate \<Longrightarrow> sf_path_before f = None" "sf_kind f = KDelete \<Longrightarrow> sf_path_after f = None"
    using assms(1) unfolding operation_from_file_def blob
    by (auto split: planned_file_kind.splits option.splits)
qed

lemma preflight_file_ready:
  assumes t: "tree (bt_get fs)" and root: "names_ok root" "bt_get fs root = Some NDir"
    and pf: "preflight_file X fs root f = Inr op" and fr: "file_ready X root f"
  shows "op_ready X root (op, sf_bytes_after f) (bt_get fs)"
proof -
  let ?g = "bt_get fs" and ?src = "op_src root op" and ?dst = "op_dst root op"
  note pf = preflight_file_op [OF pf]
  note fields = operation_from_file_fields [OF pf(1)]
  have sb: "sf_staged_bytes f = map_option (x_hash X) (sf_bytes_after f)"
    using fr by (simp add: file_ready_def)
  note fields = operation_from_file_fields [OF pf(1) sb]
  have paths: "plain_rel (path_text p) \<and> clear ?g (target_path root p)" if "p \<in> set (jo_paths op)" for p
  proof -
    have "rbind (validate_relative_path p) (\<lambda>_. check_parent_components fs root p) = Inr ()"
      using pf(2) that by (auto simp: check_paths_def rfor_each_Ok)
    then have v: "validate_relative_path p = Inr ()" "check_parent_components fs root p = Inr ()"
      by (auto simp: rbind_eq_Ok)
    have "\<not> needs_dir (path_text p)"
      using that fr fields(2,3) by (auto simp: jo_paths_def file_ready_def split: option.splits)
    then have pl: "plain_rel (path_text p)" using validate_relative_plain [OF v(1)] by blast
    with check_parent_components_clear [OF t root v(2)] show ?thesis by blast
  qed
  then have cl: "op_clear root op ?g" by (auto simp: op_clear_def)
  have tn: "names_ok x" "clear ?g x" if "x \<in> set (op_targets root op)" for x
    using target_names [OF root(1) cl that] op_clear_targets [OF cl that] by auto
  have ls: "lstat fs x = ok_or NotFound (?g x)" if "x \<in> set (op_targets root op)" for x
    using lstat_clear [OF t tn [OF that]] .
  have mem: "jo_before_path op = Some p \<Longrightarrow> target_path root p \<in> set (op_targets root op)"
    "jo_after_path op = Some p \<Longrightarrow> target_path root p \<in> set (op_targets root op)" for p
    by (auto simp: op_targets_def jo_paths_def)
  show ?thesis
  proof (cases "jo_kind op")
    case KCreate
    obtain d where d: "jo_after_path op = Some d" "\<not> is_ok (lstat fs (target_path root d))"
        "jo_after_blob op \<noteq> None"
      using pf(3) KCreate
      by (auto simp: preflight_operation_def after_path_def rbind_eq_Ok split: if_splits)
    then have "?g (target_path root d) = None"
      using ls [OF mem(2)] by (cases "?g (target_path root d)") auto
    then show ?thesis
      using KCreate d fields fr cl by (auto simp: op_ready_def op_shape_def op_dst_def file_ready_def)
  next
    case KReplace
    then have pe: "jo_before_path op = jo_after_path op" using fields fr by (simp add: file_ready_def)
    obtain d where d: "jo_before_path op = Some d"
        "verify_existing X fs root d (jo_expected op) (jo_mode op) = Inr ()" "jo_after_blob op \<noteq> None"
      using pf(3) KReplace
      by (auto simp: preflight_operation_def before_path_def rbind_eq_Ok split: if_splits)
    obtain b st m where v: "?g (target_path root d) = Some (NFile b st)" "jo_mode op = Some m"
        "mode_matches st m" "holds_file X root op (?g (target_path root d))"
      using verify_existing_holds [OF t tn [OF mem(1) [OF d(1)]] d(2)] .
    have "fmo_unix_mode m = Some st"
      using v(2,3) KReplace fields fr
      by (auto simp: file_ready_def mode_matches_def split: if_splits option.splits)
    then show ?thesis
      using KReplace d v pe cl fields by (auto simp: op_ready_def op_shape_def op_dst_def)
  next
    case KMove
    obtain s d where d: "jo_before_path op = Some s" "jo_after_path op = Some d"
        "verify_existing X fs root s (jo_expected op) (jo_mode op) = Inr ()"
        "\<not> is_ok (lstat fs (target_path root d))" "jo_after_blob op \<noteq> None"
      using pf(3) KMove
      by (auto simp: preflight_operation_def before_path_def after_path_def rbind_eq_Ok split: if_splits)
    obtain b st m where v: "?g (target_path root s) = Some (NFile b st)"
        "holds_file X root op (?g (target_path root s))"
      using verify_existing_holds [OF t tn [OF mem(1) [OF d(1)]] d(3)] by blast
    have "?g (target_path root d) = None"
      using ls [OF mem(2) [OF d(2)]] d(4) by (cases "?g (target_path root d)") auto
    moreover have "sf_bytes_after f = Some b"
      using v KMove fields fr by (auto simp: holds_file_def file_ready_def)
    ultimately show ?thesis
      using KMove d v cl fields by (auto simp: op_ready_def op_shape_def op_dst_def op_src_def)
  next
    case KDelete
    obtain s where d: "jo_before_path op = Some s"
        "verify_existing X fs root s (jo_expected op) (jo_mode op) = Inr ()"
      using pf(3) KDelete by (auto simp: preflight_operation_def before_path_def rbind_eq_Ok)
    obtain b st m where "holds_file X root op (?g (target_path root s))"
      using verify_existing_holds [OF t tn [OF mem(1) [OF d(1)]] d(2)] by blast
    then show ?thesis
      using KDelete d cl fields by (auto simp: op_ready_def op_shape_def op_src_def)
  qed
qed

definition stage_jops :: "staged_transaction \<Rightarrow> commit_journal \<Rightarrow> jop list" where
  "stage_jops stage journal = zip (cj_operations journal) (map sf_bytes_after (st_files stage))"

text \<open>No two files of the stage touch the same path or nested ones.\<close>

definition file_targets :: "apath \<Rightarrow> staged_file \<Rightarrow> apath list" where
  "file_targets root f = map (target_path root)
     ((case sf_path_before f of None \<Rightarrow> [] | Some p \<Rightarrow> [p]) @
      (case sf_path_after f of None \<Rightarrow> [] | Some p \<Rightarrow> [p]))"

definition files_apart :: "apath \<Rightarrow> staged_file list \<Rightarrow> bool" where
  "files_apart root = sorted_wrt (\<lambda>a b.
     \<forall>x \<in> set (file_targets root a). \<forall>y \<in> set (file_targets root b). \<not> comparable x y)"

lemma preflight_ops:
  assumes "preflight X e fs stage = Inr journal"
  shows "cj_version journal = JOURNAL_VERSION" "cj_stage_id journal = st_id stage"
    "cj_root journal = st_root stage"
    "rmap_all (preflight_file X fs (ce_target_root e)) (st_files stage) = Inr (cj_operations journal)"
  using assms by (auto simp: preflight_def rbind_eq_Ok)

lemma preflight_ready:
  assumes t: "tree (bt_get fs)" and root: "names_ok (ce_target_root e)" "bt_get fs (ce_target_root e) = Some NDir"
    and pf: "preflight X e fs stage = Inr journal"
    and fr: "\<forall>f \<in> set (st_files stage). file_ready X (ce_target_root e) f"
    and ap: "files_apart (ce_target_root e) (st_files stage)"
  shows "jops_ready X (ce_target_root e) (stage_jops stage journal) (bt_get fs)"
proof -
  let ?root = "ce_target_root e" and ?ops = "cj_operations journal" and ?fs = "st_files stage"
  from preflight_ops(4) [OF pf] have len: "length ?ops = length ?fs"
    and each: "\<And>i. i < length ?fs \<Longrightarrow> preflight_file X fs ?root (?fs ! i) = Inr (?ops ! i)"
    by (auto simp: rmap_all_Ok)
  have ready: "op_ready X ?root (?ops ! i, sf_bytes_after (?fs ! i)) (bt_get fs)" if "i < length ?fs" for i
    using that fr by (intro preflight_file_ready [OF t root each [OF that]]) auto
  have tg: "op_targets ?root (?ops ! i) = file_targets ?root (?fs ! i)" if "i < length ?fs" for i
  proof -
    have "sf_staged_bytes (?fs ! i) = map_option (x_hash X) (sf_bytes_after (?fs ! i))"
      using fr that by (simp add: file_ready_def)
    from operation_from_file_fields [OF preflight_file_op(1) [OF each [OF that]] this] show ?thesis
      by (simp add: op_targets_def jo_paths_def file_targets_def)
  qed
  have "sorted_wrt (op_apart ?root) (stage_jops stage journal)"
    unfolding sorted_wrt_iff_nth_less
  proof (intro allI impI)
    fix i j assume ij: "i < j" "j < length (stage_jops stage journal)"
    then have b: "i < length ?fs" "j < length ?fs" by (simp_all add: stage_jops_def)
    have "\<forall>x \<in> set (file_targets ?root (?fs ! i)). \<forall>y \<in> set (file_targets ?root (?fs ! j)). \<not> comparable x y"
      using ap ij(1) b unfolding files_apart_def sorted_wrt_iff_nth_less by blast
    then show "op_apart ?root (stage_jops stage journal ! i) (stage_jops stage journal ! j)"
      using b len tg by (simp add: stage_jops_def op_apart_def)
  qed
  moreover have "op_ready X ?root z (bt_get fs)" if "z \<in> set (stage_jops stage journal)" for z
    using that ready len by (auto simp: stage_jops_def set_zip)
  ultimately show ?thesis using t by (simp add: jops_ready_def)
qed

end
