(* ===== verification/Payloads.thy ===== *)
theory Payloads
  imports CommitRun
begin

text \<open>
  Payloads: every output of a stage ends up under its digest in the state root, whether it was
  there before, is linked from the staging store or is written, and nothing else changes.
\<close>

definition payload_at :: "('x) ext_scheme \<Rightarrow> commit_engine \<Rightarrow> bytes \<Rightarrow> apath" where
  "payload_at X e b = blob_path X e (x_hash X b)"

text \<open>\<open>bs\<close> have been placed; nothing but their files differs.\<close>

definition payload_tree ::
  "('x) ext_scheme \<Rightarrow> commit_engine \<Rightarrow> bytes set \<Rightarrow> tree \<Rightarrow> tree \<Rightarrow> bool" where
  "payload_tree X e bs g g' \<longleftrightarrow> (\<forall>b \<in> bs. \<exists>m. g' (payload_at X e b) = Some (NFile b m)) \<and>
     (\<forall>q. q \<notin> payload_at X e ` bs \<longrightarrow> g' q = g q)"

text \<open>What is already stored under the digests has the right bytes, in the state root and, where
  the engine links from a staging store, there.\<close>

definition intact :: "bytes \<Rightarrow> node option \<Rightarrow> bool" where
  "intact b n \<longleftrightarrow> n = None \<or> (\<exists>m. n = Some (NFile b m))"

definition payloads_fit :: "('x) ext_scheme \<Rightarrow> commit_engine \<Rightarrow> bytes set \<Rightarrow> tree \<Rightarrow> bool" where
  "payloads_fit X e bs g \<longleftrightarrow> (\<forall>b \<in> bs. intact b (g (payload_at X e b))) \<and>
     (case ce_staged_blobs e of None \<Rightarrow> True | Some sd \<Rightarrow> names_ok sd \<and> g sd = Some NDir \<and>
        (\<forall>b \<in> bs. intact b (g (sd @ [x_hex X (x_hash X b)]))))"

lemma payload_at_eq: "digests_ok X \<Longrightarrow> payload_at X e b = ce_state_root e @ [''blobs'', x_hex X (x_hash X b)]"
  by (simp add: payload_at_def blob_path_eq digest_length)

lemma payload_at_inj:
  assumes "digests_ok X" "no_collision X b" "payload_at X e c = payload_at X e b"
  shows "c = b"
proof -
  have "x_hash X c = x_hash X b"
    using assms(3) hex_inj [OF assms(1)] digest_length [OF assms(1)] by (simp add: payload_at_eq assms(1))
  then show ?thesis using assms(2) by (rule no_collisionD [rotated])
qed

lemma payload_path_facts:
  assumes "digests_ok X" "engine_fit e g"
  shows "names_ok (payload_at X e b)" "payload_at X e b \<noteq> []" "g (butlast (payload_at X e b)) = Some NDir"
    "\<not> prefix (payload_at X e b) (ce_target_root e)" "\<not> prefix (ce_target_root e) (payload_at X e b)"
proof -
  have e: "names_ok (ce_state_root e)" "\<not> comparable (ce_target_root e) (ce_state_root e)"
      "g (ce_state_root e @ [''blobs'']) = Some NDir"
    using assms(2) by (auto simp: engine_fit_def state_dirs_def)
  have pl: "plain_name (x_hex X (x_hash X b))" by (simp add: plain_hex assms(1) digest_length)
  show "names_ok (payload_at X e b)"
    unfolding payload_at_eq [OF assms(1)] by (rule state_file_names [OF e(1) _ pl]) (simp add: state_dirs_def)
  show "payload_at X e b \<noteq> []" "g (butlast (payload_at X e b)) = Some NDir"
    using e(3) by (simp_all add: payload_at_eq assms(1) butlast_append)
  show "\<not> prefix (payload_at X e b) (ce_target_root e)"
    unfolding payload_at_eq [OF assms(1)] by (rule state_apart [OF e(2)]) simp
  show "\<not> prefix (ce_target_root e) (payload_at X e b)"
    using e(2) unfolding payload_at_eq [OF assms(1)] comparable_def
    by (metis prefix_def prefix_same_cases)
qed

lemma link_staged_blob_moves:
  assumes dig: "digests_ok X" and w: "world_ok w" and sd: "ce_staged_blobs e = Some sd" "names_ok sd"
    "w_tree w sd = Some NDir" "intact b (w_tree w (sd @ [x_hex X (x_hash X b)]))"
    and p: "names_ok p" "p \<noteq> []" "w_tree w (butlast p) = Some NDir" "w_tree w p = None"
  shows "link_staged_blob X e (x_hash X b) p w = (Inr False, w) \<or>
    (\<exists>w' m. link_staged_blob X e (x_hash X b) p w = (Inr True, w') \<and> moves w w' ((w_tree w)(p \<mapsto> NFile b m)))"
proof -
  let ?src = "sd @ [x_hex X (x_hash X b)]"
  note t = world_ok_tree [OF w]
  have pl: "plain_name (x_hex X (x_hash X b))" by (simp add: plain_hex dig digest_length)
  then have src: "names_ok ?src" "join_path sd (x_hex X (x_hash X b)) = ?src"
    using sd(2) by (auto simp: plain_name_def join_plain_name)
  have "clear (w_tree w) ?src" by (rule parent_clear [OF t]) (simp_all add: sd(3))
  then have ls: "lstat (w_fs w) ?src = ok_or NotFound (w_tree w ?src)" by (rule lstat_clear [OF t src(1)])
  show ?thesis
  proof (cases "w_tree w ?src")
    case None
    then show ?thesis by (simp add: link_staged_blob_def sd(1) src(2) fs_hard_link_def ls)
  next
    case (Some n)
    then obtain m where n: "w_tree w ?src = Some (NFile b m)" using sd(4) by (auto simp: intact_def)
    have "resolve_nofollow (w_fs w) p = Inr p" by (rule resolve_nofollow_parent [OF w p(1-3)])
    then have "link_staged_blob X e (x_hash X b) p w = (Inr True, io_log (EvPut p) (set_node p (NFile b m) w))"
      using n p(4) by (simp add: link_staged_blob_def sd(1) src(2) fs_hard_link_def ls)
    moreover have "moves w (io_log (EvPut p) (set_node p (NFile b m) w)) ((w_tree w)(p \<mapsto> NFile b m))"
      using w p tree_mode [OF t n] by (intro moves_set) auto
    ultimately show ?thesis by blast
  qed
qed

lemma place_absent_moves:
  assumes dig: "digests_ok X" and w: "world_ok w"
    and fit: "engine_fit e (w_tree w)" and pf: "payloads_fit X e bs (w_tree w)" and b: "b \<in> bs"
    and none: "w_tree w (payload_at X e b) = None"
  shows "\<exists>w' m. place_payload X e (x_hash X b) b w = (Inr (), w') \<and>
    moves w w' ((w_tree w)(payload_at X e b \<mapsto> NFile b m))"
proof -
  let ?p = "payload_at X e b" and ?g = "w_tree w"
  note t = world_ok_tree [OF w]
  note pth = payload_path_facts(1-3) [OF dig fit, of b]
  have cl: "clear ?g ?p" by (rule parent_clear [OF t pth(2,3)])
  have ex: "\<not> path_exists (w_fs w) ?p"
    using path_exists_clear [OF t pth(1) cl] none by simp
  obtain wp where wp: "publish_file ?p b SyncData id w = (Inr (), wp)"
      "moves w wp (?g(?p \<mapsto> NFile b (fresh_mode w)))"
    using publish_file_moves [OF w pth, of id b SyncData] none by auto
  have pub: ?thesis if "link_staged_blob X e (x_hash X b) ?p w = (Inr False, w)" "\<not> dry_run (ce_durability e)"
    using wp ex that
    by (auto simp: place_payload_def payload_at_def [symmetric] Let_def io_bind_def io_map_err_def)
  show ?thesis
  proof (cases "dry_run (ce_durability e)")
    case True
    obtain wd where "fs_write ?p b w = (Inr (), wd)" "moves w wd (?g(?p \<mapsto> NFile b (fresh_mode w)))"
      using fs_write_moves [OF w pth, of "fresh_mode w" b] none by blast
    then show ?thesis
      using True ex
      by (auto simp: place_payload_def payload_at_def [symmetric] Let_def write_unsynced_def io_bind_def io_map_err_def)
  next
    case False
    show ?thesis
    proof (cases "ce_staged_blobs e")
      case None
      then show ?thesis by (intro pub False) (simp add: link_staged_blob_def)
    next
      case (Some sd)
      then have s: "names_ok sd" "?g sd = Some NDir" "intact b (?g (sd @ [x_hex X (x_hash X b)]))"
        using pf b by (auto simp: payloads_fit_def)
      from link_staged_blob_moves [OF dig w Some s pth none] show ?thesis
      proof
        assume "link_staged_blob X e (x_hash X b) ?p w = (Inr False, w)"
        then show ?thesis by (intro pub False)
      next
        assume "\<exists>w' m. link_staged_blob X e (x_hash X b) ?p w = (Inr True, w') \<and>
          moves w w' (?g(?p \<mapsto> NFile b m))"
        then show ?thesis
          using ex False by (auto simp: place_payload_def payload_at_def [symmetric] Let_def io_bind_def)
      qed
    qed
  qed
qed

lemma place_payload_moves:
  assumes "digests_ok X" "world_ok w" "engine_fit e (w_tree w)" "payloads_fit X e bs (w_tree w)" "b \<in> bs"
  shows "\<exists>w' g'. place_payload X e (x_hash X b) b w = (Inr (), w') \<and> moves w w' g' \<and>
    payload_tree X e {b} (w_tree w) g'"
proof (cases "w_tree w (payload_at X e b)")
  case None
  from place_absent_moves [OF assms None] obtain w' m where
    "place_payload X e (x_hash X b) b w = (Inr (), w')" "moves w w' ((w_tree w)(payload_at X e b \<mapsto> NFile b m))"
    by blast
  moreover have "payload_tree X e {b} (w_tree w) ((w_tree w)(payload_at X e b \<mapsto> NFile b m))"
    by (simp add: payload_tree_def)
  ultimately show ?thesis by blast
next
  case (Some n)
  then obtain m where n: "w_tree w (payload_at X e b) = Some (NFile b m)"
    using assms(4,5) by (force simp: payloads_fit_def intact_def)
  note t = world_ok_tree [OF assms(2)]
  note pth = payload_path_facts(1-3) [OF assms(1,3), of b]
  have "path_exists (w_fs w) (payload_at X e b)"
    using path_exists_clear [OF t pth(1) parent_clear [OF t pth(2,3)]] n by simp
  then have "place_payload X e (x_hash X b) b w = (Inr (), w)"
    using fs_read_file [OF t pth(1) n] by (simp add: place_payload_def payload_at_def [symmetric])
  moreover have "payload_tree X e {b} (w_tree w) (w_tree w)" using n by (simp add: payload_tree_def)
  ultimately show ?thesis using moves_refl [OF assms(2)] by blast
qed

lemma payload_tree_outside:
  assumes "payload_tree X e bs g g'" "digests_ok X" "engine_fit e g"
    and "comparable (ce_target_root e) q \<or> g q = Some NDir" "\<forall>b \<in> bs. intact b (g (payload_at X e b))"
  shows "g' q = g q"
proof -
  have "q \<noteq> payload_at X e b" if "b \<in> bs" for b
    using payload_path_facts(4,5) [OF assms(2,3), of b] assms(4,5) that
    by (auto simp: comparable_def intact_def)
  then show ?thesis using assms(1) by (auto simp: payload_tree_def)
qed

lemma payload_tree_fit:
  assumes "payload_tree X e {b} g g'" "digests_ok X" "engine_fit e g" "payloads_fit X e bs g" "b \<in> bs"
    and nc: "\<forall>b \<in> bs. no_collision X b"
  shows "engine_fit e g' \<and> payloads_fit X e bs g'"
proof -
  have same: "g' q = g q" if "comparable (ce_target_root e) q \<or> g q = Some NDir" for q
    using payload_tree_outside [OF assms(1-3) that] assms(4,5) by (auto simp: payloads_fit_def)
  have "engine_fit e g'"
    using assms(3) same unfolding engine_fit_def by (simp add: comparable_def)
  have intact': "intact c (g' q)" if "intact c (g q)" "c \<in> bs" "q = payload_at X e b \<longrightarrow> c = b" for c q
    using that assms(1) by (cases "q = payload_at X e b") (auto simp: payload_tree_def intact_def)
  have hex: "c = b" if "sd @ [x_hex X (x_hash X c)] = payload_at X e b" for sd c
  proof -
    have "x_hex X (x_hash X c) = x_hex X (x_hash X b)"
      using that by (simp add: payload_at_eq assms(2))
    then have "x_hash X c = x_hash X b" using hex_inj [OF assms(2)] digest_length [OF assms(2)] by blast
    then show ?thesis using nc assms(5) no_collisionD by blast
  qed
  have "payloads_fit X e bs g'"
    unfolding payloads_fit_def
  proof (intro conjI ballI)
    fix c assume c: "c \<in> bs"
    show "intact c (g' (payload_at X e c))"
      using assms(4) c payload_at_inj [OF assms(2)] nc assms(5)
      by (intro intact' [OF _ c]) (auto simp: payloads_fit_def)
  next
    show "case ce_staged_blobs e of None \<Rightarrow> True | Some sd \<Rightarrow> names_ok sd \<and> g' sd = Some NDir \<and>
        (\<forall>b \<in> bs. intact b (g' (sd @ [x_hex X (x_hash X b)])))"
      using assms(4) same hex intact' by (auto simp: payloads_fit_def split: option.splits)
  qed
  with \<open>engine_fit e g'\<close> show ?thesis by blast
qed

lemma payload_tree_trans:
  assumes "payload_tree X e {b} g g1" "payload_tree X e bs g1 g2" "digests_ok X" "no_collision X b"
  shows "payload_tree X e (insert b bs) g g2"
  unfolding payload_tree_def
proof (intro conjI ballI allI impI)
  fix c assume c: "c \<in> insert b bs"
  show "\<exists>m. g2 (payload_at X e c) = Some (NFile c m)"
  proof (cases "c \<in> bs")
    case True
    then show ?thesis using assms(2) by (simp add: payload_tree_def)
  next
    case False
    with c have cb: "c = b" "b \<notin> bs" by auto
    then have "payload_at X e b \<notin> payload_at X e ` bs" using payload_at_inj [OF assms(3,4)] by (metis imageE)
    then show ?thesis using assms(1,2) cb by (auto simp: payload_tree_def)
  qed
next
  fix q assume "q \<notin> payload_at X e ` insert b bs"
  then show "g2 q = g q" using assms(1,2) by (auto simp: payload_tree_def)
qed

subsection \<open>All payloads\<close>

definition file_bytes :: "staged_file list \<Rightarrow> bytes set" where
  "file_bytes fs = {b. \<exists>f \<in> set fs. sf_bytes_after f = Some b}"

definition blob_pairs :: "('x) ext_scheme \<Rightarrow> (staged_file \<times> journal_operation) list \<Rightarrow> bool" where
  "blob_pairs X zs \<longleftrightarrow>
     (\<forall>(f, op) \<in> set zs. jo_after_blob op = map_option (x_hash X) (sf_bytes_after f))"

lemma file_bytes_Cons: "file_bytes (f # fs) = (case sf_bytes_after f of None \<Rightarrow> {} | Some b \<Rightarrow> {b}) \<union> file_bytes fs"
  by (auto simp: file_bytes_def split: option.splits)

lemma materialize_loop:
  assumes dig: "digests_ok X" and nc: "\<forall>b \<in> bs. no_collision X b"
  shows "world_ok w \<Longrightarrow> engine_fit e (w_tree w) \<Longrightarrow> payloads_fit X e bs (w_tree w) \<Longrightarrow>
    blob_pairs X zs \<Longrightarrow> file_bytes (map fst zs) \<subseteq> bs \<Longrightarrow>
    \<exists>w' g'. io_for_each (materialize_payload X e) zs w = (Inr (), w') \<and> moves w w' g' \<and>
      payload_tree X e (file_bytes (map fst zs)) (w_tree w) g' \<and> engine_fit e g'"
proof (induction zs arbitrary: w)
  case Nil
  have "payload_tree X e (file_bytes (map fst [])) (w_tree w) (w_tree w)"
    by (simp add: payload_tree_def file_bytes_def)
  with moves_refl [OF Nil.prems(1)] Nil.prems(2) show ?case by auto
next
  case (Cons z zs)
  obtain f op where z: "z = (f, op)" by force
  have rest: "blob_pairs X zs" "file_bytes (map fst zs) \<subseteq> bs"
    using Cons.prems(4,5) by (auto simp: blob_pairs_def file_bytes_Cons)
  show ?case
  proof (cases "sf_bytes_after f")
    case None
    then have "jo_after_blob op = None" using Cons.prems(4) z by (auto simp: blob_pairs_def)
    then have "io_for_each (materialize_payload X e) (z # zs) w = io_for_each (materialize_payload X e) zs w"
      by (simp add: z materialize_payload_def io_bind_def)
    then show ?thesis using Cons.IH [OF Cons.prems(1-3) rest] None by (simp add: z file_bytes_Cons)
  next
    case (Some b)
    then have op: "jo_after_blob op = Some (x_hash X b)" and b: "b \<in> bs"
      using Cons.prems(4,5) z by (auto simp: blob_pairs_def file_bytes_Cons)
    obtain w1 g1 where w1: "place_payload X e (x_hash X b) b w = (Inr (), w1)" "moves w w1 g1"
        "payload_tree X e {b} (w_tree w) g1"
      using place_payload_moves [OF dig Cons.prems(1-3) b] by blast
    have "materialize_payload X e z w = (Inr (), w1)"
      using w1(1) by (simp add: z materialize_payload_def op Some)
    then have run: "io_for_each (materialize_payload X e) (z # zs) w = io_for_each (materialize_payload X e) zs w1"
      by (simp add: io_bind_def)
    have fit1: "engine_fit e (w_tree w1)" "payloads_fit X e bs (w_tree w1)"
      using payload_tree_fit [OF w1(3) dig Cons.prems(2,3) b nc] movesD(2) [OF w1(2)] by auto
    obtain w2 g2 where w2: "io_for_each (materialize_payload X e) zs w1 = (Inr (), w2)" "moves w1 w2 g2"
        "payload_tree X e (file_bytes (map fst zs)) (w_tree w1) g2" "engine_fit e g2"
      using Cons.IH [OF movesD(1) [OF w1(2)] fit1 rest] by blast
    have "payload_tree X e (insert b (file_bytes (map fst zs))) (w_tree w) g2"
      using payload_tree_trans [OF w1(3) _ dig] w2(3) movesD(2) [OF w1(2)] nc b by auto
    then show ?thesis
      using run w2 moves_trans [OF w1(2) w2(2)] Some by (auto simp: z file_bytes_Cons)
  qed
qed

lemma materialize_payloads_moves:
  assumes dig: "digests_ok X" and nc: "\<forall>b \<in> file_bytes (st_files stage). no_collision X b"
    and w: "world_ok w" "engine_fit e (w_tree w)" "payloads_fit X e (file_bytes (st_files stage)) (w_tree w)"
    and len: "length (cj_operations journal) = length (st_files stage)"
    and pairs: "blob_pairs X (zip (st_files stage) (cj_operations journal))"
  shows "\<exists>w' g'. materialize_payloads X e stage journal w = (Inr (), w') \<and> moves w w' g' \<and>
      payload_tree X e (file_bytes (st_files stage)) (w_tree w) g' \<and> engine_fit e g'"
proof -
  have m: "map fst (zip (st_files stage) (cj_operations journal)) = st_files stage"
    using len by simp
  obtain w1 g1 where w1: "io_for_each (materialize_payload X e) (zip (st_files stage) (cj_operations journal)) w =
      (Inr (), w1)" "moves w w1 g1" "payload_tree X e (file_bytes (st_files stage)) (w_tree w) g1" "engine_fit e g1"
    using materialize_loop [OF dig nc w pairs] m by auto
  have bd: "w_tree w1 (blobs_path e) = Some NDir" "names_ok (blobs_path e)"
    using w1(4) movesD(2) [OF w1(2)] by (auto simp: blobs_path_eq engine_fit_def state_dirs_def)
  obtain w2 where "sync_dir_when_durable (blobs_path e) (ce_durability e) SyncFence w1 = (Inr (), w2)"
      "moves w1 w2 g1"
    using sync_directory_moves [OF movesD(1) [OF w1(2)] bd(2,1)] moves_refl [OF movesD(1) [OF w1(2)]]
      movesD(2) [OF w1(2)]
    by (cases "dry_run (ce_durability e)") (auto simp: sync_dir_when_durable_def)
  then show ?thesis
    using w1 moves_trans [OF w1(2)] by (auto simp: materialize_payloads_def io_bind_def)
qed

end
