(* ===== verification/CommitProofs.thy ===== *)
theory CommitProofs
  imports Payloads
begin

text \<open>
  The commit as a whole. \<open>prepared\<close> is the state once the journal is written: every operation is
  ready, every payload in place, the journal readable. From there the uninterrupted run and the
  recovery of any interrupted one end in the same tree, by the redo-log argument.
\<close>

subsection \<open>Hypotheses\<close>

definition stage_fit :: "('x) commit_ext_scheme \<Rightarrow> commit_engine \<Rightarrow> staged_transaction \<Rightarrow> bool" where
  "stage_fit X e stage \<longleftrightarrow> digests_ok X \<and> length (st_id stage) = 32 \<and>
     (\<forall>f \<in> set (st_files stage). file_ready X (ce_target_root e) f) \<and>
     files_apart (ce_target_root e) (st_files stage)"

text \<open>A Git root is committed at the top of its worktree.\<close>

definition root_fit :: "('x) ext_scheme \<Rightarrow> commit_engine \<Rightarrow> source_root_id \<Rightarrow> bool" where
  "root_fit X e root = (case root of
       RootDirectory d \<Rightarrow> True
     | RootGitWorktree r t \<Rightarrow> (case x_discover X (ce_target_root e) of
           Inl err \<Rightarrow> False
         | Inr repo \<Rightarrow> join_path [] (repo_root repo) = ce_target_root e))"

definition state_fit :: "('x) commit_ext_scheme \<Rightarrow> commit_engine \<Rightarrow> staged_transaction \<Rightarrow> tree \<Rightarrow> bool" where
  "state_fit X e stage g \<longleftrightarrow> engine_fit e g \<and> payloads_fit X e (file_bytes (st_files stage)) g \<and>
     absent_or_file (g (journal_path X e (st_id stage))) \<and> absent_or_file (g (receipt_path X e (st_id stage))) \<and>
     absent_or_file (g (lock_path X e))"

text \<open>The journal of a stage does not depend on the file system.\<close>

definition stage_journal :: "('x) ext_scheme \<Rightarrow> staged_transaction \<Rightarrow> commit_journal" where
  "stage_journal X stage =
     \<lparr>cj_version = JOURNAL_VERSION, cj_stage_id = st_id stage, cj_root = st_root stage,
      cj_operations = concat (map (\<lambda>f. case operation_from_file X f of Inl e \<Rightarrow> [] | Inr op \<Rightarrow> [op]) (st_files stage))\<rparr>"

lemma rmap_preflight_ops:
  "rmap_all (preflight_file X fs root) files = Inr ops \<Longrightarrow>
    ops = concat (map (\<lambda>f. case operation_from_file X f of Inl e \<Rightarrow> [] | Inr op \<Rightarrow> [op]) files)"
proof (induction files arbitrary: ops)
  case (Cons f files)
  then obtain op ops' where o: "preflight_file X fs root f = Inr op" "rmap_all (preflight_file X fs root) files = Inr ops'"
      "ops = op # ops'"
    by (auto split: sum.splits)
  then show ?case using Cons.IH preflight_file_op(1) [OF o(1)] by simp
qed simp

lemma preflight_stage_journal: "preflight X e fs stage = Inr J \<Longrightarrow> J = stage_journal X stage"
  using rmap_preflight_ops by (auto simp: preflight_def stage_journal_def rbind_eq_Ok)

definition journal_decodes :: "('x) commit_ext_scheme \<Rightarrow> commit_journal \<Rightarrow> bool" where
  "journal_decodes X J \<longleftrightarrow> x_dec_journal X (x_enc_journal X J) = Some J"

subsection \<open>State files and the target\<close>

lemma state_file_facts:
  assumes "engine_fit e g" "n \<in> set state_dirs" "plain_name f" "p = ce_state_root e @ [n, f]"
  shows "names_ok p" "p \<noteq> []" "g (butlast p) = Some NDir" "\<not> comparable (ce_target_root e) p"
proof -
  have e: "names_ok (ce_state_root e)" "\<not> comparable (ce_target_root e) (ce_state_root e)"
      "g (ce_state_root e @ [n]) = Some NDir"
    using assms(1,2) by (auto simp: engine_fit_def)
  show "names_ok p" unfolding assms(4) by (rule state_file_names [OF e(1) assms(2,3)])
  show "p \<noteq> []" "g (butlast p) = Some NDir" using e(3) by (simp_all add: assms(4) butlast_append)
  have "\<not> prefix p (ce_target_root e)" unfolding assms(4) by (rule state_apart [OF e(2)]) simp
  moreover have "\<not> prefix (ce_target_root e) p"
    using e(2) unfolding assms(4) comparable_def by (metis prefix_def prefix_same_cases)
  ultimately show "\<not> comparable (ce_target_root e) p" by (simp add: comparable_def)
qed

lemma state_paths:
  assumes "digests_ok X" "length i = 32" "engine_fit e g"
  shows "names_ok (journal_path X e i)" "journal_path X e i \<noteq> []"
    "g (butlast (journal_path X e i)) = Some NDir" "\<not> comparable (ce_target_root e) (journal_path X e i)"
    "names_ok (receipt_path X e i)" "receipt_path X e i \<noteq> []"
    "g (butlast (receipt_path X e i)) = Some NDir" "\<not> comparable (ce_target_root e) (receipt_path X e i)"
    "names_ok (lock_path X e)" "lock_path X e \<noteq> []"
    "g (butlast (lock_path X e)) = Some NDir" "\<not> comparable (ce_target_root e) (lock_path X e)"
proof -
  have "''journals'' \<in> set state_dirs" "''receipts'' \<in> set state_dirs" "''locks'' \<in> set state_dirs"
    by (simp_all add: state_dirs_def)
  note f = state_file_facts [OF assms(3) this(1) plain_hex_json [OF assms(1,2)] journal_path_eq [OF assms(1,2)]]
    state_file_facts [OF assms(3) this(2) plain_hex_json [OF assms(1,2)] receipt_path_eq [OF assms(1,2)]]
    state_file_facts [OF assms(3) this(3) plain_lock [OF assms(1)] lock_path_eq [OF assms(1)]]
  show "names_ok (journal_path X e i)" "journal_path X e i \<noteq> []"
    "g (butlast (journal_path X e i)) = Some NDir" "\<not> comparable (ce_target_root e) (journal_path X e i)"
    "names_ok (receipt_path X e i)" "receipt_path X e i \<noteq> []"
    "g (butlast (receipt_path X e i)) = Some NDir" "\<not> comparable (ce_target_root e) (receipt_path X e i)"
    "names_ok (lock_path X e)" "lock_path X e \<noteq> []"
    "g (butlast (lock_path X e)) = Some NDir" "\<not> comparable (ce_target_root e) (lock_path X e)"
    using f by blast+
qed

lemma state_paths_distinct:
  assumes "digests_ok X" "length i = 32"
  shows "journal_path X e i \<noteq> receipt_path X e i" "payload_at X e b \<noteq> journal_path X e i"
    "payload_at X e b \<noteq> receipt_path X e i" "payload_at X e b \<noteq> lock_path X e"
    "lock_path X e \<noteq> journal_path X e i" "lock_path X e \<noteq> receipt_path X e i"
  using assms by (simp_all add: journal_path_eq receipt_path_eq payload_at_eq lock_path_eq)

lemma hex_not_suffixed:
  assumes "digests_ok X" "length i = 32" "length j = 32"
  shows "x_hex X i \<noteq> x_hex X j @ c # cs"
proof
  assume "x_hex X i = x_hex X j @ c # cs"
  then have "length (x_hex X i) = length (x_hex X j) + Suc (length cs)" by simp
  with assms show False by (simp add: digests_ok_def)
qed

text \<open>Writing beside the target keeps the engine fit.\<close>

lemma engine_fit_upd:
  assumes "engine_fit e g" "\<not> comparable (ce_target_root e) p" "g p \<noteq> Some NDir"
  shows "engine_fit e (g(p := n))"
proof -
  have "p \<noteq> ce_target_root e" using assms(2) by (auto simp: comparable_def)
  moreover have "p \<noteq> ce_state_root e @ [d]" if "d \<in> set state_dirs" for d
    using assms(1,3) that by (auto simp: engine_fit_def)
  ultimately show ?thesis using assms(1) by (auto simp: engine_fit_def)
qed

lemma jops_ready_upd:
  assumes "jops_ready X root zs g" "\<not> comparable root p" "tree (g(p := n))"
  shows "jops_ready X root zs (g(p := n))"
proof -
  have "op_ready X root z (g(p := n)) = op_ready X root z g" for z
    using assms(2) by (intro op_ready_cong) auto
  with assms(1,3) show ?thesis by (simp add: jops_ready_def)
qed

lemma journal_run_upd:
  assumes "\<not> comparable root s" "jops_ready X root zs g"
  shows "jops_ready X root zs g" "journal_run root u zs g (s @ r) = g (s @ r)"
  using assms journal_run_state by blast+

lemma jops_ready_take:
  "jops_ready X root zs g \<Longrightarrow> jops_ready X root (take k zs) g"
  by (auto simp: jops_ready_def sorted_wrt_take dest: in_set_takeD)

lemma journal_run_dirs:
  "jops_ready X root zs g \<Longrightarrow> g q = Some NDir \<Longrightarrow> journal_run root u zs g q = Some NDir"
proof (induction zs arbitrary: g)
  case (Cons z zs)
  obtain op b where z: "z = (op, b)" by force
  have "tree_apply root u z g q = Some NDir"
    using Cons.prems unfolding z by (intro tree_apply_dirs) (auto simp: jops_ready_def)
  with Cons.IH [OF jops_ready_step [OF Cons.prems(1)]] show ?case by simp
qed simp

lemma journal_run_tree: "jops_ready X root zs g \<Longrightarrow> tree (journal_run root u zs g)"
proof (induction zs arbitrary: g)
  case Nil
  then show ?case by (simp add: jops_ready_def)
next
  case (Cons z zs)
  then show ?case using jops_ready_step [OF Cons.prems] by simp
qed

lemma engine_fit_run:
  assumes "engine_fit e g" "jops_ready X (ce_target_root e) zs g"
  shows "engine_fit e (journal_run (ce_target_root e) u zs g)"
  using assms journal_run_dirs [OF assms(2)] by (simp add: engine_fit_def)

subsection \<open>The prepared state\<close>

definition payloads_match :: "('x) ext_scheme \<Rightarrow> staged_transaction \<Rightarrow> commit_journal \<Rightarrow> bool" where
  "payloads_match X stage J \<longleftrightarrow>
     map jo_after_blob (cj_operations J) = map (map_option (x_hash X) \<circ> sf_bytes_after) (st_files stage)"

definition prepared :: "('x) commit_ext_scheme \<Rightarrow> commit_engine \<Rightarrow> staged_transaction \<Rightarrow> commit_journal \<Rightarrow> tree \<Rightarrow> bool" where
  "prepared X e stage J g \<longleftrightarrow> engine_fit e g \<and> cj_version J = JOURNAL_VERSION \<and>
     cj_stage_id J = st_id stage \<and> cj_root J = st_root stage \<and> payloads_match X stage J \<and>
     validate_journal J = Inr () \<and> jops_ready X (ce_target_root e) (stage_jops stage J) g \<and>
     (\<forall>b \<in> file_bytes (st_files stage). \<exists>m. g (payload_at X e b) = Some (NFile b m)) \<and>
     (\<exists>m. g (journal_path X e (st_id stage)) = Some (NFile (x_enc_journal X J) m))"

lemma preflight_payloads:
  assumes "preflight X e fs stage = Inr J" "\<forall>f \<in> set (st_files stage). file_ready X root f"
  shows "payloads_match X stage J" "length (cj_operations J) = length (st_files stage)"
    "blob_pairs X (zip (st_files stage) (cj_operations J))"
proof -
  from preflight_ops(4) [OF assms(1)]
  have len: "length (cj_operations J) = length (st_files stage)"
    and each: "\<And>i. i < length (st_files stage) \<Longrightarrow>
      preflight_file X fs (ce_target_root e) (st_files stage ! i) = Inr (cj_operations J ! i)"
    by (auto simp: rmap_all_Ok)
  have eq: "jo_after_blob (cj_operations J ! i) = map_option (x_hash X) (sf_bytes_after (st_files stage ! i))"
    if "i < length (st_files stage)" for i
    using operation_from_file_fields(5) [OF preflight_file_op(1) [OF each [OF that]]] assms(2) that
    by (simp add: file_ready_def)
  show "length (cj_operations J) = length (st_files stage)" by (rule len)
  show "payloads_match X stage J"
    unfolding payloads_match_def by (rule nth_equalityI) (simp_all add: len eq)
  show "blob_pairs X (zip (st_files stage) (cj_operations J))"
    using len eq by (auto simp: blob_pairs_def set_zip)
qed

lemma prepare_commit_prepared:
  assumes sf: "stage_fit X e stage" and w: "world_ok w" and st: "state_fit X e stage (w_tree w)"
    and run: "w_tree w (journal_path X e (st_id stage)) = None"
      "preflight X e (w_fs w) stage = Inr J" "validate_journal J = Inr ()"
  shows "\<exists>w' g'. prepare_commit X e stage w = (Inr J, w') \<and> moves w w' g' \<and> prepared X e stage J g' \<and>
    absent_or_file (g' (receipt_path X e (st_id stage))) \<and> g' (lock_path X e) = w_tree w (lock_path X e) \<and>
    (\<forall>q. \<not> prefix (ce_state_root e) q \<longrightarrow> g' q = w_tree w q)"
proof -
  let ?g = "w_tree w" and ?jp = "journal_path X e (st_id stage)" and ?root = "ce_target_root e"
  have dig: "digests_ok X" "length (st_id stage) = 32"
    and fr: "\<forall>f \<in> set (st_files stage). file_ready X ?root f" "files_apart ?root (st_files stage)"
    using sf by (auto simp: stage_fit_def)
  have ef: "engine_fit e ?g" and pf: "payloads_fit X e (file_bytes (st_files stage)) ?g"
    and rp: "absent_or_file (?g (receipt_path X e (st_id stage)))"
    using st by (auto simp: state_fit_def)
  note t = world_ok_tree [OF w]
  note jp = state_paths(1-4) [OF dig ef]
  have nc: "\<forall>b \<in> file_bytes (st_files stage). no_collision X b"
    using fr(1) by (auto simp: file_bytes_def file_ready_def)
  note pm = preflight_payloads [OF run(2) fr(1)]
  have ex: "\<not> path_exists (w_fs w) ?jp"
    using path_exists_clear [OF t jp(1) parent_clear [OF t jp(2,3)]] run(1) by simp
  obtain w1 g1 where w1: "materialize_payloads X e stage J w = (Inr (), w1)" "moves w w1 g1"
      "payload_tree X e (file_bytes (st_files stage)) ?g g1" "engine_fit e g1"
    using materialize_payloads_moves [OF dig(1) nc w ef pf pm(2,3)] by blast
  have out: "g1 q = ?g q" if "comparable ?root q \<or> ?g q = Some NDir" for q
    using payload_tree_outside [OF w1(3) dig(1) ef that] pf by (auto simp: payloads_fit_def)
  have g1j: "g1 ?jp = None" and g1r: "g1 (receipt_path X e (st_id stage)) = ?g (receipt_path X e (st_id stage))"
    using w1(3) run(1) state_paths_distinct(2,3) [OF dig] unfolding payload_tree_def by (metis imageE)+
  note m1 = movesD [OF w1(2)]
  obtain w2 where w2: "write_journal X ?jp J (ce_durability e) (cross_root_level e) w1 = (Inr (), w2)"
      "moves w1 w2 (g1(?jp \<mapsto> put_file (ce_durability e) (w_umask w1) (x_enc_journal X J) None))"
    using write_state_file_moves [OF m1(1) jp(1,2)] state_paths(3) [OF dig w1(4)] m1(2) g1j
    unfolding write_journal_def by (metis absent_or_file_def)
  let ?g2 = "g1(?jp \<mapsto> put_file (ce_durability e) (w_umask w1) (x_enc_journal X J) None)"
  have pc: "prepare_commit X e stage w = (Inr J, w2)"
    using ex run w1(1) w2(1) by (simp add: prepare_commit_def io_bind_def)
  have jp1: "\<not> comparable ?root ?jp" by (rule jp(4))
  have tree2: "tree ?g2" using movesD(1,2) [OF w2(2)] world_ok_tree by metis
  have r1: "jops_ready X ?root (stage_jops stage J) g1"
  proof -
    have "jops_ready X ?root (stage_jops stage J) ?g"
      using ef fr by (intro preflight_ready [OF t _ _ run(2)]) (auto simp: engine_fit_def)
    moreover have "op_ready X ?root z g1 = op_ready X ?root z ?g" for z
      using out by (intro op_ready_cong) blast
    moreover have "tree g1" using m1(1,2) world_ok_tree by metis
    ultimately show ?thesis by (simp add: jops_ready_def)
  qed
  have pay: "\<exists>m. ?g2 (payload_at X e b) = Some (NFile b m)" if "b \<in> file_bytes (st_files stage)" for b
    using w1(3) that state_paths_distinct(2) [OF dig, of e b] by (auto simp: payload_tree_def)
  have "engine_fit e ?g2" using g1j by (intro engine_fit_upd [OF w1(4) jp1]) simp
  moreover have "jops_ready X ?root (stage_jops stage J) ?g2" by (rule jops_ready_upd [OF r1 jp1 tree2])
  ultimately have "prepared X e stage J ?g2"
    using preflight_ops [OF run(2)] pm(1) run(3) pay by (simp add: prepared_def put_file_def)
  moreover have "absent_or_file (?g2 (receipt_path X e (st_id stage)))"
    using g1r rp state_paths_distinct(1) [OF dig, of e] by auto
  moreover have "?g2 (lock_path X e) = ?g (lock_path X e)"
  proof -
    have "lock_path X e \<notin> payload_at X e ` file_bytes (st_files stage)"
      using state_paths_distinct(4) [OF dig] by (metis imageE)
    then show ?thesis using w1(3) state_paths_distinct(5) [OF dig, of e] by (simp add: payload_tree_def)
  qed
  moreover have "\<forall>q. \<not> prefix (ce_state_root e) q \<longrightarrow> ?g2 q = ?g q"
  proof (intro allI impI)
    fix q assume q: "\<not> prefix (ce_state_root e) q"
    then have "q \<notin> payload_at X e ` file_bytes (st_files stage)" "q \<noteq> ?jp"
      by (auto simp: payload_at_eq journal_path_eq dig)
    then show "?g2 q = ?g q" using w1(3) by (simp add: payload_tree_def)
  qed
  ultimately show ?thesis using pc moves_trans [OF w1(2) w2(2)] by blast
qed

subsection \<open>From the prepared state\<close>

text \<open>The intermediate states of the application: \<open>k\<close> operations have run.\<close>

definition at_step :: "commit_engine \<Rightarrow> staged_transaction \<Rightarrow> commit_journal \<Rightarrow> u32 \<Rightarrow> nat \<Rightarrow> tree \<Rightarrow> tree" where
  "at_step e stage J u k g = journal_run (ce_target_root e) u (take k (stage_jops stage J)) g"

definition settled ::
  "('x) commit_ext_scheme \<Rightarrow> commit_engine \<Rightarrow> staged_transaction \<Rightarrow> commit_journal \<Rightarrow> u32 \<Rightarrow> tree \<Rightarrow> tree" where
  "settled X e stage J u g =
     (let r = receipt (st_id stage) (cj_root J) (cj_operations J) (len64 (x_enc_journal X J)) 0;
          rp = receipt_path X e (st_id stage);
          h = journal_run (ce_target_root e) u (stage_jops stage J) g
      in h(rp \<mapsto> put_file (ce_durability e) u (x_enc_receipt X r) (g rp),
           journal_path X e (st_id stage) := None))"

lemma prepared_len: "prepared X e stage J g \<Longrightarrow> length (cj_operations J) = length (st_files stage)"
  unfolding prepared_def payloads_match_def by (metis length_map)

lemma at_step_state:
  assumes "prepared X e stage J g"
  shows "at_step e stage J u k g (ce_state_root e @ r) = g (ce_state_root e @ r)"
  using assms jops_ready_take unfolding prepared_def engine_fit_def at_step_def
  by (intro journal_run_state) auto

lemma at_step_tree: "prepared X e stage J g \<Longrightarrow> tree (at_step e stage J u k g)"
  using jops_ready_take unfolding prepared_def at_step_def by (blast intro: journal_run_tree)

lemma at_step_fit: "prepared X e stage J g \<Longrightarrow> engine_fit e (at_step e stage J u k g)"
  using jops_ready_take unfolding prepared_def at_step_def by (blast intro: engine_fit_run)

lemma operation_bytes_present:
  assumes "digests_ok X" "world_ok w" "engine_fit e (w_tree w)"
    and "jo_after_blob op = map_option (x_hash X) bs"
    and "\<forall>b. bs = Some b \<longrightarrow> (\<exists>m. w_tree w (payload_at X e b) = Some (NFile b m))"
  shows "operation_bytes X e (w_fs w) op = Inr bs"
proof (cases bs)
  case None
  then show ?thesis using assms(4) by (simp add: operation_bytes_def)
next
  case (Some b)
  then obtain m where "w_tree w (payload_at X e b) = Some (NFile b m)" using assms(5) by blast
  then have "fs_read (w_fs w) (blob_path X e (x_hash X b)) = Inr b"
    using fs_read_file [OF world_ok_tree [OF assms(2)] payload_path_facts(1) [OF assms(1,3)]]
    by (simp add: payload_at_def)
  then show ?thesis using Some assms(4) by (simp add: operation_bytes_def)
qed

lemma payloads_read:
  assumes "digests_ok X" "world_ok w" "prepared X e stage J g" "w_tree w = at_step e stage J u k g"
  shows "\<And>i. i < length (cj_operations J) \<Longrightarrow>
      operation_bytes X e (w_fs w) (cj_operations J ! i) = Inr (sf_bytes_after (st_files stage ! i))"
    "rmap_all (operation_bytes X e (w_fs w)) (cj_operations J) = Inr (map sf_bytes_after (st_files stage))"
proof -
  note len = prepared_len [OF assms(3)]
  have blob: "jo_after_blob (cj_operations J ! i) = map_option (x_hash X) (sf_bytes_after (st_files stage ! i))"
    if "i < length (cj_operations J)" for i
    using assms(3) that len unfolding prepared_def payloads_match_def by (metis comp_apply nth_map)
  have pres: "\<exists>m. w_tree w (payload_at X e b) = Some (NFile b m)"
    if "i < length (cj_operations J)" "sf_bytes_after (st_files stage ! i) = Some b" for i b
  proof -
    have "b \<in> file_bytes (st_files stage)" using that len by (auto simp: file_bytes_def)
    then have "\<exists>m. g (payload_at X e b) = Some (NFile b m)" using assms(3) by (auto simp: prepared_def)
    then show ?thesis using at_step_state [OF assms(3)] assms(4) by (simp add: payload_at_eq assms(1))
  qed
  have ef: "engine_fit e (w_tree w)" using at_step_fit [OF assms(3)] assms(4) by simp
  show one: "operation_bytes X e (w_fs w) (cj_operations J ! i) = Inr (sf_bytes_after (st_files stage ! i))"
    if "i < length (cj_operations J)" for i
    using blob [OF that] pres [OF that] by (intro operation_bytes_present [OF assms(1,2) ef]) auto
  show "rmap_all (operation_bytes X e (w_fs w)) (cj_operations J) = Inr (map sf_bytes_after (st_files stage))"
    unfolding rmap_all_Ok using one len by simp
qed

lemma sync_dirs_moves:
  "world_ok w \<Longrightarrow> dirs_ok ds (w_tree w) \<Longrightarrow>
    \<exists>w'. io_for_each (\<lambda>p. sync_dir_when_durable p d level) ds w = (Inr (), w') \<and> moves w w' (w_tree w)"
proof (induction ds arbitrary: w)
  case (Cons p ds)
  have p: "names_ok p" "w_tree w p = Some NDir" using Cons.prems(2) by (auto simp: dirs_ok_def)
  obtain w1 where w1: "sync_dir_when_durable p d level w = (Inr (), w1)" "moves w w1 (w_tree w)"
    using sync_directory_moves [OF Cons.prems(1) p] moves_refl [OF Cons.prems(1)]
    by (cases "dry_run d") (auto simp: sync_dir_when_durable_def)
  have "dirs_ok ds (w_tree w1)" using Cons.prems(2) movesD(2) [OF w1(2)] by (simp add: dirs_ok_def)
  with Cons.IH [OF movesD(1) [OF w1(2)]] w1 moves_trans [OF w1(2)] movesD(2) [OF w1(2)]
  show ?case by (auto simp: io_bind_def)
qed (auto intro: moves_refl)

lemma replay_dirs:
  "admits X root u skip zs g \<Longrightarrow> g q = Some NDir \<Longrightarrow>
    redo_log.replay (tree_apply root u) (map (\<lambda>z. (skip z, z)) zs) g q = Some NDir"
proof (induction zs arbitrary: g)
  case (Cons z zs)
  obtain op b where z: "z = (op, b)" by force
  show ?case
  proof (cases "skip z")
    case False
    then have "tree_apply root u z g q = Some NDir"
      using Cons.prems unfolding z by (intro tree_apply_dirs) auto
    with False Cons show ?thesis by simp
  qed (use Cons in simp)
qed simp

text \<open>Skipping what looks finished from an intermediate state, the application ends in the tree of
  the whole journal.\<close>

lemma apply_journal_moves:
  assumes dig: "digests_ok X" and w: "world_ok w" and p: "prepared X e stage J g"
    and g: "w_tree w = at_step e stage J u k g" "w_umask w = u"
    and skip: "\<And>i. i < length (cj_operations J) \<Longrightarrow>
      i \<in> set completed \<longleftrightarrow> skip (stage_jops stage J ! i)"
    and adm: "admits X (ce_target_root e) u skip (stage_jops stage J) (w_tree w)"
  shows "\<exists>w'. apply_journal X e J None completed w = (Inr (), w') \<and>
    moves w w' (redo_log.replay (tree_apply (ce_target_root e) u)
      (map (\<lambda>z. (skip z, z)) (stage_jops stage J)) (w_tree w))"
proof -
  let ?root = "ce_target_root e" and ?zs = "stage_jops stage J"
  note len = prepared_len [OF p]
  have names: "names_ok ?root" using p by (simp add: prepared_def engine_fit_def)
  have zs: "zip (cj_operations J) (map sf_bytes_after (st_files stage)) = ?zs" by (simp add: stage_jops_def)
  have len2: "length ?zs = length (cj_operations J)" using len by (simp add: stage_jops_def)
  have ix: "\<forall>i < length ?zs. 0 + i \<in> set completed \<longleftrightarrow> skip (?zs ! i)" using skip len2 by simp
  have d0: "dirs_ok [] (w_tree w)" by (simp add: dirs_ok_def)
  have adm': "admits X ?root (w_umask w) skip ?zs (w_tree w)" using adm g(2) by simp
  obtain w1 ds where w1: "apply_operations e None completed 0 ?zs [] w = (Inr ds, w1)"
      "dirs_ok ds (w_tree w1)"
      "moves w w1 (redo_log.replay (tree_apply ?root (w_umask w)) (map (\<lambda>z. (skip z, z)) ?zs) (w_tree w))"
    using apply_operations_replay [OF names refl w adm' d0 ix] by blast
  obtain w2 where w2: "io_for_each (\<lambda>p. sync_dir_when_durable p (ce_durability e) SyncData) ds w1 = (Inr (), w2)"
      "moves w1 w2 (w_tree w1)"
    using sync_dirs_moves [OF movesD(1) [OF w1(3)] w1(2)] by blast
  have fit1: "w_tree w ?root = Some NDir" using at_step_fit [OF p] g(1) by (simp add: engine_fit_def)
  have "w_tree w1 ?root = Some NDir"
    using movesD(2) [OF w1(3)] replay_dirs [OF adm fit1] g(2) by simp
  then have root2: "w_tree w2 ?root = Some NDir" using movesD(2) [OF w2(2)] by simp
  obtain w3 where w3: "(if ds \<noteq> [] then sync_dir_when_durable ?root (ce_durability e) (cross_root_level e)
      else io_ok ()) w2 = (Inr (), w3)" "moves w2 w3 (w_tree w2)"
    using sync_directory_moves [OF movesD(1) [OF w2(2)] names root2] moves_refl [OF movesD(1) [OF w2(2)]]
    by (cases "dry_run (ce_durability e)"; cases "ds = []") (auto simp: sync_dir_when_durable_def)
  have "apply_journal X e J None completed w = (Inr (), w3)"
    using payloads_read(2) [OF dig w p g(1)] w1(1) w2(1) w3(1)
    by (simp add: apply_journal_def io_bind_def zs)
  moreover have "moves w w3 (redo_log.replay (tree_apply ?root u) (map (\<lambda>z. (skip z, z)) ?zs) (w_tree w))"
    using moves_trans [OF w1(3) moves_trans [OF w2(2) w3(2)]] movesD(2) [OF w1(3)] movesD(2) [OF w2(2)] g(2)
    by simp
  ultimately show ?thesis by blast
qed

lemma settle_moves:
  assumes dig: "digests_ok X" "length (st_id stage) = 32" and w: "world_ok w" and p: "prepared X e stage J g"
    and rp: "absent_or_file (g (receipt_path X e (st_id stage)))"
    and g: "w_tree w = journal_run (ce_target_root e) u (stage_jops stage J) g" "w_umask w = u"
  shows "\<exists>w'. settle X e (st_id stage) J w =
      (Inr (receipt (st_id stage) (cj_root J) (cj_operations J) (len64 (x_enc_journal X J)) 0), w') \<and>
    moves w w' (settled X e stage J u g)"
proof -
  let ?i = "st_id stage" and ?h = "w_tree w"
  let ?r = "receipt ?i (cj_root J) (cj_operations J) (len64 (x_enc_journal X J)) 0"
  note t = world_ok_tree [OF w]
  have step: "w_tree w = at_step e stage J u (length (stage_jops stage J)) g" using g(1) by (simp add: at_step_def)
  have fit: "engine_fit e ?h" using at_step_fit [OF p] step by simp
  note paths = state_paths [OF dig fit]
  have same: "?h (ce_state_root e @ q) = g (ce_state_root e @ q)" for q using at_step_state [OF p] step by simp
  have j: "?h (journal_path X e ?i) = g (journal_path X e ?i)" and r: "?h (receipt_path X e ?i) = g (receipt_path X e ?i)"
    unfolding journal_path_eq [OF dig] receipt_path_eq [OF dig] by (rule same)+
  obtain m where m: "?h (journal_path X e ?i) = Some (NFile (x_enc_journal X J) m)"
    using p j by (auto simp: prepared_def)
  have jl: "journal_len (w_fs w) (journal_path X e ?i) = len64 (x_enc_journal X J)"
    using stat_present [OF t paths(1) m] by (simp add: journal_len_def node_len_def)
  let ?n = "put_file (ce_durability e) u (x_enc_receipt X ?r) (g (receipt_path X e ?i))"
  obtain w1 where w1: "write_receipt X (receipt_path X e ?i) ?r (ce_durability e) w = (Inr (), w1)"
      "moves w w1 (?h(receipt_path X e ?i \<mapsto> ?n))"
    using write_state_file_moves [OF w paths(5,6,7)] rp r g(2) unfolding write_receipt_def by metis
  have j1: "w_tree w1 (journal_path X e ?i) = Some (NFile (x_enc_journal X J) m)"
    using movesD(2) [OF w1(2)] m state_paths_distinct(1) [OF dig, of e] by simp
  obtain w2 where w2: "fs_remove_file (journal_path X e ?i) w1 = (Inr (), w2)"
      "moves w1 w2 ((w_tree w1)(journal_path X e ?i := None))"
    using fs_remove_moves [OF movesD(1) [OF w1(2)] paths(1) j1] by auto
  have "(w_tree w1)(journal_path X e ?i := None) = settled X e stage J u g"
    using movesD(2) [OF w1(2)] g(1) by (simp add: settled_def Let_def)
  then show ?thesis
    using w1(1) w2 jl moves_trans [OF w1(2) w2(2)]
    by (auto simp: settle_def io_bind_def remove_journal_def)
qed

text \<open>The classification at an intermediate state decides \<open>op_finished\<close>.\<close>

lemma classify_all_step:
  assumes dig: "digests_ok X" and w: "world_ok w" and p: "prepared X e stage J g"
    and g: "w_tree w = at_step e stage J u k g"
  shows "classify_all X e J (w_fs w) = Inr (map (\<lambda>z. if op_finished (ce_target_root e) z (w_tree w)
    then After else Before) (stage_jops stage J))"
proof -
  let ?root = "ce_target_root e" and ?zs = "stage_jops stage J"
  note t = world_ok_tree [OF w] and len = prepared_len [OF p]
  have names: "names_ok ?root" using p by (simp add: prepared_def engine_fit_def)
  have ready: "redo_log.all_ready (op_ready X ?root) (op_apart ?root) tree (take k ?zs @ drop k ?zs) g"
    using p by (simp add: prepared_def jops_ready_redo)
  have rf: "op_ready X ?root z (w_tree w) \<or> op_finished ?root z (w_tree w)" if "z \<in> set ?zs" for z
    using redo.interrupted_states [OF ready, of z u] that g
    by (simp add: at_step_def journal_run_redo)
  have one: "rbind (operation_bytes X e (w_fs w) (cj_operations J ! i)) (classify_operation X (w_fs w) ?root (cj_operations J ! i)) =
      Inr (if op_finished ?root (?zs ! i) (w_tree w) then After else Before)"
    if i: "i < length (cj_operations J)" for i
  proof -
    have z: "?zs ! i = (cj_operations J ! i, sf_bytes_after (st_files stage ! i))" "?zs ! i \<in> set ?zs"
      using i len nth_mem [of i ?zs] by (simp_all add: stage_jops_def)
    show ?thesis
      using payloads_read(1) [OF dig w p g i] classify_refines [OF t names rf [OF z(2), unfolded z(1)]]
      by (simp add: z(1))
  qed
  show ?thesis
    unfolding classify_all_def rmap_all_Ok using one len by (simp add: stage_jops_def)
qed

lemma completed_of_iff:
  "i \<in> set (completed_of states) \<longleftrightarrow> i < length states \<and> states ! i = After"
  by (force simp: completed_of_def set_zip)

lemma recover_apply_moves:
  assumes dig: "digests_ok X" and w: "world_ok w" and p: "prepared X e stage J g"
    and g: "w_tree w = at_step e stage J u k g" "w_umask w = u"
  shows "\<exists>w'. apply_journal X e J None (completed_of (map (\<lambda>z. if op_finished (ce_target_root e) z (w_tree w)
      then After else Before) (stage_jops stage J))) w = (Inr (), w') \<and>
    moves w w' (journal_run (ce_target_root e) u (stage_jops stage J) g)"
proof -
  let ?root = "ce_target_root e" and ?zs = "stage_jops stage J"
  let ?fin = "\<lambda>z. op_finished ?root z (w_tree w)"
  note len = prepared_len [OF p]
  have ready: "redo_log.all_ready (op_ready X ?root) (op_apart ?root) tree (take k ?zs @ drop k ?zs) g"
    using p by (simp add: prepared_def jops_ready_redo)
  have xs: "redo_log.all_ready (op_ready X ?root) (op_apart ?root) tree (take k ?zs) g"
    using p jops_ready_take unfolding prepared_def jops_ready_redo [symmetric] by blast
  have wt: "w_tree w = redo_log.run (tree_apply ?root u) (take k ?zs) g"
    using g(1) by (simp add: at_step_def journal_run_redo)
  have fin: "\<forall>z \<in> set (take k ?zs). ?fin z" unfolding wt using redo.all_finished [OF xs] by blast
  have "jops_ready X ?root (drop k ?zs) (w_tree w)"
    unfolding jops_ready_redo wt by (rule redo.all_ready_run [OF ready])
  then have "admits X ?root u ?fin (take k ?zs @ drop k ?zs) (w_tree w)"
    using admits_skipped [OF fin] admits_ready by blast
  then have adm: "admits X ?root u ?fin ?zs (w_tree w)" by simp
  have ix: "i \<in> set (completed_of (map (\<lambda>z. if ?fin z then After else Before) ?zs)) \<longleftrightarrow> ?fin (?zs ! i)"
    if "i < length (cj_operations J)" for i
    using that len by (auto simp: completed_of_iff stage_jops_def)
  obtain w' where w': "apply_journal X e J None (completed_of (map (\<lambda>z. if ?fin z then After else Before) ?zs)) w = (Inr (), w')"
      "moves w w' (redo_log.replay (tree_apply ?root u) (map (\<lambda>z. (?fin z, z)) ?zs) (w_tree w))"
    using apply_journal_moves [OF dig w p g ix adm] by blast
  have "redo_log.replay (tree_apply ?root u) (map (\<lambda>z. (?fin z, z)) ?zs) (w_tree w) = journal_run ?root u ?zs g"
    using redo.replay_after_interruption [OF ready, of u] by (simp add: wt journal_run_redo)
  with w' show ?thesis by auto
qed

lemma replay_none:
  "redo_log.replay (tree_apply root u) (map (\<lambda>z. (False, z)) zs) h = journal_run root u zs h"
  by (induction zs arbitrary: h) simp_all

lemma apply_whole_moves:
  assumes "digests_ok X" "world_ok w" "prepared X e stage J (w_tree w)"
  shows "\<exists>w'. apply_journal X e J None [] w = (Inr (), w') \<and>
    moves w w' (journal_run (ce_target_root e) (w_umask w) (stage_jops stage J) (w_tree w))"
proof -
  let ?root = "ce_target_root e" and ?zs = "stage_jops stage J"
  have jr: "jops_ready X ?root ?zs (w_tree w)" using assms(3) by (simp add: prepared_def)
  have g: "w_tree w = at_step e stage J (w_umask w) 0 (w_tree w)" by (simp add: at_step_def)
  show ?thesis
    using apply_journal_moves [OF assms(1-3) g refl, of "[]" "\<lambda>_. False"] admits_ready [OF jr]
    by (simp add: replay_none)
qed

lemma apply_interrupted_moves:
  assumes dig: "digests_ok X" and w: "world_ok w" and p: "prepared X e stage J (w_tree w)"
  shows "\<exists>k w'. moves w w' (at_step e stage J (w_umask w) k (w_tree w)) \<and>
    ((\<exists>f. apply_journal X e J fp [] w = (Inl (Failpoint f), w')) \<or>
     at_step e stage J (w_umask w) k (w_tree w) = journal_run (ce_target_root e) (w_umask w) (stage_jops stage J) (w_tree w) \<and>
       apply_journal X e J fp [] w = (Inr (), w'))"
proof -
  let ?root = "ce_target_root e" and ?zs = "stage_jops stage J" and ?g = "w_tree w"
  have jr: "jops_ready X ?root ?zs ?g" and names: "names_ok ?root"
    using p by (auto simp: prepared_def engine_fit_def)
  have zs: "zip (cj_operations J) (map sf_bytes_after (st_files stage)) = ?zs" by (simp add: stage_jops_def)
  have d0: "dirs_ok [] ?g" by (simp add: dirs_ok_def)
  have g0: "?g = at_step e stage J (w_umask w) 0 ?g" by (simp add: at_step_def)
  note pr = payloads_read(2) [OF dig w p g0]
  obtain k w1 where k: "k \<le> length ?zs" "moves w w1 (journal_run ?root (w_umask w) (take k ?zs) ?g)"
    "(\<exists>f. apply_operations e fp [] 0 ?zs [] w = (Inl (Failpoint f), w1)) \<or>
     k = length ?zs \<and> (\<exists>ds'. apply_operations e fp [] 0 ?zs [] w = (Inr ds', w1) \<and> dirs_ok ds' (w_tree w1))"
    using apply_operations_interrupted [OF names refl w jr d0, of fp 0] by (elim exE conjE) (rule that)
  have mk: "moves w w1 (at_step e stage J (w_umask w) k ?g)" using k(2) by (simp add: at_step_def)
  from k(3) show ?thesis
  proof
    assume "\<exists>f. apply_operations e fp [] 0 ?zs [] w = (Inl (Failpoint f), w1)"
    then have "\<exists>f. apply_journal X e J fp [] w = (Inl (Failpoint f), w1)"
      using pr by (auto simp: apply_journal_def io_bind_def zs)
    with mk show ?thesis by blast
  next
    assume "k = length ?zs \<and> (\<exists>ds'. apply_operations e fp [] 0 ?zs [] w = (Inr ds', w1) \<and> dirs_ok ds' (w_tree w1))"
    then obtain ds where ds: "k = length ?zs" "apply_operations e fp [] 0 ?zs [] w = (Inr ds, w1)" "dirs_ok ds (w_tree w1)"
      by blast
    obtain w2 where w2: "io_for_each (\<lambda>p. sync_dir_when_durable p (ce_durability e) SyncData) ds w1 = (Inr (), w2)"
        "moves w1 w2 (w_tree w1)"
      using sync_dirs_moves [OF movesD(1) [OF mk] ds(3)] by blast
    have root2: "w_tree w2 ?root = Some NDir"
      using at_step_fit [OF p] movesD(2) [OF mk] movesD(2) [OF w2(2)] by (simp add: engine_fit_def)
    obtain w3 where w3: "(if ds \<noteq> [] then sync_dir_when_durable ?root (ce_durability e) (cross_root_level e)
        else io_ok ()) w2 = (Inr (), w3)" "moves w2 w3 (w_tree w2)"
      using sync_directory_moves [OF movesD(1) [OF w2(2)] names root2] moves_refl [OF movesD(1) [OF w2(2)]]
      by (cases "dry_run (ce_durability e)"; cases "ds = []") (auto simp: sync_dir_when_durable_def)
    have "apply_journal X e J fp [] w = (Inr (), w3)"
      using pr ds(2) w2(1) w3(1) by (simp add: apply_journal_def io_bind_def zs)
    moreover have "moves w w3 (at_step e stage J (w_umask w) k ?g)"
      using moves_trans [OF mk moves_trans [OF w2(2) w3(2)]] movesD(2) [OF mk] movesD(2) [OF w2(2)] by simp
    moreover have "at_step e stage J (w_umask w) k ?g = journal_run ?root (w_umask w) ?zs ?g"
      using ds(1) by (simp add: at_step_def)
    ultimately show ?thesis by blast
  qed
qed

subsection \<open>Lock and root identity\<close>

definition locked :: "('x) ext_scheme \<Rightarrow> commit_engine \<Rightarrow> world \<Rightarrow> world" where
  "locked X e w = w\<lparr>w_locks := insert (lock_path X e) (w_locks w)\<rparr>"

lemma lock_fields [simp]:
  "w_fs (locked X e w) = w_fs w" "w_umask (locked X e w) = w_umask w" "w_dev (locked X e w) = w_dev w"
  "w_fs (unlock_root X e w) = w_fs w" "w_umask (unlock_root X e w) = w_umask w"
  "w_dev (unlock_root X e w) = w_dev w" "w_locks (unlock_root X e w) = w_locks w - {lock_path X e}"
  "w_locks (locked X e w) = insert (lock_path X e) (w_locks w)"
  "world_ok (locked X e w) = world_ok w" "world_ok (unlock_root X e w) = world_ok w"
  by (simp_all add: locked_def unlock_root_def world_ok_def)

lemma lock_root_moves:
  assumes "digests_ok X" "world_ok w" "engine_fit e (w_tree w)" "absent_or_file (w_tree w (lock_path X e))"
    and "lock_path X e \<notin> w_locks w"
  shows "\<exists>w' g. lock_root X e w = (Inr (), locked X e w') \<and> moves w w' g \<and>
    (\<exists>b m. g (lock_path X e) = Some (NFile b m)) \<and>
    (\<forall>q. q \<noteq> lock_path X e \<longrightarrow> g q = w_tree w q) \<and>
    (w_tree w (lock_path X e) \<noteq> None \<longrightarrow> g = w_tree w)"
proof -
  have zero: "length (replicate 32 (0::u8)) = 32" by simp
  note lp = state_paths(9-11) [OF assms(1) zero assms(3)]
  have af: "w_tree w (lock_path X e) = None \<or> (\<exists>b m. w_tree w (lock_path X e) = Some (NFile b m))"
    using assms(4) by (simp add: absent_or_file_def)
  obtain w' g where w': "open_or_create (lock_path X e) w = (Inr (), w')" "moves w w' g"
      "g = (case w_tree w (lock_path X e) of None \<Rightarrow> (w_tree w)(lock_path X e \<mapsto> NFile [] (fresh_mode w)) | Some n \<Rightarrow> w_tree w)"
    using open_or_create_moves [OF assms(2) lp af] by blast
  have "lock_path X e \<notin> w_locks w'" using movesD(3) [OF w'(2)] assms(5) by (simp add: same_env_def)
  then have "lock_root X e w = (Inr (), locked X e w')"
    using w'(1) by (simp add: lock_root_def io_bind_def io_map_err_def locked_def)
  with w' af show ?thesis
    by (intro exI [of _ w'] exI [of _ g]) (auto split: option.splits)
qed

lemma check_root_stable:
  assumes "tree (bt_get fs)" "tree (bt_get fs')" "engine_fit e (bt_get fs)" "engine_fit e (bt_get fs')"
    and "root_fit X e root"
  shows "check_root X e root fs = check_root X e root fs'"
proof -
  have d: "directory_open X fs (ce_target_root e) = directory_open X fs' (ce_target_root e)"
    using assms by (simp add: directory_open_dir engine_fit_def)
  have "actual_root_id X e root fs = actual_root_id X e root fs'"
    using d assms(5)
    by (auto simp: actual_root_id_def open_directory_def discover_git_def root_fit_def
        split: source_root_id.splits sum.splits)
  then show ?thesis by (simp add: check_root_def)
qed

lemma state_fit_locked:
  assumes "digests_ok X" "length (st_id stage) = 32" "state_fit X e stage g"
    and "\<forall>q. q \<noteq> lock_path X e \<longrightarrow> g' q = g q" "\<exists>b m. g' (lock_path X e) = Some (NFile b m)"
  shows "state_fit X e stage g'"
proof -
  have ef: "engine_fit e g" and pf: "payloads_fit X e (file_bytes (st_files stage)) g"
    and lp: "absent_or_file (g (lock_path X e))"
    using assms(3) by (auto simp: state_fit_def)
  note paths = state_paths [OF assms(1,2) ef]
  note dist = state_paths_distinct [OF assms(1,2), of e]
  have g': "g' = g(lock_path X e := g' (lock_path X e))" using assms(4) by auto
  have "engine_fit e g'"
    using engine_fit_upd [OF ef paths(12)] lp g' by (metis absent_or_file_def node.distinct(1) option.distinct(1) option.inject)
  moreover have "payloads_fit X e (file_bytes (st_files stage)) g'"
  proof -
    have "sd @ [x_hex X (x_hash X b)] \<noteq> lock_path X e" for sd b
      using hex_not_suffixed [OF assms(1) digest_length [OF assms(1)] digest_length [OF assms(1)]]
      by (simp add: lock_path_eq assms(1))
    moreover have "sd \<noteq> lock_path X e" if "g sd = Some NDir" for sd
      using that lp by (auto simp: absent_or_file_def)
    ultimately show ?thesis
      using pf assms(4) dist(4) unfolding payloads_fit_def by (simp split: option.splits)
  qed
  moreover have "absent_or_file (g' (lock_path X e))" using assms(5) by (auto simp: absent_or_file_def)
  ultimately show ?thesis using assms(3,4) dist(5,6) by (auto simp: state_fit_def)
qed

subsection \<open>The whole commit\<close>

lemma prepare_commit_inv:
  assumes "prepare_commit X e stage w = (Inr J, w')"
  shows "\<not> path_exists (w_fs w) (journal_path X e (st_id stage))" "preflight X e (w_fs w) stage = Inr J"
    "validate_journal J = Inr ()"
  using assms by (auto simp: prepare_commit_def io_bind_eq_Ok split: if_splits)

lemma state_file_exists:
  assumes "world_ok w" "names_ok p" "p \<noteq> []" "w_tree w (butlast p) = Some NDir" "absent_or_file (w_tree w p)"
  shows "path_exists (w_fs w) p \<longleftrightarrow> w_tree w p \<noteq> None"
  using path_exists_clear [OF world_ok_tree [OF assms(1)] assms(2) parent_clear [OF world_ok_tree [OF assms(1)] assms(3,4)]]
    assms(5) by (auto simp: absent_or_file_def)

lemma check_paths_step:
  assumes "tree (bt_get fs)" "names_ok root" "op_clear root op (bt_get fs)"
    and "rfor_each validate_relative_path (jo_paths op) = Inr ()"
  shows "check_paths fs root op = Inr ()"
proof -
  have "rbind (validate_relative_path p) (\<lambda>_. check_parent_components fs root p) = Inr ()"
    if "p \<in> set (jo_paths op)" for p
    using assms that check_parent_components_conv [OF assms(1,2)] by (auto simp: rfor_each_Ok op_clear_def)
  then show ?thesis by (simp add: check_paths_def rfor_each_Ok)
qed

lemma check_paths_at_step:
  assumes "tree (bt_get fs)" "prepared X e stage J g" "bt_get fs = at_step e stage J u k g"
  shows "rfor_each (check_paths fs (ce_target_root e)) (cj_operations J) = Inr ()"
  unfolding rfor_each_Ok
proof
  let ?root = "ce_target_root e" and ?zs = "stage_jops stage J"
  fix op assume op: "op \<in> set (cj_operations J)"
  then obtain b where z: "(op, b) \<in> set ?zs"
    using prepared_len [OF assms(2)] unfolding stage_jops_def by (metis in_set_impl_in_set_zip1 length_map)
  have ready: "redo_log.all_ready (op_ready X ?root) (op_apart ?root) tree (take k ?zs @ drop k ?zs) g"
    using assms(2) by (simp add: prepared_def jops_ready_redo)
  have "op_ready X ?root (op, b) (bt_get fs) \<or> op_finished ?root (op, b) (bt_get fs)"
    using redo.interrupted_states [OF ready, of "(op, b)" u] z assms(3) by (simp add: at_step_def journal_run_redo)
  then have cl: "op_clear ?root op (bt_get fs)" by (auto simp: op_ready_def op_finished_def)
  have "validate_journal_operation (cj_root J) op = Inr ()"
    using assms(2) op by (auto simp: prepared_def validate_journal_def rfor_each_Ok)
  then have "rfor_each validate_relative_path (jo_paths op) = Inr ()"
    by (auto simp: validate_journal_operation_def rbind_eq_Ok)
  then show "check_paths fs ?root op = Inr ()"
    using assms(1,2) cl by (intro check_paths_step) (auto simp: prepared_def engine_fit_def)
qed

text \<open>Recovery from any intermediate state of the application.\<close>

lemma recover_at_step:
  assumes sf: "stage_fit X e stage" and w: "world_ok w" and p: "prepared X e stage J g"
    and dec: "journal_decodes X J" and rp: "absent_or_file (g (receipt_path X e (st_id stage)))"
    and lk: "\<exists>b m. g (lock_path X e) = Some (NFile b m)" "lock_path X e \<notin> w_locks w"
    and root: "check_root X e (st_root stage) (w_fs w) = Inr ()" "root_fit X e (st_root stage)"
    and g: "w_tree w = at_step e stage J u k g" "w_umask w = u"
  shows "\<exists>w'. recover X e (st_id stage) w =
      (Inr (receipt (st_id stage) (cj_root J) (cj_operations J) (len64 (x_enc_journal X J)) 0), w') \<and>
    w_tree w' = settled X e stage J u g"
proof -
  let ?i = "st_id stage" and ?root = "ce_target_root e" and ?zs = "stage_jops stage J"
  have dig: "digests_ok X" "length ?i = 32" using sf by (auto simp: stage_fit_def)
  have fit: "engine_fit e (w_tree w)" using at_step_fit [OF p] g(1) by simp
  note paths = state_paths [OF dig fit]
  have same: "w_tree w (ce_state_root e @ q) = g (ce_state_root e @ q)" for q using at_step_state [OF p] g(1) by simp
  have lp: "\<exists>b m. w_tree w (lock_path X e) = Some (NFile b m)"
    using lk(1) unfolding lock_path_eq [OF dig(1)] same .
  then have "absent_or_file (w_tree w (lock_path X e))" "w_tree w (lock_path X e) \<noteq> None"
    by (auto simp: absent_or_file_def)
  then obtain w0 where w0: "lock_root X e w = (Inr (), locked X e w0)" "moves w w0 (w_tree w)"
    using lock_root_moves [OF dig(1) w fit _ lk(2)] by blast
  let ?w = "locked X e w0"
  have t0: "world_ok ?w" "w_tree ?w = at_step e stage J u k g" "w_umask ?w = u"
    using movesD [OF w0(2)] moves_umask [OF w0(2)] g by auto
  note t4 = world_ok_tree [OF t0(1)]
  have fit0: "engine_fit e (w_tree ?w)" using at_step_fit [OF p] t0(2) by simp
  obtain m where m: "w_tree ?w (journal_path X e ?i) = Some (NFile (x_enc_journal X J) m)"
    using p same g(1) t0(2) unfolding prepared_def journal_path_eq [OF dig] by auto
  have rj: "read_journal X (journal_path X e ?i) (w_fs ?w) = Inr J"
    using fs_read_file [OF t4 paths(1) m] dec p
    by (simp add: read_journal_def journal_decodes_def prepared_def)
  have cr: "check_root X e (cj_root J) (w_fs ?w) = Inr ()"
    using check_root_stable [OF world_ok_tree [OF w] t4 fit fit0 root(2)] root(1) p by (simp add: prepared_def)
  have cp: "rfor_each (check_paths (w_fs ?w) ?root) (cj_operations J) = Inr ()"
    by (rule check_paths_at_step [OF t4 p t0(2)])
  let ?st = "map (\<lambda>z. if op_finished ?root z (w_tree ?w) then After else Before) ?zs"
  have cl: "classify_all X e J (w_fs ?w) = Inr ?st" by (rule classify_all_step [OF dig(1) t0(1) p t0(2)])
  have nd: "Diverged \<notin> set ?st" by auto
  obtain w1 where w1: "apply_journal X e J None (completed_of ?st) ?w = (Inr (), w1)"
      "moves ?w w1 (journal_run ?root u ?zs g)"
    using recover_apply_moves [OF dig(1) t0(1) p t0(2,3)] by blast
  obtain w2 where w2: "settle X e ?i J w1 =
      (Inr (receipt ?i (cj_root J) (cj_operations J) (len64 (x_enc_journal X J)) 0), w2)"
      "moves w1 w2 (settled X e stage J u g)"
    using settle_moves [OF dig movesD(1) [OF w1(2)] p rp movesD(2) [OF w1(2)]] moves_umask [OF w1(2)] t0(3)
    by auto
  have "recover_locked X e ?i ?w = (Inr (receipt ?i (cj_root J) (cj_operations J) (len64 (x_enc_journal X J)) 0), w2)"
    using rj p cr cp cl nd w1(1) w2(1) by (simp add: recover_locked_def io_bind_def prepared_def)
  then show ?thesis
    using w0(1) movesD(2) [OF w2(2)] by (simp add: recover_def with_lock_def io_bind_def)
qed

lemma commit_runs:
  assumes sf: "stage_fit X e stage" and w: "world_ok w" and st: "state_fit X e stage (w_tree w)"
    and free: "lock_path X e \<notin> w_locks w"
    and lk: "lock_root X e w = (Inr (), w0)"
    and c: "check_root X e (st_root stage) (w_fs w0) = Inr ()" "check_receipt X e stage (w_fs w0) = Inr None"
    and pr: "prepare_commit X e stage w0 = (Inr J, w1)"
  shows "world_ok w0 \<and> world_ok w1 \<and> prepared X e stage J (w_tree w1) \<and> w_umask w1 = w_umask w \<and>
    absent_or_file (w_tree w1 (receipt_path X e (st_id stage))) \<and>
    (\<exists>b m. w_tree w1 (lock_path X e) = Some (NFile b m)) \<and>
    w_locks w1 = insert (lock_path X e) (w_locks w) \<and> engine_fit e (w_tree w0) \<and>
    (\<forall>q. \<not> prefix (ce_state_root e) q \<longrightarrow> w_tree w1 q = w_tree w q)"
proof -
  have dig: "digests_ok X" "length (st_id stage) = 32" using sf by (auto simp: stage_fit_def)
  have ef: "engine_fit e (w_tree w)" "absent_or_file (w_tree w (lock_path X e))"
    using st by (auto simp: state_fit_def)
  obtain v g where vg: "lock_root X e w = (Inr (), locked X e v)" "moves w v g"
    "\<exists>b m. g (lock_path X e) = Some (NFile b m)" "\<forall>q. q \<noteq> lock_path X e \<longrightarrow> g q = w_tree w q"
    using lock_root_moves [OF dig(1) w ef free] by blast
  have v: "w0 = locked X e v" "moves w v (w_tree v)"
    "\<exists>b m. w_tree v (lock_path X e) = Some (NFile b m)" "\<forall>q. q \<noteq> lock_path X e \<longrightarrow> w_tree v q = w_tree w q"
    using vg lk movesD(2) [OF vg(2)] by simp_all
  have st0: "state_fit X e stage (w_tree w0)"
    using state_fit_locked [OF dig st v(4,3)] v(1) by simp
  have ok0: "world_ok w0" using movesD(1) [OF v(2)] v(1) by simp
  have ef0: "engine_fit e (w_tree w0)" "absent_or_file (w_tree w0 (journal_path X e (st_id stage)))"
    using st0 by (auto simp: state_fit_def)
  note inv = prepare_commit_inv [OF pr]
  have nj: "w_tree w0 (journal_path X e (st_id stage)) = None"
    using state_file_exists [OF ok0 state_paths(1-3) [OF dig ef0(1)] ef0(2)] inv(1) by simp
  obtain w' g' where p: "prepare_commit X e stage w0 = (Inr J, w')" "moves w0 w' g'" "prepared X e stage J g'"
      "absent_or_file (g' (receipt_path X e (st_id stage)))" "g' (lock_path X e) = w_tree w0 (lock_path X e)"
      "\<forall>q. \<not> prefix (ce_state_root e) q \<longrightarrow> g' q = w_tree w0 q"
    using prepare_commit_prepared [OF sf ok0 st0 nj inv(2,3)] by blast
  have w': "w' = w1" using p(1) pr by simp
  have lock1: "\<exists>b m. g' (lock_path X e) = Some (NFile b m)"
    using p(5) v(1,3) by simp
  have nlp: "q \<noteq> lock_path X e" if "\<not> prefix (ce_state_root e) q" for q
    using that by (auto simp: lock_path_eq dig(1))
  have "w_tree w1 q = w_tree w q" if "\<not> prefix (ce_state_root e) q" for q
    using p(6) that v(1,4) nlp [OF that] movesD(2) [OF p(2)] w' by simp
  moreover have "world_ok w1" "w_tree w1 = g'" "w_umask w1 = w_umask w"
      "w_locks w1 = insert (lock_path X e) (w_locks w)"
    using movesD [OF p(2)] w' v(1) movesD(3) [OF v(2)] by (simp_all add: same_env_def)
  ultimately show ?thesis using ok0 p(3,4) lock1 ef0(1) by simp
qed

lemma commit_with_failpoint_eq:
  "commit_with_failpoint X e stage fp w =
    (case lock_root X e w of
       (Inl err, w0) \<Rightarrow> (Inl err, w0)
     | (Inr u, w0) \<Rightarrow> (case commit_locked X e stage fp w0 of (r, w') \<Rightarrow> (r, unlock_root X e w')))"
  by (auto simp: commit_with_failpoint_def with_lock_def io_bind_def split: prod.splits sum.splits)

lemma commit_settles:
  assumes sf: "stage_fit X e stage" and ok: "world_ok w1" "prepared X e stage J (w_tree w1)"
    "absent_or_file (w_tree w1 (receipt_path X e (st_id stage)))"
  shows "\<exists>w2. io_bind (apply_journal X e J None []) (\<lambda>_. settle X e (st_id stage) J) w1 =
      (Inr (receipt (st_id stage) (cj_root J) (cj_operations J) (len64 (x_enc_journal X J)) 0), w2) \<and>
    moves w1 w2 (settled X e stage J (w_umask w1) (w_tree w1))"
proof -
  have dig: "digests_ok X" "length (st_id stage) = 32" using sf by (auto simp: stage_fit_def)
  obtain wa where wa: "apply_journal X e J None [] w1 = (Inr (), wa)"
      "moves w1 wa (journal_run (ce_target_root e) (w_umask w1) (stage_jops stage J) (w_tree w1))"
    using apply_whole_moves [OF dig(1) ok(1,2)] by blast
  obtain w2 where "settle X e (st_id stage) J wa =
      (Inr (receipt (st_id stage) (cj_root J) (cj_operations J) (len64 (x_enc_journal X J)) 0), w2)"
      "moves wa w2 (settled X e stage J (w_umask w1) (w_tree w1))"
    using settle_moves [OF dig movesD(1) [OF wa(2)] ok(2,3) movesD(2) [OF wa(2)] moves_umask [OF wa(2)]] by blast
  then show ?thesis using wa moves_trans [OF wa(2)] by (auto simp: io_bind_def)
qed

text \<open>What an uninterrupted, successful commit that did not return an old receipt went through.\<close>

lemma commit_locked_inv:
  assumes "commit_locked X e stage None w0 = (Inr r, w2)"
  shows "check_root X e (st_root stage) (w_fs w0) = Inr () \<and>
    (check_receipt X e stage (w_fs w0) = Inr (Some r) \<or>
     check_receipt X e stage (w_fs w0) = Inr None \<and>
       (\<exists>J w1. prepare_commit X e stage w0 = (Inr J, w1) \<and>
         io_bind (apply_journal X e J None []) (\<lambda>_. settle X e (st_id stage) J) w1 = (Inr r, w2)))"
proof -
  from assms obtain a where a: "check_root X e (st_root stage) (w_fs w0) = Inr ()"
      "check_receipt X e stage (w_fs w0) = Inr a"
    by (auto simp: commit_locked_def io_bind_eq_Ok)
  with assms show ?thesis
    by (cases a) (auto simp: commit_locked_def io_bind_eq_Ok io_bind_read)
qed

lemma commit_fresh_cases:
  assumes sf: "stage_fit X e stage" and w: "world_ok w" and st: "state_fit X e stage (w_tree w)"
    and free: "lock_path X e \<notin> w_locks w"
    and ok: "commit X e stage w = (Inr r, w2)"
  obtains (old) w0 where "lock_root X e w = (Inr (), w0)" "check_root X e (st_root stage) (w_fs w0) = Inr ()"
      "check_receipt X e stage (w_fs w0) = Inr (Some r)"
  | (fresh) w0 J w1 where "lock_root X e w = (Inr (), w0)" "check_root X e (st_root stage) (w_fs w0) = Inr ()"
      "check_receipt X e stage (w_fs w0) = Inr None" "prepare_commit X e stage w0 = (Inr J, w1)"
      "r = receipt (st_id stage) (cj_root J) (cj_operations J) (len64 (x_enc_journal X J)) 0"
      "w_tree w2 = settled X e stage J (w_umask w) (w_tree w1)" "w_locks w2 = w_locks w"
proof -
  from ok obtain w0 w2' where lk: "lock_root X e w = (Inr (), w0)"
    and c: "commit_locked X e stage None w0 = (Inr r, w2')" and w2: "w2 = unlock_root X e w2'"
    unfolding commit_def commit_with_failpoint_eq by (auto split: prod.splits sum.splits)
  from commit_locked_inv [OF c] show ?thesis
  proof (elim conjE disjE exE)
    assume "check_root X e (st_root stage) (w_fs w0) = Inr ()" "check_receipt X e stage (w_fs w0) = Inr (Some r)"
    then show ?thesis using old [OF lk] by blast
  next
    fix J w1
    assume cr: "check_root X e (st_root stage) (w_fs w0) = Inr ()" "check_receipt X e stage (w_fs w0) = Inr None"
      and pr: "prepare_commit X e stage w0 = (Inr J, w1)"
      and rn: "io_bind (apply_journal X e J None []) (\<lambda>_. settle X e (st_id stage) J) w1 = (Inr r, w2')"
    note cs = commit_runs [OF sf w st free lk cr pr]
    obtain v where v: "io_bind (apply_journal X e J None []) (\<lambda>_. settle X e (st_id stage) J) w1 =
        (Inr (receipt (st_id stage) (cj_root J) (cj_operations J) (len64 (x_enc_journal X J)) 0), v)"
        "moves w1 v (settled X e stage J (w_umask w1) (w_tree w1))"
      using commit_settles [OF sf] cs by blast
    have "w_locks w2 = w_locks w"
      using cs rn v movesD(3) [OF v(2)] w2 free by (auto simp: same_env_def)
    then show ?thesis
      using fresh [OF lk cr pr] rn v cs w2 movesD(2) [OF v(2)] by simp
  qed
qed

subsection \<open>Crash recovery\<close>

lemma interrupted_commit:
  assumes sf: "stage_fit X e stage" and w: "world_ok w" and st: "state_fit X e stage (w_tree w)"
    and free: "lock_path X e \<notin> w_locks w"
    and lk: "lock_root X e w = (Inr (), w0)"
    and cr: "check_root X e (st_root stage) (w_fs w0) = Inr ()" "check_receipt X e stage (w_fs w0) = Inr None"
    and pr: "prepare_commit X e stage w0 = (Inr J, w1)"
    and bad: "commit_with_failpoint X e stage (Some fp) w = (Inl err, w')"
  shows "\<exists>k. world_ok w' \<and> w_tree w' = at_step e stage J (w_umask w) k (w_tree w1) \<and>
    w_umask w' = w_umask w \<and> lock_path X e \<notin> w_locks w'"
proof -
  note cs = commit_runs [OF sf w st free lk cr pr]
  have dig: "digests_ok X" "length (st_id stage) = 32" using sf by (auto simp: stage_fit_def)
  obtain v where v: "commit_locked X e stage (Some fp) w0 = (Inl err, v)" "w' = unlock_root X e v"
    using bad lk unfolding commit_with_failpoint_eq by (auto split: prod.splits)
  have body: "commit_locked X e stage (Some fp) w0 =
      (if fp = AfterJournal then (Inl (Failpoint AfterJournal), w1)
       else io_bind (apply_journal X e J (Some fp) []) (\<lambda>_. settle X e (st_id stage) J) w1)"
    using cr pr by (simp add: commit_locked_def io_bind_def)
  show ?thesis
  proof (cases "fp = AfterJournal")
    case True
    then have "v = w1" using v(1) body by simp
    then show ?thesis using cs v(2) by (intro exI [of _ 0]) (simp add: at_step_def)
  next
    case False
    obtain k wa where ka: "moves w1 wa (at_step e stage J (w_umask w1) k (w_tree w1))"
      "(\<exists>f. apply_journal X e J (Some fp) [] w1 = (Inl (Failpoint f), wa)) \<or>
       at_step e stage J (w_umask w1) k (w_tree w1) = journal_run (ce_target_root e) (w_umask w1) (stage_jops stage J) (w_tree w1) \<and>
         apply_journal X e J (Some fp) [] w1 = (Inr (), wa)"
      using apply_interrupted_moves [OF dig(1), of w1 e stage J "Some fp"] cs by (elim conjE exE) blast
    from ka(2) show ?thesis
    proof
      assume "\<exists>f. apply_journal X e J (Some fp) [] w1 = (Inl (Failpoint f), wa)"
      then have "v = wa" using v(1) body False by (auto simp: io_bind_def)
      then show ?thesis
        using movesD [OF ka(1)] v(2) cs by (intro exI [of _ k]) (auto simp: same_env_def)
    next
      assume full: "at_step e stage J (w_umask w1) k (w_tree w1) =
          journal_run (ce_target_root e) (w_umask w1) (stage_jops stage J) (w_tree w1) \<and>
        apply_journal X e J (Some fp) [] w1 = (Inr (), wa)"
      have wt: "w_tree wa = journal_run (ce_target_root e) (w_umask w1) (stage_jops stage J) (w_tree w1)"
        using movesD(2) [OF ka(1)] full by simp
      obtain r w2 where "settle X e (st_id stage) J wa = (Inr r, w2)"
        using settle_moves [OF dig movesD(1) [OF ka(1)] _ _ wt moves_umask [OF ka(1)]] cs by blast
      then have False using v(1) body False full by (simp add: io_bind_def)
      then show ?thesis ..
    qed
  qed
qed

text \<open>C1 -- Crash recovery: if the uninterrupted commit of a stage succeeds, then a commit that was
  interrupted at any failpoint of the engine can be recovered, and the recovery ends with the same
  receipt and in exactly the same file system as the uninterrupted commit.

  The stage is fit (\<open>stage_fit\<close>): digests have the documented form, the stage id has 32 bytes, every
  file is one the stores seal (\<open>file_ready\<close>: its staged digest is that of its output, which no
  other bytes share, its paths do not end in a slash, a replacement stays at its path and
  records a Unix mode, a move keeps the bytes), and the target paths of two files are apart
  (\<open>files_apart\<close>: none equal to, above or below another). The preflight does not check the last:
  of two replacements of one path a recovery may find neither the old nor the new content and
  return \<open>RecoveryRequired\<close>. The engine is fit (\<open>state_fit\<close>, \<open>root_fit\<close>): target and state root are
  existing directories, neither inside the other, the directories of the state root exist,
  the payload, journal, receipt and lock paths are absent or plain files, a Git root is the top
  of its worktree. The lock is not held and the encoding of the journal decodes to it.\<close>

theorem crash_recovery:
  assumes "stage_fit X e stage" and "world_ok w" and "state_fit X e stage (w_tree w)"
    and "root_fit X e (st_root stage)" and "journal_decodes X (stage_journal X stage)"
    and "lock_path X e \<notin> w_locks w"
    and "commit X e stage w = (Inr r, w2)"
    and "commit_with_failpoint X e stage (Some fp) w = (Inl err, w1)"
  shows "\<exists>w3. recover X e (st_id stage) w1 = (Inr r, w3) \<and> w_tree w3 = w_tree w2"
proof (rule commit_fresh_cases [OF assms(1-3,6,7)])
  fix w0
  assume "lock_root X e w = (Inr (), w0)" "check_root X e (st_root stage) (w_fs w0) = Inr ()"
    "check_receipt X e stage (w_fs w0) = Inr (Some r)"
  then have "commit_with_failpoint X e stage (Some fp) w = (Inr r, unlock_root X e w0)"
    by (simp add: commit_with_failpoint_eq commit_locked_def io_bind_def)
  with assms(8) show ?thesis by simp
next
  fix w0 J wp
  assume fresh: "lock_root X e w = (Inr (), w0)" "check_root X e (st_root stage) (w_fs w0) = Inr ()"
    "check_receipt X e stage (w_fs w0) = Inr None" "prepare_commit X e stage w0 = (Inr J, wp)"
    "r = receipt (st_id stage) (cj_root J) (cj_operations J) (len64 (x_enc_journal X J)) 0"
    "w_tree w2 = settled X e stage J (w_umask w) (w_tree wp)" "w_locks w2 = w_locks w"
  note cs = commit_runs [OF assms(1-3,6) fresh(1-4)]
  obtain k where k: "world_ok w1" "w_tree w1 = at_step e stage J (w_umask w) k (w_tree wp)"
      "w_umask w1 = w_umask w" "lock_path X e \<notin> w_locks w1"
    using interrupted_commit [OF assms(1-3,6) fresh(1-4) assms(8)] by blast
  have p: "prepared X e stage J (w_tree wp)" using cs by blast
  have "engine_fit e (w_tree w1)" using at_step_fit [OF p] k(2) by simp
  then have root: "check_root X e (st_root stage) (w_fs w1) = Inr ()"
    using check_root_stable [OF world_ok_tree world_ok_tree _ _ assms(4), of w0 w1] cs k(1) fresh(2) by simp
  have dec: "journal_decodes X J"
    using assms(5) preflight_stage_journal [OF prepare_commit_inv(2) [OF fresh(4)]] by simp
  show ?thesis
    using recover_at_step [OF assms(1) k(1) p dec _ _ k(4) root assms(4) k(2,3)] cs fresh(5,6) by simp
qed

end
