(* ===== verification/CommitOnce.thy ===== *)
theory CommitOnce
  imports CommitProofs
begin

text \<open>
  The run of one admitted commit, from the lock to the settled receipt: the tree it starts from,
  the tree it leaves, and which paths it cannot touch.
\<close>

subsection \<open>Frames\<close>

lemma journal_run_frame:
  assumes "\<not> comparable root s"
  shows "jops_ready X root zs g \<Longrightarrow> jops_ready X root zs g' \<Longrightarrow> \<forall>q. \<not> prefix s q \<longrightarrow> g' q = g q \<Longrightarrow>
    \<forall>q. \<not> prefix s q \<longrightarrow> journal_run root u zs g' q = journal_run root u zs g q"
proof (induction zs arbitrary: g g')
  case (Cons z zs)
  obtain op b where z: "z = (op, b)" by force
  have rd: "op_ready X root (op, b) g" using Cons.prems(1) z by (simp add: jops_ready_def)
  have sh: "op_shape (op, b)" "op_clear root op g" using op_ready_shape [OF rd] by auto
  have src: "g' (op_src root op) = g (op_src root op)" if "jo_kind op = KMove"
  proof -
    have "prefix root (op_src root op)"
      using shape_targets(2) [OF sh(1)] ready_below [OF rd] that by simp
    then have "\<not> prefix s (op_src root op)" using state_apart [OF assms, of _ "[]"] by simp
    then show ?thesis using Cons.prems(3) by simp
  qed
  have "\<forall>q. \<not> prefix s q \<longrightarrow> tree_apply root u z g' q = tree_apply root u z g q"
    using Cons.prems(3) src
    by (cases "jo_kind op") (auto simp: z tree_apply_def Let_def mkdirs_def)
  then show ?case
    using Cons.IH [OF jops_ready_step [OF Cons.prems(1)] jops_ready_step [OF Cons.prems(2)]] by simp
qed simp

lemma journal_run_confined:
  "jops_ready X root zs g \<Longrightarrow> g root = Some NDir \<Longrightarrow> \<not> strict_prefix root q \<Longrightarrow> journal_run root u zs g q = g q"
proof (induction zs arbitrary: g)
  case (Cons z zs)
  obtain op b where z: "z = (op, b)" by force
  have rd: "op_ready X root (op, b) g" and t: "tree g" using Cons.prems(1) z by (simp_all add: jops_ready_def)
  have nt: "q \<notin> set (op_targets root op)"
    using op_clear_targets op_ready_shape [OF rd] Cons.prems(3) by blast
  have "tree_apply root u (op, b) g q = g q"
  proof (rule ccontr)
    assume neq: "tree_apply root u (op, b) g q \<noteq> g q"
    then obtain y where y: "y \<in> set (op_targets root op)" "strict_prefix q y" "tree_apply root u (op, b) g q = Some NDir"
      using tree_apply_point [OF rd nt, of u] by blast
    have "prefix root y" using ready_below [OF rd y(1)] .
    then have "prefix q root"
      using y(2) Cons.prems(3) prefix_same_cases [of q y root] by (auto simp: strict_prefix_def)
    then have "g q = Some NDir" using tree_prefix_dir [OF t _ Cons.prems(2)] by blast
    with neq y(3) show False by simp
  qed
  moreover have "tree_apply root u z g root = Some NDir"
    using tree_apply_dirs [OF rd Cons.prems(2)] z by simp
  ultimately show ?case using Cons.IH [OF jops_ready_step [OF Cons.prems(1)]] Cons.prems(3) z by simp
qed simp

subsection \<open>A successful commit\<close>

text \<open>The state in which a stage can be committed for the first time.\<close>

definition commit_admitted ::
  "('x) commit_ext_scheme \<Rightarrow> commit_engine \<Rightarrow> staged_transaction \<Rightarrow> world \<Rightarrow> commit_journal \<Rightarrow> bool" where
  "commit_admitted X e stage w J \<longleftrightarrow>
     check_root X e (st_root stage) (w_fs w) = Inr () \<and>
     w_tree w (receipt_path X e (st_id stage)) = None \<and>
     w_tree w (journal_path X e (st_id stage)) = None \<and>
     preflight X e (w_fs w) stage = Inr J \<and> validate_journal J = Inr ()"

lemma settled_frame:
  assumes "digests_ok X" "length (st_id stage) = 32" "\<not> prefix (ce_state_root e) q"
  shows "settled X e stage J u g q = journal_run (ce_target_root e) u (stage_jops stage J) g q"
  using assms by (auto simp: settled_def Let_def receipt_path_eq journal_path_eq)

lemma lock_root_state:
  assumes "stage_fit X e stage" and "world_ok w" and "state_fit X e stage (w_tree w)"
    and "lock_path X e \<notin> w_locks w" and "lock_root X e w = (Inr (), w0)"
  shows "world_ok w0" "state_fit X e stage (w_tree w0)"
proof -
  have dig: "digests_ok X" "length (st_id stage) = 32" using assms(1) by (auto simp: stage_fit_def)
  have ef: "engine_fit e (w_tree w)" "absent_or_file (w_tree w (lock_path X e))"
    using assms(3) by (auto simp: state_fit_def)
  obtain v g where vg: "lock_root X e w = (Inr (), locked X e v)" "moves w v g"
    "\<exists>b m. g (lock_path X e) = Some (NFile b m)" "\<forall>q. q \<noteq> lock_path X e \<longrightarrow> g q = w_tree w q"
    using lock_root_moves [OF dig(1) assms(2) ef assms(4)] by blast
  have v: "w0 = locked X e v" "w_tree v = g" using vg(1) assms(5) movesD(2) [OF vg(2)] by simp_all
  show "world_ok w0" using movesD(1) [OF vg(2)] v(1) by simp
  show "state_fit X e stage (w_tree w0)" using state_fit_locked [OF dig assms(3) vg(4,3)] v by simp
qed

lemma commit_admitted_no_receipt:
  assumes "stage_fit X e stage" and "world_ok w" and "state_fit X e stage (w_tree w)"
    and "lock_path X e \<notin> w_locks w" and "lock_root X e w = (Inr (), w0)"
    and "commit_admitted X e stage w0 J"
  shows "check_receipt X e stage (w_fs w0) = Inr None"
proof -
  have dig: "digests_ok X" "length (st_id stage) = 32" using assms(1) by (auto simp: stage_fit_def)
  note s0 = lock_root_state [OF assms(1-5)]
  have ef0: "engine_fit e (w_tree w0)" using s0(2) by (simp add: state_fit_def)
  note paths = state_paths [OF dig ef0] and t = world_ok_tree [OF s0(1)]
  have "fs_read (w_fs w0) (receipt_path X e (st_id stage)) = Inl NotFound"
    using fs_read_absent [OF t paths(5) parent_clear [OF t paths(6,7)]] assms(6)
    by (simp add: commit_admitted_def)
  then show ?thesis by (simp add: check_receipt_def read_receipt_def)
qed

lemma commit_admitted_prepares:
  assumes "stage_fit X e stage" and "world_ok w" and "state_fit X e stage (w_tree w)"
    and "lock_path X e \<notin> w_locks w" and "lock_root X e w = (Inr (), w0)"
    and "commit_admitted X e stage w0 J"
  shows "\<exists>w1. prepare_commit X e stage w0 = (Inr J, w1)"
  using prepare_commit_prepared [OF assms(1) lock_root_state [OF assms(1-5)]] assms(6)
  unfolding commit_admitted_def by blast

lemma admitted_ready:
  assumes "stage_fit X e stage" and "world_ok w" and "state_fit X e stage (w_tree w)"
    and "lock_path X e \<notin> w_locks w" and "lock_root X e w = (Inr (), w0)"
    and "commit_admitted X e stage w0 J"
  shows "jops_ready X (ce_target_root e) (stage_jops stage J) (w_tree w)"
proof -
  let ?root = "ce_target_root e" and ?zs = "stage_jops stage J"
  have dig: "digests_ok X" "length (st_id stage) = 32"
    and fr: "\<forall>f \<in> set (st_files stage). file_ready X ?root f" "files_apart ?root (st_files stage)"
    using assms(1) by (auto simp: stage_fit_def)
  have ef: "engine_fit e (w_tree w)" "absent_or_file (w_tree w (lock_path X e))"
    using assms(3) by (auto simp: state_fit_def)
  obtain v g where vg: "lock_root X e w = (Inr (), locked X e v)" "moves w v g"
    "\<forall>q. q \<noteq> lock_path X e \<longrightarrow> g q = w_tree w q"
    using lock_root_moves [OF dig(1) assms(2) ef assms(4)] by blast
  have v: "w0 = locked X e v" "w_tree v = g" using vg(1) assms(5) movesD(2) [OF vg(2)] by simp_all
  note s0 = lock_root_state [OF assms(1-5)]
  have root: "names_ok ?root" "w_tree w0 ?root = Some NDir"
    using s0(2) by (auto simp: engine_fit_def state_fit_def)
  have pf: "preflight X e (w_fs w0) stage = Inr J" using assms(6) by (simp add: commit_admitted_def)
  have "w_tree w q = w_tree w0 q" if "comparable ?root q" for q
    using state_paths(12) [OF dig ef(1)] that vg(3) v by (cases "q = lock_path X e") auto
  then have "op_ready X ?root z (w_tree w) = op_ready X ?root z (w_tree w0)" for z
    by (rule op_ready_cong)
  then show ?thesis
    using preflight_ready [OF world_ok_tree [OF s0(1)] root pf fr] world_ok_tree [OF assms(2)]
    by (simp add: jops_ready_def)
qed

text \<open>The run of a commit that is admitted.\<close>

lemma admitted_commit:
  assumes "stage_fit X e stage" and "world_ok w" and "state_fit X e stage (w_tree w)"
    and "lock_path X e \<notin> w_locks w" and "lock_root X e w = (Inr (), w0)"
    and "commit_admitted X e stage w0 J"
  obtains w1 w2 where "prepare_commit X e stage w0 = (Inr J, w1)" "prepared X e stage J (w_tree w1)"
    "absent_or_file (w_tree w1 (receipt_path X e (st_id stage)))"
    "\<exists>b m. w_tree w1 (lock_path X e) = Some (NFile b m)"
    "\<forall>q. \<not> prefix (ce_state_root e) q \<longrightarrow> w_tree w1 q = w_tree w q"
    "commit X e stage w =
      (Inr (receipt (st_id stage) (st_root stage) (cj_operations J) (len64 (x_enc_journal X J)) 0), w2)"
    "world_ok w2" "w_tree w2 = settled X e stage J (w_umask w) (w_tree w1)" "w_locks w2 = w_locks w"
proof -
  have ad: "check_root X e (st_root stage) (w_fs w0) = Inr ()" "preflight X e (w_fs w0) stage = Inr J"
    using assms(6) by (auto simp: commit_admitted_def)
  note cr = commit_admitted_no_receipt [OF assms]
  obtain w1 where pr: "prepare_commit X e stage w0 = (Inr J, w1)"
    using commit_admitted_prepares [OF assms] by blast
  note cs = commit_runs [OF assms(1-5) ad(1) cr pr]
  obtain v where v: "io_bind (apply_journal X e J None []) (\<lambda>_. settle X e (st_id stage) J) w1 =
      (Inr (receipt (st_id stage) (cj_root J) (cj_operations J) (len64 (x_enc_journal X J)) 0), v)"
      "moves w1 v (settled X e stage J (w_umask w1) (w_tree w1))"
    using commit_settles [OF assms(1)] cs by blast
  have "commit X e stage w =
      (Inr (receipt (st_id stage) (st_root stage) (cj_operations J) (len64 (x_enc_journal X J)) 0), unlock_root X e v)"
    using ad(1) cr pr v(1) assms(5) preflight_ops(3) [OF ad(2)]
    by (simp add: commit_def commit_with_failpoint_eq commit_locked_def io_bind_def)
  moreover have "w_locks (unlock_root X e v) = w_locks w"
    using movesD(3) [OF v(2)] cs assms(4) by (auto simp: same_env_def)
  ultimately show ?thesis
    using that [OF pr, of "unlock_root X e v"] cs movesD(1,2) [OF v(2)] by simp
qed

text \<open>The tree it leaves.\<close>

lemma settled_facts:
  fixes u :: u32
  assumes dig: "digests_ok X" "length (st_id stage) = 32" and p: "prepared X e stage J g"
    and rp: "absent_or_file (g (receipt_path X e (st_id stage)))" and lk: "\<exists>b m. g (lock_path X e) = Some (NFile b m)"
  defines "h \<equiv> settled X e stage J u g"
  shows "engine_fit e h" "\<exists>b m. h (lock_path X e) = Some (NFile b m)"
    "\<And>q. comparable (ce_target_root e) q \<Longrightarrow> h q = journal_run (ce_target_root e) u (stage_jops stage J) g q"
    "h (journal_path X e (st_id stage)) = None"
    "\<exists>m. h (receipt_path X e (st_id stage)) = Some (NFile (x_enc_receipt X
      (receipt (st_id stage) (cj_root J) (cj_operations J) (len64 (x_enc_journal X J)) 0)) m)"
proof -
  let ?h = "journal_run (ce_target_root e) u (stage_jops stage J) g" and ?i = "st_id stage"
  have same: "?h (ce_state_root e @ q) = g (ce_state_root e @ q)" for q
    using at_step_state [OF p, of u "length (stage_jops stage J)"] by (simp add: at_step_def)
  have efh: "engine_fit e ?h" using p engine_fit_run [of e g X "stage_jops stage J"] by (simp add: prepared_def)
  have files: "absent_or_file (?h (receipt_path X e ?i))" "absent_or_file (?h (journal_path X e ?i))"
    using rp p same by (auto simp: receipt_path_eq journal_path_eq dig prepared_def absent_or_file_def)
  have dirs: "h q = ?h q" if "?h q = Some NDir" for q
    using files that by (auto simp: h_def settled_def Let_def absent_or_file_def)
  then show "engine_fit e h" using efh by (simp add: engine_fit_def)
  show "\<exists>b m. h (lock_path X e) = Some (NFile b m)"
    using lk same state_paths_distinct(5,6) [OF dig, of e]
    by (simp add: h_def settled_def Let_def lock_path_eq dig(1))
  show "h q = ?h q" if "comparable (ce_target_root e) q" for q
    using that state_paths(4,8) [OF dig efh] by (auto simp: h_def settled_def Let_def)
  show "h (journal_path X e ?i) = None"
    "\<exists>m. h (receipt_path X e ?i) = Some (NFile (x_enc_receipt X
      (receipt ?i (cj_root J) (cj_operations J) (len64 (x_enc_journal X J)) 0)) m)"
    using state_paths_distinct(1) [OF dig, of e] by (simp_all add: h_def settled_def Let_def put_file_def)
qed

end
