(* ===== verification/CommitAgain.thy ===== *)
theory CommitAgain
  imports CommitOnce
begin

text \<open>
  Committing a committed stage again: the receipt is found, validated against the tree and
  returned; nothing changes.
\<close>

lemma op_finished_cong:
  assumes "\<And>q. comparable root q \<Longrightarrow> g' q = g q"
  shows "op_finished root z g' = op_finished root z g"
proof -
  obtain op b where z: "z = (op, b)" by force
  have cl: "clear g' (root @ r) = clear g (root @ r)" for r
    unfolding clear_def using assms
    by (metis comparable_def prefix_append prefix_order.less_imp_le prefix_same_cases prefixI)
  have "op_clear root op g' = op_clear root op g"
    unfolding op_clear_def using cl target_plain by metis
  moreover have "g' x = g x" if "op_clear root op g" "x \<in> set (op_targets root op)" for x
    using op_clear_targets [OF that] assms by (auto simp: comparable_def strict_prefix_def)
  moreover have "op_shape (op, b) \<Longrightarrow> (jo_kind op \<noteq> KDelete \<longrightarrow> op_dst root op \<in> set (op_targets root op)) \<and>
      (jo_kind op \<in> {KMove, KDelete} \<longrightarrow> op_src root op \<in> set (op_targets root op))"
    using shape_targets [of op b root] by blast
  ultimately show ?thesis unfolding z op_finished_def by (cases "jo_kind op") auto
qed

definition outputs_identified :: "('x) ext_scheme \<Rightarrow> apath \<Rightarrow> staged_file list \<Rightarrow> bool" where
  "outputs_identified X root files \<longleftrightarrow> (\<forall>f \<in> set files. sf_kind f \<noteq> KDelete \<longrightarrow>
     (\<exists>b cid. sf_bytes_after f = Some b \<and> sf_content_after f = Some cid \<and> cid_matches X root cid b = Inr True))"

lemma validate_finished:
  assumes t: "tree (bt_get fs)" and root: "names_ok root"
    and fin: "op_finished root (op, b) (bt_get fs)"
    and rel: "rfor_each validate_relative_path (jo_paths op) = Inr ()"
    and comp: "list_all (path_compatible rid) (jo_paths op)"
    and out: "jo_kind op \<noteq> KDelete \<Longrightarrow> \<exists>cid. jo_after_content op = Some cid \<and> cid_matches X root cid (the b) = Inr True"
  shows "validate_receipt_operation X fs root i rid (operation_receipt op) = Inr ()"
proof -
  let ?r = "operation_receipt op"
  have sh: "op_shape (op, b)" "op_clear root op (bt_get fs)" using fin by (auto simp: op_finished_def)
  have fields: "cor_kind ?r = jo_kind op" "cor_path_before ?r = jo_before_path op"
      "cor_path_after ?r = jo_after_path op" "cor_after ?r = jo_after_content op" "cor_paths ?r = jo_paths op"
    by (simp_all add: operation_receipt_def cor_paths_def jo_paths_def)
  have nf: "find (\<lambda>p. \<not> path_compatible rid p) (cor_paths ?r) = None"
    using comp fields by (auto simp: find_None_iff list_all_iff)
  have path: "validate_relative_path p = Inr () \<and> check_parent_components fs root p = Inr () \<and>
      names_ok (target_path root p) \<and> lstat fs (target_path root p) = ok_or NotFound (bt_get fs (target_path root p))"
    if "p \<in> set (jo_paths op)" for p
  proof -
    have c: "plain_rel (path_text p)" "clear (bt_get fs) (target_path root p)"
      using sh(2) that by (auto simp: op_clear_def)
    have n: "names_ok (target_path root p)"
      using target_names [OF root sh(2)] that by (simp add: op_targets_def)
    show ?thesis
      using rel that check_parent_components_conv [OF t root c(2,1)] lstat_clear [OF t n c(2)] n
      by (simp add: rfor_each_Ok)
  qed
  have present: "validate_receipt_present X fs root i ?r d = Inr ()"
    if d: "jo_after_path op = Some d" "\<exists>m. bt_get fs (target_path root d) = Some (NFile (the b) m)"
      and k: "jo_kind op \<noteq> KDelete" and mv: "jo_kind op = KMove \<Longrightarrow> bt_get fs (op_src root op) = None" for d
  proof -
    obtain m where m: "bt_get fs (target_path root d) = Some (NFile (the b) m)" using d(2) by blast
    have dm: "d \<in> set (jo_paths op)" using d(1) by (simp add: jo_paths_def)
    obtain cid where cid: "jo_after_content op = Some cid" "cid_matches X root cid (the b) = Inr True"
      using out [OF k] by blast
    have "content_matches X fs root d (cor_after ?r) = Inr True"
      using content_matches_file [OF t _ m, of X cid] path [OF dm] cid fields by simp
    moreover have "\<not> is_ok (lstat fs (target_path root s))" if "jo_kind op = KMove" "jo_before_path op = Some s" for s
      using path [of s] mv [OF that(1)] that(2) by (simp add: jo_paths_def op_src_def)
    ultimately show ?thesis
      using path [OF dm] m fields by (auto simp: validate_receipt_present_def split: option.splits)
  qed
  show ?thesis
  proof (cases "jo_kind op = KDelete")
    case True
    then obtain s where s: "jo_before_path op = Some s" "bt_get fs (target_path root s) = None"
      using fin sh(1) by (auto simp: op_finished_def op_shape_def op_src_def)
    then have "s \<in> set (jo_paths op)" by (simp add: jo_paths_def)
    then show ?thesis
      using path s True nf fields
      by (simp add: validate_receipt_operation_def receipt_target_def validate_receipt_deleted_def)
  next
    case False
    then obtain d where d: "jo_after_path op = Some d" using sh(1) by (auto simp: op_shape_def split: planned_file_kind.splits)
    have "\<exists>m. bt_get fs (target_path root d) = Some (NFile (the b) m)"
      using fin d False by (auto simp: op_finished_def op_dst_def split: planned_file_kind.splits)
    moreover have "bt_get fs (op_src root op) = None" if "jo_kind op = KMove"
      using fin that by (simp add: op_finished_def)
    ultimately have "validate_receipt_present X fs root i ?r d = Inr ()" using present d False by blast
    moreover have "d \<in> set (jo_paths op)" using d by (simp add: jo_paths_def)
    ultimately show ?thesis
      using path d False nf fields
      by (cases "jo_kind op") (simp_all add: validate_receipt_operation_def receipt_target_def)
  qed
qed

lemma stage_receipts_match:
  assumes "preflight X e fs stage = Inr J" "\<forall>f \<in> set (st_files stage). file_ready X root f"
  shows "map operation_receipt (cj_operations J) = stage_operation_receipts (st_files stage)"
proof -
  from preflight_ops(4) [OF assms(1)]
  have len: "length (cj_operations J) = length (st_files stage)"
    and each: "\<And>i. i < length (st_files stage) \<Longrightarrow>
      preflight_file X fs (ce_target_root e) (st_files stage ! i) = Inr (cj_operations J ! i)"
    by (auto simp: rmap_all_Ok)
  show ?thesis
    unfolding stage_operation_receipts_def
  proof (rule nth_equalityI)
    fix i assume "i < length (map operation_receipt (cj_operations J))"
    then have i: "i < length (st_files stage)" using len by simp
    then have "sf_staged_bytes (st_files stage ! i) = map_option (x_hash X) (sf_bytes_after (st_files stage ! i))"
      using assms(2) by (simp add: file_ready_def)
    from operation_from_file_fields [OF preflight_file_op(1) [OF each [OF i]] this] i len
    show "map operation_receipt (cj_operations J) ! i =
        map (\<lambda>f. \<lparr>cor_kind = sf_kind f, cor_path_before = sf_path_before f, cor_path_after = sf_path_after f,
          cor_before = sf_content_before f, cor_after = sf_content_after f\<rparr>) (st_files stage) ! i"
      by (simp add: operation_receipt_def)
  qed (simp add: len)
qed

lemma receipt_validates:
  assumes "stage_fit X e stage" and p: "prepared X e stage J g" and "validate_journal J = Inr ()"
    and out: "outputs_identified X (ce_target_root e) (st_files stage)" and t: "tree (bt_get fs)"
    and cmp: "\<And>q. comparable (ce_target_root e) q \<Longrightarrow>
      bt_get fs q = journal_run (ce_target_root e) u (stage_jops stage J) g q"
    and pf: "preflight X e fs0 stage = Inr J"
  shows "validate_receipt X fs (ce_target_root e)
    (receipt (st_id stage) (st_root stage) (cj_operations J) jb cb) (st_id stage) (st_root stage) = Inr ()"
proof -
  let ?root = "ce_target_root e" and ?zs = "stage_jops stage J"
  have fr: "\<forall>f \<in> set (st_files stage). file_ready X ?root f" using assms(1) by (simp add: stage_fit_def)
  have root: "names_ok ?root" using p by (simp add: prepared_def engine_fit_def)
  have rd: "redo_log.all_ready (op_ready X ?root) (op_apart ?root) tree ?zs g"
    using p by (simp add: prepared_def jops_ready_redo)
  note len = prepared_len [OF p]
  have one: "validate_receipt_operation X fs ?root (st_id stage) (st_root stage) (operation_receipt op) = Inr ()"
    if op: "op \<in> set (cj_operations J)" for op
  proof -
    obtain k where k: "k < length (cj_operations J)" "op = cj_operations J ! k" using op by (metis in_set_conv_nth)
    let ?f = "st_files stage ! k"
    have z: "(op, sf_bytes_after ?f) \<in> set ?zs"
      using k len nth_mem [of k ?zs] by (simp add: stage_jops_def)
    have "op_finished ?root (op, sf_bytes_after ?f) (journal_run ?root u ?zs g)"
      unfolding journal_run_redo by (rule redo.all_finished [OF rd z])
    then have fin: "op_finished ?root (op, sf_bytes_after ?f) (bt_get fs)"
      using op_finished_cong [of ?root "bt_get fs", OF cmp] by blast
    have vj: "validate_journal_operation (st_root stage) op = Inr ()"
      using assms(3) op p by (auto simp: validate_journal_def rfor_each_Ok prepared_def)
    have pff: "preflight_file X fs0 ?root ?f = Inr op"
      using preflight_ops(4) [OF pf] k len by (simp add: rmap_all_Ok)
    have fk: "?f \<in> set (st_files stage)" using k len by simp
    then have "sf_staged_bytes ?f = map_option (x_hash X) (sf_bytes_after ?f)" using fr by (simp add: file_ready_def)
    note fields = operation_from_file_fields(1,6) [OF preflight_file_op(1) [OF pff] this]
    show ?thesis
    proof (rule validate_finished [OF t root fin])
      show "rfor_each validate_relative_path (jo_paths op) = Inr ()"
        "list_all (path_compatible (st_root stage)) (jo_paths op)"
        using vj by (auto simp: validate_journal_operation_def rbind_eq_Ok split: if_splits)
      show "\<exists>cid. jo_after_content op = Some cid \<and> cid_matches X ?root cid (the (sf_bytes_after ?f)) = Inr True"
        if "jo_kind op \<noteq> KDelete"
        using out fk fields that unfolding outputs_identified_def by force
    qed
  qed
  show ?thesis
    unfolding validate_receipt_def receipt_def Let_def by (simp add: rfor_each_Ok one)
qed

text \<open>C3 -- Idempotence: committing a stage again that was committed returns the same receipt and changes no
  node of the file system.

  As for \<open>commit_applies\<close> the stage and the engine are fit and the first commit was admitted; in
  particular the target paths of two files are apart: a stage with two replacements of one path
  gets \<open>ReceiptDiverged\<close> the second time. The Git root is the top of its worktree (\<open>root_fit\<close>), the
  stage names the content of every output and names it rightly (\<open>outputs_identified\<close>), and the
  encoding of the receipt decodes to it.\<close>

theorem commit_idempotent:
  assumes "stage_fit X e stage" and "world_ok w" and "state_fit X e stage (w_tree w)"
    and "lock_path X e \<notin> w_locks w" and "lock_root X e w = (Inr (), w0)"
    and "commit_admitted X e stage w0 J"
    and "root_fit X e (st_root stage)"
    and "outputs_identified X (ce_target_root e) (st_files stage)"
    and "commit X e stage w = (Inr r, w2)" and "x_dec_receipt X (x_enc_receipt X r) = Some r"
  shows "\<exists>w3. commit X e stage w2 = (Inr r, w3) \<and> w_tree w3 = w_tree w2"
proof -
  let ?root = "ce_target_root e" and ?i = "st_id stage"
  let ?r = "receipt ?i (st_root stage) (cj_operations J) (len64 (x_enc_journal X J)) 0"
  have dig: "digests_ok X" "length ?i = 32" and fr: "\<forall>f \<in> set (st_files stage). file_ready X ?root f"
    using assms(1) by (auto simp: stage_fit_def)
  have ad: "check_root X e (st_root stage) (w_fs w0) = Inr ()" "preflight X e (w_fs w0) stage = Inr J"
      "validate_journal J = Inr ()"
    using assms(6) by (auto simp: commit_admitted_def)
  obtain w1 where run: "prepared X e stage J (w_tree w1)"
      "absent_or_file (w_tree w1 (receipt_path X e ?i))" "\<exists>b m. w_tree w1 (lock_path X e) = Some (NFile b m)"
      "r = ?r" "world_ok w2" "w_tree w2 = settled X e stage J (w_umask w) (w_tree w1)" "w_locks w2 = w_locks w"
    using admitted_commit [OF assms(1-6)] assms(9) by (metis Pair_inject sum.inject(2))
  note sf = settled_facts [OF dig run(1-3), where u = "w_umask w", folded run(6)]
  have lock2: "absent_or_file (w_tree w2 (lock_path X e))" "w_tree w2 (lock_path X e) \<noteq> None"
      "lock_path X e \<notin> w_locks w2"
    using sf(2) assms(4) run(7) by (auto simp: absent_or_file_def)
  obtain u where u: "lock_root X e w2 = (Inr (), locked X e u)" "moves w2 u (w_tree w2)"
    using lock_root_moves [OF dig(1) run(5) sf(1) lock2(1,3)] lock2(2) by blast
  let ?w = "locked X e u"
  have tw: "w_tree ?w = w_tree w2" "world_ok ?w" using movesD [OF u(2)] by simp_all
  note t = world_ok_tree [OF tw(2)]
  have "engine_fit e (w_tree w0)" using lock_root_state(2) [OF assms(1-5)] by (simp add: state_fit_def)
  then have root2: "check_root X e (st_root stage) (w_fs ?w) = Inr ()"
    using check_root_stable [OF world_ok_tree [OF lock_root_state(1) [OF assms(1-5)]] t _ _ assms(7)] ad(1) sf(1) tw(1)
    by simp
  have rr: "read_receipt X e ?i (w_fs ?w) = Inr (Some ?r)"
    using sf(5) fs_read_file [OF t state_paths(5) [OF dig sf(1)]] assms(10) run(4) tw(1) preflight_ops(3) [OF ad(2)]
    by (auto simp: read_receipt_def)
  have valid: "validate_receipt X (w_fs ?w) ?root ?r ?i (st_root stage) = Inr ()"
    by (rule receipt_validates [OF assms(1) run(1) ad(3) assms(8) t sf(3) [folded tw(1)] ad(2)])
  have "cr_watch ?r = watch_projection ?i (cr_operations ?r) \<and> cr_applied_files ?r = length (cr_operations ?r)"
    by (simp add: receipt_def Let_def)
  moreover have "cr_operations ?r = stage_operation_receipts (st_files stage)"
    using stage_receipts_match [OF ad(2) fr] by (simp add: receipt_def Let_def)
  ultimately have "check_receipt X e stage (w_fs ?w) = Inr (Some ?r)"
    using rr valid unfolding check_receipt_def by (simp add: Let_def)
  then have "commit X e stage w2 = (Inr r, unlock_root X e ?w)"
    using root2 u(1) run(4) by (simp add: commit_def commit_with_failpoint_eq commit_locked_def io_bind_def)
  then show ?thesis using tw(1) by auto
qed

end
