(* ===== verification/CommitTheorems.thy ===== *)
theory CommitTheorems
  imports CommitOnce
begin

text \<open>
  Further guarantees of the commit engine: what a successful commit does to the tree, that a
  second commit changes nothing, that a refused one leaves everything as it was, who holds the
  lock, and which syncs are issued.
\<close>

subsection \<open>A successful commit\<close>


subsection \<open>A refused commit\<close>

text \<open>C5 -- All or nothing: if the preflight refuses the stage, a commit changes no node of the file
  system beyond the lock file, whatever the state of the receipts and whatever failpoint is
  set.\<close>

theorem refused_commit_changes_nothing:
  assumes "lock_root X e w = (Inr (), w0)" and "preflight X e (w_fs w0) stage = Inl refusal"
  shows "w_fs (snd (commit_with_failpoint X e stage fp w)) = w_fs w0"
proof -
  have "snd (prepare_commit X e stage w0) = w0 \<and> (\<exists>err. fst (prepare_commit X e stage w0) = Inl err)"
    using assms(2) by (simp add: prepare_commit_def io_bind_read split: sum.splits)
  then obtain err where "prepare_commit X e stage w0 = (Inl err, w0)" by (metis prod.collapse)
  then have "snd (commit_locked X e stage fp w0) = w0"
    by (simp add: commit_locked_def io_bind_read io_bind_err split: sum.splits option.splits)
  then show ?thesis
    using assms(1) unfolding commit_with_failpoint_eq
    by (cases "commit_locked X e stage fp w0") simp
qed

subsection \<open>The lock\<close>

text \<open>C24 -- Mutual exclusion: while the root lock is held, neither a commit nor a recovery does
  anything but open the lock file, and both fail.\<close>

theorem lock_excludes:
  assumes "lock_path X e \<in> w_locks w"
  shows "(\<exists>err. commit_with_failpoint X e stage fp w = (Inl err, snd (open_or_create (lock_path X e) w))) \<and>
    (\<exists>err. recover X e i w = (Inl err, snd (open_or_create (lock_path X e) w)))"
proof -
  have keep: "w_locks (snd (open_or_create (lock_path X e) w)) = w_locks w"
    by (simp add: open_or_create_def split: sum.splits option.splits node.splits)
  then have "\<exists>err. lock_root X e w = (Inl err, snd (open_or_create (lock_path X e) w))"
    using assms by (auto simp: lock_root_def io_bind_def io_map_err_def split: prod.splits sum.splits)
  then show ?thesis
    by (auto simp: commit_with_failpoint_def recover_def with_lock_def io_bind_def)
qed

subsection \<open>Invariants of every step\<close>

text \<open>A predicate that does not look at nodes or the trace, and one that does not look at the
  tally of syncs either.\<close>

definition quiet :: "(world \<Rightarrow> bool) \<Rightarrow> bool" where
  "quiet I \<longleftrightarrow> (\<forall>w f. I (w\<lparr>w_fs := f\<rparr>) = I w) \<and> (\<forall>w l. I (w\<lparr>w_log := l\<rparr>) = I w)"

definition sync_blind :: "(world \<Rightarrow> bool) \<Rightarrow> bool" where
  "sync_blind I \<longleftrightarrow> (\<forall>w c. I (w\<lparr>w_counts := c\<rparr>) = I w)"

lemma quiet_simps [simp]:
  assumes "quiet I"
  shows "I (io_log ev w) = I w" "I (set_node p n w) = I w" "I (drop_node p w) = I w" "I (w\<lparr>w_fs := f\<rparr>) = I w"
  using assms by (simp_all add: quiet_def io_log_def set_node_def drop_node_def)

lemma fs_write_keeps [intro]: "quiet I \<Longrightarrow> io_keeps I (fs_write p b)"
  by (auto simp: io_keeps_def fs_write_def split: sum.splits option.splits node.splits)

lemma fs_chmod_keeps [intro]: "quiet I \<Longrightarrow> io_keeps I (fs_chmod p f)"
  by (auto simp: io_keeps_def fs_chmod_def split: sum.splits option.splits node.splits)

lemma fs_mkdir_keeps [intro]: "quiet I \<Longrightarrow> io_keeps I (fs_mkdir p)"
  by (auto simp: io_keeps_def fs_mkdir_def split: sum.splits)

lemma fs_remove_keeps [intro]: "quiet I \<Longrightarrow> io_keeps I (fs_remove_file p)"
  by (auto simp: io_keeps_def fs_remove_file_def split: sum.splits option.splits node.splits)

lemma fs_rename_keeps [intro]: "quiet I \<Longrightarrow> io_keeps I (fs_rename p q)"
  by (auto simp: io_keeps_def fs_rename_def rename_into_def split: sum.splits option.splits)

lemma fs_hard_link_keeps [intro]: "quiet I \<Longrightarrow> io_keeps I (fs_hard_link p q)"
  by (auto simp: io_keeps_def fs_hard_link_def split: sum.splits)

lemma open_or_create_keeps [intro]: "quiet I \<Longrightarrow> io_keeps I (open_or_create p)"
  by (auto simp: io_keeps_def open_or_create_def split: sum.splits option.splits node.splits)

lemma create_dir_all_keeps [intro]:
  assumes "quiet I"
  shows "io_keeps I (create_dir_all p)"
proof (induction p rule: length_induct)
  case (1 p)
  note mk = io_keepsD [OF fs_mkdir_keeps [OF assms, of p]]
  have ih: "io_keeps I (create_dir_all q)" if "path_parent p = Some q" for q
  proof -
    have "length q < length p" using that by (auto simp: path_parent_def Let_def split: if_splits)
    with 1 show ?thesis by blast
  qed
  show ?case
    unfolding io_keeps_def
  proof (intro allI impI)
    fix w assume I: "I w"
    obtain r w1 where w1: "fs_mkdir p w = (r, w1)" by force
    note I1 = mk [OF I w1]
    show "I (snd (create_dir_all p w))"
    proof (cases "(\<exists>u. r = Inr u) \<or> r \<noteq> Inl NotFound \<or> path_parent p = None")
      case True
      then show ?thesis
        using w1 I1 by (subst create_dir_all.simps) (auto split: sum.splits option.splits)
    next
      case False
      then obtain q where q: "r = Inl NotFound" "path_parent p = Some q" by auto
      obtain r2 w2 where w2: "create_dir_all q w1 = (r2, w2)" by force
      obtain r3 w3 where w3: "fs_mkdir p w2 = (r3, w3)" by force
      note I2 = io_keepsD [OF ih [OF q(2)] I1 w2]
      note I3 = mk [OF I2 w3]
      show ?thesis
        using w1 w2 w3 q I2 I3 by (subst create_dir_all.simps) (auto split: sum.splits)
    qed
  qed
qed

lemma sync_directory_keeps [intro]: "quiet I \<Longrightarrow> sync_blind I \<Longrightarrow> io_keeps I (sync_directory p level)"
  by (auto simp: io_keeps_def sync_directory_def sync_file_def io_bind_def sync_blind_def split: prod.splits sum.splits)

lemma publish_file_keeps [intro]: "quiet I \<Longrightarrow> sync_blind I \<Longrightarrow> io_keeps I (publish_file p b level f)"
  by (auto simp: io_keeps_def publish_file_def temporary_in_def persist_def sync_file_def io_bind_def sync_blind_def
      split: prod.splits sum.splits)

lemma io_keeps_if: "io_keeps I m \<Longrightarrow> io_keeps I n \<Longrightarrow> io_keeps I (if b then m else n)"
  by simp

lemma io_keeps_option:
  "io_keeps I m \<Longrightarrow> (\<And>a. io_keeps I (f a)) \<Longrightarrow> io_keeps I (case x of None \<Rightarrow> m | Some a \<Rightarrow> f a)"
  by (cases x) simp_all

lemmas keeps = io_keeps_if io_keeps_option io_keeps_bind io_keeps_map_err io_keeps_read io_keeps_ok io_keeps_err io_keeps_for_each
  fs_write_keeps fs_chmod_keeps fs_mkdir_keeps fs_remove_keeps fs_rename_keeps create_dir_all_keeps
  sync_directory_keeps publish_file_keeps open_or_create_keeps

text \<open>
  What a step of an engine of durability \<open>d\<close> keeps: \<open>I\<close> ignores nodes and trace, and also the
  tally of syncs unless the engine issues none.
\<close>

locale engine_step =
  fixes I :: "world \<Rightarrow> bool" and d :: durability
  assumes q: "quiet I" and s: "dry_run d \<or> sync_blind I"
begin

lemma write_unsynced_keeps: "io_keeps I (write_unsynced p b mode op)"
  unfolding write_unsynced_def by (cases mode; simp; intro keeps q)

lemma atomic_write_keeps: "io_keeps I (atomic_write p b mode d)"
  unfolding atomic_write_def using s write_unsynced_keeps by (cases "dry_run d") (auto intro!: keeps q)

lemma sync_dir_keeps: "io_keeps I (sync_dir_when_durable p d level)"
  unfolding sync_dir_when_durable_def using s by (cases "dry_run d") (auto intro!: keeps q)

lemma ensure_parent_keeps: "io_keeps I (ensure_parent_dirs p)"
  unfolding ensure_parent_dirs_def by (cases "path_parent p"; simp; intro keeps q)

lemma apply_operation_keeps: "io_keeps I (apply_operation root op b d ds)"
  unfolding apply_operation_def Let_def
  by (cases "jo_kind op"; simp; intro keeps q ensure_parent_keeps atomic_write_keeps)

lemma write_state_file_keeps: "io_keeps I (write_state_file p b d t1 t2 level)"
  unfolding write_state_file_def using s write_unsynced_keeps sync_dir_keeps
  by (cases "dry_run d") (auto intro!: keeps q)

lemma apply_operations_keeps:
  "ce_durability e = d \<Longrightarrow> io_keeps I (apply_operations e fp c i zs ds)"
proof (induction zs arbitrary: i ds)
  case (Cons z zs)
  then show ?case
    using apply_operation_keeps by (cases z) (auto intro!: keeps)
qed (auto intro: keeps)

lemma link_keeps: "io_keeps I (link_staged_blob X e blob p)"
proof (cases "ce_staged_blobs e")
  case (Some source)
  show ?thesis
    unfolding io_keeps_def
  proof (intro allI impI)
    fix w assume "I w"
    obtain r w' where h: "fs_hard_link (join_path source (x_hex X blob)) p w = (r, w')" by force
    with Some io_keepsD [OF fs_hard_link_keeps [OF q] \<open>I w\<close> h]
    show "I (snd (link_staged_blob X e blob p w))" by (simp add: link_staged_blob_def)
  qed
qed (simp add: link_staged_blob_def io_keeps_ok)

lemma place_payload_keeps:
  assumes "ce_durability e = d"
  shows "io_keeps I (place_payload X e blob b)"
  unfolding io_keeps_def
proof (intro allI impI)
  fix w assume I: "I w"
  let ?p = "blob_path X e blob"
  have pub: "io_keeps I (io_bind (link_staged_blob X e blob ?p) (\<lambda>linked. if linked then io_ok ()
      else io_map_err (io_refusal_context ''publish commit payload'') (publish_file ?p b SyncData id)))"
    if "\<not> dry_run d"
    using that s by (auto intro!: keeps q link_keeps)
  obtain r1 w1 where w1: "write_unsynced ?p b None ''write commit payload'' w = (r1, w1)" by force
  obtain r2 w2 where w2: "io_bind (link_staged_blob X e blob ?p) (\<lambda>linked. if linked then io_ok ()
      else io_map_err (io_refusal_context ''publish commit payload'') (publish_file ?p b SyncData id)) w = (r2, w2)"
    by force
  show "I (snd (place_payload X e blob b w))"
  proof (cases "path_exists (w_fs w) ?p")
    case True
    with I show ?thesis by (auto simp: place_payload_def Let_def split: sum.splits)
  next
    case False
    then show ?thesis
      using w1 w2 assms io_keepsD [OF write_unsynced_keeps I w1] io_keepsD [OF pub I w2]
      by (cases "dry_run d") (simp_all add: place_payload_def Let_def)
  qed
qed

lemma materialize_keeps:
  assumes "ce_durability e = d"
  shows "io_keeps I (materialize_payloads X e stage J)"
proof -
  have "io_keeps I (materialize_payload X e z)" for z
    unfolding materialize_payload_def
    by (cases z; simp; intro keeps place_payload_keeps assms)
  then show ?thesis
    unfolding materialize_payloads_def assms by (intro keeps sync_dir_keeps)
qed

lemma remove_journal_keeps: "io_keeps I (remove_journal p)"
  unfolding io_keeps_def
proof (intro allI impI)
  fix w assume "I w"
  obtain r w' where h: "fs_remove_file p w = (r, w')" by force
  with io_keepsD [OF fs_remove_keeps [OF q] \<open>I w\<close> h]
  show "I (snd (remove_journal p w))" by (auto simp: remove_journal_def split: sum.splits)
qed

lemma apply_journal_keeps:
  assumes "ce_durability e = d"
  shows "io_keeps I (apply_journal X e J fp c)"
  unfolding apply_journal_def assms by (intro keeps sync_dir_keeps apply_operations_keeps assms)

lemma settle_keeps: "ce_durability e = d \<Longrightarrow> io_keeps I (settle X e i J)"
  unfolding settle_def write_receipt_def by (simp, intro keeps write_state_file_keeps remove_journal_keeps)

lemma prepare_commit_keeps: "ce_durability e = d \<Longrightarrow> io_keeps I (prepare_commit X e stage)"
  unfolding prepare_commit_def write_journal_def
  by (simp, intro keeps write_state_file_keeps materialize_keeps)

lemma commit_locked_keeps: "ce_durability e = d \<Longrightarrow> io_keeps I (commit_locked X e stage fp)"
  unfolding commit_locked_def
  by (intro keeps prepare_commit_keeps apply_journal_keeps settle_keeps)

lemma recover_locked_keeps: "ce_durability e = d \<Longrightarrow> io_keeps I (recover_locked X e i)"
  unfolding recover_locked_def by (intro keeps apply_journal_keeps settle_keeps)

end

interpretation held_locks: engine_step "\<lambda>w. w_locks w = L" d
  by unfold_locales (simp_all add: quiet_def sync_blind_def)

interpretation sync_tally: engine_step "\<lambda>w. w_counts w = c" DryRun
  by unfold_locales (simp_all add: quiet_def dry_run_def)

lemma lock_root_locks:
  assumes "lock_root X e w = (r, w0)"
  shows "w_counts w0 = w_counts w"
    "r = Inr () \<Longrightarrow> lock_path X e \<notin> w_locks w \<and> w_locks w0 = insert (lock_path X e) (w_locks w)"
    "r = Inl err \<Longrightarrow> w_locks w0 = w_locks w"
proof -
  obtain r1 w1 where o: "open_or_create (lock_path X e) w = (r1, w1)" by force
  have "quiet (\<lambda>v. w_locks v = w_locks w)" "quiet (\<lambda>v. w_counts v = w_counts w)" by (simp_all add: quiet_def)
  then have k: "w_locks w1 = w_locks w" "w_counts w1 = w_counts w"
    using io_keepsD [OF open_or_create_keeps [of "\<lambda>v. w_locks v = w_locks w"] _ o]
      io_keepsD [OF open_or_create_keeps [of "\<lambda>v. w_counts v = w_counts w"] _ o] by simp_all
  have "w_counts w0 = w_counts w \<and>
    (r = Inr () \<longrightarrow> lock_path X e \<notin> w_locks w \<and> w_locks w0 = insert (lock_path X e) (w_locks w)) \<and>
    (r = Inl err \<longrightarrow> w_locks w0 = w_locks w)"
  proof (cases r1)
    case (Inl x)
    then have "r = Inl (io_refusal_context ''open root lock'' x)" "w0 = w1"
      using assms o by (simp_all add: lock_root_def io_bind_def io_map_err_def)
    with k show ?thesis by simp
  next
    case (Inr u)
    then have "(r, w0) = (if lock_path X e \<in> w_locks w1 then (Inl (Locked (lock_path X e)), w1)
        else (Inr (), w1\<lparr>w_locks := insert (lock_path X e) (w_locks w1)\<rparr>))"
      using assms o by (simp add: lock_root_def io_bind_def io_map_err_def)
    with k show ?thesis by (simp split: if_splits)
  qed
  then show "w_counts w0 = w_counts w"
    "r = Inr () \<Longrightarrow> lock_path X e \<notin> w_locks w \<and> w_locks w0 = insert (lock_path X e) (w_locks w)"
    "r = Inl err \<Longrightarrow> w_locks w0 = w_locks w"
    by simp_all
qed

lemma with_lock_cases:
  obtains (refused) err w0 where "lock_root X e w = (Inl err, w0)" "with_lock X e m w = (Inl err, w0)"
  | (taken) w0 r w1 where "lock_root X e w = (Inr (), w0)" "m w0 = (r, w1)"
      "with_lock X e m w = (r, unlock_root X e w1)"
proof -
  obtain r0 w0 where l: "lock_root X e w = (r0, w0)" by force
  obtain r w1 where m: "m w0 = (r, w1)" by force
  show ?thesis
    using l m that by (cases r0) (auto simp: with_lock_def io_bind_def)
qed

lemma with_lock_locks:
  assumes "\<And>L. io_keeps (\<lambda>w. w_locks w = L) m"
  shows "w_locks (snd (with_lock X e m w)) = w_locks w"
proof (cases rule: with_lock_cases [of X e w m])
  case (refused err w0)
  then show ?thesis using lock_root_locks(3) [OF refused(1)] by simp
next
  case (taken w0 r w1)
  have "w_locks w1 = w_locks w0" using io_keepsD [OF assms _ taken(2)] by blast
  then show ?thesis using lock_root_locks(2) [OF taken(1)] taken(3) by auto
qed

lemma with_lock_counts:
  assumes "\<And>c. io_keeps (\<lambda>w. w_counts w = c) m"
  shows "w_counts (snd (with_lock X e m w)) = w_counts w"
proof (cases rule: with_lock_cases [of X e w m])
  case (refused err w0)
  then show ?thesis using lock_root_locks(1) [OF refused(1)] by simp
next
  case (taken w0 r w1)
  have "w_counts w1 = w_counts w0" using io_keepsD [OF assms _ taken(2)] by blast
  then show ?thesis using lock_root_locks(1) [OF taken(1)] taken(3) by (simp add: unlock_root_def)
qed

text \<open>No commit and no recovery leaves a lock behind, however it ends: success, refusal, I/O
  error or failpoint.\<close>

theorem lock_released:
  "w_locks (snd (commit_with_failpoint X e stage fp w)) = w_locks w \<and>
   w_locks (snd (recover X e i w)) = w_locks w"
  unfolding commit_with_failpoint_def recover_def
  using with_lock_locks [OF held_locks.commit_locked_keeps [OF refl]]
    with_lock_locks [OF held_locks.recover_locked_keeps [OF refl]] by blast

text \<open>A dry-run engine issues no device sync at any point of a commit or a recovery.\<close>

theorem dry_run_never_syncs:
  assumes "ce_durability e = DryRun"
  shows "device_sync_counts (snd (commit_with_failpoint X e stage fp w)) = device_sync_counts w \<and>
    device_sync_counts (snd (recover X e i w)) = device_sync_counts w"
  unfolding commit_with_failpoint_def recover_def device_sync_counts_def
  using with_lock_counts [OF sync_tally.commit_locked_keeps [OF assms]]
    with_lock_counts [OF sync_tally.recover_locked_keeps [OF assms]] by blast

subsection \<open>Write-ahead order\<close>

lemma write_state_file_log:
  assumes "write_state_file p b Durable wt pt level w = (Inr (), w')"
  shows "last (w_log w') = EvSync (parent_or_root p) level"
proof -
  obtain v where "sync_directory (parent_or_root p) level v = (Inr (), w')"
    using assms by (auto simp: write_state_file_def dry_run_def sync_dir_when_durable_def io_bind_eq_Ok)
  then show ?thesis by (auto simp: sync_directory_def io_bind_eq_Ok sync_file_def)
qed

text \<open>C4 -- Write-ahead order of a durable commit: at the point where the journal has been written,
  the last thing that happened is the sync of the journal directory, at the level that orders the
  target root's device, and up to there no node outside the state root, hence none below the
  target root, has changed.\<close>

theorem journal_before_targets:
  assumes "stage_fit X e stage" and "world_ok w" and "state_fit X e stage (w_tree w)"
    and "ce_durability e = Durable" and "prepare_commit X e stage w = (Inr J, w1)"
  shows "last (w_log w1) = EvSync (ce_state_root e @ [''journals'']) (cross_root_level e) \<and>
    (\<forall>q. \<not> prefix (ce_state_root e) q \<longrightarrow> w_tree w1 q = w_tree w q) \<and>
    (\<exists>m. w_tree w1 (journal_path X e (st_id stage)) = Some (NFile (x_enc_journal X J) m))"
proof -
  have dig: "digests_ok X" "length (st_id stage) = 32" using assms(1) by (auto simp: stage_fit_def)
  have ef: "engine_fit e (w_tree w)" "absent_or_file (w_tree w (journal_path X e (st_id stage)))"
    using assms(3) by (auto simp: state_fit_def)
  note inv = prepare_commit_inv [OF assms(5)]
  have nj: "w_tree w (journal_path X e (st_id stage)) = None"
    using state_file_exists [OF assms(2) state_paths(1-3) [OF dig ef(1)] ef(2)] inv(1) by simp
  have tree: "prepared X e stage J (w_tree w1) \<and> (\<forall>q. \<not> prefix (ce_state_root e) q \<longrightarrow> w_tree w1 q = w_tree w q)"
  proof -
    obtain w' g' where p: "prepare_commit X e stage w = (Inr J, w')" "moves w w' g'" "prepared X e stage J g'"
        "\<forall>q. \<not> prefix (ce_state_root e) q \<longrightarrow> g' q = w_tree w q"
      using prepare_commit_prepared [OF assms(1-3) nj inv(2,3)] by blast
    then have "w' = w1" using assms(5) by simp
    with p movesD(2) [OF p(2)] show ?thesis by simp
  qed
  obtain v where "write_journal X (journal_path X e (st_id stage)) J Durable (cross_root_level e) v = (Inr (), w1)"
    using assms(4,5) by (auto simp: prepare_commit_def io_bind_eq_Ok)
  then have "last (w_log w1) = EvSync (parent_or_root (journal_path X e (st_id stage))) (cross_root_level e)"
    unfolding write_journal_def by (rule write_state_file_log)
  moreover have "parent_or_root (journal_path X e (st_id stage)) = ce_state_root e @ [''journals'']"
    using state_paths(1,2) [OF dig ef(1)] by (simp add: parent_or_root_butlast journal_path_eq dig butlast_append)
  ultimately show ?thesis using tree by (simp add: prepared_def)
qed

end
