(* ===== verification/Samples.thy ===== *)
theory Samples
  imports CommitAgain CommitTheorems
begin

text \<open>
  A concrete instance of everything the commit theorems assume: functions with the documented
  behaviour of the digest and its hexadecimal form, a small file system, an engine and a stage
  that creates one file and deletes another. The witnesses of the commit properties apply them
  here.
\<close>

subsection \<open>Hexadecimal digests\<close>

definition hex_digits :: string where
  "hex_digits = ''0123456789abcdef''"

definition unhex_char :: "char \<Rightarrow> nat option" where
  "unhex_char c = (case [i \<leftarrow> [0..<16]. hex_digits ! i = c] of [] \<Rightarrow> None | i # _ \<Rightarrow> Some i)"

fun sample_hex :: "digest \<Rightarrow> string" where
  "sample_hex [] = []"
| "sample_hex (b # d) = hex_digits ! (unat b div 16) # hex_digits ! (unat b mod 16) # sample_hex d"

fun unhex :: "string \<Rightarrow> digest option" where
  "unhex [] = Some []"
| "unhex [c] = None"
| "unhex (a # b # s) =
     (case (unhex_char a, unhex_char b, unhex s) of
        (Some i, Some j, Some d) \<Rightarrow> Some (of_nat (16 * i + j) # d)
      | _ \<Rightarrow> None)"

definition sample_from_hex :: "string \<Rightarrow> digest option" where
  "sample_from_hex s =
     (case unhex s of None \<Rightarrow> None | Some d \<Rightarrow> if length d = 32 then Some d else None)"

lemma unhex_digit: "i < 16 \<Longrightarrow> unhex_char (hex_digits ! i) = Some i \<and> hex_char (hex_digits ! i)"
proof -
  have "\<forall>i \<in> {..<16::nat}. unhex_char (hex_digits ! i) = Some i \<and> hex_char (hex_digits ! i)"
    by code_simp
  then show "i < 16 \<Longrightarrow> unhex_char (hex_digits ! i) = Some i \<and> hex_char (hex_digits ! i)" by simp
qed

lemma byte_nibbles: "unat (b :: u8) div 16 < 16"
proof -
  have "unat b < 2 ^ LENGTH(8)" by (rule unsigned_less)
  then show ?thesis by simp
qed

lemma unhex_sample_hex: "unhex (sample_hex d) = Some d"
proof (induction d)
  case (Cons b d)
  have "16 * (unat b div 16) + unat b mod 16 = unat b" by presburger
  then have "(of_nat (16 * (unat b div 16) + unat b mod 16) :: u8) = b" by (simp add: unsigned_ucast_eq)
  then show ?case using Cons unhex_digit byte_nibbles [of b] by (simp add: unhex_digit del: of_nat_add of_nat_mult)
qed simp

lemma sample_hex_chars: "length (sample_hex d) = 2 * length d \<and> list_all hex_char (sample_hex d)"
  using unhex_digit byte_nibbles by (induction d) auto

subsection \<open>The sample\<close>

definition sample_hash :: "bytes \<Rightarrow> digest" where
  "sample_hash b = (if b = [1] then replicate 32 1 else if b = [2] then replicate 32 2 else replicate 32 0)"

definition sample_engine :: commit_engine where
  "sample_engine = \<lparr>ce_target_root = [''t''], ce_state_root = [''s''], ce_durability = Durable,
     ce_shared_device = False, ce_staged_blobs = None\<rparr>"

definition sample_root :: source_root_id where
  "sample_root = RootDirectory (sample_hex (replicate 32 0))"

definition sample_create :: staged_file where
  "sample_create = \<lparr>sf_kind = KCreate, sf_source = None, sf_path_before = None,
     sf_path_after = Some (PathDirectory ''a/b''), sf_content_before = None,
     sf_content_after = Some (Blake3 (replicate 32 1)), sf_mode_before = None,
     sf_staged_bytes = Some (replicate 32 1), sf_edits = [], sf_bytes_after = Some [1]\<rparr>"

definition sample_delete :: staged_file where
  "sample_delete = \<lparr>sf_kind = KDelete, sf_source = None, sf_path_before = Some (PathDirectory ''o''),
     sf_path_after = None, sf_content_before = Some (Blake3 (replicate 32 2)), sf_content_after = None,
     sf_mode_before = Some \<lparr>fmo_readonly = False, fmo_unix_mode = Some 0x81A4\<rparr>,
     sf_staged_bytes = None, sf_edits = [], sf_bytes_after = None\<rparr>"

definition sample_stage :: staged_transaction where
  "sample_stage = \<lparr>st_id = replicate 32 9, st_root = sample_root,
     st_files = [sample_create, sample_delete], st_previews = []\<rparr>"

definition sample_ops :: "journal_operation list" where
  "sample_ops =
    [\<lparr>jo_kind = KCreate, jo_before_path = None, jo_after_path = Some (PathDirectory ''a/b''),
      jo_expected = None, jo_after_blob = Some (replicate 32 1),
      jo_after_content = Some (Blake3 (replicate 32 1)), jo_mode = None\<rparr>,
     \<lparr>jo_kind = KDelete, jo_before_path = Some (PathDirectory ''o''), jo_after_path = None,
      jo_expected = Some (Blake3 (replicate 32 2)), jo_after_blob = None, jo_after_content = None,
      jo_mode = Some \<lparr>fmo_readonly = False, fmo_unix_mode = Some 0x81A4\<rparr>\<rparr>]"

definition sample_journal :: commit_journal where
  "sample_journal = \<lparr>cj_version = JOURNAL_VERSION, cj_stage_id = replicate 32 9, cj_root = sample_root,
     cj_operations = sample_ops\<rparr>"

definition sample_receipt :: commit_receipt where
  "sample_receipt = receipt (replicate 32 9) sample_root sample_ops 1 0"

definition sample_ext :: commit_ext where
  "sample_ext = \<lparr>x_hash = sample_hash, x_hex = sample_hex, x_from_hex = sample_from_hex,
     x_discover = (\<lambda>p. Inl ''not a repository''), x_hash_object = (\<lambda>r b. Inl ''not a repository''),
     x_cat_file = (\<lambda>r s. ([], [])), x_open_fails = (\<lambda>p. False), x_read_fails = (\<lambda>p. False),
     x_enc_identity = (\<lambda>i. [3]), x_enc_manifest = (\<lambda>m. [4]), x_dec_manifest = (\<lambda>b. None),
     x_unified = (\<lambda>a b. []),
     x_enc_journal = (\<lambda>j. [5]), x_dec_journal = (\<lambda>b. if b = [5] then Some sample_journal else None),
     x_enc_receipt = (\<lambda>r. [6]), x_dec_receipt = (\<lambda>b. if b = [6] then Some sample_receipt else None)\<rparr>"

definition sample_fs :: fs where
  "sample_fs =
    [([], NDir), ([''s''], NDir), ([''s'', ''blobs''], NDir), ([''s'', ''journals''], NDir),
     ([''s'', ''locks''], NDir), ([''s'', ''receipts''], NDir), ([''t''], NDir),
     ([''t'', ''o''], NFile [2] 0x81A4)]"

definition sample_world :: world where
  "sample_world = \<lparr>w_fs = sample_fs, w_umask = 0x12, w_dev = (\<lambda>p. 0), w_locks = {},
     w_counts = \<lparr>dsc_data = 0, dsc_fences = 0, dsc_flushes = 0\<rparr>, w_log = []\<rparr>"

subsection \<open>The sample meets the hypotheses\<close>

lemma fs_ok_check:
  assumes "bt_wf fs" and root: "bt_get fs [] = Some NDir"
    and all: "list_all (\<lambda>(p, n). (p = [] \<or> bt_get fs (butlast p) = Some NDir) \<and>
      (case n of NDir \<Rightarrow> True | NFile b m \<Rightarrow> mode_regular m | _ \<Rightarrow> True)) fs"
  shows "fs_ok fs"
proof -
  have "bt_get fs p = Some NDir" if "bt_get fs (p @ [c]) = Some n" for p c n
    using all map_of_SomeD [OF that] by (fastforce simp: list_all_iff)
  moreover have "mode_regular m" if "bt_get fs p = Some (NFile b m)" for p b m
    using all map_of_SomeD [OF that] by (fastforce simp: list_all_iff)
  ultimately show ?thesis using assms(1) root unfolding fs_ok_def tree_def by blast
qed

lemma sample_world_ok: "world_ok sample_world"
proof -
  have "fs_ok sample_fs"
  proof (rule fs_ok_check)
    show "bt_wf sample_fs" by code_simp
    show "bt_get sample_fs [] = Some NDir" by code_simp
    show "list_all (\<lambda>(p, n). (p = [] \<or> bt_get sample_fs (butlast p) = Some NDir) \<and>
      (case n of NDir \<Rightarrow> True | NFile b m \<Rightarrow> mode_regular m | _ \<Rightarrow> True)) sample_fs" by code_simp
  qed
  then show ?thesis by (simp add: world_ok_def sample_world_def)
qed

lemma sample_digests: "digests_ok sample_ext"
  using unhex_sample_hex sample_hex_chars
  by (auto simp: digests_ok_def sample_ext_def sample_hash_def sample_from_hex_def split: option.splits if_splits)

lemma sample_stage_fit: "stage_fit sample_ext sample_engine sample_stage"
proof -
  have "file_ready sample_ext [''t''] sample_create"
    by (auto simp: file_ready_def sample_create_def sample_ext_def sample_hash_def no_collision_def needs_dir_def
        slash_def split: if_splits)
  moreover have "file_ready sample_ext [''t''] sample_delete"
    by (auto simp: file_ready_def sample_delete_def needs_dir_def slash_def)
  moreover have "files_apart [''t''] [sample_create, sample_delete]"
    by code_simp
  ultimately show ?thesis
    using sample_digests by (simp add: stage_fit_def sample_stage_def sample_engine_def)
qed

lemma sample_state_fit: "state_fit sample_ext sample_engine sample_stage (w_tree sample_world)"
proof -
  have "engine_fit sample_engine (w_tree sample_world)" by code_simp
  moreover have "payload_at sample_ext sample_engine [1] = [''s'', ''blobs'', sample_hex (replicate 32 1)]"
    by code_simp
  moreover have "w_tree sample_world [''s'', ''blobs'', sample_hex (replicate 32 1)] = None" by code_simp
  moreover have "w_tree sample_world (journal_path sample_ext sample_engine (st_id sample_stage)) = None"
    "w_tree sample_world (receipt_path sample_ext sample_engine (st_id sample_stage)) = None"
    "w_tree sample_world (lock_path sample_ext sample_engine) = None"
    by code_simp+
  moreover have "file_bytes (st_files sample_stage) = {[1]}"
    by (auto simp: file_bytes_def sample_stage_def sample_create_def sample_delete_def)
  moreover have "ce_staged_blobs sample_engine = None" by code_simp
  ultimately show ?thesis
    by (simp add: state_fit_def payloads_fit_def intact_def absent_or_file_def)
qed

lemma sample_unlocked: "lock_path sample_ext sample_engine \<notin> w_locks sample_world"
  by (simp add: sample_world_def)

subsection \<open>Running it\<close>

definition sample_locked :: world where
  "sample_locked = snd (lock_root sample_ext sample_engine sample_world)"

definition sample_refused :: staged_transaction where
  "sample_refused = sample_stage\<lparr>st_files := [sample_delete\<lparr>sf_content_before := Some (Blake3 (replicate 32 1))\<rparr>]\<rparr>"

lemma is_ok_ex: "is_ok r \<Longrightarrow> \<exists>x. r = Inr x"
  by (cases r) simp_all

lemma sample_lock: "lock_root sample_ext sample_engine sample_world = (Inr (), sample_locked)"
proof -
  have "fst (lock_root sample_ext sample_engine sample_world) = Inr ()" by code_simp
  then show ?thesis by (simp add: sample_locked_def prod_eq_iff)
qed

lemma sample_admitted: "commit_admitted sample_ext sample_engine sample_stage sample_locked sample_journal"
  unfolding commit_admitted_def
proof (intro conjI)
  show "check_root sample_ext sample_engine (st_root sample_stage) (w_fs sample_locked) = Inr ()" by code_simp
  show "w_tree sample_locked (receipt_path sample_ext sample_engine (st_id sample_stage)) = None" by code_simp
  show "w_tree sample_locked (journal_path sample_ext sample_engine (st_id sample_stage)) = None" by code_simp
  show "preflight sample_ext sample_engine (w_fs sample_locked) sample_stage = Inr sample_journal" by code_simp
  show "validate_journal sample_journal = Inr ()" by code_simp
qed

lemma sample_commit_runs:
  obtains w where "commit sample_ext sample_engine sample_stage sample_world = (Inr sample_receipt, w)"
proof -
  have "fst (commit sample_ext sample_engine sample_stage sample_world) = Inr sample_receipt" by code_simp
  then show ?thesis using that by (metis prod.collapse)
qed

lemma sample_interrupted:
  obtains err w where
    "commit_with_failpoint sample_ext sample_engine sample_stage (Some (AfterOperation 0)) sample_world = (Inl err, w)"
proof -
  have "\<not> is_ok (fst (commit_with_failpoint sample_ext sample_engine sample_stage (Some (AfterOperation 0)) sample_world))"
    by code_simp
  then show ?thesis using that by (metis is_ok_simps(2) old.sum.exhaust prod.collapse)
qed

lemma sample_root_fit: "root_fit sample_ext sample_engine (st_root sample_stage)"
  by (simp add: root_fit_def sample_stage_def sample_root_def)

subsection \<open>Witnesses\<close>

theorem crash_recovery_witness:
  "\<exists>err w1 w2 w3.
     commit_with_failpoint sample_ext sample_engine sample_stage (Some (AfterOperation 0)) sample_world = (Inl err, w1) \<and>
     commit sample_ext sample_engine sample_stage sample_world = (Inr sample_receipt, w2) \<and>
     recover sample_ext sample_engine (st_id sample_stage) w1 = (Inr sample_receipt, w3) \<and> w_tree w3 = w_tree w2"
proof -
  obtain w2 where c: "commit sample_ext sample_engine sample_stage sample_world = (Inr sample_receipt, w2)"
    using sample_commit_runs .
  obtain err w1 where i:
    "commit_with_failpoint sample_ext sample_engine sample_stage (Some (AfterOperation 0)) sample_world = (Inl err, w1)"
    using sample_interrupted .
  have "journal_decodes sample_ext (stage_journal sample_ext sample_stage)" by code_simp
  from crash_recovery [OF sample_stage_fit sample_world_ok sample_state_fit sample_root_fit this sample_unlocked c i]
  show ?thesis using c i by blast
qed


theorem refused_commit_changes_nothing_witness:
  "w_fs (snd (commit_with_failpoint sample_ext sample_engine sample_refused None sample_world)) = w_fs sample_locked"
proof -
  have "\<not> is_ok (preflight sample_ext sample_engine (w_fs sample_locked) sample_refused)" by code_simp
  then obtain refusal where "preflight sample_ext sample_engine (w_fs sample_locked) sample_refused = Inl refusal"
    by (metis is_ok_simps(2) old.sum.exhaust)
  from refused_commit_changes_nothing [OF sample_lock this] show ?thesis .
qed

theorem lock_excludes_witness:
  "\<exists>err. commit_with_failpoint sample_ext sample_engine sample_stage None sample_locked =
     (Inl err, snd (open_or_create (lock_path sample_ext sample_engine) sample_locked))"
proof -
  have "lock_path sample_ext sample_engine \<in> w_locks sample_locked" by code_simp
  from lock_excludes [OF this] show ?thesis by blast
qed

theorem dry_run_never_syncs_witness:
  "device_sync_counts (snd (commit_with_failpoint sample_ext (sample_engine\<lparr>ce_durability := DryRun\<rparr>)
     sample_stage None sample_world)) = device_sync_counts sample_world"
proof -
  have "ce_durability (sample_engine\<lparr>ce_durability := DryRun\<rparr>) = DryRun" by simp
  from dry_run_never_syncs [OF this] show ?thesis by blast
qed

theorem journal_before_targets_witness:
  "\<exists>w1. prepare_commit sample_ext sample_engine sample_stage sample_world = (Inr sample_journal, w1) \<and>
     last (w_log w1) = EvSync [''s'', ''journals''] (cross_root_level sample_engine) \<and>
     w_tree w1 [''t'', ''o''] = Some (NFile [2] 0x81A4)"
proof -
  have "fst (prepare_commit sample_ext sample_engine sample_stage sample_world) = Inr sample_journal" by code_simp
  then obtain w1 where p: "prepare_commit sample_ext sample_engine sample_stage sample_world = (Inr sample_journal, w1)"
    by (metis prod.collapse)
  have d: "ce_durability sample_engine = Durable" "ce_state_root sample_engine = [''s'']" by code_simp+
  have o: "\<not> prefix [''s''] [''t'', ''o'']" "w_tree sample_world [''t'', ''o''] = Some (NFile [2] 0x81A4)" by code_simp+
  show ?thesis
    using journal_before_targets [OF sample_stage_fit sample_world_ok sample_state_fit d(1) p, unfolded d(2)] p o by auto
qed

theorem commit_idempotent_witness:
  "\<exists>w2 w3. commit sample_ext sample_engine sample_stage sample_world = (Inr sample_receipt, w2) \<and>
     commit sample_ext sample_engine sample_stage w2 = (Inr sample_receipt, w3) \<and> w_tree w3 = w_tree w2"
proof -
  obtain w2 where c: "commit sample_ext sample_engine sample_stage sample_world = (Inr sample_receipt, w2)"
    using sample_commit_runs .
  have "outputs_identified sample_ext (ce_target_root sample_engine) (st_files sample_stage)"
    by (auto simp: outputs_identified_def sample_stage_def sample_create_def sample_delete_def cid_matches_def
        sample_ext_def sample_hash_def)
  moreover have "x_dec_receipt sample_ext (x_enc_receipt sample_ext sample_receipt) = Some sample_receipt"
    by (simp add: sample_ext_def)
  ultimately show ?thesis
    using commit_idempotent [OF sample_stage_fit sample_world_ok sample_state_fit sample_unlocked sample_lock
      sample_admitted sample_root_fit _ c] c by blast
qed

end
