(* ===== verification/PlanSamples.thy ===== *)
theory PlanSamples
  imports PlanOrder Samples
begin

text \<open>
  A directory root and a Git worktree root on which the planner's properties are applied, and a
  plan of the Git root that edits one file twice.
\<close>

subsection \<open>A directory\<close>

definition dir_fs :: fs where
  "dir_fs = [([], NDir), ([''t''], NDir), ([''t'', ''m''], NFile [1] 0x81A4), ([''t'', ''o''], NFile [2] 0x81A4)]"

definition dir_root :: source_root where
  "dir_root = DirectorySource \<lparr>dr_root = [''t''], dr_identity = ''d''\<rparr>"

definition dir_source :: "string \<Rightarrow> action_source" where
  "dir_source p = SourceDirectory (FileRef ''d'' p)"

definition edit_of :: "action_source \<Rightarrow> u64 \<Rightarrow> u64 \<Rightarrow> bytes \<Rightarrow> text_edit" where
  "edit_of s a b r = \<lparr>te_range = ActionSpan s a b, te_replacement = r, te_producer = ActionProducer ''p'' None None\<rparr>"

definition dir_request :: stage_request where
  "dir_request = \<lparr>rq_schema_version = SOURCE_ACTION_SCHEMA_VERSION, rq_root = RootDirectory ''d'', rq_actions =
    [ActReplace (dir_source ''o'') (Blake3 (replicate 32 2)) [edit_of (dir_source ''o'') 1 1 [8]],
     ActCreate (PathDirectory ''n'') [7],
     ActMove (dir_source ''m'') (Blake3 (replicate 32 1)) (PathDirectory ''k''),
     ActReplace (dir_source ''o'') (Blake3 (replicate 32 2)) [edit_of (dir_source ''o'') 0 1 [9]]]\<rparr>"

definition outcome_ok :: "'a outcome \<Rightarrow> bool" where
  "outcome_ok r \<longleftrightarrow> (case r of Some (Inr a) \<Rightarrow> True | _ \<Rightarrow> False)"

lemma outcome_okD: "outcome_ok r \<Longrightarrow> \<exists>a. r = Some (Inr a)"
  by (auto simp: outcome_ok_def split: option.splits sum.splits)

lemma dir_planned:
  obtains plan where "plan_mutations sample_ext dir_fs dir_root dir_request = Some (Inr plan)"
proof -
  have "outcome_ok (plan_mutations sample_ext dir_fs dir_root dir_request)" by code_simp
  then show ?thesis using that outcome_okD by blast
qed

lemma dir_small: "fs_read dir_fs p = Inr b \<Longrightarrow> length b < 2 ^ 64"
proof -
  assume "fs_read dir_fs p = Inr b"
  then obtain q m where "bt_get dir_fs q = Some (NFile b m)"
    by (auto simp: fs_read_def stat_def rbind_eq_Ok ok_or_def split: option.splits node.splits)
  then have "b = [1] \<or> b = [2]" by (auto simp: dir_fs_def split: if_splits)
  then show ?thesis by auto
qed

subsection \<open>Witnesses\<close>

theorem plan_never_panics_witness: "plan_mutations sample_ext dir_fs dir_root dir_request \<noteq> None"
  by (rule plan_never_panics) (use dir_small in blast, simp add: sample_ext_def)

theorem plan_exact_witness:
  "\<exists>plan. plan_mutations sample_ext dir_fs dir_root dir_request = Some (Inr plan) \<and>
     planned_create sample_ext (PathDirectory ''n'', [7]) \<in> set (mp_files plan) \<and> distinct (mp_files plan)"
proof -
  obtain plan where plan: "plan_mutations sample_ext dir_fs dir_root dir_request = Some (Inr plan)" by (rule dir_planned)
  have "ActCreate (PathDirectory ''n'') [7] \<in> set (rq_actions dir_request)" by (simp add: dir_request_def)
  then show ?thesis using plan plan_exact [OF plan] by blast
qed

theorem plan_confined_witness:
  "\<exists>plan f. plan_mutations sample_ext dir_fs dir_root dir_request = Some (Inr plan) \<and> f \<in> set (mp_files plan) \<and>
     pf_path_after f = Some (PathDirectory ''n'') \<and>
     (\<exists>names. join_path (root_base dir_root) ''n'' = root_base dir_root @ names \<and> ''..'' \<notin> set names)"
proof -
  have "outcome_ok (obind (plan_mutations sample_ext dir_fs dir_root dir_request) (\<lambda>plan.
      if planned_create sample_ext (PathDirectory ''n'', [7]) \<in> set (mp_files plan) then Some (Inr plan) else None))"
    by code_simp
  then obtain plan where plan: "plan_mutations sample_ext dir_fs dir_root dir_request = Some (Inr plan)"
      and f: "planned_create sample_ext (PathDirectory ''n'', [7]) \<in> set (mp_files plan)"
    by (auto simp: outcome_ok_def obind_def split: option.splits sum.splits if_splits)
  have after: "pf_path_after (planned_create sample_ext (PathDirectory ''n'', [7])) = Some (PathDirectory ''n'')"
    by (simp add: planned_create_def)
  show ?thesis using plan f after plan_confined [OF plan f] by (metis path_text.simps(1))
qed

theorem plan_order_independent_witness:
  "plan_mutations sample_ext dir_fs dir_root (dir_request\<lparr>rq_actions := rev (rq_actions dir_request)\<rparr>) =
     plan_mutations sample_ext dir_fs dir_root dir_request"
proof -
  obtain plan where plan: "plan_mutations sample_ext dir_fs dir_root dir_request = Some (Inr plan)" by (rule dir_planned)
  then show ?thesis using plan_order_independent [OF plan] by simp
qed

theorem plan_outputs_apart_witness:
  "\<exists>plan f f'. plan_mutations sample_ext dir_fs dir_root dir_request = Some (Inr plan) \<and>
     f \<in> set (mp_files plan) \<and> f' \<in> set (mp_files plan) \<and> f \<noteq> f' \<and> pf_path_after f \<noteq> pf_path_after f'"
proof -
  have "outcome_ok (obind (plan_mutations sample_ext dir_fs dir_root dir_request) (\<lambda>plan.
      if length (mp_files plan) = 3 \<and> pf_path_after (mp_files plan ! 0) \<noteq> None \<and> distinct (mp_files plan)
      then Some (Inr plan) else None))"
    by code_simp
  then obtain plan where plan: "plan_mutations sample_ext dir_fs dir_root dir_request = Some (Inr plan)"
      and l: "length (mp_files plan) = 3" "pf_path_after (mp_files plan ! 0) \<noteq> None" "distinct (mp_files plan)"
    by (auto simp: outcome_ok_def obind_def split: option.splits sum.splits if_splits)
  let ?f = "mp_files plan ! 0" and ?f' = "mp_files plan ! 1"
  have m: "?f \<in> set (mp_files plan)" "?f' \<in> set (mp_files plan)" using l(1) by simp_all
  have "?f \<noteq> ?f'" using l(1,3) by (simp add: nth_eq_iff_index_eq)
  moreover have "\<exists>dir. dir_root = DirectorySource dir" by (simp add: dir_root_def)
  ultimately have "pf_path_after ?f \<noteq> pf_path_after ?f'"
    using l(2) plan_outputs_apart [OF plan m, THEN conjunct2] by metis
  with plan m \<open>?f \<noteq> ?f'\<close> show ?thesis by metis
qed

subsection \<open>A Git worktree\<close>

definition git_root :: source_root where
  "git_root = GitSource \<lparr>dr_root = [''t''], dr_identity = ''d''\<rparr> \<lparr>repo_root = ''/t'', repo_identity = ''r'', repo_worktree = ''w''\<rparr>"

definition git_source :: "object_id option \<Rightarrow> string \<Rightarrow> action_source" where
  "git_source head p = SourceGit (SourceRef ''r'' (RevWorktree ''w'' head False) p)"

definition git_request :: stage_request where
  "git_request = \<lparr>rq_schema_version = SOURCE_ACTION_SCHEMA_VERSION, rq_root = RootGitWorktree ''r'' ''w'', rq_actions =
    [ActReplace (git_source None ''o'') (Blake3 (replicate 32 2)) [edit_of (git_source None ''o'') 1 1 [8]],
     ActReplace (git_source (Some ''h'') ''o'') (Blake3 (replicate 32 2)) [edit_of (git_source (Some ''h'') ''o'') 0 1 [9]]]\<rparr>"

theorem stale_revision_splits_source_witness:
  "\<exists>plan f f'. plan_mutations sample_ext dir_fs git_root git_request = Some (Inr plan) \<and> {f, f'} \<subseteq> set (mp_files plan) \<and>
     f \<noteq> f' \<and> pf_path_after f = pf_path_after f'"
proof -
  have "outcome_ok (plan_mutations sample_ext dir_fs git_root git_request)" by code_simp
  then obtain plan where plan: "plan_mutations sample_ext dir_fs git_root git_request = Some (Inr plan)"
    using outcome_okD by blast
  have a: "ActReplace (SourceGit (SourceRef ''r'' (RevWorktree ''w'' None False) ''o'')) (Blake3 (replicate 32 2))
        [edit_of (git_source None ''o'') 1 1 [8]] \<in> set (rq_actions git_request)"
      "ActReplace (SourceGit (SourceRef ''r'' (RevWorktree ''w'' (Some ''h'') False) ''o'')) (Blake3 (replicate 32 2))
        [edit_of (git_source (Some ''h'') ''o'') 0 1 [9]] \<in> set (rq_actions git_request)"
    by (simp_all add: git_request_def git_source_def)
  have "\<exists>f f' b. {f, f'} \<subseteq> set (mp_files plan) \<and> f \<noteq> f' \<and> pf_kind f = KReplace \<and> pf_kind f' = KReplace \<and>
    pf_path_after f = Some (PathGit ''o'') \<and> pf_path_after f' = Some (PathGit ''o'') \<and>
    pf_bytes_before f = Some b \<and> pf_bytes_before f' = Some b"
    by (rule stale_revision_splits_source [OF plan a]) simp
  then show ?thesis using plan by metis
qed
definition odd_name :: string where "odd_name = ''content changed''"

definition odd_fs :: fs where
  "odd_fs = [([], NDir), ([''t''], NDir), ([''t'', odd_name], NFile [2] 0x8000)]"

definition odd_request :: stage_request where
  "odd_request = \<lparr>rq_schema_version = SOURCE_ACTION_SCHEMA_VERSION, rq_root = RootGitWorktree ''r'' ''w'', rq_actions =
    [ActReplace (git_source None odd_name) (Blake3 (replicate 32 2)) [edit_of (git_source None odd_name) 0 1 [9]]]\<rparr>"

theorem unreadable_source_panics_witness:
  "plan_mutations (sample_ext\<lparr>x_open_fails := (\<lambda>p. p = [''t'', odd_name])\<rparr>) odd_fs git_root odd_request = None"
  unfolding git_root_def
proof (rule unreadable_source_panics)
  show "rq_actions odd_request = [ActReplace (SourceGit (SourceRef ''r'' (RevWorktree ''w'' None False) odd_name))
      (Blake3 (replicate 32 2)) [edit_of (git_source None odd_name) 0 1 [9]]]"
    by (simp add: odd_request_def git_source_def)
  show "invalid_paths odd_request = []" "validate_shape odd_request = Inr ()" by code_simp+
  show "lstat odd_fs [''t'', odd_name] = Inr (NFile [2] 0x8000)" by code_simp
  have "show_path [''t'', odd_name] = ''/t/'' @ odd_name" by code_simp
  then show "sublist ''content changed'' (show_path [''t'', odd_name])" by (simp add: odd_name_def sublist_Cons_right)
  show "[''t'', odd_name] = join_path (join_path [] (repo_root \<lparr>repo_root = ''/t'', repo_identity = ''r'', repo_worktree = ''w''\<rparr>))
      (sr_path (SourceRef ''r'' (RevWorktree ''w'' None False) odd_name))" by code_simp
qed (simp_all add: odd_request_def)

end
