(* ===== verification/Spans.thy ===== *)
theory Spans
  imports Readers
begin

text \<open>
  Spans of a source, \<open>soopy/src/_7a_spans.rs\<close> with its records of \<open>_0_types.rs\<close>: the bytes and the
  line positions of many spans, read in one batch in which every source is read once, and the
  slice of a span.

  A \<open>usize\<close> has 64 bits, so the conversions between \<open>usize\<close> and \<open>u64\<close> succeed on every buffer
  that fits in memory; the allocation of an index is taken to succeed. \<open>partition_point\<close> is
  the length of the longest prefix that satisfies the predicate, what its binary search
  returns on the ascending starts.
\<close>

record span_text_request =
  str_span :: source_span
  str_expected :: "content_id option"

record span_text =
  stx_span :: source_span
  stx_content :: content_id
  stx_bytes :: bytes

record byte_position =
  bp_line :: u64
  bp_byte_column :: u64

record span_position_request =
  spr_span :: source_span
  spr_expected :: "content_id option"
  spr_budget :: u64

record span_position =
  spo_span :: source_span
  spo_content :: content_id
  spo_start :: byte_position
  spo_end :: byte_position

subsection \<open>The newline index\<close>

record newline_storage =
  nst_line_starts :: nat
  nst_bytes :: u64

definition newlines :: "bytes \<Rightarrow> nat" where
  "newlines b = length (filter (\<lambda>x. x = 10) b)"

definition index_storage :: "bytes \<Rightarrow> string + newline_storage" where
  "index_storage b =
     rbind (ok_or ''newline count exceeds usize'' (if newlines b + 1 < 2 ^ 64 then Some (newlines b + 1) else None)) (\<lambda>starts.
     rbind (ok_or ''newline index storage exceeds usize'' (if starts * 8 < 2 ^ 64 then Some (starts * 8) else None)) (\<lambda>size.
     Inr \<lparr>nst_line_starts = starts, nst_bytes = word_of_nat size\<rparr>))"

definition check_budget :: "newline_storage \<Rightarrow> u64 \<Rightarrow> string + unit" where
  "check_budget storage budget =
     (if nst_bytes storage > budget
      then Inl (''newline index needs '' @ show_nat (unat (nst_bytes storage)) @ '' bytes for '' @
        show_nat (nst_line_starts storage) @ '' line starts, exceeding budget '' @ show_nat (unat budget))
      else Inr ())"

definition build_index :: "bytes \<Rightarrow> nat list" where
  "build_index b = 0 # concat (map (\<lambda>(offset, x). if x = 10 then [offset + 1] else []) (enumerate 0 b))"

definition partition_point :: "('a \<Rightarrow> bool) \<Rightarrow> 'a list \<Rightarrow> nat" where
  "partition_point P xs = length (takeWhile P xs)"

definition index_position :: "nat list \<Rightarrow> nat \<Rightarrow> string + byte_position" where
  "index_position starts offset =
     (case partition_point (\<lambda>start. start \<le> offset) starts of
        0 \<Rightarrow> Inl ''newline index has no source start''
      | Suc line \<Rightarrow>
          (if line + 1 < 2 ^ 64
           then Inr \<lparr>bp_line = word_of_nat (line + 1), bp_byte_column = word_of_nat (offset - starts ! line)\<rparr>
           else Inl ''line index exceeds usize''))"

subsection \<open>One span\<close>

definition span_bytes :: "source_span \<Rightarrow> bytes \<Rightarrow> string + bytes" where
  "span_bytes span b =
     (let len = len64 b; path = sr_path (ss_source span)
      in if ss_start span > ss_end span
         then Inl (''span start '' @ show_nat (unat (ss_start span)) @ '' exceeds end '' @
           show_nat (unat (ss_end span)) @ '' for '' @ path)
         else if ss_end span > len
         then Inl (''span end '' @ show_nat (unat (ss_end span)) @ '' exceeds source length '' @
           show_nat (unat len) @ '' for '' @ path)
         else Inr (take (unat (ss_end span) - unat (ss_start span)) (drop (unat (ss_start span)) b)))"

definition span_slice :: "source_span \<Rightarrow> u64 \<Rightarrow> u64 \<Rightarrow> string + source_span" where
  "span_slice parent relative_start relative_end =
     rbind (ok_or ''parent span start exceeds end'' (checked_sub (ss_end parent) (ss_start parent))) (\<lambda>parent_length.
     if relative_start > relative_end
     then Inl (''child span start '' @ show_nat (unat relative_start) @ '' exceeds end '' @ show_nat (unat relative_end))
     else if relative_end > parent_length
     then Inl (''child span end '' @ show_nat (unat relative_end) @ '' exceeds parent length '' @
       show_nat (unat parent_length))
     else
       rbind (ok_or ''child span start exceeds u64'' (checked_add (ss_start parent) relative_start)) (\<lambda>s.
       rbind (ok_or ''child span end exceeds u64'' (checked_add (ss_start parent) relative_end)) (\<lambda>e.
       Inr (SourceSpan (ss_source parent) s e))))"

subsection \<open>A batch\<close>

type_synonym read_key = "source_ref \<times> content_id option"

definition read_key_of :: "read_request \<Rightarrow> read_key" where
  "read_key_of r = (rr_source r, rr_expected r)"

definition dedup_step ::
  "(read_key, nat) btree \<times> read_request list \<times> nat list \<Rightarrow> read_request \<Rightarrow>
     (read_key, nat) btree \<times> read_request list \<times> nat list" where
  "dedup_step = (\<lambda>(indexes, unique, order) request.
     (case bt_get indexes (read_key_of request) of
        Some i \<Rightarrow> (indexes, unique, order @ [i])
      | None \<Rightarrow> (bt_insert (read_key_of request) (length unique) indexes, unique @ [request],
          order @ [length unique])))"

definition deduplicate_read_requests :: "read_request list \<Rightarrow> read_request list \<times> nat list" where
  "deduplicate_read_requests requests =
     (case foldl dedup_step ([], [], []) requests of (indexes, unique, order) \<Rightarrow> (unique, order))"

record span_read_batch =
  srb_unique :: "source_bytes list"
  srb_order :: "nat list"

definition list_get :: "'a list \<Rightarrow> nat \<Rightarrow> 'a option" where
  "list_get xs i = (if i < length xs then Some (xs ! i) else None)"

definition source_index :: "span_read_batch \<Rightarrow> nat \<Rightarrow> string + nat" where
  "source_index batch k = ok_or ''span request has no deduplicated read index'' (list_get (srb_order batch) k)"

definition batch_source :: "span_read_batch \<Rightarrow> nat \<Rightarrow> string + source_bytes" where
  "batch_source batch k =
     rbind (source_index batch k) (\<lambda>i.
       ok_or ''deduplicated read response is missing'' (list_get (srb_unique batch) i))"

definition read_for_spans ::
  "('x) ext_scheme \<Rightarrow> fs \<Rightarrow> repository \<Rightarrow> read_request list \<Rightarrow> string + span_read_batch" where
  "read_for_spans X fs repo requests =
     (case deduplicate_read_requests requests of (unique, order) \<Rightarrow>
        rbind (read_many X fs repo unique) (\<lambda>sources. Inr \<lparr>srb_unique = sources, srb_order = order\<rparr>))"

definition check_position_request ::
  "span_read_batch \<Rightarrow> newline_storage list \<Rightarrow> nat \<times> span_position_request \<Rightarrow> string + unit" where
  "check_position_request batch storage = (\<lambda>(k, request).
     rbind (source_index batch k) (\<lambda>i.
     rbind (batch_source batch k) (\<lambda>source.
     rbind (span_bytes (spr_span request) (sb_bytes source)) (\<lambda>_.
     rbind (ok_or ''newline storage is missing for deduplicated read'' (list_get storage i)) (\<lambda>requirement.
     check_budget requirement (spr_budget request))))))"

definition build_newline_indexes ::
  "span_read_batch \<Rightarrow> span_position_request list \<Rightarrow> string + nat list list" where
  "build_newline_indexes batch requests =
     rbind (rmap_all (\<lambda>source. index_storage (sb_bytes source)) (srb_unique batch)) (\<lambda>storage.
     rbind (rfor_each (check_position_request batch storage) (enumerate 0 requests)) (\<lambda>_.
     Inr (map (\<lambda>(source, storage). build_index (sb_bytes source)) (zip (srb_unique batch) storage))))"

definition text_read :: "span_text_request \<Rightarrow> read_request" where
  "text_read r = \<lparr>rr_source = ss_source (str_span r), rr_expected = str_expected r\<rparr>"

definition position_read :: "span_position_request \<Rightarrow> read_request" where
  "position_read r = \<lparr>rr_source = ss_source (spr_span r), rr_expected = spr_expected r\<rparr>"

definition text_answer :: "span_read_batch \<Rightarrow> nat \<times> span_text_request \<Rightarrow> string + span_text" where
  "text_answer batch = (\<lambda>(k, request).
     rbind (batch_source batch k) (\<lambda>source.
     rbind (span_bytes (str_span request) (sb_bytes source)) (\<lambda>b.
     Inr \<lparr>stx_span = str_span request, stx_content = sb_content source, stx_bytes = b\<rparr>)))"

definition span_text_many ::
  "('x) ext_scheme \<Rightarrow> fs \<Rightarrow> repository \<Rightarrow> span_text_request list \<Rightarrow> string + span_text list" where
  "span_text_many X fs repo requests =
     rbind (read_for_spans X fs repo (map text_read requests)) (\<lambda>batch.
       rmap_all (text_answer batch) (enumerate 0 requests))"

definition position_answer ::
  "span_read_batch \<Rightarrow> nat list list \<Rightarrow> nat \<times> span_position_request \<Rightarrow> string + span_position" where
  "position_answer batch indexes = (\<lambda>(k, request).
     rbind (source_index batch k) (\<lambda>i.
     rbind (batch_source batch k) (\<lambda>source.
     rbind (ok_or ''newline index is missing for deduplicated read'' (list_get indexes i)) (\<lambda>index.
     rbind (index_position index (unat (ss_start (spr_span request)))) (\<lambda>s.
     rbind (index_position index (unat (ss_end (spr_span request)))) (\<lambda>e.
     Inr \<lparr>spo_span = spr_span request, spo_content = sb_content source, spo_start = s, spo_end = e\<rparr>))))))"

definition span_position_many ::
  "('x) ext_scheme \<Rightarrow> fs \<Rightarrow> repository \<Rightarrow> span_position_request list \<Rightarrow> string + span_position list" where
  "span_position_many X fs repo requests =
     rbind (read_for_spans X fs repo (map position_read requests)) (\<lambda>batch.
     rbind (build_newline_indexes batch requests) (\<lambda>indexes.
       rmap_all (position_answer batch indexes) (enumerate 0 requests)))"

end
