(* ===== verification/SpanProofs.thy ===== *)
theory SpanProofs
  imports Spans
begin

text \<open>
  Reading spans in a batch is reading them one by one: every source is read once, every answer
  goes back to its request, and the newline index gives the line and the byte column that
  counting newlines in the prefix gives.
\<close>

subsection \<open>The newline index\<close>

lemma newlines_append [simp]: "newlines (xs @ ys) = newlines xs + newlines ys"
  by (simp add: newlines_def)

lemma build_index_Nil [simp]: "build_index [] = [0]"
  by (simp add: build_index_def)

lemma build_index_snoc: "build_index (b @ [x]) = build_index b @ (if x = 10 then [length b + 1] else [])"
  by (simp add: build_index_def enumerate_append_eq)

lemma build_index_length: "length (build_index b) = newlines b + 1"
  by (induction b rule: rev_induct) (auto simp: build_index_snoc newlines_def)

lemma build_index_nonempty [simp]: "build_index b \<noteq> []"
  by (simp add: build_index_def)

lemma build_index_bounded: "s \<in> set (build_index b) \<Longrightarrow> s \<le> length b"
  by (induction b rule: rev_induct) (auto simp: build_index_snoc split: if_splits)

lemma build_index_append: "\<exists>ts. build_index (a @ b) = build_index a @ ts \<and> (\<forall>t \<in> set ts. length a < t)"
proof (induction b rule: rev_induct)
  case (snoc x b)
  then obtain ts where "build_index (a @ b) = build_index a @ ts" "\<forall>t \<in> set ts. length a < t" by blast
  then have "build_index (a @ b @ [x]) = build_index a @ ts @ (if x = 10 then [length (a @ b) + 1] else [])"
    "\<forall>t \<in> set (ts @ (if x = 10 then [length (a @ b) + 1] else [])). length a < t"
    using build_index_snoc [of "a @ b" x] by auto
  then show ?case by blast
qed simp

lemma build_index_prefix:
  assumes "offset \<le> length b"
  shows "takeWhile (\<lambda>s. s \<le> offset) (build_index b) = build_index (take offset b)"
proof -
  obtain ts where "build_index (take offset b @ drop offset b) = build_index (take offset b) @ ts"
      "\<forall>t \<in> set ts. length (take offset b) < t"
    using build_index_append by blast
  then have ts: "build_index b = build_index (take offset b) @ ts" "\<forall>t \<in> set ts. offset < t"
    using assms by (simp_all add: min_absorb2)
  have "takeWhile (\<lambda>s. s \<le> offset) (build_index b) =
      build_index (take offset b) @ takeWhile (\<lambda>s. s \<le> offset) ts"
    unfolding ts(1) by (rule takeWhile_append2) (use assms build_index_bounded in force)
  then show ?thesis using ts(2) by (cases ts) auto
qed

text \<open>The bytes since the last newline.\<close>

definition column :: "bytes \<Rightarrow> nat" where
  "column b = length (takeWhile (\<lambda>x. x \<noteq> 10) (rev b))"

lemma column_le: "column b \<le> length b"
  using length_takeWhile_le [of "\<lambda>x. x \<noteq> 10" "rev b"] by (simp add: column_def)

lemma last_build_index: "last (build_index b) + column b = length b"
  by (induction b rule: rev_induct) (auto simp: build_index_snoc column_def)

text \<open>The position of an offset, counted: lines from one, bytes from the last newline.\<close>

definition position_at :: "bytes \<Rightarrow> nat \<Rightarrow> byte_position" where
  "position_at b offset =
     \<lparr>bp_line = word_of_nat (newlines (take offset b) + 1), bp_byte_column = word_of_nat (column (take offset b))\<rparr>"

lemma last_is_nth: "xs \<noteq> [] \<Longrightarrow> last xs = xs ! (length xs - 1)"
  by (rule last_conv_nth)

lemma build_index_line:
  assumes "offset \<le> length b"
  shows "build_index b ! newlines (take offset b) + column (take offset b) = offset"
proof -
  obtain ts where "build_index (take offset b @ drop offset b) = build_index (take offset b) @ ts"
    using build_index_append by blast
  then have "build_index b ! newlines (take offset b) = last (build_index (take offset b))"
    using last_is_nth [of "build_index (take offset b)"] build_index_length [of "take offset b"]
    by (simp add: nth_append)
  then show ?thesis using last_build_index [of "take offset b"] assms by simp
qed

lemma newlines_take: "newlines (take offset b) \<le> newlines b"
  by (metis append_take_drop_id le_add1 newlines_append)

lemma index_position_counted:
  assumes "offset \<le> length b" "newlines b + 1 < 2 ^ 64"
  shows "index_position (build_index b) offset = Inr (position_at b offset)"
proof -
  have p: "partition_point (\<lambda>s. s \<le> offset) (build_index b) = Suc (newlines (take offset b))"
    using assms(1) by (simp add: partition_point_def build_index_prefix build_index_length)
  have "offset - build_index b ! newlines (take offset b) = column (take offset b)"
    using build_index_line [OF assms(1)] by simp
  then show ?thesis
    using newlines_take [of offset b] assms(2) by (simp add: index_position_def p position_at_def)
qed

subsection \<open>One read per source\<close>

definition deduplicated ::
  "read_request list \<Rightarrow> (read_key, nat) btree \<times> read_request list \<times> nat list \<Rightarrow> bool" where
  "deduplicated rs = (\<lambda>(indexes, unique, order).
     (\<forall>r i. bt_get indexes (read_key_of r) = Some i \<longleftrightarrow> i < length unique \<and> unique ! i = r) \<and>
     set unique = set rs \<and> length order = length rs \<and>
     (\<forall>j < length rs. order ! j < length unique \<and> unique ! (order ! j) = rs ! j))"

lemma read_key_inject: "read_key_of r = read_key_of s \<longleftrightarrow> r = (s :: read_request)"
  by (cases r; cases s) (simp add: read_key_of_def)

lemma dedup_step_keeps:
  assumes "deduplicated rs st"
  shows "deduplicated (rs @ [r]) (dedup_step st r)"
proof -
  obtain indexes unique order where st: "st = (indexes, unique, order)" by (cases st) auto
  have ix: "bt_get indexes (read_key_of r) = Some i \<longleftrightarrow> i < length unique \<and> unique ! i = r" for r i
    using assms st by (auto simp: deduplicated_def)
  have od: "length order = length rs" "set unique = set rs"
      "\<And>j. j < length rs \<Longrightarrow> order ! j < length unique \<and> unique ! (order ! j) = rs ! j"
    using assms st by (auto simp: deduplicated_def)
  show ?thesis
  proof (cases "bt_get indexes (read_key_of r)")
    case (Some i)
    then have i: "i < length unique" "unique ! i = r" using ix by auto
    then have "r \<in> set unique" using nth_mem by blast
    have "dedup_step st r = (indexes, unique, order @ [i])" by (simp add: st Some dedup_step_def)
    moreover have "set unique = set (rs @ [r])" using \<open>r \<in> set unique\<close> od(2) by auto
    ultimately show ?thesis using od ix i by (simp add: deduplicated_def nth_append less_Suc_eq)
  next
    case None
    then have new: "i < length unique \<Longrightarrow> unique ! i \<noteq> r" for i
      using ix by (metis option.distinct(1))
    have "bt_get (bt_insert (read_key_of r) (length unique) indexes) (read_key_of q) = Some i \<longleftrightarrow>
        i < length (unique @ [r]) \<and> (unique @ [r]) ! i = q" for q i
      using ix [of q i] new [of i] by (auto simp: nth_append less_Suc_eq read_key_inject)
    then show ?thesis using st None od
      by (simp add: deduplicated_def dedup_step_def nth_append less_Suc_eq)
  qed
qed

lemma deduplicated_fold: "deduplicated rs (foldl dedup_step ([], [], []) rs)"
proof (induction rs rule: rev_induct)
  case Nil
  show ?case by (simp add: deduplicated_def)
qed (simp add: dedup_step_keeps)

lemma deduplicate_Ok:
  assumes "deduplicate_read_requests requests = (unique, order)"
  shows "set unique = set requests" "length order = length requests" "distinct unique"
    "j < length requests \<Longrightarrow> order ! j < length unique \<and> unique ! (order ! j) = requests ! j"
proof -
  obtain indexes where d: "deduplicated requests (indexes, unique, order)"
    using deduplicated_fold [of requests] assms
    by (cases "foldl dedup_step ([], [], []) requests") (auto simp: deduplicate_read_requests_def)
  then show "set unique = set requests" "length order = length requests"
      "j < length requests \<Longrightarrow> order ! j < length unique \<and> unique ! (order ! j) = requests ! j"
    by (auto simp: deduplicated_def)
  have "bt_get indexes (read_key_of (unique ! i)) = Some i" if "i < length unique" for i
    using d that by (simp add: deduplicated_def)
  then show "distinct unique" unfolding distinct_conv_nth by (metis option.inject)
qed

subsection \<open>Reading the batch\<close>

definition answer_of :: "source_bytes_ref \<Rightarrow> source_bytes" where
  "answer_of a = \<lparr>sb_source = sbr_source a, sb_content = sbr_content a, sb_bytes = sbr_bytes a\<rparr>"

definition read_one :: "('x) ext_scheme \<Rightarrow> fs \<Rightarrow> repository \<Rightarrow> read_request \<Rightarrow> string + source_bytes" where
  "read_one X fs repo r = rbind (tree_read_one X fs repo r) (\<lambda>a. Inr (answer_of a))"

lemma visit_each_collect:
  "case rmap_all (\<lambda>r. rbind (f r) (\<lambda>a. Inr (g a))) rs of
     Inr bs \<Rightarrow> visit_each f rs (\<lambda>a as. (Inr (), as @ [g a])) as = (Inr (), as @ bs)
   | Inl e \<Rightarrow> \<exists>bs. visit_each f rs (\<lambda>a as. (Inr (), as @ [g a])) as = (Inl e, bs)"
proof (induction rs arbitrary: as)
  case Nil
  show ?case by (simp add: visit_each_def)
next
  case (Cons r rs)
  show ?case
  proof (cases "f r")
    case (Inl e)
    then show ?thesis by (simp add: visit_each_def io_bind_def)
  next
    case (Inr a)
    then have "visit_each f (r # rs) (\<lambda>a as. (Inr (), as @ [g a])) as =
        visit_each f rs (\<lambda>a as. (Inr (), as @ [g a])) (as @ [g a])"
      by (simp add: visit_each_def io_bind_def)
    then show ?thesis using Cons.IH [of "as @ [g a]"] Inr by (auto split: sum.splits)
  qed
qed

lemma read_many_each: "read_many X fs repo requests = rmap_all (read_one X fs repo) requests"
proof -
  have "(\<lambda>r. rbind (tree_read_one X fs repo r) (\<lambda>a. Inr (answer_of a))) = read_one X fs repo"
    by (simp add: read_one_def fun_eq_iff)
  then show ?thesis
    unfolding read_many_def tree_read_each_def answer_of_def [symmetric]
    using visit_each_collect [where f = "tree_read_one X fs repo" and g = answer_of and rs = requests and as = "[]"]
    by (cases "rmap_all (read_one X fs repo) requests") auto
qed

lemma rmap_all_Ok_set: "(\<exists>ys. rmap_all f xs = Inr ys) \<longleftrightarrow> (\<forall>x \<in> set xs. \<exists>y. f x = Inr y)"
  by (induction xs) (auto split: sum.splits)

lemma rmap_all_image: "rmap_all f xs = Inr ys \<Longrightarrow> set ys = {y. \<exists>x \<in> set xs. f x = Inr y}"
  by (induction xs arbitrary: ys) (auto split: sum.splits)

text \<open>A batch answers request \<open>k\<close> with the read of request \<open>k\<close>, and reads succeed together.\<close>

lemma read_for_spans_Ok:
  "(\<exists>batch. read_for_spans X fs repo requests = Inr batch) \<longleftrightarrow> (\<forall>r \<in> set requests. \<exists>s. read_one X fs repo r = Inr s)"
proof -
  obtain unique order where d: "deduplicate_read_requests requests = (unique, order)" by force
  then show ?thesis
    using rmap_all_Ok_set [of "read_one X fs repo" unique] deduplicate_Ok(1) [OF d]
    by (auto simp: read_for_spans_def read_many_each rbind_eq_Ok)
qed

lemma batch_answers:
  assumes "read_for_spans X fs repo requests = Inr batch" "k < length requests"
  shows "\<exists>i s. source_index batch k = Inr i \<and> i < length (srb_unique batch) \<and> srb_unique batch ! i = s \<and>
    batch_source batch k = Inr s \<and> read_one X fs repo (requests ! k) = Inr s"
proof -
  obtain unique order where d: "deduplicate_read_requests requests = (unique, order)" by force
  obtain sources where s: "rmap_all (read_one X fs repo) unique = Inr sources"
      and b: "batch = \<lparr>srb_unique = sources, srb_order = order\<rparr>"
    using assms(1) d by (auto simp: read_for_spans_def read_many_each rbind_eq_Ok)
  have o: "order ! k < length unique" "unique ! (order ! k) = requests ! k" "k < length order"
    using deduplicate_Ok [OF d] assms(2) by auto
  then have "read_one X fs repo (requests ! k) = Inr (sources ! (order ! k))" "order ! k < length sources"
    using s by (auto simp: rmap_all_Ok)
  then show ?thesis using b o(3) by (simp add: source_index_def batch_source_def list_get_def)
qed

lemma batch_unique:
  assumes "read_for_spans X fs repo requests = Inr batch"
  shows "s \<in> set (srb_unique batch) \<longleftrightarrow> (\<exists>r \<in> set requests. read_one X fs repo r = Inr s)"
proof -
  obtain unique order where d: "deduplicate_read_requests requests = (unique, order)" by force
  obtain sources where s: "rmap_all (read_one X fs repo) unique = Inr sources"
      and b: "batch = \<lparr>srb_unique = sources, srb_order = order\<rparr>"
    using assms d by (auto simp: read_for_spans_def read_many_each rbind_eq_Ok)
  have "set sources = {s. \<exists>r \<in> set unique. read_one X fs repo r = Inr s}"
    using s by (rule rmap_all_image)
  then show ?thesis using b deduplicate_Ok(1) [OF d] by auto
qed

subsection \<open>The batch is the single reads\<close>

text \<open>Two steps over a list succeed together exactly when the composed step does, with the same
  results.\<close>

lemma rmap_all_enumerate:
  assumes "\<And>k. k < length xs \<Longrightarrow> (f (n + k, xs ! k) = Inr (ys ! k)) = (g (xs ! k) = Inr (ys ! k))"
  shows "rmap_all f (enumerate n xs) = Inr ys \<longleftrightarrow> rmap_all g xs = Inr ys"
  unfolding rmap_all_Ok using assms by (auto simp: nth_enumerate_eq)

definition span_text_one ::
  "('x) ext_scheme \<Rightarrow> fs \<Rightarrow> repository \<Rightarrow> span_text_request \<Rightarrow> string + span_text" where
  "span_text_one X fs repo request =
     rbind (read_one X fs repo (text_read request)) (\<lambda>source.
     rbind (span_bytes (str_span request) (sb_bytes source)) (\<lambda>b.
     Inr \<lparr>stx_span = str_span request, stx_content = sb_content source, stx_bytes = b\<rparr>))"

text \<open>Reading the text of many spans in one batch, every source once, gives what reading each
  span by itself gives: the batch succeeds exactly when every single read does, with the same
  texts in the order of the requests.\<close>

theorem span_text_batch:
  "span_text_many X fs repo requests = Inr texts \<longleftrightarrow> rmap_all (span_text_one X fs repo) requests = Inr texts"
proof (cases "read_for_spans X fs repo (map text_read requests)")
  case (Inl e)
  have "\<not> (\<forall>r \<in> set (map text_read requests). \<exists>s. read_one X fs repo r = Inr s)"
    using Inl read_for_spans_Ok [of X fs repo "map text_read requests"] by auto
  then have "\<not> (\<forall>r \<in> set requests. \<exists>t. span_text_one X fs repo r = Inr t)"
    by (auto simp: span_text_one_def rbind_eq_Ok)
  then show ?thesis using Inl rmap_all_Ok_set [of "span_text_one X fs repo" requests] by (auto simp: span_text_many_def)
next
  case (Inr batch)
  have "rmap_all (text_answer batch) (enumerate 0 requests) = Inr texts \<longleftrightarrow>
      rmap_all (span_text_one X fs repo) requests = Inr texts"
  proof (rule rmap_all_enumerate)
    fix k assume "k < length requests"
    then show "(text_answer batch (0 + k, requests ! k) = Inr (texts ! k)) =
        (span_text_one X fs repo (requests ! k) = Inr (texts ! k))"
      using batch_answers [OF Inr, of k] by (auto simp: text_answer_def span_text_one_def)
  qed
  then show ?thesis using Inr by (simp add: span_text_many_def)
qed

definition span_position_one ::
  "('x) ext_scheme \<Rightarrow> fs \<Rightarrow> repository \<Rightarrow> span_position_request \<Rightarrow> string + span_position" where
  "span_position_one X fs repo request =
     rbind (read_one X fs repo (position_read request)) (\<lambda>source.
     rbind (span_bytes (spr_span request) (sb_bytes source)) (\<lambda>_.
     if 8 * (newlines (sb_bytes source) + 1) \<le> unat (spr_budget request)
     then Inr \<lparr>spo_span = spr_span request, spo_content = sb_content source,
       spo_start = position_at (sb_bytes source) (unat (ss_start (spr_span request))),
       spo_end = position_at (sb_bytes source) (unat (ss_end (spr_span request)))\<rparr>
     else Inl ''over budget''))"

lemma unat_64: "unat (x :: u64) < 2 ^ 64"
  using unsigned_less [of x] by simp

lemma storage_fits:
  "(\<exists>st. index_storage b = Inr st \<and> check_budget st budget = Inr ()) \<longleftrightarrow> 8 * (newlines b + 1) \<le> unat budget"
proof (cases "(newlines b + 1) * 8 < 2 ^ 64")
  case True
  let ?size = "(newlines b + 1) * 8"
  have "index_storage b = Inr \<lparr>nst_line_starts = newlines b + 1, nst_bytes = word_of_nat ?size\<rparr>"
    using True by (simp add: index_storage_def)
  moreover have "unat (word_of_nat ?size :: u64) = ?size"
    unfolding unat_of_nat using True by (simp add: take_bit_nat_eq_self)
  ultimately show ?thesis
    by (simp add: check_budget_def word_less_nat_alt not_less mult.commute del: of_nat_mult of_nat_add)
next
  case False
  then have "\<not> 8 * (newlines b + 1) \<le> unat budget" using unat_64 [of budget] by linarith
  moreover have "\<not> is_ok (index_storage b)" using False by (simp add: index_storage_def rbind_def ok_or_def)
  ultimately show ?thesis by auto
qed

lemma span_bytes_bounds:
  assumes "span_bytes span b = Inr t" "length b < 2 ^ 64"
  shows "unat (ss_start span) \<le> unat (ss_end span) \<and> unat (ss_end span) \<le> length b"
  using assms by (auto simp: span_bytes_def Let_def not_less word_le_nat_alt unat_len64 split: if_splits)

text \<open>Where the bytes of a read come from: a file of the worktree or a blob of the object store.\<close>

lemma read_worktree_source:
  assumes "read_worktree X fs repo r = Inr (b, c)"
  shows "\<exists>p. fs_read fs p = Inr b"
proof -
  have "\<exists>p. open_and_read X fs p = Inr b"
  proof (cases "rr_expected r")
    case (Some e)
    then show ?thesis using assms by (cases e) (auto simp: read_worktree_def rbind_eq_Ok)
  qed (use assms in \<open>auto simp: read_worktree_def rbind_eq_Ok\<close>)
  then show ?thesis by (auto simp: open_and_read_def rbind_eq_Ok split: if_splits)
qed

lemma read_commit_source:
  assumes "read_commit X repo oid r = Inr (b, c)"
  shows "\<exists>spec o'. read_spec_into X repo spec = Inr (o', b)"
proof (cases "rr_expected r")
  case (Some e)
  then show ?thesis using assms by (cases e) (auto simp: read_commit_def rbind_eq_Ok Let_def split: if_splits)
qed (use assms in \<open>auto simp: read_commit_def rbind_eq_Ok Let_def\<close>)

lemma read_spec_source: "read_spec_into X r spec = Inr (oid, b) \<Longrightarrow> \<exists>n. b = take n (snd (x_cat_file X r spec))"
  by (auto simp: read_spec_into_def rbind_eq_Ok Let_def split: prod.splits if_splits)

lemma read_one_source:
  assumes "read_one X fs repo request = Inr s"
  shows "(\<exists>p. fs_read fs p = Inr (sb_bytes s)) \<or> (\<exists>r spec oid. read_spec_into X r spec = Inr (oid, sb_bytes s))"
proof -
  obtain c where r: "(case sr_revision (rr_source request) of
          RevWorktree w h d \<Rightarrow> (if w \<noteq> repo_worktree repo then Inl ''worktree read request belongs to another worktree''
            else read_worktree X fs repo request)
        | RevCommit c \<Rightarrow> read_commit X repo c request) = Inr (sb_bytes s, c)"
    using assms by (auto simp: read_one_def answer_of_def tree_read_one_def rbind_eq_Ok split: if_splits)
  show ?thesis
  proof (cases "sr_revision (rr_source request)")
    case (RevWorktree w h d)
    then have "read_worktree X fs repo request = Inr (sb_bytes s, c)" using r by (simp split: if_splits)
    then show ?thesis using read_worktree_source by blast
  next
    case (RevCommit oid)
    then have "read_commit X repo oid request = Inr (sb_bytes s, c)" using r by simp
    then show ?thesis using read_commit_source by blast
  qed
qed

lemma read_one_small:
  assumes small: "\<forall>p b. fs_read fs p = Inr b \<longrightarrow> length b < 2 ^ 64"
    and blobs: "\<forall>r spec. length (snd (x_cat_file X r spec)) < 2 ^ 64"
    and read: "read_one X fs repo request = Inr s"
  shows "length (sb_bytes s) < 2 ^ 64"
proof -
  have "length (sb_bytes s) < 2 ^ 64" if spec: "read_spec_into X r spec = Inr (oid, sb_bytes s)" for r spec oid
  proof -
    obtain n where "sb_bytes s = take n (snd (x_cat_file X r spec))" using read_spec_source [OF spec] by blast
    then have "length (sb_bytes s) \<le> length (snd (x_cat_file X r spec))" by simp
    then show ?thesis using blobs le_less_trans by blast
  qed
  then show ?thesis using read_one_source [OF read] small by blast
qed

definition position_allowed :: "span_position_request \<Rightarrow> source_bytes \<Rightarrow> bool" where
  "position_allowed request source \<longleftrightarrow> is_ok (span_bytes (spr_span request) (sb_bytes source)) \<and>
     8 * (newlines (sb_bytes source) + 1) \<le> unat (spr_budget request)"

lemma span_position_one_Ok:
  assumes "read_one X fs repo (position_read request) = Inr s"
  shows "span_position_one X fs repo request =
    (if position_allowed request s
     then Inr \<lparr>spo_span = spr_span request, spo_content = sb_content s,
       spo_start = position_at (sb_bytes s) (unat (ss_start (spr_span request))),
       spo_end = position_at (sb_bytes s) (unat (ss_end (spr_span request)))\<rparr>
     else span_position_one X fs repo request)"
    "is_ok (span_position_one X fs repo request) = position_allowed request s"
  using assms by (cases "span_bytes (spr_span request) (sb_bytes s)"; simp add: span_position_one_def position_allowed_def)+

lemma check_position_request_Ok:
  assumes "source_index batch k = Inr i" "batch_source batch k = Inr (srb_unique batch ! i)" "i < length (srb_unique batch)"
    and "rmap_all (\<lambda>source. index_storage (sb_bytes source)) (srb_unique batch) = Inr storage"
  shows "check_position_request batch storage (k, request) = Inr () \<longleftrightarrow>
    position_allowed request (srb_unique batch ! i)"
proof -
  let ?b = "sb_bytes (srb_unique batch ! i)"
  have st: "list_get storage i = Some (storage ! i)" "index_storage ?b = Inr (storage ! i)"
    using assms(3,4) by (auto simp: rmap_all_Ok list_get_def)
  have "check_budget (storage ! i) (spr_budget request) = Inr () \<longleftrightarrow> 8 * (newlines ?b + 1) \<le> unat (spr_budget request)"
    using storage_fits [of ?b "spr_budget request"] st(2) by simp
  then show ?thesis
    by (cases "span_bytes (spr_span request) ?b")
      (simp_all add: check_position_request_def position_allowed_def assms(1,2) st(1) rbind_def)
qed

lemma build_newline_indexes_Ok:
  assumes batch: "read_for_spans X fs repo (map position_read requests) = Inr batch"
  shows "build_newline_indexes batch requests = Inr indexes \<longleftrightarrow>
    (\<forall>k < length requests. \<exists>s. batch_source batch k = Inr s \<and> position_allowed (requests ! k) s) \<and>
    indexes = map (\<lambda>s. build_index (sb_bytes s)) (srb_unique batch)"
proof -
  have answer: "\<exists>i. source_index batch k = Inr i \<and> i < length (srb_unique batch) \<and>
      batch_source batch k = Inr (srb_unique batch ! i)" if "k < length requests" for k
    using batch_answers [OF batch] that by fastforce
  let ?storages = "rmap_all (\<lambda>source. index_storage (sb_bytes source)) (srb_unique batch)"
  have checks: "rfor_each (check_position_request batch storage) (enumerate 0 requests) = Inr () \<longleftrightarrow>
      (\<forall>k < length requests. \<exists>s. batch_source batch k = Inr s \<and> position_allowed (requests ! k) s)"
    if st: "?storages = Inr storage" for storage
  proof -
    have one: "check_position_request batch storage (k, requests ! k) = Inr () \<longleftrightarrow>
        (\<exists>s. batch_source batch k = Inr s \<and> position_allowed (requests ! k) s)" if "k < length requests" for k
      using answer [OF that] check_position_request_Ok [OF _ _ _ st] by auto
    show ?thesis unfolding rfor_each_Ok using one by (auto simp: in_set_enumerate_eq)
  qed
  have stored: "\<exists>storage. ?storages = Inr storage"
    if ok: "\<forall>k < length requests. \<exists>s. batch_source batch k = Inr s \<and> position_allowed (requests ! k) s"
    unfolding rmap_all_Ok_set
  proof
    fix s assume "s \<in> set (srb_unique batch)"
    then obtain k where k: "k < length requests" "read_one X fs repo (position_read (requests ! k)) = Inr s"
      using batch_unique [OF batch] by (auto simp: in_set_conv_nth)
    then have "batch_source batch k = Inr s" using batch_answers [OF batch, of k] by auto
    then have "8 * (newlines (sb_bytes s) + 1) \<le> unat (spr_budget (requests ! k))"
      using ok k(1) by (auto simp: position_allowed_def)
    then show "\<exists>y. index_storage (sb_bytes s) = Inr y" using storage_fits by blast
  qed
  show ?thesis
  proof (cases ?storages)
    case (Inl e)
    then show ?thesis using stored by (auto simp: build_newline_indexes_def)
  next
    case (Inr storage)
    then have l: "length storage = length (srb_unique batch)" by (simp add: rmap_all_Ok)
    then have z: "map (\<lambda>(s, st). build_index (sb_bytes s)) (zip (srb_unique batch) storage) =
        map (\<lambda>s. build_index (sb_bytes s)) (srb_unique batch)"
      by (intro nth_equalityI) auto
    show ?thesis
      unfolding build_newline_indexes_def Inr rbind_simps z using checks [OF Inr] by (auto simp: rbind_eq_Ok)
  qed
qed

text \<open>The line positions of many spans, computed with one newline index per source, are those
  that counting newlines in the prefix gives, request by request; the batch fails exactly when
  a read fails, a span is out of bounds or a request's budget is below eight bytes per line of
  its source.\<close>

theorem span_position_batch:
  assumes small: "\<forall>p b. fs_read fs p = Inr b \<longrightarrow> length b < 2 ^ 64"
    and blobs: "\<forall>r spec. length (snd (x_cat_file X r spec)) < 2 ^ 64"
  shows "span_position_many X fs repo requests = Inr positions \<longleftrightarrow>
    rmap_all (span_position_one X fs repo) requests = Inr positions"
proof (cases "read_for_spans X fs repo (map position_read requests)")
  case (Inl e)
  have "\<not> (\<forall>r \<in> set (map position_read requests). \<exists>s. read_one X fs repo r = Inr s)"
    using Inl read_for_spans_Ok [of X fs repo "map position_read requests"] by auto
  then have "\<not> (\<forall>r \<in> set requests. \<exists>t. span_position_one X fs repo r = Inr t)"
    by (auto simp: span_position_one_def rbind_eq_Ok)
  then show ?thesis using Inl rmap_all_Ok_set [of "span_position_one X fs repo" requests]
    by (auto simp: span_position_many_def)
next
  case (Inr batch)
  have one: "is_ok (span_position_one X fs repo (requests ! k)) \<longleftrightarrow>
      (\<exists>s. batch_source batch k = Inr s \<and> position_allowed (requests ! k) s)" if "k < length requests" for k
  proof -
    obtain s where "batch_source batch k = Inr s" "read_one X fs repo (position_read (requests ! k)) = Inr s"
      using batch_answers [OF Inr, of k] \<open>k < length requests\<close> by auto
    then show ?thesis using span_position_one_Ok(2) by (metis sum.inject(2))
  qed
  show ?thesis
  proof (cases "build_newline_indexes batch requests")
    case (Inl e)
    then have "\<not> (\<forall>k < length requests. \<exists>s. batch_source batch k = Inr s \<and> position_allowed (requests ! k) s)"
      using build_newline_indexes_Ok [OF Inr] by auto
    then have "\<not> (\<forall>r \<in> set requests. is_ok (span_position_one X fs repo r))" using one nth_mem by blast
    then have "\<not> (\<forall>r \<in> set requests. \<exists>p. span_position_one X fs repo r = Inr p)" by (metis is_ok_simps(2))
    then show ?thesis using Inl Inr rmap_all_Ok_set [of "span_position_one X fs repo" requests]
      by (auto simp: span_position_many_def)
  next
    case indexes: (Inr indexes)
    have "rmap_all (position_answer batch indexes) (enumerate 0 requests) = Inr positions \<longleftrightarrow>
        rmap_all (span_position_one X fs repo) requests = Inr positions"
    proof (rule rmap_all_enumerate)
      fix k assume k: "k < length requests"
      obtain i where i: "source_index batch k = Inr i" "i < length (srb_unique batch)"
          "batch_source batch k = Inr (srb_unique batch ! i)"
          "read_one X fs repo (position_read (requests ! k)) = Inr (srb_unique batch ! i)"
        using batch_answers [OF Inr, of k] k by auto
      let ?s = "srb_unique batch ! i" and ?r = "requests ! k"
      note built = iffD1 [OF build_newline_indexes_Ok [OF Inr] indexes]
      have ok: "position_allowed ?r ?s" using built k i(3) by auto
      have index: "list_get indexes i = Some (build_index (sb_bytes ?s))"
        using built i(2) by (simp add: list_get_def)
      have b: "unat (ss_start (spr_span ?r)) \<le> length (sb_bytes ?s)" "unat (ss_end (spr_span ?r)) \<le> length (sb_bytes ?s)"
        using ok span_bytes_bounds [OF _ read_one_small [OF small blobs i(4)], of "spr_span ?r"]
        by (auto simp: position_allowed_def is_ok_def split: sum.splits intro: le_trans)
      have n: "newlines (sb_bytes ?s) + 1 < 2 ^ 64"
        using ok unat_64 [of "spr_budget ?r"] by (simp add: position_allowed_def)
      show "(position_answer batch indexes (0 + k, ?r) = Inr (positions ! k)) =
          (span_position_one X fs repo ?r = Inr (positions ! k))"
        using ok i(1,3) span_position_one_Ok(1) [OF i(4)]
        by (simp add: position_answer_def index index_position_counted [OF b(1) n] index_position_counted [OF b(2) n])
    qed
    then show ?thesis using Inr indexes by (simp add: span_position_many_def)
  qed
qed

subsection \<open>Positions and slices\<close>

text \<open>C26 -- An index position names its offset: the start of the line plus the byte column is the
  offset that was asked for, the line counts from one the newlines before it, and no newline
  stands between the start of the line and the offset.\<close>

theorem position_roundtrip:
  assumes "offset \<le> length b" "8 * (newlines b + 1) < 2 ^ 64" "length b < 2 ^ 64"
  shows "\<exists>p. index_position (build_index b) offset = Inr p \<and>
    unat (bp_line p) = newlines (take offset b) + 1 \<and>
    build_index b ! (unat (bp_line p) - 1) + unat (bp_byte_column p) = offset \<and>
    10 \<notin> set (take (unat (bp_byte_column p)) (drop (build_index b ! (unat (bp_line p) - 1)) b))"
proof -
  let ?p = "position_at b offset" and ?line = "newlines (take offset b)" and ?col = "column (take offset b)"
  have l: "unat (bp_line ?p) = ?line + 1"
    using newlines_take [of offset b] assms(2)
    by (simp add: position_at_def unat_of_nat take_bit_nat_eq_self del: of_nat_Suc)
  have c: "unat (bp_byte_column ?p) = ?col"
    using column_le [of "take offset b"] assms(1,3)
    by (simp add: position_at_def unat_of_nat take_bit_nat_eq_self)
  have start: "build_index b ! ?line + ?col = offset" by (rule build_index_line [OF assms(1)])
  have "drop (offset - ?col) (take offset b) = rev (takeWhile (\<lambda>x. x \<noteq> 10) (rev (take offset b)))"
  proof -
    have "takeWhile (\<lambda>x. x \<noteq> 10) (rev (take offset b)) = take ?col (rev (take offset b))"
      unfolding column_def by (rule takeWhile_eq_take)
    then show ?thesis using assms(1) by (simp add: take_rev min_absorb2)
  qed
  moreover have "take ?col (drop (offset - ?col) b) = drop (offset - ?col) (take offset b)"
    using start by (simp add: drop_take)
  moreover have "10 \<notin> set (takeWhile (\<lambda>x. x \<noteq> 10) (rev (take offset b)))"
    by (auto dest: set_takeWhileD)
  ultimately have "10 \<notin> set (take ?col (drop (offset - ?col) b))" by simp
  moreover have "build_index b ! ?line = offset - ?col" using start by simp
  ultimately show ?thesis
    using index_position_counted [OF assms(1)] assms(2) l c start by auto
qed

text \<open>A child span lies in its parent: \<open>span_slice\<close> succeeds exactly on an ordered range within
  the length of a well-formed parent, so its 64-bit additions never overflow, and the bytes of
  the child are that range of the bytes of the parent.\<close>

theorem span_slice_exact:
  "(case span_slice parent a z of
      Inl e \<Rightarrow> \<not> (ss_start parent \<le> ss_end parent \<and> a \<le> z \<and> z \<le> ss_end parent - ss_start parent)
    | Inr child \<Rightarrow> ss_start parent \<le> ss_end parent \<and> a \<le> z \<and> z \<le> ss_end parent - ss_start parent \<and>
        ss_source child = ss_source parent \<and>
        unat (ss_start child) = unat (ss_start parent) + unat a \<and>
        unat (ss_end child) = unat (ss_start parent) + unat z \<and>
        (\<forall>b t. length b < 2 ^ 64 \<longrightarrow> span_bytes parent b = Inr t \<longrightarrow>
           span_bytes child b = Inr (take (unat z - unat a) (drop (unat a) t))))"
proof (cases "ss_start parent \<le> ss_end parent \<and> a \<le> z \<and> z \<le> ss_end parent - ss_start parent")
  case False
  then have "\<not> is_ok (span_slice parent a z)"
    by (auto simp: span_slice_def checked_sub_def not_le)
  then show ?thesis using False by (auto simp: is_ok_def split: sum.splits)
next
  case True
  have len: "unat (ss_end parent - ss_start parent) = unat (ss_end parent) - unat (ss_start parent)"
    using True unat_sub by blast
  have le: "unat (ss_start parent) \<le> unat (ss_end parent)" "unat a \<le> unat z"
      "unat z \<le> unat (ss_end parent) - unat (ss_start parent)"
    using True len by (auto simp: word_le_nat_alt)
  have fit: "unat (ss_start parent) + unat a < 2 ^ 64" "unat (ss_start parent) + unat z < 2 ^ 64"
    using le unat_64 [of "ss_end parent"] by linarith+
  let ?child = "SourceSpan (ss_source parent) (ss_start parent + a) (ss_start parent + z)"
  have s: "span_slice parent a z = Inr ?child"
    using True fit by (simp add: span_slice_def checked_sub_def checked_add_def not_less [symmetric])
  have u: "unat (ss_start ?child) = unat (ss_start parent) + unat a" "unat (ss_end ?child) = unat (ss_start parent) + unat z"
    using fit by (simp_all add: unat_word_ariths)
  have "span_bytes ?child b = Inr (take (unat z - unat a) (drop (unat a) t))"
    if b: "length b < 2 ^ 64" and t: "span_bytes parent b = Inr t" for b t
  proof -
    have t_def: "t = take (unat (ss_end parent) - unat (ss_start parent)) (drop (unat (ss_start parent)) b)"
      using t by (auto simp: span_bytes_def Let_def split: if_splits)
    have "unat (ss_end parent) \<le> length b" using span_bytes_bounds [OF t b] by simp
    then have "\<not> ss_start ?child > ss_end ?child" "\<not> ss_end ?child > len64 b"
      using u le unat_len64 [OF b] unfolding word_less_nat_alt by linarith+
    moreover have "take (unat z - unat a) (drop (unat a) t) =
        take (unat z - unat a) (drop (unat (ss_start parent) + unat a) b)"
      unfolding t_def using le by (simp add: drop_take min_absorb1 add.commute)
    ultimately show ?thesis using u le by (simp add: span_bytes_def Let_def)
  qed
  then show ?thesis using True s u by simp
qed

end
