(* ===== verification/SpanSamples.thy ===== *)
theory SpanSamples
  imports SpanProofs PlanSamples
begin

text \<open>A two-line file in a Git worktree, on which the properties of spans are applied.\<close>

definition lines_fs :: fs where
  "lines_fs = [([], NDir), ([''t''], NDir), ([''t'', ''x''], NFile [97, 10, 98, 99, 10] 0x81A4)]"

definition lines_repo :: repository where
  "lines_repo = \<lparr>repo_root = ''/t'', repo_identity = ''r'', repo_worktree = ''w''\<rparr>"

definition lines_span :: "u64 \<Rightarrow> u64 \<Rightarrow> source_span" where
  "lines_span a b = SourceSpan (SourceRef ''r'' (RevWorktree ''w'' None False) ''x'') a b"

definition lines_requests :: "span_position_request list" where
  "lines_requests = [\<lparr>spr_span = lines_span 3 5, spr_expected = None, spr_budget = 24\<rparr>,
     \<lparr>spr_span = lines_span 0 1, spr_expected = None, spr_budget = 24\<rparr>]"

definition lines_position :: "u64 \<Rightarrow> u64 \<Rightarrow> byte_position" where
  "lines_position l c = \<lparr>bp_line = l, bp_byte_column = c\<rparr>"

lemma lines_small: "fs_read lines_fs p = Inr b \<Longrightarrow> length b < 2 ^ 64"
proof -
  assume "fs_read lines_fs p = Inr b"
  then obtain q m where "bt_get lines_fs q = Some (NFile b m)"
    by (auto simp: fs_read_def stat_def rbind_eq_Ok ok_or_def split: option.splits node.splits)
  then have "b = [97, 10, 98, 99, 10]" by (auto simp: lines_fs_def split: if_splits)
  then show ?thesis by simp
qed

theorem span_position_batch_witness:
  "\<exists>positions. span_position_many sample_ext lines_fs lines_repo lines_requests = Inr positions \<and>
     map (\<lambda>p. (spo_start p, spo_end p)) positions =
       [(lines_position 2 1, lines_position 3 0), (lines_position 1 0, lines_position 1 1)]"
proof -
  have "is_ok (rmap_all (span_position_one sample_ext lines_fs lines_repo) lines_requests)" by code_simp
  then obtain positions where p: "rmap_all (span_position_one sample_ext lines_fs lines_repo) lines_requests = Inr positions"
    using is_ok_ex by blast
  have "rbind (rmap_all (span_position_one sample_ext lines_fs lines_repo) lines_requests)
      (\<lambda>ps. Inr (map (\<lambda>p. (spo_start p, spo_end p)) ps)) =
      Inr [(lines_position 2 1, lines_position 3 0), (lines_position 1 0, lines_position 1 1)]"
    by code_simp
  then have v: "map (\<lambda>p. (spo_start p, spo_end p)) positions =
      [(lines_position 2 1, lines_position 3 0), (lines_position 1 0, lines_position 1 1)]"
    by (simp add: p)
  have small: "\<forall>p b. fs_read lines_fs p = Inr b \<longrightarrow> length b < 2 ^ 64" using lines_small by blast
  have blobs: "\<forall>r spec. length (snd (x_cat_file sample_ext r spec)) < 2 ^ 64" by (simp add: sample_ext_def)
  have "span_position_many sample_ext lines_fs lines_repo lines_requests = Inr positions"
    by (rule iffD2 [OF span_position_batch [OF small blobs] p])
  then show ?thesis by (intro exI [of _ positions] conjI v)
qed

theorem position_roundtrip_witness:
  "\<exists>p. index_position (build_index [97, 10, 98, 99, 10]) 3 = Inr p \<and> unat (bp_line p) = 2 \<and>
     build_index [97, 10, 98, 99, 10] ! (unat (bp_line p) - 1) + unat (bp_byte_column p) = 3"
proof -
  let ?b = "[97, 10, 98, 99, 10] :: bytes"
  have n: "newlines (take 3 ?b) = 1" "newlines ?b = 2" by (simp_all add: newlines_def)
  have "3 \<le> length ?b" "8 * (newlines ?b + 1) < 2 ^ 64" "length ?b < 2 ^ 64" by (simp_all add: n)
  from position_roundtrip [OF this] obtain p where p: "index_position (build_index ?b) 3 = Inr p"
      "unat (bp_line p) = newlines (take 3 ?b) + 1"
      "build_index ?b ! (unat (bp_line p) - 1) + unat (bp_byte_column p) = 3"
    by (elim exE conjE)
  have "unat (bp_line p) = 2" using p(2) n(1) by simp
  then show ?thesis by (intro exI [of _ p] conjI p(1,3))
qed

theorem span_slice_exact_witness:
  "\<exists>child. span_slice (lines_span 2 5) 1 2 = Inr child \<and> span_bytes child [97, 10, 98, 99, 10] = Inr [99]"
proof -
  have s: "span_slice (lines_span 2 5) 1 2 = Inr (lines_span 3 4)"
    by (simp add: span_slice_def lines_span_def checked_sub_def checked_add_def)
  have t: "span_bytes (lines_span 2 5) [97, 10, 98, 99, 10] = Inr [98, 99, 10]" by code_simp
  have l: "length [97, 10, 98, 99, 10 :: u8] < 2 ^ 64" by simp
  have "\<forall>b t. length b < 2 ^ 64 \<longrightarrow> span_bytes (lines_span 2 5) b = Inr t \<longrightarrow>
      span_bytes (lines_span 3 4) b = Inr (take (unat (2 :: u64) - unat (1 :: u64)) (drop (unat (1 :: u64)) t))"
    using span_slice_exact [of "lines_span 2 5" 1 2, unfolded s sum.case] by (elim conjE)
  from this [rule_format, OF l t] have "span_bytes (lines_span 3 4) [97, 10, 98, 99, 10] = Inr [99]" by simp
  then show ?thesis using s by blast
qed

end
