(* ===== verification/StageSpec.thy ===== *)
theory StageSpec
  imports StageStore
begin

text \<open>
  What \<open>StageStore\<close> promises, whichever the implementation: a store is a map from stage
  identities to stages with their bytes. \<open>view\<close> builds that map from what an implementation keeps,
  bare stages and blobs apart, and the contract of the trait is the locale \<open>stage_store\<close>.
\<close>

subsection \<open>Bare stages and blobs\<close>

type_synonym stage_map = "stage_id \<Rightarrow> staged_transaction option"
type_synonym blob_map = "digest \<Rightarrow> bytes option"

definition attach :: "blob_map \<Rightarrow> staged_file \<Rightarrow> staged_file" where
  "attach blobs f = (case sf_staged_bytes f of None \<Rightarrow> f | Some d \<Rightarrow> f\<lparr>sf_bytes_after := blobs d\<rparr>)"

definition attach_all :: "blob_map \<Rightarrow> staged_transaction \<Rightarrow> staged_transaction" where
  "attach_all blobs t = t\<lparr>st_files := map (attach blobs) (st_files t)\<rparr>"

definition view :: "stage_map \<Rightarrow> blob_map \<Rightarrow> stage_map" where
  "view stages blobs = (\<lambda>i. map_option (attach_all blobs) (stages i))"

definition refers :: "staged_transaction \<Rightarrow> digest \<Rightarrow> bool" where
  "refers t d \<longleftrightarrow> (\<exists>f \<in> set (st_files t). sf_staged_bytes f = Some d)"

definition backed :: "('x) ext_scheme \<Rightarrow> stage_map \<Rightarrow> blob_map \<Rightarrow> bool" where
  "backed X stages blobs \<longleftrightarrow>
     (\<forall>i t d. stages i = Some t \<longrightarrow> refers t d \<longrightarrow> (\<exists>b. blobs d = Some b \<and> x_hash X b = d))"

definition plan_bytes :: "mutation_plan \<Rightarrow> bytes set" where
  "plan_bytes plan = {b. \<exists>f \<in> set (mp_files plan). pf_bytes_after f = Some b}"

text \<open>What a plan is stored as: the sealed stage with the planned bytes.\<close>

definition sealed :: "('x) stage_ext_scheme \<Rightarrow> mutation_plan \<Rightarrow> staged_transaction" where
  "sealed X plan = attach_all (map_of (plan_blobs X plan)) (fst (seal_plan X plan))"

lemma attach_cong: "(\<And>d. sf_staged_bytes f = Some d \<Longrightarrow> m d = n d) \<Longrightarrow> attach m f = attach n f"
  by (auto simp: attach_def split: option.splits)

lemma attach_all_cong: "(\<And>d. refers t d \<Longrightarrow> m d = n d) \<Longrightarrow> attach_all m t = attach_all n t"
proof -
  assume "\<And>d. refers t d \<Longrightarrow> m d = n d"
  then have "map (attach m) (st_files t) = map (attach n) (st_files t)"
    by (auto simp: refers_def intro!: attach_cong)
  then show ?thesis by (simp add: attach_all_def)
qed

lemma attach_all_id [simp]: "st_id (attach_all m t) = st_id t" "st_root (attach_all m t) = st_root t"
  by (simp_all add: attach_all_def)

lemma plan_blobs_mem: "(d, b) \<in> set (plan_blobs X plan) \<longleftrightarrow> b \<in> plan_bytes plan \<and> d = x_hash X b"
  by (force simp: plan_blobs_def plan_bytes_def split: option.splits)

lemma seal_plan_blobs [simp]: "snd (seal_plan X plan) = plan_blobs X plan"
  by (simp add: seal_plan_def Let_def)

lemma seal_plan_files:
  "set (st_files (fst (seal_plan X plan))) = staged_of X ` set (mp_files plan)"
proof -
  have "map fst (zip (map (staged_of X) fs) (map (preview_of X) fs)) = map (staged_of X) fs" for fs
    by (rule map_fst_zip) simp
  then have "fst ` set (zip (map (staged_of X) fs) (map (preview_of X) fs)) = staged_of X ` set fs" for fs
    by (metis list.set_map)
  then show ?thesis by (simp add: seal_plan_def Let_def)
qed

lemma seal_plan_refers:
  "refers (fst (seal_plan X plan)) d \<longleftrightarrow> (\<exists>b \<in> plan_bytes plan. d = x_hash X b)"
  unfolding refers_def seal_plan_files by (force simp: staged_of_def plan_bytes_def)

lemma seal_plan_bare: "f \<in> set (st_files (fst (seal_plan X plan))) \<Longrightarrow> sf_bytes_after f = None"
  unfolding seal_plan_files by (auto simp: staged_of_def)

lemma plan_blobs_get:
  assumes "\<forall>b \<in> plan_bytes plan. no_collision X b" "b \<in> plan_bytes plan"
  shows "map_of (plan_blobs X plan) (x_hash X b) = Some b"
proof -
  have "(x_hash X b, b) \<in> set (plan_blobs X plan)" using assms(2) by (simp add: plan_blobs_mem)
  then obtain c where c: "map_of (plan_blobs X plan) (x_hash X b) = Some c"
    by (meson weak_map_of_SomeI)
  then have "(x_hash X b, c) \<in> set (plan_blobs X plan)" by (rule map_of_SomeD)
  then have "x_hash X c = x_hash X b" by (simp add: plan_blobs_mem)
  then show ?thesis using c assms no_collisionD [of X b c] by simp
qed

lemma map_option_eq: "(\<And>x. r = Some x \<Longrightarrow> f x = g x) \<Longrightarrow> map_option f r = map_option g r"
  by (cases r) auto

text \<open>Saving: the new blobs keep every intact blob and hold the planned bytes.\<close>

definition blobs_saved :: "('x) ext_scheme \<Rightarrow> mutation_plan \<Rightarrow> blob_map \<Rightarrow> blob_map \<Rightarrow> bool" where
  "blobs_saved X plan blobs blobs' \<longleftrightarrow>
     (\<forall>d b. blobs d = Some b \<and> x_hash X b = d \<longrightarrow> blobs' d = Some b) \<and>
     (\<forall>b \<in> plan_bytes plan. blobs' (x_hash X b) = Some b)"

lemma view_save:
  assumes bk: "backed X stages blobs" and saved: "blobs_saved X plan blobs blobs'"
    and nc: "\<forall>b \<in> plan_bytes plan. no_collision X b"
  shows "backed X (stages(i \<mapsto> fst (seal_plan X plan))) blobs'"
    "view (stages(i \<mapsto> fst (seal_plan X plan))) blobs' = (view stages blobs)(i \<mapsto> sealed X plan)"
proof -
  show "backed X (stages(i \<mapsto> fst (seal_plan X plan))) blobs'"
    using bk saved by (auto simp: backed_def blobs_saved_def seal_plan_refers) (metis option.inject)
  have "attach_all blobs' (fst (seal_plan X plan)) = sealed X plan"
    unfolding sealed_def
    by (rule attach_all_cong) (use saved plan_blobs_get [OF nc] in \<open>auto simp: seal_plan_refers blobs_saved_def\<close>)
  moreover have "attach_all blobs' t = attach_all blobs t" if "stages j = Some t" for j t
    by (rule attach_all_cong) (use bk saved that in \<open>force simp: backed_def blobs_saved_def\<close>)
  ultimately show "view (stages(i \<mapsto> fst (seal_plan X plan))) blobs' = (view stages blobs)(i \<mapsto> sealed X plan)"
    by (intro ext) (auto simp: view_def intro!: map_option_eq)
qed

text \<open>Cleaning: some stages go, and blobs that no remaining stage refers to.\<close>

lemma view_clean:
  assumes "backed X stages blobs" "\<And>i t d. i \<in> keep \<Longrightarrow> stages i = Some t \<Longrightarrow> refers t d \<Longrightarrow> blobs' d = blobs d"
  shows "backed X (stages |` keep) blobs'" "view (stages |` keep) blobs' = view stages blobs |` keep"
proof -
  show "backed X (stages |` keep) blobs'"
    using assms by (auto simp: backed_def restrict_map_def split: if_splits)
  have "attach_all blobs' t = attach_all blobs t" if "i \<in> keep" "stages i = Some t" for i t
    by (rule attach_all_cong) (use assms(2) that in blast)
  then show "view (stages |` keep) blobs' = view stages blobs |` keep"
    unfolding view_def restrict_map_def by (intro ext) (auto intro!: map_option_eq)
qed

lemma view_discard: "view (stages(i := None)) blobs = (view stages blobs)(i := None)"
  by (auto simp: view_def)

lemma backed_discard: "backed X stages blobs \<Longrightarrow> backed X (stages(i := None)) blobs"
  by (auto simp: backed_def)

subsection \<open>The contract\<close>

definition cleaned :: "cleanup_policy \<Rightarrow> stage_map \<Rightarrow> stage_map" where
  "cleaned policy m = (if cp_remove_manifests policy then m |` set (cp_retain policy) else m)"

text \<open>A history of calls, and what it does to the map.\<close>

datatype store_call = CallSave mutation_plan | CallDiscard stage_id | CallCleanup cleanup_policy

fun call_effect :: "('x) stage_ext_scheme \<Rightarrow> store_call \<Rightarrow> stage_map \<Rightarrow> stage_map" where
  "call_effect X (CallSave plan) m = m(st_id (sealed X plan) \<mapsto> sealed X plan)"
| "call_effect X (CallDiscard i) m = m(i := None)"
| "call_effect X (CallCleanup policy) m = cleaned policy m"

text \<open>A plan can be stored when its digests do not collide and serde_json reads back the manifest it
  writes for it. The bytes after the edit are not part of a manifest, the encoder skips them.\<close>

definition plan_storable :: "('x) stage_ext_scheme \<Rightarrow> mutation_plan \<Rightarrow> bool" where
  "plan_storable X plan \<longleftrightarrow> (\<forall>b \<in> plan_bytes plan. no_collision X b) \<and>
     (let m = manifest_of X (fst (seal_plan X plan)) in x_dec_manifest X (x_enc_manifest X m) = Some m)"

fun call_fits :: "('x) stage_ext_scheme \<Rightarrow> store_call \<Rightarrow> bool" where
  "call_fits X (CallSave plan) \<longleftrightarrow> plan_storable X plan"
| "call_fits X (CallDiscard i) \<longleftrightarrow> length i = 32"
| "call_fits X (CallCleanup policy) \<longleftrightarrow> True"

text \<open>One call on a store given by its operations.\<close>

fun store_step ::
  "(mutation_plan \<Rightarrow> ('s, string, staged_transaction) stm) \<Rightarrow> (stage_id \<Rightarrow> ('s, string, bool) stm) \<Rightarrow>
     (cleanup_policy \<Rightarrow> ('s, string, nat) stm) \<Rightarrow> store_call \<Rightarrow> ('s, string, unit) stm" where
  "store_step save discard cleanup (CallSave plan) = io_bind (save plan) (\<lambda>_. io_ok ())"
| "store_step save discard cleanup (CallDiscard i) = io_bind (discard i) (\<lambda>_. io_ok ())"
| "store_step save discard cleanup (CallCleanup policy) = io_bind (cleanup policy) (\<lambda>_. io_ok ())"

locale stage_store =
  fixes X :: "('x) stage_ext_scheme"
    and save :: "mutation_plan \<Rightarrow> ('s, string, staged_transaction) stm"
    and load :: "stage_id \<Rightarrow> ('s, string, staged_transaction option) stm"
    and discard :: "stage_id \<Rightarrow> ('s, string, bool) stm"
    and cleanup :: "cleanup_policy \<Rightarrow> ('s, string, nat) stm"
    and invar :: "'s \<Rightarrow> bool"
    and stored :: "'s \<Rightarrow> stage_map"
  assumes load_stored: "invar s \<Longrightarrow> length i = 32 \<Longrightarrow> load i s = (Inr (stored s i), s)"
    and save_stored: "invar s \<Longrightarrow> plan_storable X plan \<Longrightarrow>
      \<exists>s'. save plan s = (Inr (fst (seal_plan X plan)), s') \<and> invar s' \<and>
        stored s' = (stored s)(st_id (sealed X plan) \<mapsto> sealed X plan)"
    and discard_stored: "invar s \<Longrightarrow> length i = 32 \<Longrightarrow>
      \<exists>s'. discard i s = (Inr (stored s i \<noteq> None), s') \<and> invar s' \<and> stored s' = (stored s)(i := None)"
    and cleanup_stored: "invar s \<Longrightarrow>
      \<exists>n s'. cleanup policy s = (Inr n, s') \<and> invar s' \<and> stored s' = cleaned policy (stored s)"
begin

abbreviation call :: "store_call \<Rightarrow> ('s, string, unit) stm" where
  "call \<equiv> store_step save discard cleanup"

lemma call_stored:
  assumes "invar s" "call_fits X c"
  shows "\<exists>s'. call c s = (Inr (), s') \<and> invar s' \<and> stored s' = call_effect X c (stored s)"
proof (cases c)
  case (CallSave plan)
  then show ?thesis using save_stored [OF assms(1), of plan] assms(2) by (auto simp: io_bind_def)
next
  case (CallDiscard i)
  then show ?thesis using discard_stored [OF assms(1), of i] assms(2) by (auto simp: io_bind_def)
next
  case (CallCleanup policy)
  then show ?thesis using cleanup_stored [OF assms(1), of policy] by (auto simp: io_bind_def)
qed

text \<open>Any history of calls that fit succeeds and leaves the map the history describes.\<close>

lemma history_stored:
  assumes "invar s" "\<forall>c \<in> set cs. call_fits X c"
  shows "\<exists>s'. io_for_each call cs s = (Inr (), s') \<and> invar s' \<and> stored s' = fold (call_effect X) cs (stored s)"
  using assms
proof (induction cs arbitrary: s)
  case (Cons c cs)
  obtain s1 where s1: "call c s = (Inr (), s1)" "invar s1" "stored s1 = call_effect X c (stored s)"
    using call_stored [of s c] Cons.prems by auto
  obtain s2 where "io_for_each call cs s1 = (Inr (), s2)" "invar s2" "stored s2 = fold (call_effect X) cs (stored s1)"
    using Cons.IH [OF s1(2)] Cons.prems by auto
  then show ?case using s1 by (simp add: io_bind_def)
qed simp

lemma load_after:
  assumes "invar s" "\<forall>c \<in> set cs. call_fits X c" "length i = 32"
  shows "\<exists>s'. io_bind (io_for_each call cs) (\<lambda>_. load i) s =
    (Inr (fold (call_effect X) cs (stored s) i), s')"
proof -
  obtain s' where "io_for_each call cs s = (Inr (), s')" "invar s'" "stored s' = fold (call_effect X) cs (stored s)"
    using history_stored [OF assms(1,2)] by blast
  then show ?thesis using load_stored [of s' i] assms(3) by (auto simp: io_bind_def)
qed

end

end
