(* ===== verification/MemStore.thy ===== *)
theory MemStore
  imports StageSpec
begin

text \<open>\<open>InMemoryStageStore\<close> keeps the contract of \<open>StageStore\<close>.\<close>

definition mem_invar :: "('x) ext_scheme \<Rightarrow> mem_store \<Rightarrow> bool" where
  "mem_invar X s \<longleftrightarrow> bt_wf (ms_stages s) \<and> bt_wf (ms_blobs s) \<and>
     (\<forall>d b. bt_get (ms_blobs s) d = Some b \<longrightarrow> x_hash X b = d) \<and>
     backed X (bt_get (ms_stages s)) (bt_get (ms_blobs s))"

definition mem_stored :: "mem_store \<Rightarrow> stage_map" where
  "mem_stored s = view (bt_get (ms_stages s)) (bt_get (ms_blobs s))"

lemma mem_new_invar: "mem_invar X mem_new" and mem_new_stored: "mem_stored mem_new = Map.empty"
  by (auto simp: mem_invar_def mem_new_def backed_def mem_stored_def view_def)

lemma mem_load_stored:
  assumes "mem_invar X s"
  shows "mem_load i s = (Inr (mem_stored s i), s)"
proof (cases "bt_get (ms_stages s) i")
  case None
  then show ?thesis by (simp add: mem_load_def mem_stored_def view_def)
next
  case (Some t)
  have "rmap_all (mem_load_file (ms_blobs s)) (st_files t) = Inr (map (attach (bt_get (ms_blobs s))) (st_files t))"
  proof (rule rmap_all_map)
    fix f assume f: "f \<in> set (st_files t)"
    have "\<exists>b. bt_get (ms_blobs s) d = Some b" if "sf_staged_bytes f = Some d" for d
      using assms Some f that by (fastforce simp: mem_invar_def backed_def refers_def)
    then show "mem_load_file (ms_blobs s) f = Inr (attach (bt_get (ms_blobs s)) f)"
      by (auto simp: mem_load_file_def attach_def split: option.split)
  qed
  then show ?thesis using Some by (simp add: mem_load_def mem_stored_def view_def attach_all_def)
qed

lemma or_insert_get:
  "bt_get (or_insert k v m) j = (if j = k \<and> bt_get m k = None then Some v else bt_get m j)"
  by (auto simp: or_insert_def split: option.split)

lemma or_insert_wf [simp]: "bt_wf m \<Longrightarrow> bt_wf (or_insert k v m)"
  by (simp add: or_insert_def split: option.split)

lemma or_inserts:
  "bt_wf m \<Longrightarrow> bt_wf (foldl (\<lambda>m (i, b). or_insert i b m) m kvs)"
  "bt_get (foldl (\<lambda>m (i, b). or_insert i b m) m kvs) d = (case bt_get m d of Some b \<Rightarrow> Some b | None \<Rightarrow> map_of kvs d)"
  by (induction kvs arbitrary: m) (auto simp: or_insert_get split: option.split)

lemma st_id_sealed: "st_id (sealed X plan) = st_id (fst (seal_plan X plan))"
  by (simp add: sealed_def)

lemma mem_save_stored:
  assumes s: "mem_invar X s" and storable: "plan_storable X plan"
  shows "\<exists>s'. mem_save X plan s = (Inr (fst (seal_plan X plan)), s') \<and> mem_invar X s' \<and>
    mem_stored s' = (mem_stored s)(st_id (sealed X plan) \<mapsto> sealed X plan)"
proof -
  have nc: "\<forall>b \<in> plan_bytes plan. no_collision X b" using storable by (simp add: plan_storable_def)
  let ?t = "fst (seal_plan X plan)"
  let ?blobs = "foldl (\<lambda>m (i, b). or_insert i b m) (ms_blobs s) (plan_blobs X plan)"
  let ?s = "\<lparr>ms_stages = bt_insert (st_id ?t) ?t (ms_stages s), ms_blobs = ?blobs\<rparr>"
  have run: "mem_save X plan s = (Inr ?t, ?s)"
    by (simp add: mem_save_def split_beta)
  have content: "\<forall>d b. bt_get ?blobs d = Some b \<longrightarrow> x_hash X b = d"
  proof (intro allI impI)
    fix d b assume "bt_get ?blobs d = Some b"
    then have "bt_get (ms_blobs s) d = Some b \<or> map_of (plan_blobs X plan) d = Some b"
      by (simp add: or_inserts split: option.splits)
    then show "x_hash X b = d"
    proof
      assume "map_of (plan_blobs X plan) d = Some b"
      then have "(d, b) \<in> set (plan_blobs X plan)" by (rule map_of_SomeD)
      then show ?thesis by (simp add: plan_blobs_mem)
    qed (use s in \<open>simp add: mem_invar_def\<close>)
  qed
  have saved: "blobs_saved X plan (bt_get (ms_blobs s)) (bt_get ?blobs)"
    unfolding blobs_saved_def
  proof (intro conjI allI impI ballI)
    fix b assume b: "b \<in> plan_bytes plan"
    obtain c where c: "bt_get ?blobs (x_hash X b) = Some c"
      using plan_blobs_get [OF nc b] by (cases "bt_get (ms_blobs s) (x_hash X b)") (simp_all add: or_inserts)
    then have "x_hash X c = x_hash X b" using content by blast
    then have "c = b" using nc b no_collisionD by blast
    then show "bt_get ?blobs (x_hash X b) = Some b" using c by simp
  qed (simp add: or_inserts)
  have bk: "backed X (bt_get (ms_stages s)) (bt_get (ms_blobs s))" using s by (simp add: mem_invar_def)
  have wf: "bt_wf (ms_blobs s)" "bt_wf (ms_stages s)" using s by (simp_all add: mem_invar_def)
  have "bt_wf ?blobs" "bt_wf (bt_insert (st_id ?t) ?t (ms_stages s))"
    by (rule or_inserts(1) [OF wf(1)]) (use wf(2) in simp)
  then have "mem_invar X ?s"
    unfolding mem_invar_def mem_store.simps bt_insert_get using view_save(1) [OF bk saved nc] content by blast
  moreover have "mem_stored ?s = (mem_stored s)(st_id (sealed X plan) \<mapsto> sealed X plan)"
    unfolding mem_stored_def mem_store.simps bt_insert_get st_id_sealed by (rule view_save(2) [OF bk saved nc])
  ultimately show ?thesis using run by blast
qed

lemma mem_discard_stored:
  assumes "mem_invar X s"
  shows "\<exists>s'. mem_discard i s = (Inr (mem_stored s i \<noteq> None), s') \<and> mem_invar X s' \<and> mem_stored s' = (mem_stored s)(i := None)"
  using assms backed_discard
  by (auto simp: mem_discard_def mem_invar_def mem_stored_def view_discard view_def)

lemma bt_removes:
  "bt_wf m \<Longrightarrow> bt_wf (foldl (\<lambda>m i. bt_remove i m) m ks)"
  "bt_get (foldl (\<lambda>m i. bt_remove i m) m ks) = bt_get m |` (- set ks)"
  by (induction ks arbitrary: m) (auto simp: restrict_map_def fun_eq_iff)

lemma bt_keys_mem: "k \<in> set (bt_keys m) \<longleftrightarrow> bt_get m k \<noteq> None"
  by (simp add: bt_keys_def map_of_eq_None_iff)

lemma restrict_removed: "m |` (- {x. (\<exists>y. m x = Some y) \<and> x \<notin> S}) = m |` S"
  by (auto simp: restrict_map_def fun_eq_iff)

lemma mem_clean_manifests_stored:
  assumes "mem_invar X s" "mem_clean_manifests policy s = (n, s')"
  shows "mem_invar X s' \<and> mem_stored s' = mem_stored s |` set (cp_retain policy)"
proof -
  let ?keep = "set (cp_retain policy)"
  have g: "bt_get (ms_stages s') = bt_get (ms_stages s) |` ?keep" and b: "ms_blobs s' = ms_blobs s"
    and w: "bt_wf (ms_stages s')"
    using assms by (auto simp: mem_clean_manifests_def Let_def bt_removes restrict_removed bt_keys_mem mem_invar_def)
  show ?thesis
    using assms(1) view_clean [of X "bt_get (ms_stages s)" "bt_get (ms_blobs s)" ?keep "bt_get (ms_blobs s)"] w
    by (simp add: mem_invar_def mem_stored_def g b)
qed

lemma mem_referenced_mem:
  "bt_wf (ms_stages s) \<Longrightarrow> bt_get (ms_stages s) i = Some t \<Longrightarrow> refers t d \<Longrightarrow> d \<in> set (mem_referenced s)"
  by (force simp: mem_referenced_def bt_values_def refers_def List.map_filter_def dest: map_of_SomeD)

lemma mem_clean_blobs_stored:
  assumes s: "mem_invar X s" and run: "mem_clean_blobs s = (n, s')"
  shows "mem_invar X s' \<and> mem_stored s' = mem_stored s"
proof -
  let ?keep = "set (mem_referenced s)"
  have g: "bt_get (ms_blobs s') = bt_get (ms_blobs s) |` ?keep" and b: "ms_stages s' = ms_stages s"
    and w: "bt_wf (ms_blobs s')"
    using s run by (auto simp: mem_clean_blobs_def Let_def bt_removes restrict_removed bt_keys_mem mem_invar_def)
  have "bt_get (ms_blobs s') d = bt_get (ms_blobs s) d"
    if "bt_get (ms_stages s) i = Some t" "refers t d" for i t d
    using mem_referenced_mem [OF _ that] s by (simp add: g mem_invar_def restrict_map_def)
  then show ?thesis
    using s view_clean [of X "bt_get (ms_stages s)" "bt_get (ms_blobs s)" UNIV "bt_get (ms_blobs s')"] w
    by (auto simp: mem_invar_def mem_stored_def g b restrict_map_def split: if_splits)
qed

lemma mem_cleanup_stored:
  assumes "mem_invar X s"
  shows "\<exists>n s'. mem_cleanup policy s = (Inr n, s') \<and> mem_invar X s' \<and> mem_stored s' = cleaned policy (mem_stored s)"
proof -
  obtain n1 s1 where 1: "(if cp_remove_manifests policy then mem_clean_manifests policy s else (0, s)) = (n1, s1)"
    by force
  obtain n2 s2 where 2: "(if cp_remove_unreferenced_blobs policy then mem_clean_blobs s1 else (0, s1)) = (n2, s2)"
    by force
  have s1: "mem_invar X s1" "mem_stored s1 = cleaned policy (mem_stored s)"
    using mem_clean_manifests_stored [OF assms, of policy n1 s1] assms 1 by (auto simp: cleaned_def split: if_splits)
  have "mem_invar X s2" "mem_stored s2 = mem_stored s1"
    using mem_clean_blobs_stored [OF s1(1), of n2 s2] s1(1) 2 by (auto split: if_splits)
  then show ?thesis using s1 1 2 by (simp add: mem_cleanup_def)
qed

interpretation mem: stage_store X "mem_save X" mem_load mem_discard mem_cleanup "mem_invar X" mem_stored
  by unfold_locales (rule mem_load_stored mem_save_stored mem_discard_stored mem_cleanup_stored; assumption)+

end
