(* ===== verification/FlatDir.thy ===== *)
theory FlatDir
  imports DurableWrite External
begin

text \<open>
  A directory that holds plain files only, as the stage store keeps its blobs and manifests:
  its content is a map from names to bytes, and publishing, removing, reading and listing act on
  that map.
\<close>

definition flat :: "world \<Rightarrow> apath \<Rightarrow> bool" where
  "flat w dir \<longleftrightarrow> world_ok w \<and> names_ok dir \<and> w_tree w dir = Some NDir \<and>
     (\<forall>n nd. w_tree w (dir @ [n]) = Some nd \<longrightarrow> plain_name n \<and> (\<exists>b m. nd = NFile b m))"

definition child :: "world \<Rightarrow> apath \<Rightarrow> string \<Rightarrow> bytes option" where
  "child w dir n = (case w_tree w (dir @ [n]) of Some (NFile b m) \<Rightarrow> Some b | _ \<Rightarrow> None)"

text \<open>Only entries of \<open>dir\<close> differ.\<close>

definition only :: "apath \<Rightarrow> world \<Rightarrow> world \<Rightarrow> bool" where
  "only dir w w' \<longleftrightarrow> world_ok w' \<and> (\<forall>p. (p = [] \<or> butlast p \<noteq> dir) \<longrightarrow> w_tree w' p = w_tree w p)"

lemma flat_names: "flat w dir \<Longrightarrow> plain_name n \<Longrightarrow> names_ok (dir @ [n])"
  by (auto simp: flat_def plain_name_def)

lemma flat_clear: "flat w dir \<Longrightarrow> clear (w_tree w) (dir @ [n])"
  by (rule parent_clear) (auto simp: flat_def world_ok_tree)

lemma child_node: "flat w dir \<Longrightarrow> child w dir n = Some b \<longleftrightarrow> (\<exists>m. w_tree w (dir @ [n]) = Some (NFile b m))"
  by (auto simp: child_def split: option.splits node.splits)

lemma child_None: "flat w dir \<Longrightarrow> child w dir n = None \<longleftrightarrow> w_tree w (dir @ [n]) = None"
  by (fastforce simp: child_def flat_def split: option.splits node.splits)

lemma child_plain:
  assumes "flat w dir" "child w dir n \<noteq> None"
  shows "plain_name n"
proof -
  obtain nd where "w_tree w (dir @ [n]) = Some nd" using assms(2) child_None [OF assms(1), of n] by auto
  then show ?thesis using assms(1) unfolding flat_def by blast
qed

lemma flat_exists:
  assumes "flat w dir" "plain_name n"
  shows "path_exists (w_fs w) (dir @ [n]) \<longleftrightarrow> child w dir n \<noteq> None"
proof -
  have "\<forall>t. w_tree w (dir @ [n]) \<noteq> Some (NSymlink t)" using assms(1) by (force simp: flat_def)
  then show ?thesis
    using assms flat_names flat_clear child_None
    by (subst path_exists_clear) (auto simp: flat_def world_ok_tree)
qed

lemma flat_read:
  assumes "flat w dir" "child w dir n = Some b"
  shows "fs_read (w_fs w) (dir @ [n]) = Inr b"
proof -
  obtain m where m: "w_tree w (dir @ [n]) = Some (NFile b m)" using assms child_node by blast
  have "plain_name n" using assms child_plain by blast
  then show ?thesis using fs_read_file [OF _ flat_names m] assms(1) by (auto simp: flat_def world_ok_tree)
qed

lemma only_refl: "world_ok w \<Longrightarrow> only dir w w"
  by (simp add: only_def)

lemma only_trans: "only dir w w1 \<Longrightarrow> only dir w1 w2 \<Longrightarrow> only dir w w2"
  by (simp add: only_def)

lemma only_other:
  assumes "only dir w w'" "flat w dir'" "dir' \<noteq> dir" "dir' \<noteq> []" "butlast dir' \<noteq> dir"
  shows "flat w' dir'" "child w' dir' = child w dir'"
  using assms by (auto simp: only_def flat_def child_def fun_eq_iff)

lemma flat_moves:
  assumes "flat w dir" "moves w w' ((w_tree w)(dir @ [n] := x))"
    and "x = None \<or> plain_name n \<and> (\<exists>b m. x = Some (NFile b m))"
  shows "flat w' dir" "only dir w w'"
    "child w' dir = (child w dir)(n := (case x of Some (NFile b m) \<Rightarrow> Some b | _ \<Rightarrow> None))"
  using assms by (auto simp: flat_def only_def child_def moves_def fun_eq_iff)

lemma flat_publish:
  assumes f: "flat w dir" and n: "plain_name n"
  shows "\<exists>w'. publish_file (dir @ [n]) b level id w = (Inr (), w') \<and> flat w' dir \<and> only dir w w' \<and>
    child w' dir = (child w dir)(n \<mapsto> b)"
proof -
  have "w_tree w (dir @ [n]) \<noteq> Some NDir" using f by (force simp: flat_def)
  then obtain w' where w': "publish_file (dir @ [n]) b level id w = (Inr (), w')"
      "moves w w' ((w_tree w)(dir @ [n] \<mapsto> NFile b (fresh_mode w)))"
    using publish_file_moves [of w "dir @ [n]" id b level] f flat_names [OF f n] by (auto simp: flat_def)
  show ?thesis using w'(1) flat_moves [OF f w'(2)] n by auto
qed

lemma flat_remove:
  assumes f: "flat w dir" and n: "child w dir n \<noteq> None"
  shows "\<exists>w'. fs_remove_file (dir @ [n]) w = (Inr (), w') \<and> flat w' dir \<and> only dir w w' \<and>
    child w' dir = (child w dir)(n := None)"
proof -
  obtain b m where "w_tree w (dir @ [n]) = Some (NFile b m)" using f n child_node by blast
  then obtain w' where w': "fs_remove_file (dir @ [n]) w = (Inr (), w')" "moves w w' ((w_tree w)(dir @ [n] := None))"
    using fs_remove_moves [of w "dir @ [n]"] f flat_names [OF f child_plain [OF f n]] by (auto simp: flat_def)
  show ?thesis using w'(1) flat_moves [OF f w'(2)] by auto
qed

lemma listed_pair: "n \<in> set (map fst es) \<Longrightarrow> \<exists>nd. (n, nd) \<in> set es"
  by auto

lemma trans_sym: "a = c \<Longrightarrow> b = c \<Longrightarrow> a = b"
  by (rule trans [OF _ sym])

lemma flat_list:
  assumes f: "flat w dir"
  shows "\<exists>es. read_dir (w_fs w) dir = Inr es \<and> distinct (map fst es) \<and> set (map fst es) = dom (child w dir) \<and>
    (\<forall>(n, nd) \<in> set es. w_tree w (dir @ [n]) = Some nd)"
proof -
  have ok: "world_ok w" "names_ok dir" "w_tree w dir = Some NDir" using f by (auto simp: flat_def)
  have "canonicalize (w_fs w) dir = Inr dir" using ok by (simp add: canonicalize_dir world_ok_tree)
  then have r: "resolve (w_fs w) dir = Inr dir" by (auto simp: canonicalize_def rbind_eq_Ok split: if_splits)
  let ?in = "filter (\<lambda>(k, n). k \<noteq> [] \<and> butlast k = dir) (w_fs w)"
  let ?es = "map (\<lambda>(k, n). (last k, n)) ?in"
  have run: "read_dir (w_fs w) dir = Inr ?es" using r ok(3) by (simp add: read_dir_def)
  have keys: "k = dir @ [last k]" if "(k, n) \<in> set ?in" for k n
    using that append_butlast_last_id [of k] by auto
  have names: "map fst ?es = map (\<lambda>x. last (fst x)) ?in" by (simp add: comp_def split_beta)
  have "distinct (map fst (w_fs w))" using bt_wf_distinct world_ok_wf ok(1) by blast
  then have "distinct (map fst ?in)" by (rule distinct_map_filter)
  moreover have "inj_on (\<lambda>x. last (fst x)) (set ?in)"
  proof (rule inj_onI)
    fix x y assume x: "x \<in> set ?in" and y: "y \<in> set ?in" and e: "last (fst x) = last (fst y)"
    have "fst x = dir @ [last (fst x)]" using x keys [of "fst x" "snd x"] unfolding prod.collapse by blast
    moreover have "fst y = dir @ [last (fst y)]" using y keys [of "fst y" "snd y"] unfolding prod.collapse by blast
    ultimately have "fst x = fst y" unfolding e by (rule trans_sym)
    moreover have "inj_on fst (set ?in)" using \<open>distinct (map fst ?in)\<close> unfolding distinct_map ..
    ultimately show "x = y" using inj_onD [of fst "set ?in" x y] x y by blast
  qed
  ultimately have d: "distinct (map fst ?es)" unfolding names by (simp add: distinct_map)
  have node: "w_tree w (dir @ [n]) = Some nd" if "(n, nd) \<in> set ?es" for n nd
  proof -
    obtain x where x: "x \<in> set ?in" "(n, nd) = (\<lambda>(k, n). (last k, n)) x"
      using \<open>(n, nd) \<in> set ?es\<close> unfolding set_map by (rule imageE)
    obtain k m where "x = (k, m)" by (rule prod.exhaust)
    then have k: "(k, nd) \<in> set ?in" "n = last k" using x by simp_all
    then have "w_tree w k = Some nd" using bt_get_mem [OF world_ok_wf [OF ok(1)], of k nd] by simp
    then show ?thesis using keys [OF k(1)] k(2) by metis
  qed
  have listed: "n \<in> set (map fst ?es)" if "w_tree w (dir @ [n]) = Some nd" for n nd
  proof -
    have "(dir @ [n], nd) \<in> set (w_fs w)" using that bt_get_mem [OF world_ok_wf [OF ok(1)]] by blast
    then have "(dir @ [n], nd) \<in> set ?in" by simp
    then show ?thesis unfolding names using image_iff by force
  qed
  have "set (map fst ?es) = dom (child w dir)"
  proof (intro equalityI subsetI)
    fix n assume "n \<in> set (map fst ?es)"
    from listed_pair [OF this] obtain nd where "(n, nd) \<in> set ?es" by (rule exE)
    then have "w_tree w (dir @ [n]) = Some nd" by (rule node)
    then show "n \<in> dom (child w dir)" using child_None [OF f, of n] by (simp add: dom_def)
  next
    fix n assume "n \<in> dom (child w dir)"
    then obtain nd where "w_tree w (dir @ [n]) = Some nd" using child_None [OF f, of n] by (auto simp: dom_def)
    then show "n \<in> set (map fst ?es)" by (rule listed)
  qed
  then show ?thesis using run d node by blast
qed

lemma flat_sync:
  assumes "flat w dir"
  shows "\<exists>w'. sync_directory dir level w = (Inr (), w') \<and> flat w' dir \<and> only dir w w' \<and> child w' dir = child w dir"
proof -
  obtain w' where "sync_directory dir level w = (Inr (), w')" "moves w w' (w_tree w)"
    using sync_directory_moves [of w dir level] assms by (auto simp: flat_def)
  then show ?thesis using assms by (auto simp: flat_def only_def child_def moves_def fun_eq_iff)
qed

end
