(* ===== verification/DiskStore.thy ===== *)
theory DiskStore
  imports FlatDir StageSpec
begin

text \<open>
  \<open>DurableStageStore\<close> keeps the contract of \<open>StageStore\<close> on the file system: manifests and blobs
  are the entries of two flat directories, named by digests.
\<close>

subsection \<open>What the store keeps\<close>

abbreviation blob_dir :: "durable_store \<Rightarrow> apath" where
  "blob_dir d \<equiv> ds_root d @ [''blobs'']"

abbreviation manifest_dir :: "durable_store \<Rightarrow> apath" where
  "manifest_dir d \<equiv> ds_root d @ [''manifests'']"

abbreviation manifest_name :: "('x) ext_scheme \<Rightarrow> stage_id \<Rightarrow> string" where
  "manifest_name X i \<equiv> x_hex X i @ ''.json''"

definition decoded :: "('x) stage_ext_scheme \<Rightarrow> stage_id \<Rightarrow> bytes \<Rightarrow> staged_transaction option" where
  "decoded X i b = (case x_dec_manifest X b of
      None \<Rightarrow> None
    | Some m \<Rightarrow>
        (if sm_schema_version m = STAGE_STORE_SCHEMA_VERSION \<and> sm_id m = i \<and> x_hash X (sm_identity m) = i \<and>
           identity_bytes X (sm_root m) (sm_files m) = sm_identity m
         then Some \<lparr>st_id = i, st_root = sm_root m, st_files = sm_files m, st_previews = sm_previews m\<rparr>
         else None))"

definition dss_blobs :: "('x) ext_scheme \<Rightarrow> durable_store \<Rightarrow> world \<Rightarrow> blob_map" where
  "dss_blobs X d w = (\<lambda>i. if length i = 32 then child w (blob_dir d) (x_hex X i) else None)"

definition dss_stages :: "('x) stage_ext_scheme \<Rightarrow> durable_store \<Rightarrow> world \<Rightarrow> stage_map" where
  "dss_stages X d w = (\<lambda>i. if length i = 32
     then Option.bind (child w (manifest_dir d) (manifest_name X i)) (decoded X i) else None)"

definition dss_stored :: "('x) stage_ext_scheme \<Rightarrow> durable_store \<Rightarrow> world \<Rightarrow> stage_map" where
  "dss_stored X d w = view (dss_stages X d w) (dss_blobs X d w)"

definition dss_base :: "('x) stage_ext_scheme \<Rightarrow> durable_store \<Rightarrow> world \<Rightarrow> bool" where
  "dss_base X d w \<longleftrightarrow> digests_ok X \<and> flat w (blob_dir d) \<and> flat w (manifest_dir d) \<and>
     (\<forall>n b. child w (manifest_dir d) n = Some b \<longrightarrow>
        (\<exists>i t. length i = 32 \<and> n = manifest_name X i \<and> decoded X i b = Some t))"

definition dss_invar :: "('x) stage_ext_scheme \<Rightarrow> durable_store \<Rightarrow> world \<Rightarrow> bool" where
  "dss_invar X d w \<longleftrightarrow> dss_base X d w \<and> backed X (dss_stages X d w) (dss_blobs X d w)"

lemma blobs_name [simp]: "plain_name ''blobs''" and manifests_name [simp]: "plain_name ''manifests''"
  by (simp_all add: plain_name_def slash_def)

lemma dss_paths:
  "dss_blobs_dir d = blob_dir d" "dss_manifests_dir d = manifest_dir d"
  by (simp_all add: dss_blobs_dir_def dss_manifests_dir_def join_plain_name)

lemma dss_blob_path_eq: "digests_ok X \<Longrightarrow> length i = 32 \<Longrightarrow> dss_blob_path X d i = blob_dir d @ [x_hex X i]"
  by (simp add: dss_blob_path_def join_plain_name plain_hex)

lemma dss_manifest_path_eq:
  "digests_ok X \<Longrightarrow> length i = 32 \<Longrightarrow> dss_manifest_path X d i = manifest_dir d @ [manifest_name X i]"
  by (simp add: dss_manifest_path_def join_plain_name plain_hex_json)

lemma blobs_apart:
  assumes "only (blob_dir d) w w'" "flat w (manifest_dir d)"
  shows "flat w' (manifest_dir d)" "child w' (manifest_dir d) = child w (manifest_dir d)"
  using only_other [OF assms] by simp_all

lemma manifests_apart:
  assumes "only (manifest_dir d) w w'" "flat w (blob_dir d)"
  shows "flat w' (blob_dir d)" "child w' (blob_dir d) = child w (blob_dir d)"
  using only_other [OF assms] by simp_all

lemma dss_stages_cong:
  assumes "child w' (manifest_dir d) = child w (manifest_dir d)"
  shows "dss_stages X d w' = dss_stages X d w"
  unfolding dss_stages_def assms ..

lemma dss_blobs_cong:
  assumes "child w' (blob_dir d) = child w (blob_dir d)"
  shows "dss_blobs X d w' = dss_blobs X d w"
  unfolding dss_blobs_def assms ..

lemma dss_base_blobs:
  assumes "dss_base X d w" "flat w' (blob_dir d)" "only (blob_dir d) w w'"
  shows "dss_base X d w'" "dss_stages X d w' = dss_stages X d w"
  using assms blobs_apart [OF assms(3)] dss_stages_cong by (auto simp: dss_base_def)

subsection \<open>Loading\<close>

lemma dss_load_file_attach:
  assumes "dss_base X d w" "\<forall>i. sf_staged_bytes f = Some i \<longrightarrow> (\<exists>b. dss_blobs X d w i = Some b \<and> x_hash X b = i)"
  shows "dss_load_file X d (w_fs w) f = Inr (attach (dss_blobs X d w) f)"
proof (cases "sf_staged_bytes f")
  case (Some i)
  then obtain b where b: "dss_blobs X d w i = Some b" "x_hash X b = i" using assms(2) by auto
  then have l: "length i = 32" and c: "child w (blob_dir d) (x_hex X i) = Some b"
    by (auto simp: dss_blobs_def split: if_splits)
  have "fs_read (w_fs w) (dss_blob_path X d i) = Inr b"
    using flat_read [OF _ c] assms(1) l by (simp add: dss_base_def dss_blob_path_eq)
  then show ?thesis using Some b by (simp add: dss_load_file_def attach_def)
qed (simp add: dss_load_file_def attach_def)

lemma dss_load_stored:
  assumes inv: "dss_invar X d w" and i: "length i = 32"
  shows "dss_load X d i w = (Inr (dss_stored X d w i), w)"
proof -
  have base: "dss_base X d w" "digests_ok X" "flat w (manifest_dir d)" using inv by (auto simp: dss_invar_def dss_base_def)
  note path = dss_manifest_path_eq [OF base(2) i, of d]
  have ex: "path_exists (w_fs w) (manifest_dir d @ [manifest_name X i]) \<longleftrightarrow>
      child w (manifest_dir d) (manifest_name X i) \<noteq> None"
    using flat_exists [OF base(3)] plain_hex_json [OF base(2) i] by simp
  show ?thesis
  proof (cases "child w (manifest_dir d) (manifest_name X i)")
    case None
    then show ?thesis
      using ex i by (simp add: dss_load_def path dss_stored_def view_def dss_stages_def)
  next
    case (Some b)
    have read: "fs_read (w_fs w) (manifest_dir d @ [manifest_name X i]) = Inr b" by (rule flat_read [OF base(3) Some])
    obtain j t where j: "length j = 32" "manifest_name X i = manifest_name X j" "decoded X j b = Some t"
      using base(1) Some unfolding dss_base_def by blast
    then have "j = i" using hex_inj [OF base(2) j(1) i] by simp
    then have t: "decoded X i b = Some t" "dss_stages X d w i = Some t" using j(3) Some i by (simp_all add: dss_stages_def)
    have "rmap_all (dss_load_file X d (w_fs w)) (st_files t) = Inr (map (attach (dss_blobs X d w)) (st_files t))"
    proof (rule rmap_all_map, rule dss_load_file_attach [OF base(1)], intro allI impI)
      fix f k assume "f \<in> set (st_files t)" "sf_staged_bytes f = Some k"
      then have "refers t k" by (auto simp: refers_def)
      then show "\<exists>b. dss_blobs X d w k = Some b \<and> x_hash X b = k" using inv t(2) by (auto simp: dss_invar_def backed_def)
    qed
    then have "Option.bind (x_dec_manifest X b) (\<lambda>m. Some (dss_load_manifest X d i (w_fs w) m)) =
        Some (Inr (Some (attach_all (dss_blobs X d w) t)))"
      using t(1) by (auto simp: decoded_def dss_load_manifest_def attach_all_def split: option.splits if_splits)
    then show ?thesis
      using ex Some read t(2) by (auto simp: dss_load_def path dss_stored_def view_def split: option.splits bind_splits)
  qed
qed

subsection \<open>Saving\<close>

lemma dss_save_blob_stored:
  assumes base: "dss_base X d w" and nc: "no_collision X b"
  shows "\<exists>p w'. dss_save_blob X d (x_hash X b, b) w = (Inr p, w') \<and> dss_base X d w' \<and>
    dss_stages X d w' = dss_stages X d w \<and> dss_blobs X d w' = (dss_blobs X d w)(x_hash X b \<mapsto> b)"
proof -
  let ?i = "x_hash X b"
  have ok: "digests_ok X" "flat w (blob_dir d)" using base by (auto simp: dss_base_def)
  have i: "length ?i = 32" by (rule digest_length [OF ok(1)])
  note path = dss_blob_path_eq [OF ok(1) i, of d]
  have plain: "plain_name (x_hex X ?i)" by (rule plain_hex [OF ok(1) i])
  obtain w' where w': "publish_file (blob_dir d @ [x_hex X ?i]) b SyncData id w = (Inr (), w')"
      "flat w' (blob_dir d)" "only (blob_dir d) w w'" "child w' (blob_dir d) = (child w (blob_dir d))(x_hex X ?i \<mapsto> b)"
    using flat_publish [OF ok(2) plain] by blast
  have blobs: "dss_blobs X d w' = (dss_blobs X d w)(?i \<mapsto> b)"
    unfolding dss_blobs_def w'(4) using i hex_inj [OF ok(1)] by (auto simp: fun_eq_iff)
  have ex: "path_exists (w_fs w) (blob_dir d @ [x_hex X ?i]) \<longleftrightarrow> child w (blob_dir d) (x_hex X ?i) \<noteq> None"
    by (rule flat_exists [OF ok(2) plain])
  show ?thesis
  proof (cases "child w (blob_dir d) (x_hex X ?i)")
    case None
    then show ?thesis using w' blobs dss_base_blobs [OF base w'(2,3)] ex
      by (auto simp: dss_save_blob_def Let_def path io_bind_def io_map_err_def io_read_def)
  next
    case (Some c)
    have "fs_read (w_fs w) (blob_dir d @ [x_hex X ?i]) = Inr c" by (rule flat_read [OF ok(2) Some])
    then have m: "blob_matches X (blob_dir d @ [x_hex X ?i]) ?i w = Inr (x_hash X c = ?i)" by (simp add: blob_matches_def)
    show ?thesis
    proof (cases "x_hash X c = ?i")
      case True
      then have "c = b" using nc no_collisionD by blast
      then have "(dss_blobs X d w)(?i \<mapsto> b) = dss_blobs X d w" using Some i by (auto simp: dss_blobs_def fun_eq_iff)
      then show ?thesis using True m ex Some base
        by (auto simp: dss_save_blob_def Let_def path io_bind_def io_read_def)
    next
      case False
      then show ?thesis using w' blobs dss_base_blobs [OF base w'(2,3)] ex Some m
        by (auto simp: dss_save_blob_def Let_def path io_bind_def io_map_err_def io_read_def)
    qed
  qed
qed

lemma dss_save_blobs_stored:
  assumes "dss_base X d w" "\<forall>(i, b) \<in> set ibs. i = x_hash X b \<and> no_collision X b"
  shows "\<exists>p w'. dss_save_blobs X d ibs p0 w = (Inr p, w') \<and> dss_base X d w' \<and>
    dss_stages X d w' = dss_stages X d w \<and>
    (\<forall>i c. dss_blobs X d w i = Some c \<and> x_hash X c = i \<longrightarrow> dss_blobs X d w' i = Some c) \<and>
    (\<forall>(i, b) \<in> set ibs. dss_blobs X d w' i = Some b)"
  using assms
proof (induction ibs arbitrary: w p0)
  case (Cons ib ibs)
  obtain i b where ib: "ib = (i, b)" by force
  then have b: "i = x_hash X b" "no_collision X b" using Cons.prems(2) by auto
  obtain p w1 where w1: "dss_save_blob X d ib w = (Inr p, w1)" "dss_base X d w1" "dss_stages X d w1 = dss_stages X d w"
      "dss_blobs X d w1 = (dss_blobs X d w)(i \<mapsto> b)"
    using dss_save_blob_stored [OF Cons.prems(1) b(2)] ib b(1) by blast
  obtain p' w' where w': "dss_save_blobs X d ibs (p0 \<or> p) w1 = (Inr p', w')" "dss_base X d w'"
      "dss_stages X d w' = dss_stages X d w1"
      "\<And>i c. dss_blobs X d w1 i = Some c \<Longrightarrow> x_hash X c = i \<Longrightarrow> dss_blobs X d w' i = Some c"
      "\<forall>(i, b) \<in> set ibs. dss_blobs X d w' i = Some b"
    using Cons.IH [OF w1(2), of "p0 \<or> p"] Cons.prems(2) by auto
  have here: "dss_blobs X d w' i = Some b" using w'(4) w1(4) b(1) by simp
  have kept: "dss_blobs X d w' j = Some c" if "dss_blobs X d w j = Some c" "x_hash X c = j" for j c
  proof (cases "j = i")
    case True
    then have "c = b" using that(2) b no_collisionD by blast
    then show ?thesis using here True by simp
  qed (use w'(4) [of j c] w1(4) that in simp)
  have "dss_save_blobs X d (ib # ibs) p0 w = (Inr p', w')" using w1(1) w'(1) by (simp add: io_bind_def)
  then show ?case using w' w1(3) here kept ib by auto
qed auto

lemma seal_plan_id: "st_id (fst (seal_plan X plan)) =
    x_hash X (identity_bytes X (st_root (fst (seal_plan X plan))) (st_files (fst (seal_plan X plan))))"
  by (simp add: seal_plan_def Let_def)

lemma decoded_manifest:
  assumes "plan_storable X plan"
  shows "decoded X (st_id (fst (seal_plan X plan))) (x_enc_manifest X (manifest_of X (fst (seal_plan X plan)))) =
    Some (fst (seal_plan X plan))"
proof -
  let ?t = "fst (seal_plan X plan)"
  have "x_dec_manifest X (x_enc_manifest X (manifest_of X ?t)) = Some (manifest_of X ?t)"
    using assms by (simp add: plan_storable_def Let_def)
  then show ?thesis using seal_plan_id [of X plan] by (simp add: decoded_def manifest_of_def)
qed

lemma dss_save_stored:
  assumes inv: "dss_invar X d w" and storable: "plan_storable X plan"
  shows "\<exists>w'. dss_save X d plan w = (Inr (fst (seal_plan X plan)), w') \<and> dss_invar X d w' \<and>
    dss_stored X d w' = (dss_stored X d w)(st_id (sealed X plan) \<mapsto> sealed X plan)"
proof -
  let ?t = "fst (seal_plan X plan)" and ?blobs = "plan_blobs X plan"
  have nc: "\<forall>b \<in> plan_bytes plan. no_collision X b" using storable by (simp add: plan_storable_def)
  have base: "dss_base X d w" and ok: "digests_ok X"
    and bk: "backed X (dss_stages X d w) (dss_blobs X d w)"
    using inv by (auto simp: dss_invar_def dss_base_def)
  have i: "length (st_id ?t) = 32" unfolding seal_plan_id by (rule digest_length [OF ok])
  have "\<forall>(i, b) \<in> set ?blobs. i = x_hash X b \<and> no_collision X b" using nc by (auto simp: plan_blobs_mem)
  from dss_save_blobs_stored [OF base this, of False] obtain p w1 where w1:
      "dss_save_blobs X d ?blobs False w = (Inr p, w1)" "dss_base X d w1" "dss_stages X d w1 = dss_stages X d w"
      "\<forall>i c. dss_blobs X d w i = Some c \<and> x_hash X c = i \<longrightarrow> dss_blobs X d w1 i = Some c"
      "\<forall>(i, b) \<in> set ?blobs. dss_blobs X d w1 i = Some b"
    by blast
  have saved: "blobs_saved X plan (dss_blobs X d w) (dss_blobs X d w1)"
    using w1(4,5) by (auto simp: blobs_saved_def plan_blobs_mem)
  have flat1: "flat w1 (blob_dir d)" using w1(2) by (simp add: dss_base_def)
  obtain w2 where w2: "(if p then io_map_err io_text (sync_directory (blob_dir d) SyncFence) else io_ok ()) w1 = (Inr (), w2)"
      "flat w2 (blob_dir d)" "only (blob_dir d) w1 w2" "child w2 (blob_dir d) = child w1 (blob_dir d)"
    using flat_sync [OF flat1, of SyncFence] flat1 only_refl [of w1]
    by (cases p) (auto simp: io_map_err_def flat_def)
  note base2 = dss_base_blobs [OF w1(2) w2(2,3)]
  have flat2: "flat w2 (manifest_dir d)" using base2(1) by (simp add: dss_base_def)
  have plain: "plain_name (manifest_name X (st_id ?t))" by (rule plain_hex_json [OF ok i])
  let ?m = "x_enc_manifest X (manifest_of X ?t)"
  obtain w3 where w3: "publish_file (manifest_dir d @ [manifest_name X (st_id ?t)]) ?m SyncData id w2 = (Inr (), w3)"
      "flat w3 (manifest_dir d)" "only (manifest_dir d) w2 w3"
      "child w3 (manifest_dir d) = (child w2 (manifest_dir d))(manifest_name X (st_id ?t) \<mapsto> ?m)"
    using flat_publish [OF flat2 plain] by blast
  obtain w4 where w4: "sync_directory (manifest_dir d) SyncFlush w3 = (Inr (), w4)"
      "flat w4 (manifest_dir d)" "only (manifest_dir d) w3 w4" "child w4 (manifest_dir d) = child w3 (manifest_dir d)"
    using flat_sync [OF w3(2)] by blast
  note only4 = only_trans [OF w3(3) w4(3)]
  have manifests: "child w4 (manifest_dir d) = (child w2 (manifest_dir d))(manifest_name X (st_id ?t) \<mapsto> ?m)"
    using w3(4) w4(4) by simp
  have blobs4: "flat w4 (blob_dir d)" "dss_blobs X d w4 = dss_blobs X d w1"
    using manifests_apart [OF only4 w2(2)] dss_blobs_cong [of w4 d w1 X] w2(4) by simp_all
  have stages4: "dss_stages X d w4 = (dss_stages X d w)(st_id ?t \<mapsto> ?t)"
    unfolding w1(3) [symmetric] base2(2) [symmetric] unfolding dss_stages_def manifests
    using i hex_inj [OF ok] decoded_manifest [OF storable] by (auto simp: fun_eq_iff)
  have "\<exists>i t. length i = 32 \<and> n = manifest_name X i \<and> decoded X i b = Some t"
    if "child w4 (manifest_dir d) n = Some b" for n b
    using that base2(1) i decoded_manifest [OF storable] unfolding manifests dss_base_def
    by (auto split: if_splits)
  then have base4: "dss_base X d w4" using ok blobs4(1) w4(2) by (simp add: dss_base_def)
  have publish: "io_map_err io_text (publish_file (manifest_dir d @ [manifest_name X (st_id ?t)]) ?m SyncData id) w2 = (Inr (), w3)"
    "io_map_err io_text (sync_directory (manifest_dir d) SyncFlush) w3 = (Inr (), w4)"
    using w3(1) w4(1) by simp_all
  have run: "dss_save X d plan w = (Inr ?t, w4)"
    unfolding dss_save_def Let_def split_beta seal_plan_blobs dss_paths dss_manifest_path_eq [OF ok i]
    unfolding io_bind_def w1(1) prod.case sum.case w2(1) publish io_ok_apply ..
  have "dss_invar X d w4"
    unfolding dss_invar_def stages4 blobs4(2) using base4 view_save(1) [OF bk saved nc] by simp
  moreover have "dss_stored X d w4 = (dss_stored X d w)(st_id (sealed X plan) \<mapsto> sealed X plan)"
    unfolding dss_stored_def stages4 blobs4(2) using view_save(2) [OF bk saved nc] by (simp add: sealed_def)
  ultimately show ?thesis using run by blast
qed

subsection \<open>Discarding\<close>

lemma dss_discard_stored:
  assumes inv: "dss_invar X d w" and i: "length i = 32"
  shows "\<exists>w'. dss_discard X d i w = (Inr (dss_stored X d w i \<noteq> None), w') \<and> dss_invar X d w' \<and>
    dss_stored X d w' = (dss_stored X d w)(i := None)"
proof -
  have base: "dss_base X d w" and ok: "digests_ok X" and fl: "flat w (manifest_dir d)" "flat w (blob_dir d)"
    and bk: "backed X (dss_stages X d w) (dss_blobs X d w)"
    using inv by (auto simp: dss_invar_def dss_base_def)
  note path = dss_manifest_path_eq [OF ok i, of d]
  let ?n = "manifest_name X i"
  have ex: "path_exists (w_fs w) (manifest_dir d @ [?n]) \<longleftrightarrow> child w (manifest_dir d) ?n \<noteq> None"
    using flat_exists [OF fl(1)] plain_hex_json [OF ok i] by simp
  have stored: "dss_stored X d w i \<noteq> None \<longleftrightarrow> child w (manifest_dir d) ?n \<noteq> None"
  proof (cases "child w (manifest_dir d) ?n")
    case (Some b)
    obtain j t where j: "length j = 32" "?n = manifest_name X j" "decoded X j b = Some t"
      using base Some unfolding dss_base_def by blast
    then have "j = i" using hex_inj [OF ok j(1) i] by simp
    then show ?thesis using j(3) Some i by (simp add: dss_stored_def view_def dss_stages_def)
  qed (use i in \<open>simp add: dss_stored_def view_def dss_stages_def\<close>)
  show ?thesis
  proof (cases "child w (manifest_dir d) ?n")
    case None
    then have "(dss_stored X d w)(i := None) = dss_stored X d w" using stored by (auto simp: fun_eq_iff)
    then show ?thesis using None ex stored inv by (simp add: dss_discard_def path)
  next
    case (Some b)
    then obtain w1 where w1: "fs_remove_file (manifest_dir d @ [?n]) w = (Inr (), w1)" "flat w1 (manifest_dir d)"
        "only (manifest_dir d) w w1" "child w1 (manifest_dir d) = (child w (manifest_dir d))(?n := None)"
      using flat_remove [OF fl(1), of ?n] by auto
    obtain w2 where w2: "sync_directory (manifest_dir d) SyncFlush w1 = (Inr (), w2)"
        "flat w2 (manifest_dir d)" "only (manifest_dir d) w1 w2" "child w2 (manifest_dir d) = child w1 (manifest_dir d)"
      using flat_sync [OF w1(2)] by blast
    note apart = manifests_apart [OF only_trans [OF w1(3) w2(3)] fl(2)]
    have blobs: "dss_blobs X d w2 = dss_blobs X d w" by (rule dss_blobs_cong [OF apart(2)])
    have manifests: "child w2 (manifest_dir d) = (child w (manifest_dir d))(?n := None)" using w1(4) w2(4) by simp
    have stages: "dss_stages X d w2 = (dss_stages X d w)(i := None)"
      unfolding dss_stages_def manifests using i hex_inj [OF ok] by (auto simp: fun_eq_iff)
    have "dss_base X d w2"
      using base apart(1) w2(2) by (auto simp: dss_base_def manifests split: if_splits)
    then have "dss_invar X d w2" using backed_discard [OF bk] by (simp add: dss_invar_def stages blobs)
    moreover have "dss_stored X d w2 = (dss_stored X d w)(i := None)"
      by (simp add: dss_stored_def stages blobs view_discard)
    moreover have "dss_discard X d i w = (Inr True, w2)"
      using ex Some w1(1) w2(1) by (simp add: dss_discard_def path io_map_err_def io_bind_def dss_paths)
    ultimately show ?thesis using stored Some by auto
  qed
qed

subsection \<open>Cleaning up\<close>

lemma sweep_flat:
  assumes "flat w dir" "distinct names" "set names \<subseteq> dom (child w dir)"
    and step: "\<And>n w. n \<in> set names \<Longrightarrow> f n w = (if P n
      then io_bind (io_map_err io_text (fs_remove_file (dir @ [n]))) (\<lambda>_. io_ok 1) else io_ok 0) w"
  shows "\<exists>m w'. sweep f names k w = (Inr m, w') \<and> flat w' dir \<and> only dir w w' \<and>
    child w' dir = child w dir |` (- {n \<in> set names. P n})"
  using assms
proof (induction names arbitrary: w k)
  case Nil
  then show ?case by (auto simp: restrict_map_def flat_def only_refl)
next
  case (Cons n names)
  show ?case
  proof (cases "P n")
    case False
    then have f: "f n w = (Inr 0, w)" using Cons.prems(4) [of n w] by simp
    obtain m w' where w': "sweep f names (k + 0) w = (Inr m, w')" "flat w' dir" "only dir w w'"
        "child w' dir = child w dir |` (- {n \<in> set names. P n})"
      using Cons.IH [of w "k + 0"] Cons.prems by auto
    have "{x \<in> set (n # names). P x} = {n \<in> set names. P n}" using False by auto
    then show ?thesis using w' by (auto simp: io_bind_def f)
  next
    case True
    have "child w dir n \<noteq> None" using Cons.prems(3) by auto
    then obtain w1 where w1: "fs_remove_file (dir @ [n]) w = (Inr (), w1)" "flat w1 dir" "only dir w w1"
        "child w1 dir = (child w dir)(n := None)"
      using flat_remove [OF Cons.prems(1)] by blast
    have f: "f n w = (Inr 1, w1)" using Cons.prems(4) [of n w] True w1(1) by (simp add: io_bind_def io_map_err_def)
    have "set names \<subseteq> dom (child w1 dir)" using Cons.prems(2,3) w1(4) by auto
    then obtain m w' where w': "sweep f names (k + 1) w1 = (Inr m, w')" "flat w' dir" "only dir w1 w'"
        "child w' dir = child w1 dir |` (- {n \<in> set names. P n})"
      using Cons.IH [OF w1(2), of "k + 1"] Cons.prems by auto
    have "child w' dir = child w dir |` (- {x \<in> set (n # names). P x})"
      using w'(4) w1(4) True by (auto simp: restrict_map_def fun_eq_iff)
    then show ?thesis using w'(1,2) only_trans [OF w1(3) w'(3)] by (auto simp: io_bind_def f)
  qed
qed

lemma rmap_all_each: "(\<exists>ys. rmap_all f xs = Inr ys) \<longleftrightarrow> (\<forall>x \<in> set xs. \<exists>y. f x = Inr y)"
  by (induction xs) (auto split: sum.splits)

lemma rmap_all_mem: "rmap_all f xs = Inr ys \<Longrightarrow> x \<in> set xs \<Longrightarrow> \<exists>y \<in> set ys. f x = Inr y"
  by (induction xs arbitrary: ys) (auto split: sum.splits)

definition swept_manifest :: "('x) ext_scheme \<Rightarrow> cleanup_policy \<Rightarrow> string \<Rightarrow> bool" where
  "swept_manifest X policy n \<longleftrightarrow>
     (\<exists>i. Option.bind (strip_suffix ''.json'' n) (x_from_hex X) = Some i \<and> i \<notin> set (cp_retain policy))"

definition swept_blob :: "('x) ext_scheme \<Rightarrow> digest btset \<Rightarrow> string \<Rightarrow> bool" where
  "swept_blob X referenced n \<longleftrightarrow> (\<exists>i. x_from_hex X n = Some i \<and> i \<notin> set referenced)"

lemma sweep_manifest_step:
  "plain_name n \<Longrightarrow> dss_sweep_manifest X d policy n w = (if swept_manifest X policy n
     then io_bind (io_map_err io_text (fs_remove_file (manifest_dir d @ [n]))) (\<lambda>_. io_ok 1) else io_ok 0) w"
  by (auto simp: dss_sweep_manifest_def swept_manifest_def stage_id_from_str_def dss_paths join_plain_name
      split: option.splits)

lemma sweep_blob_step:
  "plain_name n \<Longrightarrow> dss_sweep_blob X d referenced n w = (if swept_blob X referenced n
     then io_bind (io_map_err io_text (fs_remove_file (blob_dir d @ [n]))) (\<lambda>_. io_ok 1) else io_ok 0) w"
  by (auto simp: dss_sweep_blob_def swept_blob_def dss_paths join_plain_name split: option.splits)

lemma swept_manifest_name:
  assumes "digests_ok X" "length i = 32"
  shows "swept_manifest X policy (manifest_name X i) \<longleftrightarrow> i \<notin> set (cp_retain policy)"
proof -
  have "x_from_hex X (x_hex X i) = Some i" using assms by (simp add: digests_ok_def)
  moreover have "suffix ''.json'' (manifest_name X i)" by (rule suffixI) (rule refl)
  ultimately show ?thesis by (simp add: swept_manifest_def strip_suffix_def)
qed

lemma dir_names_flat:
  assumes "flat w dir"
  shows "\<exists>ns. dir_names dir w = Inr ns \<and> distinct ns \<and> set ns = dom (child w dir)"
proof -
  obtain es where "read_dir (w_fs w) dir = Inr es" "distinct (map fst es)" "set (map fst es) = dom (child w dir)"
    using flat_list [OF assms] by blast
  then show ?thesis by (intro exI [of _ "map fst es"]) (simp add: dir_names_def)
qed

lemma dss_clean_manifests_stored:
  assumes inv: "dss_invar X d w"
  shows "\<exists>n w'. dss_clean_manifests X d policy w = (Inr n, w') \<and> dss_invar X d w' \<and>
    dss_stored X d w' = dss_stored X d w |` set (cp_retain policy)"
proof -
  let ?dir = "manifest_dir d" and ?keep = "set (cp_retain policy)"
  have base: "dss_base X d w" and ok: "digests_ok X" and fl: "flat w ?dir" "flat w (blob_dir d)"
    and bk: "backed X (dss_stages X d w) (dss_blobs X d w)"
    using inv by (auto simp: dss_invar_def dss_base_def)
  obtain ns where ns: "dir_names ?dir w = Inr ns" "distinct ns" "set ns = dom (child w ?dir)"
    using dir_names_flat [OF fl(1)] by blast
  have plain: "plain_name n" if "n \<in> set ns" for n using child_plain [OF fl(1)] ns(3) that by auto
  obtain m w1 where w1: "sweep (dss_sweep_manifest X d policy) ns 0 w = (Inr m, w1)" "flat w1 ?dir" "only ?dir w w1"
      "child w1 ?dir = child w ?dir |` (- {n \<in> set ns. swept_manifest X policy n})"
    using sweep_flat [OF fl(1) ns(2) equalityD1 [OF ns(3)] sweep_manifest_step [OF plain, where X = X and policy = policy], where k = 0] by blast
  obtain w2 where w2: "sync_directory ?dir SyncFlush w1 = (Inr (), w2)"
      "flat w2 ?dir" "only ?dir w1 w2" "child w2 ?dir = child w1 ?dir"
    using flat_sync [OF w1(2)] by blast
  have run: "dss_clean_manifests X d policy w = (Inr m, w2)"
    using ns(1) w1(1) w2(1) by (simp add: dss_clean_manifests_def dss_paths io_bind_def io_map_err_def)
  note apart = manifests_apart [OF only_trans [OF w1(3) w2(3)] fl(2)]
  have blobs: "dss_blobs X d w2 = dss_blobs X d w" by (rule dss_blobs_cong [OF apart(2)])
  have manifests: "child w2 ?dir = child w ?dir |` (- {n \<in> set ns. swept_manifest X policy n})" using w1(4) w2(4) by simp
  have base2: "dss_base X d w2"
    using base apart(1) w2(2) by (auto simp: dss_base_def manifests restrict_map_def split: if_splits)
  have stages: "dss_stages X d w2 = dss_stages X d w |` ?keep"
  proof
    fix i
    show "dss_stages X d w2 i = (dss_stages X d w |` ?keep) i"
    proof (cases "length i = 32 \<and> child w ?dir (manifest_name X i) \<noteq> None")
      case True
      then have "manifest_name X i \<in> set ns" using ns(3) by auto
      then show ?thesis
        using True swept_manifest_name [OF ok, of i policy] by (simp add: dss_stages_def manifests restrict_map_def)
    qed (auto simp: dss_stages_def manifests restrict_map_def)
  qed
  have "dss_invar X d w2"
    unfolding dss_invar_def stages blobs using base2 view_clean(1) [OF bk, of ?keep "dss_blobs X d w"] by simp
  moreover have "dss_stored X d w2 = dss_stored X d w |` ?keep"
    unfolding dss_stored_def stages blobs using view_clean(2) [OF bk, of ?keep "dss_blobs X d w"] by simp
  ultimately show ?thesis using run by blast
qed

lemma dss_referenced_all:
  assumes base: "dss_base X d w"
  shows "\<exists>rs. dss_referenced X d w = Inr rs \<and> (\<forall>i t k. dss_stages X d w i = Some t \<longrightarrow> refers t k \<longrightarrow> k \<in> set rs)"
proof -
  let ?dir = "manifest_dir d"
  have ok: "digests_ok X" and fl: "flat w ?dir" using base by (auto simp: dss_base_def)
  obtain es where es: "read_dir (w_fs w) ?dir = Inr es" "set (map fst es) = dom (child w ?dir)"
    using flat_list [OF fl] by blast
  let ?read = "\<lambda>(name, _). rbind (map_err io_text (fs_read (w_fs w) (join_path (dss_manifests_dir d) name))) (\<lambda>b.
        rbind (ok_or ''invalid manifest'' (x_dec_manifest X b)) (\<lambda>m. Inr (List.map_filter sf_staged_bytes (sm_files m))))"
  have one: "\<exists>b m. child w ?dir n = Some b \<and> x_dec_manifest X b = Some m \<and>
      ?read (n, nd) = Inr (List.map_filter sf_staged_bytes (sm_files m))" if "(n, nd) \<in> set es" for n nd
  proof -
    have "n \<in> set (map fst es)" using that by force
    then have "n \<in> dom (child w ?dir)" using es(2) by simp
    then obtain b where b: "child w ?dir n = Some b" by blast
    then obtain i t where "decoded X i b = Some t" using base unfolding dss_base_def by blast
    then obtain m where m: "x_dec_manifest X b = Some m" by (auto simp: decoded_def split: option.splits)
    have "plain_name n" using child_plain [OF fl] b by simp
    then have "fs_read (w_fs w) (join_path (dss_manifests_dir d) n) = Inr b"
      using flat_read [OF fl b] by (simp add: dss_paths join_plain_name)
    then show ?thesis using b m by simp
  qed
  have "\<exists>refs. rmap_all ?read es = Inr refs"
    unfolding rmap_all_each
  proof
    fix x assume "x \<in> set es"
    moreover obtain n nd where "x = (n, nd)" by (rule prod.exhaust)
    ultimately show "\<exists>y. ?read x = Inr y" using one [of n nd] by blast
  qed
  then obtain refs where refs: "rmap_all ?read es = Inr refs" by blast
  have run: "dss_referenced X d w = Inr (bs_collect (concat refs))"
    using es(1) refs by (simp add: dss_referenced_def dss_paths)
  have "k \<in> set (concat refs)" if t: "dss_stages X d w i = Some t" and k: "refers t k" for i t k
  proof -
    obtain b where b: "child w ?dir (manifest_name X i) = Some b" "decoded X i b = Some t"
      using t by (auto simp: dss_stages_def bind_eq_Some_conv split: if_splits)
    then obtain nd where nd: "(manifest_name X i, nd) \<in> set es" using es(2) by (metis domI listed_pair)
    obtain m where m: "x_dec_manifest X b = Some m" "?read (manifest_name X i, nd) = Inr (List.map_filter sf_staged_bytes (sm_files m))"
      using one [OF nd] b(1) by auto
    then have "List.map_filter sf_staged_bytes (sm_files m) \<in> set refs" using rmap_all_mem [OF refs nd] by auto
    moreover have "k \<in> set (List.map_filter sf_staged_bytes (sm_files m))"
      using b(2) m(1) k by (force simp: decoded_def refers_def List.map_filter_def split: if_splits)
    ultimately show ?thesis by auto
  qed
  then show ?thesis using run by auto
qed

lemma dss_clean_blobs_stored:
  assumes inv: "dss_invar X d w"
  shows "\<exists>m w'. dss_clean_blobs X d n w = (Inr m, w') \<and> dss_invar X d w' \<and> dss_stored X d w' = dss_stored X d w"
proof -
  let ?dir = "blob_dir d"
  have base: "dss_base X d w" and ok: "digests_ok X" and fl: "flat w ?dir"
    and bk: "backed X (dss_stages X d w) (dss_blobs X d w)"
    using inv by (auto simp: dss_invar_def dss_base_def)
  obtain rs where rs: "dss_referenced X d w = Inr rs"
      "\<And>i t k. dss_stages X d w i = Some t \<Longrightarrow> refers t k \<Longrightarrow> k \<in> set rs"
    using dss_referenced_all [OF base] by blast
  obtain ns where ns: "dir_names ?dir w = Inr ns" "distinct ns" "set ns = dom (child w ?dir)"
    using dir_names_flat [OF fl] by blast
  have plain: "plain_name x" if "x \<in> set ns" for x using child_plain [OF fl] ns(3) that by auto
  obtain m w1 where w1: "sweep (dss_sweep_blob X d rs) ns n w = (Inr m, w1)" "flat w1 ?dir" "only ?dir w w1"
      "child w1 ?dir = child w ?dir |` (- {n \<in> set ns. swept_blob X rs n})"
    using sweep_flat [OF fl ns(2) equalityD1 [OF ns(3)] sweep_blob_step [OF plain, where X = X and referenced = rs], where k = n] by blast
  obtain w2 where w2: "sync_directory ?dir SyncFlush w1 = (Inr (), w2)"
      "flat w2 ?dir" "only ?dir w1 w2" "child w2 ?dir = child w1 ?dir"
    using flat_sync [OF w1(2)] by blast
  have run: "dss_clean_blobs X d n w = (Inr m, w2)"
    using rs(1) ns(1) w1(1) w2(1) by (simp add: dss_clean_blobs_def dss_paths io_bind_def io_map_err_def)
  note keep = dss_base_blobs [OF base w2(2) only_trans [OF w1(3) w2(3)]]
  have kept: "dss_blobs X d w2 k = dss_blobs X d w k" if "dss_stages X d w i = Some t" "refers t k" for i t k
  proof (cases "length k = 32")
    case True
    then have "x_from_hex X (x_hex X k) = Some k" using ok by (simp add: digests_ok_def)
    then have "\<not> swept_blob X rs (x_hex X k)" using rs(2) [OF that] by (simp add: swept_blob_def)
    then show ?thesis using True by (simp add: dss_blobs_def w2(4) w1(4) restrict_map_def)
  qed (simp add: dss_blobs_def)
  have "backed X (dss_stages X d w |` UNIV) (dss_blobs X d w2)"
    "view (dss_stages X d w |` UNIV) (dss_blobs X d w2) = view (dss_stages X d w) (dss_blobs X d w) |` UNIV"
    using view_clean [OF bk, of UNIV "dss_blobs X d w2"] kept by auto
  then show ?thesis using run keep by (auto simp: dss_invar_def dss_stored_def restrict_map_def)
qed

lemma dss_cleanup_stored:
  assumes inv: "dss_invar X d w"
  shows "\<exists>n w'. dss_cleanup X d policy w = (Inr n, w') \<and> dss_invar X d w' \<and>
    dss_stored X d w' = cleaned policy (dss_stored X d w)"
proof -
  obtain n w1 where w1: "(if cp_remove_manifests policy then dss_clean_manifests X d policy else io_ok 0) w = (Inr n, w1)"
      "dss_invar X d w1" "dss_stored X d w1 = cleaned policy (dss_stored X d w)"
  proof (cases "cp_remove_manifests policy")
    case True
    then show thesis using that dss_clean_manifests_stored [OF inv, of policy] by (auto simp: cleaned_def)
  qed (use that inv in \<open>auto simp: cleaned_def\<close>)
  obtain m w2 where "(if cp_remove_unreferenced_blobs policy then dss_clean_blobs X d n else io_ok n) w1 = (Inr m, w2)"
      "dss_invar X d w2" "dss_stored X d w2 = dss_stored X d w1"
  proof (cases "cp_remove_unreferenced_blobs policy")
    case True
    then show thesis using that dss_clean_blobs_stored [OF w1(2), of n] by auto
  qed (use that w1(2) in auto)
  then show ?thesis using w1 by (auto simp: dss_cleanup_def io_bind_def)
qed

interpretation disk: stage_store X "dss_save X d" "dss_load X d" "dss_discard X d" "dss_cleanup X d"
    "dss_invar X d" "dss_stored X d"
  by unfold_locales (rule dss_load_stored dss_save_stored dss_discard_stored dss_cleanup_stored; assumption)+

end
