(* ===== verification/StageTheorems.thy ===== *)
theory StageTheorems
  imports MemStore DiskStore
begin

text \<open>What the stage stores guarantee: both are the map the contract describes, and what the durable
  store loads it has verified.\<close>

abbreviation mem_step :: "('x) stage_ext_scheme \<Rightarrow> store_call \<Rightarrow> (mem_store, string, unit) stm" where
  "mem_step X \<equiv> store_step (mem_save X) mem_discard mem_cleanup"

abbreviation dss_step :: "('x) stage_ext_scheme \<Rightarrow> durable_store \<Rightarrow> store_call \<Rightarrow> unit sio" where
  "dss_step X d \<equiv> store_step (dss_save X d) (dss_discard X d) (dss_cleanup X d)"

subsection \<open>Opening a durable store\<close>

lemma mkdirs_empty:
  assumes "world_ok w" "names_ok (root @ [c])" "clear (w_tree w) root" "w_tree w root = None \<or> w_tree w root = Some NDir"
    and "w_tree w (root @ [c]) = None"
  shows "\<exists>w'. create_dir_all (root @ [c]) w = (Inr (), w') \<and> moves w w' (mkdirs (root @ [c]) (w_tree w)) \<and>
    flat w' (root @ [c]) \<and> child w' (root @ [c]) = Map.empty"
proof -
  have "clear (w_tree w) (root @ [c])"
    using assms(3,4) by (auto simp: clear_def strict_prefix_def prefix_snoc)
  then obtain w' where w': "create_dir_all (root @ [c]) w = (Inr (), w')" "moves w w' (mkdirs (root @ [c]) (w_tree w))"
    using create_dir_all_moves [of w "root @ [c]"] assms by auto
  have "w_tree w ((root @ [c]) @ [n]) = None" for n
    using tree_parent [OF world_ok_tree [OF assms(1)], of "root @ [c]" n] assms(5) by (cases "w_tree w ((root @ [c]) @ [n])") auto
  then have "w_tree w' ((root @ [c]) @ [n]) = None" for n
    using movesD(2) [OF w'(2)] by (simp add: mkdirs_def)
  moreover have "w_tree w' (root @ [c]) = Some NDir" using movesD(2) [OF w'(2)] by (simp add: mkdirs_def)
  ultimately show ?thesis
    using w' movesD(1) [OF w'(2)] assms(2) by (auto simp: flat_def child_def fun_eq_iff)
qed

lemma dss_open_fresh:
  assumes X: "digests_ok X"
    and w: "world_ok w" "names_ok root" "clear (w_tree w) root" "w_tree w root = None \<or> w_tree w root = Some NDir"
    and fresh: "w_tree w (root @ [''blobs'']) = None" "w_tree w (root @ [''manifests'']) = None"
  shows "\<exists>w'. dss_open root w = (Inr \<lparr>ds_root = root\<rparr>, w') \<and> dss_invar X \<lparr>ds_root = root\<rparr> w' \<and>
    dss_stored X \<lparr>ds_root = root\<rparr> w' = Map.empty"
proof -
  obtain w1 where w1: "create_dir_all (root @ [''blobs'']) w = (Inr (), w1)"
      "moves w w1 (mkdirs (root @ [''blobs'']) (w_tree w))"
      "flat w1 (root @ [''blobs''])" "child w1 (root @ [''blobs'']) = Map.empty"
    using mkdirs_empty [of w root "''blobs''"] w fresh by auto
  note t1 = movesD(2) [OF w1(2)]
  have root1: "w_tree w1 root = Some NDir" "w_tree w1 (root @ [''manifests'']) = None"
    using t1 fresh(2) by (auto simp: mkdirs_def prefix_snoc)
  then have "clear (w_tree w1) root" using clear_present world_ok_tree w1(3) by (auto simp: flat_def)
  then obtain w2 where w2: "create_dir_all (root @ [''manifests'']) w1 = (Inr (), w2)"
      "moves w1 w2 (mkdirs (root @ [''manifests'']) (w_tree w1))"
      "flat w2 (root @ [''manifests''])" "child w2 (root @ [''manifests'']) = Map.empty"
    using mkdirs_empty [of w1 root "''manifests''"] w(2) w1(3) root1 by (auto simp: flat_def)
  have "w_tree w2 (root @ ''blobs'' # p) = w_tree w1 (root @ ''blobs'' # p)" for p
    using movesD(2) [OF w2(2)] by (auto simp: mkdirs_def prefix_def)
  then have b: "flat w2 (root @ [''blobs''])" "child w2 (root @ [''blobs'']) = Map.empty"
    using w1(3,4) movesD(1) [OF w2(2)] by (auto simp: flat_def child_def fun_eq_iff)
  let ?d = "\<lparr>ds_root = root\<rparr>"
  have "dss_open root w = (Inr ?d, w2)"
    using w1(1) w2(1) by (simp add: dss_open_def io_bind_def io_map_err_def join_plain_name)
  moreover have "dss_stages X ?d w2 = Map.empty" by (simp add: dss_stages_def w2(4) fun_eq_iff)
  moreover have "dss_base X ?d w2" using X b w2(3,4) by (simp add: dss_base_def)
  ultimately show ?thesis by (auto simp: dss_invar_def dss_stored_def backed_def view_def)
qed

text \<open>C9 -- Both stores refine the map of the contract: opened empty, after any history of saves,
  discards and cleanups, every call succeeds and loading a stage returns exactly what the
  history leaves under its identity, the sealed plan with its planned bytes, in memory and on
  disk alike.\<close>

theorem stage_stores_refine_map:
  assumes "digests_ok X" "world_ok w" "names_ok root" "clear (w_tree w) root"
    and "w_tree w root = None \<or> w_tree w root = Some NDir"
    and "w_tree w (root @ [''blobs'']) = None" "w_tree w (root @ [''manifests'']) = None"
    and "\<forall>c \<in> set cs. call_fits X c" "length i = 32"
  shows "(\<exists>s. io_bind (io_for_each (mem_step X) cs) (\<lambda>_. mem_load i) mem_new =
      (Inr (fold (call_effect X) cs Map.empty i), s)) \<and>
    (\<exists>w'. io_bind (dss_open root) (\<lambda>d. io_bind (io_for_each (dss_step X d) cs) (\<lambda>_. dss_load X d i)) w =
      (Inr (fold (call_effect X) cs Map.empty i), w'))"
proof
  show "\<exists>s. io_bind (io_for_each (mem_step X) cs) (\<lambda>_. mem_load i) mem_new =
      (Inr (fold (call_effect X) cs Map.empty i), s)"
    using mem.load_after [OF mem_new_invar assms(8,9)] by (simp add: mem_new_stored)
  obtain w1 where w1: "dss_open root w = (Inr \<lparr>ds_root = root\<rparr>, w1)" "dss_invar X \<lparr>ds_root = root\<rparr> w1"
      "dss_stored X \<lparr>ds_root = root\<rparr> w1 = Map.empty"
    using dss_open_fresh [OF assms(1-7)] by blast
  show "\<exists>w'. io_bind (dss_open root) (\<lambda>d. io_bind (io_for_each (dss_step X d) cs) (\<lambda>_. dss_load X d i)) w =
      (Inr (fold (call_effect X) cs Map.empty i), w')"
    using disk.load_after [OF w1(2) assms(8,9)] by (simp add: io_bind_ok [where m = "dss_open root", OF w1(1)] w1(3))
qed

subsection \<open>Verified loading\<close>

lemma dss_load_file_verified:
  assumes "dss_load_file X d fs f = Inr g"
  shows "identity_file_of g = identity_file_of f"
    "sf_staged_bytes g = Some k \<Longrightarrow> \<exists>b. sf_bytes_after g = Some b \<and> x_hash X b = k"
  using assms by (auto simp: dss_load_file_def identity_file_of_def rbind_eq_Ok split: option.splits if_splits)

lemma identity_bytes_cong:
  assumes "map identity_file_of gs = map identity_file_of fs"
  shows "identity_bytes X root gs = identity_bytes X root fs"
  unfolding identity_bytes_def assms ..

text \<open>C10 -- Whatever is on the disk, a stage that the durable store loads is the one that was asked
  for: its identity is the digest of its canonical bytes, and the bytes of every file it stages
  hash to the digest the manifest names. Anything else is an error.\<close>

theorem dss_load_verified:
  assumes "dss_load X d i w = (Inr (Some t), w')"
  shows "w' = w \<and> st_id t = i \<and> recompute_id X t = i \<and>
    (\<forall>f \<in> set (st_files t). \<forall>k. sf_staged_bytes f = Some k \<longrightarrow>
       (\<exists>b. sf_bytes_after f = Some b \<and> x_hash X b = k))"
proof -
  let ?p = "dss_manifest_path X d i"
  have ex: "path_exists (w_fs w) ?p" and w': "w' = w"
    using assms by (auto simp: dss_load_def Let_def io_read_def split: if_splits)
  then have "rbind (map_err io_text (fs_read (w_fs w) ?p)) (\<lambda>b.
      rbind (ok_or ''decode stage manifest'' (x_dec_manifest X b)) (dss_load_manifest X d i (w_fs w))) = Inr (Some t)"
    using assms by (simp add: dss_load_def Let_def io_read_def)
  then obtain m where m: "dss_load_manifest X d i (w_fs w) m = Inr (Some t)" "w' = w"
    unfolding rbind_eq_Ok using w' by (elim exE conjE)
  then obtain files where f: "rmap_all (dss_load_file X d (w_fs w)) (sm_files m) = Inr files"
      "t = \<lparr>st_id = i, st_root = sm_root m, st_files = files, st_previews = sm_previews m\<rparr>"
      "x_hash X (sm_identity m) = i" "identity_bytes X (sm_root m) (sm_files m) = sm_identity m"
    by (auto simp: dss_load_manifest_def rbind_eq_Ok split: if_splits)
  have each: "length files = length (sm_files m)"
    "\<And>k. k < length files \<Longrightarrow> dss_load_file X d (w_fs w) (sm_files m ! k) = Inr (files ! k)"
    using f(1) by (simp_all add: rmap_all_Ok)
  have "map identity_file_of files = map identity_file_of (sm_files m)"
  proof (rule nth_equalityI)
    fix k assume "k < length (map identity_file_of files)"
    then have "k < length files" "identity_file_of (files ! k) = identity_file_of (sm_files m ! k)"
      using dss_load_file_verified(1) [OF each(2)] by simp_all
    then show "map identity_file_of files ! k = map identity_file_of (sm_files m) ! k" using each(1) by simp
  qed (simp add: each(1))
  then have "identity_bytes X (sm_root m) files = sm_identity m" using identity_bytes_cong f(4) by metis
  then have "recompute_id X t = i" using f(2,3) by (simp add: recompute_id_def canonical_manifest_bytes_def)
  moreover have "\<exists>b. sf_bytes_after g = Some b \<and> x_hash X b = k"
    if "g \<in> set files" "sf_staged_bytes g = Some k" for g k
    using that each(2) dss_load_file_verified(2) by (metis in_set_conv_nth)
  ultimately show ?thesis using m(2) f(2) by simp
qed

end
