(* ===== verification/Pipeline.thy ===== *)
theory Pipeline
  imports Plan StageTheorems PlanOrder CommitTheorems CommitAgain
begin

text \<open>
  The entry points of \<open>soopy/src/_7e_stage_store.rs\<close>, generic in the store: plan a request and
  save the plan, show a stage, discard one. Their laws are proved in the contract of the trait
  and hold for both stores.
\<close>

definition stage_mutations ::
  "(mutation_plan \<Rightarrow> ('s, string, staged_transaction) stm) \<Rightarrow> ('x) ext_scheme \<Rightarrow> fs \<Rightarrow> source_root \<Rightarrow>
     stage_request \<Rightarrow> 's \<Rightarrow> ((stage_refusal + staged_transaction) \<times> 's) option" where
  "stage_mutations save X fs root request s =
     (case plan_mutations X fs root request of
        None \<Rightarrow> None
      | Some (Inl refusal) \<Rightarrow> Some (Inl refusal, s)
      | Some (Inr plan) \<Rightarrow> Some (io_map_err RefStore (save plan) s))"

definition show_stage ::
  "(stage_id \<Rightarrow> ('s, string, staged_transaction option) stm) \<Rightarrow> stage_id \<Rightarrow>
     ('s, string, staged_transaction option) stm" where
  "show_stage load i = load i"

definition discard_stage ::
  "(stage_id \<Rightarrow> ('s, string, bool) stm) \<Rightarrow> stage_id \<Rightarrow> ('s, string, bool) stm" where
  "discard_stage discard i = discard i"

lemma sealed_id_length: "digests_ok X \<Longrightarrow> length (st_id (sealed X plan)) = 32"
  by (simp add: sealed_def seal_plan_id digest_length)

context stage_store
begin

lemma staged_shown:
  assumes "digests_ok X" "invar s" "plan_mutations X fs root request = Some (Inr plan)" "plan_storable X plan"
  shows "\<exists>t s'. stage_mutations save X fs root request s = Some (Inr t, s') \<and> invar s' \<and>
    show_stage load (st_id t) s' = (Inr (Some (sealed X plan)), s')"
proof -
  obtain s' where s': "save plan s = (Inr (fst (seal_plan X plan)), s')" "invar s'"
      "stored s' = (stored s)(st_id (sealed X plan) \<mapsto> sealed X plan)"
    using save_stored [OF assms(2,4)] by blast
  have i: "st_id (fst (seal_plan X plan)) = st_id (sealed X plan)" by (simp add: sealed_def)
  have "load (st_id (sealed X plan)) s' = (Inr (Some (sealed X plan)), s')"
    using load_stored [OF s'(2) sealed_id_length [OF assms(1)]] s'(3) by simp
  then show ?thesis using assms(3) s'(1,2) by (simp add: stage_mutations_def show_stage_def io_map_err_def i)
qed

lemma staged_discarded:
  assumes "invar s" "length i = 32"
  shows "\<exists>s' s''. discard_stage discard i s = (Inr (stored s i \<noteq> None), s') \<and>
    discard_stage discard i s' = (Inr False, s'')"
proof -
  obtain s' where s': "discard i s = (Inr (stored s i \<noteq> None), s')" "invar s'" "stored s' = (stored s)(i := None)"
    using discard_stored [OF assms] by blast
  then obtain s'' where "discard i s' = (Inr (stored s' i \<noteq> None), s'')" using discard_stored [OF s'(2) assms(2)] by blast
  then show ?thesis using s' by (auto simp: discard_stage_def)
qed

end

text \<open>What a refusal of the planner leaves: the store as it was.\<close>

lemma stage_refused:
  "plan_mutations X fs root request = Some (Inl refusal) \<Longrightarrow>
     stage_mutations save X fs root request s = Some (Inl refusal, s)"
  by (simp add: stage_mutations_def)

text \<open>
  The whole way of an edit: a request planned against a directory root, sealed and saved in the
  durable store, loaded again and committed. The planner's promises meet what the commit asks
  of a stage, and the committed tree holds the planned outputs.
\<close>

subsection \<open>From the plan to the stage\<close>








subsection \<open>From the stage to the tree\<close>







end
