(* ===== verification/PipeSamples.thy ===== *)
theory PipeSamples
  imports Pipeline PlanSamples
begin

text \<open>
  One edit from the request to the tree: a file is replaced, one is created and one deleted in a
  directory root, through the durable store and the commit engine.
\<close>

subsection \<open>The edit\<close>

definition pipe_id :: directory_id where
  "pipe_id = sample_hex (replicate 32 0)"

definition pipe_directory :: directory_root where
  "pipe_directory = \<lparr>dr_root = [''t''], dr_identity = pipe_id\<rparr>"

definition pipe_source :: "string \<Rightarrow> action_source" where
  "pipe_source p = SourceDirectory (FileRef pipe_id p)"

definition pipe_request :: stage_request where
  "pipe_request = \<lparr>rq_schema_version = SOURCE_ACTION_SCHEMA_VERSION, rq_root = RootDirectory pipe_id, rq_actions =
    [ActReplace (pipe_source ''o'') (Blake3 (replicate 32 2)) [edit_of (pipe_source ''o'') 0 1 [1]],
     ActCreate (PathDirectory ''n'') [1], ActDelete (pipe_source ''m'') (Blake3 (replicate 32 1))]\<rparr>"

definition pipe_fs :: fs where
  "pipe_fs =
    [([], NDir), ([''s''], NDir), ([''s'', ''blobs''], NDir), ([''s'', ''journals''], NDir),
     ([''s'', ''locks''], NDir), ([''s'', ''receipts''], NDir), ([''t''], NDir),
     ([''t'', ''m''], NFile [1] 0x81A4), ([''t'', ''o''], NFile [2] 0x81A4),
     ([''v''], NDir), ([''v'', ''blobs''], NDir), ([''v'', ''manifests''], NDir)]"

definition pipe_plan :: mutation_plan where
  "pipe_plan = (case plan_mutations sample_ext pipe_fs (DirectorySource pipe_directory) pipe_request of
     Some (Inr plan) \<Rightarrow> plan | _ \<Rightarrow> \<lparr>mp_root = RootDirectory [], mp_files = []\<rparr>)"


lemma pipe_outputs: "map (\<lambda>f. (pf_kind f, pf_path_after f, pf_bytes_after f)) (mp_files pipe_plan) =
    [(KDelete, None, None), (KCreate, Some (PathDirectory ''n''), Some [1]), (KReplace, Some (PathDirectory ''o''), Some [1])]"
  by code_simp

text \<open>The stage the plan is sealed into.\<close>

definition pipe_file :: "string \<Rightarrow> u8 \<Rightarrow> staged_file" where
  "pipe_file p d = \<lparr>sf_kind = KReplace, sf_source = Some (pipe_source p),
     sf_path_before = Some (PathDirectory p), sf_path_after = Some (PathDirectory p),
     sf_content_before = Some (Blake3 (replicate 32 d)), sf_content_after = Some (Blake3 (replicate 32 1)),
     sf_mode_before = Some \<lparr>fmo_readonly = False, fmo_unix_mode = Some 0x81A4\<rparr>,
     sf_staged_bytes = Some (replicate 32 1), sf_edits = [], sf_bytes_after = Some [1]\<rparr>"

definition pipe_delete :: staged_file where
  "pipe_delete = (pipe_file ''m'' 1)
     \<lparr>sf_kind := KDelete, sf_path_after := None, sf_content_after := None, sf_staged_bytes := None, sf_bytes_after := None\<rparr>"

definition pipe_create :: staged_file where
  "pipe_create = (pipe_file ''n'' 0)
     \<lparr>sf_kind := KCreate, sf_source := None, sf_path_before := None, sf_content_before := None, sf_mode_before := None\<rparr>"

definition pipe_replace :: staged_file where
  "pipe_replace = (pipe_file ''o'' 2)\<lparr>sf_edits :=
     [\<lparr>ne_start = 0, ne_end = 1, ne_replacement = [1], ne_producers = [ActionProducer ''p'' None None]\<rparr>]\<rparr>"

definition pipe_stage :: staged_transaction where
  "pipe_stage = \<lparr>st_id = replicate 32 0, st_root = RootDirectory pipe_id,
     st_files = [pipe_delete, pipe_create, pipe_replace], st_previews =
     [\<lparr>fp_kind = KDelete, fp_path_before = Some (PathDirectory ''m''), fp_path_after = None,
        fp_summary = ''delete m'', fp_unified = Some [], fp_binary = False, fp_before_bytes = 1, fp_after_bytes = 0\<rparr>,
      \<lparr>fp_kind = KCreate, fp_path_before = None, fp_path_after = Some (PathDirectory ''n''),
        fp_summary = ''create n (1 bytes)'', fp_unified = Some [], fp_binary = False, fp_before_bytes = 0,
        fp_after_bytes = 1\<rparr>,
      \<lparr>fp_kind = KReplace, fp_path_before = Some (PathDirectory ''o''), fp_path_after = Some (PathDirectory ''o''),
        fp_summary = ''update o (1 bytes)'', fp_unified = Some [], fp_binary = False, fp_before_bytes = 1,
        fp_after_bytes = 1\<rparr>]\<rparr>"

definition pipe_manifest :: stored_manifest where
  "pipe_manifest = manifest_of sample_ext
     (pipe_stage\<lparr>st_files := map (\<lambda>f. f\<lparr>sf_bytes_after := None\<rparr>) (st_files pipe_stage)\<rparr>)"

definition pipe_ext :: commit_ext where
  "pipe_ext = sample_ext\<lparr>x_dec_manifest := (\<lambda>b. if b = [4] then Some pipe_manifest else None)\<rparr>"


lemma pipe_hash: "x_hash pipe_ext = sample_hash" "x_hex pipe_ext = sample_hex" "x_from_hex pipe_ext = sample_from_hex"
  by (simp_all add: pipe_ext_def sample_ext_def)

lemma pipe_digests: "digests_ok pipe_ext"
  using sample_digests by (simp add: digests_ok_def pipe_hash sample_ext_def)

lemma pipe_bytes: "plan_bytes pipe_plan = {[1]}"
proof -
  have "map pf_bytes_after (mp_files pipe_plan) = [None, Some [1], Some [1]]" by code_simp
  then obtain a b c where "mp_files pipe_plan = [a, b, c]" and "pf_bytes_after a = None"
      "pf_bytes_after b = Some [1]" "pf_bytes_after c = Some [1]"
    by (auto simp: map_eq_Cons_conv)
  then show ?thesis by (auto simp: plan_bytes_def)
qed

lemma pipe_storable: "plan_storable pipe_ext pipe_plan"
proof -
  have "no_collision pipe_ext [1]" by (auto simp: no_collision_def pipe_hash sample_hash_def split: if_splits)
  moreover have "x_dec_manifest pipe_ext (x_enc_manifest pipe_ext (manifest_of pipe_ext (fst (seal_plan pipe_ext pipe_plan)))) =
      Some (manifest_of pipe_ext (fst (seal_plan pipe_ext pipe_plan)))" by code_simp
  ultimately show ?thesis by (simp add: plan_storable_def Let_def pipe_bytes)
qed


subsection \<open>The store\<close>

definition pipe_world :: world where
  "pipe_world = sample_world\<lparr>w_fs := pipe_fs\<rparr>"

definition pipe_store :: durable_store where
  "pipe_store = \<lparr>ds_root = [''v'']\<rparr>"

lemma pipe_world_ok: "world_ok pipe_world"
proof -
  have "fs_ok pipe_fs"
  proof (rule fs_ok_check)
    show "bt_wf pipe_fs" by code_simp
    show "bt_get pipe_fs [] = Some NDir" by code_simp
    show "list_all (\<lambda>(p, n). (p = [] \<or> bt_get pipe_fs (butlast p) = Some NDir) \<and>
      (case n of NDir \<Rightarrow> True | NFile b m \<Rightarrow> mode_regular m | _ \<Rightarrow> True)) pipe_fs" by code_simp
  qed
  then show ?thesis by (simp add: world_ok_def pipe_world_def)
qed

lemma empty_flat:
  assumes "world_ok w" "names_ok p" "w_tree w p = Some NDir" "list_all (\<lambda>k. k = [] \<or> butlast k \<noteq> p) (map fst (w_fs w))"
  shows "flat w p \<and> child w p = Map.empty"
proof -
  have "w_tree w (p @ [n]) = None" for n
  proof (rule ccontr)
    assume "w_tree w (p @ [n]) \<noteq> None"
    then have "p @ [n] \<in> set (map fst (w_fs w))" by (simp add: map_of_eq_None_iff)
    then have "p @ [n] = [] \<or> butlast (p @ [n]) \<noteq> p" using assms(4) unfolding list_all_iff by blast
    then show False by simp
  qed
  then show ?thesis using assms by (simp add: flat_def child_def fun_eq_iff)
qed

lemma pipe_store_invar: "dss_invar pipe_ext pipe_store pipe_world"
proof -
  have d: "ds_root pipe_store = [''v'']" by code_simp
  have "flat pipe_world [''v'', ''blobs''] \<and> child pipe_world [''v'', ''blobs''] = Map.empty"
    by (rule empty_flat [OF pipe_world_ok]) code_simp+
  moreover have "flat pipe_world [''v'', ''manifests''] \<and> child pipe_world [''v'', ''manifests''] = Map.empty"
    by (rule empty_flat [OF pipe_world_ok]) code_simp+
  ultimately have "dss_base pipe_ext pipe_store pipe_world" "dss_stages pipe_ext pipe_store pipe_world = Map.empty"
    using pipe_digests by (auto simp: dss_base_def dss_stages_def d fun_eq_iff)
  then show ?thesis by (simp add: dss_invar_def backed_def)
qed

definition pipe_load :: "staged_transaction option sio" where
  "pipe_load = io_bind (dss_save pipe_ext pipe_store pipe_plan) (\<lambda>t. dss_load pipe_ext pipe_store (st_id t))"



definition pipe_saved :: world where
  "pipe_saved = snd (pipe_load pipe_world)"

lemma pipe_load_result: "fst (pipe_load pipe_world) = Inr (Some pipe_stage)"
  by code_simp

lemma pipe_loaded: "pipe_load pipe_world = (Inr (Some pipe_stage), pipe_saved)"
  using pipe_load_result by (simp add: pipe_saved_def prod_eq_iff)




subsection \<open>The commit\<close>





















subsection \<open>Witnesses\<close>


theorem dss_load_verified_witness:
  "\<exists>i. dss_load pipe_ext pipe_store i pipe_saved = (Inr (Some pipe_stage), pipe_saved) \<and> recompute_id pipe_ext pipe_stage = i"
proof -
  obtain v where v: "dss_save pipe_ext pipe_store pipe_plan pipe_world = (Inr (fst (seal_plan pipe_ext pipe_plan)), v)"
    using disk.save_stored [OF pipe_store_invar pipe_storable] by blast
  let ?i = "st_id (fst (seal_plan pipe_ext pipe_plan))"
  have l: "dss_load pipe_ext pipe_store ?i v = (Inr (Some pipe_stage), pipe_saved)"
    using pipe_loaded v by (simp add: pipe_load_def io_bind_def)
  then have "pipe_saved = v \<and> recompute_id pipe_ext pipe_stage = ?i" using dss_load_verified [OF l] by simp
  then show ?thesis using l by blast
qed

theorem stage_stores_refine_map_witness:
  "\<exists>i s w'. io_bind (io_for_each (mem_step pipe_ext) [CallSave pipe_plan, CallDiscard (replicate 32 7)]) (\<lambda>_. mem_load i) mem_new =
      (Inr (Some (sealed pipe_ext pipe_plan)), s) \<and>
    io_bind (dss_open [''x'']) (\<lambda>d. io_bind (io_for_each (dss_step pipe_ext d) [CallSave pipe_plan, CallDiscard (replicate 32 7)])
      (\<lambda>_. dss_load pipe_ext d i)) pipe_world = (Inr (Some (sealed pipe_ext pipe_plan)), w')"
proof -
  let ?cs = "[CallSave pipe_plan, CallDiscard (replicate 32 7)]" and ?i = "st_id (sealed pipe_ext pipe_plan)"
  have at: "w_tree pipe_world [''x''] = None" "w_tree pipe_world ([''x''] @ [''blobs'']) = None"
    "w_tree pipe_world ([''x''] @ [''manifests'']) = None" "w_tree pipe_world [] = Some NDir"
    by code_simp+
  have cl: "clear (w_tree pipe_world) [''x'']" using at(4) by (auto simp: clear_def strict_prefix_def prefix_Cons)
  have names: "names_ok [''x'']" by code_simp
  have fits: "\<forall>c \<in> set ?cs. call_fits pipe_ext c" using pipe_storable by simp
  have "?i \<noteq> replicate 32 7" by code_simp
  then have result: "fold (call_effect pipe_ext) ?cs Map.empty ?i = Some (sealed pipe_ext pipe_plan)" by simp
  show ?thesis
    using stage_stores_refine_map [OF pipe_digests pipe_world_ok names cl disjI1 [OF at(1)] at(2,3) fits
      sealed_id_length [OF pipe_digests, of pipe_plan], unfolded result]
    by (elim conjE exE) blast
qed

end
