(* ===== verification/Observed.thy ===== *)
theory Observed
  imports Readers
begin

text \<open>
  What the read side of the crate observes of a directory or repository, from
  \<open>soopy/src/_0_types.rs\<close>: snapshots of sources, refs, index and linked worktrees, the deltas
  between two of them, and the queries that select them; and \<open>git\<close> as the crate runs it.

  A Git command is a function of its arguments and its standard input. Its answer is what
  \<open>std::process::Output\<close> holds: the exit status (\<open>None\<close> after a signal), the two
  streams; \<open>Inl\<close> is a process that could not be started. Every command the models pass it
  starts with what stands after \<open>-C root\<close> in the sources.
\<close>

subsection \<open>Running Git\<close>

record git_output =
  go_code :: "int option"
  go_stdout :: bytes
  go_stderr :: bytes

type_synonym git = "string list \<Rightarrow> bytes \<Rightarrow> string + git_output"

definition go_success :: "git_output \<Rightarrow> bool" where
  "go_success out \<longleftrightarrow> go_code out = Some 0"

text \<open>\<open>String::from_utf8\<close>: the text is its bytes.\<close>

definition text_of :: "bytes \<Rightarrow> string" where
  "text_of b = map (\<lambda>x. char_of (unat x)) b"

definition from_utf8 :: "string \<Rightarrow> bytes \<Rightarrow> string + string" where
  "from_utf8 e b = (if utf8_valid b then Inr (text_of b) else Inl e)"

text \<open>\<open>String::from_utf8_lossy\<close>: every maximal prefix of a well-formed sequence that does not
  complete becomes one U+FFFD. \<open>utf8_step\<close> measures the first sequence.\<close>

definition second_byte :: "u8 \<Rightarrow> u8 \<Rightarrow> bool" where
  "second_byte a b \<longleftrightarrow>
     (if a = 0xE0 then 0xA0 \<le> b \<and> b \<le> 0xBF
      else if a = 0xED then 0x80 \<le> b \<and> b \<le> 0x9F
      else if a = 0xF0 then 0x90 \<le> b \<and> b \<le> 0xBF
      else if a = 0xF4 then 0x80 \<le> b \<and> b \<le> 0x8F
      else cont_byte b)"

definition sequence_length :: "u8 \<Rightarrow> nat" where
  "sequence_length a =
     (if 0xC2 \<le> a \<and> a \<le> 0xDF then 2 else if 0xE0 \<le> a \<and> a \<le> 0xEF then 3
      else if 0xF0 \<le> a \<and> a \<le> 0xF4 then 4 else 1)"

definition utf8_step :: "u8 \<Rightarrow> bytes \<Rightarrow> bool \<times> nat" where
  "utf8_step a bs =
     (let n = sequence_length a;
          got = (case bs of [] \<Rightarrow> 0
            | b # cs \<Rightarrow> if 2 \<le> n \<and> second_byte a b then 1 + length (takeWhile cont_byte (take (n - 2) cs)) else 0)
      in (if n = 1 then a \<le> 0x7F else got = n - 1, 1 + got))"

function text_lossy :: "bytes \<Rightarrow> string" where
  "text_lossy [] = []"
| "text_lossy (a # bs) =
     (let (complete, n) = utf8_step a bs
      in (if complete then text_of (take n (a # bs)) else text_of [0xEF, 0xBF, 0xBD]) @ text_lossy (drop n (a # bs)))"
  by pat_completeness auto

termination
  by (relation "measure length") (auto simp: utf8_step_def Let_def)

text \<open>\<open>command.output()\<close> with its context, then the status test and its \<open>bail!\<close>.\<close>

definition git_out :: "git \<Rightarrow> string \<Rightarrow> string \<Rightarrow> string list \<Rightarrow> string + bytes" where
  "git_out git context refusal args =
     rbind (map_err (\<lambda>_. context) (git args [])) (\<lambda>out.
     if \<not> go_success out then Inl refusal else Inr (go_stdout out))"

text \<open>\<open>str::lines\<close>: a final line feed ends the last line, a carriage return before one goes with it.\<close>

definition strip_cr :: "string \<Rightarrow> string" where
  "strip_cr l = (if l \<noteq> [] \<and> last l = carriage_return then butlast l else l)"

definition lines_of :: "string \<Rightarrow> string list" where
  "lines_of s =
     (let parts = split_on line_feed s
      in map strip_cr (butlast parts) @ (if last parts = [] then [] else [last parts]))"

definition nul :: char where "nul = char_of (0 :: nat)"
definition tab :: char where "tab = char_of (9 :: nat)"

subsection \<open>Sources\<close>

datatype revision = RvWorktree | RvNamed string | RvCommit object_id

type_synonym pattern = string

record source_query =
  sq_revision :: revision
  sq_patterns :: "pattern list"

record directory_entry =
  de_repository :: repository_id
  de_revision :: revision_id
  de_path :: repo_path

record source_snapshot =
  sn_revision :: revision_id
  sn_files :: "source_entry list"
  sn_directories :: "directory_entry list"

datatype source_delta =
  SourceAdded source_entry
| SourceChanged source_entry source_entry
| SourceRemoved source_ref
| RevisionChanged revision_id revision_id
| SourceRescan

record file_snapshot =
  fs_files :: "file_entry list"
  fs_directories :: "root_path list"

datatype directory_delta =
  DirAdded string | DirChanged string | DirRemoved string | DirRescan

subsection \<open>Refs\<close>

datatype object_kind = ObjBlob | ObjTree | ObjCommit | ObjTag

record tagger =
  tg_name :: string
  tg_email :: string
  tg_when :: int

record tag_metadata =
  tm_target_kind :: object_kind
  tm_tagger :: tagger
  tm_message :: string

record ref_observation =
  ro_repository :: repository_id
  ro_name :: string
  ro_symbolic :: "string option"
  ro_direct :: object_id
  ro_peeled :: "object_id option"
  ro_kind :: object_kind
  ro_tag :: "tag_metadata option"

datatype head = HeadSymbolic string | HeadDetached object_id | HeadUnborn string

record head_observation =
  ho_state :: head
  ho_target :: "object_id option"

record ref_query =
  rf_repository :: repository_id
  rf_namespace :: string
  rf_name :: "string option"
  rf_pattern :: "string option"

record ref_snapshot =
  rs_repository :: repository_id
  rs_head :: head
  rs_head_target :: "object_id option"
  rs_refs :: "ref_observation list"

datatype ref_delta =
  HeadChanged head_observation head_observation
| RefAdded ref_observation
| RefRemoved ref_observation
| RefChanged ref_observation ref_observation

subsection \<open>The index and linked worktrees\<close>

record index_snapshot =
  ix_repository :: repository_id
  ix_worktree :: worktree_id
  ix_index :: digest

datatype index_delta = IndexChanged index_snapshot index_snapshot

record worktree_observation =
  wo_repository :: repository_id
  wo_worktree :: worktree_id
  wo_root :: string
  wo_commit :: "object_id option"
  wo_head :: head

record worktree_snapshot =
  ws_repository :: repository_id
  ws_worktrees :: "worktree_observation list"

datatype worktree_delta =
  WorktreeAdded worktree_observation
| WorktreeRemoved worktree_observation
| WorktreeChanged worktree_observation worktree_observation

subsection \<open>A watched repository\<close>

record watch_coalescing =
  wc_quiet_ms :: u32
  wc_max_ms :: u32

definition default_coalescing :: watch_coalescing where
  "default_coalescing = \<lparr>wc_quiet_ms = 120, wc_max_ms = 600\<rparr>"

record watch_query =
  wq_source :: "source_query option"
  wq_refs :: "ref_query option"
  wq_index :: bool
  wq_linked_worktrees :: bool
  wq_coalescing :: watch_coalescing

record repository_snapshot =
  rp_repository :: repository_id
  rp_source :: "source_snapshot option"
  rp_refs :: "ref_snapshot option"
  rp_index :: "index_snapshot option"
  rp_worktrees :: "worktree_snapshot option"

datatype repository_delta =
  DeltaRef ref_delta
| DeltaSource source_delta
| DeltaIndex index_delta
| DeltaWorktree worktree_delta
| RescanRequired

end
