(* ===== verification/Snapshots.thy ===== *)
theory Snapshots
  imports Observed
begin

text \<open>
  Snapshots of a worktree (\<open>soopy/src/_4_worktree.rs\<close>), of a directory root (\<open>_3a_files.rs\<close>) and of
  a commit's tree (\<open>_5_git_tree.rs\<close>), with the content caches of the first two; how a revision
  resolves (\<open>_3_revision.rs\<close>) and the snapshot of a \<open>SourceTree\<close> (\<open>_7_source_tree.rs\<close>).

  The walker of the \<open>ignore\<close> crate is the parameter \<open>walks\<close>: from the start directories and the
  entry filter it yields the entries it visits, each with what the file system says of it, or an
  error. \<open>globset\<close> is the parameter \<open>glob\<close>: it compiles patterns to a predicate on paths.
\<close>

record walk_entry =
  we_path :: apath
  we_utf8 :: bool
  we_file :: bool
  we_modified :: int
  we_size :: u64
  we_bytes :: "string + bytes"

type_synonym walker = "apath list \<Rightarrow> (apath \<Rightarrow> nat \<Rightarrow> bool) \<Rightarrow> (string + walk_entry) list"
type_synonym globber = "pattern list \<Rightarrow> string + (string \<Rightarrow> bool)"

subsection \<open>The content caches\<close>

record cached_file =
  cf_modified_secs :: int
  cf_size :: u64
  cf_content :: content_id

record worktree_cache =
  wk_files :: "(repo_path, cached_file) btree"
  wk_walk_ref_secs :: int

definition empty_worktree_cache :: worktree_cache where
  "empty_worktree_cache = \<lparr>wk_files = [], wk_walk_ref_secs = 0\<rparr>"

text \<open>The match on \<open>cache.files.get(&path)\<close>, common to both walks; they differ in the reference second.\<close>

definition cached_content ::
  "('x) ext_scheme \<Rightarrow> (string, cached_file) btree \<Rightarrow> int \<Rightarrow> string \<Rightarrow> walk_entry \<Rightarrow> string + content_id" where
  "cached_content X files walk_ref path e =
     (let fresh = rbind (map_err (\<lambda>_. ''read '' @ show_path (we_path e)) (we_bytes e)) (\<lambda>b. Inr (Blake3 (x_hash X b)))
      in case bt_get files path of
           None \<Rightarrow> fresh
         | Some c \<Rightarrow>
             (if cf_modified_secs c = we_modified e \<and> cf_size c = we_size e \<and> cf_modified_secs c < walk_ref
              then Inr (cf_content c) else fresh))"

text \<open>What a walk carries from entry to entry: the cache, the rows and the paths seen.\<close>

record 'r walk_state =
  wst_files :: "(string, cached_file) btree"
  wst_rows :: "'r list"
  wst_seen :: "string btset"

subsection \<open>Relative paths\<close>

definition relative_text :: "apath \<Rightarrow> string" where
  "relative_text names = (case names of [] \<Rightarrow> [] | _ \<Rightarrow> tl (show_path names))"

definition slash_text :: "string \<Rightarrow> string" where
  "slash_text p = map (\<lambda>c. if c = backslash then slash else c) p"

text \<open>\<open>entry.path().strip_prefix(root)\<close>, then the matcher, then the UTF-8 test.\<close>

definition root_relative :: "string \<Rightarrow> apath \<Rightarrow> walk_entry \<Rightarrow> string + string" where
  "root_relative context root e =
     ok_or context (map_option relative_text (path_strip_prefix root (we_path e)))"

definition utf8_text :: "walk_entry \<Rightarrow> string \<Rightarrow> string + string" where
  "utf8_text e relative =
     (if we_utf8 e then Inr (slash_text relative)
      else Inl (''non-UTF-8 path is not supported: '' @ show_path (we_path e)))"

subsection \<open>The worktree\<close>

definition glob_char :: "char \<Rightarrow> bool" where
  "glob_char c \<longleftrightarrow> c \<in> set ''*?[{''"

definition literal_dirs :: "pattern \<Rightarrow> string list" where
  "literal_dirs p =
     (let parts = split_on slash p; literal = takeWhile (\<lambda>part. \<not> list_ex glob_char part) parts
      in if length literal = length parts then take (length literal - 1) literal else literal)"

fun keep_bases :: "apath list \<Rightarrow> apath list \<Rightarrow> apath list" where
  "keep_bases kept [] = kept"
| "keep_bases kept (base # bases) =
     keep_bases (if list_ex (path_starts_with base) kept then kept else kept @ [base]) bases"

definition walk_bases :: "fs \<Rightarrow> apath \<Rightarrow> pattern list \<Rightarrow> apath list" where
  "walk_bases fs root patterns =
     (let bases = map (\<lambda>p. foldl join_path root (literal_dirs p)) patterns;
          bases = (if bases = [] then [root] else bases)
      in filter (path_is_dir fs) (keep_bases [] (remdups_adj (sort bases))))"

text \<open>The entry filter: no \<open>.git\<close>, no directory below a start that holds one.\<close>

definition worktree_filter :: "fs \<Rightarrow> apath \<Rightarrow> nat \<Rightarrow> bool" where
  "worktree_filter fs p depth \<longleftrightarrow>
     \<not> (p \<noteq> [] \<and> last p = ''.git'') \<and>
     \<not> (1 \<le> depth \<and> lstat fs p = Inr NDir \<and> path_exists fs (p @ [''.git'']))"

definition worktree_visit ::
  "('x) ext_scheme \<Rightarrow> repository \<Rightarrow> revision_id \<Rightarrow> apath \<Rightarrow> (string \<Rightarrow> bool) \<Rightarrow> int \<Rightarrow> string + walk_entry \<Rightarrow>
     (source_entry walk_state, string, unit) stm" where
  "worktree_visit X repo revision root matcher walk_ref item =
     io_bind (io_read (\<lambda>_. map_err (\<lambda>_. ''walk worktree'') item)) (\<lambda>e.
     if \<not> we_file e then io_ok ()
     else io_bind (io_read (\<lambda>_. root_relative ''make repository-relative path'' root e)) (\<lambda>relative.
     if \<not> matcher relative then io_ok ()
     else io_bind (io_read (\<lambda>_. utf8_text e relative)) (\<lambda>path s.
       let s = s\<lparr>wst_seen := bs_insert path (wst_seen s)\<rparr>
       in case cached_content X (wst_files s) walk_ref path e of
            Inl err \<Rightarrow> (Inl err, s)
          | Inr content \<Rightarrow> (Inr (), s
              \<lparr>wst_files := bt_insert path
                 \<lparr>cf_modified_secs = we_modified e, cf_size = we_size e, cf_content = content\<rparr> (wst_files s),
               wst_rows := wst_rows s @
                 [\<lparr>se_source = SourceRef (repo_identity repo) revision path, se_content = content, se_size = we_size e\<rparr>]\<rparr>))))"

definition worktree_enumerate ::
  "('x) ext_scheme \<Rightarrow> walker \<Rightarrow> globber \<Rightarrow> fs \<Rightarrow> int \<Rightarrow> repository \<Rightarrow> revision_id \<Rightarrow> pattern list \<Rightarrow>
     (worktree_cache, string, source_entry list) stm" where
  "worktree_enumerate X walks glob fs now repo revision patterns cache =
     (case glob patterns of
        Inl err \<Rightarrow> (Inl err, cache)
      | Inr matcher \<Rightarrow>
     let root = join_path [] (repo_root repo); bases = walk_bases fs root patterns
     in if bases = [] then (Inr [], cache)
     else case io_for_each (worktree_visit X repo revision root matcher (wk_walk_ref_secs cache))
            (walks bases (worktree_filter fs)) \<lparr>wst_files = wk_files cache, wst_rows = [], wst_seen = []\<rparr> of
        (Inl err, s) \<Rightarrow> (Inl err, cache\<lparr>wk_files := wst_files s\<rparr>)
      | (Inr u, s) \<Rightarrow>
          (Inr (sort_key (\<lambda>r. sr_path (se_source r)) (wst_rows s)),
           \<lparr>wk_files = filter (\<lambda>kv. fst kv \<in> set (wst_seen s)) (wst_files s), wk_walk_ref_secs = now\<rparr>))"

subsection \<open>A directory root\<close>

type_synonym directory_cache = "(root_path, cached_file) btree"

definition directory_filter :: "apath \<Rightarrow> nat \<Rightarrow> bool" where
  "directory_filter p depth \<longleftrightarrow> \<not> (p \<noteq> [] \<and> last p = ''.git'')"

definition directory_visit ::
  "('x) ext_scheme \<Rightarrow> directory_root \<Rightarrow> (string \<Rightarrow> bool) option \<Rightarrow> int \<Rightarrow> string + walk_entry \<Rightarrow>
     (file_entry walk_state, string, unit) stm" where
  "directory_visit X root matcher walk_ref item =
     io_bind (io_read (\<lambda>_. map_err (\<lambda>_. ''walk directory'') item)) (\<lambda>e.
     if \<not> we_file e then io_ok ()
     else io_bind (io_read (\<lambda>_. root_relative ''make directory-relative path'' (dr_root root) e)) (\<lambda>relative.
     if (case matcher of None \<Rightarrow> False | Some m \<Rightarrow> \<not> m relative) then io_ok ()
     else io_bind (io_read (\<lambda>_. utf8_text e relative)) (\<lambda>path.
          io_bind (io_read (\<lambda>s. cached_content X (wst_files s) walk_ref path e)) (\<lambda>content s.
            (Inr (), s
              \<lparr>wst_seen := bs_insert path (wst_seen s),
               wst_files := bt_insert path
                 \<lparr>cf_modified_secs = we_modified e, cf_size = we_size e, cf_content = content\<rparr> (wst_files s),
               wst_rows := wst_rows s @
                 [\<lparr>fe_file = FileRef (dr_identity root) path, fe_content = content, fe_size = we_size e\<rparr>]\<rparr>)))))"

definition directory_snapshot ::
  "('x) ext_scheme \<Rightarrow> walker \<Rightarrow> globber \<Rightarrow> int \<Rightarrow> directory_root \<Rightarrow> pattern list \<Rightarrow>
     (directory_cache, string, file_snapshot) stm" where
  "directory_snapshot X walks glob now root patterns cache =
     (case (if patterns = [] then Inr None else map_sum id Some (glob patterns)) of
        Inl err \<Rightarrow> (Inl err, cache)
      | Inr matcher \<Rightarrow>
     case io_for_each (directory_visit X root matcher now) (walks [dr_root root] directory_filter)
            \<lparr>wst_files = cache, wst_rows = [], wst_seen = []\<rparr> of
        (Inl err, s) \<Rightarrow> (Inl err, wst_files s)
      | (Inr u, s) \<Rightarrow>
          (Inr \<lparr>fs_files = sort_key (\<lambda>f. fr_path (fe_file f)) (wst_rows s),
             fs_directories = bs_collect (concat (map (\<lambda>f. parents_of (fr_path (fe_file f))) (wst_rows s)))\<rparr>,
           filter (\<lambda>kv. fst kv \<in> set (wst_seen s)) (wst_files s)))"

subsection \<open>Revisions\<close>

definition rev_parse :: "git \<Rightarrow> repository \<Rightarrow> string \<Rightarrow> string + object_id" where
  "rev_parse git repo name =
     rbind (git_out git (''resolve revision '' @ dbg_str name)
         (''revision '' @ dbg_str name @ '' does not resolve in '' @ repo_root repo)
         [''rev-parse'', ''--verify'', name @ ''^{commit}'']) (\<lambda>out.
     rbind (from_utf8 ''invalid utf-8 sequence'' out) (\<lambda>s. Inr (trim s)))"

definition worktree_dirty :: "git \<Rightarrow> repository \<Rightarrow> string + bool" where
  "worktree_dirty git repo =
     rbind (git_out git ''inspect worktree state''
         (''git status failed in '' @ repo_root repo @ '' (a clean worktree cannot be inferred from a failed command)'')
         [''status'', ''--porcelain'', ''-z'', ''--untracked-files=normal'']) (\<lambda>out. Inr (out \<noteq> []))"

fun resolve_revision :: "git \<Rightarrow> repository \<Rightarrow> revision \<Rightarrow> string + revision_id" where
  "resolve_revision git repo RvWorktree =
     (let h = (case rev_parse git repo ''HEAD'' of Inl e \<Rightarrow> None | Inr oid \<Rightarrow> Some oid)
      in rbind (worktree_dirty git repo) (\<lambda>d. Inr (RevWorktree (repo_worktree repo) h d)))"
| "resolve_revision git repo (RvNamed name) = rbind (rev_parse git repo name) (\<lambda>oid. Inr (RevCommit oid))"
| "resolve_revision git repo (RvCommit c) = rbind (rev_parse git repo c) (\<lambda>oid. Inr (RevCommit oid))"

subsection \<open>A commit's tree\<close>

fun split_bytes :: "u8 \<Rightarrow> bytes \<Rightarrow> bytes list" where
  "split_bytes sep [] = [[]]"
| "split_bytes sep (x # xs) =
     (if x = sep then [] # split_bytes sep xs
      else (case split_bytes sep xs of [] \<Rightarrow> [[x]] | p # ps \<Rightarrow> (x # p) # ps))"

definition nul_records :: "bytes \<Rightarrow> bytes list" where
  "nul_records b = filter (\<lambda>r. r \<noteq> []) (split_bytes 0 b)"

text \<open>The record before its first tab and after it.\<close>

definition cut_tab :: "bytes \<Rightarrow> (bytes \<times> bytes) option" where
  "cut_tab r = (if 9 \<in> set r then Some (takeWhile (\<lambda>b. b \<noteq> 9) r, tl (dropWhile (\<lambda>b. b \<noteq> 9) r)) else None)"

definition word_at :: "string list \<Rightarrow> nat \<Rightarrow> string option" where
  "word_at ws i = (if i < length ws then Some (ws ! i) else None)"

definition tree_row ::
  "repository \<Rightarrow> revision_id \<Rightarrow> object_id \<Rightarrow> (string \<Rightarrow> bool) \<Rightarrow> bytes \<Rightarrow> string + source_entry option" where
  "tree_row repo revision commit matcher r =
     (case cut_tab r of
        None \<Rightarrow> Inr None
      | Some (meta, rest) \<Rightarrow>
          rbind (from_utf8 (''non-UTF-8 path in tree '' @ commit @ '' is not supported'') rest) (\<lambda>path.
          let ws = split_whitespace (text_lossy meta)
          in if word_at ws 1 \<noteq> Some ''blob'' \<or> word_at ws 0 = Some ''120000'' \<or> \<not> matcher path then Inr None
             else case word_at ws 2 of
               None \<Rightarrow> Inr None
             | Some oid \<Rightarrow>
                 rbind (case word_at ws 3 of
                     None \<Rightarrow> Inr 0
                   | Some v \<Rightarrow> ok_or (''parse `git ls-tree` size '' @ dbg_str v @ '' for '' @ dbg_str path) (parse_usize v))
                   (\<lambda>size. Inr (Some \<lparr>se_source = SourceRef (repo_identity repo) revision path,
                      se_content = GitBlob oid, se_size = word_of_nat size\<rparr>))))"

definition some_values :: "'a option list \<Rightarrow> 'a list" where
  "some_values xs = concat (map (\<lambda>x. case x of None \<Rightarrow> [] | Some a \<Rightarrow> [a]) xs)"

definition commit_enumerate ::
  "git \<Rightarrow> globber \<Rightarrow> repository \<Rightarrow> revision_id \<Rightarrow> pattern list \<Rightarrow> string + source_entry list" where
  "commit_enumerate git glob repo revision patterns =
     (case revision of
        RevWorktree w h d \<Rightarrow> Inl ''Git tree enumeration requires a commit revision''
      | RevCommit commit \<Rightarrow>
          rbind (glob patterns) (\<lambda>matcher.
          rbind (git_out git ''enumerate Git tree'' (''git ls-tree failed for '' @ commit)
              [''ls-tree'', ''-r'', ''-l'', ''-z'', commit]) (\<lambda>out.
          rbind (rmap_all (tree_row repo revision commit matcher) (nul_records out)) (\<lambda>rows.
          Inr (sort_key (\<lambda>r. sr_path (se_source r)) (some_values rows))))))"

subsection \<open>A source tree\<close>

definition tree_enumerate ::
  "('x) ext_scheme \<Rightarrow> git \<Rightarrow> walker \<Rightarrow> globber \<Rightarrow> fs \<Rightarrow> int \<Rightarrow> repository \<Rightarrow> revision_id \<Rightarrow> pattern list \<Rightarrow>
     (worktree_cache, string, source_entry list) stm" where
  "tree_enumerate X git walks glob fs now repo revision patterns =
     (case revision of
        RevWorktree w h d \<Rightarrow> worktree_enumerate X walks glob fs now repo revision patterns
      | RevCommit c \<Rightarrow> io_read (\<lambda>_. commit_enumerate git glob repo revision patterns))"

definition tree_snapshot ::
  "('x) ext_scheme \<Rightarrow> git \<Rightarrow> walker \<Rightarrow> globber \<Rightarrow> fs \<Rightarrow> int \<Rightarrow> repository \<Rightarrow> source_query \<Rightarrow>
     (worktree_cache, string, source_snapshot) stm" where
  "tree_snapshot X git walks glob fs now repo query =
     io_bind (io_read (\<lambda>_. resolve_revision git repo (sq_revision query))) (\<lambda>revision.
     io_bind (tree_enumerate X git walks glob fs now repo revision (sq_patterns query)) (\<lambda>files.
     io_ok \<lparr>sn_revision = revision, sn_files = files,
       sn_directories = map (\<lambda>p. \<lparr>de_repository = repo_identity repo, de_revision = revision, de_path = p\<rparr>)
         (snapshot_directories files)\<rparr>))"

end
