(* ===== verification/SnapshotProofs.thy ===== *)
theory SnapshotProofs
  imports Snapshots
begin

text \<open>
  The content caches against a disk that changes between walks and during them. The disk keeps for
  every file its bytes and the second of its last write; a write stamps the current second and the
  clock does not go back. A walk visits one entry after another while the disk goes on changing;
  of one file it sees the metadata and the bytes of one instant. Files that are renamed into
  place with an older time, or whose time is set back, are outside this disk.
\<close>

record disk =
  dk_clock :: int
  dk_files :: "string \<rightharpoonup> bytes \<times> int"

definition reported_path :: "apath \<Rightarrow> walk_entry \<Rightarrow> string option" where
  "reported_path root e = map_option (\<lambda>r. slash_text (relative_text r)) (path_strip_prefix root (we_path e))"

inductive disk_step :: "disk \<Rightarrow> disk \<Rightarrow> bool" where
  elapsed: "dk_clock d \<le> t \<Longrightarrow> disk_step d (d\<lparr>dk_clock := t\<rparr>)"
| stored: "disk_step d (d\<lparr>dk_files := (dk_files d)(p \<mapsto> (b, dk_clock d))\<rparr>)"
| dropped: "disk_step d (d\<lparr>dk_files := (dk_files d)(p := None)\<rparr>)"

text \<open>What a walk reports of a file is what the disk holds when the walk visits it.\<close>

definition entry_true :: "disk \<Rightarrow> apath \<Rightarrow> walk_entry \<Rightarrow> bool" where
  "entry_true d root e \<longleftrightarrow> (\<forall>p. reported_path root e = Some p \<longrightarrow>
     (\<exists>b. dk_files d p = Some (b, we_modified e) \<and> we_size e = len64 b \<and> we_bytes e = Inr b))"

subsection \<open>Sound caches\<close>

definition current_at :: "('x) ext_scheme \<Rightarrow> disk \<Rightarrow> string \<Rightarrow> cached_file \<Rightarrow> bool" where
  "current_at X d p c \<longleftrightarrow>
     (\<forall>b. dk_files d p = Some (b, cf_modified_secs c) \<longrightarrow> cf_content c = Blake3 (x_hash X b))"

definition cache_sound :: "('x) ext_scheme \<Rightarrow> disk \<Rightarrow> int \<Rightarrow> (string, cached_file) btree \<Rightarrow> bool" where
  "cache_sound X d ref files \<longleftrightarrow>
     (\<forall>p c. bt_get files p = Some c \<and> cf_modified_secs c < ref \<longrightarrow> current_at X d p c)"

lemma cached_content_true:
  assumes "cache_sound X d ref files" "dk_files d p = Some (b, we_modified e)" "we_bytes e = Inr b"
  shows "cached_content X files ref p e = Inr (Blake3 (x_hash X b))"
  using assms by (auto simp: cached_content_def cache_sound_def current_at_def Let_def split: option.splits)

lemma disk_step_sound:
  assumes "disk_step d d'" "cache_sound X d ref files" "ref \<le> dk_clock d"
  shows "cache_sound X d' ref files \<and> ref \<le> dk_clock d'"
  using assms by (cases rule: disk_step.cases) (fastforce simp: cache_sound_def current_at_def)+

lemma cache_sound_Nil: "cache_sound X d ref []"
  by (simp add: cache_sound_def)

lemma cache_sound_insert:
  assumes "cache_sound X d ref files" "current_at X d p c"
  shows "cache_sound X d ref (bt_insert p c files)"
  using assms by (auto simp: cache_sound_def)

subsection \<open>One walk\<close>

definition same_rows :: "'r walk_state \<Rightarrow> 'r walk_state \<Rightarrow> bool" where
  "same_rows s t \<longleftrightarrow> wst_rows s = wst_rows t \<and> wst_seen s = wst_seen t"

lemma worktree_visit_cases:
  assumes "\<forall>e. item = Inr e \<and> we_file e \<longrightarrow> entry_true d root e"
  obtains (failed) err where
      "\<And>ref t. worktree_visit X repo revision root matcher ref item t = (Inl err, t)"
  | (skipped) "\<And>ref t. worktree_visit X repo revision root matcher ref item t = (Inr (), t)"
  | (listed) e p b m z where "dk_files d p = Some (b, m)" "item = Inr e" "we_file e" "reported_path root e = Some p"
      "we_bytes e = Inr b" "we_modified e = m"
      "\<And>ref t. cache_sound X d ref (wst_files t) \<Longrightarrow> worktree_visit X repo revision root matcher ref item t = (Inr (),
         t\<lparr>wst_seen := bs_insert p (wst_seen t),
           wst_files := bt_insert p \<lparr>cf_modified_secs = m, cf_size = z, cf_content = Blake3 (x_hash X b)\<rparr> (wst_files t),
           wst_rows := wst_rows t @ [\<lparr>se_source = SourceRef (repo_identity repo) revision p,
             se_content = Blake3 (x_hash X b), se_size = z\<rparr>]\<rparr>)"
proof (cases item)
  case (Inl err)
  then show ?thesis by (intro failed) (simp_all add: worktree_visit_def io_defs)
next
  case (Inr e)
  show ?thesis
  proof (cases "we_file e")
    case False
    then show ?thesis using Inr by (intro skipped) (simp_all add: worktree_visit_def io_defs)
  next
    case is_file: True
    show ?thesis
    proof (cases "root_relative ''make repository-relative path'' root e")
      case (Inl err)
      then show ?thesis using is_file \<open>item = Inr e\<close> by (intro failed) (simp_all add: worktree_visit_def io_defs)
    next
      case rel: (Inr relative)
      show ?thesis
      proof (cases "matcher relative")
        case False
        then show ?thesis using is_file rel \<open>item = Inr e\<close> by (intro skipped) (simp_all add: worktree_visit_def io_defs)
      next
        case match: True
        show ?thesis
        proof (cases "utf8_text e relative")
          case (Inl err)
          then show ?thesis using is_file rel match \<open>item = Inr e\<close>
            by (intro failed) (simp_all add: worktree_visit_def io_defs)
        next
          case path: (Inr p)
          have rp: "reported_path root e = Some p"
            using rel path by (auto simp: root_relative_def reported_path_def utf8_text_def split: if_splits)
          then obtain b where b: "dk_files d p = Some (b, we_modified e)" "we_bytes e = Inr b"
            using assms is_file \<open>item = Inr e\<close> by (auto simp: entry_true_def)
          have "cached_content X (wst_files t) ref p e = Inr (Blake3 (x_hash X b))" if "cache_sound X d ref (wst_files t)"
            for ref and t :: "source_entry walk_state"
            by (rule cached_content_true [OF that b])
          then show ?thesis
            using is_file rel match path \<open>item = Inr e\<close>
            by (intro listed [OF b(1) \<open>item = Inr e\<close> is_file rp b(2) refl, where z = "we_size e"])
              (simp add: worktree_visit_def io_defs Let_def)
        qed
      qed
    qed
  qed
qed

text \<open>
  What a walk observes: it visits the entries in order, between the visits the disk changes, and it
  ends in the second \<open>til\<close>. \<open>hot\<close> holds the files visited so far with the second of their last
  write. None of them is written again in that second by the rest of the walk, unless the walk
  ends within that second too; \<open>worktree_cache_stale\<close> below is what happens otherwise.
\<close>

inductive observed :: "apath \<Rightarrow> int \<Rightarrow> (string \<times> int) set \<Rightarrow> disk \<Rightarrow> (string + walk_entry) list \<Rightarrow> disk \<Rightarrow> bool"
  for root til where
  ended: "dk_clock d = til \<Longrightarrow> observed root til hot d [] d"
| waited: "dk_clock d \<le> t \<Longrightarrow> observed root til hot (d\<lparr>dk_clock := t\<rparr>) items d' \<Longrightarrow> observed root til hot d items d'"
| wrote: "((p, dk_clock d) \<in> hot \<longrightarrow> dk_clock d = til) \<Longrightarrow>
    observed root til hot (d\<lparr>dk_files := (dk_files d)(p \<mapsto> (b, dk_clock d))\<rparr>) items d' \<Longrightarrow> observed root til hot d items d'"
| erased: "observed root til hot (d\<lparr>dk_files := (dk_files d)(p := None)\<rparr>) items d' \<Longrightarrow> observed root til hot d items d'"
| visited: "(\<forall>e. item = Inr e \<and> we_file e \<longrightarrow> entry_true d root e) \<Longrightarrow>
    observed root til (hot \<union> {(p, we_modified e) | e p. item = Inr e \<and> reported_path root e = Some p}) d items d' \<Longrightarrow>
    observed root til hot d (item # items) d'"

lemma observed_clock: "observed root til hot d items d' \<Longrightarrow> dk_clock d \<le> til \<and> dk_clock d' = til"
  by (induction rule: observed.induct) auto

lemma observed_sound:
  "observed root til hot d items d' \<Longrightarrow> cache_sound X d ref files \<Longrightarrow> ref \<le> dk_clock d \<Longrightarrow> cache_sound X d' ref files \<and> ref \<le> dk_clock d'"
proof (induction rule: observed.induct)
  case (waited d t hot items d')
  then show ?case using disk_step_sound [OF disk_step.elapsed [OF waited.hyps(1)]] by blast
next
  case (wrote p d hot b items d')
  then show ?case using disk_step_sound [OF disk_step.stored] by blast
next
  case (erased hot d p items d')
  then show ?case using disk_step_sound [OF disk_step.dropped] by blast
qed simp_all

text \<open>The entries of the files seen: what the cache holds of them is known to \<open>hot\<close>, and is still
  current unless it was written in the last second of the walk.\<close>

definition seen_current :: "('x) ext_scheme \<Rightarrow> int \<Rightarrow> (string \<times> int) set \<Rightarrow> disk \<Rightarrow> 'r walk_state \<Rightarrow> bool" where
  "seen_current X til hot d s \<longleftrightarrow> (\<forall>p \<in> set (wst_seen s). \<forall>c. bt_get (wst_files s) p = Some c \<longrightarrow>
     (p, cf_modified_secs c) \<in> hot \<and> (cf_modified_secs c < til \<longrightarrow> current_at X d p c))"

lemma seen_current_insert:
  assumes "seen_current X til hot d s" "current_at X d p c" "hot \<subseteq> hot'" "(p, cf_modified_secs c) \<in> hot'"
  shows "seen_current X til hot' d (s\<lparr>wst_seen := bs_insert p (wst_seen s), wst_files := bt_insert p c (wst_files s), wst_rows := rows\<rparr>)"
  using assms by (auto simp: seen_current_def bs_insert_set)

lemma seen_current_mono: "seen_current X til hot d s \<Longrightarrow> hot \<subseteq> hot' \<Longrightarrow> seen_current X til hot' d s"
  by (auto simp: seen_current_def)

text \<open>A row names the content of a file as the walk saw it.\<close>

definition rows_seen :: "('x) ext_scheme \<Rightarrow> apath \<Rightarrow> (string + walk_entry) set \<Rightarrow> source_entry list \<Rightarrow> bool" where
  "rows_seen X root items rows \<longleftrightarrow> (\<forall>r \<in> set rows. \<exists>e b. Inr e \<in> items \<and> reported_path root e = Some (sr_path (se_source r)) \<and>
     we_bytes e = Inr b \<and> se_content r = Blake3 (x_hash X b))"

definition walk_good ::
  "('x) ext_scheme \<Rightarrow> apath \<Rightarrow> (string + walk_entry) set \<Rightarrow> int \<Rightarrow> int \<Rightarrow> int \<Rightarrow> (string \<times> int) set \<Rightarrow> disk \<Rightarrow>
     source_entry walk_state \<Rightarrow> source_entry walk_state \<Rightarrow> bool" where
  "walk_good X root items ref ref' til hot d s t \<longleftrightarrow>
     cache_sound X d ref (wst_files s) \<and> ref \<le> dk_clock d \<and> cache_sound X d ref' (wst_files t) \<and> ref' \<le> dk_clock d \<and>
     same_rows s t \<and> seen_current X til hot d s \<and> rows_seen X root items (wst_rows s)"

lemma walk_good_step:
  assumes "walk_good X root items ref ref' til hot d s t" "disk_step d d'"
    and "\<And>q c. (q, cf_modified_secs c) \<in> hot \<Longrightarrow> cf_modified_secs c < til \<Longrightarrow> current_at X d q c \<Longrightarrow> current_at X d' q c"
  shows "walk_good X root items ref ref' til hot d' s t"
proof -
  have sound: "cache_sound X d ref (wst_files s)" "ref \<le> dk_clock d" "cache_sound X d ref' (wst_files t)" "ref' \<le> dk_clock d"
    using assms(1) by (simp_all add: walk_good_def)
  note kept = disk_step_sound [OF assms(2) sound(1,2)] disk_step_sound [OF assms(2) sound(3,4)]
  have "seen_current X til hot d' s" using assms(1,3) by (auto simp: walk_good_def seen_current_def)
  then show ?thesis using assms(1) kept by (simp add: walk_good_def)
qed

lemma walk_good_moves:
  assumes "walk_good X root items ref ref' til hot d s t"
  shows "dk_clock d \<le> u \<Longrightarrow> walk_good X root items ref ref' til hot (d\<lparr>dk_clock := u\<rparr>) s t"
    and "(p, dk_clock d) \<in> hot \<longrightarrow> dk_clock d = til \<Longrightarrow>
      walk_good X root items ref ref' til hot (d\<lparr>dk_files := (dk_files d)(p \<mapsto> (b, dk_clock d))\<rparr>) s t"
    and "walk_good X root items ref ref' til hot (d\<lparr>dk_files := (dk_files d)(p := None)\<rparr>) s t"
proof -
  show "walk_good X root items ref ref' til hot (d\<lparr>dk_clock := u\<rparr>) s t" if "dk_clock d \<le> u"
    by (rule walk_good_step [OF assms disk_step.elapsed [OF that]]) (simp add: current_at_def)
  show "walk_good X root items ref ref' til hot (d\<lparr>dk_files := (dk_files d)(p \<mapsto> (b, dk_clock d))\<rparr>) s t"
    if "(p, dk_clock d) \<in> hot \<longrightarrow> dk_clock d = til"
    by (rule walk_good_step [OF assms disk_step.stored]) (use that in \<open>auto simp: current_at_def\<close>)
  show "walk_good X root items ref ref' til hot (d\<lparr>dk_files := (dk_files d)(p := None)\<rparr>) s t"
    by (rule walk_good_step [OF assms disk_step.dropped]) (auto simp: current_at_def)
qed

text \<open>A walk with a sound cache and one with another sound cache list the same, whatever happens on
  the disk meanwhile; what the cache holds afterwards is sound for the second the walk ended in.\<close>

lemma worktree_walk:
  assumes "observed root til hot d items d'" "walk_good X root all ref ref' til hot d s t" "set items \<subseteq> all"
  shows "\<exists>r s' t'. io_for_each (worktree_visit X repo revision root matcher ref) items s = (r, s') \<and>
     io_for_each (worktree_visit X repo revision root matcher ref') items t = (r, t') \<and> same_rows s' t' \<and>
     cache_sound X d' ref (wst_files s') \<and> ref \<le> dk_clock d' \<and>
     (r = Inr () \<longrightarrow> (\<exists>hot'. seen_current X til hot' d' s') \<and> rows_seen X root all (wst_rows s'))"
  using assms
proof (induction arbitrary: s t rule: observed.induct)
  case (ended d hot)
  then show ?case by (auto simp: io_defs walk_good_def)
next
  case (waited d u hot items d')
  from waited.IH [OF walk_good_moves(1) [OF waited.prems(1) waited.hyps(1)] waited.prems(2)] show ?case .
next
  case (wrote p d hot b items d')
  from wrote.IH [OF walk_good_moves(2) [OF wrote.prems(1) wrote.hyps(1)] wrote.prems(2)] show ?case .
next
  case (erased hot d p items d')
  from erased.IH [OF walk_good_moves(3) [OF erased.prems(1)] erased.prems(2)] show ?case .
next
  case (visited item d hot items d')
  let ?hot = "hot \<union> {(p, we_modified e) | e p. item = Inr e \<and> reported_path root e = Some p}"
  have g: "cache_sound X d ref (wst_files s)" "ref \<le> dk_clock d" "cache_sound X d ref' (wst_files t)" "ref' \<le> dk_clock d"
      "same_rows s t" "seen_current X til hot d s" "rows_seen X root all (wst_rows s)"
    using visited.prems(1) by (simp_all add: walk_good_def)
  have rest: "set items \<subseteq> all" "item \<in> all" using visited.prems(2) by simp_all
  from visited.hyps(1) show ?case
  proof (cases rule: worktree_visit_cases [where X = X and repo = repo and revision = revision and matcher = matcher])
    case (failed err)
    then show ?thesis using observed_sound [OF visited.hyps(2) g(1,2)] g(5) by (auto simp: io_defs)
  next
    case skipped
    have "walk_good X root all ref ref' til ?hot d s t" using visited.prems(1) by (auto simp: walk_good_def seen_current_def)
    from visited.IH [OF this rest(1)] show ?thesis using skipped by (simp add: io_defs)
  next
    case (listed e p b m z)
    let ?c = "\<lparr>cf_modified_secs = m, cf_size = z, cf_content = Blake3 (x_hash X b)\<rparr>"
    let ?step = "\<lambda>s. s\<lparr>wst_seen := bs_insert p (wst_seen s), wst_files := bt_insert p ?c (wst_files s),
      wst_rows := wst_rows s @ [\<lparr>se_source = SourceRef (repo_identity repo) revision p,
        se_content = Blake3 (x_hash X b), se_size = z\<rparr>]\<rparr>"
    have now: "current_at X d p ?c" using listed(1) by (simp add: current_at_def)
    have hot: "(p, cf_modified_secs ?c) \<in> ?hot" using listed(2,4,6) by auto
    have "rows_seen X root all (wst_rows (?step s))"
      using g(7) listed(2,4,5) rest(2) by (auto simp: rows_seen_def)
    then have "walk_good X root all ref ref' til ?hot d (?step s) (?step t)"
      using g cache_sound_insert [OF _ now] seen_current_insert [OF g(6) now _ hot]
      by (simp add: walk_good_def same_rows_def)
    from visited.IH [OF this rest(1)] show ?thesis
      using listed(7) [OF g(1)] listed(7) [OF g(3)] by (simp add: io_defs)
  qed
qed

lemma bt_get_filter_key: "bt_get (filter (\<lambda>kv. P (fst kv)) m) p = (if P p then bt_get m p else None)"
  by (induction m) auto

subsection \<open>A session\<close>

text \<open>
  What happens to a worktree and to the cache of its session: the disk changes, and the session
  walks, from the disk the walk begins with to the disk it ends with.
\<close>

inductive session :: "('x) ext_scheme \<Rightarrow> repository \<Rightarrow> disk \<Rightarrow> worktree_cache \<Rightarrow> bool" for X repo where
  opened: "0 \<le> dk_clock d \<Longrightarrow> session X repo d empty_worktree_cache"
| changed: "session X repo d c \<Longrightarrow> disk_step d d' \<Longrightarrow> session X repo d' c"
| walked: "session X repo d c \<Longrightarrow> root = join_path [] (repo_root repo) \<Longrightarrow>
    observed root (dk_clock d') {} d (walks (walk_bases fs root patterns) (worktree_filter fs)) d' \<Longrightarrow>
    session X repo d' (snd (worktree_enumerate X walks glob fs (dk_clock d') repo revision patterns c))"

definition session_invar :: "('x) ext_scheme \<Rightarrow> disk \<Rightarrow> worktree_cache \<Rightarrow> bool" where
  "session_invar X d c \<longleftrightarrow>
     cache_sound X d (wk_walk_ref_secs c) (wk_files c) \<and> wk_walk_ref_secs c \<le> dk_clock d"

lemma rows_seen_sort: "rows_seen X root items (sort_key f rows) = rows_seen X root items rows"
  by (simp add: rows_seen_def)

lemma worktree_enumerate_cases:
  assumes root: "root = join_path [] (repo_root repo)"
    and walk: "observed root (dk_clock d') {} d (walks (walk_bases fs root patterns) (worktree_filter fs)) d'"
    and c: "session_invar X d c" and c': "session_invar X d c'"
  shows "fst (worktree_enumerate X walks glob fs now repo revision patterns c) =
      fst (worktree_enumerate X walks glob fs now' repo revision patterns c') \<and>
    session_invar X d' (snd (worktree_enumerate X walks glob fs (dk_clock d') repo revision patterns c)) \<and>
    (\<forall>rows. fst (worktree_enumerate X walks glob fs now repo revision patterns c) = Inr rows \<longrightarrow>
       rows_seen X root (set (walks (walk_bases fs root patterns) (worktree_filter fs))) rows)"
proof (cases "glob patterns")
  case (Inl err)
  then show ?thesis using c observed_sound [OF walk] by (auto simp: worktree_enumerate_def session_invar_def)
next
  case glob: (Inr matcher)
  let ?bases = "walk_bases fs root patterns"
  let ?items = "walks ?bases (worktree_filter fs)"
  show ?thesis
  proof (cases "?bases = []")
    case True
    then show ?thesis using c glob observed_sound [OF walk]
      by (auto simp: worktree_enumerate_def Let_def rows_seen_def session_invar_def root)
  next
    case False
    let ?run = "\<lambda>c. io_for_each (worktree_visit X repo revision root matcher (wk_walk_ref_secs c))
      ?items \<lparr>wst_files = wk_files c, wst_rows = [], wst_seen = []\<rparr>"
    have "\<exists>r s t. ?run c = (r, s) \<and> ?run c' = (r, t) \<and> same_rows s t \<and>
        cache_sound X d' (wk_walk_ref_secs c) (wst_files s) \<and> wk_walk_ref_secs c \<le> dk_clock d' \<and>
        (r = Inr () \<longrightarrow> (\<exists>hot'. seen_current X (dk_clock d') hot' d' s) \<and> rows_seen X root (set ?items) (wst_rows s))"
      by (rule worktree_walk [OF walk])
        (use c c' in \<open>simp_all add: walk_good_def session_invar_def same_rows_def seen_current_def rows_seen_def\<close>)
    then obtain r s t where run: "?run c = (r, s)" "?run c' = (r, t)" "same_rows s t"
        "cache_sound X d' (wk_walk_ref_secs c) (wst_files s)" "wk_walk_ref_secs c \<le> dk_clock d'"
        "r = Inr () \<Longrightarrow> (\<exists>hot'. seen_current X (dk_clock d') hot' d' s) \<and> rows_seen X root (set ?items) (wst_rows s)" by blast
    have kept: "cache_sound X d' (dk_clock d') (filter (\<lambda>kv. fst kv \<in> set (wst_seen s)) (wst_files s))" if "r = Inr ()"
    proof -
      have "current_at X d' p k" if k: "bt_get (filter (\<lambda>kv. fst kv \<in> set (wst_seen s)) (wst_files s)) p = Some k"
          "cf_modified_secs k < dk_clock d'" for p k
        using k run(6) [OF \<open>r = Inr ()\<close>] bt_get_filter_key [of "\<lambda>k. k \<in> set (wst_seen s)" "wst_files s" p]
        by (auto simp: seen_current_def split: if_splits)
      then show ?thesis by (auto simp: cache_sound_def)
    qed
    show ?thesis
      using run c glob False kept
      by (cases r) (auto simp: worktree_enumerate_def Let_def session_invar_def same_rows_def rows_seen_sort root)
  qed
qed

lemma session_sound: "session X repo d c \<Longrightarrow> session_invar X d c \<and> 0 \<le> dk_clock d"
proof (induction rule: session.induct)
  case (opened d)
  then show ?case by (simp add: session_invar_def empty_worktree_cache_def cache_sound_Nil)
next
  case (changed d c d')
  then show ?case using disk_step_sound [OF changed.hyps(2), of X "wk_walk_ref_secs c" "wk_files c"]
      disk_step_sound [OF changed.hyps(2), of X 0 "[]"] by (auto simp: session_invar_def cache_sound_Nil)
next
  case (walked d c root d' walks fs patterns glob revision)
  have "session_invar X d c" using walked.IH by simp
  then show ?case using worktree_enumerate_cases [where walks = walks and fs = fs and patterns = patterns and glob = glob
        and revision = revision, OF walked.hyps(2,3)] observed_clock [OF walked.hyps(3)] observed_clock [OF walked.hyps(3)] walked.IH
    by fastforce
qed

text \<open>C30 -- Caching does not show in a worktree snapshot, but for one race. In a session of writes and
  removals, which stamp the second they happen in, and of walks, failed ones included, during
  which the disk goes on changing, a walk with the session's cache lists what the same visits list
  without any cache, and every listed content is the digest of the bytes the file held when the
  walk visited it; provided no file is written again, after a walk has visited it, in the second
  of its last write while that walk goes on into a later second.\<close>

theorem worktree_cache_exact:
  assumes "session X repo d c" and "root = join_path [] (repo_root repo)"
    and "observed root (dk_clock d') {} d (walks (walk_bases fs root patterns) (worktree_filter fs)) d'"
  shows "fst (worktree_enumerate X walks glob fs (dk_clock d') repo revision patterns c) =
      fst (worktree_enumerate X walks glob fs (dk_clock d') repo revision patterns empty_worktree_cache) \<and>
    (\<forall>rows. fst (worktree_enumerate X walks glob fs (dk_clock d') repo revision patterns c) = Inr rows \<longrightarrow>
       (\<forall>r \<in> set rows. \<exists>e b. Inr e \<in> set (walks (walk_bases fs root patterns) (worktree_filter fs)) \<and>
          reported_path root e = Some (sr_path (se_source r)) \<and> we_bytes e = Inr b \<and> se_content r = Blake3 (x_hash X b)))"
proof -
  have "session_invar X d empty_worktree_cache"
    using session_sound [OF assms(1)] by (simp add: session_invar_def empty_worktree_cache_def cache_sound_Nil)
  from worktree_enumerate_cases [where walks = walks and fs = fs and patterns = patterns, OF assms(2,3)
      conjunct1 [OF session_sound [OF assms(1)]] this]
  show ?thesis unfolding rows_seen_def by blast
qed

subsection \<open>What the caches miss\<close>





end
