(* ===== verification/Diffs.thy ===== *)
theory Diffs
  imports Observed
begin

text \<open>
  The differences between two snapshots, \<open>diff_refs\<close> of \<open>soopy/src/_11_refs.rs\<close> and \<open>diff\<close>,
  \<open>diff_directory\<close>, \<open>diff_worktrees\<close>, \<open>diff_repository\<close> of \<open>_8_watch.rs\<close>. The four differ in the key
  and in what they say of one key; \<open>diff_by\<close> is the frame they share.

  The contract of a difference is the locale \<open>keyed_delta\<close>: replaying what is said of one key
  changes that key, and only it, from the old view to the new. \<open>exact_delta\<close> adds that nothing is
  said of a key whose view did not change.
\<close>

subsection \<open>The frame\<close>

definition index_by :: "('a \<Rightarrow> 'k::linorder) \<Rightarrow> 'a list \<Rightarrow> ('k, 'a) btree" where
  "index_by key es = bt_collect (map (\<lambda>e. (key e, e)) es)"

definition diff_by ::
  "('a \<Rightarrow> 'k::linorder) \<Rightarrow> ('k \<Rightarrow> 'a option \<Rightarrow> 'a option \<Rightarrow> 'd list) \<Rightarrow> 'a list \<Rightarrow> 'a list \<Rightarrow> 'd list" where
  "diff_by key say before after =
     (let b = index_by key before; a = index_by key after
      in concat (map (\<lambda>k. say k (bt_get b k) (bt_get a k)) (remdups_adj (sort (bt_keys b @ bt_keys a)))))"

subsection \<open>The four differences\<close>

fun say_source :: "repo_path \<Rightarrow> source_entry option \<Rightarrow> source_entry option \<Rightarrow> source_delta list" where
  "say_source k None (Some a) = [SourceAdded a]"
| "say_source k (Some b) None = [SourceRemoved (se_source b)]"
| "say_source k (Some b) (Some a) = (if se_content b \<noteq> se_content a then [SourceChanged b a] else [])"
| "say_source k None None = []"

definition listed_path :: "source_entry \<Rightarrow> repo_path" where
  "listed_path e = sr_path (se_source e)"

definition diff_sources :: "source_snapshot \<Rightarrow> source_snapshot \<Rightarrow> source_delta list" where
  "diff_sources before after = diff_by listed_path say_source (sn_files before) (sn_files after)"

fun say_file :: "root_path \<Rightarrow> file_entry option \<Rightarrow> file_entry option \<Rightarrow> directory_delta list" where
  "say_file k None (Some a) = [DirAdded k]"
| "say_file k (Some b) None = [DirRemoved k]"
| "say_file k (Some b) (Some a) = (if fe_content b \<noteq> fe_content a then [DirChanged k] else [])"
| "say_file k None None = []"

definition file_path_of :: "file_entry \<Rightarrow> root_path" where
  "file_path_of e = fr_path (fe_file e)"

definition diff_directory :: "file_snapshot \<Rightarrow> file_snapshot \<Rightarrow> directory_delta list" where
  "diff_directory before after = diff_by file_path_of say_file (fs_files before) (fs_files after)"

fun say_worktree :: "worktree_id \<Rightarrow> worktree_observation option \<Rightarrow> worktree_observation option \<Rightarrow> worktree_delta list" where
  "say_worktree k None (Some a) = [WorktreeAdded a]"
| "say_worktree k (Some b) None = [WorktreeRemoved b]"
| "say_worktree k (Some b) (Some a) = (if b \<noteq> a then [WorktreeChanged b a] else [])"
| "say_worktree k None None = []"

definition diff_worktrees :: "worktree_snapshot \<Rightarrow> worktree_snapshot \<Rightarrow> worktree_delta list" where
  "diff_worktrees before after = diff_by wo_worktree say_worktree (ws_worktrees before) (ws_worktrees after)"

fun say_ref :: "string \<Rightarrow> ref_observation option \<Rightarrow> ref_observation option \<Rightarrow> ref_delta list" where
  "say_ref k None (Some a) = [RefAdded a]"
| "say_ref k (Some b) None = [RefRemoved b]"
| "say_ref k (Some b) (Some a) = (if b \<noteq> a then [RefChanged b a] else [])"
| "say_ref k None None = []"

definition head_of :: "ref_snapshot \<Rightarrow> head_observation" where
  "head_of s = \<lparr>ho_state = rs_head s, ho_target = rs_head_target s\<rparr>"

definition diff_refs :: "ref_snapshot \<Rightarrow> ref_snapshot \<Rightarrow> ref_delta list" where
  "diff_refs before after =
     (if rs_head before \<noteq> rs_head after \<or> rs_head_target before \<noteq> rs_head_target after
      then [HeadChanged (head_of before) (head_of after)] else []) @
     diff_by ro_name say_ref (rs_refs before) (rs_refs after)"

fun worktree_head :: "revision_id \<Rightarrow> object_id option" where
  "worktree_head (RevWorktree w h d) = h"
| "worktree_head (RevCommit c) = None"

definition diff_repository :: "repository_snapshot \<Rightarrow> repository_snapshot \<Rightarrow> repository_delta list" where
  "diff_repository before after =
     (case (rp_refs before, rp_refs after) of
        (Some b, Some a) \<Rightarrow> map DeltaRef (diff_refs b a) | _ \<Rightarrow> []) @
     (case (rp_source before, rp_source after) of
        (Some b, Some a) \<Rightarrow>
          (if worktree_head (sn_revision b) \<noteq> worktree_head (sn_revision a)
           then [DeltaSource (RevisionChanged (sn_revision b) (sn_revision a))] else []) @
          map DeltaSource (diff_sources b a) | _ \<Rightarrow> []) @
     (case (rp_index before, rp_index after) of
        (Some b, Some a) \<Rightarrow> (if b \<noteq> a then [DeltaIndex (IndexChanged b a)] else []) | _ \<Rightarrow> []) @
     (case (rp_worktrees before, rp_worktrees after) of
        (Some b, Some a) \<Rightarrow> map DeltaWorktree (diff_worktrees b a) | _ \<Rightarrow> [])"

subsection \<open>The contract\<close>

lemma bt_get_collect_last: "bt_get (bt_collect kvs) = map_of (rev kvs)"
  unfolding bt_collect_eq by (rule btm.lookup_collect)

lemma index_by_keyed: "bt_get (index_by key es) k = Some a \<Longrightarrow> key a = k"
proof -
  assume "bt_get (index_by key es) k = Some a"
  then have "map_of (rev (map (\<lambda>e. (key e, e)) es)) k = Some a" by (simp add: index_by_def bt_get_collect_last)
  from map_of_SomeD [OF this] show ?thesis by auto
qed

lemma sorted_keys_distinct: "distinct (remdups_adj (sort ks))"
  using sorted_remdups_adj_distinct [of "sort ks"] strict_sorted_iff by auto

definition viewed :: "('a \<Rightarrow> 'v) \<Rightarrow> ('a \<Rightarrow> 'k::linorder) \<Rightarrow> 'a list \<Rightarrow> 'k \<rightharpoonup> 'v" where
  "viewed view key es = (\<lambda>k. map_option view (bt_get (index_by key es) k))"

definition keyed :: "('a \<Rightarrow> 'k) \<Rightarrow> 'k \<Rightarrow> 'a option \<Rightarrow> bool" where
  "keyed key k x \<longleftrightarrow> (\<forall>a. x = Some a \<longrightarrow> key a = k)"

locale keyed_delta =
  fixes key :: "'a \<Rightarrow> 'k::linorder"
    and view :: "'a \<Rightarrow> 'v"
    and say :: "'k \<Rightarrow> 'a option \<Rightarrow> 'a option \<Rightarrow> 'd list"
    and replay :: "'d \<Rightarrow> ('k \<rightharpoonup> 'v) \<Rightarrow> ('k \<rightharpoonup> 'v)"
  assumes replay_say: "keyed key k x \<Longrightarrow> keyed key k y \<Longrightarrow> m k = map_option view x \<Longrightarrow>
    fold replay (say k x y) m = m(k := map_option view y)"
begin

lemma index_keyed: "keyed key k (bt_get (index_by key es) k)"
  using index_by_keyed by (auto simp: keyed_def)

lemma replay_keys:
  assumes "distinct ks" "\<And>k. k \<in> set ks \<Longrightarrow> m k = map_option view (b k)"
    and "\<And>k. keyed key k (b k)" "\<And>k. keyed key k (a k)"
  shows "fold replay (concat (map (\<lambda>k. say k (b k) (a k)) ks)) m =
    (\<lambda>k. if k \<in> set ks then map_option view (a k) else m k)"
  using assms(1,2)
proof (induction ks arbitrary: m)
  case (Cons k ks)
  let ?m = "m(k := map_option view (a k))"
  have "fold replay (say k (b k) (a k)) m = ?m" using replay_say assms(3,4) Cons.prems(2) by simp
  then have "fold replay (concat (map (\<lambda>k. say k (b k) (a k)) (k # ks))) m =
      fold replay (concat (map (\<lambda>k. say k (b k) (a k)) ks)) ?m"
    by (simp del: fun_upd_apply)
  also have "\<dots> = (\<lambda>k. if k \<in> set ks then map_option view (a k) else ?m k)"
    using Cons.prems by (intro Cons.IH) auto
  also have "\<dots> = (\<lambda>x. if x \<in> set (k # ks) then map_option view (a x) else m x)"
    using Cons.prems(1) by (auto simp: fun_eq_iff)
  finally show ?case .
qed simp

theorem replay_diff:
  "fold replay (diff_by key say before after) (viewed view key before) = viewed view key after"
proof -
  let ?b = "index_by key before" and ?a = "index_by key after"
  let ?ks = "remdups_adj (sort (bt_keys ?b @ bt_keys ?a))"
  have ks: "distinct ?ks" "set ?ks = dom (bt_get ?b) \<union> dom (bt_get ?a)"
    by (simp_all add: sorted_keys_distinct bt_keys_def dom_map_of_conv_image_fst)
  have "fold replay (diff_by key say before after) (viewed view key before) =
      (\<lambda>k. if k \<in> set ?ks then map_option view (bt_get ?a k) else viewed view key before k)"
    unfolding diff_by_def Let_def by (rule replay_keys) (use ks(1) index_keyed in \<open>auto simp: viewed_def\<close>)
  also have "\<dots> = viewed view key after"
  proof (rule ext)
    fix k
    have "bt_get ?b k = None \<and> bt_get ?a k = None" if "k \<notin> set ?ks" using that unfolding ks(2) by auto
    then show "(if k \<in> set ?ks then map_option view (bt_get ?a k) else viewed view key before k) = viewed view key after k"
      by (auto simp: viewed_def)
  qed
  finally show ?thesis .
qed

end

locale exact_delta = keyed_delta key view say replay
  for key :: "'a \<Rightarrow> 'k::linorder" and view :: "'a \<Rightarrow> 'v" and say and replay :: "'d \<Rightarrow> ('k \<rightharpoonup> 'v) \<Rightarrow> ('k \<rightharpoonup> 'v)" +
  assumes say_nothing: "map_option view x = map_option view y \<Longrightarrow> say k x y = []"
begin

theorem silent_diff:
  "diff_by key say before after = [] \<longleftrightarrow> viewed view key before = viewed view key after"
proof
  assume "diff_by key say before after = []"
  then show "viewed view key before = viewed view key after" using replay_diff [of before after] by simp
next
  assume "viewed view key before = viewed view key after"
  then have "map_option view (bt_get (index_by key before) k) = map_option view (bt_get (index_by key after) k)" for k
    by (metis viewed_def)
  then show "diff_by key say before after = []" by (simp add: diff_by_def Let_def say_nothing)
qed

end

subsection \<open>The four meet it\<close>

fun replay_source :: "source_delta \<Rightarrow> (repo_path \<rightharpoonup> content_id) \<Rightarrow> (repo_path \<rightharpoonup> content_id)" where
  "replay_source (SourceAdded e) m = m(listed_path e \<mapsto> se_content e)"
| "replay_source (SourceChanged b a) m = m(listed_path a \<mapsto> se_content a)"
| "replay_source (SourceRemoved s) m = m(sr_path s := None)"
| "replay_source d m = m"

fun replay_file :: "directory_delta \<Rightarrow> (root_path \<rightharpoonup> unit) \<Rightarrow> (root_path \<rightharpoonup> unit)" where
  "replay_file (DirAdded p) m = m(p \<mapsto> ())"
| "replay_file (DirRemoved p) m = m(p := None)"
| "replay_file d m = m"

fun replay_worktree ::
  "worktree_delta \<Rightarrow> (worktree_id \<rightharpoonup> worktree_observation) \<Rightarrow> (worktree_id \<rightharpoonup> worktree_observation)" where
  "replay_worktree (WorktreeAdded a) m = m(wo_worktree a \<mapsto> a)"
| "replay_worktree (WorktreeChanged b a) m = m(wo_worktree a \<mapsto> a)"
| "replay_worktree (WorktreeRemoved b) m = m(wo_worktree b := None)"

fun replay_ref :: "ref_delta \<Rightarrow> (string \<rightharpoonup> ref_observation) \<Rightarrow> (string \<rightharpoonup> ref_observation)" where
  "replay_ref (RefAdded a) m = m(ro_name a \<mapsto> a)"
| "replay_ref (RefChanged b a) m = m(ro_name a \<mapsto> a)"
| "replay_ref (RefRemoved b) m = m(ro_name b := None)"
| "replay_ref (HeadChanged b a) m = m"

interpretation sources: exact_delta listed_path se_content say_source replay_source
proof
  fix k x y and m :: "repo_path \<rightharpoonup> content_id"
  assume "keyed listed_path k x" "keyed listed_path k y" "m k = map_option se_content x"
  then show "fold replay_source (say_source k x y) m = m(k := map_option se_content y)"
    by (cases x; cases y) (auto simp: keyed_def listed_path_def fun_eq_iff)
next
  fix k and x y :: "source_entry option"
  assume "map_option se_content x = map_option se_content y"
  then show "say_source k x y = []" by (cases x; cases y) auto
qed

interpretation files: keyed_delta file_path_of "\<lambda>e. ()" say_file replay_file
proof
  fix k x y and m :: "root_path \<rightharpoonup> unit"
  assume "keyed file_path_of k x" "keyed file_path_of k y" "m k = map_option (\<lambda>e. ()) x"
  then show "fold replay_file (say_file k x y) m = m(k := map_option (\<lambda>e. ()) y)"
    by (cases x; cases y) (auto simp: keyed_def fun_eq_iff)
qed

interpretation worktrees: exact_delta wo_worktree "\<lambda>w. w" say_worktree replay_worktree
proof
  fix k and x y :: "worktree_observation option" and m
  assume "keyed wo_worktree k x" "keyed wo_worktree k y" "m k = map_option (\<lambda>w. w) x"
  then show "fold replay_worktree (say_worktree k x y) m = m(k := map_option (\<lambda>w. w) y)"
    by (cases x; cases y) (auto simp: keyed_def fun_eq_iff)
next
  fix k and x y :: "worktree_observation option"
  assume "map_option (\<lambda>w. w) x = map_option (\<lambda>w. w) y"
  then show "say_worktree k x y = []" by (cases x; cases y) auto
qed

interpretation refs: exact_delta ro_name "\<lambda>r. r" say_ref replay_ref
proof
  fix k and x y :: "ref_observation option" and m
  assume "keyed ro_name k x" "keyed ro_name k y" "m k = map_option (\<lambda>r. r) x"
  then show "fold replay_ref (say_ref k x y) m = m(k := map_option (\<lambda>r. r) y)"
    by (cases x; cases y) (auto simp: keyed_def fun_eq_iff)
next
  fix k and x y :: "ref_observation option"
  assume "map_option (\<lambda>r. r) x = map_option (\<lambda>r. r) y"
  then show "say_ref k x y = []" by (cases x; cases y) auto
qed

end
