(* ===== verification/Refs.thy ===== *)
theory Refs
  imports Observed
begin

text \<open>
  Refs and tags, \<open>soopy/src/_11_refs.rs\<close>: one \<open>git for-each-ref\<close> with NUL between the fields of a
  record and a line feed after it, the messages of annotated tags from one
  \<open>git cat-file --batch\<close>, \<open>HEAD\<close> from \<open>symbolic-ref\<close> and \<open>rev-parse\<close>. A slice out of bounds
  panics; a computation that may panic is an \<open>option\<close>, \<open>None\<close> the panic.
\<close>

subsection \<open>Fields\<close>

definition FORMAT :: string where
  "FORMAT = ''%(refname)%00%(objectname)%00%(*objectname)%00%(objecttype)%00%(*objecttype)%00'' @
     ''%(symref)%00%(taggername)%00%(taggeremail)%00%(taggerdate:unix)''"

definition FIELD_COUNT :: nat where
  "FIELD_COUNT = 9"

definition object_kind_of :: "string \<Rightarrow> string + object_kind" where
  "object_kind_of v =
     (if v = ''blob'' then Inr ObjBlob else if v = ''tree'' then Inr ObjTree
      else if v = ''commit'' then Inr ObjCommit else if v = ''tag'' then Inr ObjTag
      else Inl (''unknown Git object type '' @ dbg_str v))"

definition optional_str :: "string \<Rightarrow> string option" where
  "optional_str v = (if v = [] then None else Some v)"

text \<open>\<open>str::parse::<i64>()\<close>: a sign, then at least one decimal digit, within 64 signed bits.\<close>

fun decimal :: "nat \<Rightarrow> string \<Rightarrow> nat option" where
  "decimal acc [] = Some acc"
| "decimal acc (c # cs) = (case digit_value c of None \<Rightarrow> None | Some d \<Rightarrow> decimal (10 * acc + d) cs)"

definition parse_i64 :: "string \<Rightarrow> int option" where
  "parse_i64 s =
     (let (negative, digits) = (case s of [] \<Rightarrow> (False, [])
        | c # cs \<Rightarrow> if c = CHR ''-'' then (True, cs) else if c = CHR ''+'' then (False, cs) else (False, s))
      in if digits = [] then None
         else case decimal 0 digits of
           None \<Rightarrow> None
         | Some n \<Rightarrow>
             (let v = (if negative then - int n else int n)
              in if - (2 ^ 63) \<le> v \<and> v < 2 ^ 63 then Some v else None))"

definition trim_start_char :: "char \<Rightarrow> string \<Rightarrow> string" where
  "trim_start_char c s = dropWhile (\<lambda>x. x = c) s"

definition trim_end_char :: "char \<Rightarrow> string \<Rightarrow> string" where
  "trim_end_char c s = rev (dropWhile (\<lambda>x. x = c) (rev s))"

definition tagger_of :: "string list \<Rightarrow> string + tagger" where
  "tagger_of cells =
     (let email = trim_end_char CHR ''>'' (trim_start_char CHR ''<'' (cells ! 7))
      in rbind (ok_or ''parse tagger timestamp'' (parse_i64 (cells ! 8)))
           (\<lambda>w. Inr \<lparr>tg_name = cells ! 6, tg_email = email, tg_when = w\<rparr>))"

subsection \<open>One record\<close>

definition ref_row ::
  "repository \<Rightarrow> string option \<Rightarrow> (string \<Rightarrow> bool) option \<Rightarrow> string \<Rightarrow> string + ref_observation option" where
  "ref_row repo exact matcher record =
     (let cells = split_on nul record
      in if length cells \<noteq> FIELD_COUNT then Inl ''malformed git for-each-ref record''
         else let name = cells ! 0
         in if (case exact of Some n \<Rightarrow> name \<noteq> n
                | None \<Rightarrow> (case matcher of Some m \<Rightarrow> \<not> m name | None \<Rightarrow> False)) then Inr None
         else rbind (object_kind_of (cells ! 3)) (\<lambda>kind.
           rbind (if kind = ObjTag
                then rbind (object_kind_of (cells ! 4)) (\<lambda>target.
                     rbind (tagger_of cells) (\<lambda>t.
                     Inr (Some \<lparr>tm_target_kind = target, tm_tagger = t, tm_message = []\<rparr>)))
                else Inr None) (\<lambda>tag.
           Inr (Some \<lparr>ro_repository = repo_identity repo, ro_name = name, ro_symbolic = optional_str (cells ! 5),
             ro_direct = cells ! 1, ro_peeled = optional_str (cells ! 2), ro_kind = kind, ro_tag = tag\<rparr>))))"

subsection \<open>Tag messages\<close>

text \<open>\<open>text.find("\n\n")\<close>, the text after it.\<close>

fun after_blank_line :: "string \<Rightarrow> string option" where
  "after_blank_line (c # d # s) =
     (if c = line_feed \<and> d = line_feed then Some s else after_blank_line (d # s))"
| "after_blank_line s = None"

definition extract_message :: "bytes \<Rightarrow> string" where
  "extract_message body =
     (case after_blank_line (text_lossy body) of
        None \<Rightarrow> []
      | Some s \<Rightarrow> trim_end_char line_feed s)"

text \<open>One answer of \<open>cat-file --batch\<close>: header line, body, line feed.\<close>

definition tag_answer :: "object_id \<Rightarrow> bytes \<Rightarrow> (string + string \<times> bytes) option" where
  "tag_answer oid rest =
     (if (10 :: u8) \<notin> set rest then Some (Inl (''git cat-file header missing for '' @ oid))
      else let head = takeWhile (\<lambda>b. b \<noteq> 10) rest; rest = tl (dropWhile (\<lambda>b. b \<noteq> 10) rest)
      in case from_utf8 ''cat-file header not UTF-8'' head of
           Inl e \<Rightarrow> Some (Inl e)
         | Inr header \<Rightarrow>
             (let ws = split_whitespace header
              in if length ws \<noteq> 3 then Some (Inl (''unexpected cat-file header for '' @ oid @ '': '' @ dbg_str header))
                 else case parse_usize (ws ! 2) of
                   None \<Rightarrow> Some (Inl ''parse tag object size'')
                 | Some n \<Rightarrow>
                     (if length rest < n + 1 then None
                      else Some (Inr (extract_message (take n rest), drop (n + 1) rest)))))"

fun tag_answers :: "object_id list \<Rightarrow> bytes \<Rightarrow> (string + (object_id \<times> string) list) option" where
  "tag_answers [] rest = Some (Inr [])"
| "tag_answers (oid # oids) rest =
     (case tag_answer oid rest of
        None \<Rightarrow> None
      | Some (Inl e) \<Rightarrow> Some (Inl e)
      | Some (Inr (message, rest)) \<Rightarrow>
          (case tag_answers oids rest of
             None \<Rightarrow> None
           | Some (Inl e) \<Rightarrow> Some (Inl e)
           | Some (Inr answers) \<Rightarrow> Some (Inr ((oid, message) # answers))))"

definition tag_messages :: "git \<Rightarrow> repository \<Rightarrow> object_id list \<Rightarrow> (string + (object_id, string) btree) option" where
  "tag_messages git repo oids =
     (case git [''cat-file'', ''--batch''] (bytes_of (concat (map (\<lambda>oid. oid @ [line_feed]) oids))) of
        Inl e \<Rightarrow> Some (Inl ''start git cat-file --batch'')
      | Inr out \<Rightarrow>
          (if \<not> go_success out then Some (Inl (''git cat-file failed in '' @ repo_root repo))
           else map_option (map_sum id bt_collect) (tag_answers oids (go_stdout out))))"

definition fill_message :: "(object_id, string) btree \<Rightarrow> ref_observation \<Rightarrow> ref_observation" where
  "fill_message messages row =
     (case bt_get messages (ro_direct row) of
        None \<Rightarrow> row
      | Some m \<Rightarrow> row\<lparr>ro_tag := map_option (\<lambda>t. t\<lparr>tm_message := m\<rparr>) (ro_tag row)\<rparr>)"

definition fill_tag_messages :: "git \<Rightarrow> repository \<Rightarrow> ref_observation list \<Rightarrow> (string + ref_observation list) option" where
  "fill_tag_messages git repo rows =
     (let oids = map ro_direct (filter (\<lambda>row. ro_tag row \<noteq> None) rows)
      in if oids = [] then Some (Inr rows)
         else map_option (map_sum id (\<lambda>messages. map (fill_message messages) rows)) (tag_messages git repo oids))"

subsection \<open>A snapshot\<close>

definition enumerate_refs ::
  "git \<Rightarrow> (string \<Rightarrow> string + (string \<Rightarrow> bool)) \<Rightarrow> repository \<Rightarrow> ref_query \<Rightarrow>
     (string + ref_observation list) option" where
  "enumerate_refs git glob repo query =
     (case (case rf_pattern query of None \<Rightarrow> Inr None
            | Some p \<Rightarrow> map_sum (\<lambda>_. ''invalid ref glob pattern '' @ dbg_str p) Some (glob p)) of
        Inl e \<Rightarrow> Some (Inl e)
      | Inr matcher \<Rightarrow>
     (case rbind (git_out git ''run git for-each-ref'' (''git for-each-ref failed in '' @ repo_root repo)
              ([''for-each-ref'', ''--format='' @ FORMAT] @
               (if rf_namespace query = [] then [] else [rf_namespace query])))
            (\<lambda>out. rbind (from_utf8 ''decode git for-each-ref output'' out) (\<lambda>stdout.
              rmap_all (ref_row repo (rf_name query) matcher)
                (filter (\<lambda>r. r \<noteq> []) (split_on line_feed stdout)))) of
        Inl e \<Rightarrow> Some (Inl e)
      | Inr rows \<Rightarrow> fill_tag_messages git repo (concat (map (\<lambda>r. case r of None \<Rightarrow> [] | Some x \<Rightarrow> [x]) rows))))"

definition ok_stdout :: "git \<Rightarrow> string list \<Rightarrow> string option" where
  "ok_stdout git args =
     (case git args [] of
        Inl e \<Rightarrow> None
      | Inr out \<Rightarrow> if go_success out \<and> utf8_valid (go_stdout out) then Some (trim (text_of (go_stdout out))) else None)"

definition symbolic_ref :: "git \<Rightarrow> string option" where
  "symbolic_ref git = ok_stdout git [''symbolic-ref'', ''-q'', ''HEAD'']"

definition head_commit :: "git \<Rightarrow> object_id option" where
  "head_commit git = ok_stdout git [''rev-parse'', ''-q'', ''HEAD'']"

definition resolve_head :: "git \<Rightarrow> string + head" where
  "resolve_head git =
     (case symbolic_ref git of
        Some target \<Rightarrow> Inr (if head_commit git \<noteq> None then HeadSymbolic target else HeadUnborn target)
      | None \<Rightarrow> map_sum id HeadDetached (ok_or ''resolve detached HEAD'' (head_commit git)))"

definition refs_snapshot ::
  "git \<Rightarrow> (string \<Rightarrow> string + (string \<Rightarrow> bool)) \<Rightarrow> repository \<Rightarrow> ref_query \<Rightarrow> (string + ref_snapshot) option" where
  "refs_snapshot git glob repo query =
     (if rf_repository query \<noteq> repo_identity repo then Some (Inl ''ref query belongs to another repository'')
      else case resolve_head git of
        Inl e \<Rightarrow> Some (Inl e)
      | Inr h \<Rightarrow> map_option (map_sum id (\<lambda>rows.
          \<lparr>rs_repository = repo_identity repo, rs_head = h, rs_head_target = head_commit git,
           rs_refs = sort_key ro_name rows\<rparr>)) (enumerate_refs git glob repo query))"

end
