(* ===== verification/Repositories.thy ===== *)
theory Repositories
  imports Observed
begin

text \<open>
  Finding and opening a repository, \<open>soopy/src/_2_repository.rs\<close>: its identity is the digest of the
  common Git directory, the worktree's that of its own Git directory. \<open>discover_on_disk\<close>
  reads them off the disk, \<open>open_repository\<close> asks Git; \<open>gits root\<close> is \<open>git -C root\<close>. The argument
  \<open>overridden\<close> says whether one of Git's location variables is set in the environment.
\<close>

definition read_text :: "fs \<Rightarrow> apath \<Rightarrow> string option" where
  "read_text fs p = (case fs_read fs p of Inl e \<Rightarrow> None | Inr b \<Rightarrow> if utf8_valid b then Some (text_of b) else None)"

definition strip_prefix_str :: "string \<Rightarrow> string \<Rightarrow> string option" where
  "strip_prefix_str pre s = (if prefix pre s then Some (drop (length pre) s) else None)"

definition path_is_file :: "fs \<Rightarrow> apath \<Rightarrow> bool" where
  "path_is_file fs p = (case stat fs p of Inr (NFile b m) \<Rightarrow> True | _ \<Rightarrow> False)"

definition ancestors :: "apath \<Rightarrow> apath list" where
  "ancestors p = map (\<lambda>n. take n p) (rev [0..<Suc (length p)])"

definition identified :: "('x) ext_scheme \<Rightarrow> apath \<Rightarrow> apath \<Rightarrow> apath \<Rightarrow> repository" where
  "identified X root common_dir git_dir =
     \<lparr>repo_root = show_path root,
      repo_identity = x_hex X (x_hash X (bytes_of (show_path common_dir))),
      repo_worktree = x_hex X (x_hash X (bytes_of (show_path git_dir)))\<rparr>"

definition git_dir_of :: "fs \<Rightarrow> apath \<Rightarrow> apath option" where
  "git_dir_of fs root =
     (let dot_git = root @ [''.git'']
      in if path_is_dir fs dot_git then Some dot_git
         else Option.bind (read_text fs dot_git) (\<lambda>text.
           Option.bind (strip_prefix_str ''gitdir:'' (trim text)) (\<lambda>rest. Some (join_path root (trim rest)))))"

definition canonical :: "fs \<Rightarrow> apath \<Rightarrow> apath option" where
  "canonical fs p = (case canonicalize fs p of Inl e \<Rightarrow> None | Inr q \<Rightarrow> Some q)"

definition discover_on_disk :: "('x) ext_scheme \<Rightarrow> fs \<Rightarrow> bool \<Rightarrow> apath \<Rightarrow> repository option" where
  "discover_on_disk X fs overridden cwd =
     (if overridden then None
      else Option.bind (canonical fs cwd) (\<lambda>cwd.
        Option.bind (find (\<lambda>dir. path_exists fs (dir @ [''.git''])) (ancestors cwd)) (\<lambda>root.
        Option.bind (Option.bind (git_dir_of fs root) (canonical fs)) (\<lambda>git_dir.
        if \<not> path_is_file fs (git_dir @ [''HEAD'']) then None
        else Option.bind (case read_text fs (git_dir @ [''commondir'']) of
            Some text \<Rightarrow> canonical fs (join_path git_dir (trim text))
          | None \<Rightarrow> Some git_dir) (\<lambda>common_dir.
        Some (identified X root common_dir git_dir))))))"

definition open_repository :: "('x) ext_scheme \<Rightarrow> (apath \<Rightarrow> git) \<Rightarrow> fs \<Rightarrow> apath \<Rightarrow> string + repository" where
  "open_repository X gits fs p =
     rbind (map_err (\<lambda>_. ''canonicalize repository root'') (canonicalize fs p)) (\<lambda>root.
     rbind (git_out (gits root) ''run git rev-parse --git-common-dir'' (show_path root @ '' is not a Git repository'')
         [''rev-parse'', ''--git-common-dir'']) (\<lambda>out.
     rbind (from_utf8 ''invalid utf-8 sequence'' out) (\<lambda>s.
     let common_dir = trim s
     in rbind (map_err (\<lambda>_. ''canonicalize common Git directory '' @ dbg_str common_dir)
          (canonicalize fs (join_path root common_dir))) (\<lambda>common_path.
     rbind (git_out (gits root) ''run git rev-parse --absolute-git-dir''
         (show_path root @ '' has no resolvable Git directory'') [''rev-parse'', ''--absolute-git-dir'']) (\<lambda>out.
     rbind (from_utf8 ''invalid utf-8 sequence'' out) (\<lambda>s.
     rbind (map_err (\<lambda>_. ''canonicalize Git directory'') (canonicalize fs (join_path [] (trim s)))) (\<lambda>git_dir_path.
     Inr (identified X root common_path git_dir_path))))))))"

definition discover :: "('x) ext_scheme \<Rightarrow> (apath \<Rightarrow> git) \<Rightarrow> fs \<Rightarrow> bool \<Rightarrow> apath \<Rightarrow> string + repository" where
  "discover X gits fs overridden start =
     (let cwd = (if path_is_dir fs start then start
        else case path_parent start of None \<Rightarrow> start | Some p \<Rightarrow> p)
      in case discover_on_disk X fs overridden cwd of
           Some repository \<Rightarrow> Inr repository
         | None \<Rightarrow>
             rbind (git_out (gits cwd) ''run git rev-parse --show-toplevel''
                 (show_path cwd @ '' is not inside a Git worktree'') [''rev-parse'', ''--show-toplevel'']) (\<lambda>out.
             rbind (from_utf8 ''invalid utf-8 sequence'' out) (\<lambda>s.
             open_repository X gits fs (join_path [] (trim s)))))"

end
