(* ===== verification/Watch.thy ===== *)
theory Watch
  imports Diffs Refs Repositories Snapshots
begin

text \<open>
  The watchers, \<open>soopy/src/_8_watch.rs\<close> and \<open>_8a_watch_core.rs\<close>: which paths matter to a query,
  which are watched, how a batch of file-system events is collected and judged, and what a
  receive returns. A repository watcher keeps its last complete snapshot, the cache of its source
  reader, and which of the two optional directories are watched.

  The world at one instant is \<open>outside\<close>: Git for every directory, the walker, the globs, the
  file system, the clock. \<open>notify\<close> delivers events; registering a watch is the function
  \<open>o_watch\<close>, which says whether the operating system accepts it.
\<close>

record fs_event =
  ev_rescan :: bool
  ev_paths :: "apath list"

type_synonym event_result = "string + fs_event list"

record watch_target =
  wt_path :: apath
  wt_recursive :: bool

record outside =
  o_git :: "apath \<Rightarrow> git"
  o_walks :: walker
  o_glob :: globber
  o_ref_glob :: "string \<Rightarrow> string + (string \<Rightarrow> bool)"
  o_fs :: fs
  o_now :: int
  o_watch :: "watch_target \<Rightarrow> bool"

subsection \<open>Collecting a batch\<close>

text \<open>
  \<open>recv_batch\<close> after its first event: the pending events carry the millisecond they arrive at. The only
  time that passes is the time spent waiting, measured from the first event.
\<close>

fun collect :: "nat \<Rightarrow> nat \<Rightarrow> nat \<Rightarrow> (nat \<times> 'e) list \<Rightarrow> 'e list" where
  "collect quiet maximum now [] = []"
| "collect quiet maximum now ((t, e) # queue) =
     (let remaining = maximum - now
      in if remaining = 0 then []
         else if t \<le> now + min quiet remaining then e # collect quiet maximum (max now t) queue else [])"

definition recv_batch :: "watch_coalescing \<Rightarrow> 'e \<Rightarrow> (nat \<times> 'e) list \<Rightarrow> 'e list" where
  "recv_batch coalescing first queue =
     first # collect (unat (wc_quiet_ms coalescing)) (unat (wc_max_ms coalescing)) 0 queue"

definition coalescing_validate :: "watch_coalescing \<Rightarrow> string + unit" where
  "coalescing_validate c =
     (if wc_quiet_ms c = 0 \<or> wc_max_ms c = 0 \<or> wc_quiet_ms c > wc_max_ms c
      then Inl ''repository watch requires 0 < quiet_ms <= max_ms'' else Inr ())"

subsection \<open>Judging a batch\<close>

record event_state =
  es_relevant :: bool
  es_rescan :: bool

definition classify_event_batch :: "event_result list \<Rightarrow> (apath \<Rightarrow> bool) \<Rightarrow> event_state" where
  "classify_event_batch batch relevant =
     foldl (\<lambda>state r. case r of
         Inl e \<Rightarrow> state\<lparr>es_rescan := True\<rparr>
       | Inr evs \<Rightarrow> foldl (\<lambda>state ev. state
           \<lparr>es_rescan := es_rescan state \<or> ev_rescan ev,
            es_relevant := es_relevant state \<or> list_ex relevant (ev_paths ev)\<rparr>) state evs)
       \<lparr>es_relevant = False, es_rescan = False\<rparr> batch"

definition path_is_relevant :: "apath \<Rightarrow> watch_query \<Rightarrow> apath \<Rightarrow> apath \<Rightarrow> apath \<Rightarrow> bool" where
  "path_is_relevant root query git_dir common_dir path =
     (let is_git_path = path_starts_with path git_dir \<or> path_starts_with path common_dir;
          source_path = path_starts_with path root \<and> \<not> is_git_path;
          current_head = path = git_dir @ [''HEAD''];
          common_head = path = common_dir @ [''HEAD''];
          current_index = path = git_dir @ [''index''] \<or> path = git_dir @ [''index.lock''];
          named_ref = path = common_dir \<or> common_head \<or> path = common_dir @ [''packed-refs''] \<or>
            path_starts_with path (common_dir @ [''refs'']);
          linked_worktree = path_starts_with path (common_dir @ [''worktrees''])
      in wq_source query \<noteq> None \<and> (source_path \<or> current_head \<or> named_ref) \<or>
         wq_refs query \<noteq> None \<and> (current_head \<or> named_ref) \<or>
         wq_index query \<and> current_index \<or>
         wq_linked_worktrees query \<and> (current_head \<or> common_head \<or> linked_worktree))"

definition directory_path_is_relevant :: "apath \<Rightarrow> apath \<Rightarrow> bool" where
  "directory_path_is_relevant root path =
     (case path_strip_prefix root path of None \<Rightarrow> False | Some relative \<Rightarrow> ''.git'' \<notin> set relative)"

text \<open>Both watchers test the path as reported and its canonical form.\<close>

definition either_path :: "fs \<Rightarrow> (apath \<Rightarrow> bool) \<Rightarrow> apath \<Rightarrow> bool" where
  "either_path fs relevant path \<longleftrightarrow>
     relevant path \<or> relevant (case canonicalize fs path of Inl e \<Rightarrow> path | Inr q \<Rightarrow> q)"

subsection \<open>What is watched\<close>

record watch_plan =
  wp_targets :: "watch_target list"
  wp_refs_watched :: bool
  wp_worktrees_watched :: bool

definition covers :: "watch_target list \<Rightarrow> apath \<Rightarrow> bool" where
  "covers targets path \<longleftrightarrow>
     list_ex (\<lambda>t. wt_path t = path \<or> wt_recursive t \<and> path_starts_with path (wt_path t)) targets"

definition add_target :: "watch_target list \<Rightarrow> apath \<Rightarrow> bool \<Rightarrow> watch_target list" where
  "add_target targets path recursive =
     (if \<not> covers targets path then targets @ [\<lparr>wt_path = path, wt_recursive = recursive\<rparr>] else targets)"

definition watch_plan_of ::
  "apath \<Rightarrow> apath \<Rightarrow> apath \<Rightarrow> watch_query \<Rightarrow> bool \<Rightarrow> bool \<Rightarrow> watch_plan" where
  "watch_plan_of root git_dir common_dir query refs_exist worktrees_exist =
     (let targets = (if wq_source query \<noteq> None then add_target [] root True else []);
          watch_refs = (wq_source query \<noteq> None \<or> wq_refs query \<noteq> None);
          watch_git_dir = (watch_refs \<or> wq_index query \<or> wq_linked_worktrees query);
          targets = (if watch_git_dir then add_target targets git_dir False else targets);
          targets = (if (watch_refs \<or> wq_linked_worktrees query) \<and> common_dir \<noteq> git_dir
            then add_target targets common_dir False else targets);
          refs = common_dir @ [''refs''];
          targets = (if watch_refs \<and> refs_exist then add_target targets refs True else targets);
          refs_watched = (watch_refs \<and> covers targets refs);
          worktrees = common_dir @ [''worktrees''];
          targets = (if wq_linked_worktrees query \<and> worktrees_exist then add_target targets worktrees True else targets);
          worktrees_watched = (wq_linked_worktrees query \<and> covers targets worktrees)
      in \<lparr>wp_targets = targets, wp_refs_watched = refs_watched, wp_worktrees_watched = worktrees_watched\<rparr>)"

datatype optional_watch = WatchRefs apath | WatchWorktrees apath

definition pending_optional_watches :: "fs \<Rightarrow> apath \<Rightarrow> bool \<Rightarrow> bool \<Rightarrow> bool \<Rightarrow> bool \<Rightarrow> optional_watch list" where
  "pending_optional_watches fs common_dir watch_refs watch_worktrees refs_watched worktrees_watched =
     (let refs = common_dir @ [''refs'']; worktrees = common_dir @ [''worktrees'']
      in (if watch_refs \<and> \<not> refs_watched \<and> path_exists fs refs then [WatchRefs refs] else []) @
         (if watch_worktrees \<and> \<not> worktrees_watched \<and> path_exists fs worktrees then [WatchWorktrees worktrees] else []))"

definition validate_query :: "repository \<Rightarrow> watch_query \<Rightarrow> string + unit" where
  "validate_query repo query =
     rbind (coalescing_validate (wq_coalescing query)) (\<lambda>_.
     if wq_source query = None \<and> wq_refs query = None \<and> \<not> wq_index query \<and> \<not> wq_linked_worktrees query
     then Inl ''repository watch requires at least one selected surface''
     else if (case wq_source query of None \<Rightarrow> False | Some s \<Rightarrow> sq_revision s \<noteq> RvWorktree)
     then Inl ''repository watch source requires Revision::Worktree''
     else if (case wq_refs query of None \<Rightarrow> False | Some r \<Rightarrow> rf_repository r \<noteq> repo_identity repo)
     then Inl ''repository watch ref query belongs to another repository''
     else Inr ())"

end
