(* ===== verification/Watchers.thy ===== *)
theory Watchers
  imports Watch
begin

text \<open>
  The watchers themselves, \<open>soopy/src/_8_watch.rs\<close>: what they read of the world, opening, and one
  receive. A receive that fails leaves what it changed before: the cache of the source reader
  and the watches registered so far.
\<close>

subsection \<open>Reading Git's directories, index and worktrees\<close>

definition git_dirs :: "(apath \<Rightarrow> git) \<Rightarrow> fs \<Rightarrow> apath \<Rightarrow> string + apath \<times> apath" where
  "git_dirs gits fs root =
     rbind (git_out (gits root) ''find Git directories for watcher''
         (''git rev-parse --absolute-git-dir --git-common-dir failed for '' @ show_path root)
         [''rev-parse'', ''--absolute-git-dir'', ''--git-common-dir'']) (\<lambda>out.
     rbind (from_utf8 ''decode Git directory paths'' out) (\<lambda>text.
     case lines_of text of
       [] \<Rightarrow> Inl ''Git directory response omitted git dir''
     | [g] \<Rightarrow> Inl ''Git directory response omitted common dir''
     | g # c # d # rest \<Rightarrow> Inl ''Git directory response has unexpected extra lines''
     | [g, c] \<Rightarrow>
         rbind (map_err (\<lambda>_. ''canonicalize worktree Git directory'') (canonicalize fs (join_path [] g))) (\<lambda>git_dir.
         rbind (map_err (\<lambda>_. ''canonicalize common Git directory'')
             (canonicalize fs (join_path root c))) (\<lambda>common_dir.
         Inr (git_dir, common_dir)))))"

definition index_snapshot_of :: "('x) ext_scheme \<Rightarrow> git \<Rightarrow> repository \<Rightarrow> string + index_snapshot" where
  "index_snapshot_of X git repo =
     rbind (git_out git ''read Git index'' (''git ls-files --stage failed in '' @ repo_root repo)
         [''ls-files'', ''--stage'', ''-z'']) (\<lambda>out.
     Inr \<lparr>ix_repository = repo_identity repo, ix_worktree = repo_worktree repo, ix_index = x_hash X out\<rparr>)"

text \<open>\<open>text.split("\n\n")\<close>.\<close>

fun split_blank :: "string \<Rightarrow> string list" where
  "split_blank [] = [[]]"
| "split_blank [c] = [[c]]"
| "split_blank (c # d # s) =
     (if c = line_feed \<and> d = line_feed then [] # split_blank s
      else (case split_blank (d # s) of [] \<Rightarrow> [[c]] | p # ps \<Rightarrow> (c # p) # ps))"

record worktree_fields =
  wf_root :: "string option"
  wf_commit :: "object_id option"
  wf_branch :: "string option"
  wf_prunable :: bool

definition worktree_line :: "worktree_fields \<Rightarrow> string \<Rightarrow> worktree_fields" where
  "worktree_line w l =
     (case strip_prefix_str ''worktree '' l of Some v \<Rightarrow> w\<lparr>wf_root := Some v\<rparr>
      | None \<Rightarrow>
     (case strip_prefix_str ''HEAD '' l of Some v \<Rightarrow> w\<lparr>wf_commit := Some v\<rparr>
      | None \<Rightarrow>
     (case strip_prefix_str ''branch '' l of Some v \<Rightarrow> w\<lparr>wf_branch := Some v\<rparr>
      | None \<Rightarrow>
     if l = ''prunable'' \<or> strip_prefix_str ''prunable '' l \<noteq> None \<or> l = ''bare''
     then w\<lparr>wf_prunable := True\<rparr> else w)))"

definition worktree_fields_of :: "string \<Rightarrow> worktree_fields" where
  "worktree_fields_of record = foldl worktree_line
     \<lparr>wf_root = None, wf_commit = None, wf_branch = None, wf_prunable = False\<rparr> (lines_of record)"

definition worktree_head_of :: "string \<Rightarrow> worktree_fields \<Rightarrow> string + head" where
  "worktree_head_of root w =
     (case (wf_branch w, wf_commit w) of
        (Some target, Some c) \<Rightarrow> Inr (HeadSymbolic target)
      | (Some target, None) \<Rightarrow> Inr (HeadUnborn target)
      | (None, Some c) \<Rightarrow> Inr (HeadDetached c)
      | (None, None) \<Rightarrow> Inl (''Git worktree record omitted HEAD state for '' @ root))"

definition worktree_row ::
  "('x) ext_scheme \<Rightarrow> (apath \<Rightarrow> git) \<Rightarrow> fs \<Rightarrow> repository \<Rightarrow> string \<Rightarrow> string + worktree_observation option" where
  "worktree_row X gits fs repo record =
     (let w = worktree_fields_of record
      in if wf_prunable w then Inr None
         else rbind (ok_or ''Git worktree record omitted root'' (wf_root w)) (\<lambda>root.
           if \<not> path_exists fs (join_path [] root) then Inr None
           else rbind (map_err (\<lambda>_. ''open linked worktree '' @ root) (open_repository X gits fs (join_path [] root)))
             (\<lambda>observed.
             if repo_identity observed \<noteq> repo_identity repo
             then Inl (''linked worktree '' @ root @ '' belongs to another repository'')
             else rbind (worktree_head_of root w) (\<lambda>h.
               Inr (Some \<lparr>wo_repository = repo_identity repo, wo_worktree = repo_worktree observed, wo_root = root,
                 wo_commit = wf_commit w, wo_head = h\<rparr>)))))"

definition repo_path_of :: "repository \<Rightarrow> apath" where
  "repo_path_of repo = join_path [] (repo_root repo)"

definition worktree_snapshot_of ::
  "('x) ext_scheme \<Rightarrow> (apath \<Rightarrow> git) \<Rightarrow> fs \<Rightarrow> repository \<Rightarrow> string + worktree_snapshot" where
  "worktree_snapshot_of X gits fs repo =
     rbind (git_out (gits (repo_path_of repo)) ''list linked worktrees'' (''git worktree list failed in '' @ repo_root repo)
         [''worktree'', ''list'', ''--porcelain'']) (\<lambda>out.
     rbind (from_utf8 ''decode Git worktree list'' out) (\<lambda>text.
     rbind (rmap_all (worktree_row X gits fs repo) (filter (\<lambda>r. r \<noteq> []) (split_blank text))) (\<lambda>rows.
     Inr \<lparr>ws_repository = repo_identity repo, ws_worktrees = sort_key wo_worktree (some_values rows)\<rparr>)))"

subsection \<open>The repository watcher\<close>

record repository_watcher =
  rw_repository :: repository
  rw_query :: watch_query
  rw_snapshot :: "repository_snapshot option"
  rw_source_tree :: "worktree_cache option"
  rw_refs :: bool
  rw_git_dir :: apath
  rw_common_dir :: apath
  rw_refs_watched :: bool
  rw_worktrees_watched :: bool
  rw_watching :: "watch_target list"

definition read_source ::
  "('x) ext_scheme \<Rightarrow> outside \<Rightarrow> repository_watcher \<Rightarrow>
     (string + source_snapshot option) \<times> worktree_cache option" where
  "read_source X here w =
     (case (rw_source_tree w, wq_source (rw_query w)) of
        (Some cache, Some query) \<Rightarrow>
          (let repo = rw_repository w;
               (r, cache') = tree_snapshot X (o_git here (repo_path_of repo)) (o_walks here) (o_glob here) (o_fs here) (o_now here)
                 repo query cache
           in (map_sum id Some r, Some cache'))
      | (None, None) \<Rightarrow> (Inr None, None)
      | (c, q) \<Rightarrow> (Inl ''repository watcher source state is inconsistent'', c))"

definition read_refs :: "outside \<Rightarrow> repository_watcher \<Rightarrow> (string + ref_snapshot option) option" where
  "read_refs here w =
     (case (rw_refs w, wq_refs (rw_query w)) of
        (True, Some query) \<Rightarrow>
          map_option (map_sum id Some)
            (refs_snapshot (o_git here (repo_path_of (rw_repository w))) (o_ref_glob here) (rw_repository w) query)
      | (False, None) \<Rightarrow> Some (Inr None)
      | (r, q) \<Rightarrow> Some (Inl ''repository watcher ref state is inconsistent''))"

definition read_index :: "('x) ext_scheme \<Rightarrow> outside \<Rightarrow> repository_watcher \<Rightarrow> string + index_snapshot option" where
  "read_index X here w =
     (if wq_index (rw_query w)
      then map_sum id Some (index_snapshot_of X (o_git here (repo_path_of (rw_repository w))) (rw_repository w))
      else Inr None)"

definition read_worktrees :: "('x) ext_scheme \<Rightarrow> outside \<Rightarrow> repository_watcher \<Rightarrow> string + worktree_snapshot option" where
  "read_worktrees X here w =
     (if wq_linked_worktrees (rw_query w)
      then map_sum id Some (worktree_snapshot_of X (o_git here) (o_fs here) (rw_repository w)) else Inr None)"

definition read_snapshot ::
  "('x) ext_scheme \<Rightarrow> outside \<Rightarrow> repository_watcher \<Rightarrow>
     (string + repository_snapshot) option \<times> worktree_cache option" where
  "read_snapshot X here w =
     (let (source, cache) = read_source X here w
      in (case source of
            Inl e \<Rightarrow> Some (Inl e)
          | Inr source \<Rightarrow>
         (case read_refs here w of
            None \<Rightarrow> None
          | Some (Inl e) \<Rightarrow> Some (Inl e)
          | Some (Inr refs) \<Rightarrow>
         Some (rbind (read_index X here w) (\<lambda>index.
           rbind (read_worktrees X here w) (\<lambda>worktrees.
           Inr \<lparr>rp_repository = repo_identity (rw_repository w), rp_source = source, rp_refs = refs,
             rp_index = index, rp_worktrees = worktrees\<rparr>)))), cache))"

subsection \<open>Registering watches\<close>

definition watch_context :: "string \<Rightarrow> apath \<Rightarrow> string" where
  "watch_context action p = action @ '': '' @ show_path p"

fun register_targets :: "outside \<Rightarrow> watch_target list \<Rightarrow> watch_target list \<Rightarrow> string + watch_target list" where
  "register_targets here watching [] = Inr watching"
| "register_targets here watching (t # ts) =
     (if o_watch here t then register_targets here (watching @ [t]) ts
      else Inl (watch_context ''register repository watch'' (wt_path t)))"

definition watcher_open :: "('x) ext_scheme \<Rightarrow> outside \<Rightarrow> repository \<Rightarrow> watch_query \<Rightarrow> string + repository_watcher" where
  "watcher_open X here repo query =
     rbind (validate_query repo query) (\<lambda>_.
     let root = repo_path_of repo
     in rbind (git_dirs (o_git here) (o_fs here) root) (\<lambda>(git_dir, common_dir).
     let plan = watch_plan_of root git_dir common_dir query
           (path_exists (o_fs here) (common_dir @ [''refs''])) (path_exists (o_fs here) (common_dir @ [''worktrees'']))
     in rbind (register_targets here [] (wp_targets plan)) (\<lambda>watching.
     Inr \<lparr>rw_repository = repo, rw_query = query, rw_snapshot = None,
       rw_source_tree = (if wq_source query \<noteq> None then Some empty_worktree_cache else None),
       rw_refs = (wq_refs query \<noteq> None), rw_git_dir = git_dir, rw_common_dir = common_dir,
       rw_refs_watched = wp_refs_watched plan, rw_worktrees_watched = wp_worktrees_watched plan,
       rw_watching = watching\<rparr>)))"

text \<open>The opening snapshot, read after every watch is registered.\<close>

definition watcher_baseline ::
  "('x) ext_scheme \<Rightarrow> outside \<Rightarrow> repository_watcher \<Rightarrow> (string + repository_watcher) option" where
  "watcher_baseline X here w =
     (case read_snapshot X here w of
        (None, cache) \<Rightarrow> None
      | (Some (Inl e), cache) \<Rightarrow> Some (Inl e)
      | (Some (Inr s), cache) \<Rightarrow> Some (Inr (w\<lparr>rw_snapshot := Some s, rw_source_tree := cache\<rparr>)))"

fun refresh_watches :: "outside \<Rightarrow> optional_watch list \<Rightarrow> (repository_watcher, string, unit) stm" where
  "refresh_watches here [] w = (Inr (), w)"
| "refresh_watches here (WatchRefs p # rest) w =
     (let t = \<lparr>wt_path = p, wt_recursive = True\<rparr>
      in if o_watch here t
         then refresh_watches here rest (w\<lparr>rw_refs_watched := True, rw_watching := rw_watching w @ [t]\<rparr>)
         else (Inl (watch_context ''watch newly created shared Git refs'' p), w))"
| "refresh_watches here (WatchWorktrees p # rest) w =
     (let t = \<lparr>wt_path = p, wt_recursive = True\<rparr>
      in if o_watch here t
         then refresh_watches here rest (w\<lparr>rw_worktrees_watched := True, rw_watching := rw_watching w @ [t]\<rparr>)
         else (Inl (watch_context ''watch newly created linked worktree metadata'' p), w))"

definition refresh_optional_watches :: "outside \<Rightarrow> (repository_watcher, string, unit) stm" where
  "refresh_optional_watches here w =
     refresh_watches here (pending_optional_watches (o_fs here) (rw_common_dir w)
       (wq_source (rw_query w) \<noteq> None \<or> wq_refs (rw_query w) \<noteq> None) (wq_linked_worktrees (rw_query w))
       (rw_refs_watched w) (rw_worktrees_watched w)) w"

subsection \<open>One receive\<close>

definition watcher_relevant :: "fs \<Rightarrow> repository_watcher \<Rightarrow> apath \<Rightarrow> bool" where
  "watcher_relevant fs w = either_path fs
     (path_is_relevant (repo_path_of (rw_repository w)) (rw_query w) (rw_git_dir w) (rw_common_dir w))"

definition watcher_judge :: "fs \<Rightarrow> repository_watcher \<Rightarrow> event_result list \<Rightarrow> event_state" where
  "watcher_judge fs w batch = classify_event_batch batch (watcher_relevant fs w)"

text \<open>The end of a receive: the watches are refreshed after the snapshot is read.\<close>

definition recv_publish ::
  "outside \<Rightarrow> event_state \<Rightarrow> repository_snapshot \<Rightarrow> (repository_watcher, string, repository_delta list) stm" where
  "recv_publish here state after w =
     (case rw_snapshot w of
        None \<Rightarrow> (Inl ''repository watcher has no prior snapshot'', w)
      | Some before \<Rightarrow>
          (case refresh_optional_watches here w of
             (Inl e, w) \<Rightarrow> (Inl e, w)
           | (Inr u, w) \<Rightarrow>
               (Inr ((if es_rescan state then [RescanRequired] else []) @ diff_repository before after),
                w\<lparr>rw_snapshot := Some after\<rparr>)))"

definition repository_recv_batch ::
  "('x) ext_scheme \<Rightarrow> outside \<Rightarrow> event_result list \<Rightarrow> repository_watcher \<Rightarrow>
     (string + repository_delta list) option \<times> repository_watcher" where
  "repository_recv_batch X here batch w =
     (let state = watcher_judge (o_fs here) w batch
      in if \<not> es_relevant state \<and> \<not> es_rescan state then (Some (Inr []), w)
         else if rw_snapshot w = None then (Some (Inl ''repository watcher has no prior snapshot''), w)
         else case read_snapshot X here w of
           (None, cache) \<Rightarrow> (None, w\<lparr>rw_source_tree := cache\<rparr>)
         | (Some (Inl e), cache) \<Rightarrow> (Some (Inl e), w\<lparr>rw_source_tree := cache\<rparr>)
         | (Some (Inr after), cache) \<Rightarrow>
             (case recv_publish here state after (w\<lparr>rw_source_tree := cache\<rparr>) of (r, w) \<Rightarrow> (Some r, w)))"

subsection \<open>The directory and source watchers\<close>

record directory_watcher =
  dw_directory :: directory_root
  dw_cache :: directory_cache
  dw_patterns :: "pattern list"
  dw_coalescing :: watch_coalescing
  dw_snapshot :: file_snapshot

definition directory_watcher_open ::
  "('x) ext_scheme \<Rightarrow> outside \<Rightarrow> apath \<Rightarrow> pattern list \<Rightarrow> watch_coalescing \<Rightarrow> string + directory_watcher" where
  "directory_watcher_open X here p patterns coalescing =
     rbind (coalescing_validate coalescing) (\<lambda>_.
     rbind (directory_open X (o_fs here) p) (\<lambda>directory.
     if \<not> o_watch here \<lparr>wt_path = dr_root directory, wt_recursive = True\<rparr>
     then Inl (watch_context ''register directory watch'' (dr_root directory))
     else case directory_snapshot X (o_walks here) (o_glob here) (o_now here) directory patterns [] of
       (Inl e, cache) \<Rightarrow> Inl e
     | (Inr s, cache) \<Rightarrow> Inr \<lparr>dw_directory = directory, dw_cache = cache, dw_patterns = patterns,
         dw_coalescing = coalescing, dw_snapshot = s\<rparr>))"

definition directory_recv_batch ::
  "('x) ext_scheme \<Rightarrow> outside \<Rightarrow> event_result list \<Rightarrow> (directory_watcher, string, directory_delta list) stm" where
  "directory_recv_batch X here batch w =
     (let root = dr_root (dw_directory w);
          state = classify_event_batch batch (either_path (o_fs here) (directory_path_is_relevant root))
      in if \<not> es_relevant state \<and> \<not> es_rescan state then (Inr [], w)
         else if \<not> path_exists (o_fs here) root then (Inr [DirRescan], w)
         else case directory_snapshot X (o_walks here) (o_glob here) (o_now here) (dw_directory w) (dw_patterns w) (dw_cache w) of
           (Inl e, cache) \<Rightarrow> (Inl e, w\<lparr>dw_cache := cache\<rparr>)
         | (Inr after, cache) \<Rightarrow>
             (Inr ((if es_rescan state then [DirRescan] else []) @ diff_directory (dw_snapshot w) after),
              w\<lparr>dw_cache := cache, dw_snapshot := after\<rparr>))"

definition source_query_watch :: "source_query \<Rightarrow> watch_query" where
  "source_query_watch query = \<lparr>wq_source = Some query, wq_refs = None, wq_index = True, wq_linked_worktrees = False,
     wq_coalescing = default_coalescing\<rparr>"

definition source_deltas :: "repository_delta list \<Rightarrow> source_delta list" where
  "source_deltas deltas =
     (if list_ex (\<lambda>d. case d of RescanRequired \<Rightarrow> True | DeltaIndex i \<Rightarrow> True | _ \<Rightarrow> False) deltas
      then [SourceRescan] else []) @
     concat (map (\<lambda>d. case d of DeltaSource s \<Rightarrow> [s] | _ \<Rightarrow> []) deltas)"

end
