(* ===== verification/DeltaReplay.thy ===== *)
theory DeltaReplay
  imports Watchers
begin

text \<open>
  What a client can keep up to date from the deltas of a repository watcher: the mirror of a
  snapshot. It holds the head, the refs, the commit of the checkout, the content of every source,
  the index and the linked worktrees; the dirty flag of the revision and the directories of a
  source snapshot are in no delta.
\<close>

record mirror =
  mi_head :: "head_observation option"
  mi_refs :: "string \<rightharpoonup> ref_observation"
  mi_checkout :: "object_id option"
  mi_sources :: "repo_path \<rightharpoonup> content_id"
  mi_index :: "index_snapshot option"
  mi_worktrees :: "worktree_id \<rightharpoonup> worktree_observation"

definition mirror_of :: "repository_snapshot \<Rightarrow> mirror" where
  "mirror_of s =
     \<lparr>mi_head = map_option head_of (rp_refs s),
      mi_refs = (case rp_refs s of None \<Rightarrow> Map.empty | Some r \<Rightarrow> viewed (\<lambda>r. r) ro_name (rs_refs r)),
      mi_checkout = (case rp_source s of None \<Rightarrow> None | Some n \<Rightarrow> worktree_head (sn_revision n)),
      mi_sources = (case rp_source s of None \<Rightarrow> Map.empty | Some n \<Rightarrow> viewed se_content listed_path (sn_files n)),
      mi_index = rp_index s,
      mi_worktrees = (case rp_worktrees s of None \<Rightarrow> Map.empty | Some w \<Rightarrow> viewed (\<lambda>w. w) wo_worktree (ws_worktrees w))\<rparr>"

fun replay_delta :: "repository_delta \<Rightarrow> mirror \<Rightarrow> mirror" where
  "replay_delta (DeltaRef (HeadChanged b a)) m = m\<lparr>mi_head := Some a\<rparr>"
| "replay_delta (DeltaRef d) m = m\<lparr>mi_refs := replay_ref d (mi_refs m)\<rparr>"
| "replay_delta (DeltaSource (RevisionChanged b a)) m = m\<lparr>mi_checkout := worktree_head a\<rparr>"
| "replay_delta (DeltaSource d) m = m\<lparr>mi_sources := replay_source d (mi_sources m)\<rparr>"
| "replay_delta (DeltaIndex (IndexChanged b a)) m = m\<lparr>mi_index := Some a\<rparr>"
| "replay_delta (DeltaWorktree d) m = m\<lparr>mi_worktrees := replay_worktree d (mi_worktrees m)\<rparr>"
| "replay_delta RescanRequired m = m"

text \<open>Two snapshots of one watcher hold the same surfaces.\<close>

definition same_surfaces :: "repository_snapshot \<Rightarrow> repository_snapshot \<Rightarrow> bool" where
  "same_surfaces b a \<longleftrightarrow>
     (rp_source b = None \<longleftrightarrow> rp_source a = None) \<and> (rp_refs b = None \<longleftrightarrow> rp_refs a = None) \<and>
     (rp_index b = None \<longleftrightarrow> rp_index a = None) \<and> (rp_worktrees b = None \<longleftrightarrow> rp_worktrees a = None)"

lemma diff_by_said: "d \<in> set (diff_by key say before after) \<Longrightarrow> \<exists>k x y. d \<in> set (say k x y)"
  by (auto simp: diff_by_def Let_def)

lemma ref_said: "d \<in> set (say_ref k x y) \<Longrightarrow> d \<noteq> HeadChanged u v"
  by (cases x; cases y) (auto split: if_splits)

lemma source_said: "d \<in> set (say_source k x y) \<Longrightarrow> d \<noteq> RevisionChanged u v"
  by (cases x; cases y) (auto split: if_splits)

lemma replay_refs:
  "\<forall>d \<in> set ds. \<forall>u v. d \<noteq> HeadChanged u v \<Longrightarrow>
     fold replay_delta (map DeltaRef ds) m = m\<lparr>mi_refs := fold replay_ref ds (mi_refs m)\<rparr>"
proof (induction ds arbitrary: m)
  case (Cons d ds)
  then show ?case by (cases d) simp_all
qed simp

lemma replay_sources:
  "\<forall>d \<in> set ds. \<forall>u v. d \<noteq> RevisionChanged u v \<Longrightarrow>
     fold replay_delta (map DeltaSource ds) m = m\<lparr>mi_sources := fold replay_source ds (mi_sources m)\<rparr>"
proof (induction ds arbitrary: m)
  case (Cons d ds)
  then show ?case by (cases d) simp_all
qed simp

lemma replay_worktrees:
  "fold replay_delta (map DeltaWorktree ds) m = m\<lparr>mi_worktrees := fold replay_worktree ds (mi_worktrees m)\<rparr>"
  by (induction ds arbitrary: m) simp_all

lemma replay_diff_refs:
  "fold replay_delta (map DeltaRef (diff_refs b a)) (m\<lparr>mi_head := Some (head_of b), mi_refs := viewed (\<lambda>r. r) ro_name (rs_refs b)\<rparr>) =
    m\<lparr>mi_head := Some (head_of a), mi_refs := viewed (\<lambda>r. r) ro_name (rs_refs a)\<rparr>"
proof -
  have said: "\<forall>d \<in> set (diff_by ro_name say_ref (rs_refs b) (rs_refs a)). \<forall>u v. d \<noteq> HeadChanged u v"
    using diff_by_said ref_said by metis
  show ?thesis
    by (cases "rs_head b = rs_head a \<and> rs_head_target b = rs_head_target a")
      (auto simp: diff_refs_def replay_refs [OF said] refs.replay_diff head_of_def)
qed

lemma replay_diff_sources:
  "fold replay_delta
      ((if worktree_head (sn_revision b) \<noteq> worktree_head (sn_revision a)
        then [DeltaSource (RevisionChanged (sn_revision b) (sn_revision a))] else []) @
       map DeltaSource (diff_sources b a))
      (m\<lparr>mi_checkout := worktree_head (sn_revision b), mi_sources := viewed se_content listed_path (sn_files b)\<rparr>) =
    m\<lparr>mi_checkout := worktree_head (sn_revision a), mi_sources := viewed se_content listed_path (sn_files a)\<rparr>"
proof -
  have said: "\<forall>d \<in> set (diff_sources b a). \<forall>u v. d \<noteq> RevisionChanged u v"
    unfolding diff_sources_def using diff_by_said source_said by metis
  have "fold replay_source (diff_sources b a) (viewed se_content listed_path (sn_files b)) =
      viewed se_content listed_path (sn_files a)"
    unfolding diff_sources_def by (rule sources.replay_diff)
  then show ?thesis by (simp add: replay_sources [OF said])
qed

lemma replay_diff_worktrees:
  "fold replay_delta (map DeltaWorktree (diff_worktrees b a))
      (m\<lparr>mi_worktrees := viewed (\<lambda>w. w) wo_worktree (ws_worktrees b)\<rparr>) =
    m\<lparr>mi_worktrees := viewed (\<lambda>w. w) wo_worktree (ws_worktrees a)\<rparr>"
proof -
  have "fold replay_worktree (diff_worktrees b a) (viewed (\<lambda>w. w) wo_worktree (ws_worktrees b)) =
      viewed (\<lambda>w. w) wo_worktree (ws_worktrees a)"
    unfolding diff_worktrees_def by (rule worktrees.replay_diff)
  then show ?thesis by (simp add: replay_worktrees)
qed

lemma replay_part_refs:
  assumes "rp_refs b = None \<longleftrightarrow> rp_refs a = None" "mi_head m = mi_head (mirror_of b)" "mi_refs m = mi_refs (mirror_of b)"
  shows "fold replay_delta (case (rp_refs b, rp_refs a) of (Some b, Some a) \<Rightarrow> map DeltaRef (diff_refs b a) | _ \<Rightarrow> []) m =
    m\<lparr>mi_head := mi_head (mirror_of a), mi_refs := mi_refs (mirror_of a)\<rparr>"
proof (cases "rp_refs b")
  case None
  then show ?thesis using assms by (cases m) (simp add: mirror_of_def)
next
  case (Some rb)
  then obtain ra where ra: "rp_refs a = Some ra" using assms(1) by auto
  have m: "m = m\<lparr>mi_head := Some (head_of rb), mi_refs := viewed (\<lambda>r. r) ro_name (rs_refs rb)\<rparr>"
    using assms(2,3) Some by (cases m) (simp add: mirror_of_def)
  show ?thesis using replay_diff_refs [of rb ra m] Some ra m by (simp add: mirror_of_def)
qed

lemma replay_part_source:
  assumes "rp_source b = None \<longleftrightarrow> rp_source a = None" "mi_checkout m = mi_checkout (mirror_of b)"
    "mi_sources m = mi_sources (mirror_of b)"
  shows "fold replay_delta (case (rp_source b, rp_source a) of
      (Some b, Some a) \<Rightarrow>
        (if worktree_head (sn_revision b) \<noteq> worktree_head (sn_revision a)
         then [DeltaSource (RevisionChanged (sn_revision b) (sn_revision a))] else []) @
        map DeltaSource (diff_sources b a) | _ \<Rightarrow> []) m =
    m\<lparr>mi_checkout := mi_checkout (mirror_of a), mi_sources := mi_sources (mirror_of a)\<rparr>"
proof (cases "rp_source b")
  case None
  then show ?thesis using assms by (cases m) (simp add: mirror_of_def)
next
  case (Some rb)
  then obtain ra where ra: "rp_source a = Some ra" using assms(1) by auto
  have m: "m = m\<lparr>mi_checkout := worktree_head (sn_revision rb), mi_sources := viewed se_content listed_path (sn_files rb)\<rparr>"
    using assms(2,3) Some by (cases m) (simp add: mirror_of_def)
  show ?thesis using replay_diff_sources [of rb ra m] Some ra m by (simp add: mirror_of_def)
qed

lemma replay_part_index:
  assumes "rp_index b = None \<longleftrightarrow> rp_index a = None" "mi_index m = rp_index b"
  shows "fold replay_delta (case (rp_index b, rp_index a) of
      (Some b, Some a) \<Rightarrow> (if b \<noteq> a then [DeltaIndex (IndexChanged b a)] else []) | _ \<Rightarrow> []) m = m\<lparr>mi_index := rp_index a\<rparr>"
  using assms by (cases "rp_index b"; cases "rp_index a"; cases m) auto

lemma replay_part_worktrees:
  assumes "rp_worktrees b = None \<longleftrightarrow> rp_worktrees a = None" "mi_worktrees m = mi_worktrees (mirror_of b)"
  shows "fold replay_delta (case (rp_worktrees b, rp_worktrees a) of
      (Some b, Some a) \<Rightarrow> map DeltaWorktree (diff_worktrees b a) | _ \<Rightarrow> []) m =
    m\<lparr>mi_worktrees := mi_worktrees (mirror_of a)\<rparr>"
proof (cases "rp_worktrees b")
  case None
  then show ?thesis using assms by (cases m) (simp add: mirror_of_def)
next
  case (Some rb)
  then obtain ra where ra: "rp_worktrees a = Some ra" using assms(1) by auto
  have m: "m = m\<lparr>mi_worktrees := viewed (\<lambda>w. w) wo_worktree (ws_worktrees rb)\<rparr>"
    using assms(2) Some by (cases m) (simp add: mirror_of_def)
  show ?thesis using replay_diff_worktrees [of rb ra m] Some ra m by (simp add: mirror_of_def)
qed

lemma deltas_replay_all:
  assumes "same_surfaces before after"
  shows "fold replay_delta (diff_repository before after) (mirror_of before) = mirror_of after"
proof -
  have same: "rp_source before = None \<longleftrightarrow> rp_source after = None" "rp_refs before = None \<longleftrightarrow> rp_refs after = None"
    "rp_index before = None \<longleftrightarrow> rp_index after = None" "rp_worktrees before = None \<longleftrightarrow> rp_worktrees after = None"
    using assms by (auto simp: same_surfaces_def)
  let ?m = "mirror_of before" and ?n = "mirror_of after"
  let ?r = "?m\<lparr>mi_head := mi_head ?n, mi_refs := mi_refs ?n\<rparr>"
  let ?s = "?r\<lparr>mi_checkout := mi_checkout ?n, mi_sources := mi_sources ?n\<rparr>"
  have i: "mi_index (?s\<lparr>mi_index := rp_index after\<rparr>) = mi_index ?n" by (simp add: mirror_of_def)
  have "?s\<lparr>mi_index := rp_index after, mi_worktrees := mi_worktrees ?n\<rparr> = ?n" using i by (cases ?n) simp
  then show ?thesis
    unfolding diff_repository_def fold_append comp_apply
    using replay_part_refs [OF same(2), of ?m] replay_part_source [OF same(1), of ?r]
      replay_part_index [OF same(3), of ?s] replay_part_worktrees [OF same(4), of "?s\<lparr>mi_index := rp_index after\<rparr>"]
    by (simp add: mirror_of_def)
qed

text \<open>C29 -- The deltas between two snapshots with the same surfaces, as those of one watcher are, carry the
  whole change: a client that replays them on its mirror of the first snapshot holds the mirror
  of the second, the head, every ref, the checked-out commit, the content of every source, the
  index and every linked worktree. The dirty flag of the checkout is in no delta and not in the
  mirror.\<close>

theorem deltas_replay:
  assumes "same_surfaces before after"
  shows "fold replay_delta (diff_repository before after) (mirror_of before) = mirror_of after"
  using assms by (rule deltas_replay_all)

end
