(* ===== verification/WatchPlanProofs.thy ===== *)
theory WatchPlanProofs
  imports Watch
begin

text \<open>
  What the filter of a repository watcher asks for is what its plan watches, and how long a batch
  may last. A watch on a directory reports what happens to it and to its entries; a recursive one
  reports everything below.
\<close>

definition observes :: "watch_target list \<Rightarrow> apath \<Rightarrow> bool" where
  "observes targets p \<longleftrightarrow> (\<exists>t \<in> set targets. wt_path t = p \<or> (p \<noteq> [] \<and> butlast p = wt_path t) \<or>
     wt_recursive t \<and> prefix (wt_path t) p)"

definition reaches :: "watch_target list \<Rightarrow> apath \<Rightarrow> bool" where
  "reaches targets p \<longleftrightarrow> (\<exists>t \<in> set targets. wt_recursive t \<and> prefix (wt_path t) p)"

lemma covers_conv: "covers targets p \<longleftrightarrow> (\<exists>t \<in> set targets. wt_path t = p) \<or> reaches targets p"
  by (auto simp: covers_def reaches_def list_ex_iff path_starts_with_def)

lemma covers_observes: "covers targets d \<Longrightarrow> observes targets (d @ [n])"
  by (auto simp: covers_conv reaches_def observes_def intro: prefix_order.trans)

lemma covers_observes_self: "covers targets d \<Longrightarrow> observes targets d"
  by (auto simp: covers_conv reaches_def observes_def)

lemma reaches_observes: "reaches targets d \<Longrightarrow> prefix d p \<Longrightarrow> observes targets p"
  by (auto simp: reaches_def observes_def intro: prefix_order.trans)

lemma add_target_subset: "set targets \<subseteq> set (add_target targets p r)"
  by (auto simp: add_target_def)

lemma covers_mono: "set targets \<subseteq> set targets' \<Longrightarrow> covers targets p \<Longrightarrow> covers targets' p"
  by (auto simp: covers_conv reaches_def)

lemma reaches_mono: "set targets \<subseteq> set targets' \<Longrightarrow> reaches targets p \<Longrightarrow> reaches targets' p"
  by (auto simp: reaches_def)

lemma add_target_covers: "covers (add_target targets p r) p"
  by (auto simp: add_target_def covers_conv)

text \<open>Only the two Git directories are watched without what is below them.\<close>

definition shallow_at :: "apath set \<Rightarrow> watch_target list \<Rightarrow> bool" where
  "shallow_at ds targets \<longleftrightarrow> (\<forall>t \<in> set targets. \<not> wt_recursive t \<longrightarrow> wt_path t \<in> ds)"

lemma add_target_shallow: "shallow_at ds targets \<Longrightarrow> r \<or> p \<in> ds \<Longrightarrow> shallow_at ds (add_target targets p r)"
  by (auto simp: shallow_at_def add_target_def)

lemma covers_reaches: "shallow_at ds targets \<Longrightarrow> covers targets p \<Longrightarrow> p \<notin> ds \<Longrightarrow> reaches targets p"
  by (auto simp: covers_conv shallow_at_def reaches_def)

text \<open>No target repeats what an earlier one watches.\<close>

inductive fresh_targets :: "watch_target list \<Rightarrow> bool" where
  none: "fresh_targets []"
| snoc: "fresh_targets targets \<Longrightarrow> \<not> covers targets (wt_path t) \<Longrightarrow> fresh_targets (targets @ [t])"

lemma add_target_fresh: "fresh_targets targets \<Longrightarrow> fresh_targets (add_target targets p r)"
  using fresh_targets.snoc [of targets "\<lparr>wt_path = p, wt_recursive = r\<rparr>"] by (simp add: add_target_def)

lemma fresh_targets_nth: "fresh_targets targets \<Longrightarrow> j < length targets \<Longrightarrow> \<not> covers (take j targets) (wt_path (targets ! j))"
proof (induction arbitrary: j rule: fresh_targets.induct)
  case (snoc targets t)
  then show ?case by (cases "j < length targets") (auto simp: nth_append not_less less_Suc_eq)
qed simp

subsection \<open>The plan\<close>

lemma watch_plan_facts:
  fixes root git_dir common_dir query refs_exist worktrees_exist
  defines "plan \<equiv> watch_plan_of root git_dir common_dir query refs_exist worktrees_exist"
  defines "targets \<equiv> wp_targets plan"
  shows "shallow_at {git_dir, common_dir} targets" "fresh_targets targets"
    and "wq_source query \<noteq> None \<Longrightarrow> reaches targets root"
    and "wq_source query \<noteq> None \<or> wq_refs query \<noteq> None \<or> wq_index query \<or> wq_linked_worktrees query \<Longrightarrow> covers targets git_dir"
    and "wq_source query \<noteq> None \<or> wq_refs query \<noteq> None \<or> wq_linked_worktrees query \<Longrightarrow> covers targets common_dir"
    and "(wq_source query \<noteq> None \<or> wq_refs query \<noteq> None) \<and> refs_exist \<Longrightarrow> covers targets (common_dir @ [''refs''])"
    and "wq_linked_worktrees query \<and> worktrees_exist \<Longrightarrow> covers targets (common_dir @ [''worktrees''])"
    and "wp_refs_watched plan \<Longrightarrow> covers targets (common_dir @ [''refs''])"
    and "wp_worktrees_watched plan \<Longrightarrow> covers targets (common_dir @ [''worktrees''])"
proof -
  let ?src = "wq_source query \<noteq> None" and ?refs = "wq_source query \<noteq> None \<or> wq_refs query \<noteq> None"
    and ?link = "wq_linked_worktrees query"
  let ?r = "common_dir @ [''refs'']" and ?w = "common_dir @ [''worktrees'']"
  define a where "a = (if ?src then add_target [] root True else [])"
  define b where "b = (if ?refs \<or> wq_index query \<or> ?link then add_target a git_dir False else a)"
  define c where "c = (if (?refs \<or> ?link) \<and> common_dir \<noteq> git_dir then add_target b common_dir False else b)"
  define d where "d = (if ?refs \<and> refs_exist then add_target c ?r True else c)"
  define e where "e = (if ?link \<and> worktrees_exist then add_target d ?w True else d)"
  have plan: "plan = \<lparr>wp_targets = e, wp_refs_watched = (?refs \<and> covers d ?r), wp_worktrees_watched = (?link \<and> covers e ?w)\<rparr>"
    unfolding plan_def watch_plan_of_def a_def b_def c_def d_def e_def Let_def ..
  have sub: "set a \<subseteq> set b" "set b \<subseteq> set c" "set c \<subseteq> set d" "set d \<subseteq> set e"
    unfolding b_def c_def d_def e_def using add_target_subset by (auto split: if_splits)
  have e: "targets = e" by (simp add: targets_def plan)
  have up: "set a \<subseteq> set targets" "set b \<subseteq> set targets" "set c \<subseteq> set targets" "set d \<subseteq> set targets"
    using sub by (auto simp: e)
  let ?ds = "{git_dir, common_dir}"
  have "shallow_at ?ds []" "fresh_targets []" by (simp_all add: shallow_at_def fresh_targets.none)
  then have "shallow_at ?ds a \<and> fresh_targets a" by (simp add: a_def add_target_shallow add_target_fresh)
  then have "shallow_at ?ds b \<and> fresh_targets b" by (simp add: b_def add_target_shallow add_target_fresh)
  then have "shallow_at ?ds c \<and> fresh_targets c" by (simp add: c_def add_target_shallow add_target_fresh)
  then have "shallow_at ?ds d \<and> fresh_targets d" by (simp add: d_def add_target_shallow add_target_fresh)
  then have "shallow_at ?ds e \<and> fresh_targets e" by (simp add: e_def add_target_shallow add_target_fresh)
  then show "shallow_at ?ds targets" "fresh_targets targets" by (simp_all add: targets_def plan)
  have "?src \<Longrightarrow> reaches a root" by (simp add: a_def add_target_def covers_def reaches_def)
  then show "?src \<Longrightarrow> reaches targets root"
    using reaches_mono [OF up(1)] by blast
  have "?refs \<or> wq_index query \<or> ?link \<Longrightarrow> covers b git_dir" by (simp add: b_def add_target_covers)
  then show "?src \<or> wq_refs query \<noteq> None \<or> wq_index query \<or> ?link \<Longrightarrow> covers targets git_dir"
    using covers_mono [OF up(2)] by blast
  have "?refs \<or> ?link \<Longrightarrow> covers c common_dir"
    by (cases "common_dir = git_dir") (auto simp: c_def b_def add_target_covers)
  then show "?src \<or> wq_refs query \<noteq> None \<or> ?link \<Longrightarrow> covers targets common_dir"
    using covers_mono [OF up(3)] by blast
  have "?refs \<and> refs_exist \<Longrightarrow> covers d ?r" by (simp add: d_def add_target_covers)
  then show "?refs \<and> refs_exist \<Longrightarrow> covers targets ?r"
    using covers_mono [OF up(4)] by blast
  show "?link \<and> worktrees_exist \<Longrightarrow> covers targets ?w" by (simp add: targets_def plan e_def add_target_covers)
  show "wp_refs_watched plan \<Longrightarrow> covers targets ?r" "wp_worktrees_watched plan \<Longrightarrow> covers targets ?w"
    using covers_mono sub(4) by (auto simp: targets_def plan)
qed

lemma plan_observes:
  fixes refs_exist worktrees_exist root common_dir query
  assumes "git_dir \<notin> {common_dir @ [''refs''], common_dir @ [''worktrees'']}"
    and relevant: "path_is_relevant root query git_dir common_dir p"
    and "strict_prefix (common_dir @ [''refs'']) p \<longrightarrow> refs_exist"
    and "strict_prefix (common_dir @ [''worktrees'']) p \<longrightarrow> worktrees_exist"
  shows "observes (wp_targets (watch_plan_of root git_dir common_dir query refs_exist worktrees_exist)) p"
proof -
  let ?ts = "wp_targets (watch_plan_of root git_dir common_dir query refs_exist worktrees_exist)"
  let ?r = "common_dir @ [''refs'']" and ?w = "common_dir @ [''worktrees'']"
  note facts = watch_plan_facts [where root = root and git_dir = git_dir and common_dir = common_dir and query = query
      and refs_exist = refs_exist and worktrees_exist = worktrees_exist]
  have deep: "observes ?ts p" if "covers ?ts d" "prefix d p" "d = ?r \<or> d = ?w" for d
    using covers_reaches [OF facts(1) that(1)] that assms(1) reaches_observes by blast
  have at: "observes ?ts p" if "covers ?ts d" "p = d \<or> p = d @ [n]" for d n
    using that covers_observes covers_observes_self by blast
  have split: "p = d \<or> strict_prefix d p" if "prefix d p" for d using that by (auto simp: strict_prefix_def)
  consider (source) "wq_source query \<noteq> None" "prefix root p"
    | (git) n where "wq_source query \<noteq> None \<or> wq_refs query \<noteq> None \<or> wq_index query \<or> wq_linked_worktrees query" "p = git_dir @ [n]"
    | (common) n where "wq_source query \<noteq> None \<or> wq_refs query \<noteq> None \<or> wq_linked_worktrees query" "p = common_dir \<or> p = common_dir @ [n]"
    | (refs) "wq_source query \<noteq> None \<or> wq_refs query \<noteq> None" "strict_prefix ?r p"
    | (worktrees) "wq_linked_worktrees query" "strict_prefix ?w p"
    using relevant split [of ?r] split [of ?w] unfolding path_is_relevant_def Let_def path_starts_with_def by metis
  then show ?thesis
  proof cases
    case source
    then show ?thesis using reaches_observes [OF facts(3)] by blast
  next
    case git
    then show ?thesis using at [OF facts(4)] by blast
  next
    case common
    then show ?thesis using at [OF facts(5)] by blast
  next
    case refs
    then show ?thesis using deep [OF facts(6)] assms(3) by (auto simp: strict_prefix_def)
  next
    case worktrees
    then show ?thesis using deep [OF facts(7)] assms(4) by (auto simp: strict_prefix_def)
  qed
qed

text \<open>C28 -- The plan watches what the filter lets through: every path that matters to the query
  is observed by a target, except below \<open>refs\<close> or \<open>worktrees\<close> while that directory does not
  exist; and no target lies where an earlier one already watches. (The Git directory of the
  checkout is neither of the two.)\<close>

theorem watch_plan_observes:
  fixes refs_exist worktrees_exist root common_dir query
  assumes "git_dir \<notin> {common_dir @ [''refs''], common_dir @ [''worktrees'']}"
    and relevant: "path_is_relevant root query git_dir common_dir p"
    and "strict_prefix (common_dir @ [''refs'']) p \<longrightarrow> refs_exist"
    and "strict_prefix (common_dir @ [''worktrees'']) p \<longrightarrow> worktrees_exist"
  shows "observes (wp_targets (watch_plan_of root git_dir common_dir query refs_exist worktrees_exist)) p \<and>
    (\<forall>j < length (wp_targets (watch_plan_of root git_dir common_dir query refs_exist worktrees_exist)).
       \<not> covers (take j (wp_targets (watch_plan_of root git_dir common_dir query refs_exist worktrees_exist)))
         (wt_path (wp_targets (watch_plan_of root git_dir common_dir query refs_exist worktrees_exist) ! j)))"
  using plan_observes [OF assms] fresh_targets_nth [OF watch_plan_facts(2)] by blast

subsection \<open>The length of a batch\<close>

definition gap_before :: "(nat \<times> 'e) list \<Rightarrow> nat \<Rightarrow> nat \<Rightarrow> nat" where
  "gap_before queue now i = (if i = 0 then now else fst (queue ! (i - 1)))"

lemma gap_before_Suc: "gap_before (x # queue) now (Suc i) = gap_before queue (fst x) i"
  by (cases i) (simp_all add: gap_before_def)

lemma collect_window:
  assumes "sorted (map fst queue)" "\<forall>x \<in> set queue. now \<le> fst x"
  shows "\<exists>n \<le> length queue. collect quiet maximum now queue = map snd (take n queue) \<and>
    (\<forall>i < n. fst (queue ! i) \<le> maximum \<and> fst (queue ! i) \<le> gap_before queue now i + quiet) \<and>
    (n < length queue \<longrightarrow> maximum \<le> gap_before queue now n \<or>
       min maximum (gap_before queue now n + quiet) < fst (queue ! n))"
  using assms
proof (induction queue arbitrary: now)
  case Nil
  then show ?case by simp
next
  case (Cons x queue)
  obtain t e where x: "x = (t, e)" by force
  show ?case
  proof (cases "now < maximum \<and> t \<le> now + min quiet (maximum - now)")
    case False
    then have "collect quiet maximum now (x # queue) = map snd (take 0 (x # queue))" by (auto simp: x Let_def)
    moreover have "maximum \<le> gap_before (x # queue) now 0 \<or> min maximum (gap_before (x # queue) now 0 + quiet) < fst ((x # queue) ! 0)"
      using False by (auto simp: x gap_before_def min_def split: if_splits)
    ultimately show ?thesis by (intro exI [of _ 0]) simp
  next
    case True
    have t: "max now t = t" using Cons.prems(2) by (simp add: x)
    have "\<forall>y \<in> set queue. t \<le> fst y" using Cons.prems(1) by (simp add: x)
    then obtain n where n: "n \<le> length queue" "collect quiet maximum t queue = map snd (take n queue)"
        "\<forall>i < n. fst (queue ! i) \<le> maximum \<and> fst (queue ! i) \<le> gap_before queue t i + quiet"
        "n < length queue \<longrightarrow> maximum \<le> gap_before queue t n \<or> min maximum (gap_before queue t n + quiet) < fst (queue ! n)"
      using Cons.IH [of t] Cons.prems(1) by auto
    have "collect quiet maximum now (x # queue) = map snd (take (Suc n) (x # queue))"
      using True t n(2) by (simp add: x Let_def)
    moreover have "fst ((x # queue) ! i) \<le> maximum \<and> fst ((x # queue) ! i) \<le> gap_before (x # queue) now i + quiet"
      if "i < Suc n" for i
      using that n(3) True by (cases i) (auto simp: x gap_before_Suc gap_before_def [of "(t, e) # queue" now 0])
    moreover have "Suc n < length (x # queue) \<longrightarrow> maximum \<le> gap_before (x # queue) now (Suc n) \<or>
        min maximum (gap_before (x # queue) now (Suc n) + quiet) < fst ((x # queue) ! Suc n)"
      using n(4) by (simp add: x gap_before_Suc)
    ultimately show ?thesis using n(1) by (intro exI [of _ "Suc n"]) simp
  qed
qed

text \<open>A batch is the first event and the longest run of pending events after it in which no
  event comes more than the quiet time after the one before it and none later than the
  maximum after the first: it neither stops early nor outlasts the maximum.\<close>

theorem batch_window:
  assumes "sorted (map fst queue)"
  shows "\<exists>n \<le> length queue. recv_batch c first queue = first # map snd (take n queue) \<and>
    (\<forall>i < n. fst (queue ! i) \<le> unat (wc_max_ms c) \<and> fst (queue ! i) \<le> gap_before queue 0 i + unat (wc_quiet_ms c)) \<and>
    (n < length queue \<longrightarrow> unat (wc_max_ms c) \<le> gap_before queue 0 n \<or>
       min (unat (wc_max_ms c)) (gap_before queue 0 n + unat (wc_quiet_ms c)) < fst (queue ! n))"
  using collect_window [OF assms, of 0] by (simp add: recv_batch_def)

end
