(* ===== verification/WatchClient.thy ===== *)
theory WatchClient
  imports DeltaReplay WatchPlanProofs
begin

text \<open>
  A client of a repository watcher that replays what each receive returns. Nothing is assumed of
  the world: every receive runs in an outside of its own, with any batch of notifications.
\<close>

subsection \<open>Judging a batch\<close>

text \<open>A notification asks for a new snapshot when it is an error, announces lost events, or names a
  path that matters to the query, as it is reported or in its canonical form.\<close>

definition path_matters :: "fs \<Rightarrow> repository_watcher \<Rightarrow> apath \<Rightarrow> bool" where
  "path_matters fs w p \<longleftrightarrow> (\<exists>q. (q = p \<or> canonicalize fs p = Inr q) \<and>
     path_is_relevant (repo_path_of (rw_repository w)) (rw_query w) (rw_git_dir w) (rw_common_dir w) q)"

definition asks :: "fs \<Rightarrow> repository_watcher \<Rightarrow> event_result \<Rightarrow> bool" where
  "asks fs w r \<longleftrightarrow> (case r of Inl e \<Rightarrow> True
     | Inr evs \<Rightarrow> \<exists>ev \<in> set evs. ev_rescan ev \<or> (\<exists>p \<in> set (ev_paths ev). path_matters fs w p))"

lemma watcher_relevant_matters: "watcher_relevant fs w p = path_matters fs w p"
  by (auto simp: watcher_relevant_def either_path_def path_matters_def split: sum.splits)

lemma classify_fold:
  "es_relevant (foldl (\<lambda>state ev. state\<lparr>es_rescan := es_rescan state \<or> ev_rescan ev,
      es_relevant := es_relevant state \<or> list_ex f (ev_paths ev)\<rparr>) st evs) \<longleftrightarrow>
    es_relevant st \<or> (\<exists>ev \<in> set evs. \<exists>p \<in> set (ev_paths ev). f p)"
  "es_rescan (foldl (\<lambda>state ev. state\<lparr>es_rescan := es_rescan state \<or> ev_rescan ev,
      es_relevant := es_relevant state \<or> list_ex f (ev_paths ev)\<rparr>) st evs) \<longleftrightarrow>
    es_rescan st \<or> (\<exists>ev \<in> set evs. ev_rescan ev)"
  by (induction evs arbitrary: st) (auto simp: list_ex_iff)

lemma classify_batch_aux:
  "es_relevant (foldl (\<lambda>state r. case r of Inl e \<Rightarrow> state\<lparr>es_rescan := True\<rparr>
       | Inr evs \<Rightarrow> foldl (\<lambda>state ev. state\<lparr>es_rescan := es_rescan state \<or> ev_rescan ev,
           es_relevant := es_relevant state \<or> list_ex f (ev_paths ev)\<rparr>) state evs) st batch) \<longleftrightarrow>
    es_relevant st \<or> (\<exists>evs. Inr evs \<in> set batch \<and> (\<exists>ev \<in> set evs. \<exists>p \<in> set (ev_paths ev). f p))"
  "es_rescan (foldl (\<lambda>state r. case r of Inl e \<Rightarrow> state\<lparr>es_rescan := True\<rparr>
       | Inr evs \<Rightarrow> foldl (\<lambda>state ev. state\<lparr>es_rescan := es_rescan state \<or> ev_rescan ev,
           es_relevant := es_relevant state \<or> list_ex f (ev_paths ev)\<rparr>) state evs) st batch) \<longleftrightarrow>
    es_rescan st \<or> (\<exists>e. Inl e \<in> set batch) \<or> (\<exists>evs. Inr evs \<in> set batch \<and> (\<exists>ev \<in> set evs. ev_rescan ev))"
proof (induction batch arbitrary: st)
  case (Cons r batch)
  { case 1 show ?case by (cases r) (auto simp: Cons.IH classify_fold) }
  { case 2 show ?case by (cases r) (auto simp: Cons.IH classify_fold) }
qed simp_all

lemma judged_asks:
  "es_relevant (watcher_judge fs w batch) \<or> es_rescan (watcher_judge fs w batch) \<longleftrightarrow> (\<exists>r \<in> set batch. asks fs w r)"
proof -
  have "(\<exists>r \<in> set batch. asks fs w r) \<longleftrightarrow> (\<exists>e. Inl e \<in> set batch) \<or>
      (\<exists>evs. Inr evs \<in> set batch \<and> (\<exists>ev \<in> set evs. ev_rescan ev \<or> (\<exists>p \<in> set (ev_paths ev). path_matters fs w p)))"
    (is "?some = ?parts")
  proof
    assume ?some
    then obtain r where r: "r \<in> set batch" "asks fs w r" by blast
    show ?parts
    proof (cases r)
      case (Inl e)
      then show ?thesis using r(1) by blast
    next
      case (Inr evs)
      then show ?thesis using r by (auto simp: asks_def)
    qed
  next
    assume ?parts
    then show ?some
    proof (elim disjE exE conjE)
      fix e assume "Inl e \<in> set batch"
      then show ?some by (rule bexI [rotated]) (simp add: asks_def)
    next
      fix evs assume "Inr evs \<in> set batch" "\<exists>ev \<in> set evs. ev_rescan ev \<or> (\<exists>p \<in> set (ev_paths ev). path_matters fs w p)"
      then show ?some by (intro bexI [where x = "Inr evs"]) (simp_all add: asks_def)
    qed
  qed
  then show ?thesis
    by (simp add: watcher_judge_def classify_event_batch_def classify_batch_aux watcher_relevant_matters) blast
qed

subsection \<open>The surfaces of a snapshot are those of the query\<close>

lemma read_snapshot_parts:
  "read_snapshot X h w = (case fst (read_source X h w) of
      Inl e \<Rightarrow> Some (Inl e)
    | Inr source \<Rightarrow> (case read_refs h w of
        None \<Rightarrow> None
      | Some (Inl e) \<Rightarrow> Some (Inl e)
      | Some (Inr refs) \<Rightarrow> Some (rbind (read_index X h w) (\<lambda>index. rbind (read_worktrees X h w) (\<lambda>worktrees.
          Inr \<lparr>rp_repository = repo_identity (rw_repository w), rp_source = source, rp_refs = refs,
            rp_index = index, rp_worktrees = worktrees\<rparr>)))), snd (read_source X h w))"
  by (simp add: read_snapshot_def case_prod_beta Let_def)

definition snapshot_fits :: "repository_watcher \<Rightarrow> repository_snapshot \<Rightarrow> bool" where
  "snapshot_fits w b \<longleftrightarrow> (rp_source b = None \<longleftrightarrow> wq_source (rw_query w) = None) \<and>
     (rp_refs b = None \<longleftrightarrow> wq_refs (rw_query w) = None) \<and> (rp_index b = None \<longleftrightarrow> \<not> wq_index (rw_query w)) \<and>
     (rp_worktrees b = None \<longleftrightarrow> \<not> wq_linked_worktrees (rw_query w))"

lemma map_sum_Some: "map_sum id Some r = Inr b \<Longrightarrow> b \<noteq> None"
  by (cases r) auto

lemma read_source_Some: "fst (read_source X h w) = Inr b \<Longrightarrow> b = None \<longleftrightarrow> wq_source (rw_query w) = None"
  by (cases "rw_source_tree w"; cases "wq_source (rw_query w)")
    (auto simp: read_source_def Let_def case_prod_beta dest: map_sum_Some)

lemma read_refs_Some: "read_refs h w = Some (Inr b) \<Longrightarrow> b = None \<longleftrightarrow> wq_refs (rw_query w) = None"
  by (cases "rw_refs w"; cases "wq_refs (rw_query w)") (auto simp: read_refs_def dest: map_sum_Some)

lemma read_index_Some: "read_index X h w = Inr b \<Longrightarrow> b = None \<longleftrightarrow> \<not> wq_index (rw_query w)"
  by (auto simp: read_index_def map_sum_def split: sum.splits if_splits)

lemma read_worktrees_Some: "read_worktrees X h w = Inr b \<Longrightarrow> b = None \<longleftrightarrow> \<not> wq_linked_worktrees (rw_query w)"
  by (auto simp: read_worktrees_def map_sum_def split: sum.splits if_splits)

lemma read_snapshot_fits:
  assumes "fst (read_snapshot X h w) = Some (Inr b)"
  shows "snapshot_fits w b"
proof -
  obtain source refs index worktrees where
    "fst (read_source X h w) = Inr source" "read_refs h w = Some (Inr refs)" "read_index X h w = Inr index"
    "read_worktrees X h w = Inr worktrees"
    "b = \<lparr>rp_repository = repo_identity (rw_repository w), rp_source = source, rp_refs = refs, rp_index = index,
       rp_worktrees = worktrees\<rparr>"
    using assms unfolding read_snapshot_parts fst_conv
    by (cases "fst (read_source X h w)"; cases "read_refs h w"; cases "the (read_refs h w)"; cases "read_index X h w";
        cases "read_worktrees X h w") auto
  then show ?thesis
    using read_source_Some read_refs_Some read_index_Some read_worktrees_Some
    by (fastforce simp: snapshot_fits_def)
qed

lemma fits_same_surfaces: "snapshot_fits w b \<Longrightarrow> snapshot_fits w a \<Longrightarrow> same_surfaces b a"
  by (auto simp: snapshot_fits_def same_surfaces_def)

subsection \<open>One receive\<close>

lemma refresh_watches_keeps:
  "refresh_watches h ws w = (r, v) \<Longrightarrow> rw_snapshot v = rw_snapshot w \<and> rw_query v = rw_query w"
proof (induction h ws w arbitrary: v rule: refresh_watches.induct)
  case (1 h w)
  then show ?case by simp
next
  case (2 h p rest w)
  then show ?case by (cases "o_watch h \<lparr>wt_path = p, wt_recursive = True\<rparr>") (auto simp: Let_def)
next
  case (3 h p rest w)
  then show ?case by (cases "o_watch h \<lparr>wt_path = p, wt_recursive = True\<rparr>") (auto simp: Let_def)
qed

text \<open>The watcher holds a snapshot with the surfaces of its query.\<close>

definition holding :: "repository_watcher \<Rightarrow> repository_snapshot \<Rightarrow> bool" where
  "holding w b \<longleftrightarrow> rw_snapshot w = Some b \<and> snapshot_fits w b"

lemma recv_publish_cases:
  assumes "recv_publish h st after w = (r, v)" "rw_snapshot w = Some before"
  shows "rw_query v = rw_query w \<and>
    (case r of Inl e \<Rightarrow> rw_snapshot v = Some before
     | Inr deltas \<Rightarrow> rw_snapshot v = Some after \<and>
         deltas = (if es_rescan st then [RescanRequired] else []) @ diff_repository before after)"
proof -
  obtain x u where u: "refresh_optional_watches h w = (x, u)" by force
  then have "rw_snapshot u = rw_snapshot w \<and> rw_query u = rw_query w"
    using refresh_watches_keeps unfolding refresh_optional_watches_def by blast
  then show ?thesis using assms u by (cases x) (auto simp: recv_publish_def)
qed

lemma fits_query: "rw_query v = rw_query w \<Longrightarrow> snapshot_fits v b = snapshot_fits w b"
  by (simp add: snapshot_fits_def)

lemma replay_rescan: "fold replay_delta ((if c then [RescanRequired] else []) @ ds) m = fold replay_delta ds m"
  by simp

lemma recv_batch_cases:
  assumes hold: "holding w before" and run: "repository_recv_batch X h batch w = (Some r, v)"
  shows "if \<exists>n \<in> set batch. asks (o_fs h) w n
    then (case r of Inl e \<Rightarrow> holding v before
      | Inr deltas \<Rightarrow> \<exists>after. fst (read_snapshot X h w) = Some (Inr after) \<and> holding v after \<and>
          fold replay_delta deltas (mirror_of before) = mirror_of after)
    else r = Inr [] \<and> v = w"
proof (cases "\<exists>n \<in> set batch. asks (o_fs h) w n")
  case False
  then have "\<not> es_relevant (watcher_judge (o_fs h) w batch) \<and> \<not> es_rescan (watcher_judge (o_fs h) w batch)"
    using judged_asks [of "o_fs h" w batch] by blast
  then show ?thesis using False run by (auto simp: repository_recv_batch_def Let_def)
next
  case True
  have b: "rw_snapshot w = Some before" "snapshot_fits w before" using hold by (auto simp: holding_def)
  have judged: "\<not> (\<not> es_relevant (watcher_judge (o_fs h) w batch) \<and> \<not> es_rescan (watcher_judge (o_fs h) w batch))"
    using True judged_asks [of "o_fs h" w batch] by blast
  obtain x cache where read: "read_snapshot X h w = (x, cache)" by force
  let ?w = "w\<lparr>rw_source_tree := cache\<rparr>"
  show ?thesis
  proof (cases x)
    case None
    then show ?thesis using run read b judged by (simp add: repository_recv_batch_def Let_def split: if_splits)
  next
    case (Some y)
    show ?thesis
    proof (cases y)
      case (Inl e)
      then have "r = Inl e" "v = ?w" using run read b judged Some by (auto simp: repository_recv_batch_def Let_def split: if_splits)
      then show ?thesis using True b by (simp add: holding_def snapshot_fits_def)
    next
      case (Inr after)
      then obtain p: "recv_publish h (watcher_judge (o_fs h) w batch) after ?w = (r, v)"
        using run read b judged Some by (auto simp: repository_recv_batch_def Let_def split: if_splits prod.splits)
      have after: "snapshot_fits w after" using read_snapshot_fits [of X h w after] read Some Inr by simp
      have "rw_snapshot ?w = Some before" "rw_query ?w = rw_query w" using b by simp_all
      note pub = recv_publish_cases [OF p this(1)] this(2)
      show ?thesis
      proof (cases r)
        case (Inl e)
        then show ?thesis using True pub b by (simp add: holding_def fits_query [of v w])
      next
        case (Inr deltas)
        then have "fold replay_delta deltas (mirror_of before) = mirror_of after"
          using pub deltas_replay_all [OF fits_same_surfaces [OF b(2) after]] by simp
        then show ?thesis
          using True Inr pub after read Some \<open>y = Inr after\<close> by (simp add: holding_def fits_query [of v w])
      qed
    qed
  qed
qed

subsection \<open>A client\<close>

text \<open>A run of receives: after an error the caller may receive again; a panic ends the run.\<close>

fun watch_client ::
  "('x) ext_scheme \<Rightarrow> (outside \<times> event_result list) list \<Rightarrow> repository_watcher \<Rightarrow> mirror \<Rightarrow> (repository_watcher \<times> mirror) option" where
  "watch_client X [] w m = Some (w, m)"
| "watch_client X ((h, batch) # rest) w m =
     (case repository_recv_batch X h batch w of
        (None, v) \<Rightarrow> None
      | (Some (Inl e), v) \<Rightarrow> watch_client X rest v m
      | (Some (Inr deltas), v) \<Rightarrow> watch_client X rest v (fold replay_delta deltas m))"

lemma watch_client_holds:
  "holding w b \<Longrightarrow> watch_client X steps w (mirror_of b) = Some (v, m) \<Longrightarrow> \<exists>c. holding v c \<and> m = mirror_of c"
proof (induction steps arbitrary: w b)
  case (Cons step steps)
  obtain h batch where s: "step = (h, batch)" by force
  obtain x u where run: "repository_recv_batch X h batch w = (x, u)" by force
  then obtain r where r: "x = Some r" using Cons.prems(2) s by (cases x) auto
  note cases = recv_batch_cases [OF Cons.prems(1) run [unfolded r]]
  show ?case
  proof (cases r)
    case (Inl e)
    then have "holding u b" using cases Cons.prems(1) by (auto split: if_splits)
    then show ?thesis using Cons.IH Cons.prems(2) s run r Inl by simp
  next
    case (Inr deltas)
    then obtain c where "holding u c" "fold replay_delta deltas (mirror_of b) = mirror_of c"
      using cases Cons.prems(1) by (cases "\<exists>n \<in> set batch. asks (o_fs h) w n") auto
    then show ?thesis using Cons.IH Cons.prems(2) s run r Inr by simp
  qed
qed auto

lemma baseline_holds:
  assumes "watcher_baseline X h w = Some (Inr v)"
  shows "\<exists>b. holding v b \<and> fst (read_snapshot X h w) = Some (Inr b)"
proof -
  obtain b cache where b: "read_snapshot X h w = (Some (Inr b), cache)" "v = w\<lparr>rw_snapshot := Some b, rw_source_tree := cache\<rparr>"
    using assms by (auto simp: watcher_baseline_def split: prod.splits option.splits sum.splits)
  then show ?thesis using read_snapshot_fits [of X h w b] by (simp add: holding_def snapshot_fits_def)
qed

text \<open>C27 -- A client that starts from the opening snapshot and replays what every receive returns is
  in step with the watcher, whatever happens outside and whatever the batches, receives that fail
  included: after each receive that succeeds it holds the mirror of the snapshot the watcher
  keeps. If the batch held an error, an announcement of lost events or a path that matters to
  the query, as reported or in canonical form, that snapshot is the one this receive has read;
  else nothing is returned and the watcher is as before. (The mirror has no dirty flag: no delta
  carries it.)\<close>

theorem watcher_client_in_step:
  assumes "watcher_baseline X h0 w0 = Some (Inr w1)" and "rw_snapshot w1 = Some first"
    and "watch_client X steps w1 (mirror_of first) = Some (w, m)"
    and "repository_recv_batch X h batch w = (Some (Inr deltas), v)"
  shows "\<exists>now. rw_snapshot v = Some now \<and> fold replay_delta deltas m = mirror_of now \<and>
    (if \<exists>n \<in> set batch. asks (o_fs h) w n then fst (read_snapshot X h w) = Some (Inr now)
     else deltas = [] \<and> v = w)"
proof -
  have "holding w1 first" using baseline_holds [OF assms(1)] assms(2) by (auto simp: holding_def)
  then obtain b where b: "holding w b" "m = mirror_of b" using watch_client_holds [OF _ assms(3)] by blast
  show ?thesis
  proof (cases "\<exists>n \<in> set batch. asks (o_fs h) w n")
    case True
    then show ?thesis using recv_batch_cases [OF b(1) assms(4)] b(2) by (auto simp: holding_def)
  next
    case False
    then show ?thesis using recv_batch_cases [OF b(1) assms(4)] b by (auto simp: holding_def)
  qed
qed

end
