(* ===== verification/WatchSamples.thy ===== *)
theory WatchSamples
  imports SnapshotProofs Samples WatchClient
begin

text \<open>
  Concrete runs: a worktree session with a file written again during a walk, the two races of the
  content caches, and a watcher on a checkout with one file.
\<close>

definition one_file_walk :: "apath \<Rightarrow> bytes \<Rightarrow> walker" where
  "one_file_walk root b bases flt = [Inr \<lparr>we_path = root @ [''a''], we_utf8 = True, we_file = True,
     we_modified = 5, we_size = 1, we_bytes = Inr b\<rparr>]"

lemma one_file_entry:
  assumes "dk_files d ''a'' = Some ([b], 5)"
  shows "\<exists>e. one_file_walk root [b] bases flt = [Inr e] \<and> reported_path root e = Some ''a'' \<and> we_modified e = 5 \<and>
    we_file e \<and> we_utf8 e \<and> entry_true d root e"
proof -
  have "slash_text (relative_text [''a'']) = ''a''" by code_simp
  then show ?thesis
    using assms by (simp add: one_file_walk_def entry_true_def reported_path_def path_strip_prefix_def len64_def)
qed


subsection \<open>A worktree session\<close>

definition walk_repo :: repository where
  "walk_repo = \<lparr>repo_root = ''/t'', repo_identity = ''r'', repo_worktree = ''w''\<rparr>"

definition walk_fs :: fs where
  "walk_fs = [([], NDir), ([''t''], NDir)]"

definition walk_all :: globber where
  "walk_all patterns = Inr (\<lambda>p. True)"

definition walk_enumerate :: "bytes \<Rightarrow> int \<Rightarrow> (worktree_cache, string, source_entry list) stm" where
  "walk_enumerate b now = worktree_enumerate sample_ext (one_file_walk [''t''] b) walk_all walk_fs now walk_repo (RevCommit ''c'') []"

definition walk_cache :: worktree_cache where
  "walk_cache = snd (walk_enumerate [1] 5 empty_worktree_cache)"

lemma walk_root: "[''t''] = join_path [] (repo_root walk_repo)"
  by code_simp

definition walk_disk :: "int \<Rightarrow> bytes \<Rightarrow> disk" where
  "walk_disk t b = \<lparr>dk_clock = t, dk_files = [''a'' \<mapsto> (b, 5)]\<rparr>"

text \<open>The file is written again after the walk has visited it, in the second in which the walk ends.\<close>

lemma walk_observed: "observed [''t''] 5 {} (walk_disk 5 [1]) (one_file_walk [''t''] [1] bases flt) (walk_disk 5 [2])"
proof -
  obtain e where e: "one_file_walk [''t''] [1] bases flt = [Inr e]" "entry_true (walk_disk 5 [1]) [''t''] e"
    using one_file_entry [of "walk_disk 5 [1]" 1 "[''t'']" bases flt] by (auto simp: walk_disk_def)
  have rest: "observed [''t''] 5 hot (walk_disk 5 [1]) [] (walk_disk 5 [2])" for hot
    using observed.wrote [where p = "''a''" and d = "walk_disk 5 [1]" and b = "[2]" and hot = hot and til = 5]
      observed.ended [where d = "walk_disk 5 [2]" and til = 5 and hot = hot]
    by (fastforce simp: walk_disk_def)
  show ?thesis unfolding e(1) by (rule observed.visited [OF _ rest]) (use e(2) in simp)
qed

lemma walk_again: "observed [''t''] 6 {} (walk_disk 6 [2]) (one_file_walk [''t''] [2] bases flt) (walk_disk 6 [2])"
proof -
  obtain e where e: "one_file_walk [''t''] [2] bases flt = [Inr e]" "entry_true (walk_disk 6 [2]) [''t''] e"
    using one_file_entry [of "walk_disk 6 [2]" 2 "[''t'']" bases flt] by (auto simp: walk_disk_def)
  show ?thesis unfolding e(1)
    by (rule observed.visited [OF _ observed.ended]) (use e(2) in \<open>simp_all add: walk_disk_def\<close>)
qed

lemma walk_session: "session sample_ext walk_repo (walk_disk 6 [2]) walk_cache"
proof -
  let ?d = "\<lparr>dk_clock = 5, dk_files = Map.empty\<rparr>"
  have "session sample_ext walk_repo (walk_disk 5 [1]) empty_worktree_cache"
    using session.changed [OF session.opened [where d = ?d] disk_step.stored [where p = "''a''" and b = "[1]"]]
    by (simp add: walk_disk_def)
  from session.walked [OF this walk_root, where d' = "walk_disk 5 [2]" and walks = "one_file_walk [''t''] [1]" and fs = walk_fs
      and patterns = "[]" and glob = walk_all and revision = "RevCommit ''c''"]
  have "session sample_ext walk_repo (walk_disk 5 [2]) walk_cache"
    using walk_observed by (simp add: walk_cache_def walk_enumerate_def walk_disk_def)
  from session.changed [OF this disk_step.elapsed [where t = 6]] show ?thesis by (simp add: walk_disk_def)
qed

theorem worktree_cache_exact_witness:
  "fst (walk_enumerate [2] 6 walk_cache) = fst (walk_enumerate [2] 6 empty_worktree_cache) \<and>
   fst (walk_enumerate [2] 6 empty_worktree_cache) = Inr [\<lparr>se_source = SourceRef ''r'' (RevCommit ''c'') ''a'',
     se_content = Blake3 (replicate 32 2), se_size = 1\<rparr>]"
proof
  show "fst (walk_enumerate [2] 6 walk_cache) = fst (walk_enumerate [2] 6 empty_worktree_cache)"
    using worktree_cache_exact [OF walk_session walk_root, where d' = "walk_disk 6 [2]" and walks = "one_file_walk [''t''] [2]"
        and glob = walk_all and fs = walk_fs and revision = "RevCommit ''c''" and patterns = "[]"] walk_again
    by (simp add: walk_enumerate_def walk_disk_def)
  show "fst (walk_enumerate [2] 6 empty_worktree_cache) = Inr [\<lparr>se_source = SourceRef ''r'' (RevCommit ''c'') ''a'',
      se_content = Blake3 (replicate 32 2), se_size = 1\<rparr>]"
    by code_simp
qed




subsection \<open>A watcher\<close>

text \<open>
  A watcher on a checkout with one file. The file is written again in the second of the opening
  snapshot, the event arrives, and one receive tells the client.
\<close>

definition watch_fs :: fs where
  "watch_fs = [([], NDir), ([''t''], NDir), ([''t'', ''.git''], NDir), ([''t'', ''.git'', ''refs''], NDir),
     ([''t'', ''.git'', ''worktrees''], NDir)]"

definition watch_git :: git where
  "watch_git args b = Inr \<lparr>go_code = Some 0,
     go_stdout = (if args = [''rev-parse'', ''--absolute-git-dir'', ''--git-common-dir'']
         then bytes_of (''/t/.git'' @ [line_feed] @ ''.git'' @ [line_feed])
       else if args = [''rev-parse'', ''--verify'', ''HEAD^{commit}''] then bytes_of (''c'' @ [line_feed]) else []),
     go_stderr = []\<rparr>"

definition watch_out :: "bytes \<Rightarrow> outside" where
  "watch_out b = \<lparr>o_git = (\<lambda>_. watch_git), o_walks = one_file_walk [''t''] b, o_glob = walk_all, o_ref_glob = (\<lambda>_. Inr (\<lambda>_. True)),
     o_fs = watch_fs, o_now = 5, o_watch = (\<lambda>_. True)\<rparr>"

definition watch_sources :: watch_query where
  "watch_sources = \<lparr>wq_source = Some \<lparr>sq_revision = RvWorktree, sq_patterns = []\<rparr>, wq_refs = None, wq_index = False,
     wq_linked_worktrees = False, wq_coalescing = default_coalescing\<rparr>"

definition watch_opened :: repository_watcher where
  "watch_opened = \<lparr>rw_repository = walk_repo, rw_query = watch_sources, rw_snapshot = None,
     rw_source_tree = Some empty_worktree_cache, rw_refs = False, rw_git_dir = [''t'', ''.git''], rw_common_dir = [''t'', ''.git''],
     rw_refs_watched = True, rw_worktrees_watched = False, rw_watching = [\<lparr>wt_path = [''t''], wt_recursive = True\<rparr>]\<rparr>"

definition watch_listed :: "digest \<Rightarrow> repository_snapshot" where
  "watch_listed d = \<lparr>rp_repository = ''r'', rp_source = Some \<lparr>sn_revision = RevWorktree ''w'' (Some ''c'') False,
     sn_files = [\<lparr>se_source = SourceRef ''r'' (RevWorktree ''w'' (Some ''c'') False) ''a'', se_content = Blake3 d, se_size = 1\<rparr>],
     sn_directories = []\<rparr>, rp_refs = None, rp_index = None, rp_worktrees = None\<rparr>"

definition watch_at :: "digest \<Rightarrow> repository_watcher" where
  "watch_at d = watch_opened\<lparr>rw_snapshot := Some (watch_listed d), rw_source_tree := Some \<lparr>
     wk_files = [(''a'', \<lparr>cf_modified_secs = 5, cf_size = 1, cf_content = Blake3 d\<rparr>)], wk_walk_ref_secs = 5\<rparr>\<rparr>"

lemma watch_opens: "watcher_open sample_ext (watch_out b) walk_repo watch_sources = Inr watch_opened"
  by code_simp

lemma watch_reads: "watcher_baseline sample_ext (watch_out [1]) watch_opened = Some (Inr (watch_at (replicate 32 1)))"
  by code_simp

definition watch_event :: event_result where
  "watch_event = Inr [\<lparr>ev_rescan = False, ev_paths = [[''t'', ''a'']]\<rparr>]"

definition watch_deltas :: "repository_delta list" where
  "watch_deltas = diff_repository (watch_listed (replicate 32 1)) (watch_listed (replicate 32 2))"

lemma watch_receives:
  "repository_recv_batch sample_ext (watch_out [2]) [watch_event] (watch_at (replicate 32 1)) =
    (Some (Inr watch_deltas), watch_at (replicate 32 2))"
  by code_simp

lemma watch_reads_again: "fst (read_snapshot sample_ext (watch_out [2]) (watch_at (replicate 32 1))) = Some (Inr (watch_listed (replicate 32 2)))"
  by code_simp

lemma watch_asked: "asks (o_fs (watch_out [2])) (watch_at d) watch_event"
proof -
  have "path_is_relevant (repo_path_of (rw_repository (watch_at d))) (rw_query (watch_at d)) (rw_git_dir (watch_at d))
      (rw_common_dir (watch_at d)) [''t'', ''a'']" by code_simp
  then show ?thesis by (auto simp: asks_def watch_event_def path_matters_def)
qed

lemma watch_quiet: "repository_recv_batch sample_ext (watch_out [2]) [Inr [\<lparr>ev_rescan = False, ev_paths = [[''elsewhere'']]\<rparr>]]
    (watch_at (replicate 32 1)) = (Some (Inr []), watch_at (replicate 32 1))"
  by code_simp

text \<open>A receive of a path that does not matter, and then the event of the file written again.\<close>

theorem watcher_client_in_step_witness:
  "fold replay_delta watch_deltas (mirror_of (watch_listed (replicate 32 1))) = mirror_of (watch_listed (replicate 32 2)) \<and>
   rw_snapshot (watch_at (replicate 32 2)) = Some (watch_listed (replicate 32 2))"
proof -
  let ?quiet = "Inr [\<lparr>ev_rescan = False, ev_paths = [[''elsewhere'']]\<rparr>]"
  have "watch_client sample_ext [(watch_out [2], [?quiet])] (watch_at (replicate 32 1)) (mirror_of (watch_listed (replicate 32 1))) =
      Some (watch_at (replicate 32 1), mirror_of (watch_listed (replicate 32 1)))"
    by (simp add: watch_quiet)
  moreover have "rw_snapshot (watch_at (replicate 32 1)) = Some (watch_listed (replicate 32 1))" by (simp add: watch_at_def)
  ultimately show ?thesis
    using watcher_client_in_step [OF watch_reads _ _ watch_receives] watch_asked watch_reads_again by fastforce
qed

subsection \<open>The parts\<close>

theorem deltas_replay_witness:
  "fold replay_delta watch_deltas (mirror_of (watch_listed (replicate 32 1))) = mirror_of (watch_listed (replicate 32 2)) \<and>
   watch_deltas \<noteq> []"
proof
  have "same_surfaces (watch_listed (replicate 32 1)) (watch_listed (replicate 32 2))" by code_simp
  then show "fold replay_delta watch_deltas (mirror_of (watch_listed (replicate 32 1))) = mirror_of (watch_listed (replicate 32 2))"
    unfolding watch_deltas_def by (rule deltas_replay)
  show "watch_deltas \<noteq> []" by code_simp
qed

theorem watch_plan_observes_witness:
  "observes (wp_targets (watch_plan_of [''t''] [''t'', ''.git''] [''t'', ''.git''] (watch_sources\<lparr>wq_source := None, wq_index := True\<rparr>) True False))
     [''t'', ''.git'', ''index'']"
proof -
  have "[''t'', ''.git''] \<notin> {[''t'', ''.git''] @ [''refs''], [''t'', ''.git''] @ [''worktrees'']}" by code_simp
  moreover have "path_is_relevant [''t''] (watch_sources\<lparr>wq_source := None, wq_index := True\<rparr>) [''t'', ''.git''] [''t'', ''.git'']
      [''t'', ''.git'', ''index'']" by code_simp
  moreover have "strict_prefix ([''t'', ''.git''] @ [''refs'']) [''t'', ''.git'', ''index''] \<longrightarrow> True" by simp
  moreover have "strict_prefix ([''t'', ''.git''] @ [''worktrees'']) [''t'', ''.git'', ''index''] \<longrightarrow> False"
    by (simp add: strict_prefix_def)
  ultimately show ?thesis by (rule conjunct1 [OF watch_plan_observes])
qed

definition batch_queue :: "(nat \<times> string) list" where
  "batch_queue = [(10, ''b''), (40, ''c''), (5000, ''d'')]"

theorem batch_window_witness:
  "(\<exists>n \<le> length batch_queue. recv_batch default_coalescing ''a'' batch_queue = ''a'' # map snd (take n batch_queue)) \<and>
   recv_batch default_coalescing ''a'' batch_queue = [''a'', ''b'', ''c'']"
proof
  have "sorted (map fst batch_queue)" by code_simp
  from batch_window [OF this]
  show "\<exists>n \<le> length batch_queue. recv_batch default_coalescing ''a'' batch_queue = ''a'' # map snd (take n batch_queue)" by metis
  show "recv_batch default_coalescing ''a'' batch_queue = [''a'', ''b'', ''c'']" by code_simp
qed

end
