(* ===== verification/Acquisition.thy ===== *)
theory Acquisition
  imports Observed "HOL-Library.Sublist"
begin

text \<open>
  Policy-gated acquisition, \<open>soopy/src/_13_fetch.rs\<close>: the only part of the crate that changes refs
  or objects. Here a Git command changes the repository, so Git is a function of its
  arguments, its input and its own state; the model also keeps the commands it ran with
  their answers, in order.
\<close>

subsection \<open>Types of \<open>_0_types.rs\<close>\<close>

record acquisition_policy =
  ap_fetch :: bool
  ap_tag_fetch :: bool
  ap_unshallow :: bool

datatype acquisition_operation =
  FetchRef (op_remote: string) (op_name: string)
| FetchTag (op_remote: string) (op_name: string)
| Deepen (op_remote: string) (op_depth: u32)
| Unshallow (op_remote: string)

record acquisition_request =
  aq_repository :: repository_id
  aq_operations :: "acquisition_operation list"

datatype acquisition_receipt =
  AlreadyPresent object_id "object_id option"
| FetchedRef string object_id
| FetchedTag string object_id "object_id option"
| Deepened u32
| Unshallowed
| AlreadyComplete
| Unavailable string
| RejectedByPolicy

record acquisition_outcome =
  ao_operation :: acquisition_operation
  ao_receipt :: acquisition_receipt

subsection \<open>Git as a process that changes the repository\<close>

type_synonym 'g git_process = "string list \<Rightarrow> bytes \<Rightarrow> 'g \<Rightarrow> (string + git_output) \<times> 'g"

record 'g git_world =
  gw_git :: 'g
  gw_log :: "(string list \<times> (string + git_output)) list"

type_synonym ('g, 'a) acquiring = "('g git_world, string, 'a) stm"

definition git_run :: "'g git_process \<Rightarrow> string list \<Rightarrow> ('g, string + git_output) acquiring" where
  "git_run P args = (\<lambda>w. case P args [] (gw_git w) of
     (r, g) \<Rightarrow> (Inr r, \<lparr>gw_git = g, gw_log = gw_log w @ [(args, r)]\<rparr>))"

text \<open>\<open>.output()\<close> or \<open>.status()\<close> with its context.\<close>

definition git_answer :: "'g git_process \<Rightarrow> string \<Rightarrow> string list \<Rightarrow> ('g, git_output) acquiring" where
  "git_answer P context args =
     io_bind (git_run P args) (\<lambda>r. case r of Inl e \<Rightarrow> io_err context | Inr out \<Rightarrow> io_ok out)"

definition utf8_io :: "bytes \<Rightarrow> ('s, string, string) stm" where
  "utf8_io b = io_read (\<lambda>_. from_utf8 ''invalid utf-8 sequence'' b)"

subsection \<open>Questions\<close>

definition resolve_expression :: "'g git_process \<Rightarrow> string \<Rightarrow> ('g, object_id option) acquiring" where
  "resolve_expression P expression =
     io_bind (git_answer P (''resolve ref '' @ dbg_str expression) [''rev-parse'', ''--verify'', ''--quiet'', expression]) (\<lambda>out.
     if \<not> go_success out then io_ok None
     else io_bind (utf8_io (go_stdout out)) (\<lambda>s. io_ok (Some (trim s))))"

definition resolve_object :: "'g git_process \<Rightarrow> string \<Rightarrow> ('g, object_id option) acquiring" where
  "resolve_object P name = resolve_expression P name"

definition resolve_commit :: "'g git_process \<Rightarrow> string \<Rightarrow> ('g, object_id option) acquiring" where
  "resolve_commit P name = resolve_expression P (name @ ''^{commit}'')"

definition is_shallow :: "'g git_process \<Rightarrow> ('g, bool) acquiring" where
  "is_shallow P =
     io_bind (git_answer P ''detect shallow repository'' [''rev-parse'', ''--is-shallow-repository'']) (\<lambda>out.
     if \<not> go_success out then io_err ''git rev-parse --is-shallow-repository failed''
     else io_bind (utf8_io (go_stdout out)) (\<lambda>s. io_ok (trim s = ''true'')))"

definition git_fetch :: "'g git_process \<Rightarrow> string list \<Rightarrow> string \<Rightarrow> string list \<Rightarrow> ('g, string option) acquiring" where
  "git_fetch P options remote refspecs =
     io_bind (git_run P ([''fetch''] @ options @ [''--'', remote] @ refspecs)) (\<lambda>r.
     case r of
       Inl e \<Rightarrow> io_ok (Some e)
     | Inr out \<Rightarrow>
         (if go_success out then io_ok None
          else let ls = lines_of (text_lossy (go_stderr out))
               in io_ok (Some (trim (if ls = [] then ''fetch failed'' else last ls)))))"

subsection \<open>The operations\<close>

definition fetch_ref :: "'g git_process \<Rightarrow> acquisition_policy \<Rightarrow> string \<Rightarrow> string \<Rightarrow> ('g, acquisition_receipt) acquiring" where
  "fetch_ref P policy remote name =
     (let tracking_ref = ''refs/remotes/'' @ remote @ ''/'' @ name
      in io_bind (resolve_object P tracking_ref) (\<lambda>found.
      case found of
        Some direct \<Rightarrow> io_bind (resolve_commit P tracking_ref) (\<lambda>peeled. io_ok (AlreadyPresent direct peeled))
      | None \<Rightarrow>
          (if \<not> ap_fetch policy then io_ok RejectedByPolicy
           else io_bind (git_fetch P [] remote [''refs/heads/'' @ name @ '':refs/remotes/'' @ remote @ ''/'' @ name]) (\<lambda>failed.
             case failed of
               Some reason \<Rightarrow> io_ok (Unavailable reason)
             | None \<Rightarrow> io_bind (resolve_commit P tracking_ref) (\<lambda>target.
                 case target of
                   None \<Rightarrow> io_err ''fetched ref did not resolve''
                 | Some oid \<Rightarrow> io_ok (FetchedRef name oid))))))"

definition fetch_tag :: "'g git_process \<Rightarrow> acquisition_policy \<Rightarrow> string \<Rightarrow> string \<Rightarrow> ('g, acquisition_receipt) acquiring" where
  "fetch_tag P policy remote name =
     (let tag_ref = ''refs/tags/'' @ name
      in io_bind (resolve_object P tag_ref) (\<lambda>found.
      case found of
        Some direct \<Rightarrow> io_bind (resolve_commit P tag_ref) (\<lambda>peeled. io_ok (AlreadyPresent direct peeled))
      | None \<Rightarrow>
          (if \<not> ap_tag_fetch policy then io_ok RejectedByPolicy
           else io_bind (git_fetch P [] remote [tag_ref @ '':'' @ tag_ref]) (\<lambda>failed.
             case failed of
               Some reason \<Rightarrow> io_ok (Unavailable reason)
             | None \<Rightarrow> io_bind (resolve_object P tag_ref) (\<lambda>object.
                 case object of
                   None \<Rightarrow> io_err ''fetched tag object did not resolve''
                 | Some direct \<Rightarrow> io_bind (resolve_commit P tag_ref) (\<lambda>peeled. io_ok (FetchedTag name direct peeled)))))))"

definition deepen :: "'g git_process \<Rightarrow> acquisition_policy \<Rightarrow> string \<Rightarrow> u32 \<Rightarrow> ('g, acquisition_receipt) acquiring" where
  "deepen P policy remote depth =
     (if \<not> ap_unshallow policy then io_ok RejectedByPolicy
      else io_bind (is_shallow P) (\<lambda>shallow.
        if \<not> shallow then io_ok AlreadyComplete
        else io_bind (git_fetch P [''--deepen='' @ show_nat (unat depth)] remote []) (\<lambda>failed.
          io_ok (case failed of Some reason \<Rightarrow> Unavailable reason | None \<Rightarrow> Deepened depth))))"

definition unshallow :: "'g git_process \<Rightarrow> acquisition_policy \<Rightarrow> string \<Rightarrow> ('g, acquisition_receipt) acquiring" where
  "unshallow P policy remote =
     (if \<not> ap_unshallow policy then io_ok RejectedByPolicy
      else io_bind (is_shallow P) (\<lambda>shallow.
        if \<not> shallow then io_ok AlreadyComplete
        else io_bind (git_fetch P [''--unshallow''] remote []) (\<lambda>failed.
          io_ok (case failed of Some reason \<Rightarrow> Unavailable reason | None \<Rightarrow> Unshallowed))))"

fun execute_one :: "'g git_process \<Rightarrow> acquisition_policy \<Rightarrow> acquisition_operation \<Rightarrow> ('g, acquisition_receipt) acquiring" where
  "execute_one P policy (FetchRef remote name) = fetch_ref P policy remote name"
| "execute_one P policy (FetchTag remote name) = fetch_tag P policy remote name"
| "execute_one P policy (Deepen remote depth) = deepen P policy remote depth"
| "execute_one P policy (Unshallow remote) = unshallow P policy remote"

fun policy_allows :: "acquisition_policy \<Rightarrow> acquisition_operation \<Rightarrow> bool" where
  "policy_allows policy (FetchRef remote name) = ap_fetch policy"
| "policy_allows policy (FetchTag remote name) = ap_tag_fetch policy"
| "policy_allows policy (Deepen remote depth) = ap_unshallow policy"
| "policy_allows policy (Unshallow remote) = ap_unshallow policy"

definition remote_refused :: "string \<Rightarrow> bool" where
  "remote_refused remote \<longleftrightarrow> remote = [] \<or> hd remote = CHR ''-'' \<or>
     list_ex (\<lambda>c. c = nul \<or> c = line_feed \<or> c = carriage_return \<or> c = CHR '':'') remote"

fun named_ref :: "acquisition_operation \<Rightarrow> (string \<times> string) option" where
  "named_ref (FetchRef remote name) = Some (''heads'', name)"
| "named_ref (FetchTag remote name) = Some (''tags'', name)"
| "named_ref _ = None"

definition validate_operation :: "'g git_process \<Rightarrow> acquisition_operation \<Rightarrow> ('g, unit) acquiring" where
  "validate_operation P operation =
     (let remote = op_remote operation
      in if (case operation of Deepen r depth \<Rightarrow> depth = 0 | _ \<Rightarrow> False) then io_err ''deepen depth must be greater than zero''
         else if remote_refused remote then io_err (''invalid Git remote name '' @ dbg_str remote)
         else io_bind (git_answer P (''validate remote '' @ dbg_str remote) [''remote'', ''get-url'', ''--'', remote]) (\<lambda>out.
           if \<not> go_success out then io_err (''unknown Git remote '' @ dbg_str remote)
           else case named_ref operation of
             None \<Rightarrow> io_ok ()
           | Some (kind, name) \<Rightarrow>
               io_bind (git_answer P (''validate ref name '' @ dbg_str name) [''check-ref-format'', ''refs/'' @ kind @ ''/'' @ name]) (\<lambda>status.
               if \<not> go_success status then io_err (''invalid Git '' @ kind @ '' name '' @ dbg_str name) else io_ok ())))"

definition acquisition_execute ::
  "'g git_process \<Rightarrow> repository \<Rightarrow> acquisition_policy \<Rightarrow> acquisition_request \<Rightarrow> ('g, acquisition_outcome list) acquiring" where
  "acquisition_execute P repo policy request =
     (if aq_repository request \<noteq> repo_identity repo then io_err ''acquisition request belongs to another repository''
      else io_bind (io_for_each (\<lambda>operation. if policy_allows policy operation then validate_operation P operation else io_ok ())
          (aq_operations request)) (\<lambda>_.
        io_collect (\<lambda>operation. io_bind (execute_one P policy operation) (\<lambda>r.
          io_ok \<lparr>ao_operation = operation, ao_receipt = r\<rparr>)) (aq_operations request)))"

subsection \<open>What a computation runs\<close>

type_synonym invocation = "string list \<times> (string + git_output)"

definition runs :: "('g, 'a) acquiring \<Rightarrow> (string + 'a \<Rightarrow> invocation list \<Rightarrow> bool) \<Rightarrow> bool" where
  "runs m Q \<longleftrightarrow> (\<forall>w. \<exists>ran. gw_log (snd (m w)) = gw_log w @ ran \<and> Q (fst (m w)) ran)"

lemma runs_ok: "Q (Inr a) [] \<Longrightarrow> runs (io_ok a) Q"
  by (simp add: runs_def)

lemma runs_err: "Q (Inl e) [] \<Longrightarrow> runs (io_err e) Q"
  by (simp add: runs_def)

lemma runs_Pair: "Q r [] \<Longrightarrow> runs (Pair r) Q"
  by (simp add: runs_def)

lemma runs_run: "(\<And>r. Q (Inr r) [(args, r)]) \<Longrightarrow> runs (git_run P args) Q"
  by (simp add: runs_def git_run_def split: prod.split)

lemma runs_mono: "runs m Q \<Longrightarrow> (\<And>r l. Q r l \<Longrightarrow> Q' r l) \<Longrightarrow> runs m Q'"
  unfolding runs_def by blast

lemma runs_bind:
  assumes "runs m Q" "\<And>e l. Q (Inl e) l \<Longrightarrow> Q' (Inl e) l" "\<And>a l. Q (Inr a) l \<Longrightarrow> runs (f a) (\<lambda>r k. Q' r (l @ k))"
  shows "runs (io_bind m f) Q'"
  unfolding runs_def
proof
  fix w
  obtain r v where m: "m w = (r, v)" by force
  obtain l where l: "gw_log v = gw_log w @ l" "Q r l"
    using assms(1) m by (metis fst_conv snd_conv runs_def)
  show "\<exists>ran. gw_log (snd (io_bind m f w)) = gw_log w @ ran \<and> Q' (fst (io_bind m f w)) ran"
  proof (cases r)
    case (Inl e)
    then show ?thesis using l m assms(2) by (auto simp: io_bind_def)
  next
    case (Inr a)
    then obtain k where "gw_log (snd (f a v)) = gw_log v @ k" "Q' (fst (f a v)) (l @ k)"
      using assms(3) l(2) unfolding runs_def by metis
    then show ?thesis using l m Inr by (auto simp: io_bind_def)
  qed
qed

definition is_fetch :: "invocation \<Rightarrow> bool" where
  "is_fetch i \<longleftrightarrow> take 1 (fst i) = [''fetch'']"

definition reads_only :: "invocation \<Rightarrow> bool" where
  "reads_only i \<longleftrightarrow> (\<exists>e. fst i = [''rev-parse'', ''--verify'', ''--quiet'', e]) \<or>
     fst i = [''rev-parse'', ''--is-shallow-repository''] \<or> (\<exists>r. fst i = [''remote'', ''get-url'', ''--'', r]) \<or>
     (\<exists>n. fst i = [''check-ref-format'', n])"

lemma reads_not_fetch: "reads_only i \<Longrightarrow> \<not> is_fetch i"
  by (cases "fst i") (auto simp: reads_only_def is_fetch_def)

definition only_reads :: "invocation list \<Rightarrow> bool" where
  "only_reads l \<longleftrightarrow> (\<forall>i \<in> set l. reads_only i)"

lemma only_reads_filter: "only_reads l \<Longrightarrow> filter is_fetch l = []"
  by (auto simp: only_reads_def filter_empty_conv reads_not_fetch)

lemma only_reads_append [simp]: "only_reads (l @ k) \<longleftrightarrow> only_reads l \<and> only_reads k"
  by (auto simp: only_reads_def)

lemma only_reads_simps [simp]: "only_reads []" "only_reads (i # l) \<longleftrightarrow> reads_only i \<and> only_reads l"
  by (auto simp: only_reads_def)

lemma runs_answer:
  assumes "\<And>out. Q (Inr out) [(args, Inr out)]" "\<And>e. Q (Inl context) [(args, Inl e)]"
  shows "runs (git_answer P context args) Q"
  unfolding git_answer_def
  by (rule runs_bind [OF runs_run [where Q = "\<lambda>r l. \<exists>a. r = Inr a \<and> l = [(args, a)]"]])
    (use assms in \<open>auto split: sum.split intro!: runs_ok runs_err\<close>)

lemma runs_utf8: "runs (utf8_io b) (\<lambda>r l. l = [])"
  by (simp add: runs_def utf8_io_def)

lemma resolve_quiet: "runs (resolve_expression P e) (\<lambda>r l. only_reads l)"
  unfolding resolve_expression_def
  by (rule runs_bind [OF runs_answer [where Q = "\<lambda>r l. only_reads l"]])
    (auto simp: reads_only_def intro!: runs_ok runs_bind [OF runs_utf8])

lemma shallow_quiet: "runs (is_shallow P) (\<lambda>r l. only_reads l)"
  unfolding is_shallow_def
  by (rule runs_bind [OF runs_answer [where Q = "\<lambda>r l. only_reads l"]])
    (auto simp: reads_only_def intro!: runs_ok runs_err runs_bind [OF runs_utf8])

lemma fetch_runs:
  "runs (git_fetch P opts remote refspecs) (\<lambda>r l. \<exists>a. l = [([''fetch''] @ opts @ [''--'', remote] @ refspecs, a)])"
  unfolding git_fetch_def
  by (rule runs_bind [OF runs_run [where Q = "\<lambda>r l. \<exists>a. l = [([''fetch''] @ opts @ [''--'', remote] @ refspecs, a)]"]])
    (auto simp: Let_def split: sum.split intro!: runs_ok)

subsection \<open>What an operation runs\<close>

fun fetch_args :: "acquisition_operation \<Rightarrow> string list" where
  "fetch_args (FetchRef r n) = [''fetch'', ''--'', r, ''refs/heads/'' @ n @ '':refs/remotes/'' @ r @ ''/'' @ n]"
| "fetch_args (FetchTag r n) = [''fetch'', ''--'', r, ''refs/tags/'' @ n @ '':refs/tags/'' @ n]"
| "fetch_args (Deepen r d) = [''fetch'', ''--deepen='' @ show_nat (unat d), ''--'', r]"
| "fetch_args (Unshallow r) = [''fetch'', ''--unshallow'', ''--'', r]"

definition local_receipt :: "acquisition_receipt \<Rightarrow> bool" where
  "local_receipt r \<longleftrightarrow> r = RejectedByPolicy \<or> (\<exists>d p. r = AlreadyPresent d p)"

definition gated :: "acquisition_policy \<Rightarrow> acquisition_operation \<Rightarrow> string + acquisition_receipt \<Rightarrow> invocation list \<Rightarrow> bool" where
  "gated policy op r l \<longleftrightarrow> (\<forall>i \<in> set l. reads_only i \<or> is_fetch i) \<and>
     (filter is_fetch l = [] \<or> policy_allows policy op \<and> map fst (filter is_fetch l) = [fetch_args op]) \<and>
     (\<forall>receipt. r = Inr receipt \<and> \<not> policy_allows policy op \<longrightarrow> local_receipt receipt)"

lemma gated_quiet:
  "only_reads l \<Longrightarrow> \<not> policy_allows policy op \<longrightarrow> local_receipt receipt \<Longrightarrow> gated policy op (Inr receipt) l"
  "only_reads l \<Longrightarrow> gated policy op (Inl e) l"
  using only_reads_filter [of l] by (auto simp: gated_def only_reads_def)

lemma gated_fetched:
  "only_reads l \<Longrightarrow> only_reads k \<Longrightarrow> policy_allows policy op \<Longrightarrow> fst i = fetch_args op \<Longrightarrow> gated policy op r (l @ i # k)"
  using only_reads_filter [of l] only_reads_filter [of k]
  by (cases op) (auto simp: gated_def only_reads_def is_fetch_def)

lemma fetching_gated:
  assumes "only_reads l" "policy_allows policy op" "[''fetch''] @ opts @ [''--'', remote] @ refspecs = fetch_args op"
    and "\<And>failed. runs (K failed) (\<lambda>r k. only_reads k)"
  shows "runs (io_bind (git_fetch P opts remote refspecs) K) (\<lambda>r k. gated policy op r (l @ k))"
proof (rule runs_bind [OF fetch_runs])
  fix e :: string and k :: "invocation list"
  assume "\<exists>a. k = [([''fetch''] @ opts @ [''--'', remote] @ refspecs, a)]"
  then show "gated policy op (Inl e) (l @ k)"
    using gated_fetched [OF assms(1) _ assms(2), where k = "[]"] assms(3) by auto
next
  fix failed :: "string option" and k :: "invocation list"
  assume "\<exists>a. k = [([''fetch''] @ opts @ [''--'', remote] @ refspecs, a)]"
  then obtain a where k: "k = [(fetch_args op, a)]" using assms(3) by auto
  show "runs (K failed) (\<lambda>r h. gated policy op r (l @ (k @ h)))"
    by (rule runs_mono [OF assms(4)]) (use gated_fetched [OF assms(1) _ assms(2)] k in simp)
qed

lemma present_gated:
  "only_reads l \<Longrightarrow> runs (io_bind (resolve_expression P e) (\<lambda>peeled. io_ok (AlreadyPresent direct peeled))) (\<lambda>r k. gated policy op r (l @ k))"
  by (rule runs_bind [OF resolve_quiet]) (auto intro!: gated_quiet runs_ok simp: local_receipt_def)

lemma rejected_gated: "only_reads l \<Longrightarrow> runs (io_ok RejectedByPolicy) (\<lambda>r k. gated policy op r (l @ k))"
  by (rule runs_ok) (simp add: gated_quiet local_receipt_def)

lemma fetch_ref_gated: "runs (fetch_ref P policy remote name) (gated policy (FetchRef remote name))"
  unfolding fetch_ref_def Let_def resolve_object_def resolve_commit_def
  by (rule runs_bind [OF resolve_quiet])
    (auto intro!: present_gated rejected_gated fetching_gated runs_bind [OF resolve_quiet] runs_ok runs_err gated_quiet
      simp: local_receipt_def split: option.split)

lemma fetch_tag_gated: "runs (fetch_tag P policy remote name) (gated policy (FetchTag remote name))"
  unfolding fetch_tag_def Let_def resolve_object_def resolve_commit_def
  by (rule runs_bind [OF resolve_quiet])
    (auto intro!: present_gated rejected_gated fetching_gated runs_bind [OF resolve_quiet] runs_ok runs_err gated_quiet
      simp: local_receipt_def split: option.split)

lemma shallow_gated:
  assumes "policy_allows policy op" "[''fetch''] @ opts @ [''--'', remote] = fetch_args op"
  shows "runs (io_bind (is_shallow P) (\<lambda>shallow. if \<not> shallow then io_ok AlreadyComplete
    else io_bind (git_fetch P opts remote []) (\<lambda>failed. io_ok (f failed)))) (gated policy op)"
  by (rule runs_bind [OF shallow_quiet])
    (use assms in \<open>auto intro!: fetching_gated runs_ok gated_quiet\<close>)

lemma deepen_gated: "runs (deepen P policy remote depth) (gated policy (Deepen remote depth))"
  unfolding deepen_def
  by (auto intro!: shallow_gated runs_ok gated_quiet simp: local_receipt_def)

lemma unshallow_gated: "runs (unshallow P policy remote) (gated policy (Unshallow remote))"
  unfolding unshallow_def
  by (auto intro!: shallow_gated runs_ok gated_quiet simp: local_receipt_def)

lemma execute_one_gated: "runs (execute_one P policy op) (gated policy op)"
  by (cases op) (simp_all add: fetch_ref_gated fetch_tag_gated deepen_gated unshallow_gated)

subsection \<open>A request\<close>

definition validated :: "acquisition_operation \<Rightarrow> invocation list \<Rightarrow> bool" where
  "validated op l \<longleftrightarrow> \<not> remote_refused (op_remote op) \<and> (case op of Deepen r d \<Rightarrow> d \<noteq> 0 | _ \<Rightarrow> True) \<and>
     (\<exists>out. ([''remote'', ''get-url'', ''--'', op_remote op], Inr out) \<in> set l \<and> go_success out) \<and>
     (\<forall>kind name. named_ref op = Some (kind, name) \<longrightarrow>
       (\<exists>out. ([''check-ref-format'', ''refs/'' @ kind @ ''/'' @ name], Inr out) \<in> set l \<and> go_success out))"

lemma validated_mono: "validated op l \<Longrightarrow> set l \<subseteq> set k \<Longrightarrow> validated op k"
  unfolding validated_def by blast

lemma validate_runs: "runs (validate_operation P op) (\<lambda>r l. only_reads l \<and> (r = Inr () \<longrightarrow> validated op l))"
proof -
  let ?get = "[''remote'', ''get-url'', ''--'', op_remote op]"
  let ?name = "case named_ref op of None \<Rightarrow> io_ok ()
    | Some (kind, name) \<Rightarrow>
        io_bind (git_answer P (''validate ref name '' @ dbg_str name) [''check-ref-format'', ''refs/'' @ kind @ ''/'' @ name]) (\<lambda>status.
        if \<not> go_success status then io_err (''invalid Git '' @ kind @ '' name '' @ dbg_str name) else io_ok ())"
  have name: "runs ?name (\<lambda>r k. only_reads ((?get, Inr out) # k) \<and> (r = Inr () \<longrightarrow> validated op ((?get, Inr out) # k)))"
    if ok: "go_success out" "\<not> remote_refused (op_remote op)" "case op of Deepen r d \<Rightarrow> d \<noteq> 0 | _ \<Rightarrow> True" for out
  proof (cases "named_ref op")
    case None
    then show ?thesis using ok by (auto intro!: runs_ok simp: validated_def reads_only_def)
  next
    case (Some kn)
    obtain kind name where kn: "kn = (kind, name)" by force
    let ?check = "[''check-ref-format'', ''refs/'' @ kind @ ''/'' @ name]"
    show ?thesis unfolding Some kn option.case prod.case
    proof (rule runs_bind [OF runs_answer [where Q = "\<lambda>r l. (\<exists>e. r = Inl e \<and> only_reads l) \<or> (\<exists>out. r = Inr out \<and> l = [(?check, Inr out)])"]])
      fix status and l :: "invocation list"
      assume "(\<exists>e. Inr status = (Inl e :: string + git_output) \<and> only_reads l) \<or> (\<exists>out. Inr status = (Inr out :: string + git_output) \<and> l = [(?check, Inr out)])"
      then have l: "l = [(?check, Inr status)]" by simp
      have "go_success status \<Longrightarrow> validated op [(?get, Inr out), (?check, Inr status)]"
        using ok Some kn by (auto simp: validated_def)
      then show "runs (if \<not> go_success status then io_err (''invalid Git '' @ kind @ '' name '' @ dbg_str name) else io_ok ())
          (\<lambda>r k. only_reads ((?get, Inr out) # l @ k) \<and> (r = Inr () \<longrightarrow> validated op ((?get, Inr out) # l @ k)))"
        unfolding l by (auto intro!: runs_ok runs_err simp: reads_only_def)
    qed (auto simp: reads_only_def)
  qed
  show ?thesis
  proof (cases "(case op of Deepen r d \<Rightarrow> d = 0 | _ \<Rightarrow> False) \<or> remote_refused (op_remote op)")
    case True
    then show ?thesis by (auto simp: validate_operation_def Let_def intro!: runs_err)
  next
    case False
    then have ok: "\<not> remote_refused (op_remote op)" "case op of Deepen r d \<Rightarrow> d \<noteq> 0 | _ \<Rightarrow> True"
      by (auto split: acquisition_operation.splits)
    have "validate_operation P op = io_bind (git_answer P (''validate remote '' @ dbg_str (op_remote op)) ?get) (\<lambda>out.
        if \<not> go_success out then io_err (''unknown Git remote '' @ dbg_str (op_remote op)) else ?name)"
      using False by (auto simp: validate_operation_def Let_def)
    moreover have "runs \<dots> (\<lambda>r l. only_reads l \<and> (r = Inr () \<longrightarrow> validated op l))"
    proof (rule runs_bind [OF runs_answer [where Q = "\<lambda>r l. (\<exists>e. r = Inl e \<and> only_reads l) \<or> (\<exists>out. r = Inr out \<and> l = [(?get, Inr out)])"]])
      fix out and l :: "invocation list"
      assume "(\<exists>e. Inr out = (Inl e :: string + git_output) \<and> only_reads l) \<or> (\<exists>o'. Inr out = (Inr o' :: string + git_output) \<and> l = [(?get, Inr o')])"
      then have l: "l = [(?get, Inr out)]" by simp
      show "runs (if \<not> go_success out then io_err (''unknown Git remote '' @ dbg_str (op_remote op)) else ?name)
          (\<lambda>r k. only_reads (l @ k) \<and> (r = Inr () \<longrightarrow> validated op (l @ k)))"
        unfolding l using name [OF _ ok] by (auto intro!: runs_err simp: reads_only_def)
    qed (auto simp: reads_only_def)
    ultimately show ?thesis by simp
  qed
qed

lemma validate_all_runs:
  "runs (io_for_each (\<lambda>op. if policy_allows policy op then validate_operation P op else io_ok ()) ops)
    (\<lambda>r l. only_reads l \<and> (r = Inr () \<longrightarrow> (\<forall>op \<in> set ops. policy_allows policy op \<longrightarrow> validated op l)))"
proof (induction ops)
  case (Cons op ops)
  have first: "runs (if policy_allows policy op then validate_operation P op else io_ok ())
      (\<lambda>r l. only_reads l \<and> (r = Inr () \<and> policy_allows policy op \<longrightarrow> validated op l))"
    using validate_runs [of P op] by (auto intro: runs_ok)
  show ?case unfolding io_for_each.simps
  proof (rule runs_bind [OF first])
    fix u :: unit and l :: "invocation list"
    assume l: "only_reads l \<and> ((Inr u :: string + unit) = Inr () \<and> policy_allows policy op \<longrightarrow> validated op l)"
    show "runs (io_for_each (\<lambda>op. if policy_allows policy op then validate_operation P op else io_ok ()) ops)
        (\<lambda>r k. only_reads (l @ k) \<and> (r = Inr () \<longrightarrow> (\<forall>op \<in> set (op # ops). policy_allows policy op \<longrightarrow> validated op (l @ k))))"
      by (rule runs_mono [OF Cons.IH]) (use l in \<open>auto intro: validated_mono\<close>)
  qed auto
qed (auto intro: runs_Pair)

definition answered :: "acquisition_policy \<Rightarrow> acquisition_operation list \<Rightarrow> string + acquisition_outcome list \<Rightarrow> invocation list \<Rightarrow> bool" where
  "answered policy ops r l \<longleftrightarrow> (\<forall>i \<in> set l. reads_only i \<or> is_fetch i) \<and>
     subseq (map fst (filter is_fetch l)) (map fetch_args (filter (policy_allows policy) ops)) \<and>
     (\<forall>outcomes. r = Inr outcomes \<longrightarrow> map ao_operation outcomes = ops \<and>
       (\<forall>o' \<in> set outcomes. policy_allows policy (ao_operation o') \<or> local_receipt (ao_receipt o')))"

lemma answered_Cons:
  assumes "gated policy op (Inr receipt) l" "answered policy ops r k"
    "\<And>outcomes. r' = Inr outcomes \<Longrightarrow> \<exists>rest. r = Inr rest \<and> outcomes = \<lparr>ao_operation = op, ao_receipt = receipt\<rparr> # rest"
  shows "answered policy (op # ops) r' (l @ k)"
proof -
  have "subseq (map fst (filter is_fetch l)) (map fetch_args (filter (policy_allows policy) [op]))"
    using assms(1) by (auto simp: gated_def)
  then have "subseq (map fst (filter is_fetch (l @ k))) (map fetch_args (filter (policy_allows policy) ([op] @ ops)))"
    using assms(2) unfolding answered_def filter_append map_append by (blast intro: list_emb_append_mono)
  then show ?thesis using assms by (fastforce simp: answered_def gated_def)
qed

lemma collect_runs:
  "runs (io_collect (\<lambda>op. io_bind (execute_one P policy op) (\<lambda>r. io_ok \<lparr>ao_operation = op, ao_receipt = r\<rparr>)) ops) (answered policy ops)"
proof (induction ops)
  case Nil
  then show ?case by (auto intro: runs_Pair simp: answered_def)
next
  case (Cons op ops)
  let ?one = "io_bind (execute_one P policy op) (\<lambda>r. io_ok \<lparr>ao_operation = op, ao_receipt = r\<rparr>)"
  have one: "runs ?one (\<lambda>r l. case r of Inl e \<Rightarrow> gated policy op (Inl e) l
      | Inr o' \<Rightarrow> \<exists>receipt. o' = \<lparr>ao_operation = op, ao_receipt = receipt\<rparr> \<and> gated policy op (Inr receipt) l)"
    by (rule runs_bind [OF execute_one_gated]) (auto intro: runs_ok)
  show ?case unfolding io_collect.simps
  proof (rule runs_bind [OF one])
    fix e l
    assume "case Inl e of Inl e \<Rightarrow> gated policy op (Inl e) l
      | Inr o' \<Rightarrow> \<exists>receipt. o' = \<lparr>ao_operation = op, ao_receipt = receipt\<rparr> \<and> gated policy op (Inr receipt) l"
    then have l: "gated policy op (Inl e) l" by simp
    then have "subseq (map fst (filter is_fetch l)) (map fetch_args (filter (policy_allows policy) (op # ops)))"
      by (auto simp: gated_def)
    then show "answered policy (op # ops) (Inl e) l" using l by (auto simp: answered_def gated_def)
  next
    fix o' and l :: "invocation list"
    assume "case Inr o' of Inl e \<Rightarrow> gated policy op (Inl e) l
      | Inr o' \<Rightarrow> \<exists>receipt. o' = \<lparr>ao_operation = op, ao_receipt = receipt\<rparr> \<and> gated policy op (Inr receipt) l"
    then obtain receipt where o': "o' = \<lparr>ao_operation = op, ao_receipt = receipt\<rparr>" and l: "gated policy op (Inr receipt) l" by auto
    show "runs (io_bind (io_collect (\<lambda>op. io_bind (execute_one P policy op) (\<lambda>r. io_ok \<lparr>ao_operation = op, ao_receipt = r\<rparr>)) ops)
        (\<lambda>ys. io_ok (o' # ys))) (\<lambda>r k. answered policy (op # ops) r (l @ k))"
    proof (rule runs_bind [OF Cons.IH])
      fix e k
      assume "answered policy ops (Inl e) k"
      from answered_Cons [OF l this, of "Inl e"] show "answered policy (op # ops) (Inl e) (l @ k)" by simp
    next
      fix ys and k :: "invocation list"
      assume "answered policy ops (Inr ys) k"
      from answered_Cons [OF l this, of "Inr (o' # ys)"] show "runs (io_ok (o' # ys)) (\<lambda>r h. answered policy (op # ops) r (l @ k @ h))"
        by (intro runs_ok) (simp add: o')
    qed
  qed
qed

lemma takeWhile_quiet: "only_reads l \<Longrightarrow> takeWhile (\<lambda>i. \<not> is_fetch i) (l @ k) = l @ takeWhile (\<lambda>i. \<not> is_fetch i) k"
  by (induction l) (auto simp: reads_not_fetch)

lemma execute_runs:
  "runs (acquisition_execute P repo policy request) (\<lambda>r l. answered policy (aq_operations request) r l \<and>
    (\<forall>op \<in> set (aq_operations request). policy_allows policy op \<and> filter is_fetch l \<noteq> [] \<longrightarrow>
      validated op (takeWhile (\<lambda>i. \<not> is_fetch i) l)))"
proof (cases "aq_repository request = repo_identity repo")
  case False
  then show ?thesis by (auto simp: acquisition_execute_def answered_def intro: runs_err)
next
  case True
  then have same: "\<not> aq_repository request \<noteq> repo_identity repo" by simp
  show ?thesis unfolding acquisition_execute_def if_not_P [OF same]
  proof (rule runs_bind [OF validate_all_runs])
    fix e l
    assume "only_reads l \<and> ((Inl e :: string + unit) = Inr () \<longrightarrow>
      (\<forall>op \<in> set (aq_operations request). policy_allows policy op \<longrightarrow> validated op l))"
    then show "answered policy (aq_operations request) (Inl e) l \<and>
        (\<forall>op \<in> set (aq_operations request). policy_allows policy op \<and> filter is_fetch l \<noteq> [] \<longrightarrow>
          validated op (takeWhile (\<lambda>i. \<not> is_fetch i) l))"
      by (auto simp: answered_def only_reads_filter only_reads_def)
  next
    fix u and l :: "invocation list"
    assume l: "only_reads l \<and> ((Inr u :: string + unit) = Inr () \<longrightarrow>
      (\<forall>op \<in> set (aq_operations request). policy_allows policy op \<longrightarrow> validated op l))"
    then have "only_reads l" by blast
    note prefix = takeWhile_quiet [OF this] and none = only_reads_filter [OF this]
    show "runs (io_collect (\<lambda>op. io_bind (execute_one P policy op) (\<lambda>r. io_ok \<lparr>ao_operation = op, ao_receipt = r\<rparr>)) (aq_operations request))
        (\<lambda>r k. answered policy (aq_operations request) r (l @ k) \<and>
          (\<forall>op \<in> set (aq_operations request). policy_allows policy op \<and> filter is_fetch (l @ k) \<noteq> [] \<longrightarrow>
            validated op (takeWhile (\<lambda>i. \<not> is_fetch i) (l @ k))))"
      by (rule runs_mono [OF collect_runs])
        (use l none prefix in \<open>auto simp: answered_def only_reads_def intro: validated_mono\<close>)
  qed
qed

text \<open>C33 -- Nothing is acquired behind the policy's back. Whatever the policy, Git may be asked: every
  command of a request is a fetch or one of the four questions of the module, \<open>rev-parse\<close> of a
  ref, whether the repository is shallow, the URL of a remote, the form of a ref name. (The
  module comment says the policy decides before any Git process; \<open>rev-parse\<close> runs before it.)
  The fetches are at most one for each operation the policy allows, in the order of the
  request and with exactly the refspec or depth the operation names after a \<open>--\<close>; before the
  first of them Git has accepted the remote and the ref name of every allowed operation. The
  receipts come in the order of the request, and an operation the policy does not allow is
  rejected or found present.\<close>

theorem acquisition_gated:
  assumes "acquisition_execute P repo policy request \<lparr>gw_git = g, gw_log = []\<rparr> = (r, \<lparr>gw_git = h, gw_log = l\<rparr>)"
  shows "(\<forall>i \<in> set l. reads_only i \<or> is_fetch i) \<and>
    subseq (map fst (filter is_fetch l)) (map fetch_args (filter (policy_allows policy) (aq_operations request))) \<and>
    (\<forall>op \<in> set (aq_operations request). policy_allows policy op \<and> filter is_fetch l \<noteq> [] \<longrightarrow>
      validated op (takeWhile (\<lambda>i. \<not> is_fetch i) l)) \<and>
    (\<forall>outcomes. r = Inr outcomes \<longrightarrow> map ao_operation outcomes = aq_operations request \<and>
      (\<forall>o' \<in> set outcomes. policy_allows policy (ao_operation o') \<or> local_receipt (ao_receipt o')))"
proof -
  obtain ran where "gw_log \<lparr>gw_git = h, gw_log = l\<rparr> = gw_log \<lparr>gw_git = g, gw_log = []\<rparr> @ ran"
    "answered policy (aq_operations request) r ran \<and>
      (\<forall>op \<in> set (aq_operations request). policy_allows policy op \<and> filter is_fetch ran \<noteq> [] \<longrightarrow>
        validated op (takeWhile (\<lambda>i. \<not> is_fetch i) ran))"
    using execute_runs [of P repo policy request] assms unfolding runs_def by (metis fst_conv snd_conv)
  then show ?thesis by (simp add: answered_def)
qed

text \<open>The answers of a Git whose remote has one branch.\<close>

definition one_branch_git :: "bool git_process" where
  "one_branch_git args b fetched =
     (if take 1 args = [''fetch''] then (Inr \<lparr>go_code = Some 0, go_stdout = [], go_stderr = []\<rparr>, True)
      else if take 1 args = [''rev-parse'']
      then (Inr \<lparr>go_code = Some (if fetched then 0 else 1), go_stdout = (if fetched then bytes_of (''c'' @ [line_feed]) else []),
        go_stderr = []\<rparr>, fetched)
      else (Inr \<lparr>go_code = Some 0, go_stdout = [], go_stderr = []\<rparr>, fetched))"

definition branch_request :: acquisition_request where
  "branch_request = \<lparr>aq_repository = ''r'', aq_operations = [FetchRef ''origin'' ''main'', Unshallow ''origin'']\<rparr>"

definition branch_policy :: acquisition_policy where
  "branch_policy = \<lparr>ap_fetch = True, ap_tag_fetch = False, ap_unshallow = False\<rparr>"

definition branch_run :: "(string + acquisition_outcome list) \<times> bool git_world" where
  "branch_run = acquisition_execute one_branch_git \<lparr>repo_root = ''/t'', repo_identity = ''r'', repo_worktree = ''w''\<rparr>
     branch_policy branch_request \<lparr>gw_git = False, gw_log = []\<rparr>"

theorem acquisition_gated_witness:
  "subseq (map fst (filter is_fetch (gw_log (snd branch_run)))) [fetch_args (FetchRef ''origin'' ''main'')] \<and>
   fst branch_run = Inr [\<lparr>ao_operation = FetchRef ''origin'' ''main'', ao_receipt = FetchedRef ''main'' ''c''\<rparr>,
     \<lparr>ao_operation = Unshallow ''origin'', ao_receipt = RejectedByPolicy\<rparr>] \<and>
   map fst (filter is_fetch (gw_log (snd branch_run))) = [fetch_args (FetchRef ''origin'' ''main'')]"
proof (intro conjI)
  have allowed: "map fetch_args (filter (policy_allows branch_policy) (aq_operations branch_request)) = [fetch_args (FetchRef ''origin'' ''main'')]"
    by code_simp
  have "acquisition_execute one_branch_git \<lparr>repo_root = ''/t'', repo_identity = ''r'', repo_worktree = ''w''\<rparr> branch_policy branch_request
      \<lparr>gw_git = False, gw_log = []\<rparr> = (fst branch_run, \<lparr>gw_git = gw_git (snd branch_run), gw_log = gw_log (snd branch_run)\<rparr>)"
    unfolding branch_run_def by (simp add: prod_eq_iff)
  from acquisition_gated [OF this]
  show "subseq (map fst (filter is_fetch (gw_log (snd branch_run)))) [fetch_args (FetchRef ''origin'' ''main'')]"
    unfolding allowed by blast
  show "fst branch_run = Inr [\<lparr>ao_operation = FetchRef ''origin'' ''main'', ao_receipt = FetchedRef ''main'' ''c''\<rparr>,
     \<lparr>ao_operation = Unshallow ''origin'', ao_receipt = RejectedByPolicy\<rparr>]" by code_simp
  show "map fst (filter is_fetch (gw_log (snd branch_run))) = [fetch_args (FetchRef ''origin'' ''main'')]" by code_simp
qed

end
