(* ===== verification/RevisionGraph.thy ===== *)
theory RevisionGraph
  imports Repositories Snapshots
begin

text \<open>
  The read-only revision graph, \<open>soopy/src/_12_revision_graph.rs\<close>. Git is the function
  \<open>git\<close>; the \<open>cat-file --batch\<close> process a query opens answers a written line with the bytes
  \<open>reply line\<close>, and the reader's buffer is the state of the reads.
\<close>

subsection \<open>Types of \<open>_0_types.rs\<close>\<close>

datatype revision_resolution =
  ResPresent object_id
| ResAbsent
| ResShallowBoundary object_id
| ResCorruptObject

record commit_parents =
  cp_commit :: object_id
  cp_parents :: "object_id list"

record ancestry =
  an_ancestor :: object_id
  an_descendant :: object_id
  an_is_ancestor :: bool

record merge_base =
  mb_left :: object_id
  mb_right :: object_id
  mb_bases :: "object_id list"

record ahead_behind =
  ab_left :: object_id
  ab_right :: object_id
  ab_ahead :: u64
  ab_behind :: u64

record commit_walk =
  cw_start :: object_id
  cw_commits :: "object_id list"

record revision_graph_query =
  gq_repository :: repository_id
  gq_resolve :: "revision list"
  gq_parents :: "object_id list"
  gq_ancestry :: "(object_id \<times> object_id) list"
  gq_merge_bases :: "(object_id \<times> object_id) list"
  gq_ahead_behind :: "(object_id \<times> object_id) list"
  gq_walks :: "revision list"

record revision_graph_result =
  gr_repository :: repository_id
  gr_resolutions :: "revision_resolution list"
  gr_parents :: "commit_parents list"
  gr_ancestry :: "ancestry list"
  gr_merge_bases :: "merge_base list"
  gr_ahead_behind :: "ahead_behind list"
  gr_walks :: "commit_walk list"

subsection \<open>Resolution\<close>

definition contains_text :: "string \<Rightarrow> string \<Rightarrow> bool" where
  "contains_text s needle \<longleftrightarrow> list_ex (\<lambda>i. prefix needle (drop i s)) [0..<Suc (length s)]"

definition rev_parse_commit :: "git \<Rightarrow> string \<Rightarrow> string + object_id option \<times> bool" where
  "rev_parse_commit git expression =
     rbind (map_err (\<lambda>_. ''resolve '' @ dbg_str expression)
       (git [''rev-parse'', ''--verify'', ''--quiet'', expression @ ''^{commit}''] [])) (\<lambda>out.
     if go_success out
     then rbind (from_utf8 ''invalid utf-8 sequence'' (go_stdout out)) (\<lambda>s. Inr (Some (trim s), False))
     else let stderr = text_lossy (go_stderr out)
          in Inr (None, list_ex (contains_text stderr) [''corrupt'', ''unable to unpack'', ''inflate'']))"

definition shallow_set :: "git \<Rightarrow> fs \<Rightarrow> string + object_id btset" where
  "shallow_set git fs =
     rbind (git_out git ''locate shallow file'' ''git rev-parse --git-path shallow failed''
       [''rev-parse'', ''--path-format=absolute'', ''--git-path'', ''shallow'']) (\<lambda>out.
     rbind (from_utf8 ''invalid utf-8 sequence'' out) (\<lambda>s.
     let path = join_path [] (trim s)
     in case fs_read fs path of
          Inl e \<Rightarrow> if e = NotFound then Inr [] else Inl (''read '' @ show_path path)
        | Inr b \<Rightarrow> rbind (from_utf8 (''read '' @ show_path path) b) (\<lambda>text.
            Inr (bs_collect (filter (\<lambda>l. l \<noteq> []) (map trim (lines_of text)))))))"

fun revision_expression :: "revision \<Rightarrow> string" where
  "revision_expression RvWorktree = ''HEAD''"
| "revision_expression (RvNamed name) = name"
| "revision_expression (RvCommit oid) = oid"

definition graph_resolve :: "git \<Rightarrow> fs \<Rightarrow> revision \<Rightarrow> string + revision_resolution" where
  "graph_resolve git fs revision =
     rbind (rev_parse_commit git (revision_expression revision)) (\<lambda>(oid, corrupt).
     case oid of
       None \<Rightarrow> Inr (if corrupt then ResCorruptObject else ResAbsent)
     | Some oid \<Rightarrow> rbind (shallow_set git fs) (\<lambda>shallow.
         Inr (if oid \<in> set shallow then ResShallowBoundary oid else ResPresent oid)))"

subsection \<open>Commit bodies\<close>

definition MAX_COMMIT_BYTES :: nat where
  "MAX_COMMIT_BYTES = 16 * 1024 * 1024"

text \<open>\<open>read_line\<close>, then \<open>read_exact\<close>: a stream that ends too early is an error.\<close>

definition read_line :: "(bytes, string, string) stm" where
  "read_line = (\<lambda>out.
     let line = takeWhile (\<lambda>b. b \<noteq> 10) out;
         line = (if (10 :: u8) \<in> set out then line @ [10] else line)
     in (from_utf8 ''stream did not contain valid UTF-8'' line, drop (length line) out))"

definition read_exact :: "nat \<Rightarrow> (bytes, string, bytes) stm" where
  "read_exact n = (\<lambda>out. if length out < n then (Inl ''failed to fill whole buffer'', []) else (Inr (take n out), drop n out))"

definition commit_body :: "(string \<Rightarrow> bytes) \<Rightarrow> object_id \<Rightarrow> (bytes, string, bytes) stm" where
  "commit_body reply oid =
     io_bind (\<lambda>out. (Inr (), out @ reply (oid @ [line_feed]))) (\<lambda>_.
     io_bind read_line (\<lambda>header.
     let ws = split_whitespace header
     in if length ws \<noteq> 3 \<or> ws ! 1 \<noteq> ''commit''
        then io_err (''git cat-file did not return a commit for '' @ oid @ '': '' @ trim header)
        else case parse_usize (ws ! 2) of
          None \<Rightarrow> io_err ''parse commit size''
        | Some n \<Rightarrow>
            (if MAX_COMMIT_BYTES < n
             then io_err (''commit '' @ oid @ '' exceeds '' @ show_nat MAX_COMMIT_BYTES @ '' bytes'')
             else io_bind (read_exact n) (\<lambda>body.
               io_bind (read_exact 1) (\<lambda>newline.
               if newline \<noteq> [10] then io_err (''git cat-file returned an invalid delimiter for '' @ oid)
               else io_ok body)))))"

definition parent_mark :: bytes where
  "parent_mark = bytes_of ''parent ''"

definition parent_oids :: "bytes \<Rightarrow> string + object_id list" where
  "parent_oids body =
     rmap_all (from_utf8 ''parent OID is not UTF-8'')
       (map (drop (length parent_mark)) (filter (prefix parent_mark) (takeWhile (\<lambda>l. l \<noteq> []) (split_bytes 10 body))))"

definition parents_of_commit :: "(string \<Rightarrow> bytes) \<Rightarrow> object_id \<Rightarrow> (bytes, string, commit_parents) stm" where
  "parents_of_commit reply oid =
     io_bind (commit_body reply oid) (\<lambda>body.
     io_bind (io_read (\<lambda>_. parent_oids body)) (\<lambda>parents.
     io_ok \<lparr>cp_commit = oid, cp_parents = parents\<rparr>))"

text \<open>\<open>started\<close> says whether the process could be started.\<close>

definition commit_parents_of :: "bool \<Rightarrow> (string \<Rightarrow> bytes) \<Rightarrow> object_id list \<Rightarrow> string + commit_parents list" where
  "commit_parents_of started reply oids =
     (if oids = [] then Inr []
      else if \<not> started then Inl ''start git cat-file --batch''
      else fst (io_collect (parents_of_commit reply) oids []))"

subsection \<open>Relations\<close>

definition is_ancestor :: "git \<Rightarrow> object_id \<times> object_id \<Rightarrow> string + ancestry" where
  "is_ancestor git = (\<lambda>(ancestor, descendant).
     rbind (map_err (\<lambda>_. ''is-ancestor '' @ ancestor @ '' '' @ descendant)
       (git [''merge-base'', ''--is-ancestor'', ancestor, descendant] [])) (\<lambda>out.
     let answer = (\<lambda>b. Inr \<lparr>an_ancestor = ancestor, an_descendant = descendant, an_is_ancestor = b\<rparr>)
     in if go_code out = Some 0 then answer True
        else if go_code out = Some 1 then answer False
        else Inl (''git merge-base --is-ancestor failed for '' @ ancestor @ '' '' @ descendant)))"

definition merge_base_of :: "git \<Rightarrow> object_id \<times> object_id \<Rightarrow> string + merge_base" where
  "merge_base_of git = (\<lambda>(left, right).
     rbind (map_err (\<lambda>_. ''merge-base '' @ left @ '' '' @ right) (git [''merge-base'', ''--all'', left, right] [])) (\<lambda>out.
     if go_code out = Some 1 then Inr \<lparr>mb_left = left, mb_right = right, mb_bases = []\<rparr>
     else if \<not> go_success out then Inl (''git merge-base failed for '' @ left @ '' '' @ right)
     else rbind (from_utf8 ''invalid utf-8 sequence'' (go_stdout out)) (\<lambda>s.
       Inr \<lparr>mb_left = left, mb_right = right, mb_bases = sort (lines_of s)\<rparr>)))"

definition ahead_behind_of :: "git \<Rightarrow> object_id \<times> object_id \<Rightarrow> string + ahead_behind" where
  "ahead_behind_of git = (\<lambda>(left, right).
     rbind (git_out git (''ahead/behind '' @ left @ '' '' @ right) ''git rev-list --left-right --count failed''
       [''rev-list'', ''--left-right'', ''--count'', left @ ''...'' @ right]) (\<lambda>out.
     rbind (from_utf8 ''invalid utf-8 sequence'' out) (\<lambda>text.
     let ws = split_whitespace text
     in rbind (ok_or ''missing ahead count'' (word_at ws 0)) (\<lambda>w.
        rbind (ok_or ''invalid digit found in string'' (parse_usize w)) (\<lambda>ahead.
        rbind (ok_or ''missing behind count'' (word_at ws 1)) (\<lambda>w.
        rbind (ok_or ''invalid digit found in string'' (parse_usize w)) (\<lambda>behind.
        Inr \<lparr>ab_left = left, ab_right = right, ab_ahead = of_nat ahead, ab_behind = of_nat behind\<rparr>)))))))"

definition graph_walk :: "git \<Rightarrow> fs \<Rightarrow> revision \<Rightarrow> string + commit_walk" where
  "graph_walk git fs revision =
     rbind (graph_resolve git fs revision) (\<lambda>resolution.
     rbind (case resolution of
         ResPresent oid \<Rightarrow> Inr oid
       | ResShallowBoundary oid \<Rightarrow> Inr oid
       | ResAbsent \<Rightarrow> Inl ''cannot walk a revision that does not resolve''
       | ResCorruptObject \<Rightarrow> Inl ''cannot walk a corrupt object'') (\<lambda>start.
     rbind (git_out git (''walk '' @ start) (''git rev-list failed for '' @ start)
       [''rev-list'', ''--topo-order'', start]) (\<lambda>out.
     rbind (from_utf8 ''invalid utf-8 sequence'' out) (\<lambda>s.
     Inr \<lparr>cw_start = start, cw_commits = lines_of s\<rparr>))))"

definition graph_query ::
  "git \<Rightarrow> fs \<Rightarrow> bool \<Rightarrow> (string \<Rightarrow> bytes) \<Rightarrow> repository \<Rightarrow> revision_graph_query \<Rightarrow> string + revision_graph_result" where
  "graph_query git fs started reply repo query =
     (if gq_repository query \<noteq> repo_identity repo then Inl ''revision graph query belongs to another repository''
      else rbind (rmap_all (graph_resolve git fs) (gq_resolve query)) (\<lambda>resolutions.
        rbind (commit_parents_of started reply (gq_parents query)) (\<lambda>parents.
        rbind (rmap_all (is_ancestor git) (gq_ancestry query)) (\<lambda>ancestry.
        rbind (rmap_all (merge_base_of git) (gq_merge_bases query)) (\<lambda>merge_bases.
        rbind (rmap_all (ahead_behind_of git) (gq_ahead_behind query)) (\<lambda>ahead_behind.
        rbind (rmap_all (graph_walk git fs) (gq_walks query)) (\<lambda>walks.
        Inr \<lparr>gr_repository = repo_identity repo, gr_resolutions = resolutions, gr_parents = parents, gr_ancestry = ancestry,
          gr_merge_bases = merge_bases, gr_ahead_behind = ahead_behind, gr_walks = walks\<rparr>)))))))"

subsection \<open>Commits as Git stores them\<close>

record commit_object =
  co_tree :: object_id
  co_parents :: "object_id list"
  co_headers :: "string list"
  co_message :: bytes

definition commit_lines :: "commit_object \<Rightarrow> string list" where
  "commit_lines c = (''tree '' @ co_tree c) # map (\<lambda>p. ''parent '' @ p) (co_parents c) @ co_headers c"

definition commit_bytes :: "commit_object \<Rightarrow> bytes" where
  "commit_bytes c = concat (map (\<lambda>l. bytes_of l @ [10]) (commit_lines c)) @ [10] @ co_message c"

definition one_line :: "string \<Rightarrow> bool" where
  "one_line l \<longleftrightarrow> l \<noteq> [] \<and> line_feed \<notin> set l"

definition commit_ok :: "commit_object \<Rightarrow> bool" where
  "commit_ok c \<longleftrightarrow> line_feed \<notin> set (co_tree c) \<and>
     (\<forall>p \<in> set (co_parents c). line_feed \<notin> set p \<and> utf8_valid (bytes_of p)) \<and>
     (\<forall>h \<in> set (co_headers c). one_line h \<and> \<not> prefix ''parent '' h) \<and> length (commit_bytes c) \<le> MAX_COMMIT_BYTES"

text \<open>The answer of \<open>git cat-file --batch\<close> for an object that exists.\<close>

definition batch_answer :: "object_id \<Rightarrow> bytes \<Rightarrow> bytes" where
  "batch_answer oid body = bytes_of (oid @ '' commit '' @ show_nat (length body)) @ [10] @ body @ [10]"

definition plain_word :: "string \<Rightarrow> bool" where
  "plain_word w \<longleftrightarrow> w \<noteq> [] \<and> (\<forall>c \<in> set w. \<not> is_space c \<and> of_char c < (128 :: nat))"

subsection \<open>Text\<close>

lemma text_of_bytes_of [simp]: "text_of (bytes_of s) = s"
  by (induction s) (simp_all add: text_of_def bytes_of_def unat_of_nat)

lemma bytes_of_append [simp]: "bytes_of (s @ t) = bytes_of s @ bytes_of t"
  by (simp add: bytes_of_def)

lemma byte_feed: "word_of_nat (of_char c) = (10 :: u8) \<longleftrightarrow> c = line_feed"
proof
  assume "word_of_nat (of_char c) = (10 :: u8)"
  then have "unat (word_of_nat (of_char c) :: u8) = unat (10 :: u8)" by simp
  then have "of_char c mod 256 = (10 :: nat)" by (simp add: unat_of_nat del: of_char_mod_256)
  then show "c = line_feed" by (simp add: line_feed_def) (metis char_of_char)
qed (simp add: line_feed_def)

lemma bytes_feed [simp]: "10 \<in> set (bytes_of s) \<longleftrightarrow> line_feed \<in> set s"
proof -
  have "10 \<in> set (bytes_of s) \<longleftrightarrow> (\<exists>c \<in> set s. word_of_nat (of_char c) = (10 :: u8))"
    by (simp add: bytes_of_def image_iff eq_commute)
  then show ?thesis by (simp add: byte_feed)
qed

lemma split_bytes_line: "10 \<notin> set l \<Longrightarrow> split_bytes 10 (l @ 10 # r) = l # split_bytes 10 r"
  by (induction l) auto

lemma split_bytes_lines:
  "\<forall>l \<in> set ls. l \<noteq> [] \<and> 10 \<notin> set l \<Longrightarrow>
    takeWhile (\<lambda>l. l \<noteq> []) (split_bytes 10 (concat (map (\<lambda>l. l @ [10]) ls) @ 10 # r)) = ls"
  by (induction ls) (simp_all add: split_bytes_line)

lemma show_nat_nonempty: "show_nat n \<noteq> []"
  by (subst show_nat.simps) simp

lemma show_nat_digits: "c \<in> set (show_nat n) \<Longrightarrow> \<exists>d < 10. c = digit_char d"
proof (induction n rule: show_nat.induct)
  case (1 n)
  show ?case
  proof (cases "n < 10")
    case True
    then have "show_nat n = [digit_char n]" by (subst show_nat.simps) simp
    then show ?thesis using 1(2) True by auto
  next
    case False
    then have "show_nat n = show_nat (n div 10) @ [digit_char (n mod 10)]" by (subst show_nat.simps) simp
    then consider "c \<in> set (show_nat (n div 10))" | "c = digit_char (n mod 10)" using 1(2) by auto
    then show ?thesis
    proof cases
      case 1
      then show ?thesis using "1.IH" [OF False] by blast
    next
      case 2
      moreover have "n mod 10 < 10" by simp
      ultimately show ?thesis by blast
    qed
  qed
qed

lemma digit_char_value: "d < 10 \<Longrightarrow> digit_value (digit_char d) = Some d \<and> \<not> is_space (digit_char d) \<and> of_char (digit_char d) < (128::nat)"
  by (simp add: digit_value_def digit_char_def is_space_def Let_def)

lemma parse_digits_append:
  "parse_digits acc (s @ t) = Option.bind (parse_digits acc s) (\<lambda>n. parse_digits n t)"
  by (induction acc s rule: parse_digits.induct) (auto split: option.split simp: Let_def)

lemma parse_show_nat: "n < 2 ^ 64 \<Longrightarrow> parse_digits 0 (show_nat n) = Some n"
proof (induction n rule: show_nat.induct)
  case (1 n)
  show ?case
  proof (cases "n < 10")
    case True
    then have "show_nat n = [digit_char n]" by (subst show_nat.simps) simp
    then show ?thesis using digit_char_value [OF True] 1(2) by (simp add: Let_def)
  next
    case False
    then have show_n: "show_nat n = show_nat (n div 10) @ [digit_char (n mod 10)]" by (subst show_nat.simps) simp
    have "n div 10 < 2 ^ 64" using 1(2) by simp
    from 1(1) [OF False this] show ?thesis using 1(2) digit_char_value [of "n mod 10"]
      unfolding show_n by (simp add: parse_digits_append Let_def)
  qed
qed

lemma parse_usize_show_nat: "n < 2 ^ 64 \<Longrightarrow> parse_usize (show_nat n) = Some n"
proof -
  assume n: "n < 2 ^ 64"
  obtain c cs where c: "show_nat n = c # cs" using show_nat_nonempty [of n] by (cases "show_nat n") auto
  then obtain d where "d < 10" "c = digit_char d" using show_nat_digits [of c n] by auto
  then have "digit_value c \<noteq> None" using digit_char_value by simp
  moreover have "digit_value (CHR ''+'') = None" by code_simp
  ultimately have "c \<noteq> CHR ''+''" by metis
  then show ?thesis using parse_show_nat [OF n] c by (simp add: parse_usize_def)
qed

lemma split_whitespace_word:
  "w \<noteq> [] \<Longrightarrow> \<forall>c \<in> set w. \<not> is_space c \<Longrightarrow> is_space d \<Longrightarrow> split_whitespace (w @ d # r) = w # split_whitespace r"
proof (induction w)
  case (Cons c w)
  then show ?case by (cases w) auto
qed simp

lemma plain_no_feed: "plain_word w \<Longrightarrow> line_feed \<notin> set w"
  by (auto simp: plain_word_def is_space_def line_feed_def Let_def)

lemma plain_show_nat: "plain_word (show_nat n)"
  using show_nat_nonempty [of n] show_nat_digits [of _ n] digit_char_value unfolding plain_word_def by metis

lemma utf8_ascii: "\<forall>c \<in> set s. of_char c < (128 :: nat) \<Longrightarrow> utf8_valid (bytes_of s)"
proof (induction s)
  case (Cons c s)
  then have c: "of_char c < (128 :: nat)" by simp
  have "(word_of_nat (of_char c) :: u8) \<le> 0x7F"
    using c by (simp add: word_le_nat_alt unat_of_nat)
  with Cons show ?case by (simp add: bytes_of_def)
qed (simp add: bytes_of_def)

lemma header_words:
  assumes "plain_word oid"
  shows "split_whitespace (oid @ '' commit '' @ show_nat n @ [line_feed]) = [oid, ''commit'', show_nat n]"
proof -
  have space: "is_space (CHR '' '')" "is_space line_feed" by code_simp+
  have word: "split_whitespace (w @ d # r) = w # split_whitespace r" if "plain_word w" "is_space d" for w d r
    using that split_whitespace_word by (simp add: plain_word_def)
  have commit: "plain_word ''commit''" by code_simp
  have eq: "oid @ '' commit '' @ show_nat n @ [line_feed] =
      oid @ CHR '' '' # (''commit'' @ CHR '' '' # (show_nat n @ line_feed # []))" by simp
  show ?thesis unfolding eq word [OF assms space(1)] word [OF commit space(1)] word [OF plain_show_nat space(2)]
    split_whitespace.simps(1) by (rule refl)
qed

lemma read_line_first:
  assumes "line_feed \<notin> set l" "utf8_valid (bytes_of (l @ [line_feed]))"
  shows "read_line (bytes_of l @ [10] @ r) = (Inr (l @ [line_feed]), r)"
proof -
  have feed: "bytes_of [line_feed] = [10]" by code_simp
  have "10 \<notin> set (bytes_of l)" using assms(1) by simp
  then have "takeWhile (\<lambda>b. b \<noteq> 10) (bytes_of l @ [10] @ r) = bytes_of l"
    by (induction l) (auto simp: bytes_of_def)
  then have "(let line = takeWhile (\<lambda>b. b \<noteq> 10) (bytes_of l @ [10] @ r)
      in if (10 :: u8) \<in> set (bytes_of l @ [10] @ r) then line @ [10] else line) = bytes_of (l @ [line_feed])"
    using feed by simp
  moreover have "from_utf8 e (bytes_of (l @ [line_feed])) = Inr (l @ [line_feed])" for e
    using assms(2) by (simp add: from_utf8_def del: bytes_of_append)
  ultimately show ?thesis using feed by (simp add: read_line_def Let_def)
qed

lemma commit_body_answer:
  assumes "plain_word oid" "reply (oid @ [line_feed]) = batch_answer oid body" "length body \<le> MAX_COMMIT_BYTES"
  shows "commit_body reply oid [] = (Inr body, [])"
proof -
  let ?header = "oid @ '' commit '' @ show_nat (length body)"
  have mid: "line_feed \<notin> set '' commit ''" "\<forall>c \<in> set ('' commit '' @ [line_feed]). of_char c < (128 :: nat)" by code_simp+
  have plain: "line_feed \<notin> set ?header"
    using plain_no_feed [OF assms(1)] plain_no_feed [OF plain_show_nat] mid(1) by (simp only: set_append Un_iff) blast
  have ascii: "\<forall>c \<in> set (?header @ [line_feed]). of_char c < (128 :: nat)"
    using assms(1) plain_show_nat [of "length body"] mid(2) unfolding plain_word_def set_append by blast
  define h where "h = ?header @ [line_feed]"
  from read_line_first [OF plain utf8_ascii [OF ascii], of "body @ [10]"]
  have line: "read_line (reply (oid @ [line_feed])) = (Inr h, body @ [10])"
    by (simp add: assms(2) batch_answer_def h_def)
  have words: "split_whitespace h = [oid, ''commit'', show_nat (length body)]"
    using header_words [OF assms(1)] by (simp add: h_def)
  have "length body < 2 ^ 64" using assms(3) by (simp add: MAX_COMMIT_BYTES_def)
  note n = parse_usize_show_nat [OF this]
  have wrote: "io_bind (\<lambda>out. (Inr (), out @ reply (oid @ [line_feed]))) f [] = f () (reply (oid @ [line_feed]))"
    for f :: "unit \<Rightarrow> (bytes, string, bytes) stm"
    by (simp add: io_bind_def)
  show ?thesis
    unfolding commit_body_def wrote io_bind_ok [of read_line, OF line] words Let_def using assms(3) n
    by (simp add: io_bind_def read_exact_def)
qed

lemma bytes_of_prefix: "prefix (bytes_of s) (bytes_of t) \<longleftrightarrow> prefix s t"
proof (induction s arbitrary: t)
  case Nil
  then show ?case by (simp add: bytes_of_def)
next
  case (Cons c s)
  have "word_of_nat (of_char c) = (word_of_nat (of_char d) :: u8) \<longleftrightarrow> c = d" for d
  proof
    assume "word_of_nat (of_char c) = (word_of_nat (of_char d) :: u8)"
    then have "unat (word_of_nat (of_char c) :: u8) = unat (word_of_nat (of_char d) :: u8)" by simp
    then show "c = d" by (simp add: unat_of_nat)
  qed simp
  with Cons show ?case by (cases t) (simp_all add: bytes_of_def)
qed

lemma parent_oids_commit:
  assumes "commit_ok c"
  shows "parent_oids (commit_bytes c) = Inr (co_parents c)"
proof -
  have lines: "\<forall>l \<in> set (map bytes_of (commit_lines c)). l \<noteq> [] \<and> 10 \<notin> set l"
  proof -
    have "line_feed \<notin> set ''tree ''" "line_feed \<notin> set ''parent ''" by code_simp+
    then have "\<forall>l \<in> set (commit_lines c). l \<noteq> [] \<and> line_feed \<notin> set l"
      using assms by (auto simp: commit_lines_def commit_ok_def one_line_def)
    then show ?thesis by (auto simp: bytes_of_def [of "_ # _"] neq_Nil_conv)
  qed
  have "commit_bytes c = concat (map (\<lambda>l. l @ [10]) (map bytes_of (commit_lines c))) @ 10 # co_message c"
    by (simp add: commit_bytes_def comp_def)
  then have split: "takeWhile (\<lambda>l. l \<noteq> []) (split_bytes 10 (commit_bytes c)) = map bytes_of (commit_lines c)"
    using split_bytes_lines [OF lines] by simp
  have tree: "\<not> prefix ''parent '' (''tree '' @ t)" for t by simp
  have "filter (prefix ''parent '') (commit_lines c) = map (\<lambda>p. ''parent '' @ p) (co_parents c)"
    using assms by (auto simp: commit_lines_def commit_ok_def filter_empty_conv)
  moreover have "map bytes_of (map (\<lambda>p. ''parent '' @ p) ps) = map (\<lambda>p. bytes_of ''parent '' @ bytes_of p) ps" for ps
    by (induction ps) (simp_all only: list.map bytes_of_append)
  ultimately have "filter (prefix parent_mark) (map bytes_of (commit_lines c)) = map (\<lambda>p. parent_mark @ bytes_of p) (co_parents c)"
    unfolding filter_map comp_def parent_mark_def bytes_of_prefix by simp
  then have "parent_oids (commit_bytes c) = rmap_all (from_utf8 ''parent OID is not UTF-8'') (map bytes_of (co_parents c))"
    by (simp add: parent_oids_def split comp_def)
  also have "\<dots> = Inr (co_parents c)"
    using assms by (simp add: rmap_all_Ok from_utf8_def commit_ok_def)
  finally show ?thesis .
qed

text \<open>C36 -- The parents a query reports are the parents the commits record: when \<open>git cat-file\<close> answers
  every asked commit with its object, each is answered, in the order asked, with its parent
  lines in order, whatever its other headers and its message hold.\<close>

theorem commit_parents_recorded:
  assumes "\<forall>oid \<in> set oids. plain_word oid \<and> commit_ok (objects oid) \<and>
    reply (oid @ [line_feed]) = batch_answer oid (commit_bytes (objects oid))"
  shows "commit_parents_of True reply oids =
    Inr (map (\<lambda>oid. \<lparr>cp_commit = oid, cp_parents = co_parents (objects oid)\<rparr>) oids)"
proof -
  have "io_collect (parents_of_commit reply) oids [] =
      (Inr (map (\<lambda>oid. \<lparr>cp_commit = oid, cp_parents = co_parents (objects oid)\<rparr>) oids), [])"
    using assms
  proof (induction oids)
    case (Cons oid oids)
    then have "commit_body reply oid [] = (Inr (commit_bytes (objects oid)), [])"
      by (intro commit_body_answer) (auto simp: commit_ok_def)
    moreover have "parent_oids (commit_bytes (objects oid)) = Inr (co_parents (objects oid))"
      using Cons.prems by (intro parent_oids_commit) simp
    ultimately have "parents_of_commit reply oid [] = (Inr \<lparr>cp_commit = oid, cp_parents = co_parents (objects oid)\<rparr>, [])"
      by (simp add: parents_of_commit_def io_bind_def)
    then show ?case using Cons by (simp add: io_bind_def)
  qed simp
  then show ?thesis by (simp add: commit_parents_of_def)
qed

definition merge_commit :: "object_id \<Rightarrow> commit_object" where
  "merge_commit oid = \<lparr>co_tree = ''7'', co_parents = [''b'', ''a''], co_headers = [''author x'', ''gpgsig k'', '' parent z''],
     co_message = bytes_of (''parent q'' @ [line_feed])\<rparr>"

definition merge_reply :: "string \<Rightarrow> bytes" where
  "merge_reply l = batch_answer (butlast l) (commit_bytes (merge_commit (butlast l)))"

theorem commit_parents_recorded_witness:
  "commit_parents_of True merge_reply [''c'', ''d''] =
    Inr [\<lparr>cp_commit = ''c'', cp_parents = [''b'', ''a'']\<rparr>, \<lparr>cp_commit = ''d'', cp_parents = [''b'', ''a'']\<rparr>]"
proof -
  have "plain_word ''c''" "plain_word ''d''" by code_simp+
  moreover have "commit_ok (merge_commit oid)" for oid
  proof -
    let ?c = "merge_commit []"
    have "line_feed \<notin> set (co_tree ?c)" "\<forall>p \<in> set (co_parents ?c). line_feed \<notin> set p \<and> utf8_valid (bytes_of p)"
      "\<forall>h \<in> set (co_headers ?c). one_line h \<and> \<not> prefix ''parent '' h" "length (commit_bytes ?c) \<le> 100"
      by code_simp+
    then have "commit_ok ?c" by (simp add: commit_ok_def MAX_COMMIT_BYTES_def)
    then show ?thesis by (simp add: merge_commit_def)
  qed
  moreover have "merge_reply (oid @ [line_feed]) = batch_answer oid (commit_bytes (merge_commit oid))" for oid
    by (simp add: merge_reply_def)
  ultimately show ?thesis
    using commit_parents_recorded [of "[''c'', ''d'']" merge_commit merge_reply] by (simp add: merge_commit_def)
qed

end
