(* ===== verification/GitFiles.thy ===== *)
theory GitFiles
  imports Snapshots
begin

text \<open>
  Tracked files by Git pathspec, \<open>soopy/src/_9_git_files.rs\<close>: \<open>git ls-files\<close> names the paths, one
  batch of \<open>hash-object\<close> or \<open>cat-file --batch-check\<close> identifies them. A batch process
  takes all its input before its output is read.
\<close>

record git_files_query =
  gfq_revision :: revision
  gfq_pathspecs :: "string list"

subsection \<open>Pathspecs\<close>

text \<open>\<open>components\<close> resolved onto \<open>names\<close>; a root or prefix component gives up.\<close>

fun push_components :: "string list \<Rightarrow> component list \<Rightarrow> string list option" where
  "push_components names [] = Some names"
| "push_components names (c # cs) =
     (case c of
        CurDir \<Rightarrow> push_components names cs
      | ParentDir \<Rightarrow> push_components (butlast names) cs
      | Normal n \<Rightarrow> push_components (names @ [n]) cs
      | RootDir \<Rightarrow> None)"

definition pathspec_at :: "fs \<Rightarrow> repository \<Rightarrow> apath \<Rightarrow> string \<Rightarrow> string" where
  "pathspec_at fs repo cwd pathspec =
     (if pathspec \<noteq> [] \<and> hd pathspec = CHR '':'' \<or> is_absolute pathspec then pathspec
      else let cwd = (case canonicalize fs cwd of Inl e \<Rightarrow> cwd | Inr q \<Rightarrow> q)
      in case path_strip_prefix (join_path [] (repo_root repo)) cwd of
           None \<Rightarrow> pathspec
         | Some pre \<Rightarrow>
             (case push_components [] (map Normal pre @ components pathspec) of
                None \<Rightarrow> pathspec
              | Some names \<Rightarrow> slash_text (relative_text names)))"

subsection \<open>Listing\<close>

definition tracked_path :: "bytes \<Rightarrow> string + string" where
  "tracked_path record =
     rbind (from_utf8 (''non-UTF-8 tracked path is not supported: '' @ dbg_str (text_lossy record)) record) (\<lambda>path.
     rbind (ensure_line_safe path) (\<lambda>_. Inr path))"

definition listed_paths :: "git \<Rightarrow> repository \<Rightarrow> revision_id \<Rightarrow> string list \<Rightarrow> string + string list" where
  "listed_paths git repo revision pathspecs =
     rbind (git_out git ''run git ls-files'' (''git ls-files failed in '' @ repo_root repo)
       ([''ls-files'', ''-z''] @ (case revision of RevCommit commit \<Rightarrow> [''--with-tree='' @ commit] | _ \<Rightarrow> []) @ [''--''] @ pathspecs)) (\<lambda>out.
     rmap_all tracked_path (nul_records out))"

definition entry_with_size :: "repository \<Rightarrow> revision_id \<Rightarrow> string \<Rightarrow> string \<Rightarrow> u64 option \<Rightarrow> source_entry option" where
  "entry_with_size repo revision path oid n =
     (if oid = [] then None
      else Some \<lparr>se_source = SourceRef (repo_identity repo) revision path, se_content = GitBlob oid,
        se_size = (case n of None \<Rightarrow> 0 | Some n \<Rightarrow> n)\<rparr>)"

definition tracked_entry :: "fs \<Rightarrow> repository \<Rightarrow> revision_id \<Rightarrow> string \<Rightarrow> string \<Rightarrow> bool \<Rightarrow> source_entry option" where
  "tracked_entry fs repo revision path oid immutable_size =
     entry_with_size repo revision path oid
       (if immutable_size then None
        else case stat fs (join_path (join_path [] (repo_root repo)) path) of
          Inl e \<Rightarrow> None
        | Inr n \<Rightarrow> Some (node_len n))"

text \<open>One request line per path, then the answers.\<close>

definition batch_lines :: "git \<Rightarrow> string \<Rightarrow> string \<Rightarrow> string list \<Rightarrow> string list \<Rightarrow> string + string list" where
  "batch_lines git start refusal args requests =
     rbind (map_err (\<lambda>_. start) (git args (bytes_of (concat (map (\<lambda>r. r @ [line_feed]) requests))))) (\<lambda>out.
     if \<not> go_success out then Inl refusal else Inr (lines_of (text_lossy (go_stdout out))))"

definition worktree_rows :: "git \<Rightarrow> fs \<Rightarrow> repository \<Rightarrow> revision_id \<Rightarrow> string list \<Rightarrow> string + source_entry list" where
  "worktree_rows git fs repo revision paths =
     rbind (batch_lines git ''start git hash-object --stdin-paths'' (''git hash-object failed in '' @ repo_root repo)
       [''hash-object'', ''--stdin-paths''] paths) (\<lambda>ls.
     let oids = filter (\<lambda>l. l \<noteq> []) ls
     in if length oids \<noteq> length paths
        then Inl (''git hash-object answered '' @ show_nat (length oids) @ '' digests for '' @ show_nat (length paths) @ '' tracked paths'')
        else Inr (some_values (map (\<lambda>(path, oid). tracked_entry fs repo revision path oid False) (zip paths oids))))"

definition commit_row :: "repository \<Rightarrow> revision_id \<Rightarrow> string \<Rightarrow> string \<Rightarrow> source_entry option" where
  "commit_row repo revision path answer =
     (case split_whitespace answer of
        [oid, kind, n] \<Rightarrow> if kind = ''blob'' then entry_with_size repo revision path oid (map_option of_nat (parse_usize n)) else None
      | _ \<Rightarrow> None)"

definition commit_rows :: "git \<Rightarrow> repository \<Rightarrow> revision_id \<Rightarrow> object_id \<Rightarrow> string list \<Rightarrow> string + source_entry list" where
  "commit_rows git repo revision commit paths =
     rbind (batch_lines git ''start git cat-file --batch-check'' (''git cat-file failed in '' @ repo_root repo)
       [''cat-file'', ''--batch-check=%(objectname) %(objecttype) %(objectsize)''] (map (\<lambda>p. commit @ '':'' @ p) paths)) (\<lambda>answers.
     if length answers \<noteq> length paths
     then Inl (''git cat-file answered '' @ show_nat (length answers) @ '' rows for '' @ show_nat (length paths) @ '' tracked paths'')
     else Inr (some_values (map (\<lambda>(path, answer). commit_row repo revision path answer) (zip paths answers))))"

definition git_files_from :: "git \<Rightarrow> fs \<Rightarrow> repository \<Rightarrow> git_files_query \<Rightarrow> apath \<Rightarrow> string + source_entry list" where
  "git_files_from git fs repo query cwd =
     rbind (resolve_revision git repo (gfq_revision query)) (\<lambda>revision.
     rbind (listed_paths git repo revision (map (pathspec_at fs repo cwd) (gfq_pathspecs query))) (\<lambda>paths.
     case revision of
       RevCommit commit \<Rightarrow> commit_rows git repo revision commit paths
     | _ \<Rightarrow> worktree_rows git fs repo revision paths))"

definition git_files :: "git \<Rightarrow> fs \<Rightarrow> repository \<Rightarrow> git_files_query \<Rightarrow> string + source_entry list" where
  "git_files git fs repo query = git_files_from git fs repo query (join_path [] (repo_root repo))"

definition hash_object :: "git \<Rightarrow> repository \<Rightarrow> bytes \<Rightarrow> string + object_id" where
  "hash_object git repo b =
     rbind (map_err (\<lambda>_. ''start git hash-object --stdin'') (git [''hash-object'', ''--stdin''] b)) (\<lambda>out.
     if \<not> go_success out then Inl (''git hash-object failed in '' @ repo_root repo)
     else rbind (from_utf8 ''invalid utf-8 sequence'' (go_stdout out)) (\<lambda>s. Inr (trim s)))"

end
