(* ===== verification/TrackedState.thy ===== *)
theory TrackedState
  imports Snapshots
begin

text \<open>
  Per-path Git status, \<open>soopy/src/_5a_git_status.rs\<close> with its types of \<open>_0_types.rs\<close>: \<open>HEAD\<close>, index
  and worktree compared pairwise, with a cache of worktree identities and one
  \<open>git hash-object --stdin-paths\<close> process that lives as long as the root is open. A branch the
  source marks \<open>unreachable!()\<close> is the value \<open>None\<close>.
\<close>

subsection \<open>Types\<close>

datatype untracked_policy = UntrackedExclude | UntrackedInclude

record git_file_query =
  gf_pathspecs :: "string list"
  gf_untracked :: untracked_policy

datatype git_entry_kind = GkFile | GkSymlink | GkGitlink | GkTree | GkOther

record entry_identity =
  ei_kind :: git_entry_kind
  ei_mode :: u32
  ei_content :: content_id

record index_stage =
  ist_stage :: nat
  ist_identity :: entry_identity

datatype entry_transition =
  TrUnchanged | TrAdded | TrDeleted | TrModified | TrModeChanged | TrTypeChanged
| TrModeAndContent | TrTypeAndContent | TrTypeAndMode | TrTypeModeAndContent

datatype head_state = HeadPresent object_id | HeadUnbornState

datatype unsupported = GitlinkWorktreeUnavailable | WorktreeTypeUnavailable | WorktreeContentUnavailable

datatype file_state =
  FsClean | FsUnstaged | FsStaged | FsStagedAndUnstaged | FsUnmerged | FsIntentToAdd | FsSparse | FsUntracked
| FsUnsupported unsupported

record file_observation =
  ob_worktree :: worktree_id
  ob_path :: repo_path
  ob_state :: file_state
  ob_head_state :: head_state
  ob_head :: "entry_identity option"
  ob_index :: "entry_identity option"
  ob_worktree_entry :: "entry_identity option"
  ob_index_stages :: "index_stage list"
  ob_staged :: "bool option"
  ob_unstaged :: "bool option"
  ob_head_to_index :: "entry_transition option"
  ob_index_to_worktree :: "entry_transition option"

record metrics =
  mt_git_children :: u64
  mt_hash_workers :: u64
  mt_byte_workers :: u64
  mt_bytes_hashed :: u64
  mt_cache_hits :: u64
  mt_cache_misses :: u64

record tracked_result =
  tr_observations :: "file_observation list"
  tr_metrics :: metrics

subsection \<open>The world\<close>

text \<open>
  What \<open>symlink_metadata\<close> tells; the modification time has a type of its own. The hash worker
  is a process with a state: asked with a path it answers a line (empty at its end)
  or an error. \<open>sv_spawn\<close> is a fresh one, \<open>None\<close> when it cannot be started.
\<close>

datatype file_type = TypeFile | TypeSymlink | TypeOther

record 't file_metadata =
  fm_type :: file_type
  fm_modified :: "'t option"
  fm_size :: u64
  fm_permissions :: u32

record ('t, 'w) status_world =
  sv_git :: git
  sv_stat :: "apath \<Rightarrow> io_error + 't file_metadata"
  sv_read_link :: "apath \<Rightarrow> io_error + string"
  sv_spawn :: "'w option"
  sv_ask :: "'w \<Rightarrow> string \<Rightarrow> (string + string) \<times> 'w"

record 't worktree_metadata =
  wm_modified :: "'t option"
  wm_size :: u64
  wm_kind :: git_entry_kind
  wm_mode :: u32

record 't cached_worktree =
  cwt_head :: "entry_identity option"
  cwt_index :: "entry_identity option"
  cwt_metadata :: "'t worktree_metadata option"
  cwt_entry :: "entry_identity option"

record ('t, 'w) status_cache =
  sc_entries :: "(repo_path, 't cached_worktree) btree"
  sc_hasher :: "'w option"
  sc_byte_hasher :: "bytes option"

record ('t, 'w) status_state =
  st_cache :: "('t, 'w) status_cache"
  st_metrics :: metrics
  st_panicked :: bool

type_synonym ('t, 'w, 'a) status = "(('t, 'w) status_state, string, 'a) stm"

definition no_metrics :: metrics where
  "no_metrics = \<lparr>mt_git_children = 0, mt_hash_workers = 0, mt_byte_workers = 0, mt_bytes_hashed = 0,
     mt_cache_hits = 0, mt_cache_misses = 0\<rparr>"

definition empty_status_cache :: "('t, 'w) status_cache" where
  "empty_status_cache = \<lparr>sc_entries = [], sc_hasher = None, sc_byte_hasher = None\<rparr>"

definition count :: "(metrics \<Rightarrow> metrics) \<Rightarrow> ('t, 'w, unit) status" where
  "count f = (\<lambda>s. (Inr (), s\<lparr>st_metrics := f (st_metrics s)\<rparr>))"

subsection \<open>Reading Git's answers\<close>

text \<open>\<open>u32::from_str_radix\<close>.\<close>

definition radix_value :: "int \<Rightarrow> char \<Rightarrow> int option" where
  "radix_value base c =
     (let n = of_char c :: int;
          d = (if 48 \<le> n \<and> n \<le> 57 then n - 48 else if 97 \<le> n \<and> n \<le> 122 then n - 87 else if 65 \<le> n \<and> n \<le> 90 then n - 55 else base)
      in if d < base then Some d else None)"

fun radix_digits :: "int \<Rightarrow> int \<Rightarrow> int \<Rightarrow> string \<Rightarrow> int option" where
  "radix_digits bound base acc [] = Some acc"
| "radix_digits bound base acc (c # cs) =
     (case radix_value base c of None \<Rightarrow> None
      | Some d \<Rightarrow> (let n = base * acc + d in if n < bound then radix_digits bound base n cs else None))"

definition parse_radix :: "int \<Rightarrow> int \<Rightarrow> string \<Rightarrow> int option" where
  "parse_radix bound base s =
     (let digits = (case s of [] \<Rightarrow> [] | c # cs \<Rightarrow> if c = CHR ''+'' then cs else s)
      in if digits = [] then None else radix_digits bound base 0 digits)"

definition is_hexdigit :: "char \<Rightarrow> bool" where
  "is_hexdigit c \<longleftrightarrow> radix_value 16 c \<noteq> None"

definition mode_kind :: "string \<Rightarrow> string" where
  "mode_kind mode = (if mode = ''160000'' then ''commit'' else if mode = ''040000'' then ''tree'' else ''blob'')"

definition identity_of :: "string \<Rightarrow> string \<Rightarrow> string \<Rightarrow> string + entry_identity" where
  "identity_of mode kind oid =
     rbind (ok_or (''parse Git mode '' @ dbg_str mode) (parse_radix (2 ^ 32) 8 mode)) (\<lambda>m.
     if \<not> list_all is_hexdigit oid then Inl (''invalid Git object identity '' @ dbg_str oid)
     else Inr \<lparr>ei_kind = (if kind = ''blob'' then if m = 0xA000 then GkSymlink else GkFile
           else if kind = ''commit'' then GkGitlink else if kind = ''tree'' then GkTree else GkOther),
         ei_mode = of_int m, ei_content = GitBlob oid\<rparr>)"

definition checked_path :: "bytes \<Rightarrow> string + string" where
  "checked_path b =
     rbind (from_utf8 ''non-UTF-8 Git path is unsupported'' b) (\<lambda>path. rbind (ensure_line_safe path) (\<lambda>_. Inr path))"

text \<open>The words before the tab and the path after it.\<close>

definition listed_row :: "string \<Rightarrow> string \<Rightarrow> string \<Rightarrow> bytes \<Rightarrow> string + string list \<times> bytes" where
  "listed_row no_tab no_utf8 unexpected record =
     rbind (ok_or no_tab (cut_tab record)) (\<lambda>(meta, path).
     rbind (from_utf8 no_utf8 meta) (\<lambda>header.
     let ws = split_whitespace header in if length ws \<noteq> 3 then Inl unexpected else Inr (ws, path)))"

definition head_row :: "bytes \<Rightarrow> string + string \<times> entry_identity" where
  "head_row record =
     rbind (listed_row ''parse ls-tree path'' ''parse ls-tree header'' ''unexpected git ls-tree header'' record) (\<lambda>(ws, b).
     rbind (checked_path b) (\<lambda>path.
     rbind (identity_of (ws ! 0) (ws ! 1) (ws ! 2)) (\<lambda>i. Inr (path, i))))"

definition index_row :: "bytes \<Rightarrow> string + string \<times> index_stage" where
  "index_row record =
     rbind (listed_row ''parse index path'' ''parse index header'' ''unexpected git ls-files --stage header'' record) (\<lambda>(ws, b).
     rbind (checked_path b) (\<lambda>path.
     rbind (ok_or ''parse index stage'' (parse_radix 256 10 (ws ! 2))) (\<lambda>n.
     rbind (identity_of (ws ! 0) (mode_kind (ws ! 0)) (ws ! 1)) (\<lambda>i.
     Inr (path, \<lparr>ist_stage = nat n, ist_identity = i\<rparr>)))))"

definition after_last :: "string \<Rightarrow> string \<Rightarrow> string option" where
  "after_last needle s =
     (case filter (\<lambda>i. prefix needle (drop i s)) (rev [0..<Suc (length s)]) of
        [] \<Rightarrow> None
      | i # rest \<Rightarrow> Some (drop (i + length needle) s))"

text \<open>The state is the last path seen and the paths found.\<close>

definition debug_line :: "string \<Rightarrow> string option \<times> string btset \<Rightarrow> string + string option \<times> string btset" where
  "debug_line line = (\<lambda>(current, paths).
     if line \<noteq> [] \<and> digit_value (hd line) \<noteq> None \<and> tab \<in> set line
     then Inr (Some (tl (dropWhile (\<lambda>c. c \<noteq> tab) line)), paths)
     else case after_last ''flags: '' (trim line) of
       None \<Rightarrow> Inr (current, paths)
     | Some flags \<Rightarrow>
         rbind (ok_or ''parse index debug flags'' (parse_radix (2 ^ 32) 16 flags)) (\<lambda>n.
         Inr (current, if bit (of_int n :: u32) 29
           then (case current of None \<Rightarrow> paths | Some p \<Rightarrow> bs_insert p paths) else paths)))"

fun debug_lines :: "string list \<Rightarrow> string option \<times> string btset \<Rightarrow> string + string btset" where
  "debug_lines [] st = Inr (snd st)"
| "debug_lines (l # ls) st = rbind (debug_line l st) (debug_lines ls)"

text \<open>\<open>line.get(1..)\<close>: the byte at 1 must not continue a character.\<close>

definition tail_str :: "string \<Rightarrow> string option" where
  "tail_str l = (if l = [] \<or> (1 < length l \<and> cont_byte (hd (bytes_of (tl l)))) then None else Some (tl l))"

fun before_str :: "string \<Rightarrow> string \<Rightarrow> string" where
  "before_str needle [] = []"
| "before_str needle (c # s) = (if prefix needle (c # s) then [] else c # before_str needle s)"

definition gitlink_line :: "string \<Rightarrow> string + (string \<times> entry_identity) option" where
  "gitlink_line line =
     (case tail_str line of
        None \<Rightarrow> Inr None
      | Some l \<Rightarrow>
          (if CHR '' '' \<notin> set l then Inr None
           else let oid = takeWhile (\<lambda>c. c \<noteq> CHR '' '') l; rest = tl (dropWhile (\<lambda>c. c \<noteq> CHR '' '') l);
                path = before_str '' ('' rest
           in if list_all is_hexdigit oid
              then rbind (identity_of ''160000'' ''commit'' oid) (\<lambda>i. Inr (Some (path, i)))
              else Inr None))"

subsection \<open>Asking Git\<close>

definition status_git :: "('t, 'w) status_world \<Rightarrow> string list \<Rightarrow> string list \<Rightarrow> ('t, 'w, git_output) status" where
  "status_git E args pathspecs =
     io_bind (count (\<lambda>m. m\<lparr>mt_git_children := mt_git_children m + 1\<rparr>)) (\<lambda>_.
     io_read (\<lambda>_. map_err (\<lambda>_. ''run Git tracked-state query'')
       (sv_git E (args @ (if pathspecs = [] then [] else ''--'' # pathspecs)) [])))"

definition status_out :: "('t, 'w) status_world \<Rightarrow> string \<Rightarrow> string list \<Rightarrow> string list \<Rightarrow> ('t, 'w, bytes) status" where
  "status_out E refusal args pathspecs =
     io_bind (status_git E args pathspecs) (\<lambda>out. if \<not> go_success out then io_err refusal else io_ok (go_stdout out))"

definition read_head_state :: "('t, 'w) status_world \<Rightarrow> ('t, 'w, head_state) status" where
  "read_head_state E =
     io_bind (status_git E [''rev-parse'', ''--verify'', ''-q'', ''HEAD^{commit}''] []) (\<lambda>out.
     if go_success out
     then io_bind (io_read (\<lambda>_. from_utf8 ''invalid utf-8 sequence'' (go_stdout out))) (\<lambda>s. io_ok (HeadPresent (trim s)))
     else io_ok HeadUnbornState)"

definition head_entries :: "('t, 'w) status_world \<Rightarrow> object_id \<Rightarrow> string list \<Rightarrow> ('t, 'w, (string \<times> entry_identity) list) status" where
  "head_entries E head_oid pathspecs =
     io_bind (status_out E (''git ls-tree failed for '' @ head_oid) [''ls-tree'', ''-r'', ''-z'', head_oid] pathspecs) (\<lambda>out.
     io_read (\<lambda>_. rmap_all head_row (nul_records out)))"

definition index_entries :: "('t, 'w) status_world \<Rightarrow> repository \<Rightarrow> string list \<Rightarrow> ('t, 'w, (string \<times> index_stage) list) status" where
  "index_entries E repo pathspecs =
     io_bind (status_out E (''git ls-files --stage failed in '' @ repo_root repo) [''ls-files'', ''--stage'', ''-z''] pathspecs) (\<lambda>out.
     io_read (\<lambda>_. rmap_all index_row (nul_records out)))"

definition skip_mark :: bytes where
  "skip_mark = bytes_of ''S ''"

definition skip_worktree_paths :: "('t, 'w) status_world \<Rightarrow> repository \<Rightarrow> string list \<Rightarrow> ('t, 'w, string btset) status" where
  "skip_worktree_paths E repo pathspecs =
     io_bind (status_out E (''git ls-files -v failed in '' @ repo_root repo) [''ls-files'', ''-v'', ''-z''] pathspecs) (\<lambda>out.
     io_read (\<lambda>_. rbind (rmap_all checked_path (map (drop (length skip_mark)) (filter (prefix skip_mark) (split_bytes 0 out))))
       (\<lambda>paths. Inr (bs_collect paths))))"

definition untracked_paths :: "('t, 'w) status_world \<Rightarrow> repository \<Rightarrow> string list \<Rightarrow> ('t, 'w, string list) status" where
  "untracked_paths E repo pathspecs =
     io_bind (status_out E (''git ls-files --others failed in '' @ repo_root repo)
       [''ls-files'', ''--others'', ''--exclude-standard'', ''-z''] pathspecs) (\<lambda>out.
     io_read (\<lambda>_. rmap_all checked_path (nul_records out)))"

definition intent_to_add_paths :: "('t, 'w) status_world \<Rightarrow> repository \<Rightarrow> string list \<Rightarrow> ('t, 'w, string btset) status" where
  "intent_to_add_paths E repo pathspecs =
     io_bind (status_out E (''git ls-files --debug failed in '' @ repo_root repo) [''ls-files'', ''--stage'', ''--debug''] pathspecs) (\<lambda>out.
     io_read (\<lambda>_. rbind (from_utf8 ''invalid utf-8 sequence'' out) (\<lambda>s. debug_lines (lines_of s) (None, []))))"

definition gitlink_worktrees :: "('t, 'w) status_world \<Rightarrow> ('t, 'w, (string, entry_identity) btree) status" where
  "gitlink_worktrees E =
     io_bind (status_git E [''submodule'', ''status'', ''--recursive''] []) (\<lambda>out.
     if \<not> go_success out then io_ok []
     else io_read (\<lambda>_. rbind (from_utf8 ''invalid utf-8 sequence'' (go_stdout out)) (\<lambda>s.
       rbind (rmap_all gitlink_line (lines_of s)) (\<lambda>rows. Inr (bt_collect (some_values rows))))))"

subsection \<open>The identity of a worktree file\<close>

definition worktree_file_mode :: "u32 \<Rightarrow> u32" where
  "worktree_file_mode permissions = (if and permissions 0x49 \<noteq> 0 then 0x81ED else 0x81A4)"

definition metadata_identity :: "'t file_metadata \<Rightarrow> string + 't worktree_metadata" where
  "metadata_identity m =
     rbind (case fm_type m of
         TypeSymlink \<Rightarrow> Inr (GkSymlink, 0xA000)
       | TypeFile \<Rightarrow> Inr (GkFile, worktree_file_mode (fm_permissions m))
       | TypeOther \<Rightarrow> Inl ''worktree entry is neither a regular file nor a symlink'') (\<lambda>(kind, mode).
     Inr \<lparr>wm_modified = fm_modified m, wm_size = fm_size m, wm_kind = kind, wm_mode = mode\<rparr>)"

definition valid_oid :: "string \<Rightarrow> string \<Rightarrow> string + object_id" where
  "valid_oid refusal line =
     (let oid = trim line in if oid = [] \<or> \<not> list_all is_hexdigit oid then Inl (refusal @ dbg_str oid) else Inr oid)"

definition hasher_open :: "('t, 'w) status_world \<Rightarrow> ('t, 'w, unit) status" where
  "hasher_open E =
     io_bind (count (\<lambda>m. m\<lparr>mt_git_children := mt_git_children m + 1, mt_hash_workers := mt_hash_workers m + 1\<rparr>)) (\<lambda>_ s.
     case sv_spawn E of
       None \<Rightarrow> (Inl ''start git hash-object --stdin-paths'', s)
     | Some w \<Rightarrow> (Inr (), s\<lparr>st_cache := (st_cache s)\<lparr>sc_hasher := Some w\<rparr>\<rparr>))"

text \<open>The process keeps its state whatever the answer. The caller has opened one; if it has not, its
  \<open>expect\<close> panics, and a call in which anything panicked has no result.\<close>

definition hash_path :: "('t, 'w) status_world \<Rightarrow> string \<Rightarrow> ('t, 'w, object_id) status" where
  "hash_path E path = (\<lambda>s.
     case sc_hasher (st_cache s) of
       None \<Rightarrow> (Inl ''hash worker is initialized'', s\<lparr>st_panicked := True\<rparr>)
     | Some w \<Rightarrow>
         (let (answer, w) = sv_ask E w path
          in (case answer of
                Inl e \<Rightarrow> Inl e
              | Inr line \<Rightarrow>
                  (if line = [] then Inl (''git hash-object closed before answering '' @ dbg_str path)
                   else valid_oid (''invalid git hash-object response for '' @ dbg_str path @ '': '') line),
              s\<lparr>st_cache := (st_cache s)\<lparr>sc_hasher := Some w\<rparr>\<rparr>)))"

definition hash_symlink :: "('t, 'w) status_world \<Rightarrow> string \<Rightarrow> ('t, 'w, object_id) status" where
  "hash_symlink E target =
     io_bind (\<lambda>s. (Inr (), s\<lparr>st_cache := (st_cache s)\<lparr>sc_byte_hasher := Some (bytes_of target)\<rparr>\<rparr>)) (\<lambda>_.
     io_bind (count (\<lambda>m. m\<lparr>mt_git_children := mt_git_children m + 1, mt_byte_workers := mt_byte_workers m + 1,
        mt_bytes_hashed := mt_bytes_hashed m + len64 target\<rparr>)) (\<lambda>_.
     io_bind (io_read (\<lambda>_. map_err (\<lambda>_. ''start git hash-object --stdin for symlink'')
        (sv_git E [''hash-object'', ''--stdin'', ''--no-filters''] (bytes_of target)))) (\<lambda>out.
     if \<not> go_success out then io_err ''git hash-object --stdin failed for symlink''
     else io_read (\<lambda>_. rbind (from_utf8 ''invalid utf-8 sequence'' (go_stdout out))
       (valid_oid ''invalid Git object identity from symlink hash: '')))))"

text \<open>The content of a file the cache does not answer for.\<close>

definition hash_content ::
  "('t, 'w) status_world \<Rightarrow> repository \<Rightarrow> repo_path \<Rightarrow> 't worktree_metadata \<Rightarrow> ('t, 'w, object_id) status" where
  "hash_content E repo path m =
     (let full = join_path (join_path [] (repo_root repo)) path
      in case wm_kind m of
           GkFile \<Rightarrow> io_bind (\<lambda>s. if sc_hasher (st_cache s) = None then hasher_open E s else (Inr (), s)) (\<lambda>_. hash_path E path)
         | GkSymlink \<Rightarrow> io_bind (io_read (\<lambda>_. map_err (\<lambda>_. ''read symlink '' @ show_path full) (sv_read_link E full))) (hash_symlink E)
         | _ \<Rightarrow> io_err ''worktree type has no normalized Git content'')"

definition cache_hit ::
  "('t, 'w) status_cache \<Rightarrow> repo_path \<Rightarrow> entry_identity option \<Rightarrow> entry_identity option \<Rightarrow> 't worktree_metadata \<Rightarrow> 't cached_worktree option" where
  "cache_hit cache path head_entry index m =
     (case bt_get (sc_entries cache) path of
        None \<Rightarrow> None
      | Some c \<Rightarrow> if cwt_head c = head_entry \<and> cwt_index c = index \<and> cwt_metadata c = Some m then Some c else None)"

definition hash_entry ::
  "('t, 'w) status_world \<Rightarrow> repository \<Rightarrow> repo_path \<Rightarrow> entry_identity option \<Rightarrow> entry_identity option \<Rightarrow> 't worktree_metadata \<Rightarrow>
     ('t, 'w, entry_identity option) status" where
  "hash_entry E repo path head_entry index m =
     io_bind (count (\<lambda>t. t\<lparr>mt_cache_misses := mt_cache_misses t + 1\<rparr>)) (\<lambda>_.
     io_bind (hash_content E repo path m) (\<lambda>content.
     io_bind (if wm_kind m = GkFile then count (\<lambda>t. t\<lparr>mt_bytes_hashed := mt_bytes_hashed t + wm_size m\<rparr>) else io_ok ()) (\<lambda>_ s.
     let entry = \<lparr>ei_kind = wm_kind m, ei_mode = wm_mode m, ei_content = GitBlob content\<rparr>;
         cached = \<lparr>cwt_head = head_entry, cwt_index = index, cwt_metadata = Some m, cwt_entry = Some entry\<rparr>
     in (Inr (Some entry), s\<lparr>st_cache := (st_cache s)\<lparr>sc_entries := bt_insert path cached (sc_entries (st_cache s))\<rparr>\<rparr>))))"

definition worktree_identity ::
  "('t, 'w) status_world \<Rightarrow> repository \<Rightarrow> repo_path \<Rightarrow> entry_identity option \<Rightarrow> entry_identity option \<Rightarrow>
     ('t, 'w, entry_identity option) status" where
  "worktree_identity E repo path head_entry index =
     (let full = join_path (join_path [] (repo_root repo)) path
      in case sv_stat E full of
           Inl e \<Rightarrow> if e = NotFound then io_ok None else io_err (''stat '' @ show_path full)
         | Inr meta \<Rightarrow>
             io_bind (io_read (\<lambda>_. metadata_identity meta)) (\<lambda>m s.
             case cache_hit (st_cache s) path head_entry index m of
               Some c \<Rightarrow> (Inr (cwt_entry c), s\<lparr>st_metrics := (st_metrics s)\<lparr>mt_cache_hits := mt_cache_hits (st_metrics s) + 1\<rparr>\<rparr>)
             | None \<Rightarrow> hash_entry E repo path head_entry index m s))"

subsection \<open>Comparing\<close>

definition transition :: "entry_identity option \<Rightarrow> entry_identity option \<Rightarrow> entry_transition option" where
  "transition left right =
     (case (left, right) of
        (None, None) \<Rightarrow> Some TrUnchanged
      | (None, Some r) \<Rightarrow> Some TrAdded
      | (Some l, None) \<Rightarrow> Some TrDeleted
      | (Some l, Some r) \<Rightarrow>
          (if l = r then Some TrUnchanged
           else case (ei_kind l \<noteq> ei_kind r, ei_mode l \<noteq> ei_mode r, ei_content l \<noteq> ei_content r) of
                  (False, False, True) \<Rightarrow> Some TrModified
                | (False, True, False) \<Rightarrow> Some TrModeChanged
                | (True, False, False) \<Rightarrow> Some TrTypeChanged
                | (False, True, True) \<Rightarrow> Some TrModeAndContent
                | (True, False, True) \<Rightarrow> Some TrTypeAndContent
                | (True, True, False) \<Rightarrow> Some TrTypeAndMode
                | (True, True, True) \<Rightarrow> Some TrTypeModeAndContent
                | (False, False, False) \<Rightarrow> None))"

subsection \<open>Rows\<close>

record path_rows =
  pr_head :: "entry_identity option"
  pr_stages :: "index_stage list"
  pr_skip_worktree :: bool
  pr_intent_to_add :: bool
  pr_untracked :: bool

definition no_rows :: path_rows where
  "no_rows = \<lparr>pr_head = None, pr_stages = [], pr_skip_worktree = False, pr_intent_to_add = False, pr_untracked = False\<rparr>"

definition stage_zero :: "path_rows \<Rightarrow> entry_identity option" where
  "stage_zero row = map_option ist_identity (find (\<lambda>st. ist_stage st = 0) (pr_stages row))"

definition row_gitlink :: "path_rows \<Rightarrow> bool" where
  "row_gitlink row \<longleftrightarrow> (case pr_head row of None \<Rightarrow> False | Some e \<Rightarrow> ei_kind e = GkGitlink) \<or>
     list_ex (\<lambda>st. ei_kind (ist_identity st) = GkGitlink) (pr_stages row)"

type_synonym row_map = "(string, path_rows) btree"

definition enter :: "(path_rows \<Rightarrow> path_rows) \<Rightarrow> string \<Rightarrow> row_map \<Rightarrow> row_map" where
  "enter f path rows = bt_update path no_rows f rows"

definition gather_rows ::
  "(string \<times> entry_identity) list \<Rightarrow> (string \<times> index_stage) list \<Rightarrow> string list \<Rightarrow> string list \<Rightarrow> string list \<Rightarrow> row_map" where
  "gather_rows heads stages skipped intended untracked =
     (let rows = fold (\<lambda>(path, e). enter (\<lambda>row. row\<lparr>pr_head := Some e\<rparr>) path) heads [];
          rows = fold (\<lambda>(path, st). enter (\<lambda>row. row\<lparr>pr_stages := pr_stages row @ [st]\<rparr>) path) stages rows;
          rows = fold (enter (\<lambda>row. row\<lparr>pr_skip_worktree := True\<rparr>)) skipped rows;
          rows = fold (enter (\<lambda>row. row\<lparr>pr_intent_to_add := True\<rparr>)) intended rows
      in fold (enter (\<lambda>row. row\<lparr>pr_untracked := True\<rparr>)) untracked rows)"

definition exception_observation ::
  "repository \<Rightarrow> repo_path \<Rightarrow> head_state \<Rightarrow> path_rows \<Rightarrow> entry_identity option \<Rightarrow> file_state \<Rightarrow> file_observation" where
  "exception_observation repo path hs row worktree_entry state =
     \<lparr>ob_worktree = repo_worktree repo, ob_path = path, ob_state = state, ob_head_state = hs, ob_head = pr_head row,
      ob_index = stage_zero row, ob_worktree_entry = worktree_entry, ob_index_stages = pr_stages row,
      ob_staged = None, ob_unstaged = None, ob_head_to_index = None, ob_index_to_worktree = None\<rparr>"

definition untracked_observation :: "repository \<Rightarrow> repo_path \<Rightarrow> head_state \<Rightarrow> entry_identity option \<Rightarrow> file_observation" where
  "untracked_observation repo path hs worktree_entry =
     \<lparr>ob_worktree = repo_worktree repo, ob_path = path, ob_state = FsUntracked, ob_head_state = hs, ob_head = None,
      ob_index = None, ob_worktree_entry = worktree_entry, ob_index_stages = [],
      ob_staged = None, ob_unstaged = None, ob_head_to_index = None, ob_index_to_worktree = None\<rparr>"

definition compared_observation ::
  "repository \<Rightarrow> repo_path \<Rightarrow> head_state \<Rightarrow> path_rows \<Rightarrow> entry_identity option \<Rightarrow> entry_identity option \<Rightarrow> file_observation option" where
  "compared_observation repo path hs row index worktree_entry =
     (case (transition (pr_head row) index, transition index worktree_entry) of
        (Some head_to_index, Some index_to_worktree) \<Rightarrow>
          (let staged = (head_to_index \<noteq> TrUnchanged); unstaged = (index_to_worktree \<noteq> TrUnchanged)
           in Some \<lparr>ob_worktree = repo_worktree repo, ob_path = path,
             ob_state = (case (staged, unstaged) of
                 (False, False) \<Rightarrow> FsClean | (False, True) \<Rightarrow> FsUnstaged
               | (True, False) \<Rightarrow> FsStaged | (True, True) \<Rightarrow> FsStagedAndUnstaged),
             ob_head_state = hs, ob_head = pr_head row, ob_index = index, ob_worktree_entry = worktree_entry,
             ob_index_stages = pr_stages row, ob_staged = Some staged, ob_unstaged = Some unstaged,
             ob_head_to_index = Some head_to_index, ob_index_to_worktree = Some index_to_worktree\<rparr>)
      | _ \<Rightarrow> None)"

text \<open>The observation of a row whose worktree entry is known, or could not be read.\<close>

definition classify_row ::
  "repository \<Rightarrow> head_state \<Rightarrow> repo_path \<Rightarrow> path_rows \<Rightarrow> string + entry_identity option \<Rightarrow> file_observation option" where
  "classify_row repo hs path row worktree =
     (let index = stage_zero row; exceptional = exception_observation repo path hs row
      in case worktree of
           Inl e \<Rightarrow> Some (exceptional None (FsUnsupported
             (if row_gitlink row then GitlinkWorktreeUnavailable else WorktreeContentUnavailable)))
         | Inr w \<Rightarrow>
             (if pr_stages row \<noteq> [] \<and> index = None then Some (exceptional w FsUnmerged)
              else if pr_intent_to_add row then Some (exceptional w FsIntentToAdd)
              else if pr_skip_worktree row then Some (exceptional w FsSparse)
              else if pr_untracked row \<and> pr_head row = None \<and> index = None then Some (untracked_observation repo path hs w)
              else compared_observation repo path hs row index w))"

definition row_worktree ::
  "('t, 'w) status_world \<Rightarrow> repository \<Rightarrow> (string, entry_identity) btree \<Rightarrow> repo_path \<Rightarrow> path_rows \<Rightarrow>
     ('t, 'w, string + entry_identity option) status" where
  "row_worktree E repo gitlinks path row =
     (if pr_skip_worktree row then io_ok (Inr None)
      else if row_gitlink row
      then io_ok (case bt_get gitlinks path of None \<Rightarrow> Inl ''gitlink worktree unavailable'' | Some e \<Rightarrow> Inr (Some e))
      else (\<lambda>s. case worktree_identity E repo path (pr_head row) (stage_zero row) s of (r, t) \<Rightarrow> (Inr r, t)))"

definition observe_row ::
  "('t, 'w) status_world \<Rightarrow> repository \<Rightarrow> head_state \<Rightarrow> (string, entry_identity) btree \<Rightarrow> string \<times> path_rows \<Rightarrow>
     ('t, 'w, file_observation option) status" where
  "observe_row E repo hs gitlinks = (\<lambda>(path, row).
     let row = row\<lparr>pr_stages := sort_key ist_stage (pr_stages row)\<rparr>
     in io_bind (io_read (\<lambda>_. ensure_line_safe path)) (\<lambda>_.
        io_bind (row_worktree E repo gitlinks path row) (\<lambda>worktree.
        io_ok (classify_row repo hs path row worktree))))"

definition read_rows :: "('t, 'w) status_world \<Rightarrow> repository \<Rightarrow> git_file_query \<Rightarrow> ('t, 'w, head_state \<times> row_map) status" where
  "read_rows E repo query =
     (let ps = gf_pathspecs query
      in io_bind (read_head_state E) (\<lambda>hs.
         io_bind (case hs of HeadPresent h \<Rightarrow> head_entries E h ps | HeadUnbornState \<Rightarrow> io_ok []) (\<lambda>heads.
         io_bind (index_entries E repo ps) (\<lambda>stages.
         io_bind (skip_worktree_paths E repo ps) (\<lambda>skipped.
         io_bind (intent_to_add_paths E repo ps) (\<lambda>intended.
         io_bind (if gf_untracked query = UntrackedInclude then untracked_paths E repo ps else io_ok []) (\<lambda>untracked.
         io_ok (hs, gather_rows heads stages skipped intended untracked))))))))"

definition observe_all :: "('t, 'w) status_world \<Rightarrow> repository \<Rightarrow> git_file_query \<Rightarrow> ('t, 'w, file_observation option list) status" where
  "observe_all E repo query =
     io_bind (read_rows E repo query) (\<lambda>(hs, rows).
     io_bind (if list_ex (\<lambda>(path, row). row_gitlink row) rows then gitlink_worktrees E else io_ok []) (\<lambda>gitlinks.
     io_collect (observe_row E repo hs gitlinks) rows))"

text \<open>The call: \<open>None\<close> is a panic, of the hash worker's \<open>expect\<close> or of one of the two
  \<open>unreachable!\<close>. The metrics start at zero, the cache is the root's.\<close>

definition tracked_state ::
  "('t, 'w) status_world \<Rightarrow> repository \<Rightarrow> git_file_query \<Rightarrow> ('t, 'w) status_cache \<Rightarrow>
     (string + tracked_result) option \<times> ('t, 'w) status_cache" where
  "tracked_state E repo query cache =
     (case observe_all E repo query \<lparr>st_cache = cache, st_metrics = no_metrics, st_panicked = False\<rparr> of
        (Inl e, s) \<Rightarrow> (if st_panicked s then None else Some (Inl e), st_cache s)
      | (Inr obs, s) \<Rightarrow>
          (if st_panicked s \<or> None \<in> set obs then (None, st_cache s)
           else (Some (Inr \<lparr>tr_observations = map the obs, tr_metrics = st_metrics s\<rparr>), st_cache s)))"

end
