(* ===== verification/TrackedProofs.thy ===== *)
theory TrackedProofs
  imports TrackedState
begin

text \<open>
  What a tracked-state observation promises: every row is classified by its own comparisons, in
  path order; and what becomes of it when the hash worker has ended.
\<close>

subsection \<open>Transitions\<close>

lemma transition_unchanged: "transition l r = Some TrUnchanged \<longleftrightarrow> l = r"
  by (cases l; cases r) (auto simp: transition_def split: bool.splits)

lemma transition_total: "transition l r \<noteq> None"
proof (cases l; cases r)
  fix a b assume "l = Some a" "r = Some b"
  then show ?thesis by (cases a; cases b) (auto simp: transition_def split: bool.splits)
qed (simp_all add: transition_def)

subsection \<open>One row\<close>

definition has_comparison :: "file_state \<Rightarrow> bool" where
  "has_comparison st \<longleftrightarrow> st \<in> {FsClean, FsUnstaged, FsStaged, FsStagedAndUnstaged}"

definition compared_well :: "file_observation \<Rightarrow> bool" where
  "compared_well ob \<longleftrightarrow>
     ob_head_to_index ob \<noteq> None \<and> ob_head_to_index ob = transition (ob_head ob) (ob_index ob) \<and>
     ob_index_to_worktree ob \<noteq> None \<and> ob_index_to_worktree ob = transition (ob_index ob) (ob_worktree_entry ob) \<and>
     ob_staged ob = Some (ob_head ob \<noteq> ob_index ob) \<and> ob_unstaged ob = Some (ob_index ob \<noteq> ob_worktree_entry ob) \<and>
     (ob_state ob \<in> {FsClean, FsUnstaged} \<longleftrightarrow> ob_head ob = ob_index ob) \<and>
     (ob_state ob \<in> {FsClean, FsStaged} \<longleftrightarrow> ob_index ob = ob_worktree_entry ob)"

definition not_compared :: "file_observation \<Rightarrow> bool" where
  "not_compared ob \<longleftrightarrow> ob_staged ob = None \<and> ob_unstaged ob = None \<and> ob_head_to_index ob = None \<and> ob_index_to_worktree ob = None"

definition stages_well :: "file_observation \<Rightarrow> bool" where
  "stages_well ob \<longleftrightarrow> sorted (map ist_stage (ob_index_stages ob)) \<and>
     ob_index ob = map_option ist_identity (find (\<lambda>st. ist_stage st = 0) (ob_index_stages ob)) \<and>
     (ob_state ob = FsUnmerged \<longrightarrow> ob_index_stages ob \<noteq> [] \<and> ob_index ob = None) \<and>
     (ob_index_stages ob \<noteq> [] \<and> ob_index ob = None \<longrightarrow> ob_state ob = FsUnmerged \<or> (\<exists>u. ob_state ob = FsUnsupported u)) \<and>
     (ob_state ob = FsUntracked \<longrightarrow> ob_head ob = None \<and> ob_index_stages ob = []) \<and>
     ob_state ob \<noteq> FsUnsupported WorktreeTypeUnavailable"

definition well_observed :: "file_observation \<Rightarrow> bool" where
  "well_observed ob \<longleftrightarrow> (if has_comparison (ob_state ob) then compared_well ob else not_compared ob) \<and> stages_well ob"

lemma compared_observation_well:
  "\<exists>ob. compared_observation repo path hs row index w = Some ob \<and> has_comparison (ob_state ob) \<and> compared_well ob \<and>
     ob_path ob = path \<and> ob_index_stages ob = pr_stages row \<and> ob_index ob = index \<and> ob_head ob = pr_head row"
proof -
  obtain a where a: "transition (pr_head row) index = Some a" using transition_total by fast
  obtain b where b: "transition index w = Some b" using transition_total by fast
  have "a = TrUnchanged \<longleftrightarrow> pr_head row = index" "b = TrUnchanged \<longleftrightarrow> index = w"
    using transition_unchanged a b by (metis option.inject)+
  then show ?thesis using a b
    by (cases "a = TrUnchanged"; cases "b = TrUnchanged")
      (simp_all add: compared_observation_def has_comparison_def compared_well_def Let_def)
qed

lemma classify_row_well:
  assumes "sorted (map ist_stage (pr_stages row))"
  shows "\<exists>ob. classify_row repo hs path row worktree = Some ob \<and> well_observed ob \<and> ob_path ob = path"
proof -
  let ?index = "stage_zero row"
  have exceptional: "well_observed (exception_observation repo path hs row w st) \<and> ob_path (exception_observation repo path hs row w st) = path"
    if "\<not> has_comparison st" "st = FsUnmerged \<longrightarrow> pr_stages row \<noteq> [] \<and> ?index = None"
      "pr_stages row \<noteq> [] \<and> ?index = None \<longrightarrow> st = FsUnmerged \<or> (\<exists>u. st = FsUnsupported u)"
      "st \<noteq> FsUntracked" "st \<noteq> FsUnsupported WorktreeTypeUnavailable" for w st
    using that assms by (simp add: well_observed_def not_compared_def stages_well_def exception_observation_def stage_zero_def)
  have untracked: "well_observed (untracked_observation repo path hs w) \<and> ob_path (untracked_observation repo path hs w) = path" for w
    by (simp add: well_observed_def not_compared_def stages_well_def untracked_observation_def has_comparison_def)
  have compared: "\<exists>ob. compared_observation repo path hs row ?index w = Some ob \<and> well_observed ob \<and> ob_path ob = path"
    if "\<not> (pr_stages row \<noteq> [] \<and> ?index = None)" for w
  proof -
    obtain ob where ob: "compared_observation repo path hs row ?index w = Some ob" "has_comparison (ob_state ob)" "compared_well ob"
      "ob_path ob = path" "ob_index_stages ob = pr_stages row" "ob_index ob = ?index" "ob_head ob = pr_head row"
      using compared_observation_well by blast
    have "stages_well ob" using ob that assms by (auto simp: stages_well_def stage_zero_def has_comparison_def)
    then show ?thesis using ob by (auto simp: well_observed_def)
  qed
  show ?thesis
  proof (cases worktree)
    case (Inl e)
    then show ?thesis using exceptional by (simp add: classify_row_def has_comparison_def)
  next
    case (Inr w)
    consider "pr_stages row \<noteq> [] \<and> ?index = None" | "\<not> (pr_stages row \<noteq> [] \<and> ?index = None)" by blast
    then show ?thesis
    proof cases
      case 1
      then show ?thesis using Inr exceptional by (simp add: classify_row_def has_comparison_def)
    next
      case 2
      then show ?thesis using Inr exceptional untracked compared [OF 2] by (auto simp: classify_row_def has_comparison_def Let_def)
    qed
  qed
qed

subsection \<open>A call\<close>

lemma io_collect_Ok:
  "io_collect f xs s = (Inr ys, t) \<Longrightarrow> list_all2 (\<lambda>x y. \<exists>u v. f x u = (Inr y, v)) xs ys"
proof (induction xs arbitrary: s ys)
  case (Cons x xs)
  then show ?case by (auto simp: io_bind_eq_Ok)
qed simp

lemma enter_wf: "bt_wf rows \<Longrightarrow> bt_wf (enter f path rows)"
  by (simp add: enter_def bt_update_def)

lemma fold_enter_wf: "(\<And>x rows. bt_wf rows \<Longrightarrow> bt_wf (g x rows)) \<Longrightarrow> bt_wf rows \<Longrightarrow> bt_wf (fold g xs rows)"
  by (induction xs arbitrary: rows) auto

lemma gather_rows_wf: "bt_wf (gather_rows heads stages skipped intended untracked)"
  unfolding gather_rows_def Let_def by (intro fold_enter_wf) (auto intro: enter_wf)

lemma read_rows_wf: "read_rows E repo query s = (Inr (hs, rows), t) \<Longrightarrow> bt_wf rows"
  by (auto simp: read_rows_def Let_def io_bind_eq_Ok gather_rows_wf split: prod.splits)

lemma observe_row_well:
  assumes "observe_row E repo hs gitlinks (path, row) s = (Inr x, t)"
  shows "\<exists>ob. x = Some ob \<and> well_observed ob \<and> ob_path ob = path"
proof -
  let ?row = "row\<lparr>pr_stages := sort_key ist_stage (pr_stages row)\<rparr>"
  obtain worktree where x: "x = classify_row repo hs path ?row worktree"
    using assms by (auto simp: observe_row_def Let_def io_bind_eq_Ok)
  show ?thesis unfolding x by (rule classify_row_well) simp
qed

lemma observe_all_well:
  assumes "observe_all E repo query s = (Inr obs, t)"
  shows "None \<notin> set obs \<and> sorted_wrt (<) (map (\<lambda>x. ob_path (the x)) obs) \<and> (\<forall>x \<in> set obs. well_observed (the x))"
proof -
  obtain hs rows gitlinks u v where rows: "read_rows E repo query s = (Inr (hs, rows), u)"
    and collect: "io_collect (observe_row E repo hs gitlinks) rows v = (Inr obs, t)"
    using assms by (auto simp: observe_all_def io_bind_eq_Ok split: prod.splits)
  have row: "\<exists>ob. x = Some ob \<and> well_observed ob \<and> ob_path ob = fst r"
    if "\<exists>u v. observe_row E repo hs gitlinks r u = (Inr x, v)" for r x
    using that observe_row_well by (metis prod.collapse)
  have all: "list_all2 (\<lambda>r x. \<exists>ob. x = Some ob \<and> well_observed ob \<and> ob_path ob = fst r) rows obs"
    by (rule list_all2_mono [OF io_collect_Ok [OF collect]]) (rule row)
  then have "map (\<lambda>x. ob_path (the x)) obs = map fst rows"
    by (induction rule: list_all2_induct) auto
  moreover have "None \<notin> set obs \<and> (\<forall>x \<in> set obs. well_observed (the x))"
    using all by (induction rule: list_all2_induct) auto
  ultimately show ?thesis using read_rows_wf [OF rows] by (simp add: bt_wf_def)
qed

subsection \<open>What reading the rows keeps\<close>

text \<open>A predicate that does not look at the metrics.\<close>

definition metric_blind :: "(('t, 'w) status_state \<Rightarrow> bool) \<Rightarrow> bool" where
  "metric_blind J \<longleftrightarrow> (\<forall>s m. J s \<longrightarrow> J (s\<lparr>st_metrics := m\<rparr>))"

lemma metric_blind [simp]: "metric_blind (\<lambda>s. st_cache s = c)" "metric_blind (\<lambda>s. \<not> st_panicked s)"
  by (simp_all add: metric_blind_def)

lemma count_cache: "count f s = (r, t) \<Longrightarrow> st_cache t = st_cache s"
  by (auto simp: count_def)

lemma keeps_count: "metric_blind J \<Longrightarrow> io_keeps J (count f)"
  by (simp add: io_keeps_def count_def metric_blind_def)

lemma keeps_git: "metric_blind J \<Longrightarrow> io_keeps J (status_git E args ps)"
  unfolding status_git_def by (intro io_keeps_bind keeps_count io_keeps_read)

lemma keeps_out: "metric_blind J \<Longrightarrow> io_keeps J (status_out E refusal args ps)"
  unfolding status_out_def by (auto intro!: io_keeps_bind keeps_git)

lemma keeps_read_rows: "metric_blind J \<Longrightarrow> io_keeps J (read_rows E repo query)"
  unfolding read_rows_def Let_def read_head_state_def head_entries_def index_entries_def skip_worktree_paths_def
    intent_to_add_paths_def untracked_paths_def
  by (auto intro!: io_keeps_bind keeps_git keeps_out io_keeps_read io_keeps_ok split: head_state.split)

lemma keeps_gitlinks: "metric_blind J \<Longrightarrow> io_keeps J (gitlink_worktrees E)"
  unfolding gitlink_worktrees_def by (auto intro!: io_keeps_bind keeps_git io_keeps_read io_keeps_ok)

subsection \<open>The hash worker is open when it is asked\<close>

lemma hash_path_calm:
  "sc_hasher (st_cache s) \<noteq> None \<Longrightarrow> \<not> st_panicked s \<Longrightarrow> hash_path E path s = (r, t) \<Longrightarrow> \<not> st_panicked t"
  by (auto simp: hash_path_def split: prod.splits)

lemma hasher_open_calm:
  "hasher_open E s = (r, t) \<Longrightarrow> \<not> st_panicked s \<Longrightarrow> \<not> st_panicked t \<and> (r = Inr () \<longrightarrow> sc_hasher (st_cache t) \<noteq> None)"
  by (auto simp: hasher_open_def io_bind_def count_def split: option.splits)

lemma hash_content_calm: "io_keeps (\<lambda>s. \<not> st_panicked s) (hash_content E repo path m)"
proof -
  have "\<not> st_panicked t" if plain: "wm_kind m = GkFile" and calm: "\<not> st_panicked s"
    and run: "hash_content E repo path m s = (r, t)" for s r t
  proof (cases "sc_hasher (st_cache s)")
    case None
    obtain x u where u: "hasher_open E s = (x, u)" by force
    have "hash_path E path u = (r, t)" if "x = Inr ()"
      using u run plain None that by (simp add: hash_content_def Let_def io_bind_def)
    moreover have "t = u" if "x = Inl e" for e
      using u run plain None that by (simp add: hash_content_def Let_def io_bind_def)
    ultimately show ?thesis using hasher_open_calm [OF u calm] hash_path_calm [of u E path r t] by (cases x) auto
  next
    case (Some w)
    then show ?thesis using hash_path_calm [of s E path r t] calm run plain
      by (simp add: hash_content_def Let_def io_bind_def)
  qed
  moreover have "io_keeps (\<lambda>s. \<not> st_panicked s) (hash_content E repo path m)" if "wm_kind m \<noteq> GkFile"
    using that unfolding hash_content_def Let_def hash_symlink_def
    by (cases "wm_kind m") (auto intro!: io_keeps_bind io_keeps_read keeps_count simp: io_keeps_def [of _ "\<lambda>s. (Inr (), _ s)"])
  ultimately show ?thesis by (cases "wm_kind m = GkFile") (simp_all add: io_keeps_def, metis prod.collapse)
qed

lemma hash_entry_calm: "io_keeps (\<lambda>s. \<not> st_panicked s) (hash_entry E repo path h i m)"
  unfolding hash_entry_def
  by (intro io_keeps_bind keeps_count hash_content_calm) (auto simp: io_keeps_def count_def Let_def)

lemma worktree_identity_calm: "io_keeps (\<lambda>s. \<not> st_panicked s) (worktree_identity E repo path h i)"
proof -
  have keeps: "io_keeps (\<lambda>s. \<not> st_panicked s) (\<lambda>s. case cache_hit (st_cache s) path h i m of
      Some c \<Rightarrow> (Inr (cwt_entry c), s\<lparr>st_metrics := (st_metrics s)\<lparr>mt_cache_hits := mt_cache_hits (st_metrics s) + 1\<rparr>\<rparr>)
    | None \<Rightarrow> hash_entry E repo path h i m s)" for m
    using hash_entry_calm [of E repo path h i m] by (auto simp: io_keeps_def split: option.splits)
  show ?thesis
  proof (cases "sv_stat E (join_path (join_path [] (repo_root repo)) path)")
    case (Inl e)
    then show ?thesis by (simp add: worktree_identity_def io_keeps_ok io_keeps_err)
  next
    case (Inr meta)
    show ?thesis unfolding worktree_identity_def Let_def Inr sum.case
      by (rule io_keeps_bind [OF io_keeps_read keeps])
  qed
qed

lemma observe_row_calm: "io_keeps (\<lambda>s. \<not> st_panicked s) (observe_row E repo hs gitlinks row)"
proof -
  have "io_keeps (\<lambda>s. \<not> st_panicked s) (row_worktree E repo gitlinks path row)" for path row
    using worktree_identity_calm [of E repo path "pr_head row" "stage_zero row"]
    by (auto simp: row_worktree_def io_keeps_def split: prod.splits if_splits)
  then show ?thesis unfolding observe_row_def Let_def
    by (cases row) (auto intro!: io_keeps_bind io_keeps_read io_keeps_ok)
qed

lemma io_collect_calm: "(\<And>x. io_keeps J (f x)) \<Longrightarrow> io_keeps J (io_collect f xs)"
  by (induction xs) (auto intro!: io_keeps_bind io_keeps_ok)

lemma observe_all_calm: "io_keeps (\<lambda>s. \<not> st_panicked s) (observe_all E repo query)"
  unfolding observe_all_def
  by (auto intro!: io_keeps_bind keeps_read_rows keeps_gitlinks io_collect_calm observe_row_calm io_keeps_ok)

lemma tracked_state_obs:
  "tracked_state E repo query cache = (Some (Inr result), cache') \<Longrightarrow>
    \<exists>obs t. observe_all E repo query \<lparr>st_cache = cache, st_metrics = no_metrics, st_panicked = False\<rparr> = (Inr obs, t) \<and>
      tr_observations result = map the obs \<and> None \<notin> set obs \<and> cache' = st_cache t"
  by (auto simp: tracked_state_def split: prod.splits sum.splits if_splits)

text \<open>C34 -- Every observation is well formed: it never panics, the paths ascend, a compared row has
  both transitions, the two flags and the state that its own HEAD, index and worktree entries
  give, every other row has none of them, an index without a stage zero is unmerged or
  unsupported, and no row has the state reserved for an unavailable worktree type.\<close>

theorem tracked_state_well_formed:
  "fst (tracked_state E repo query cache) \<noteq> None \<and>
   (\<forall>result. fst (tracked_state E repo query cache) = Some (Inr result) \<longrightarrow>
      sorted_wrt (<) (map ob_path (tr_observations result)) \<and> (\<forall>ob \<in> set (tr_observations result). well_observed ob))"
proof (intro conjI allI impI)
  show "fst (tracked_state E repo query cache) \<noteq> None"
    using observe_all_well [of E repo query "\<lparr>st_cache = cache, st_metrics = no_metrics, st_panicked = False\<rparr>"]
      io_keepsD [OF observe_all_calm, of "\<lparr>st_cache = cache, st_metrics = no_metrics, st_panicked = False\<rparr>"]
    by (auto simp: tracked_state_def split: prod.splits sum.splits)
next
  fix result
  assume "fst (tracked_state E repo query cache) = Some (Inr result)"
  then obtain cache' where "tracked_state E repo query cache = (Some (Inr result), cache')" by (metis prod.collapse)
  then obtain obs t where obs: "observe_all E repo query \<lparr>st_cache = cache, st_metrics = no_metrics, st_panicked = False\<rparr> = (Inr obs, t)"
    "tr_observations result = map the obs" using tracked_state_obs by blast
  show "sorted_wrt (<) (map ob_path (tr_observations result))" "\<forall>ob \<in> set (tr_observations result). well_observed ob"
    using observe_all_well [OF obs(1)] obs(2) by (simp_all add: comp_def)
qed

subsection \<open>A hash worker that has ended\<close>

definition plain_file :: "('t, 'w) status_world \<Rightarrow> repository \<Rightarrow> repo_path \<Rightarrow> bool" where
  "plain_file E repo path \<longleftrightarrow> (case sv_stat E (join_path (join_path [] (repo_root repo)) path) of
     Inl e \<Rightarrow> False | Inr m \<Rightarrow> fm_type m = TypeFile)"

definition ended :: "('t, 'w) status_world \<Rightarrow> ('w \<Rightarrow> bool) \<Rightarrow> bool" where
  "ended E gone \<longleftrightarrow> (\<forall>w p. gone w \<longrightarrow> (fst (sv_ask E w p) = Inr [] \<or> (\<exists>e. fst (sv_ask E w p) = Inl e)) \<and> gone (snd (sv_ask E w p)))"

definition hasher_gone :: "('w \<Rightarrow> bool) \<Rightarrow> ('t, 'w) status_cache \<Rightarrow> bool" where
  "hasher_gone gone cache \<longleftrightarrow> (\<exists>w. sc_hasher cache = Some w \<and> gone w)"

text \<open>The plain files among \<open>ps\<close> stay out of the cache.\<close>

definition lost :: "('t, 'w) status_world \<Rightarrow> repository \<Rightarrow> ('w \<Rightarrow> bool) \<Rightarrow> repo_path set \<Rightarrow> ('t, 'w) status_cache \<Rightarrow> bool" where
  "lost E repo gone ps cache \<longleftrightarrow> hasher_gone gone cache \<and>
     (\<forall>p \<in> ps. plain_file E repo p \<longrightarrow> bt_get (sc_entries cache) p = None)"

lemma hash_path_gone:
  assumes "ended E gone" "hasher_gone gone (st_cache s)" "hash_path E path s = (r, t)"
  shows "(\<exists>e. r = Inl e) \<and> hasher_gone gone (st_cache t) \<and> sc_entries (st_cache t) = sc_entries (st_cache s)"
proof -
  obtain w where w: "sc_hasher (st_cache s) = Some w" "gone w" using assms(2) by (auto simp: hasher_gone_def)
  obtain a v where ask: "sv_ask E w path = (a, v)" by force
  then have v: "gone v" "a = Inr [] \<or> (\<exists>e. a = Inl e)" using assms(1) w(2) unfolding ended_def by (metis fst_conv snd_conv)+
  then show ?thesis using assms(3) w(1) ask by (auto simp: hash_path_def hasher_gone_def)
qed

lemma hash_symlink_entries:
  "hash_symlink E target s = (r, t) \<Longrightarrow> sc_entries (st_cache t) = sc_entries (st_cache s) \<and> sc_hasher (st_cache t) = sc_hasher (st_cache s)"
  by (auto simp: hash_symlink_def io_bind_def count_def split: prod.splits sum.splits if_splits)

lemma hash_content_gone:
  assumes "ended E gone" "hasher_gone gone (st_cache s)" "hash_content E repo path m s = (r, t)"
  shows "hasher_gone gone (st_cache t) \<and> sc_entries (st_cache t) = sc_entries (st_cache s) \<and> (wm_kind m = GkFile \<longrightarrow> (\<exists>e. r = Inl e))"
proof (cases "wm_kind m")
  case GkFile
  obtain w where "sc_hasher (st_cache s) = Some w" using assms(2) by (auto simp: hasher_gone_def)
  then have "hash_path E path s = (r, t)" using assms(3) GkFile by (simp add: hash_content_def Let_def io_bind_def)
  then show ?thesis using hash_path_gone [OF assms(1,2)] by blast
next
  case GkSymlink
  then show ?thesis using assms(2,3)
    by (auto simp: hash_content_def Let_def io_bind_def hasher_gone_def split: sum.splits dest!: hash_symlink_entries)
qed (use assms in \<open>auto simp: hash_content_def Let_def\<close>)

lemma metadata_kind: "metadata_identity meta = Inr m \<Longrightarrow> wm_kind m = GkFile \<longleftrightarrow> fm_type meta = TypeFile"
  by (auto simp: metadata_identity_def split: file_type.splits)

lemma hash_entry_lost:
  assumes "ended E gone" "lost E repo gone ps (st_cache s)" "wm_kind m = GkFile \<longleftrightarrow> plain_file E repo path"
    "hash_entry E repo path h i m s = (r, t)"
  shows "lost E repo gone ps (st_cache t) \<and> (plain_file E repo path \<longrightarrow> (\<exists>e. r = Inl e))"
proof -
  let ?s = "s\<lparr>st_metrics := (st_metrics s)\<lparr>mt_cache_misses := mt_cache_misses (st_metrics s) + 1\<rparr>\<rparr>"
  obtain x u where content: "hash_content E repo path m ?s = (x, u)" by force
  have gone: "hasher_gone gone (st_cache ?s)" using assms(2) by (simp add: lost_def)
  note hashed = hash_content_gone [OF assms(1) gone content]
  show ?thesis
  proof (cases x)
    case (Inl e)
    then have "r = Inl e" "t = u" using assms(4) content by (auto simp: hash_entry_def io_bind_def count_def)
    then show ?thesis using hashed assms(2) by (auto simp: lost_def)
  next
    case (Inr oid)
    then have "wm_kind m \<noteq> GkFile" using hashed by auto
    then have "st_cache t = (st_cache u)\<lparr>sc_entries := bt_insert path
        \<lparr>cwt_head = h, cwt_index = i, cwt_metadata = Some m, cwt_entry = Some \<lparr>ei_kind = wm_kind m, ei_mode = wm_mode m,
          ei_content = GitBlob oid\<rparr>\<rparr> (sc_entries (st_cache u))\<rparr>" "\<not> plain_file E repo path"
      using assms(3,4) content Inr by (auto simp: hash_entry_def io_bind_def count_def Let_def)
    then show ?thesis using hashed assms(2) by (auto simp: lost_def hasher_gone_def)
  qed
qed

lemma worktree_identity_lost:
  assumes "ended E gone" "lost E repo gone ps (st_cache s)" "worktree_identity E repo path h i s = (r, t)"
  shows "lost E repo gone ps (st_cache t) \<and> (path \<in> ps \<and> plain_file E repo path \<longrightarrow> (\<exists>e. r = Inl e))"
proof (cases "sv_stat E (join_path (join_path [] (repo_root repo)) path)")
  case (Inl e)
  then show ?thesis using assms(2,3) by (auto simp: worktree_identity_def plain_file_def split: if_splits)
next
  case meta: (Inr meta)
  show ?thesis
  proof (cases "metadata_identity meta")
    case (Inl e)
    then have "r = Inl e" "t = s" using assms(3) meta by (auto simp: worktree_identity_def io_bind_def)
    then show ?thesis using assms(2) by simp
  next
    case (Inr m)
    have kind: "wm_kind m = GkFile \<longleftrightarrow> plain_file E repo path" using metadata_kind [OF Inr] meta by (simp add: plain_file_def)
    show ?thesis
    proof (cases "cache_hit (st_cache s) path h i m")
      case None
      then have "hash_entry E repo path h i m s = (r, t)" using assms(3) meta Inr by (simp add: worktree_identity_def io_bind_def)
      then show ?thesis using hash_entry_lost [OF assms(1,2) kind] by blast
    next
      case (Some c)
      then have "bt_get (sc_entries (st_cache s)) path \<noteq> None" by (auto simp: cache_hit_def split: option.splits)
      then have "\<not> (path \<in> ps \<and> plain_file E repo path)" using assms(2) by (auto simp: lost_def)
      moreover have "st_cache t = st_cache s" using assms(3) meta Inr Some by (auto simp: worktree_identity_def io_bind_def)
      ultimately show ?thesis using assms(2) by auto
    qed
  qed
qed

lemma io_collect_keeps:
  assumes "\<And>x u y v. x \<in> set xs \<Longrightarrow> J u \<Longrightarrow> f x u = (Inr y, v) \<Longrightarrow> J v \<and> Q x y"
  shows "J s \<Longrightarrow> io_collect f xs s = (Inr ys, t) \<Longrightarrow> J t \<and> list_all2 Q xs ys"
  using assms
proof (induction xs arbitrary: s ys)
  case (Cons x xs)
  obtain y u zs where step: "f x s = (Inr y, u)" "io_collect f xs u = (Inr zs, t)" "ys = y # zs"
    using Cons.prems(2) by (auto simp: io_bind_eq_Ok)
  have "J u \<and> Q x y" using Cons.prems(3) [OF _ Cons.prems(1) step(1)] by simp
  moreover have "J t \<and> list_all2 Q xs zs"
    by (rule Cons.IH [OF conjunct1 [OF calculation] step(2)]) (use Cons.prems(3) in auto)
  ultimately show ?case using step(3) by simp
qed simp

definition no_gitlink :: "file_observation \<Rightarrow> bool" where
  "no_gitlink ob \<longleftrightarrow> (case ob_head ob of None \<Rightarrow> True | Some e \<Rightarrow> ei_kind e \<noteq> GkGitlink) \<and>
     (\<forall>st \<in> set (ob_index_stages ob). ei_kind (ist_identity st) \<noteq> GkGitlink)"

definition given_up :: "file_observation \<Rightarrow> bool" where
  "given_up ob \<longleftrightarrow> ob_state ob \<in> {FsUnsupported WorktreeContentUnavailable, FsSparse, FsIntentToAdd, FsUnmerged}"

lemma observe_row_lost:
  assumes "ended E gone" "lost E repo gone ps (st_cache s)"
    and observe: "observe_row E repo hs gitlinks (path, row) s = (Inr (Some ob), t)"
  shows "lost E repo gone ps (st_cache t) \<and> (path \<in> ps \<and> plain_file E repo path \<and> no_gitlink ob \<longrightarrow> given_up ob)"
proof -
  let ?row = "row\<lparr>pr_stages := sort_key ist_stage (pr_stages row)\<rparr>"
  obtain worktree u where row: "row_worktree E repo gitlinks path ?row u = (Inr worktree, t)" "st_cache u = st_cache s"
    and ob: "classify_row repo hs path ?row worktree = Some ob"
    using observe by (auto simp: observe_row_def Let_def io_bind_eq_Ok)
  have lost: "lost E repo gone ps (st_cache u)" using assms(2) row(2) by simp
  show ?thesis
  proof (cases "pr_skip_worktree ?row")
    case True
    then have "t = u" "worktree = Inr None" using row(1) by (simp_all add: row_worktree_def)
    then show ?thesis using lost ob True
      by (auto simp: classify_row_def exception_observation_def given_up_def Let_def split: if_splits)
  next
    case noskip: False
    show ?thesis
    proof (cases "row_gitlink ?row")
      case True
      then have "t = u" using row(1) noskip by (simp add: row_worktree_def)
      moreover have "\<not> no_gitlink ob" if "ob_head ob = pr_head ?row" "ob_index_stages ob = pr_stages ?row"
        using that True by (auto simp: no_gitlink_def row_gitlink_def list_ex_iff split: option.splits)
      moreover have "ob_head ob = pr_head ?row \<and> ob_index_stages ob = pr_stages ?row"
        using ob compared_observation_well
        by (auto simp: classify_row_def exception_observation_def untracked_observation_def compared_observation_def Let_def
            split: sum.splits if_splits option.splits)
      ultimately show ?thesis using lost by blast
    next
      case False
      then obtain r where r: "worktree_identity E repo path (pr_head ?row) (stage_zero ?row) u = (r, t)" "worktree = r"
        using row(1) noskip by (auto simp: row_worktree_def split: prod.splits)
      note identity = worktree_identity_lost [OF assms(1) lost r(1)]
      show ?thesis using identity ob False r(2)
        by (auto simp: classify_row_def exception_observation_def given_up_def)
    qed
  qed
qed

text \<open>C35 -- A hash worker that has ended is never replaced: once \<open>git hash-object\<close> has exited, in this
  call and in every later one on the same root, no plain file outside the cache is compared
  any more; it is reported as unavailable (or sparse, intended or unmerged), and stays outside
  the cache. Rows whose HEAD or index entry is a gitlink are left out.\<close>

theorem hash_worker_not_replaced:
  assumes "ended E gone" "hasher_gone gone cache"
    and "tracked_state E repo query cache = (Some (Inr result), cache')"
  shows "hasher_gone gone cache' \<and>
    (\<forall>p. plain_file E repo p \<and> bt_get (sc_entries cache) p = None \<longrightarrow> bt_get (sc_entries cache') p = None) \<and>
    (\<forall>ob \<in> set (tr_observations result). plain_file E repo (ob_path ob) \<and> bt_get (sc_entries cache) (ob_path ob) = None \<and>
      no_gitlink ob \<longrightarrow> given_up ob)"
proof -
  let ?ps = "{p. bt_get (sc_entries cache) p = None}"
  let ?s = "\<lparr>st_cache = cache, st_metrics = no_metrics, st_panicked = False\<rparr>"
  obtain obs t where obs: "observe_all E repo query ?s = (Inr obs, t)" "tr_observations result = map the obs" "None \<notin> set obs"
    "cache' = st_cache t"
    using tracked_state_obs [OF assms(3)] by blast
  obtain hs rows gitlinks u v where rows: "read_rows E repo query ?s = (Inr (hs, rows), u)"
    and links: "(if list_ex (\<lambda>(path, row). row_gitlink row) rows then gitlink_worktrees E else io_ok []) u = (Inr gitlinks, v)"
    and collect: "io_collect (observe_row E repo hs gitlinks) rows v = (Inr obs, t)"
    using obs(1) unfolding observe_all_def by (auto simp: io_bind_eq_Ok split: prod.splits)
  have u: "st_cache u = cache" using io_keepsD [OF keeps_read_rows _ rows, of "\<lambda>s. st_cache s = cache"] by simp
  have "io_keeps (\<lambda>s. st_cache s = cache) (if list_ex (\<lambda>(path, row). row_gitlink row) rows then gitlink_worktrees E else io_ok [])"
    by (simp add: keeps_gitlinks io_keeps_ok)
  from io_keepsD [OF this u links] have v: "st_cache v = cache" .
  have start: "lost E repo gone ?ps (st_cache v)" using v assms(2) by (auto simp: lost_def)
  let ?Q = "\<lambda>r x. x \<noteq> None \<longrightarrow> (fst r \<in> ?ps \<and> plain_file E repo (fst r) \<and> no_gitlink (the x) \<longrightarrow> given_up (the x)) \<and> ob_path (the x) = fst r"
  have "lost E repo gone ?ps (st_cache t) \<and> list_all2 ?Q rows obs"
  proof (rule io_collect_keeps [where J = "\<lambda>s. lost E repo gone ?ps (st_cache s)", OF _ start collect])
    fix r a x b
    assume r: "r \<in> set rows" "lost E repo gone ?ps (st_cache a)" "observe_row E repo hs gitlinks r a = (Inr x, b)"
    obtain path row where p: "r = (path, row)" by force
    obtain ob where ob: "x = Some ob" "ob_path ob = path" using observe_row_well r(3) p by blast
    show "lost E repo gone ?ps (st_cache b) \<and> ?Q r x"
      using observe_row_lost [OF assms(1) r(2), of hs gitlinks path row ob b] r(3) p ob by auto
  qed
  then have t: "lost E repo gone ?ps (st_cache t)" and all: "list_all2 ?Q rows obs" by blast+
  have "\<forall>x \<in> set obs. plain_file E repo (ob_path (the x)) \<and> bt_get (sc_entries cache) (ob_path (the x)) = None \<and>
      no_gitlink (the x) \<longrightarrow> given_up (the x)"
    using all obs(3) by (induction rule: list_all2_induct) auto
  then show ?thesis using t obs(2,4) by (auto simp: lost_def)
qed

end
