(* ===== verification/TrackedSamples.thy ===== *)
theory TrackedSamples
  imports TrackedProofs
begin

text \<open>
  Two checkouts: one where Git cannot read the first of two files, and one where a file added
  with \<open>git add -N\<close> has a name Git quotes.
\<close>

subsection \<open>A file Git cannot read\<close>

definition tracked_repo :: repository where
  "tracked_repo = \<lparr>repo_root = ''/t'', repo_identity = ''r'', repo_worktree = ''w''\<rparr>"

definition answer :: "int \<Rightarrow> bytes \<Rightarrow> string + git_output" where
  "answer code out = Inr \<lparr>go_code = Some code, go_stdout = out, go_stderr = []\<rparr>"

definition two_files_git :: git where
  "two_files_git args b =
     (if take 1 args = [''rev-parse''] then answer 1 []
      else if args = [''ls-files'', ''--stage'', ''-z'']
      then answer 0 (bytes_of (''100644 e1 0'' @ [tab] @ ''a'' @ [nul] @ ''100644 e1 0'' @ [tab] @ ''b'' @ [nul]))
      else answer 0 [])"

text \<open>The worker is alive or not; \<open>a\<close> ends it.\<close>

definition two_files :: "(nat, bool) status_world" where
  "two_files = \<lparr>sv_git = two_files_git,
     sv_stat = (\<lambda>p. Inr \<lparr>fm_type = TypeFile, fm_modified = Some 5, fm_size = 1, fm_permissions = 0x1A4\<rparr>),
     sv_read_link = (\<lambda>p. Inl NotFound), sv_spawn = Some True,
     sv_ask = (\<lambda>alive path. if alive \<and> path \<noteq> ''a'' then (Inr (''e1'' @ [line_feed]), True) else (Inr [], False))\<rparr>"

definition all_tracked :: git_file_query where
  "all_tracked = \<lparr>gf_pathspecs = [], gf_untracked = UntrackedExclude\<rparr>"

definition after_one_call :: "(nat, bool) status_cache" where
  "after_one_call = snd (tracked_state two_files tracked_repo all_tracked empty_status_cache)"

definition observed_states :: "(string + tracked_result) option \<Rightarrow> (repo_path \<times> file_state) list" where
  "observed_states r = (case r of Some (Inr t) \<Rightarrow> map (\<lambda>ob. (ob_path ob, ob_state ob)) (tr_observations t) | _ \<Rightarrow> [])"

text \<open>Once \<open>a\<close> can be read again.\<close>

definition repaired :: "(nat, bool) status_world" where
  "repaired = two_files\<lparr>sv_ask := (\<lambda>alive path. if alive then (Inr (''e1'' @ [line_feed]), True) else (Inr [], False))\<rparr>"

lemma repaired_fresh:
  "observed_states (fst (tracked_state repaired tracked_repo all_tracked empty_status_cache)) = [(''a'', FsStaged), (''b'', FsStaged)]"
  by code_simp

lemma repaired_later:
  "observed_states (fst (tracked_state repaired tracked_repo all_tracked after_one_call)) =
    [(''a'', FsUnsupported WorktreeContentUnavailable), (''b'', FsUnsupported WorktreeContentUnavailable)]"
  by code_simp

lemma worker_gone: "hasher_gone Not after_one_call"
proof -
  have "sc_hasher after_one_call = Some False" by code_simp
  then show ?thesis unfolding hasher_gone_def by blast
qed

theorem hash_worker_not_replaced_witness:
  "hasher_gone Not (snd (tracked_state repaired tracked_repo all_tracked after_one_call)) \<and>
   observed_states (fst (tracked_state repaired tracked_repo all_tracked after_one_call)) =
     [(''a'', FsUnsupported WorktreeContentUnavailable), (''b'', FsUnsupported WorktreeContentUnavailable)] \<and>
   observed_states (fst (tracked_state repaired tracked_repo all_tracked empty_status_cache)) = [(''a'', FsStaged), (''b'', FsStaged)]"
proof (intro conjI repaired_later repaired_fresh)
  let ?call = "tracked_state repaired tracked_repo all_tracked after_one_call"
  have "fst ?call = Some (Inr result) \<or> observed_states (fst ?call) = []" if "\<And>r. fst ?call = Some (Inr r) \<Longrightarrow> r = result" for result
    using that by (auto simp: observed_states_def split: option.splits sum.splits)
  then obtain result where "fst ?call = Some (Inr result)"
    using repaired_later by (auto simp: observed_states_def split: option.splits sum.splits)
  then have "?call = (Some (Inr result), snd ?call)" by (simp add: prod_eq_iff)
  moreover have "ended repaired Not" by (simp add: ended_def repaired_def)
  ultimately show "hasher_gone Not (snd ?call)"
    using hash_worker_not_replaced [OF _ worker_gone] by blast
qed

theorem tracked_state_well_formed_witness:
  "\<exists>result. fst (tracked_state repaired tracked_repo all_tracked empty_status_cache) = Some (Inr result) \<and>
     sorted_wrt (<) (map ob_path (tr_observations result)) \<and> list_all well_observed (tr_observations result)"
proof -
  obtain result where "fst (tracked_state repaired tracked_repo all_tracked empty_status_cache) = Some (Inr result)"
    using repaired_fresh by (auto simp: observed_states_def split: option.splits sum.splits)
  then show ?thesis using tracked_state_well_formed [of repaired tracked_repo all_tracked empty_status_cache]
    by (auto simp: list_all_iff)
qed

subsection \<open>A name Git quotes\<close>

text \<open>\<open>ls-files --debug\<close> without \<open>-z\<close> quotes a name outside ASCII; with \<open>-z\<close> it does not.\<close>

definition accented :: string where
  "accented = [char_of (195 :: nat), char_of (169 :: nat)]"

definition quoted :: string where
  "quoted = [quote, backslash] @ ''303'' @ [backslash] @ ''251'' @ [quote]"

definition intended_git :: git where
  "intended_git args b =
     (if take 1 args = [''rev-parse''] then answer 1 []
      else if args = [''ls-files'', ''--stage'', ''-z'']
      then answer 0 (bytes_of (''100644 e6 0'' @ [tab] @ accented @ [nul]))
      else if args = [''ls-files'', ''--stage'', ''--debug'']
      then answer 0 (bytes_of (''100644 e6 0'' @ [tab] @ quoted @ [line_feed] @ ''  flags: 20000000'' @ [line_feed]))
      else answer 0 [])"

definition intended :: "(nat, bool) status_world" where
  "intended = two_files\<lparr>sv_git := intended_git,
     sv_stat := (\<lambda>p. if last p = accented then Inr \<lparr>fm_type = TypeFile, fm_modified = Some 5, fm_size = 1, fm_permissions = 0x1A4\<rparr>
       else Inl NotFound)\<rparr>"

theorem intent_to_add_misnamed:
  "observed_states (fst (tracked_state intended tracked_repo all_tracked empty_status_cache)) =
    [(quoted, FsIntentToAdd), (accented, FsStagedAndUnstaged)]"
  by code_simp

end
