(* ===== verification/Mail.thy ===== *)
theory Mail
  imports Readers Repositories
begin

text \<open>
  Mail between lanes: envelopes, routes and delivery states, from \<open>boop-store/src/bus.rs\<close>,
  \<open>ident.rs\<close>, \<open>harness_id.rs\<close> and \<open>session.rs\<close>. A route keeps the fields that are persisted.
\<close>

subsection \<open>Kinds\<close>

datatype message_kind =
  MkRequest | MkResult | MkNote | MkDispatch | MkHail | MkAck | MkCompletion | MkYield | MkReparented
| MkRetrying | MkRetryBudgetExhausted | MkExitedWithoutCompletion | MkOpenFailed | MkHeadRewound
| MkCommit | MkPr | MkHarnessQuiet | MkHarnessActive | MkRetired | MkOther string

definition kind_words :: "(message_kind \<times> string) list" where
  "kind_words =
     [(MkRequest, ''request''), (MkResult, ''result''), (MkNote, ''note''), (MkDispatch, ''dispatch''),
      (MkHail, ''hail''), (MkAck, ''ack''), (MkCompletion, ''completion''), (MkYield, ''yield''),
      (MkReparented, ''reparented''), (MkRetrying, ''retrying''),
      (MkRetryBudgetExhausted, ''retry_budget_exhausted''),
      (MkExitedWithoutCompletion, ''exited_without_completion''), (MkOpenFailed, ''open_failed''),
      (MkHeadRewound, ''head_rewound''), (MkCommit, ''commit''), (MkPr, ''pr''),
      (MkHarnessQuiet, ''harness_quiet''), (MkHarnessActive, ''harness_active''), (MkRetired, ''retired'')]"

fun kind_str :: "message_kind \<Rightarrow> string" where
  "kind_str (MkOther value) = value"
| "kind_str k = the (map_of kind_words k)"

definition kind_from :: "string \<Rightarrow> message_kind" where
  "kind_from value =
     (case map_of (map (\<lambda>(k, w). (w, k)) kind_words) value of None \<Rightarrow> MkOther value | Some k \<Rightarrow> k)"

definition supervisor_row :: "message_kind \<Rightarrow> bool" where
  "supervisor_row k \<longleftrightarrow> k \<in> {MkResult, MkCompletion, MkYield, MkReparented, MkRetrying,
     MkRetryBudgetExhausted, MkExitedWithoutCompletion, MkOpenFailed, MkHeadRewound, MkCommit}"

definition lane_end_row :: "message_kind \<Rightarrow> bool" where
  "lane_end_row k \<longleftrightarrow> k \<in> {MkResult, MkCompletion, MkExitedWithoutCompletion, MkOpenFailed, MkRetryBudgetExhausted}"

definition lane_progress_row :: "message_kind \<Rightarrow> bool" where
  "lane_progress_row k \<longleftrightarrow> supervisor_row k \<and> \<not> lane_end_row k"

definition kind_commit_row :: "message_kind \<Rightarrow> bool" where
  "kind_commit_row k \<longleftrightarrow> k = MkCommit"

datatype route_kind = RkLane | RkCoordinator | RkNative | RkShell | RkOther string

fun route_kind_str :: "route_kind \<Rightarrow> string" where
  "route_kind_str RkLane = ''lane''"
| "route_kind_str RkCoordinator = ''coordinator''"
| "route_kind_str RkNative = ''native''"
| "route_kind_str RkShell = ''shell''"
| "route_kind_str (RkOther value) = value"

definition route_kind_from :: "string \<Rightarrow> route_kind" where
  "route_kind_from value =
     (if value = ''lane'' then RkLane else if value = ''coordinator'' then RkCoordinator
      else if value = ''native'' then RkNative else if value = ''shell'' then RkShell else RkOther value)"

datatype harness_id = HClaude | HCodex | HKimi | HOmp | HOpencode

fun harness_str :: "harness_id \<Rightarrow> string" where
  "harness_str HClaude = ''claude''"
| "harness_str HCodex = ''codex''"
| "harness_str HKimi = ''kimi''"
| "harness_str HOmp = ''omp''"
| "harness_str HOpencode = ''opencode''"

definition all_harnesses :: "harness_id list" where
  "all_harnesses = [HClaude, HCodex, HKimi, HOmp, HOpencode]"

text \<open>\<open>to_ascii_lowercase\<close>: only the letters of ASCII change.\<close>

definition ascii_lower :: "char \<Rightarrow> char" where
  "ascii_lower c = (let n = of_char c :: nat in if 65 \<le> n \<and> n \<le> 90 then char_of (n + 32) else c)"

definition harness_parse :: "string \<Rightarrow> harness_id option" where
  "harness_parse value = find (\<lambda>h. harness_str h = map ascii_lower (trim value)) all_harnesses"

subsection \<open>Delivery states\<close>

datatype delivery_state =
  DsAppended | DsClaimedBySupervisor | DsSubmittedToHarness | DsSteered | DsSteeringFailed
| DsAcceptedByHarness | DsRejectedByHarness | DsHeldForTurnBoundary | DsQueuedInHookInbox
| DsPastedIntoPane | DsHeldInMailbox | DsTurnStarted | DsTurnEnded | DsReplyAppended | DsNoReply
| DsParentDoorDelivered | DsParentDoorFailed | DsCooledOff | DsRouteDead

definition state_words :: "(delivery_state \<times> string) list" where
  "state_words =
     [(DsAppended, ''appended''), (DsClaimedBySupervisor, ''claimed-by-supervisor''),
      (DsSubmittedToHarness, ''submitted-to-harness''), (DsSteered, ''steered''),
      (DsSteeringFailed, ''steering-failed''), (DsAcceptedByHarness, ''accepted-by-harness''),
      (DsRejectedByHarness, ''rejected-by-harness''), (DsHeldForTurnBoundary, ''held-for-turn-boundary''),
      (DsQueuedInHookInbox, ''queued-in-hook-inbox''), (DsPastedIntoPane, ''pasted-into-pane''),
      (DsHeldInMailbox, ''held-in-mailbox''), (DsTurnStarted, ''turn-started''), (DsTurnEnded, ''turn-ended''),
      (DsReplyAppended, ''reply-appended''), (DsNoReply, ''no-reply''),
      (DsParentDoorDelivered, ''parent-door-delivered''), (DsParentDoorFailed, ''parent-door-failed''),
      (DsCooledOff, ''cooled-off''), (DsRouteDead, ''route-dead'')]"

definition state_str :: "delivery_state \<Rightarrow> string" where
  "state_str s = the (map_of state_words s)"

definition landed :: "delivery_state \<Rightarrow> bool" where
  "landed s \<longleftrightarrow> s \<in> {DsAcceptedByHarness, DsSteered, DsHeldForTurnBoundary, DsQueuedInHookInbox,
     DsPastedIntoPane, DsHeldInMailbox, DsParentDoorDelivered, DsCooledOff}"

definition state_parse :: "string \<Rightarrow> delivery_state option" where
  "state_parse word = map_option fst (find (\<lambda>(s, w). w = word) state_words)"

subsection \<open>Envelopes and routes\<close>

record message =
  mg_id :: string
  mg_from :: string
  mg_to :: string
  mg_from_timestamp :: string
  mg_to_timestamp :: "string option"
  mg_kind :: message_kind
  mg_reply_to :: "string option"
  mg_body :: string
  mg_ref :: "string option"
  mg_rc :: "int option"
  mg_detail :: "string option"

record route =
  rt_kind :: route_kind
  rt_harness :: "harness_id option"
  rt_tmux :: "string option"
  rt_cwd :: "string option"
  rt_model :: "string option"
  rt_mode :: "string option"
  rt_session_id :: "string option"
  rt_source_path :: "string option"
  rt_parent :: "string option"
  rt_goal :: "string option"
  rt_registered_at :: "string option"
  rt_base_sha :: "string option"
  rt_worktree_dir :: "string option"
  rt_app_server_socket :: "string option"

text \<open>The route table, ordered by name as the \<open>BTreeMap\<close> is.\<close>

type_synonym routes = "(string \<times> route) list"

definition children_of :: "string \<Rightarrow> routes \<Rightarrow> (string \<times> route) list" where
  "children_of parent rs = filter (\<lambda>(name, r). rt_parent r = Some parent \<and> name \<noteq> parent) rs"

subsection \<open>Words\<close>

lemma kind_roundtrip: "kind_from (kind_str k) = k" if "\<And>v. k \<noteq> MkOther v"
  using that by (cases k) (simp_all add: kind_words_def kind_from_def)

lemma kind_str_from: "kind_str (kind_from s) = s"
proof (cases "map_of (map (\<lambda>(k, w). (w, k)) kind_words) s")
  case (Some k)
  then have "(s, k) \<in> set (map (\<lambda>(k, w). (w, k)) kind_words)" by (rule map_of_SomeD)
  then have "kind_str k = s" by (auto simp: kind_words_def)
  then show ?thesis using Some by (simp add: kind_from_def)
qed (simp add: kind_from_def)

lemma state_roundtrip: "state_parse (state_str s) = Some s"
  by (cases s) (simp_all add: state_words_def state_parse_def state_str_def)

lemma state_str_inj [simp]: "state_str s = state_str t \<longleftrightarrow> s = t"
  by (metis option.inject state_roundtrip)

lemma rows_split: "supervisor_row k \<longleftrightarrow> lane_progress_row k \<or> lane_end_row k"
  by (auto simp: lane_progress_row_def supervisor_row_def lane_end_row_def)

text \<open>
  The tables of the mail store that delivery reads and writes, \<open>boop-store/src/ident.rs\<close>,
  \<open>bus.rs\<close> and \<open>1_reminder.rs\<close>. A table is the list of its rows in insertion order and a query the
  list function its SQL text denotes; an \<open>INTEGER\<close> column is an \<open>int\<close>, into which a \<open>u64\<close> is cast
  as \<open>i64\<close>. The world has the store, the outside of the process, a clock that is read once per call
  of \<open>now_ms\<close>, a fault plan that says which statement SQLite refuses, and a log of what was put
  in front of a recipient.
\<close>

subsection \<open>Rows\<close>

record delivery_row =
  dr_message :: string
  dr_sequence :: nat
  dr_route :: string
  dr_harness :: "harness_id option"
  dr_outcome :: string
  dr_detail :: string
  dr_error_code :: "string option"
  dr_at_ms :: int

record door_blowout =
  bo_route :: string
  bo_at_ms :: u64
  bo_pushes :: nat
  bo_budget :: nat
  bo_window_ms :: u64
  bo_cooldown_ms :: u64
  bo_why :: string

definition saturating_add :: "u64 \<Rightarrow> u64 \<Rightarrow> u64" where
  "saturating_add a b = (case checked_add a b of None \<Rightarrow> - 1 | Some c \<Rightarrow> c)"

definition saturating_sub :: "u64 \<Rightarrow> u64 \<Rightarrow> u64" where
  "saturating_sub a b = (if b \<le> a then a - b else 0)"

definition until_ms :: "door_blowout \<Rightarrow> u64" where
  "until_ms b = saturating_add (bo_at_ms b) (bo_cooldown_ms b)"

record commit_sub =
  cs_subscriber :: string
  cs_lane :: string
  cs_mode :: string
  cs_created_at :: string

record commit_push =
  cu_lane :: string
  cu_subscriber :: string
  cu_head :: string
  cu_message :: string
  cu_at_ms :: int

record reminder =
  rm_name :: string
  rm_route :: string
  rm_body :: string
  rm_every_ms :: int
  rm_until_ms :: int
  rm_next_ms :: int
  rm_state :: string
  rm_last_message :: "string option"
  rm_detail :: string

record live_row =
  lr_session :: string
  lr_pid :: "int option"
  lr_tmux_pane :: "string option"
  lr_status :: "string option"
  lr_door_kind :: "string option"
  lr_door_addr :: "string option"

record mail_store =
  ml_path :: "string option"
  ml_mail :: "message list"
  ml_latest :: "delivery_row list"
  ml_transitions :: "delivery_row list"
  ml_blowouts :: "door_blowout list"
  ml_subscriptions :: "commit_sub list"
  ml_pushes :: "commit_push list"
  ml_reported :: "(string \<times> string \<times> int) list"
  ml_notices :: "(string \<times> string \<times> int) list"
  ml_reminders :: "reminder list"
  ml_live :: "live_row list"
  ml_routes :: routes

datatype delivered = Injected | QueuedForTurnBoundary | Unreachable string

text \<open>What a recipient was given: a body at a door, a line typed into a pane, or
  a line submitted there.\<close>

datatype door_event =
  EvDoor string string "string + delivered"
| EvAcpx string string "string + string"
| EvTyped string string
| EvSubmit string string

record 'o mail_world =
  mw_store :: mail_store
  mw_out :: 'o
  mw_clock :: "nat \<Rightarrow> u64"
  mw_ticks :: nat
  mw_faults :: "nat \<Rightarrow> bool"
  mw_calls :: nat
  mw_log :: "door_event list"

type_synonym ('o, 'a) mio = "('o mail_world, string, 'a) stm"

definition now_ms :: "('o, u64) mio" where
  "now_ms w = (Inr (mw_clock w (mw_ticks w)), w\<lparr>mw_ticks := mw_ticks w + 1\<rparr>)"

definition db_read :: "(mail_store \<Rightarrow> 'a) \<Rightarrow> ('o, 'a) mio" where
  "db_read f w =
     (if mw_faults w (mw_calls w) then Inl ''database error'' else Inr (f (mw_store w)),
      w\<lparr>mw_calls := mw_calls w + 1\<rparr>)"

definition db_write :: "(mail_store \<Rightarrow> mail_store) \<Rightarrow> ('o, unit) mio" where
  "db_write f w =
     (if mw_faults w (mw_calls w) then (Inl ''database error'', w\<lparr>mw_calls := mw_calls w + 1\<rparr>)
      else (Inr (), w\<lparr>mw_calls := mw_calls w + 1, mw_store := f (mw_store w)\<rparr>))"

definition log_event :: "door_event \<Rightarrow> ('o, unit) mio" where
  "log_event e w = (Inr (), w\<lparr>mw_log := mw_log w @ [e]\<rparr>)"

text \<open>A call of the outside that cannot touch the store.\<close>

definition outside_call :: "('o \<Rightarrow> 'a \<times> 'o) \<Rightarrow> ('o, 'a) mio" where
  "outside_call f w = (let (a, q) = f (mw_out w) in (Inr a, w\<lparr>mw_out := q\<rparr>))"

subsection \<open>The delivery ledger\<close>

definition i64 :: "u64 \<Rightarrow> int" where
  "i64 w = sint w"

definition has_transition :: "string \<Rightarrow> mail_store \<Rightarrow> bool" where
  "has_transition i s \<longleftrightarrow> list_ex (\<lambda>t. dr_message t = i) (ml_transitions s)"

definition has_delivery_transition :: "string \<Rightarrow> ('o, bool) mio" where
  "has_delivery_transition i = db_read (has_transition i)"

definition message_transitions :: "string \<Rightarrow> mail_store \<Rightarrow> delivery_row list" where
  "message_transitions i s = sort_key dr_sequence (filter (\<lambda>t. dr_message t = i) (ml_transitions s))"

definition delivery_rows :: "string \<Rightarrow> ('o, delivery_row list) mio" where
  "delivery_rows i = db_read (message_transitions i)"

definition accepted_at :: "string \<Rightarrow> string \<Rightarrow> mail_store \<Rightarrow> bool" where
  "accepted_at i route s \<longleftrightarrow> list_ex (\<lambda>t. dr_message t = i \<and> dr_route t = route \<and>
     (dr_outcome t = ''accepted-by-harness'' \<or> dr_detail t = ''door queue'')) (ml_transitions s)"

definition delivery_accepted :: "string \<Rightarrow> string \<Rightarrow> ('o, bool) mio" where
  "delivery_accepted i route = db_read (accepted_at i route)"

definition next_sequence :: "string \<Rightarrow> mail_store \<Rightarrow> nat" where
  "next_sequence i s =
     foldr max (map dr_sequence (filter (\<lambda>t. dr_message t = i) (ml_transitions s))) 0 + 1"

text \<open>Two statements without a transaction: the latest state, then the transition.\<close>

definition append_delivery_transition ::
  "string \<Rightarrow> string \<Rightarrow> harness_id option \<Rightarrow> string \<Rightarrow> string \<Rightarrow> string option \<Rightarrow> u64 \<Rightarrow> ('o, unit) mio" where
  "append_delivery_transition i route harness outcome detail error_code at =
     (let row = (\<lambda>n. \<lparr>dr_message = i, dr_sequence = n, dr_route = route, dr_harness = harness,
            dr_outcome = outcome, dr_detail = detail, dr_error_code = error_code, dr_at_ms = i64 at\<rparr>)
      in io_bind (db_write (\<lambda>s. s\<lparr>ml_latest :=
            filter (\<lambda>t. \<not> (dr_message t = i \<and> dr_route t = route)) (ml_latest s) @ [(row 0)\<lparr>dr_error_code := None\<rparr>]\<rparr>)) (\<lambda>_.
         db_write (\<lambda>s. s\<lparr>ml_transitions := ml_transitions s @ [row (next_sequence i s)]\<rparr>)))"

definition door_word :: "string \<Rightarrow> bool" where
  "door_word detail \<longleftrightarrow> detail = ''door'' \<or> detail = ''door queue'' \<or> detail = ''acpx queue''"

definition pushes_since :: "string \<Rightarrow> u64 \<Rightarrow> mail_store \<Rightarrow> nat" where
  "pushes_since route since s =
     length (filter (\<lambda>t. dr_route t = route \<and> i64 since \<le> dr_at_ms t \<and> door_word (dr_detail t)) (ml_transitions s))"

definition door_pushes_since :: "string \<Rightarrow> u64 \<Rightarrow> ('o, nat) mio" where
  "door_pushes_since route since = db_read (pushes_since route since)"

definition body_pushed_since :: "string \<Rightarrow> string \<Rightarrow> u64 \<Rightarrow> mail_store \<Rightarrow> bool" where
  "body_pushed_since route body since s \<longleftrightarrow>
     list_ex (\<lambda>t. dr_route t = route \<and> i64 since \<le> dr_at_ms t \<and> door_word (dr_detail t) \<and>
       list_ex (\<lambda>m. mg_id m = dr_message t \<and> mg_body m = body) (ml_mail s)) (ml_transitions s)"

definition door_pushed_body_since :: "string \<Rightarrow> string \<Rightarrow> u64 \<Rightarrow> ('o, bool) mio" where
  "door_pushed_body_since route body since = db_read (body_pushed_since route body since)"

text \<open>The newest trip: by time, then by identity.\<close>

definition newest_blowout :: "string \<Rightarrow> mail_store \<Rightarrow> door_blowout option" where
  "newest_blowout route s =
     foldl (\<lambda>best b. case best of
         None \<Rightarrow> Some b
       | Some c \<Rightarrow> if i64 (bo_at_ms c) \<le> i64 (bo_at_ms b) then Some b else best) None
       (filter (\<lambda>b. bo_route b = route) (ml_blowouts s))"

definition latest_door_blowout :: "string \<Rightarrow> ('o, door_blowout option) mio" where
  "latest_door_blowout route = db_read (newest_blowout route)"

definition door_blowouts :: "string \<Rightarrow> ('o, door_blowout list) mio" where
  "door_blowouts route = db_read (\<lambda>s.
     sort_key (\<lambda>b. - i64 (bo_at_ms b)) (rev (filter (\<lambda>b. bo_route b = route) (ml_blowouts s))))"

definition record_door_blowout :: "door_blowout \<Rightarrow> ('o, unit) mio" where
  "record_door_blowout row = db_write (\<lambda>s. s\<lparr>ml_blowouts := ml_blowouts s @ [row]\<rparr>)"

subsection \<open>Commit rows\<close>

definition subscription_mode :: "string \<Rightarrow> string \<Rightarrow> mail_store \<Rightarrow> string option" where
  "subscription_mode subscriber lane s =
     map_option cs_mode (find (\<lambda>c. cs_subscriber c = subscriber \<and> cs_lane c = lane) (ml_subscriptions s))"

definition commit_subscription :: "string \<Rightarrow> string \<Rightarrow> ('o, string option) mio" where
  "commit_subscription subscriber lane =
     io_bind (db_read (subscription_mode subscriber lane)) (\<lambda>exact.
       case exact of Some m \<Rightarrow> io_ok (Some m) | None \<Rightarrow> db_read (subscription_mode subscriber ''*''))"

definition commit_subscriptions_for_lane :: "string \<Rightarrow> ('o, commit_sub list) mio" where
  "commit_subscriptions_for_lane lane = db_read (\<lambda>s.
     sort_key cs_lane (sort_key cs_subscriber
       (filter (\<lambda>c. cs_lane c = lane \<or> cs_lane c = ''*'') (ml_subscriptions s))))"

definition set_commit_subscription :: "commit_sub \<Rightarrow> ('o, unit) mio" where
  "set_commit_subscription row = db_write (\<lambda>s. s\<lparr>ml_subscriptions :=
     filter (\<lambda>c. \<not> (cs_subscriber c = cs_subscriber row \<and> cs_lane c = cs_lane row)) (ml_subscriptions s) @ [row]\<rparr>)"

text \<open>A deletion with the number of the rows it removes.\<close>

definition db_delete ::
  "(mail_store \<Rightarrow> 'r list) \<Rightarrow> ('r list \<Rightarrow> mail_store \<Rightarrow> mail_store) \<Rightarrow> ('r \<Rightarrow> bool) \<Rightarrow> ('o, nat) mio" where
  "db_delete rows put gone w =
     (let s = mw_store w; keep = filter (\<lambda>r. \<not> gone r) (rows s)
      in case db_write (put keep) w of
           (Inl e, w') \<Rightarrow> (Inl e, w')
         | (Inr u, w') \<Rightarrow> (Inr (length (rows s) - length keep), w'))"

definition drop_commit_subscription :: "string \<Rightarrow> string \<Rightarrow> ('o, nat) mio" where
  "drop_commit_subscription subscriber lane =
     db_delete ml_subscriptions (\<lambda>rows s. s\<lparr>ml_subscriptions := rows\<rparr>)
       (\<lambda>c. cs_subscriber c = subscriber \<and> cs_lane c = lane)"

definition pushed_head :: "string \<Rightarrow> string \<Rightarrow> string \<Rightarrow> mail_store \<Rightarrow> bool" where
  "pushed_head lane subscriber head s \<longleftrightarrow>
     list_ex (\<lambda>p. cu_lane p = lane \<and> cu_subscriber p = subscriber \<and> cu_head p = head) (ml_pushes s)"

definition commit_push_exists :: "string \<Rightarrow> string \<Rightarrow> string \<Rightarrow> ('o, bool) mio" where
  "commit_push_exists lane subscriber head = db_read (pushed_head lane subscriber head)"

definition record_commit_push :: "string \<Rightarrow> string \<Rightarrow> string \<Rightarrow> string \<Rightarrow> u64 \<Rightarrow> ('o, unit) mio" where
  "record_commit_push lane subscriber head i at = db_write (\<lambda>s.
     if pushed_head lane subscriber head s then s
     else s\<lparr>ml_pushes := ml_pushes s @
       [\<lparr>cu_lane = lane, cu_subscriber = subscriber, cu_head = head, cu_message = i, cu_at_ms = i64 at\<rparr>]\<rparr>)"

definition lane_reported_head :: "string \<Rightarrow> ('o, string option) mio" where
  "lane_reported_head lane = db_read (\<lambda>s. map_option fst (map_of (ml_reported s) lane))"

definition set_lane_reported_head :: "string \<Rightarrow> string \<Rightarrow> u64 \<Rightarrow> ('o, unit) mio" where
  "set_lane_reported_head lane head at = db_write (\<lambda>s. s\<lparr>ml_reported :=
     filter (\<lambda>(l, h). l \<noteq> lane) (ml_reported s) @ [(lane, head, i64 at)]\<rparr>)"

definition claim_pr_notice :: "string \<Rightarrow> string \<Rightarrow> u64 \<Rightarrow> ('o, bool) mio" where
  "claim_pr_notice url lane at = (\<lambda>w.
     let fresh = (map_of (ml_notices (mw_store w)) url = None)
     in case db_write (\<lambda>s. if fresh then s\<lparr>ml_notices := ml_notices s @ [(url, lane, i64 at)]\<rparr> else s) w of
          (Inl e, w') \<Rightarrow> (Inl e, w')
        | (Inr u, w') \<Rightarrow> (Inr fresh, w'))"

definition drop_lane_commit_state :: "string \<Rightarrow> ('o, nat) mio" where
  "drop_lane_commit_state lane =
     io_bind (db_delete ml_subscriptions (\<lambda>rows s. s\<lparr>ml_subscriptions := rows\<rparr>) (\<lambda>c. cs_lane c = lane)) (\<lambda>a.
     io_bind (db_delete ml_pushes (\<lambda>rows s. s\<lparr>ml_pushes := rows\<rparr>) (\<lambda>p. cu_lane p = lane)) (\<lambda>b.
     io_bind (db_delete ml_reported (\<lambda>rows s. s\<lparr>ml_reported := rows\<rparr>) (\<lambda>(l, h). l = lane)) (\<lambda>c.
     io_bind (db_delete ml_notices (\<lambda>rows s. s\<lparr>ml_notices := rows\<rparr>) (\<lambda>(u, l, t). l = lane)) (\<lambda>d.
     io_ok (a + b + c + d)))))"

text \<open>Errors of either query read as no row.\<close>

definition or_empty :: "'a \<Rightarrow> ('o, 'a) mio \<Rightarrow> ('o, 'a) mio" where
  "or_empty d m w = (case m w of (Inl e, w') \<Rightarrow> (Inr d, w') | (Inr a, w') \<Rightarrow> (Inr a, w'))"

definition add_subscriber ::
  "string \<Rightarrow> string option \<Rightarrow> string list \<Rightarrow> commit_sub \<Rightarrow> string list" where
  "add_subscriber lane parent subscribers row =
     (if cs_subscriber row = lane then subscribers
      else if cs_lane row = ''*'' \<and> parent \<noteq> Some (cs_subscriber row) then subscribers
      else if cs_subscriber row \<in> set subscribers then subscribers
      else subscribers @ [cs_subscriber row])"

definition lane_subscribers :: "string \<Rightarrow> ('o, string list) mio" where
  "lane_subscribers lane =
     io_bind (or_empty None (db_read (\<lambda>s. Option.bind (map_of (ml_routes s) lane) rt_parent))) (\<lambda>parent.
     io_bind (or_empty [] (commit_subscriptions_for_lane lane)) (\<lambda>rows.
     io_ok (foldl (add_subscriber lane parent) (case parent of None \<Rightarrow> [] | Some p \<Rightarrow> [p]) rows)))"

subsection \<open>Reminders at read time\<close>

definition reminder_name :: "message \<Rightarrow> string option" where
  "reminder_name m = Option.bind (mg_ref m) (strip_prefix_str ''reminder:'')"

definition reminder_current :: "string \<Rightarrow> int \<Rightarrow> string \<Rightarrow> mail_store \<Rightarrow> bool" where
  "reminder_current name now i s \<longleftrightarrow>
     list_ex (\<lambda>r. rm_name r = name \<and> rm_state r = ''active'' \<and> now < rm_until_ms r \<and> rm_last_message r = Some i)
       (ml_reminders s)"

definition reminder_message_active :: "message \<Rightarrow> int \<Rightarrow> ('o, bool) mio" where
  "reminder_message_active m now =
     (case reminder_name m of None \<Rightarrow> io_ok True | Some name \<Rightarrow> db_read (reminder_current name now (mg_id m)))"

subsection \<open>Mail\<close>

text \<open>A stamp is a transaction: it is written for every open row named or not at all.\<close>

definition stamp_mail :: "string list \<Rightarrow> string \<Rightarrow> mail_store \<Rightarrow> mail_store" where
  "stamp_mail ids stamp s = s\<lparr>ml_mail := map (\<lambda>m.
     if mg_id m \<in> set ids \<and> mg_to_timestamp m = None then m\<lparr>mg_to_timestamp := Some stamp\<rparr> else m) (ml_mail s)\<rparr>"

definition open_rows :: "string list \<Rightarrow> mail_store \<Rightarrow> nat" where
  "open_rows ids s = length (filter (\<lambda>m. mg_id m \<in> set ids \<and> mg_to_timestamp m = None) (ml_mail s))"

definition ack_messages :: "string list \<Rightarrow> string \<Rightarrow> ('o, nat) mio" where
  "ack_messages ids stamp = (\<lambda>w.
     (case db_write (stamp_mail ids stamp) w of
        (Inl e, w') \<Rightarrow> (Inl e, w')
      | (Inr u, w') \<Rightarrow> (Inr (open_rows ids (mw_store w)), w')))"

definition messages_in :: "('o, message list) mio" where
  "messages_in = db_read ml_mail"

definition put_mail :: "message \<Rightarrow> mail_store \<Rightarrow> mail_store" where
  "put_mail m s =
     (let m = m\<lparr>mg_kind := kind_from (kind_str (mg_kind m))\<rparr>
      in if list_ex (\<lambda>n. mg_id n = mg_id m) (ml_mail s)
         then s\<lparr>ml_mail := map (\<lambda>n. if mg_id n = mg_id m
                then n\<lparr>mg_to_timestamp := (case mg_to_timestamp m of None \<Rightarrow> mg_to_timestamp n | Some t \<Rightarrow> Some t),
                       mg_kind := mg_kind m, mg_body := mg_body m, mg_reply_to := mg_reply_to m,
                       mg_ref := mg_ref m, mg_rc := mg_rc m, mg_detail := mg_detail m\<rparr> else n) (ml_mail s)\<rparr>
         else s\<lparr>ml_mail := ml_mail s @ [m]\<rparr>)"

definition write_message :: "message \<Rightarrow> string \<Rightarrow> ('o, unit) mio" where
  "write_message m detail =
     io_bind (has_delivery_transition (mg_id m)) (\<lambda>known.
     io_bind (if known then io_ok ()
              else io_bind now_ms (\<lambda>at. append_delivery_transition (mg_id m) (mg_to m) None
                     (state_str DsAppended) detail None at)) (\<lambda>_.
     db_write (put_mail m)))"

text \<open>\<open>insert_message\<close> is \<open>write_message\<close> in a transaction: an error restores the store.\<close>

definition insert_message :: "message \<Rightarrow> string \<Rightarrow> ('o, unit) mio" where
  "insert_message m detail w =
     (case write_message m detail w of
        (Inl e, w') \<Rightarrow> (Inl e, w'\<lparr>mw_store := mw_store w\<rparr>)
      | (Inr u, w') \<Rightarrow> (Inr u, w'))"

definition held_rows :: "string \<Rightarrow> mail_store \<Rightarrow> message list" where
  "held_rows route s = filter (\<lambda>m. mg_to m = route \<and> mg_to_timestamp m = None \<and>
     \<not> list_ex (\<lambda>t. dr_message t = mg_id m \<and> dr_route t = mg_to m \<and>
         (dr_outcome t \<in> {''accepted-by-harness'', ''pasted-into-pane'', ''route-dead''} \<or>
          dr_detail t \<in> {''door'', ''door queue''})) (ml_transitions s)) (ml_mail s)"

text \<open>A row of an inactive reminder is left out, as the check at read time says.\<close>

definition held_one :: "message \<Rightarrow> ('o, message list) mio" where
  "held_one m =
     (if reminder_name m = None then io_ok [m]
      else io_bind now_ms (\<lambda>now. io_bind (reminder_message_active m (i64 now)) (\<lambda>active.
        io_ok (if active then [m] else []))))"

definition held_messages :: "string \<Rightarrow> ('o, message list) mio" where
  "held_messages route =
     io_bind (db_read (held_rows route)) (\<lambda>rows. io_bind (io_collect held_one rows) (\<lambda>ms. io_ok (concat ms)))"

subsection \<open>Live sessions\<close>

definition find_live :: "string \<Rightarrow> mail_store \<Rightarrow> live_row option" where
  "find_live session s = find (\<lambda>r. lr_session r = session) (ml_live s)"

definition live_row_of :: "string \<Rightarrow> ('o, live_row option) mio" where
  "live_row_of session = db_read (find_live session)"

definition record_live_door :: "string \<Rightarrow> string \<Rightarrow> string option \<Rightarrow> ('o, unit) mio" where
  "record_live_door session kind addr = db_write (\<lambda>s. s\<lparr>ml_live :=
     (if list_ex (\<lambda>r. lr_session r = session) (ml_live s)
      then map (\<lambda>r. if lr_session r = session then r\<lparr>lr_door_kind := Some kind, lr_door_addr := addr\<rparr> else r) (ml_live s)
      else ml_live s @ [\<lparr>lr_session = session, lr_pid = None, lr_tmux_pane = None, lr_status = None,
             lr_door_kind = Some kind, lr_door_addr = addr\<rparr>])\<rparr>)"

end
