(* ===== verification/Ladder.thy ===== *)
theory Ladder
  imports Mail
begin

text \<open>
  The delivery ladder, \<open>boop-proc/src/deliver.rs\<close> and \<open>1_dead_route.rs\<close>: where one message lands,
  in order, and the transition each rung records; the door budget; the drain of a route's held
  mail. The adapters of the harnesses, the multiplexer, the file locks and the environment are
  functions of \<open>ladder_env\<close> over the outside, as the code reaches them through its traits.
\<close>

subsection \<open>Rungs and landings\<close>

datatype rung =
  RgAlreadyAccepted | RgDoor | RgDoorQueue | RgAcpx | RgTurnBoundary | RgHookInbox | RgPanePaste
| RgMailboxOnly | RgMailbox | RgCoolOff

fun rung_state :: "rung \<Rightarrow> delivery_state" where
  "rung_state RgAlreadyAccepted = DsAcceptedByHarness"
| "rung_state RgDoor = DsAcceptedByHarness"
| "rung_state RgAcpx = DsAcceptedByHarness"
| "rung_state RgDoorQueue = DsHeldForTurnBoundary"
| "rung_state RgTurnBoundary = DsHeldForTurnBoundary"
| "rung_state RgHookInbox = DsQueuedInHookInbox"
| "rung_state RgPanePaste = DsPastedIntoPane"
| "rung_state RgMailboxOnly = DsHeldInMailbox"
| "rung_state RgMailbox = DsHeldInMailbox"
| "rung_state RgCoolOff = DsCooledOff"

fun rung_str :: "rung \<Rightarrow> string" where
  "rung_str RgAlreadyAccepted = ''already accepted''"
| "rung_str RgDoor = ''door''"
| "rung_str RgDoorQueue = ''door queue''"
| "rung_str RgAcpx = ''acpx queue''"
| "rung_str RgTurnBoundary = ''turn boundary''"
| "rung_str RgHookInbox = ''hook inbox''"
| "rung_str RgPanePaste = ''pane paste''"
| "rung_str RgMailboxOnly = ''mailbox only''"
| "rung_str RgMailbox = ''mailbox''"
| "rung_str RgCoolOff = ''cool-off''"

definition rung_carries :: "rung \<Rightarrow> bool" where
  "rung_carries r \<longleftrightarrow> r \<in> {RgAlreadyAccepted, RgDoor, RgDoorQueue, RgAcpx}"

record landing =
  ld_rung :: rung
  ld_detail :: string
  ld_reply :: "string option"
  ld_state :: "delivery_state option"
  ld_carried :: bool

definition landing_new :: "rung \<Rightarrow> string \<Rightarrow> landing" where
  "landing_new r detail = \<lparr>ld_rung = r, ld_detail = detail, ld_reply = None, ld_state = None, ld_carried = rung_carries r\<rparr>"

definition landing_acpx :: "string \<Rightarrow> landing" where
  "landing_acpx reply =
     \<lparr>ld_rung = RgAcpx, ld_detail = ''acpx queue'', ld_reply = Some reply, ld_state = None, ld_carried = True\<rparr>"

definition landing_submit :: "string \<Rightarrow> string \<Rightarrow> landing" where
  "landing_submit pane why =
     \<lparr>ld_rung = RgPanePaste, ld_detail = why @ ''; pane '' @ pane, ld_reply = None,
      ld_state = Some DsAcceptedByHarness, ld_carried = True\<rparr>"

definition landing_state :: "landing \<Rightarrow> delivery_state" where
  "landing_state l = (case ld_state l of None \<Rightarrow> rung_state (ld_rung l) | Some s \<Rightarrow> s)"

definition landing_outcome :: "landing \<Rightarrow> string" where
  "landing_outcome l = state_str (landing_state l)"

definition landing_line :: "landing \<Rightarrow> string \<Rightarrow> string \<Rightarrow> string \<Rightarrow> string \<Rightarrow> string" where
  "landing_line l i sender recipient harness =
     (let who = i @ '' from '' @ sender @ '' -> '' @ recipient
      in case ld_rung l of
        RgAlreadyAccepted \<Rightarrow> ''already accepted '' @ who @ ''; no new transport call''
      | RgDoor \<Rightarrow> ''delivered '' @ who @ '' through the '' @ harness @ '' door''
      | RgDoorQueue \<Rightarrow> ''queued '' @ who @ '' in the '' @ harness @ '' door; it reads it at its next turn boundary''
      | RgAcpx \<Rightarrow> ''delivered '' @ who @ '' through the acpx queue''
      | RgTurnBoundary \<Rightarrow> ''held '' @ who @ '' for the next turn boundary ('' @ ld_detail l @ '')''
      | RgHookInbox \<Rightarrow> ''queued '' @ who @ '' in the installed inbox hook ('' @ ld_detail l @ '')''
      | RgPanePaste \<Rightarrow> ''pasted '' @ who @ '' into its pane ('' @ ld_detail l @ '')''
      | RgMailboxOnly \<Rightarrow> ''held '' @ who @ '' in the mailbox ('' @ ld_detail l @ ''); '' @ recipient @ '' reads it with `boop wait`''
      | RgMailbox \<Rightarrow> ''held '' @ who @ '' in the mailbox ('' @ ld_detail l @ ''); '' @ recipient
          @ '' reads it with `boop wait --me` and the drain retries it''
      | RgCoolOff \<Rightarrow> ''held '' @ who @ '': door budget blown ('' @ ld_detail l @ ''); the drain retries it after the cool-off'')"

definition landing_record :: "landing \<Rightarrow> string \<Rightarrow> string \<Rightarrow> harness_id option \<Rightarrow> ('o, unit) mio" where
  "landing_record l i route harness =
     io_bind now_ms (\<lambda>at. append_delivery_transition i route harness (landing_outcome l) (ld_detail l) None at)"

subsection \<open>The outside\<close>

datatype mail_policy = PolicyDoor | PolicyKeystrokes

datatype door_at =
  UnixSocket string "string option"
| AppServer string string
| HttpDoor string string
| NoDoor

datatype live_status = LiveBusy | LiveIdle | LiveUnknown

datatype live_scope = ScopeRoot | ScopeChild | ScopeUnknown

record live_session =
  lv_harness :: harness_id
  lv_session_id :: string
  lv_pid :: "u32 option"
  lv_cwd :: "string option"
  lv_tmux_pane :: "string option"
  lv_status :: live_status
  lv_door :: door_at
  lv_observed_ms :: u64
  lv_started_ms :: "u64 option"
  lv_scope :: live_scope
  lv_parent_session :: "string option"

record door_budget =
  bg_window :: u64
  bg_cooldown :: u64
  bg_floor :: nat

record 'o ladder_env =
  le_policy :: "harness_id \<Rightarrow> mail_policy"
  le_submit_key :: "harness_id \<Rightarrow> string option"
  le_all :: "harness_id list"
  le_hook :: "harness_id \<Rightarrow> string \<Rightarrow> string \<Rightarrow> 'o \<Rightarrow> bool"
  le_live :: "harness_id \<Rightarrow> route \<Rightarrow> 'o \<Rightarrow> (string + live_session option) \<times> 'o"
  le_deliver :: "harness_id \<Rightarrow> live_session \<Rightarrow> string \<Rightarrow> 'o \<Rightarrow> (string + delivered) \<times> 'o"
  le_acpx :: "route \<Rightarrow> string \<Rightarrow> 'o \<Rightarrow> (string + string) \<times> 'o"
  le_alive :: "string \<Rightarrow> 'o \<Rightarrow> bool"
  le_paste :: "string \<Rightarrow> string \<Rightarrow> 'o \<Rightarrow> string option \<times> 'o"
  le_submit :: "string \<Rightarrow> string \<Rightarrow> 'o \<Rightarrow> string option \<times> 'o"
  le_try_lock :: "string \<Rightarrow> 'o \<Rightarrow> (string + bool) \<times> 'o"
  le_unlock :: "string \<Rightarrow> 'o \<Rightarrow> 'o"
  le_mood :: "string \<Rightarrow> string"
  le_url :: "string \<Rightarrow> string option"
  le_iso :: "u64 \<Rightarrow> string"
  le_budget :: door_budget
  le_fail_cooldown :: u64
  le_dead_attempts :: nat

definition now_iso :: "'o ladder_env \<Rightarrow> ('o, string) mio" where
  "now_iso E = io_bind now_ms (\<lambda>t. io_ok (le_iso E t))"

subsection \<open>The door budget\<close>

definition default_budget :: door_budget where
  "default_budget = \<lparr>bg_window = 60000, bg_cooldown = 300000, bg_floor = 32\<rparr>"

definition allowance :: "door_budget \<Rightarrow> string \<Rightarrow> routes \<Rightarrow> nat" where
  "allowance b route rs = max (length (children_of route rs)) (bg_floor b)"

datatype door_verdict = VerdictOpen | VerdictCoolingOff u64 | VerdictBlowout nat nat string

definition show_secs :: "u64 \<Rightarrow> string" where
  "show_secs ms = show_nat (unat (ms div 1000))"

definition in_force :: "u64 \<Rightarrow> door_blowout option \<Rightarrow> bool" where
  "in_force now trip \<longleftrightarrow> (case trip of None \<Rightarrow> False | Some t \<Rightarrow> now < until_ms t)"

definition door_verdict_of ::
  "string \<Rightarrow> routes \<Rightarrow> string \<Rightarrow> door_budget \<Rightarrow> u64 \<Rightarrow> ('o, door_verdict) mio" where
  "door_verdict_of route rs body b now =
     io_bind (latest_door_blowout route) (\<lambda>trip.
     if in_force now trip then io_ok (VerdictCoolingOff (until_ms (the trip)))
     else (let since = saturating_sub now (bg_window b); allowed = allowance b route rs
       in io_bind (door_pushes_since route since) (\<lambda>pushes.
          if allowed \<le> pushes
          then io_ok (VerdictBlowout pushes allowed
            (show_nat pushes @ '' door pushes in '' @ show_secs (bg_window b) @ ''s against '' @ show_nat allowed @ '' live connects''))
          else io_bind (door_pushed_body_since route body since) (\<lambda>again.
            io_ok (if again then VerdictBlowout pushes allowed
              (''the same body already went through the door inside '' @ show_secs (bg_window b) @ ''s'')
             else VerdictOpen)))))"

definition door_gate ::
  "string \<Rightarrow> routes \<Rightarrow> string \<Rightarrow> door_budget \<Rightarrow> u64 \<Rightarrow> ('o, landing option) mio" where
  "door_gate route rs body b now =
     io_bind (door_verdict_of route rs body b now) (\<lambda>v. case v of
       VerdictOpen \<Rightarrow> io_ok None
     | VerdictCoolingOff til \<Rightarrow>
         io_ok (Some (landing_new RgCoolOff (''cooling off for '' @ show_secs (saturating_sub til now) @ ''s more'')))
     | VerdictBlowout pushes allowed why \<Rightarrow>
         io_bind (record_door_blowout
           \<lparr>bo_route = route, bo_at_ms = now, bo_pushes = pushes, bo_budget = allowed,
            bo_window_ms = bg_window b, bo_cooldown_ms = bg_cooldown b, bo_why = why\<rparr>) (\<lambda>_.
         io_ok (Some (landing_new RgCoolOff why))))"

definition cooling_off :: "string \<Rightarrow> u64 \<Rightarrow> ('o, bool) mio" where
  "cooling_off route now = io_bind (or_empty None (latest_door_blowout route)) (\<lambda>trip. io_ok (in_force now trip))"

subsection \<open>Commit rows\<close>

datatype push_mode = PushDoor | PushMailbox

definition default_commit_push :: "routes \<Rightarrow> string \<Rightarrow> push_mode" where
  "default_commit_push rs subscriber =
     (case map_of rs subscriber of
        Some r \<Rightarrow> if rt_kind r = RkCoordinator \<or> rt_kind r = RkNative \<or> rt_mode r = Some ''acpx''
                  then PushDoor else PushMailbox
      | None \<Rightarrow> PushMailbox)"

definition commit_push_mode :: "routes \<Rightarrow> string \<Rightarrow> string \<Rightarrow> ('o, push_mode) mio" where
  "commit_push_mode rs subscriber lane =
     io_bind (or_empty None (commit_subscription subscriber lane)) (\<lambda>m. io_ok (case m of
       Some mode \<Rightarrow> if mode = ''mailbox'' then PushMailbox else PushDoor
     | None \<Rightarrow> default_commit_push rs subscriber))"

text \<open>\<open>str::split_once\<close>: at the first occurrence.\<close>

definition split_once_str :: "string \<Rightarrow> string \<Rightarrow> (string \<times> string) option" where
  "split_once_str pat s =
     map_option (\<lambda>i. (take i s, drop (i + length pat) s)) (find (\<lambda>i. prefix pat (drop i s)) [0..<Suc (length s)])"

text \<open>\<open>str::rsplit_once\<close> of a character: at its last occurrence.\<close>

definition rsplit_once :: "char \<Rightarrow> string \<Rightarrow> (string \<times> string) option" where
  "rsplit_once c s =
     (if c \<in> set s
      then (let tail = rev (takeWhile (\<lambda>d. d \<noteq> c) (rev s)) in Some (take (length s - length tail - 1) s, tail))
      else None)"

definition commit_head :: "string \<Rightarrow> string" where
  "commit_head body =
     (case List.map_filter (\<lambda>token. map_option snd (split_once_str ''..'' token)) (split_whitespace body) of
        [] \<Rightarrow> [] | new # _ \<Rightarrow> new)"

subsection \<open>Rendering\<close>

text \<open>\<open>str::replace\<close> of a non-empty pattern.\<close>

function replace_all :: "string \<Rightarrow> string \<Rightarrow> string \<Rightarrow> string" where
  "replace_all pat new [] = []"
| "replace_all pat new (c # cs) =
     (if pat \<noteq> [] \<and> prefix pat (c # cs) then new @ replace_all pat new (drop (length pat) (c # cs))
      else c # replace_all pat new cs)"
  by pat_completeness auto

termination
  by (relation "measure (\<lambda>(p, n, s). length s)") (auto simp: neq_Nil_conv)

definition render_mail :: "string \<Rightarrow> string \<Rightarrow> string \<Rightarrow> string \<Rightarrow> string \<Rightarrow> string" where
  "render_mail template kind i sender body =
     replace_all ''{body}'' body (replace_all ''{from}'' sender
       (replace_all ''{id}'' i (replace_all ''{kind}'' kind template)))"

definition rendered :: "'o ladder_env \<Rightarrow> message \<Rightarrow> string" where
  "rendered E m = render_mail (le_mood E (mg_to m)) (kind_str (mg_kind m)) (mg_id m) (mg_from m) (mg_body m)"

subsection \<open>Calls of the outside\<close>

definition ask :: "('o \<Rightarrow> 'a) \<Rightarrow> ('o, 'a) mio" where
  "ask f = outside_call (\<lambda>q. (f q, q))"

definition outside_try :: "('o \<Rightarrow> (string + 'a) \<times> 'o) \<Rightarrow> ('o, 'a) mio" where
  "outside_try f = io_bind (outside_call f) (\<lambda>r. case r of Inl e \<Rightarrow> io_err e | Inr a \<Rightarrow> io_ok a)"

text \<open>A cool-off of a route whose door could not take the body. A door that declined does not cool off.\<close>

definition contains_str :: "string \<Rightarrow> string \<Rightarrow> bool" where
  "contains_str s needle \<longleftrightarrow> split_once_str needle s \<noteq> None"

definition door_transport_failure :: "string \<Rightarrow> bool" where
  "door_transport_failure why0 \<longleftrightarrow>
     (let why = map ascii_lower why0
      in \<not> contains_str why ''names no messaging socket'' \<and>
         list_ex (contains_str why)
           [''connect'', ''socket'', ''refused'', ''unreachable'', ''app-server'', ''app server'', ''timed out'',
            ''timeout'', ''broken pipe'', ''connection reset'', ''no such file''])"

definition record_door_failure :: "'o ladder_env \<Rightarrow> string \<Rightarrow> routes \<Rightarrow> string \<Rightarrow> u64 \<Rightarrow> ('o, unit) mio" where
  "record_door_failure E route rs why now = record_door_blowout
     \<lparr>bo_route = route, bo_at_ms = now, bo_pushes = 0, bo_budget = allowance (le_budget E) route rs,
      bo_window_ms = bg_window (le_budget E), bo_cooldown_ms = le_fail_cooldown E,
      bo_why = ''door-unreachable: '' @ why\<rparr>"

definition hook_inbox :: "'o ladder_env \<Rightarrow> route \<Rightarrow> string \<Rightarrow> ('o, bool) mio" where
  "hook_inbox E r to = (case rt_cwd r of
       None \<Rightarrow> io_ok False
     | Some cwd \<Rightarrow> ask (\<lambda>q. case rt_harness r of
           Some i \<Rightarrow> le_hook E i cwd to q
         | None \<Rightarrow> list_ex (\<lambda>i. le_hook E i cwd to q) (le_all E)))"

definition pane_of_target :: "string \<Rightarrow> string option" where
  "pane_of_target target =
     (let pane = trim (rev (takeWhile (\<lambda>c. c \<noteq> CHR ''.'') (rev target)))
      in if prefix ''%'' pane then Some pane else None)"

definition pane_for :: "string \<Rightarrow> string" where
  "pane_for target = (case pane_of_target target of None \<Rightarrow> target | Some p \<Rightarrow> p)"

definition paste_in :: "'o ladder_env \<Rightarrow> string \<Rightarrow> string \<Rightarrow> ('o, string option) mio" where
  "paste_in E pane line =
     io_bind (outside_call (le_paste E pane line)) (\<lambda>r.
     io_bind (if r = None then io_ok () else log_event (EvTyped pane line)) (\<lambda>_. io_ok r))"

definition drain_notice :: "string \<Rightarrow> string" where
  "drain_notice to = ''[boop] mail for '' @ to @ '': run `boop inbox drain --me`''"

definition live_target :: "'o ladder_env \<Rightarrow> route \<Rightarrow> ('o, string option) mio" where
  "live_target E r = (case rt_tmux r of
       None \<Rightarrow> io_ok None
     | Some target \<Rightarrow> if target = [] then io_ok None
         else io_bind (ask (le_alive E target)) (\<lambda>a. io_ok (if a then Some target else None)))"

definition paste_into_pane :: "'o ladder_env \<Rightarrow> route \<Rightarrow> string \<Rightarrow> ('o, string option) mio" where
  "paste_into_pane E r to = io_bind (live_target E r) (\<lambda>t. case t of
       None \<Rightarrow> io_ok None
     | Some target \<Rightarrow> paste_in E (pane_for target) (drain_notice to))"

definition door_route_below_the_door :: "'o ladder_env \<Rightarrow> route \<Rightarrow> string \<Rightarrow> string \<Rightarrow> ('o, landing) mio" where
  "door_route_below_the_door E r to why =
     io_bind (hook_inbox E r to) (\<lambda>h. io_ok (landing_new (if h then RgHookInbox else RgMailbox) why))"

text \<open>The notice in the pane, or the mailbox.\<close>

definition notice_landing :: "'o ladder_env \<Rightarrow> route \<Rightarrow> string \<Rightarrow> string \<Rightarrow> ('o, landing) mio" where
  "notice_landing E r to why = io_bind (paste_into_pane E r to) (\<lambda>p. io_ok (case p of
       Some pane \<Rightarrow> landing_new RgPanePaste (why @ ''; pane '' @ pane)
     | None \<Rightarrow> landing_new RgMailbox why))"

definition no_door_route :: "'o ladder_env \<Rightarrow> route \<Rightarrow> string \<Rightarrow> string \<Rightarrow> ('o, landing) mio" where
  "no_door_route E r to why = io_bind (hook_inbox E r to) (\<lambda>h.
     if h then io_ok (landing_new RgHookInbox why) else notice_landing E r to why)"

definition no_door_mail :: string where "no_door_mail = ''harness takes no door mail''"

definition newlines_to_spaces :: "string \<Rightarrow> string" where
  "newlines_to_spaces = map (\<lambda>c. if c = CHR 0x0A then CHR '' '' else c)"

definition submit_line :: "'o ladder_env \<Rightarrow> string \<Rightarrow> string \<Rightarrow> string \<Rightarrow> ('o, landing) mio" where
  "submit_line E pane line key =
     io_bind (paste_in E pane line) (\<lambda>p. case p of
       None \<Rightarrow> io_ok (landing_new RgMailbox no_door_mail)
     | Some _ \<Rightarrow> io_bind (outside_call (le_submit E pane key)) (\<lambda>s. case s of
         None \<Rightarrow> io_ok (landing_new RgMailbox no_door_mail)
       | Some _ \<Rightarrow> io_bind (log_event (EvSubmit pane line)) (\<lambda>_. io_ok (landing_submit pane no_door_mail))))"

definition keystroke_route :: "'o ladder_env \<Rightarrow> route \<Rightarrow> string \<Rightarrow> string \<Rightarrow> ('o, landing) mio" where
  "keystroke_route E r to body = io_bind (hook_inbox E r to) (\<lambda>h.
     if h then io_ok (landing_new RgHookInbox ''installed inbox hook'')
     else io_bind (live_target E r) (\<lambda>t. case t of
       None \<Rightarrow> io_ok (landing_new RgMailbox no_door_mail)
     | Some target \<Rightarrow> (case Option.bind (rt_harness r) (le_submit_key E) of
         Some key \<Rightarrow> submit_line E (pane_for target) (newlines_to_spaces body) key
       | None \<Rightarrow> notice_landing E r to no_door_mail)))"

subsection \<open>Doors\<close>

fun door_columns :: "door_at \<Rightarrow> string \<times> string option" where
  "door_columns (UnixSocket p token) = (''unix-socket'', Some p)"
| "door_columns (AppServer socket thread) = (''app-server'', Some (socket @ ''#'' @ thread))"
| "door_columns (HttpDoor base session) = (''http'', Some (base @ ''#'' @ session))"
| "door_columns NoDoor = (''none'', None)"

definition door_address :: "(string \<Rightarrow> string option) \<Rightarrow> string option \<Rightarrow> string option \<Rightarrow> door_at" where
  "door_address parse_url kind addr = (case (kind, addr) of
       (Some k, Some a) \<Rightarrow>
         if k = ''unix-socket'' then UnixSocket a None
         else if k = ''app-server'' then
           (case rsplit_once CHR ''#'' a of Some (socket, thread) \<Rightarrow> AppServer socket thread | None \<Rightarrow> NoDoor)
         else if k = ''http'' then
           (case rsplit_once CHR ''#'' a of
              Some (base, session) \<Rightarrow>
                (case parse_url base of Some u \<Rightarrow> HttpDoor u session | None \<Rightarrow> NoDoor)
            | None \<Rightarrow> NoDoor)
         else NoDoor
     | _ \<Rightarrow> NoDoor)"

definition projected :: "'o ladder_env \<Rightarrow> harness_id \<Rightarrow> live_row \<Rightarrow> ('o, live_session) mio" where
  "projected E i row = io_bind now_ms (\<lambda>now. io_ok
     \<lparr>lv_harness = i, lv_session_id = lr_session row, lv_pid = map_option word_of_int (lr_pid row),
      lv_cwd = None, lv_tmux_pane = lr_tmux_pane row,
      lv_status = (if lr_status row = Some ''live'' \<or> lr_status row = Some ''busy'' then LiveBusy
                   else if lr_status row = Some ''idle'' then LiveIdle else LiveUnknown),
      lv_door = door_address (le_url E) (lr_door_kind row) (lr_door_addr row),
      lv_observed_ms = now, lv_started_ms = None, lv_scope = ScopeUnknown, lv_parent_session = None\<rparr>)"

definition live_session_of :: "'o ladder_env \<Rightarrow> route \<Rightarrow> harness_id \<Rightarrow> ('o, live_session option) mio" where
  "live_session_of E r i =
     io_bind (outside_try (le_live E i r)) (\<lambda>live. case live of
       Some l \<Rightarrow> io_ok (Some l)
     | None \<Rightarrow> if rt_mode r = Some ''native-owned'' then io_ok None
         else (case rt_session_id r of
             None \<Rightarrow> io_ok None
           | Some session \<Rightarrow> io_bind (live_row_of session) (\<lambda>row. case row of
               None \<Rightarrow> io_ok None
             | Some l \<Rightarrow> if lr_status l = Some ''detached'' \<or> lr_status l = Some ''closed'' then io_ok None
                 else io_bind (projected E i l) (\<lambda>p. io_ok (Some p)))))"

text \<open>The call of the door, and a failure of it: it is recorded when the transport failed, then
  the mail lands below the door.\<close>

definition door_deliver :: "'o ladder_env \<Rightarrow> harness_id \<Rightarrow> live_session \<Rightarrow> string \<Rightarrow> string \<Rightarrow> ('o, string + delivered) mio" where
  "door_deliver E i live to text =
     io_bind (outside_call (le_deliver E i live text)) (\<lambda>r. io_bind (log_event (EvDoor to text r)) (\<lambda>_. io_ok r))"

definition door_failed ::
  "'o ladder_env \<Rightarrow> routes \<Rightarrow> harness_id \<Rightarrow> route \<Rightarrow> string \<Rightarrow> u64 \<Rightarrow> string \<Rightarrow> ('o, landing) mio" where
  "door_failed E rs i r to now e =
     (let why = harness_str i @ '' door for '' @ to @ '': '' @ e
      in io_bind (if door_transport_failure why then record_door_failure E to rs why now else io_ok ()) (\<lambda>_.
         door_route_below_the_door E r to why))"

definition land_at_door ::
  "'o ladder_env \<Rightarrow> routes \<Rightarrow> message \<Rightarrow> door_budget \<Rightarrow> route \<Rightarrow> harness_id \<Rightarrow> ('o, landing) mio" where
  "land_at_door E rs m b r i =
     io_bind (live_session_of E r i) (\<lambda>live. case live of
       None \<Rightarrow> door_route_below_the_door E r (mg_to m) (''no live '' @ harness_str i @ '' session for '' @ mg_to m)
     | Some l \<Rightarrow>
         (case door_columns (lv_door l) of (kind, addr) \<Rightarrow>
         io_bind (record_live_door (lv_session_id l) kind addr) (\<lambda>_.
         io_bind now_ms (\<lambda>now.
         io_bind (door_gate (mg_to m) rs (mg_body m) b now) (\<lambda>gate. case gate of
           Some cooled \<Rightarrow> io_ok cooled
         | None \<Rightarrow> io_bind (door_deliver E i l (mg_to m) (rendered E m)) (\<lambda>d. case d of
             Inr Injected \<Rightarrow> io_ok (landing_new RgDoor ''door'')
           | Inr QueuedForTurnBoundary \<Rightarrow> io_ok (landing_new RgDoorQueue ''door queue'')
           | Inr (Unreachable e) \<Rightarrow> door_failed E rs i r (mg_to m) now e
           | Inl e \<Rightarrow> door_failed E rs i r (mg_to m) now e))))))"

text \<open>
  One delivery from end to end: the ladder itself (\<open>land\<close>), \<open>deliver_hail_budgeted\<close>, retirement of
  a dead route (\<open>1_dead_route.rs\<close>) and the drain of the held mail of a route.
\<close>

subsection \<open>The ladder\<close>

text \<open>The stops of a commit row before any door.\<close>

definition land_commit :: "routes \<Rightarrow> message \<Rightarrow> ('o, landing option) mio" where
  "land_commit rs m =
     (let head = commit_head (mg_body m)
      in if mg_detail m = Some ''done''
         then io_ok (Some (landing_new RgMailboxOnly (''commit '' @ head @ '' row; done stays in the mailbox'')))
         else io_bind (commit_push_mode rs (mg_to m) (mg_from m)) (\<lambda>mode.
           if mode = PushMailbox
           then io_ok (Some (landing_new RgMailboxOnly ''commit row; subscriber reads the mailbox''))
           else io_bind (commit_push_exists (mg_from m) (mg_to m) head) (\<lambda>pushed.
             io_ok (if pushed
               then Some (landing_new RgMailboxOnly (''commit '' @ head @ '' already pushed to '' @ mg_to m))
               else None))))"

definition land_acpx :: "'o ladder_env \<Rightarrow> routes \<Rightarrow> message \<Rightarrow> door_budget \<Rightarrow> route \<Rightarrow> ('o, landing) mio" where
  "land_acpx E rs m b r =
     io_bind now_ms (\<lambda>now.
     io_bind (door_gate (mg_to m) rs (mg_body m) b now) (\<lambda>gate. case gate of
       Some cooled \<Rightarrow> io_ok cooled
     | None \<Rightarrow> io_bind (outside_call (le_acpx E r (mg_body m))) (\<lambda>reply.
         io_bind (log_event (EvAcpx (mg_to m) (mg_body m) reply)) (\<lambda>_. case reply of
           Inl e \<Rightarrow> io_err e
         | Inr text \<Rightarrow> io_ok (landing_acpx (rev (dropWhile is_space (rev text))))))))"

definition land_on_route :: "'o ladder_env \<Rightarrow> routes \<Rightarrow> message \<Rightarrow> door_budget \<Rightarrow> route \<Rightarrow> ('o, landing) mio" where
  "land_on_route E rs m b r =
     (if rt_kind r = RkLane
      then io_bind (hook_inbox E r (mg_to m)) (\<lambda>h.
        io_ok (if h then landing_new RgHookInbox ''installed inbox hook''
               else landing_new RgTurnBoundary ''lane supervisor''))
      else if rt_mode r = Some ''acpx'' then land_acpx E rs m b r
      else (case rt_harness r of
          None \<Rightarrow> no_door_route E r (mg_to m) (''route '' @ mg_to m @ '' names no harness'')
        | Some i \<Rightarrow> if le_policy E i = PolicyKeystrokes
            then keystroke_route E r (mg_to m) (rendered E m)
            else land_at_door E rs m b r i))"

definition land :: "'o ladder_env \<Rightarrow> routes \<Rightarrow> message \<Rightarrow> door_budget \<Rightarrow> ('o, landing) mio" where
  "land E rs m b =
     io_bind (if kind_commit_row (mg_kind m) then land_commit rs m else io_ok None) (\<lambda>stop. case stop of
       Some l \<Rightarrow> io_ok l
     | None \<Rightarrow>
         if lane_progress_row (mg_kind m) \<and> \<not> kind_commit_row (mg_kind m)
         then io_ok (landing_new RgMailboxOnly (kind_str (mg_kind m) @ '' row; no door''))
         else (case map_of rs (mg_to m) of
             None \<Rightarrow> io_ok (landing_new RgMailbox (''no registry route for '' @ mg_to m))
           | Some r \<Rightarrow> land_on_route E rs m b r))"

subsection \<open>Delivery\<close>

definition pasted_before :: "message \<Rightarrow> delivery_row list \<Rightarrow> bool" where
  "pasted_before m rows \<longleftrightarrow>
     list_ex (\<lambda>row. dr_route row = mg_to m \<and> dr_outcome row = state_str DsPastedIntoPane) rows"

definition append_first :: "message \<Rightarrow> harness_id option \<Rightarrow> ('o, unit) mio" where
  "append_first m harness =
     io_bind (has_delivery_transition (mg_id m)) (\<lambda>known.
     if known then io_ok ()
     else io_bind now_ms (append_delivery_transition (mg_id m) (mg_to m) harness (state_str DsAppended) ''mailbox'' None))"

text \<open>What follows a landing: its transition, and for a body that was carried the stamp of the
  row and the record of a commit push.\<close>

definition settle_landing :: "'o ladder_env \<Rightarrow> message \<Rightarrow> harness_id option \<Rightarrow> landing \<Rightarrow> ('o, landing) mio" where
  "settle_landing E m harness l =
     io_bind (landing_record l (mg_id m) (mg_to m) harness) (\<lambda>_.
     io_bind (if ld_carried l
       then io_bind (now_iso E) (\<lambda>stamp. io_bind (ack_messages [mg_id m] stamp) (\<lambda>_.
         if kind_commit_row (mg_kind m)
         then io_bind now_ms (record_commit_push (mg_from m) (mg_to m) (commit_head (mg_body m)) (mg_id m))
         else io_ok ()))
       else io_ok ()) (\<lambda>_. io_ok l))"

definition deliver_admitted ::
  "'o ladder_env \<Rightarrow> routes \<Rightarrow> message \<Rightarrow> door_budget \<Rightarrow> harness_id option \<Rightarrow> ('o, landing) mio" where
  "deliver_admitted E rs m b harness =
     io_bind (delivery_accepted (mg_id m) (mg_to m)) (\<lambda>accepted.
     if accepted
     then io_bind (now_iso E) (\<lambda>stamp. io_bind (ack_messages [mg_id m] stamp) (\<lambda>_.
       io_ok (landing_new RgAlreadyAccepted ''previously accepted by harness or its queue'')))
     else io_bind (delivery_rows (mg_id m)) (\<lambda>rows.
       if pasted_before m rows
       then io_ok (landing_new RgPanePaste ''pane notice already delivered'')
       else io_bind (append_first m harness) (\<lambda>_.
         io_bind (land E rs m b) (settle_landing E m harness))))"

text \<open>The lock of a route is released on every way out of the delivery.\<close>

definition releasing :: "'o ladder_env \<Rightarrow> string \<Rightarrow> ('o, 'a) mio \<Rightarrow> ('o, 'a) mio" where
  "releasing E to m w = (case m w of (r, w') \<Rightarrow> (r, w'\<lparr>mw_out := le_unlock E to (mw_out w')\<rparr>))"

definition deliver_hail_budgeted ::
  "'o ladder_env \<Rightarrow> routes \<Rightarrow> message \<Rightarrow> door_budget \<Rightarrow> ('o, landing) mio" where
  "deliver_hail_budgeted E rs m b =
     io_bind now_ms (\<lambda>now. io_bind (reminder_message_active m (i64 now)) (\<lambda>active.
     if \<not> active
     then (let l = landing_new RgMailboxOnly ''reminder cancelled or expired''
           in io_bind (landing_record l (mg_id m) (mg_to m) None) (\<lambda>_. io_ok l))
     else (let harness = Option.bind (map_of rs (mg_to m)) rt_harness
       in (\<lambda>w. (case ml_path (mw_store w) of
            Some p \<Rightarrow> if p = [] then deliver_admitted E rs m b harness
              else io_bind (outside_try (le_try_lock E (mg_to m))) (\<lambda>got.
                if got then releasing E (mg_to m) (deliver_admitted E rs m b harness)
                else (let held = landing_new RgMailbox ''another delivery attempt is in flight''
                      in io_bind (landing_record held (mg_id m) (mg_to m) harness) (\<lambda>_. io_ok held)))
          | None \<Rightarrow> deliver_admitted E rs m b harness) w))))"

subsection \<open>Dead routes\<close>

definition names_a_dead_session :: "string \<Rightarrow> bool" where
  "names_a_dead_session detail \<longleftrightarrow> prefix ''no live '' detail \<or> door_transport_failure detail"

definition dead_session_holds :: "string \<Rightarrow> string \<Rightarrow> ('o, nat) mio" where
  "dead_session_holds i route =
     io_bind (delivery_rows i) (\<lambda>rows. io_ok (length (filter (\<lambda>row. dr_route row = route \<and>
       dr_outcome row = state_str DsHeldInMailbox \<and> names_a_dead_session (dr_detail row)) rows)))"

definition retire_held ::
  "string \<Rightarrow> harness_id option \<Rightarrow> message list \<Rightarrow> string \<Rightarrow> nat \<Rightarrow> ('o, nat) mio" where
  "retire_held route harness rows why attempts =
     (let detail = ''route dead after '' @ show_nat attempts @ '' holds: '' @ why
      in io_bind now_ms (\<lambda>now.
         io_bind (io_for_each (\<lambda>m. append_delivery_transition (mg_id m) route harness
           (state_str DsRouteDead) detail None now) rows) (\<lambda>_. io_ok (length rows))))"

text \<open>Errors are reported in the log of the process only.\<close>

definition retire_if_dead ::
  "'o ladder_env \<Rightarrow> string \<Rightarrow> harness_id option \<Rightarrow> message list \<Rightarrow> string \<Rightarrow> ('o, unit) mio" where
  "retire_if_dead E route harness rest detail =
     (case rest of
        [] \<Rightarrow> io_ok ()
      | first # _ \<Rightarrow>
          if \<not> names_a_dead_session detail then io_ok ()
          else or_empty () (io_bind (dead_session_holds (mg_id first) route) (\<lambda>holds.
            if le_dead_attempts E \<le> holds
            then io_bind (retire_held route harness rest detail (le_dead_attempts E)) (\<lambda>_. io_ok ())
            else io_ok ())))"

subsection \<open>The drain of a route\<close>

definition upsert_route :: "string \<Rightarrow> route \<Rightarrow> ('o, unit) mio" where
  "upsert_route name r = db_write (\<lambda>s. s\<lparr>ml_routes := bt_insert name r (ml_routes s)\<rparr>)"

definition bind_route_session :: "'o ladder_env \<Rightarrow> string \<Rightarrow> route \<Rightarrow> harness_id \<Rightarrow> ('o, bool) mio" where
  "bind_route_session E name r i =
     (if rt_session_id r \<noteq> None \<or> rt_harness r = None \<or> rt_app_server_socket r \<noteq> None
         \<or> rt_mode r = Some ''native-owned''
      then io_ok False
      else io_bind (or_empty None (outside_try (le_live E i r))) (\<lambda>live. case live of
        None \<Rightarrow> io_ok False
      | Some l \<Rightarrow> io_bind (or_empty () (upsert_route name
          (r\<lparr>rt_session_id := Some (lv_session_id l),
             rt_source_path := Some (''native-session='' @ lv_session_id l)\<rparr>))) (\<lambda>_. io_ok True)))"

text \<open>Rows the drain pushes again: no progress row except a commit row in door mode, no reminder.\<close>

definition pushable_one :: "routes \<Rightarrow> message \<Rightarrow> ('o, message list) mio" where
  "pushable_one rs m =
     io_bind (if kind_commit_row (mg_kind m) \<and> mg_detail m \<noteq> Some ''done''
              then io_bind (commit_push_mode rs (mg_to m) (mg_from m)) (\<lambda>mode. io_ok (mode = PushDoor))
              else io_ok False) (\<lambda>commit_retry.
     io_ok (if lane_progress_row (mg_kind m) \<and> \<not> commit_retry \<or> reminder_name m \<noteq> None then [] else [m]))"

fun drain_rows ::
  "'o ladder_env \<Rightarrow> string \<Rightarrow> harness_id option \<Rightarrow> routes \<Rightarrow> door_budget \<Rightarrow> nat \<Rightarrow> message list \<Rightarrow> ('o, nat) mio" where
  "drain_rows E route harness rs b pushed [] = io_ok pushed"
| "drain_rows E route harness rs b pushed (m # ms) = (\<lambda>w.
     case deliver_hail_budgeted E rs m b w of
       (Inl e, w') \<Rightarrow> drain_rows E route harness rs b pushed ms w'
     | (Inr l, w') \<Rightarrow>
         if ld_rung l = RgCoolOff then (Inr pushed, w')
         else if ld_rung l = RgMailbox
         then io_bind (retire_if_dead E route harness (m # ms) (ld_detail l)) (\<lambda>_. io_ok pushed) w'
         else drain_rows E route harness rs b (if ld_carried l then pushed + 1 else pushed) ms w')"

definition drain_bound :: "'o ladder_env \<Rightarrow> string \<Rightarrow> route \<Rightarrow> door_budget \<Rightarrow> ('o, nat) mio" where
  "drain_bound E route r b =
     io_bind (case (rt_session_id r, rt_harness r) of
         (None, Some i) \<Rightarrow> bind_route_session E route r i
       | _ \<Rightarrow> io_ok False) (\<lambda>_.
     io_bind (held_messages route) (\<lambda>held.
     io_bind (db_read ml_routes) (\<lambda>rs.
     io_bind (io_collect (pushable_one rs) held) (\<lambda>rows.
     drain_rows E route (rt_harness r) rs b 0 (concat rows)))))"

definition drain_route_held_mail_budgeted :: "'o ladder_env \<Rightarrow> string \<Rightarrow> door_budget \<Rightarrow> ('o, nat) mio" where
  "drain_route_held_mail_budgeted E route b =
     or_empty 0 (io_bind (db_read ml_routes) (\<lambda>rs. case map_of rs route of
       None \<Rightarrow> io_ok 0
     | Some r \<Rightarrow> if rt_kind r = RkLane then io_ok 0
         else io_bind now_ms (\<lambda>now. io_bind (cooling_off route now) (\<lambda>cool.
           if cool then io_ok 0 else drain_bound E route r b))))"

end
