(* ===== verification/DeliverProofs.thy ===== *)
theory DeliverProofs
  imports Ladder
begin

text \<open>
  What the ladder leaves alone and what it changes: relations between the world before and after
  each operation, and the specification of \<open>land\<close> that the properties of delivery rest on.
\<close>

subsection \<open>Relations between worlds\<close>

definition io_step :: "('s \<Rightarrow> 's \<Rightarrow> bool) \<Rightarrow> ('s, 'e, 'a) stm \<Rightarrow> bool" where
  "io_step R m \<longleftrightarrow> (\<forall>s. R s (snd (m s)))"

text \<open>A preorder of worlds in which an operation moves upwards.\<close>

locale world_order =
  fixes R :: "'s \<Rightarrow> 's \<Rightarrow> bool"
  assumes same: "R s s"
    and trans: "R s t \<Longrightarrow> R t u \<Longrightarrow> R s u"
begin

lemma step_pure: "io_step R (io_ok a)" "io_step R (io_err e)"
  by (simp_all add: io_step_def same)

lemma step_bind: "io_step R m \<Longrightarrow> (\<And>a. io_step R (f a)) \<Longrightarrow> io_step R (io_bind m f)"
  unfolding io_step_def io_bind_def by (auto split: prod.splits sum.splits) (metis snd_conv trans)+

lemma step_collect: "(\<And>x. io_step R (f x)) \<Longrightarrow> io_step R (io_collect f xs)"
  by (induction xs) (auto intro!: step_pure step_bind)

lemma step_each: "(\<And>x. io_step R (f x)) \<Longrightarrow> io_step R (io_for_each f xs)"
  by (induction xs) (auto intro!: step_pure step_bind)

end

lemma io_stepD: "io_step R m \<Longrightarrow> m s = (r, t) \<Longrightarrow> R s t"
  by (metis io_step_def snd_conv)

text \<open>Nothing about a message, its ledger, the trips or a recipient changes.\<close>

definition calm :: "'o mail_world \<Rightarrow> 'o mail_world \<Rightarrow> bool" where
  "calm w w' \<longleftrightarrow> ml_transitions (mw_store w') = ml_transitions (mw_store w) \<and>
     ml_mail (mw_store w') = ml_mail (mw_store w) \<and> ml_path (mw_store w') = ml_path (mw_store w) \<and>
     ml_blowouts (mw_store w') = ml_blowouts (mw_store w) \<and> mw_log w' = mw_log w \<and> mw_clock w' = mw_clock w"

text \<open>The same but for the trips.\<close>

definition unsent :: "'o mail_world \<Rightarrow> 'o mail_world \<Rightarrow> bool" where
  "unsent w w' \<longleftrightarrow> ml_transitions (mw_store w') = ml_transitions (mw_store w) \<and>
     ml_mail (mw_store w') = ml_mail (mw_store w) \<and> ml_path (mw_store w') = ml_path (mw_store w) \<and>
     mw_log w' = mw_log w \<and> mw_clock w' = mw_clock w"

text \<open>The ledger of transitions only grows.\<close>

definition grows :: "'o mail_world \<Rightarrow> 'o mail_world \<Rightarrow> bool" where
  "grows w w' \<longleftrightarrow> set (ml_transitions (mw_store w)) \<subseteq> set (ml_transitions (mw_store w'))"

interpretation calm: world_order calm
  by unfold_locales (auto simp: calm_def)

interpretation unsent: world_order unsent
  by unfold_locales (auto simp: unsent_def)

interpretation grows: world_order grows
  by unfold_locales (auto simp: grows_def)

lemma calm_quiet: "calm w w' \<Longrightarrow> unsent w w'"
  by (simp add: calm_def unsent_def)

lemma quiet_grows: "unsent w w' \<Longrightarrow> grows w w'"
  by (simp add: unsent_def grows_def)

lemma step_mono: "io_step R m \<Longrightarrow> (\<And>w w'. R w w' \<Longrightarrow> S w w') \<Longrightarrow> io_step S m"
  by (simp add: io_step_def)

subsection \<open>The primitives\<close>

named_theorems calms \<open>operations that change nothing of a message\<close>

lemmas calm_pure [calms] = calm.step_pure
lemmas calm_bind [calms] = calm.step_bind
lemmas calm_collect [calms] = calm.step_collect

lemma calm_now [calms]: "io_step calm now_ms"
  by (simp add: io_step_def now_ms_def calm_def)

lemma calm_read [calms]: "io_step calm (db_read f)"
  by (simp add: io_step_def db_read_def calm_def)

lemma calm_outside [calms]: "io_step calm (outside_call f)"
  by (simp add: io_step_def outside_call_def calm_def split: prod.splits)

lemma calm_or_empty [calms]: "io_step calm m \<Longrightarrow> io_step calm (or_empty d m)"
  by (auto simp: io_step_def or_empty_def split: prod.splits sum.splits) (metis snd_conv)+

lemma calm_write:
  "(\<And>s. ml_transitions (f s) = ml_transitions s \<and> ml_mail (f s) = ml_mail s \<and> ml_path (f s) = ml_path s \<and>
     ml_blowouts (f s) = ml_blowouts s) \<Longrightarrow> io_step calm (db_write f)"
  by (simp add: io_step_def db_write_def calm_def)

lemma calm_live [calms]: "io_step calm (record_live_door a b c)"
  unfolding record_live_door_def by (rule calm_write) simp

lemma calm_upsert [calms]: "io_step calm (upsert_route a b)"
  unfolding upsert_route_def by (rule calm_write) simp

lemma calm_push [calms]: "io_step calm (record_commit_push a b c d e)"
  unfolding record_commit_push_def by (rule calm_write) simp

lemma calm_queries [calms]:
  "io_step calm (has_delivery_transition i)" "io_step calm (delivery_rows i)"
  "io_step calm (delivery_accepted i route)" "io_step calm (door_pushes_since route since)"
  "io_step calm (door_pushed_body_since route body since)" "io_step calm (latest_door_blowout route)"
  "io_step calm (commit_push_exists a b c)" "io_step calm (live_row_of s)"
  by (simp_all add: has_delivery_transition_def delivery_rows_def delivery_accepted_def door_pushes_since_def
      door_pushed_body_since_def latest_door_blowout_def commit_push_exists_def live_row_of_def calms)

lemma calm_subscription [calms]: "io_step calm (commit_subscription a b)"
  unfolding commit_subscription_def by (auto intro!: calms split: option.split)

lemma calm_mode [calms]: "io_step calm (commit_push_mode rs a b)"
  unfolding commit_push_mode_def by (auto intro!: calms)

lemma calm_ask [calms]: "io_step calm (ask f)"
  unfolding ask_def by (rule calms)

lemma calm_try [calms]: "io_step calm (outside_try f)"
  unfolding outside_try_def by (auto intro!: calms split: sum.split)

lemma calm_iso [calms]: "io_step calm (now_iso E)"
  unfolding now_iso_def by (auto intro!: calms)

lemma calm_hook [calms]: "io_step calm (hook_inbox E r to)"
  unfolding hook_inbox_def by (auto intro!: calms split: option.split)

lemma calm_target [calms]: "io_step calm (live_target E r)"
  unfolding live_target_def by (auto intro!: calms split: option.split)

lemma calm_projected [calms]: "io_step calm (projected E i row)"
  unfolding projected_def by (auto intro!: calms)

lemma calm_session [calms]: "io_step calm (live_session_of E r i)"
  unfolding live_session_of_def by (auto intro!: calms split: option.split)

lemma calm_below [calms]: "io_step calm (door_route_below_the_door E r to why)"
  unfolding door_route_below_the_door_def by (auto intro!: calms)

lemma calm_land_commit [calms]: "io_step calm (land_commit rs m)"
  unfolding land_commit_def Let_def by (auto intro!: calms)

lemma calm_reminder [calms]: "io_step calm (reminder_message_active m now)"
  unfolding reminder_message_active_def by (auto intro!: calms split: option.split)

lemma calm_bind_session [calms]: "io_step calm (bind_route_session E name r i)"
  unfolding bind_route_session_def by (auto intro!: calms split: option.split)

lemma calm_verdict [calms]: "io_step calm (door_verdict_of route rs body b now)"
  unfolding door_verdict_of_def Let_def by (auto intro!: calms)

lemma quiet_blowout: "io_step unsent (record_door_blowout row)"
  by (simp add: io_step_def record_door_blowout_def db_write_def unsent_def)

lemma quiet_gate: "io_step unsent (door_gate route rs body b now)"
  unfolding door_gate_def
  by (auto intro!: unsent.step_bind unsent.step_pure quiet_blowout step_mono [OF calm_verdict calm_quiet]
      split: door_verdict.split)

subsection \<open>The budget\<close>

text \<open>What an open gate says of the ledger.\<close>

definition within_budget :: "string \<Rightarrow> routes \<Rightarrow> string \<Rightarrow> door_budget \<Rightarrow> u64 \<Rightarrow> mail_store \<Rightarrow> bool" where
  "within_budget route rs body b now s \<longleftrightarrow>
     \<not> in_force now (newest_blowout route s) \<and>
     pushes_since route (saturating_sub now (bg_window b)) s < allowance b route rs \<and>
     \<not> body_pushed_since route body (saturating_sub now (bg_window b)) s"

lemma within_budget_calm:
  assumes "calm w w'"
  shows "within_budget route rs body b now (mw_store w') = within_budget route rs body b now (mw_store w)"
  using assms
  by (simp add: within_budget_def calm_def newest_blowout_def pushes_since_def body_pushed_since_def)

lemma db_read_Inr: "db_read f w = (Inr a, w') \<Longrightarrow> a = f (mw_store w) \<and> mw_store w' = mw_store w"
  by (auto simp: db_read_def split: if_splits)

lemma gate_open:
  assumes "door_gate route rs body b now w = (Inr None, w')"
  shows "within_budget route rs body b now (mw_store w)" and "calm w w'"
proof -
  have v: "door_verdict_of route rs body b now w = (Inr VerdictOpen, w')"
  proof -
    obtain v w1 where v: "door_verdict_of route rs body b now w = (Inr v, w1)"
      and rest: "(case v of VerdictOpen \<Rightarrow> io_ok None
        | VerdictCoolingOff til \<Rightarrow> io_ok (Some (landing_new RgCoolOff (''cooling off for '' @ show_secs (saturating_sub til now) @ ''s more'')))
        | VerdictBlowout pushes allowed why \<Rightarrow> io_bind (record_door_blowout
            \<lparr>bo_route = route, bo_at_ms = now, bo_pushes = pushes, bo_budget = allowed,
             bo_window_ms = bg_window b, bo_cooldown_ms = bg_cooldown b, bo_why = why\<rparr>) (\<lambda>_.
            io_ok (Some (landing_new RgCoolOff why)))) w1 = (Inr None, w')"
      using assms unfolding door_gate_def io_bind_eq_Ok by blast
    then show ?thesis by (cases v) (auto simp: io_bind_eq_Ok)
  qed
  then show "calm w w'" by (rule io_stepD [OF calm_verdict])
  from v show "within_budget route rs body b now (mw_store w)"
    by (auto simp: door_verdict_of_def Let_def io_bind_eq_Ok latest_door_blowout_def door_pushes_since_def
        door_pushed_body_since_def within_budget_def dest!: db_read_Inr split: if_splits)
qed

subsection \<open>The ladder\<close>

text \<open>An event that put the body in front of the recipient, and an attempt at a door.\<close>

fun taken :: "door_event \<Rightarrow> bool" where
  "taken (EvDoor to body (Inr Injected)) = True"
| "taken (EvDoor to body (Inr QueuedForTurnBoundary)) = True"
| "taken (EvAcpx to body (Inr reply)) = True"
| "taken (EvSubmit pane line) = True"
| "taken _ = False"

fun at_door :: "door_event \<Rightarrow> bool" where
  "at_door (EvDoor to body r) = True"
| "at_door (EvAcpx to body r) = True"
| "at_door _ = False"

text \<open>The error of an acpx queue that refused the body.\<close>

fun acpx_refusal :: "door_event \<Rightarrow> string option" where
  "acpx_refusal (EvAcpx to body (Inl e)) = Some e"
| "acpx_refusal _ = None"

text \<open>The landings the ladder makes.\<close>

definition landing_ok :: "landing \<Rightarrow> bool" where
  "landing_ok l \<longleftrightarrow> ld_rung l \<noteq> RgAlreadyAccepted \<and>
     (ld_carried l \<longrightarrow> landing_outcome l = state_str DsAcceptedByHarness \<or> ld_detail l = ''door queue'') \<and>
     (\<not> ld_carried l \<longrightarrow> ld_rung l = RgPanePaste \<longrightarrow> landing_outcome l = state_str DsPastedIntoPane)"

lemma landing_ok_new:
  "r \<noteq> RgAlreadyAccepted \<Longrightarrow> (r = RgDoorQueue \<longrightarrow> d = ''door queue'') \<Longrightarrow> landing_ok (landing_new r d)"
  by (cases r) (simp_all add: landing_ok_def landing_new_def landing_outcome_def landing_state_def rung_carries_def)

lemma landing_ok_acpx: "landing_ok (landing_acpx t)"
  by (simp add: landing_ok_def landing_acpx_def landing_outcome_def landing_state_def)

lemma landing_ok_submit: "landing_ok (landing_submit p y)"
  by (simp add: landing_ok_def landing_submit_def landing_outcome_def landing_state_def)

lemmas landing_oks = landing_ok_acpx landing_ok_submit landing_ok_new

text \<open>The end of the ladder without an event.\<close>

definition settles :: "('o, landing) mio \<Rightarrow> bool" where
  "settles m \<longleftrightarrow> (\<forall>w. unsent w (snd (m w)) \<and> (\<forall>l. fst (m w) = Inr l \<longrightarrow> landing_ok l))"

lemma settles_ok: "landing_ok l \<Longrightarrow> settles (io_ok l)"
  by (simp add: settles_def unsent.same)

lemma settles_bind: "io_step unsent m \<Longrightarrow> (\<And>a. settles (f a)) \<Longrightarrow> settles (io_bind m f)"
  unfolding settles_def io_step_def io_bind_def
  by (auto split: prod.splits sum.splits) (metis unsent.trans snd_conv)+

lemma settles_bind_calm: "io_step calm m \<Longrightarrow> (\<And>a. settles (f a)) \<Longrightarrow> settles (io_bind m f)"
  by (rule settles_bind [OF step_mono [OF _ calm_quiet]])

text \<open>
  The specification of the ladder: with \<open>g\<close> the budget is open already, else an attempt at a
  door is made only if the budget was open on the ledger the ladder started from.
\<close>

definition land_rel ::
  "string \<Rightarrow> routes \<Rightarrow> string \<Rightarrow> door_budget \<Rightarrow> bool \<Rightarrow> 'o mail_world \<Rightarrow> string + landing \<Rightarrow> 'o mail_world \<Rightarrow> bool" where
  "land_rel to rs body b g w r w' \<longleftrightarrow>
     ml_transitions (mw_store w') = ml_transitions (mw_store w) \<and> ml_mail (mw_store w') = ml_mail (mw_store w) \<and>
     ml_path (mw_store w') = ml_path (mw_store w) \<and> mw_clock w' = mw_clock w \<and>
     (\<forall>l. r = Inr l \<longrightarrow> landing_ok l) \<and>
     (\<exists>es. mw_log w' = mw_log w @ es \<and>
       ((\<exists>e\<in>set es. taken e) \<longrightarrow> (\<exists>l. r = Inr l \<and> ld_carried l)) \<and>
       (\<forall>e\<in>set es. \<forall>why. acpx_refusal e = Some why \<longrightarrow> r = Inl why) \<and>
       ((\<exists>e\<in>set es. at_door e) \<longrightarrow> g \<or>
         (\<exists>now\<in>range (mw_clock w). within_budget to rs body b now (mw_store w))))"

definition lands :: "string \<Rightarrow> routes \<Rightarrow> string \<Rightarrow> door_budget \<Rightarrow> bool \<Rightarrow> ('o, landing) mio \<Rightarrow> bool" where
  "lands to rs body b g m \<longleftrightarrow> (\<forall>w. land_rel to rs body b g w (fst (m w)) (snd (m w)))"

lemma landsI: "(\<And>w r w'. m w = (r, w') \<Longrightarrow> land_rel to rs body b g w r w') \<Longrightarrow> lands to rs body b g m"
  by (simp add: lands_def)

lemma landsD: "lands to rs body b g m \<Longrightarrow> m w = (r, w') \<Longrightarrow> land_rel to rs body b g w r w'"
  by (metis lands_def fst_conv snd_conv)

lemma land_rel_quiet: "unsent w w' \<Longrightarrow> (\<And>l. r = Inr l \<Longrightarrow> landing_ok l) \<Longrightarrow> land_rel to rs body b g w r w'"
  by (simp add: land_rel_def unsent_def)

lemma land_rel_calm:
  assumes c: "calm w w1" and r: "land_rel to rs body b g w1 r w'"
  shows "land_rel to rs body b g w r w'"
  using r c unfolding land_rel_def within_budget_calm [OF c] by (simp add: calm_def)

lemma land_rel_open:
  "land_rel to rs body b True w r w' \<Longrightarrow> now \<in> range (mw_clock w) \<Longrightarrow>
   within_budget to rs body b now (mw_store w) \<Longrightarrow> land_rel to rs body b g w r w'"
  unfolding land_rel_def by blast

lemma settles_lands: "settles m \<Longrightarrow> lands to rs body b g m"
  by (rule landsI, rule land_rel_quiet) (metis settles_def fst_conv snd_conv)+

lemma lands_ok: "landing_ok l \<Longrightarrow> lands to rs body b g (io_ok l)"
  by (rule settles_lands [OF settles_ok])

lemma lands_bind:
  assumes m: "io_step calm m" and f: "\<And>a. lands to rs body b g (f a)"
  shows "lands to rs body b g (io_bind m f)"
proof (rule landsI)
  fix w r w' assume run: "io_bind m f w = (r, w')"
  obtain x w1 where x: "m w = (x, w1)" by fastforce
  have c: "calm w w1" using m x by (rule io_stepD)
  show "land_rel to rs body b g w r w'"
  proof (cases x)
    case (Inl e)
    then show ?thesis using run x calm_quiet [OF c] by (auto simp: io_bind_def intro: land_rel_quiet)
  next
    case (Inr a)
    then have "f a w1 = (r, w')" using run x by (simp add: io_bind_def)
    then show ?thesis using landsD [OF f] land_rel_calm [OF c] by blast
  qed
qed

lemma gate_result:
  assumes run: "door_gate route rs body b now w = (Inr (Some l), w')"
  shows "landing_ok l"
proof -
  obtain v w1 where "door_verdict_of route rs body b now w = (Inr v, w1)"
    using run unfolding door_gate_def io_bind_eq_Ok by blast
  then have "\<exists>why. l = landing_new RgCoolOff why"
    using run by (cases v) (auto simp: door_gate_def io_bind_def split: sum.splits prod.splits)
  then show "landing_ok l" by (auto intro: landing_ok_new)
qed

lemma lands_gate:
  assumes f: "lands to rs body b True (f None)" and s: "\<And>l. f (Some l) = io_ok l"
    and now: "now \<in> range (mw_clock w)"
    and run: "io_bind (door_gate to rs body b now) f w = (r, w')"
  shows "land_rel to rs body b g w r w'"
proof -
  obtain x w1 where x: "door_gate to rs body b now w = (x, w1)" by fastforce
  have q: "unsent w w1" using quiet_gate x by (rule io_stepD)
  consider (err) e where "x = Inl e" | (cool) l where "x = Inr (Some l)" | (opn) "x = Inr None"
    by (metis sum.exhaust option.exhaust)
  then show ?thesis
  proof cases
    case err
    then show ?thesis using run x q by (auto simp: io_bind_def intro: land_rel_quiet)
  next
    case cool
    then show ?thesis using run x q gate_result [OF x [unfolded cool]]
      by (auto simp: io_bind_def s intro: land_rel_quiet)
  next
    case opn
    then have go: "f None w1 = (r, w')" using run x by (simp add: io_bind_def)
    have g: "within_budget to rs body b now (mw_store w)" and c: "calm w w1"
      using gate_open [OF x [unfolded opn]] by auto
    show ?thesis
      by (rule land_rel_open [OF land_rel_calm [OF c landsD [OF f go]] now g])
  qed
qed

lemma lands_now_gate:
  fixes f :: "u64 \<Rightarrow> landing option \<Rightarrow> ('o, landing) mio"
  assumes f: "\<And>now. lands to rs body b True (f now None)" and s: "\<And>now l. f now (Some l) = io_ok l"
  shows "lands to rs body b g (io_bind now_ms (\<lambda>now. io_bind (door_gate to rs body b now) (f now)))"
proof (rule landsI)
  fix w :: "'o mail_world" and r w'
  let ?w = "w\<lparr>mw_ticks := mw_ticks w + 1\<rparr>" and ?now = "mw_clock w (mw_ticks w)"
  assume "io_bind now_ms (\<lambda>now. io_bind (door_gate to rs body b now) (f now)) w = (r, w')"
  then have run: "io_bind (door_gate to rs body b ?now) (f ?now) ?w = (r, w')"
    by (simp add: io_bind_def now_ms_def)
  have "land_rel to rs body b g ?w r w'" by (rule lands_gate [OF f s _ run]) simp
  then show "land_rel to rs body b g w r w'" by (rule land_rel_calm [rotated]) (simp add: calm_def)
qed

subsection \<open>Every rung\<close>

lemma settles_below: "settles (door_route_below_the_door E r to why)"
  unfolding door_route_below_the_door_def
  by (rule settles_bind_calm [OF calm_hook settles_ok]) (auto intro: landing_ok_new)

lemma settles_failed: "settles (door_failed E rs i r to now e)"
  unfolding door_failed_def Let_def record_door_failure_def
  by (auto intro!: settles_bind settles_below quiet_blowout unsent.step_pure)

lemma land_rel_event:
  assumes w: "calm w w1" and e: "\<not> taken e" "at_door e \<Longrightarrow> g" "\<And>why. acpx_refusal e = Some why \<Longrightarrow> r = Inl why"
    and r: "land_rel to rs body b g (w1\<lparr>mw_log := mw_log w1 @ [e]\<rparr>) r w'"
  shows "land_rel to rs body b g w r w'"
proof -
  have "within_budget to rs body b now (mw_store (w1\<lparr>mw_log := mw_log w1 @ [e]\<rparr>))
      = within_budget to rs body b now (mw_store w)" for now
    using within_budget_calm [OF w] by simp
  note r = r [unfolded land_rel_def this]
  then obtain es where es: "mw_log w' = mw_log w @ e # es"
     "(\<exists>e\<in>set es. taken e) \<longrightarrow> (\<exists>l. r = Inr l \<and> ld_carried l)"
     "\<forall>e\<in>set es. \<forall>why. acpx_refusal e = Some why \<longrightarrow> r = Inl why"
     "(\<exists>e\<in>set es. at_door e) \<longrightarrow> g \<or> (\<exists>now\<in>range (mw_clock w). within_budget to rs body b now (mw_store w))"
    using w by (auto simp: calm_def append_assoc)
  have "(\<exists>x\<in>set (e # es). taken x) \<longrightarrow> (\<exists>l. r = Inr l \<and> ld_carried l)" using es(2) e by auto
  moreover have "(\<exists>x\<in>set (e # es). at_door x) \<longrightarrow> g \<or>
      (\<exists>now\<in>range (mw_clock w). within_budget to rs body b now (mw_store w))"
    using es(4) e by auto
  moreover have "\<forall>x\<in>set (e # es). \<forall>why. acpx_refusal x = Some why \<longrightarrow> r = Inl why"
    using es(3) e(3) by simp
  ultimately show ?thesis using r es(1) w unfolding land_rel_def calm_def by auto
qed

lemma carried_new [simp]: "ld_carried (landing_new r d) \<longleftrightarrow> r \<in> {RgAlreadyAccepted, RgDoor, RgDoorQueue, RgAcpx}"
  by (simp add: landing_new_def rung_carries_def)

lemma carried_other [simp]: "ld_carried (landing_acpx t)" "ld_carried (landing_submit p y)"
  by (simp_all add: landing_acpx_def landing_submit_def)

lemma land_rel_taken:
  assumes w: "calm w w1" and e: "at_door e \<Longrightarrow> g" "acpx_refusal e = None" and l: "landing_ok l" "ld_carried l"
  shows "land_rel to rs body b g w (Inr l) (w1\<lparr>mw_log := mw_log w1 @ [e]\<rparr>)"
  using w l e unfolding land_rel_def calm_def by (auto intro!: exI [of _ "[e]"])

lemma lands_door:
  "lands to rs body b True (io_bind (door_deliver E i live to text) (\<lambda>d. case d of
      Inr Injected \<Rightarrow> io_ok (landing_new RgDoor ''door'')
    | Inr QueuedForTurnBoundary \<Rightarrow> io_ok (landing_new RgDoorQueue ''door queue'')
    | Inr (Unreachable e) \<Rightarrow> door_failed E rs i r to now e
    | Inl e \<Rightarrow> door_failed E rs i r to now e))"
proof (rule landsI)
  fix w :: "'a mail_world" and r1 w'
  obtain d q where d: "le_deliver E i live text (mw_out w) = (d, q)" by fastforce
  let ?w = "w\<lparr>mw_out := q\<rparr>"
  have c: "calm w ?w" by (simp add: calm_def)
  assume "io_bind (door_deliver E i live to text) (\<lambda>d. case d of
      Inr Injected \<Rightarrow> io_ok (landing_new RgDoor ''door'')
    | Inr QueuedForTurnBoundary \<Rightarrow> io_ok (landing_new RgDoorQueue ''door queue'')
    | Inr (Unreachable e) \<Rightarrow> door_failed E rs i r to now e
    | Inl e \<Rightarrow> door_failed E rs i r to now e) w = (r1, w')"
  then have run: "(case d of
      Inr Injected \<Rightarrow> io_ok (landing_new RgDoor ''door'')
    | Inr QueuedForTurnBoundary \<Rightarrow> io_ok (landing_new RgDoorQueue ''door queue'')
    | Inr (Unreachable e) \<Rightarrow> door_failed E rs i r to now e
    | Inl e \<Rightarrow> door_failed E rs i r to now e) (?w\<lparr>mw_log := mw_log ?w @ [EvDoor to text d]\<rparr>) = (r1, w')"
    by (simp add: io_bind_def door_deliver_def outside_call_def log_event_def d)
  have failed: "door_failed E rs i r to now e (?w\<lparr>mw_log := mw_log ?w @ [EvDoor to text d]\<rparr>) = (r1, w') \<Longrightarrow>
      \<not> taken (EvDoor to text d) \<Longrightarrow> land_rel to rs body b True w r1 w'" for e
    by (rule land_rel_event [OF c, where e = "EvDoor to text d"])
      (auto intro: landsD [OF settles_lands [OF settles_failed]])
  show "land_rel to rs body b True w r1 w'"
  proof (cases d)
    case (Inl e) then show ?thesis using run failed by simp
  next
    case (Inr v)
    then show ?thesis
      using run failed land_rel_taken [OF c, where e = "EvDoor to text d" and g = True]
      by (cases v) (auto simp: landing_ok_new)
  qed
qed

lemma lands_at_door: "lands (mg_to m) rs (mg_body m) b False (land_at_door E rs m b r i)"
  unfolding land_at_door_def
  by (auto intro!: lands_bind calms settles_lands [OF settles_below] lands_now_gate lands_door
      split: option.split prod.split)

lemma lands_acpx: "lands (mg_to m) rs (mg_body m) b False (land_acpx E rs m b r)"
  unfolding land_acpx_def
proof (rule lands_now_gate)
  show "lands (mg_to m) rs (mg_body m) b True (case None of Some cooled \<Rightarrow> io_ok cooled
    | None \<Rightarrow> io_bind (outside_call (le_acpx E r (mg_body m))) (\<lambda>reply.
         io_bind (log_event (EvAcpx (mg_to m) (mg_body m) reply)) (\<lambda>_. case reply of
           Inl e \<Rightarrow> io_err e
         | Inr text \<Rightarrow> io_ok (landing_acpx (rev (dropWhile is_space (rev text)))))))"
  proof (rule landsI)
    fix w :: "'a mail_world" and x w'
    obtain d q where d: "le_acpx E r (mg_body m) (mw_out w) = (d, q)" by fastforce
    let ?w = "w\<lparr>mw_out := q\<rparr>"
    have c: "calm w ?w" by (simp add: calm_def)
    assume "(case None of Some cooled \<Rightarrow> io_ok cooled
    | None \<Rightarrow> io_bind (outside_call (le_acpx E r (mg_body m))) (\<lambda>reply.
         io_bind (log_event (EvAcpx (mg_to m) (mg_body m) reply)) (\<lambda>_. case reply of
           Inl e \<Rightarrow> io_err e
         | Inr text \<Rightarrow> io_ok (landing_acpx (rev (dropWhile is_space (rev text))))))) w = (x, w')"
    then have run: "(case d of Inl e \<Rightarrow> io_err e
         | Inr text \<Rightarrow> io_ok (landing_acpx (rev (dropWhile is_space (rev text)))))
          (?w\<lparr>mw_log := mw_log ?w @ [EvAcpx (mg_to m) (mg_body m) d]\<rparr>) = (x, w')"
      by (simp add: io_bind_def outside_call_def log_event_def d)
    show "land_rel (mg_to m) rs (mg_body m) b True w x w'"
    proof (cases d)
      case (Inl e)
      show ?thesis
        by (rule land_rel_event [OF c, where e = "EvAcpx (mg_to m) (mg_body m) d"])
          (use run Inl in \<open>auto intro!: land_rel_quiet simp: unsent_def\<close>)
    next
      case (Inr t)
      then show ?thesis using run land_rel_taken [OF c, where e = "EvAcpx (mg_to m) (mg_body m) d" and g = True]
        by (auto simp: landing_ok_acpx)
    qed
  qed
qed simp

lemma lands_paste:
  assumes f: "\<And>p. lands to rs body b g (f p)"
  shows "lands to rs body b g (io_bind (paste_in E pane line) f)"
proof (rule landsI)
  fix w :: "'a mail_world" and r w'
  obtain p q where p: "le_paste E pane line (mw_out w) = (p, q)" by fastforce
  let ?w = "w\<lparr>mw_out := q\<rparr>"
  have c: "calm w ?w" by (simp add: calm_def)
  assume "io_bind (paste_in E pane line) f w = (r, w')"
  then have run: "f p (if p = None then ?w else ?w\<lparr>mw_log := mw_log ?w @ [EvTyped pane line]\<rparr>) = (r, w')"
    by (cases p) (simp_all add: io_bind_def paste_in_def outside_call_def log_event_def p)
  show "land_rel to rs body b g w r w'"
  proof (cases "p = None")
    case True
    then show ?thesis using run landsD [OF f] land_rel_calm [OF c] by simp
  next
    case False
    show ?thesis
      by (rule land_rel_event [OF c, where e = "EvTyped pane line"]) (use False run landsD [OF f] in auto)
  qed
qed

lemma lands_paste_into:
  assumes f: "\<And>p. lands to rs body b g (f p)"
  shows "lands to rs body b g (io_bind (paste_into_pane E r to') f)"
  unfolding paste_into_pane_def io_bind_assoc
proof (rule lands_bind [OF calm_target], goal_cases)
  case (1 t)
  show ?case
  proof (cases t)
    case None
    have "io_bind (io_ok None) f = f None" by (simp add: io_bind_def io_ok_def)
    then show ?thesis using None f by simp
  next
    case (Some target) then show ?thesis using lands_paste [OF f] by simp
  qed
qed

lemma lands_notice: "lands to rs body b g (notice_landing E r to' why)"
  unfolding notice_landing_def
  by (rule lands_paste_into) (auto intro!: lands_ok landing_ok_new split: option.split)

lemma lands_submit: "lands to rs body b g (submit_line E pane line key)"
  unfolding submit_line_def
proof (rule lands_paste, goal_cases)
  case (1 p)
  show ?case
  proof (cases p)
    case None then show ?thesis by (auto intro: lands_ok landing_ok_new)
  next
    case (Some x)
    show ?thesis
    proof (rule landsI)
      fix w :: "'a mail_world" and r w'
      obtain s q where s: "le_submit E pane key (mw_out w) = (s, q)" by fastforce
      have c: "calm w (w\<lparr>mw_out := q\<rparr>)" by (simp add: calm_def)
      assume "(case p of None \<Rightarrow> io_ok (landing_new RgMailbox no_door_mail)
       | Some _ \<Rightarrow> io_bind (outside_call (le_submit E pane key)) (\<lambda>s. case s of
         None \<Rightarrow> io_ok (landing_new RgMailbox no_door_mail)
       | Some _ \<Rightarrow> io_bind (log_event (EvSubmit pane line)) (\<lambda>_. io_ok (landing_submit pane no_door_mail)))) w = (r, w')"
      then show "land_rel to rs body b g w r w'"
        using Some s c land_rel_taken [OF c, where e = "EvSubmit pane line"] landing_ok_submit
        by (auto simp: io_bind_def outside_call_def log_event_def landing_ok_new
            intro!: land_rel_quiet [OF calm_quiet [OF c]] split: option.splits)
    qed
  qed
qed

lemma lands_keystroke: "lands to rs body b g (keystroke_route E r to' text)"
  unfolding keystroke_route_def
  by (auto intro!: lands_bind calms lands_submit lands_notice lands_ok landing_ok_new split: option.split)

lemma lands_no_door: "lands to rs body b g (no_door_route E r to' why)"
  unfolding no_door_route_def
  by (auto intro!: lands_bind calms lands_notice lands_ok landing_ok_new)

lemma lands_on_route: "lands (mg_to m) rs (mg_body m) b False (land_on_route E rs m b r)"
  unfolding land_on_route_def
  by (auto intro!: lands_bind calms lands_acpx lands_at_door lands_keystroke lands_no_door lands_ok landing_ok_new
      split: option.split)

lemma land_commit_ok:
  assumes "land_commit rs m w = (Inr (Some l), w')"
  shows "landing_ok l"
proof -
  have "\<exists>why. l = landing_new RgMailboxOnly why"
    using assms by (auto simp: land_commit_def Let_def io_bind_eq_Ok split: if_splits)
  then show ?thesis by (auto intro: landing_ok_new)
qed

theorem lands_land: "lands (mg_to m) rs (mg_body m) b False (land E rs m b)"
proof (rule landsI)
  fix w :: "'a mail_world" and r w'
  assume run: "land E rs m b w = (r, w')"
  let ?stop = "if kind_commit_row (mg_kind m) then land_commit rs m else io_ok None"
  obtain x w1 where x: "?stop w = (x, w1)" by fastforce
  have "io_step calm (if kind_commit_row (mg_kind m) then land_commit rs m else (io_ok None :: ('a, landing option) mio))"
    by (auto intro!: calms)
  then have c: "calm w w1" using x by (rule io_stepD)
  have rest: "lands (mg_to m) rs (mg_body m) b False
      (if lane_progress_row (mg_kind m) \<and> \<not> kind_commit_row (mg_kind m)
       then io_ok (landing_new RgMailboxOnly (kind_str (mg_kind m) @ '' row; no door''))
       else (case map_of rs (mg_to m) of
             None \<Rightarrow> io_ok (landing_new RgMailbox (''no registry route for '' @ mg_to m))
           | Some r \<Rightarrow> land_on_route E rs m b r))"
    by (auto intro!: lands_ok landing_ok_new lands_on_route split: option.split)
  consider (err) e where "x = Inl e" | (stop) l where "x = Inr (Some l)" | (go) "x = Inr None"
    by (metis sum.exhaust option.exhaust)
  then show "land_rel (mg_to m) rs (mg_body m) b False w r w'"
  proof cases
    case err
    then show ?thesis using run x calm_quiet [OF c] by (auto simp: land_def io_bind_def intro: land_rel_quiet)
  next
    case stop
    then have "landing_ok l" using x by (auto split: if_splits intro: land_commit_ok)
    then show ?thesis using run x stop calm_quiet [OF c]
      by (auto simp: land_def io_bind_def intro: land_rel_quiet)
  next
    case go
    then show ?thesis using run x land_rel_calm [OF c landsD [OF rest]] by (simp add: land_def io_bind_def)
  qed
qed

end
