(* ===== verification/MailTheorems.thy ===== *)
theory MailTheorems
  imports DeliverProofs
begin

text \<open>
  Delivery end to end: what a landing leaves in the ledger and the mailbox, what is never sent
  again, the budget of a door, and the forms of a door address.
\<close>

subsection \<open>Writing the ledger\<close>

text \<open>The state of a message but for one more transition.\<close>

definition one_more :: "'o mail_world \<Rightarrow> delivery_row \<Rightarrow> 'o mail_world \<Rightarrow> bool" where
  "one_more w row w' \<longleftrightarrow> ml_transitions (mw_store w') = ml_transitions (mw_store w) @ [row] \<and>
     ml_mail (mw_store w') = ml_mail (mw_store w) \<and> ml_path (mw_store w') = ml_path (mw_store w) \<and>
     ml_blowouts (mw_store w') = ml_blowouts (mw_store w) \<and> mw_log w' = mw_log w \<and> mw_clock w' = mw_clock w"

lemma append_transition:
  assumes "append_delivery_transition i route h oc d e at w = (r, w')"
  shows "(\<exists>x. r = Inl x \<and> calm w w') \<or>
    (\<exists>row. r = Inr () \<and> one_more w row w' \<and> dr_message row = i \<and> dr_route row = route \<and>
       dr_outcome row = oc \<and> dr_detail row = d)"
proof (cases "mw_faults w (mw_calls w) \<or> mw_faults w (Suc (mw_calls w))")
  case True
  then show ?thesis using assms
    by (auto simp: append_delivery_transition_def Let_def db_write_def io_bind_def calm_def split: if_splits)
next
  case False
  then show ?thesis using assms
    by (auto simp: append_delivery_transition_def Let_def db_write_def io_bind_def one_more_def)
qed

lemma landing_record_cases:
  assumes "landing_record l i route h w = (r, w')"
  shows "(\<exists>x. r = Inl x \<and> calm w w') \<or>
    (\<exists>row. r = Inr () \<and> one_more w row w' \<and> dr_message row = i \<and> dr_route row = route \<and>
       dr_outcome row = landing_outcome l \<and> dr_detail row = ld_detail l)"
proof -
  let ?w = "w\<lparr>mw_ticks := mw_ticks w + 1\<rparr>"
  have "append_delivery_transition i route h (landing_outcome l) (ld_detail l) None (mw_clock w (mw_ticks w)) ?w = (r, w')"
    using assms by (simp add: landing_record_def io_bind_def now_ms_def)
  from append_transition [OF this] show ?thesis by (auto simp: calm_def one_more_def)
qed

lemma one_more_grows: "one_more w row w' \<Longrightarrow> grows w w'"
  by (auto simp: one_more_def grows_def)

lemma calm_grows: "calm w w' \<Longrightarrow> grows w w'"
  by (auto simp: calm_def grows_def)

text \<open>The row a first attempt begins with.\<close>

definition first_row :: "delivery_row \<Rightarrow> bool" where
  "first_row row \<longleftrightarrow> dr_detail row = ''mailbox'' \<and> dr_outcome row = state_str DsAppended"

lemma append_first_cases:
  assumes "append_first m h w = (r, w')"
  shows "(calm w w') \<or>
    (\<exists>row. r = Inr () \<and> one_more w row w' \<and> first_row row)"
proof -
  obtain x w1 where x: "has_delivery_transition (mg_id m) w = (x, w1)" by fastforce
  have c: "calm w w1" using calm_queries(1) x by (rule io_stepD)
  show ?thesis
  proof (cases "x = Inr False")
    case False
    then have "w' = w1" using assms x by (cases x) (auto simp: append_first_def io_bind_def)
    then show ?thesis using c by simp
  next
    case True
    let ?w = "w1\<lparr>mw_ticks := mw_ticks w1 + 1\<rparr>"
    have "append_delivery_transition (mg_id m) (mg_to m) h (state_str DsAppended) ''mailbox'' None
        (mw_clock w1 (mw_ticks w1)) ?w = (r, w')"
      using assms True x by (simp add: append_first_def io_bind_def now_ms_def)
    from append_transition [OF this] show ?thesis
    proof
      assume "\<exists>x. r = Inl x \<and> calm ?w w'"
      then have "calm w w'" using c by (simp add: calm_def)
      then show ?thesis by simp
    next
      assume "\<exists>row. r = Inr () \<and> one_more ?w row w' \<and> dr_message row = mg_id m \<and> dr_route row = mg_to m \<and>
         dr_outcome row = state_str DsAppended \<and> dr_detail row = ''mailbox''"
      then obtain row where "r = Inr ()" "one_more ?w row w'" "dr_detail row = ''mailbox'' \<and> dr_outcome row = state_str DsAppended" by blast
      moreover from this have "one_more w row w' \<and> first_row row" using c by (simp add: calm_def one_more_def first_row_def)
      ultimately show ?thesis by blast
    qed
  qed
qed

subsection \<open>The state a message is left in\<close>

definition stamped :: "string \<Rightarrow> message list \<Rightarrow> bool" where
  "stamped i ms \<longleftrightarrow> list_all (\<lambda>n. mg_id n = i \<longrightarrow> mg_to_timestamp n \<noteq> None) ms"

lemma stamp_mail_stamped: "stamped i (ml_mail (stamp_mail [i] stamp s))"
  by (simp add: stamped_def stamp_mail_def list.pred_map comp_def list.pred_True)

lemma ack_cases:
  assumes "io_bind (now_iso E) (\<lambda>stamp. io_bind (ack_messages [i] stamp) f) w = (r, w')"
  shows "(\<exists>x. r = Inl x \<and> calm w w') \<or>
    (\<exists>n w1. f n w1 = (r, w') \<and> stamped i (ml_mail (mw_store w1)) \<and>
       ml_transitions (mw_store w1) = ml_transitions (mw_store w) \<and> mw_log w1 = mw_log w)"
proof -
  let ?w = "w\<lparr>mw_ticks := mw_ticks w + 1\<rparr>" and ?stamp = "le_iso E (mw_clock w (mw_ticks w))"
  have iso: "now_iso E w = (Inr ?stamp, ?w)" by (simp add: io_bind_def now_iso_def now_ms_def)
  have run: "io_bind (ack_messages [i] ?stamp) f ?w = (r, w')"
    using assms by (simp add: io_bind_def [of "now_iso E"] iso)
  show ?thesis
  proof (cases "mw_faults ?w (mw_calls ?w)")
    case True
    then have "ack_messages [i] ?stamp ?w = (Inl ''database error'', ?w\<lparr>mw_calls := mw_calls ?w + 1\<rparr>)"
      by (simp add: ack_messages_def db_write_def)
    then show ?thesis using run by (auto simp: io_bind_def calm_def)
  next
    case False
    let ?w1 = "?w\<lparr>mw_calls := mw_calls ?w + 1, mw_store := stamp_mail [i] ?stamp (mw_store ?w)\<rparr>"
    have "ack_messages [i] ?stamp ?w = (Inr (open_rows [i] (mw_store ?w)), ?w1)"
      using False by (simp add: ack_messages_def db_write_def)
    then have "f (open_rows [i] (mw_store ?w)) ?w1 = (r, w')" using run by (simp add: io_bind_def)
    moreover have "ml_transitions (mw_store ?w1) = ml_transitions (mw_store w)" by (simp add: stamp_mail_def)
    moreover have "stamped i (ml_mail (mw_store ?w1))" using stamp_mail_stamped by simp
    ultimately show ?thesis by (intro disjI2 exI [of _ "open_rows [i] (mw_store ?w)"] exI [of _ ?w1]) simp
  qed
qed

lemma commit_push_step:
  "io_step calm (if kind_commit_row (mg_kind m)
     then io_bind now_ms (record_commit_push (mg_from m) (mg_to m) (commit_head (mg_body m)) (mg_id m))
     else io_ok ())"
  by (auto intro!: calms)

lemma settle_cases:
  assumes "settle_landing E m h l w = (r, w')"
  shows "grows w w' \<and> mw_log w' = mw_log w \<and>
    (\<forall>l'. r = Inr l' \<longrightarrow> l' = l \<and>
      (\<exists>t\<in>set (ml_transitions (mw_store w')). dr_message t = mg_id m \<and> dr_route t = mg_to m \<and>
        dr_outcome t = landing_outcome l \<and> dr_detail t = ld_detail l) \<and>
      (if ld_carried l then stamped (mg_id m) (ml_mail (mw_store w')) else ml_mail (mw_store w') = ml_mail (mw_store w)))"
proof -
  obtain x w1 where x: "landing_record l (mg_id m) (mg_to m) h w = (x, w1)" by fastforce
  from landing_record_cases [OF x] show ?thesis
  proof
    assume "\<exists>y. x = Inl y \<and> calm w w1"
    then show ?thesis using assms x by (auto simp: settle_landing_def io_bind_def calm_def grows_def)
  next
    assume "\<exists>row. x = Inr () \<and> one_more w row w1 \<and> dr_message row = mg_id m \<and> dr_route row = mg_to m \<and>
       dr_outcome row = landing_outcome l \<and> dr_detail row = ld_detail l"
    then obtain row where row: "x = Inr ()" "one_more w row w1" "dr_message row = mg_id m" "dr_route row = mg_to m"
       "dr_outcome row = landing_outcome l" "dr_detail row = ld_detail l" by blast
    show ?thesis
    proof (cases "ld_carried l")
      case False
      then show ?thesis using assms x row
        by (auto simp: settle_landing_def io_bind_def one_more_def grows_def)
    next
      case True
      let ?push = "if kind_commit_row (mg_kind m)
         then io_bind now_ms (record_commit_push (mg_from m) (mg_to m) (commit_head (mg_body m)) (mg_id m))
         else io_ok ()"
      let ?rest = "io_bind (now_iso E) (\<lambda>stamp. io_bind (ack_messages [mg_id m] stamp) (\<lambda>_. io_bind ?push (\<lambda>_. io_ok l)))"
      have "settle_landing E m h l = io_bind (landing_record l (mg_id m) (mg_to m) h) (\<lambda>_. ?rest)"
        using True by (simp add: settle_landing_def io_bind_assoc)
      then have "?rest w1 = (r, w')" using assms x row(1) by (simp add: io_bind_def [of "landing_record l (mg_id m) (mg_to m) h"])
      from ack_cases [OF this] show ?thesis
      proof
        assume "\<exists>y. r = Inl y \<and> calm w1 w'"
        then show ?thesis using row(2) by (auto simp: calm_def one_more_def grows_def)
      next
        assume "\<exists>(n::nat) w2. io_bind ?push (\<lambda>_. io_ok l) w2 = (r, w') \<and> stamped (mg_id m) (ml_mail (mw_store w2)) \<and>
          ml_transitions (mw_store w2) = ml_transitions (mw_store w1) \<and> mw_log w2 = mw_log w1"
        then obtain w2 where w2: "io_bind ?push (\<lambda>_. io_ok l) w2 = (r, w')" "stamped (mg_id m) (ml_mail (mw_store w2))"
          "ml_transitions (mw_store w2) = ml_transitions (mw_store w1)" "mw_log w2 = mw_log w1" by blast
        have "io_step calm (io_bind ?push (\<lambda>_. io_ok l))" by (intro calms commit_push_step)
        then have c: "calm w2 w'" using w2(1) by (rule io_stepD)
        have l: "r = Inr l' \<Longrightarrow> l' = l" for l' using w2(1) by (auto simp: io_bind_eq_Ok)
        show ?thesis using c l True w2 row by (auto simp: calm_def one_more_def grows_def)
      qed
    qed
  qed
qed

subsection \<open>One delivery\<close>

text \<open>The message was accepted on its route, or its notice stands in the pane.\<close>

definition put_before :: "string \<Rightarrow> string \<Rightarrow> mail_store \<Rightarrow> bool" where
  "put_before i to s \<longleftrightarrow> (\<exists>t\<in>set (ml_transitions s). dr_message t = i \<and> dr_route t = to \<and>
     (dr_outcome t = ''accepted-by-harness'' \<or> dr_detail t = ''door queue'' \<or> dr_outcome t = ''pasted-into-pane''))"

lemma state_texts [simp]:
  "state_str DsAcceptedByHarness = ''accepted-by-harness''" "state_str DsPastedIntoPane = ''pasted-into-pane''"
  "state_str DsAppended = ''appended''" "state_str DsHeldInMailbox = ''held-in-mailbox''"
  by (simp_all add: state_str_def state_words_def)

lemma put_before_grows: "grows w w' \<Longrightarrow> put_before i to (mw_store w) \<Longrightarrow> put_before i to (mw_store w')"
  by (auto simp: put_before_def grows_def)

text \<open>What one admitted delivery does: nothing, or the ladder and what follows it.\<close>

lemma admitted_cases:
  assumes run: "deliver_admitted E rs m b h w = (r, w')"
  shows "(\<exists>x. r = Inl x \<and> grows w w' \<and> mw_log w' = mw_log w) \<or>
    (\<exists>why. r = Inr (landing_new RgAlreadyAccepted why) \<and> accepted_at (mg_id m) (mg_to m) (mw_store w) \<and>
       stamped (mg_id m) (ml_mail (mw_store w')) \<and> grows w w' \<and> mw_log w' = mw_log w) \<or>
    (\<exists>why. r = Inr (landing_new RgPanePaste why) \<and> pasted_before m (message_transitions (mg_id m) (mw_store w)) \<and>
       calm w w') \<or>
    (\<exists>w1 x w2. \<not> accepted_at (mg_id m) (mg_to m) (mw_store w) \<and>
       \<not> pasted_before m (message_transitions (mg_id m) (mw_store w)) \<and>
       (calm w w1 \<or> (\<exists>row. one_more w row w1 \<and> first_row row)) \<and> land E rs m b w1 = (x, w2) \<and>
       (case x of Inl e \<Rightarrow> r = Inl e \<and> w' = w2 | Inr l \<Rightarrow> settle_landing E m h l w2 = (r, w')))"
proof -
  obtain x w1 where x: "delivery_accepted (mg_id m) (mg_to m) w = (x, w1)" by fastforce
  have c1: "calm w w1" using calm_queries(3) x by (rule io_stepD)
  consider (err) e where "x = Inl e" | (yes) "x = Inr True" | (no) "x = Inr False"
    by (metis (full_types) sum.exhaust)
  then show ?thesis
  proof cases
    case err
    then show ?thesis using run x calm_grows [OF c1] c1 by (auto simp: deliver_admitted_def io_bind_def calm_def)
  next
    case yes
    then have acc: "accepted_at (mg_id m) (mg_to m) (mw_store w)"
      using x by (auto simp: delivery_accepted_def dest: db_read_Inr)
    let ?k = "\<lambda>_. io_ok (landing_new RgAlreadyAccepted ''previously accepted by harness or its queue'')"
    have "io_bind (now_iso E) (\<lambda>stamp. io_bind (ack_messages [mg_id m] stamp) ?k) w1 = (r, w')"
      using run x yes by (simp add: deliver_admitted_def io_bind_def [of "delivery_accepted (mg_id m) (mg_to m)"])
    from ack_cases [OF this] show ?thesis using c1 acc by (auto simp: calm_def grows_def)
  next
    case no
    then have acc: "\<not> accepted_at (mg_id m) (mg_to m) (mw_store w)"
      using x by (auto simp: delivery_accepted_def dest: db_read_Inr)
    obtain y w2 where y: "delivery_rows (mg_id m) w1 = (y, w2)" by fastforce
    have c2: "calm w w2" using c1 io_stepD [OF calm_queries(2) y] by (rule calm.trans)
    let ?rest = "io_bind (append_first m h) (\<lambda>_. io_bind (land E rs m b) (settle_landing E m h))"
    have go: "(case y of Inl e \<Rightarrow> (Inl e, w2) | Inr rows \<Rightarrow>
        (if pasted_before m rows then io_ok (landing_new RgPanePaste ''pane notice already delivered'') else ?rest) w2) = (r, w')"
      using run x no y by (simp add: deliver_admitted_def io_bind_def [of "delivery_accepted (mg_id m) (mg_to m)"]
          io_bind_def [of "delivery_rows (mg_id m)"])
    show ?thesis
    proof (cases y)
      case (Inl e)
      then show ?thesis using go c2 calm_grows [OF c2] by (auto simp: calm_def)
    next
      case (Inr rows)
      then have rows: "rows = message_transitions (mg_id m) (mw_store w)"
        using y c1 by (auto simp: delivery_rows_def calm_def message_transitions_def dest!: db_read_Inr)
      show ?thesis
      proof (cases "pasted_before m rows")
        case True
        then show ?thesis using go Inr rows c2 by auto
      next
        case False
        then have go: "?rest w2 = (r, w')" using go Inr by simp
        obtain z w3 where z: "append_first m h w2 = (z, w3)" by fastforce
        from append_first_cases [OF z] c2
        have c3: "calm w w3 \<or> (\<exists>row. one_more w row w3 \<and> first_row row)"
          by (auto simp: calm_def one_more_def)
        show ?thesis
        proof (cases z)
          case (Inl e)
          then show ?thesis using go z c3 by (auto simp: io_bind_def calm_def one_more_def grows_def)
        next
          case (Inr u)
          obtain v w4 where v: "land E rs m b w3 = (v, w4)" by fastforce
          have "case v of Inl e \<Rightarrow> r = Inl e \<and> w' = w4 | Inr l \<Rightarrow> settle_landing E m h l w4 = (r, w')"
            using go z Inr v by (cases v) (auto simp: io_bind_def)
          then show ?thesis using acc False rows c3 v by blast
        qed
      qed
    qed
  qed
qed

lemma admitted_run:
  fixes w :: "'o mail_world"
  assumes "deliver_admitted E rs m b h w = (r, w')"
  obtains (err) x where "r = Inl x" "grows w w'" "mw_log w' = mw_log w"
    | (already) why where "r = Inr (landing_new RgAlreadyAccepted why)" "accepted_at (mg_id m) (mg_to m) (mw_store w)"
        "stamped (mg_id m) (ml_mail (mw_store w'))" "grows w w'" "mw_log w' = mw_log w"
    | (pasted) why where "r = Inr (landing_new RgPanePaste why)"
        "pasted_before m (message_transitions (mg_id m) (mw_store w))" "calm w w'"
    | (ladder) w1 x w2 where "calm w w1 \<or> (\<exists>row. one_more w row w1 \<and> first_row row)"
        "land E rs m b w1 = (x, w2)"
        "case x of Inl e \<Rightarrow> r = Inl e \<and> w' = w2 | Inr l \<Rightarrow> settle_landing E m h l w2 = (r, w')"
        "\<not> accepted_at (mg_id m) (mg_to m) (mw_store w)"
        "\<not> pasted_before m (message_transitions (mg_id m) (mw_store w))"
  using admitted_cases [OF assms] by blast

lemma bind_run:
  assumes "io_bind m f w = (r, w')"
  obtains (err) e where "r = Inl e" "m w = (Inl e, w')"
    | (ok) a w1 where "m w = (Inr a, w1)" "f a w1 = (r, w')"
  using assms by (auto simp: io_bind_def split: prod.splits sum.splits)

definition held_with :: "landing \<Rightarrow> message \<Rightarrow> harness_id option \<Rightarrow> ('o, landing) mio" where
  "held_with l m h = io_bind (landing_record l (mg_id m) (mg_to m) h) (\<lambda>_. io_ok l)"

text \<open>A delivery is one of three: an error, a hold without the ladder, an admitted delivery.\<close>

lemma deliver_cases:
  fixes w :: "'o mail_world"
  assumes "deliver_hail_budgeted E rs m b w = (r, w')"
  obtains (err) e where "r = Inl e" "calm w w'"
    | (held) why rg h w1 where "rg \<in> {RgMailboxOnly, RgMailbox}" "calm w w1" "held_with (landing_new rg why) m h w1 = (r, w')"
    | (admitted) h w1 w2 where "calm w w1" "deliver_admitted E rs m b h w1 = (r, w2)" "calm w2 w'"
proof -
  let ?h = "Option.bind (map_of rs (mg_to m)) rt_harness"
  let ?w = "w\<lparr>mw_ticks := mw_ticks w + 1\<rparr>"
  have c0: "calm w ?w" by (simp add: calm_def)
  obtain x w1 where x: "reminder_message_active m (i64 (mw_clock w (mw_ticks w))) ?w = (x, w1)" by fastforce
  have c1: "calm w w1" using c0 io_stepD [OF calm_reminder x] by (rule calm.trans)
  note go = assms [unfolded deliver_hail_budgeted_def Let_def]
  consider (e) e where "x = Inl e" | (off) "x = Inr False" | (on) "x = Inr True"
    by (metis (full_types) sum.exhaust)
  then show thesis
  proof cases
    case e
    then have "r = Inl e \<and> w' = w1" using go x by (simp add: io_bind_def now_ms_def)
    then show thesis using err c1 by blast
  next
    case off
    then have "held_with (landing_new RgMailboxOnly ''reminder cancelled or expired'') m None w1 = (r, w')"
      using go x by (simp add: io_bind_def [of now_ms] io_bind_def [of "reminder_message_active m (i64 (mw_clock w (mw_ticks w)))"]
          now_ms_def held_with_def)
    then show thesis using held c1 by blast
  next
    case on
    let ?lock = "outside_try (le_try_lock E (mg_to m))"
    have go: "(case ml_path (mw_store w1) of
            Some p \<Rightarrow> if p = [] then deliver_admitted E rs m b ?h
              else io_bind ?lock (\<lambda>got.
                if got then releasing E (mg_to m) (deliver_admitted E rs m b ?h)
                else held_with (landing_new RgMailbox ''another delivery attempt is in flight'') m ?h)
          | None \<Rightarrow> deliver_admitted E rs m b ?h) w1 = (r, w')"
      unfolding held_with_def
      using go x on by (simp add: io_bind_def [of now_ms]
          io_bind_def [of "reminder_message_active m (i64 (mw_clock w (mw_ticks w)))"] now_ms_def)
    show thesis
    proof (cases "ml_path (mw_store w1) = None \<or> ml_path (mw_store w1) = Some []")
      case True
      then have "deliver_admitted E rs m b ?h w1 = (r, w')" using go by auto
      then show thesis using admitted [OF c1 _ calm.same] by blast
    next
      case False
      then obtain p where "ml_path (mw_store w1) = Some p" "p \<noteq> []" by auto
      then have "io_bind ?lock (\<lambda>got.
                if got then releasing E (mg_to m) (deliver_admitted E rs m b ?h)
                else held_with (landing_new RgMailbox ''another delivery attempt is in flight'') m ?h) w1 = (r, w')"
        using go by simp
      then show thesis
      proof (cases rule: bind_run)
        case (err e)
        then show thesis using io_stepD [OF calm_try err(2)] calm.trans [OF c1] that(1) by blast
      next
        case (ok got w2)
        have c2: "calm w w2" using c1 io_stepD [OF calm_try ok(1)] by (rule calm.trans)
        show thesis
        proof (cases got)
          case False then show thesis using ok c2 held by auto
        next
          case True
          obtain y w3 where y: "deliver_admitted E rs m b ?h w2 = (y, w3)" by fastforce
          then have "y = r \<and> calm w3 w'" using ok True by (auto simp: releasing_def calm_def)
          then show thesis using admitted [OF c2] y by blast
        qed
      qed
    qed
  qed
qed

lemma held_cases:
  assumes "held_with l m h w = (r, w')"
  shows "grows w w' \<and> mw_log w' = mw_log w \<and> ml_mail (mw_store w') = ml_mail (mw_store w) \<and>
    (\<forall>l'. r = Inr l' \<longrightarrow> l' = l \<and>
      (\<exists>t\<in>set (ml_transitions (mw_store w')). dr_message t = mg_id m \<and> dr_route t = mg_to m \<and>
        dr_outcome t = landing_outcome l \<and> dr_detail t = ld_detail l))"
  using assms unfolding held_with_def
proof (cases rule: bind_run)
  case (err e)
  then show ?thesis using landing_record_cases [OF err(2)] by (auto simp: calm_def grows_def)
next
  case (ok a w1)
  then show ?thesis using landing_record_cases [OF ok(1)] by (auto simp: one_more_def grows_def)
qed

lemma land_facts:
  assumes "land E rs m b w = (x, w')"
  shows "land_rel (mg_to m) rs (mg_body m) b False w x w'"
  using landsD [OF lands_land assms] .

lemma land_grows: "land E rs m b w = (x, w') \<Longrightarrow> grows w w'"
  by (drule land_facts) (simp add: land_rel_def grows_def)

lemma one_or_calm_grows: "calm w w1 \<or> (\<exists>row. one_more w row w1 \<and> P row) \<Longrightarrow> grows w w1"
  using calm_grows one_more_grows by blast

lemma admitted_grows: "deliver_admitted E rs m b h w = (r, w') \<Longrightarrow> grows w w'"
  apply (drule admitted_cases)
  apply (elim disjE exE conjE)
  by (auto intro: calm_grows dest!: land_grows settle_cases intro: grows.trans one_more_grows calm_grows split: sum.splits)

lemma deliver_grows: "deliver_hail_budgeted E rs m b w = (r, w') \<Longrightarrow> grows w w'"
  by (erule deliver_cases) (auto dest!: calm_grows admitted_grows held_cases intro: grows.trans)

subsection \<open>The ledger only grows\<close>

lemma append_grows: "io_step grows (append_delivery_transition i route h oc d e at)"
  unfolding io_step_def
  by (metis append_transition calm_grows one_more_grows prod.collapse)

lemma retire_grows: "io_step grows (retire_held route h rows why n)"
  unfolding retire_held_def Let_def
  by (auto intro!: grows.step_bind grows.step_each grows.step_pure append_grows step_mono [OF calm_now calm_grows])

lemma or_empty_grows: "io_step grows m \<Longrightarrow> io_step grows (or_empty d m)"
  by (auto simp: io_step_def or_empty_def split: prod.splits sum.splits) (metis snd_conv)+

lemma retire_if_dead_grows: "io_step grows (retire_if_dead E route h rest d)"
proof (cases rest)
  case Nil then show ?thesis by (simp add: retire_if_dead_def grows.step_pure)
next
  case (Cons m ms)
  have "io_step grows (dead_session_holds (mg_id m) route)"
    unfolding dead_session_holds_def by (rule step_mono [OF _ calm_grows]) (auto intro!: calms)
  then show ?thesis unfolding retire_if_dead_def Cons
    by (auto intro!: or_empty_grows grows.step_bind grows.step_pure retire_grows)
qed

lemma drain_rows_grows: "drain_rows E route h rs b n ms w = (r, w') \<Longrightarrow> grows w w'"
proof (induction ms arbitrary: n w)
  case Nil then show ?case by (simp add: grows.same)
next
  case (Cons m ms)
  obtain x u where x: "deliver_hail_budgeted E rs m b w = (x, u)" by fastforce
  have g: "grows w u" using x by (rule deliver_grows)
  show ?case
  proof (cases x)
    case (Inl e)
    then show ?thesis using Cons x g by (auto intro: grows.trans)
  next
    case (Inr l)
    let ?k = "io_bind (retire_if_dead E route h (m # ms) (ld_detail l)) (\<lambda>_. io_ok n)"
    have "io_step grows ?k" by (intro grows.step_bind grows.step_pure retire_if_dead_grows)
    then have "?k u = (r, w') \<Longrightarrow> grows u w'" by (rule io_stepD)
    then show ?thesis using Cons x g Inr by (auto split: if_splits intro: grows.trans)
  qed
qed

lemma pushable_calm: "io_step calm (pushable_one rs m)"
  unfolding pushable_one_def by (auto intro!: calms)

lemma held_calm: "io_step calm (held_messages route)"
  unfolding held_messages_def held_one_def by (auto intro!: calms calm_reminder)

lemma drain_grows: "io_step grows (drain_route_held_mail_budgeted E route b)"
proof -
  have rows: "io_step grows (drain_rows E route h rs b n ms)" for h rs n ms
    unfolding io_step_def by (metis drain_rows_grows prod.collapse)
  have bound: "io_step grows (drain_bound E route r b)" for r
    unfolding drain_bound_def
    by (auto intro!: grows.step_bind rows grows.step_pure
        step_mono [OF calm_bind_session calm_grows] step_mono [OF held_calm calm_grows]
        step_mono [OF calm_read calm_grows] step_mono [OF calm_collect [OF pushable_calm] calm_grows]
        split: option.split)
  have cool: "io_step grows (cooling_off route now)" for now
    unfolding cooling_off_def by (rule step_mono [OF _ calm_grows]) (auto intro!: calms)
  show ?thesis unfolding drain_route_held_mail_budgeted_def
    by (auto intro!: or_empty_grows grows.step_bind bound cool grows.step_pure
        step_mono [OF calm_now calm_grows] step_mono [OF calm_read calm_grows] split: option.split)
qed

text \<open>Whatever may follow: deliveries, drains, and what other processes add to the ledger.\<close>

inductive mail_later :: "'o mail_world \<Rightarrow> 'o mail_world \<Rightarrow> bool" where
  later_same: "mail_later w w"
| later_deliver: "mail_later w u \<Longrightarrow> deliver_hail_budgeted E rs m b u = (r, v) \<Longrightarrow> mail_later w v"
| later_drain: "mail_later w u \<Longrightarrow> drain_route_held_mail_budgeted E route b u = (n, v) \<Longrightarrow> mail_later w v"
| later_elsewhere: "mail_later w u \<Longrightarrow> grows u v \<Longrightarrow> mail_later w v"

lemma later_grows: "mail_later w w' \<Longrightarrow> grows w w'"
  by (induction rule: mail_later.induct)
    (auto intro: grows.same grows.trans deliver_grows io_stepD [OF drain_grows])

subsection \<open>At most once\<close>

lemma accepted_put: "accepted_at i to s \<Longrightarrow> put_before i to s"
  by (auto simp: accepted_at_def put_before_def list_ex_iff)

lemma pasted_put: "pasted_before m (message_transitions (mg_id m) s) \<Longrightarrow> put_before (mg_id m) (mg_to m) s"
  by (auto simp: pasted_before_def put_before_def list_ex_iff message_transitions_def)

lemma put_cases:
  "put_before (mg_id m) (mg_to m) s \<Longrightarrow>
   accepted_at (mg_id m) (mg_to m) s \<or> pasted_before m (message_transitions (mg_id m) s)"
  by (auto simp: accepted_at_def pasted_before_def put_before_def list_ex_iff message_transitions_def)

text \<open>What was put in front of its recipient leaves its mark in the ledger.\<close>

lemma admitted_put:
  assumes run: "deliver_admitted E rs m b h w = (Inr l, w')"
    and put: "(\<exists>es. mw_log w' = mw_log w @ es \<and> (\<exists>e\<in>set es. taken e)) \<or> ld_carried l \<or> ld_rung l = RgPanePaste"
  shows "put_before (mg_id m) (mg_to m) (mw_store w')"
proof (cases "accepted_at (mg_id m) (mg_to m) (mw_store w) \<or> pasted_before m (message_transitions (mg_id m) (mw_store w))")
  case True
  then have "put_before (mg_id m) (mg_to m) (mw_store w)" by (auto intro: accepted_put pasted_put)
  then show ?thesis using run by (auto intro: put_before_grows admitted_grows)
next
  case False
  then obtain w1 x w2 where
    a: "calm w w1 \<or> (\<exists>row. one_more w row w1 \<and> first_row row)" "land E rs m b w1 = (x, w2)"
    "case x of Inl e \<Rightarrow> Inr l = Inl e \<and> w' = w2 | Inr l' \<Rightarrow> settle_landing E m h l' w2 = (Inr l, w')"
    using admitted_cases [OF run] by auto
  then obtain l' where l': "x = Inr l'" "settle_landing E m h l' w2 = (Inr l, w')" by (auto split: sum.splits)
  from settle_cases [OF l'(2)] obtain t where t: "l' = l" "mw_log w' = mw_log w2"
    "t \<in> set (ml_transitions (mw_store w'))" "dr_message t = mg_id m" "dr_route t = mg_to m"
    "dr_outcome t = landing_outcome l" "dr_detail t = ld_detail l" by auto
  have "mw_log w1 = mw_log w" using a(1) by (auto simp: calm_def one_more_def)
  then have "ld_carried l \<or> ld_rung l = RgPanePaste" and ok: "landing_ok l"
    using put land_facts [OF a(2)] l'(1) t(1,2) by (auto simp: land_rel_def)
  then have "landing_outcome l = ''accepted-by-harness'' \<or> ld_detail l = ''door queue'' \<or> landing_outcome l = ''pasted-into-pane''"
    by (auto simp: landing_ok_def)
  then show ?thesis using t by (auto simp: put_before_def intro!: bexI [of _ t])
qed

lemma deliver_put:
  assumes run: "deliver_hail_budgeted E rs m b w = (Inr l, w')"
    and put: "(\<exists>es. mw_log w' = mw_log w @ es \<and> (\<exists>e\<in>set es. taken e)) \<or> ld_carried l \<or> ld_rung l = RgPanePaste"
  shows "put_before (mg_id m) (mg_to m) (mw_store w')"
  using run
proof (cases rule: deliver_cases)
  case (held why rg h w1)
  then have "l = landing_new rg why" "mw_log w' = mw_log w" using held_cases [OF held(3)] by (auto simp: calm_def)
  then show ?thesis using put held(1) by (auto simp: landing_new_def rung_carries_def)
next
  case (admitted h w1 w2)
  then have "put_before (mg_id m) (mg_to m) (mw_store w2)"
    using put by (intro admitted_put [OF admitted(2)]) (auto simp: calm_def)
  then show ?thesis using admitted(3) by (auto intro: put_before_grows calm_grows)
qed simp

lemma put_not_sent:
  assumes put: "put_before (mg_id m) (mg_to m) (mw_store w)" and run: "deliver_hail_budgeted E rs m b w = (r, w')"
  shows "mw_log w' = mw_log w"
  using run
proof (cases rule: deliver_cases)
  case (admitted h w1 w2)
  then have "put_before (mg_id m) (mg_to m) (mw_store w1)" using put by (auto intro: put_before_grows calm_grows)
  then show ?thesis using admitted put_cases admitted_cases [OF admitted(2)] by (auto simp: calm_def)
qed (auto simp: calm_def dest: held_cases)

text \<open>C11 -- At most once: when a delivery returned after putting the body in front of its recipient
  (a door or the acpx queue took it, it was submitted in the pane) or a notice in its pane, then,
  whatever deliveries, drains and other writers of the ledger follow, another delivery of the
  message sends nothing and types nothing, and the drain no longer lists it.\<close>

theorem mail_at_most_once:
  assumes "deliver_hail_budgeted E rs m b w = (Inr l, w')"
    and "(\<exists>es. mw_log w' = mw_log w @ es \<and> (\<exists>e\<in>set es. taken e)) \<or> ld_carried l \<or> ld_rung l = RgPanePaste"
    and "mail_later w' u" "mg_id m' = mg_id m" "mg_to m' = mg_to m"
  shows "mw_log (snd (deliver_hail_budgeted E' rs' m' b' u)) = mw_log u \<and>
    mg_id m \<notin> set (map mg_id (held_rows (mg_to m) (mw_store u)))"
proof
  have put: "put_before (mg_id m) (mg_to m) (mw_store u)"
    using deliver_put [OF assms(1,2)] later_grows [OF assms(3)] by (rule put_before_grows [rotated])
  then show "mw_log (snd (deliver_hail_budgeted E' rs' m' b' u)) = mw_log u"
    using assms(4,5) put_not_sent [OF _ prod.collapse [symmetric]] by metis
  show "mg_id m \<notin> set (map mg_id (held_rows (mg_to m) (mw_store u)))"
    using put by (auto simp: put_before_def held_rows_def list_ex_iff)
qed

subsection \<open>The budget of a door\<close>

lemma budget_one_more:
  assumes "one_more w row w'" "first_row row"
  shows "within_budget to rs body b now (mw_store w') = within_budget to rs body b now (mw_store w)"
  using assms
  by (simp add: within_budget_def one_more_def newest_blowout_def pushes_since_def body_pushed_since_def door_word_def
      first_row_def)

lemma admitted_budget:
  assumes run: "deliver_admitted E rs m b h w = (r, w')"
    and ev: "mw_log w' = mw_log w @ es" "\<exists>e\<in>set es. at_door e"
  shows "\<exists>now\<in>range (mw_clock w). within_budget (mg_to m) rs (mg_body m) b now (mw_store w)"
  using run
proof (cases rule: admitted_run)
  case (ladder w1 x w2)
  have "mw_log w' = mw_log w2" using ladder(3) by (auto split: sum.splits dest: settle_cases)
  moreover have "mw_log w1 = mw_log w" and clk: "mw_clock w1 = mw_clock w"
    using ladder(1) by (auto simp: calm_def one_more_def)
  ultimately obtain now where now: "now \<in> range (mw_clock w)"
    "within_budget (mg_to m) rs (mg_body m) b now (mw_store w1)"
    using land_facts [OF ladder(2)] ev by (auto simp: land_rel_def)
  have "within_budget (mg_to m) rs (mg_body m) b now (mw_store w)"
    using ladder(1) now(2) by (auto simp: budget_one_more within_budget_calm)
  then show ?thesis using now(1) by blast
qed (use ev in \<open>auto simp: calm_def\<close>)

text \<open>C12 -- The budget of a door: a delivery calls a door or the acpx queue only when, on the ledger it
  found and at an instant its clock shows, no trip of the route is in force, the pushes of the
  window are fewer than the allowance, and the body did not go through the door in the window.\<close>

theorem door_push_within_budget:
  assumes "deliver_hail_budgeted E rs m b w = (r, w')"
    and "mw_log w' = mw_log w @ es" and "e \<in> set es" and "at_door e"
  shows "\<exists>now\<in>range (mw_clock w).
    \<not> in_force now (newest_blowout (mg_to m) (mw_store w)) \<and>
    pushes_since (mg_to m) (saturating_sub now (bg_window b)) (mw_store w) < allowance b (mg_to m) rs \<and>
    \<not> body_pushed_since (mg_to m) (mg_body m) (saturating_sub now (bg_window b)) (mw_store w)"
proof -
  have "\<exists>now\<in>range (mw_clock w). within_budget (mg_to m) rs (mg_body m) b now (mw_store w)"
    using assms(1)
  proof (cases rule: deliver_cases)
    case (err x)
    then show ?thesis using assms by (auto simp: calm_def)
  next
    case (held why rg h w1)
    then show ?thesis using assms held_cases [OF held(3)] by (auto simp: calm_def)
  next
    case (admitted h w1 w2)
    then have "mw_log w2 = mw_log w1 @ es" "mw_clock w1 = mw_clock w" using assms(2) by (auto simp: calm_def)
    then show ?thesis using admitted_budget [OF admitted(2)] assms(3,4) within_budget_calm [OF admitted(1)] by auto
  qed
  then show ?thesis by (simp add: within_budget_def)
qed

subsection \<open>What a landing leaves\<close>

definition settled_as :: "landing \<Rightarrow> message \<Rightarrow> mail_store \<Rightarrow> mail_store \<Rightarrow> bool" where
  "settled_as l m s s' \<longleftrightarrow>
     (if ld_carried l then stamped (mg_id m) (ml_mail s') else ml_mail s' = ml_mail s) \<and>
     (\<exists>t\<in>set (ml_transitions s'). dr_message t = mg_id m \<and> dr_route t = mg_to m \<and>
      (dr_outcome t = landing_outcome l \<or> ld_rung l = RgAlreadyAccepted \<and> dr_detail t = ''door queue''))"

lemma outcome_new: "landing_outcome (landing_new r d) = state_str (rung_state r)"
  by (simp add: landing_outcome_def landing_state_def landing_new_def)

lemma rung_new [simp]: "ld_rung (landing_new r d) = r"
  by (simp add: landing_new_def)

lemma admitted_settled:
  assumes "deliver_admitted E rs m b h w = (Inr l, w')"
  shows "settled_as l m (mw_store w) (mw_store w')"
  using assms
proof (cases rule: admitted_run)
  case (already why)
  then show ?thesis
    by (fastforce simp: settled_as_def outcome_new accepted_at_def list_ex_iff grows_def)
next
  case (pasted why)
  then show ?thesis
    by (fastforce simp: settled_as_def outcome_new pasted_before_def list_ex_iff calm_def message_transitions_def)
next
  case (ladder w1 x w2)
  then obtain l' where x: "x = Inr l'" and s: "settle_landing E m h l' w2 = (Inr l, w')" by (cases x) auto
  have "ml_mail (mw_store w2) = ml_mail (mw_store w)"
    using land_facts [OF ladder(2)] ladder(1) by (auto simp: land_rel_def calm_def one_more_def)
  then show ?thesis using settle_cases [OF s] by (auto simp: settled_as_def)
qed simp

text \<open>C13 -- A delivery that returns has left its mark: the ledger has a transition of the message on its
  route with the outcome of the landing. The exception is a message that was accepted before
  by the queue of a door: the landing is \<open>AlreadyAccepted\<close> and the transition found is the one
  with the detail \<open>door queue\<close>. The rows of the message are stamped exactly when the landing carried
  the body, else the mailbox is as before.\<close>

theorem landing_leaves_its_mark:
  assumes "deliver_hail_budgeted E rs m b w = (Inr l, w')"
  shows "(\<exists>t\<in>set (ml_transitions (mw_store w')). dr_message t = mg_id m \<and> dr_route t = mg_to m \<and>
      (dr_outcome t = landing_outcome l \<or> ld_rung l = RgAlreadyAccepted \<and> dr_detail t = ''door queue'')) \<and>
    (if ld_carried l then stamped (mg_id m) (ml_mail (mw_store w')) else ml_mail (mw_store w') = ml_mail (mw_store w))"
proof -
  have "settled_as l m (mw_store w) (mw_store w')"
    using assms
  proof (cases rule: deliver_cases)
    case (held why rg h w1)
    then show ?thesis using held_cases [OF held(3)] by (auto simp: settled_as_def calm_def)
  next
    case (admitted h w1 w2)
    then show ?thesis using admitted_settled [OF admitted(2)] by (auto simp: settled_as_def calm_def)
  qed simp
  then show ?thesis by (simp add: settled_as_def)
qed

subsection \<open>A refused queue\<close>

lemma admitted_refused:
  assumes run: "deliver_admitted E rs m b h w = (r, w')"
    and ev: "mw_log w' = mw_log w @ es" "EvAcpx to body (Inl e) \<in> set es"
  shows "r = Inl e \<and> ml_mail (mw_store w') = ml_mail (mw_store w) \<and>
    (\<exists>rows. ml_transitions (mw_store w') = ml_transitions (mw_store w) @ rows \<and> length rows \<le> 1 \<and> list_all first_row rows)"
  using run
proof (cases rule: admitted_run)
  case (ladder w1 x w2)
  have "mw_log w' = mw_log w2" using ladder(3) by (auto split: sum.splits dest: settle_cases)
  moreover have "mw_log w1 = mw_log w" using ladder(1) by (auto simp: calm_def one_more_def)
  ultimately have "x = Inl e"
    using land_facts [OF ladder(2)] ev by (fastforce simp: land_rel_def)
  moreover have "ml_transitions (mw_store w2) = ml_transitions (mw_store w1) \<and> ml_mail (mw_store w2) = ml_mail (mw_store w1)"
    using land_facts [OF ladder(2)] by (simp add: land_rel_def)
  moreover have "ml_mail (mw_store w1) = ml_mail (mw_store w) \<and>
      (\<exists>rows. ml_transitions (mw_store w1) = ml_transitions (mw_store w) @ rows \<and> length rows \<le> 1 \<and> list_all first_row rows)"
    using ladder(1)
  proof
    assume "calm w w1"
    then show ?thesis by (intro conjI exI [where x = "[]"]) (simp_all add: calm_def)
  next
    assume "\<exists>row. one_more w row w1 \<and> first_row row"
    then obtain row where "one_more w row w1" "first_row row" by blast
    then show ?thesis by (intro conjI exI [where x = "[row]"]) (simp_all add: one_more_def)
  qed
  ultimately show ?thesis using ladder(3) by simp
qed (use ev in \<open>auto simp: calm_def\<close>)

text \<open>C16 -- A refusing acpx queue fails the send, whatever the store does: a delivery in which the queue
  answers the prompt with an error returns that error, the mailbox is as before, and of the whole
  delivery the ledger holds at most the \<open>appended\<close> row it begins with.\<close>

theorem acpx_error_fails_send:
  assumes "deliver_hail_budgeted E rs m b w = (r, w')"
    and "mw_log w' = mw_log w @ es" and "EvAcpx to body (Inl e) \<in> set es"
  shows "r = Inl e \<and> ml_mail (mw_store w') = ml_mail (mw_store w) \<and>
    (\<exists>rows. ml_transitions (mw_store w') = ml_transitions (mw_store w) @ rows \<and> length rows \<le> 1 \<and>
      (\<forall>t \<in> set rows. dr_outcome t = ''appended'' \<and> dr_detail t = ''mailbox''))"
  using assms(1)
proof (cases rule: deliver_cases)
  case (admitted h w1 w2)
  then have "mw_log w2 = mw_log w1 @ es" using assms(2) by (simp add: calm_def)
  from admitted_refused [OF admitted(2) this assms(3)] show ?thesis
    using admitted(1,3) by (auto simp: calm_def first_row_def list_all_iff)
qed (use assms(2,3) in \<open>auto simp: calm_def dest: held_cases\<close>)

subsection \<open>Door addresses\<close>

lemma rsplit_once_join: "c \<notin> set t \<Longrightarrow> rsplit_once c (s @ c # t) = Some (s, t)"
  by (simp add: rsplit_once_def takeWhile_append Let_def)

text \<open>The two columns of a door read back as the same door, but for the token of a Unix socket,
  which is never projected: for a thread or a session without a separator and a base address in
  the form the URL parser prints.\<close>

theorem door_columns_roundtrip:
  assumes "\<And>socket thread. d = AppServer socket thread \<Longrightarrow> CHR ''#'' \<notin> set thread"
    and "\<And>base session. d = HttpDoor base session \<Longrightarrow> CHR ''#'' \<notin> set session \<and> parse_url base = Some base"
  shows "door_address parse_url (Some (fst (door_columns d))) (snd (door_columns d)) =
    (case d of UnixSocket p token \<Rightarrow> UnixSocket p None | _ \<Rightarrow> d)"
  using assms by (cases d) (auto simp: door_address_def rsplit_once_join)

end
