(* ===== verification/Reminders.thy ===== *)
theory Reminders
  imports Mail
begin

text \<open>
  Durable schedules over the mailbox, \<open>boop-store/src/1_reminder.rs\<close>. A transaction is the
  operation with the store restored on an error; its commit is a statement that can be refused.
  Times are integers. A sum past 64 bits is refused where the code checks it; where SQLite adds, it
  stores a floating-point number, which no later reading of the table accepts as an \<open>i64\<close>.
\<close>

subsection \<open>Transactions\<close>

definition tx :: "('o, 'a) mio \<Rightarrow> ('o, 'a) mio" where
  "tx m w = (case m w of
       (Inl e, w') \<Rightarrow> (Inl e, w'\<lparr>mw_store := mw_store w\<rparr>)
     | (Inr a, w') \<Rightarrow> (Inr a, w'))"

definition tx_commit :: "('o, unit) mio" where
  "tx_commit = db_write (\<lambda>s. s)"

definition ensure :: "bool \<Rightarrow> string \<Rightarrow> ('o, unit) mio" where
  "ensure b e = (if b then io_ok () else io_err e)"

text \<open>An update and the number of the rows it changed.\<close>

definition db_update ::
  "(mail_store \<Rightarrow> reminder \<Rightarrow> bool) \<Rightarrow> (reminder \<Rightarrow> reminder) \<Rightarrow> ('o, nat) mio" where
  "db_update sel f w =
     (let s = mw_store w
      in case db_write (\<lambda>s. s\<lparr>ml_reminders := map (\<lambda>r. if sel s r then f r else r) (ml_reminders s)\<rparr>) w of
           (Inl e, w') \<Rightarrow> (Inl e, w')
         | (Inr u, w') \<Rightarrow> (Inr (length (filter (sel s) (ml_reminders s))), w'))"

subsection \<open>The table\<close>

definition reminder_is_active :: "reminder \<Rightarrow> bool" where
  "reminder_is_active r \<longleftrightarrow> rm_state r = ''active''"

definition reminders :: "('o, reminder list) mio" where
  "reminders =
     io_bind (db_read (\<lambda>s. sort_key rm_name (ml_reminders s))) (\<lambda>all.
     if list_ex (\<lambda>r. 2 ^ 63 \<le> rm_next_ms r) all
     then io_err ''Invalid column type Real at index: 5, name: next_ms'' else io_ok all)"

text \<open>The primary key, and the unique index over the active routes.\<close>

definition insert_reminder :: "reminder \<Rightarrow> ('o, unit) mio" where
  "insert_reminder r w =
     (if list_ex (\<lambda>x. rm_name x = rm_name r \<or> reminder_is_active x \<and> rm_route x = rm_route r)
           (ml_reminders (mw_store w))
      then (Inl ''UNIQUE constraint failed'', w\<lparr>mw_calls := mw_calls w + 1\<rparr>)
      else db_write (\<lambda>s. s\<lparr>ml_reminders := ml_reminders s @ [r]\<rparr>) w)"

definition reminder_add :: "string \<Rightarrow> string \<Rightarrow> string \<Rightarrow> int \<Rightarrow> int \<Rightarrow> int \<Rightarrow> ('o, unit) mio" where
  "reminder_add name route body every til now = tx (
     io_bind (ensure (trim name \<noteq> [] \<and> trim body \<noteq> []) ''name and body must be nonempty'') (\<lambda>_.
     io_bind (ensure (0 < every \<and> now < til) ''positive interval and future expiry required'') (\<lambda>_.
     io_bind (db_read ml_routes) (\<lambda>rs.
     io_bind (ensure (map_of rs route \<noteq> None) (''no registered route '' @ route)) (\<lambda>_.
     io_bind reminders (\<lambda>all.
     io_bind (ensure (length (filter reminder_is_active all) < 32)
       ''at most 32 active reminders per mail directory'') (\<lambda>_.
     io_bind (ensure (now + every < 2 ^ 63) ''interval overflow'') (\<lambda>_.
     io_bind (insert_reminder
       \<lparr>rm_name = name, rm_route = route, rm_body = body, rm_every_ms = every, rm_until_ms = til,
        rm_next_ms = now + every, rm_state = ''active'', rm_last_message = None, rm_detail = []\<rparr>) (\<lambda>_.
     tx_commit)))))))))"

definition reminder_cancel :: "string \<Rightarrow> ('o, bool) mio" where
  "reminder_cancel name =
     io_bind (db_update (\<lambda>s r. rm_name r = name \<and> reminder_is_active r)
       (\<lambda>r. r\<lparr>rm_state := ''cancelled'', rm_detail := ''cancelled by caller''\<rparr>)) (\<lambda>n. io_ok (0 < n))"

definition reminder_expire :: "int \<Rightarrow> ('o, unit) mio" where
  "reminder_expire now =
     io_bind (db_update (\<lambda>s r. reminder_is_active r \<and> rm_until_ms r \<le> now)
       (\<lambda>r. r\<lparr>rm_state := ''expired'', rm_detail := ''expiry reached''\<rparr>)) (\<lambda>_. io_ok ())"

definition reminder_detail :: "string \<Rightarrow> string \<Rightarrow> ('o, unit) mio" where
  "reminder_detail name detail =
     io_bind (db_update (\<lambda>s r. rm_name r = name \<and> rm_detail r \<noteq> detail) (\<lambda>r. r\<lparr>rm_detail := detail\<rparr>)) (\<lambda>_. io_ok ())"

subsection \<open>Occurrences\<close>

text \<open>An occurrence is complete when a turn ended on it or its route replied.\<close>

definition completed :: "string \<Rightarrow> string \<Rightarrow> mail_store \<Rightarrow> bool" where
  "completed i route s \<longleftrightarrow>
     list_ex (\<lambda>t. dr_message t = i \<and> dr_outcome t \<in> {''turn-ended'', ''reply-appended''}) (ml_transitions s) \<or>
     list_ex (\<lambda>m. mg_reply_to m = Some i \<and> kind_str (mg_kind m) = ''reply'' \<and> mg_from m = route) (ml_mail s)"

definition latest_outcome :: "string \<Rightarrow> mail_store \<Rightarrow> string option" where
  "latest_outcome i s =
     (let rows = message_transitions i s in if rows = [] then None else Some (dr_outcome (last rows)))"

definition uncertain :: "string option \<Rightarrow> bool" where
  "uncertain oc \<longleftrightarrow> oc \<in> {Some ''appended'', Some ''submitted-to-harness'', Some ''accepted-by-harness''}"

definition refused :: "string option \<Rightarrow> bool" where
  "refused oc \<longleftrightarrow>
     oc \<in> {Some ''held-in-mailbox'', Some ''held-for-turn-boundary'', Some ''cooled-off'', Some ''rejected-by-harness''}"

definition outstanding_elsewhere :: "mail_store \<Rightarrow> reminder \<Rightarrow> bool" where
  "outstanding_elsewhere s r \<longleftrightarrow> list_ex (\<lambda>x. rm_route x = rm_route r \<and> rm_name x \<noteq> rm_name r \<and>
     (case rm_last_message x of None \<Rightarrow> False
      | Some i \<Rightarrow> \<not> completed i (rm_route x) s \<and> uncertain (latest_outcome i s))) (ml_reminders s)"

definition claimable :: "string \<Rightarrow> int \<Rightarrow> mail_store \<Rightarrow> reminder \<Rightarrow> bool" where
  "claimable name now s r \<longleftrightarrow>
     rm_name r = name \<and> reminder_is_active r \<and> rm_next_ms r \<le> now \<and> now < rm_until_ms r \<and>
     (case rm_last_message r of None \<Rightarrow> True | Some i \<Rightarrow> completed i (rm_route r) s) \<and>
     \<not> outstanding_elsewhere s r"


text \<open>The envelope of an occurrence; \<open>stampf\<close> is the text of a time, \<open>mint\<close> the source of identities.\<close>

definition occurrence :: "string \<Rightarrow> reminder \<Rightarrow> string \<Rightarrow> string \<Rightarrow> message" where
  "occurrence name r i stamp =
     \<lparr>mg_id = i, mg_from = ''reminder:'' @ name, mg_to = rm_route r, mg_from_timestamp = stamp, mg_to_timestamp = None,
      mg_kind = kind_from ''request'', mg_reply_to = None, mg_body = rm_body r, mg_ref = Some (''reminder:'' @ name),
      mg_rc = None, mg_detail = None\<rparr>"

text \<open>The row just updated is found and has its message; the two \<open>unwrap\<close>s are the panic branches.\<close>

definition reminder_claim ::
  "('o \<Rightarrow> string \<times> 'o) \<Rightarrow> (u64 \<Rightarrow> string) \<Rightarrow> string \<Rightarrow> int \<Rightarrow> ('o, message option) mio" where
  "reminder_claim mint stampf name now = tx (
     io_bind (outside_call mint) (\<lambda>i.
     io_bind (db_update (claimable name now)
       (\<lambda>r. r\<lparr>rm_next_ms := now + rm_every_ms r, rm_last_message := Some i,
              rm_detail := ''claimed; awaiting delivery receipt''\<rparr>)) (\<lambda>n.
     if n = 0 then io_ok None
     else io_bind reminders (\<lambda>all. case find (\<lambda>r. rm_name r = name) all of
         None \<Rightarrow> io_err ''panic''
       | Some r \<Rightarrow> (case rm_last_message r of
           None \<Rightarrow> io_err ''panic''
         | Some i \<Rightarrow> io_bind now_ms (\<lambda>t.
             let m = occurrence name r i (stampf t)
             in io_bind (write_message m ''reminder'') (\<lambda>_.
                io_bind tx_commit (\<lambda>_. io_ok (Some m)))))))))"

definition retriable :: "string \<Rightarrow> int \<Rightarrow> mail_store \<Rightarrow> reminder \<Rightarrow> bool" where
  "retriable name now s r \<longleftrightarrow>
     rm_name r = name \<and> reminder_is_active r \<and> now < rm_until_ms r \<and> rm_next_ms r \<le> now \<and>
     (case rm_last_message r of None \<Rightarrow> False
      | Some i \<Rightarrow> refused (latest_outcome i s) \<and>
          list_ex (\<lambda>m. mg_id m = i \<and> mg_to_timestamp m = None) (ml_mail s) \<and>
          \<not> list_ex (\<lambda>t. dr_message t = i \<and> dr_outcome t \<in> {''accepted-by-harness'', ''turn-ended''}) (ml_transitions s))"

definition reminder_retry :: "string \<Rightarrow> u64 \<Rightarrow> ('o, message option) mio" where
  "reminder_retry name now = tx (
     io_bind (db_update (retriable name (i64 now)) (\<lambda>r. r\<lparr>rm_next_ms := i64 now + rm_every_ms r\<rparr>)) (\<lambda>n.
     if n = 0 then io_ok None
     else io_bind (db_read (\<lambda>s. Option.bind (find (\<lambda>r. rm_name r = name) (ml_reminders s)) rm_last_message)) (\<lambda>last.
       case last of None \<Rightarrow> io_err ''Query returned no rows''
       | Some i \<Rightarrow>
         io_bind messages_in (\<lambda>ms.
         let found = find (\<lambda>m. mg_id m = i) ms
         in io_bind (case found of
              None \<Rightarrow> io_ok ()
            | Some m \<Rightarrow> append_delivery_transition i (mg_to m) None ''submitted-to-harness''
                ''reminder retry claimed; outcome uncertain until receipt'' None now) (\<lambda>_.
            io_bind tx_commit (\<lambda>_. io_ok found))))))"

end
