(* ===== verification/ReminderProofs.thy ===== *)
theory ReminderProofs
  imports Reminders MailTheorems
begin

text \<open>
  Runs of the reminder operations between arbitrary changes elsewhere: the table stays consistent,
  the occurrences of one reminder are an interval apart, and none follows an occurrence whose
  outcome is uncertain.
\<close>

subsection \<open>Transactions and updates\<close>

lemma tx_err: "tx m w = (Inl e, w') \<Longrightarrow> mw_store w' = mw_store w"
  by (auto simp: tx_def split: prod.splits sum.splits)

lemma tx_ok: "tx m w = (Inr a, w') \<longleftrightarrow> m w = (Inr a, w')"
  by (auto simp: tx_def split: prod.splits sum.splits)

lemma db_update_ok:
  assumes "db_update sel f w = (Inr n, w')"
  shows "n = length (filter (sel (mw_store w)) (ml_reminders (mw_store w)))"
    and "mw_store w' = (mw_store w)\<lparr>ml_reminders :=
      map (\<lambda>r. if sel (mw_store w) r then f r else r) (ml_reminders (mw_store w))\<rparr>"
  using assms by (auto simp: db_update_def db_write_def Let_def split: if_splits)

lemma db_update_err: "db_update sel f w = (Inl e, w') \<Longrightarrow> mw_store w' = mw_store w"
  by (auto simp: db_update_def db_write_def Let_def split: if_splits)

lemma db_read_any: "db_read f w = (r, w') \<Longrightarrow> mw_store w' = mw_store w"
  by (auto simp: db_read_def split: if_splits)

lemma db_write_ok: "db_write f w = (Inr u, w') \<Longrightarrow> mw_store w' = f (mw_store w)"
  by (auto simp: db_write_def split: if_splits)

lemma tx_commit_ok: "tx_commit w = (Inr u, w') \<Longrightarrow> mw_store w' = mw_store w"
  unfolding tx_commit_def by (drule db_write_ok) simp

lemma ensure_ok: "ensure b e w = (Inr u, w') \<longleftrightarrow> b \<and> w' = w"
  by (auto simp: ensure_def)

lemma find_in: "find P xs = Some x \<Longrightarrow> x \<in> set xs \<and> P x"
  by (induction xs) (auto split: if_splits)

text \<open>The transitions after one more row of a message.\<close>

definition with_row :: "string \<Rightarrow> string \<Rightarrow> string \<Rightarrow> mail_store \<Rightarrow> mail_store \<Rightarrow> bool" where
  "with_row i oc d s s' \<longleftrightarrow> (\<exists>row. ml_transitions s' = ml_transitions s @ [row] \<and> dr_message row = i \<and>
     dr_outcome row = oc \<and> dr_detail row = d \<and> dr_sequence row = next_sequence i s)"

lemma append_transition_store:
  assumes "append_delivery_transition i route h oc d e at w = (Inr u, w')"
  shows "with_row i oc d (mw_store w) (mw_store w') \<and> ml_reminders (mw_store w') = ml_reminders (mw_store w) \<and>
    ml_mail (mw_store w') = ml_mail (mw_store w) \<and> ml_routes (mw_store w') = ml_routes (mw_store w)"
  using assms
  by (auto simp: append_delivery_transition_def Let_def db_write_def io_bind_def with_row_def next_sequence_def split: if_splits)

lemma write_message_store:
  assumes "write_message m d w = (Inr u, w')"
  shows "ml_reminders (mw_store w') = ml_reminders (mw_store w) \<and> ml_routes (mw_store w') = ml_routes (mw_store w) \<and>
    ml_mail (mw_store w') = ml_mail (put_mail m (mw_store w)) \<and>
    (if has_transition (mg_id m) (mw_store w) then ml_transitions (mw_store w') = ml_transitions (mw_store w)
     else with_row (mg_id m) ''appended'' d (mw_store w) (mw_store w'))"
proof -
  have put: "ml_reminders (put_mail m s) = ml_reminders s" "ml_routes (put_mail m s) = ml_routes s"
     "ml_transitions (put_mail m s) = ml_transitions s"
     "ml_mail s = ml_mail t \<Longrightarrow> ml_mail (put_mail m s) = ml_mail (put_mail m t)" for s t
    by (simp_all add: put_mail_def Let_def)
  let ?app = "append_delivery_transition (mg_id m) (mg_to m) None (state_str DsAppended) d None"
  from assms [unfolded write_message_def] show ?thesis
  proof (cases rule: bind_run)
    case (err e) then show ?thesis by simp
  next
    case (ok known w1)
    then have known: "known = has_transition (mg_id m) (mw_store w)" and s1: "mw_store w1 = mw_store w"
      by (auto simp: has_delivery_transition_def dest: db_read_Inr)
    show ?thesis
    proof (cases known)
      case True
      then have "db_write (put_mail m) w1 = (Inr u, w')" using ok(2) by (simp add: io_bind_def)
      then have "mw_store w' = put_mail m (mw_store w)" using s1 by (simp add: db_write_ok)
      then show ?thesis using True known by (simp add: put(1-3))
    next
      case False
      obtain w2 where ap: "io_bind now_ms ?app w1 = (Inr (), w2)" and b: "db_write (put_mail m) w2 = (Inr u, w')"
        using ok(2) [unfolded if_not_P [OF False] io_bind_eq_Ok [where f = "\<lambda>_. db_write (put_mail m)"]] by auto
      have a: "?app (mw_clock w1 (mw_ticks w1)) (w1\<lparr>mw_ticks := mw_ticks w1 + 1\<rparr>) = (Inr (), w2)"
        using ap unfolding io_bind_eq_Ok by (auto simp: now_ms_def)
      note st = append_transition_store [OF a]
      have "mw_store w' = put_mail m (mw_store w2)" using b by (rule db_write_ok)
      then show ?thesis
        using False known s1 st put(4) [of "mw_store w2" "mw_store w"] by (simp add: put(1-3) with_row_def)
    qed
  qed
qed

lemma store_frame [simp]:
  "has_transition i (s\<lparr>ml_reminders := x\<rparr>) = has_transition i s"
  "with_row i oc d (s\<lparr>ml_reminders := x\<rparr>) t = with_row i oc d s t"
  "latest_outcome i (s\<lparr>ml_reminders := x\<rparr>) = latest_outcome i s"
  "completed i route (s\<lparr>ml_reminders := x\<rparr>) = completed i route s"
  by (simp_all add: has_transition_def with_row_def next_sequence_def latest_outcome_def message_transitions_def completed_def)

subsection \<open>Claims and retries\<close>

text \<open>What a claim that returns does to the store.\<close>

definition claimed :: "string \<Rightarrow> int \<Rightarrow> string \<Rightarrow> reminder \<Rightarrow> reminder" where
  "claimed name now i r = r\<lparr>rm_next_ms := now + rm_every_ms r, rm_last_message := Some i,
     rm_detail := ''claimed; awaiting delivery receipt''\<rparr>"

lemma db_read_ok: "db_read f w = (Inr a, w') \<Longrightarrow> a = f (mw_store w)" "db_read f w = (Inr a, w') \<Longrightarrow> mw_store w' = mw_store w"
  by (auto simp: db_read_def split: if_splits)

lemma reminders_ok_read:
  "reminders w = (Inr all, w') \<Longrightarrow> all = sort_key rm_name (ml_reminders (mw_store w)) \<and> mw_store w' = mw_store w"
  unfolding reminders_def by (auto simp: io_bind_eq_Ok dest: db_read_ok split: if_splits)

lemma claim_cases:
  assumes "reminder_claim mint stampf name now w = (x, w')"
  obtains (off) "mw_store w' = mw_store w" "\<And>m. x \<noteq> Inr (Some m)"
    | (fired) r i m where "x = Inr (Some m)" "i = fst (mint (mw_out w))"
      "r \<in> set (ml_reminders (mw_store w))" "claimable name now (mw_store w) r"
      "ml_reminders (mw_store w') = map (\<lambda>r. if claimable name now (mw_store w) r then claimed name now i r else r)
        (ml_reminders (mw_store w))"
      "mg_kind m = MkRequest" "mg_reply_to m = None"
      "distinct (map rm_name (ml_reminders (mw_store w))) \<Longrightarrow> mg_id m = i \<and> mg_to m = rm_route r"
      "ml_mail (mw_store w') = ml_mail (put_mail m (mw_store w))"
      "if has_transition (mg_id m) (mw_store w) then ml_transitions (mw_store w') = ml_transitions (mw_store w)
       else with_row (mg_id m) ''appended'' ''reminder'' (mw_store w) (mw_store w')"
proof (cases x)
  case (Inl e)
  then show thesis using assms off tx_err unfolding reminder_claim_def by blast
next
  case (Inr res)
  obtain i q where i: "mint (mw_out w) = (i, q)" by fastforce
  let ?w = "w\<lparr>mw_out := q\<rparr>" and ?s = "mw_store w"
  let ?f = "\<lambda>r. r\<lparr>rm_next_ms := now + rm_every_ms r, rm_last_message := Some i,
     rm_detail := ''claimed; awaiting delivery receipt''\<rparr>"
  obtain n w1 where n: "db_update (claimable name now) ?f ?w = (Inr n, w1)"
    and rest: "(if n = 0 then io_ok None
     else io_bind reminders (\<lambda>all. case find (\<lambda>r. rm_name r = name) all of
         None \<Rightarrow> io_err ''panic''
       | Some r \<Rightarrow> (case rm_last_message r of
           None \<Rightarrow> io_err ''panic''
         | Some i \<Rightarrow> io_bind now_ms (\<lambda>t.
             let m = occurrence name r i (stampf t)
             in io_bind (write_message m ''reminder'') (\<lambda>_.
                io_bind tx_commit (\<lambda>_. io_ok (Some m))))))) w1 = (Inr res, w')"
    using assms Inr i by (auto simp: reminder_claim_def tx_ok io_bind_eq_Ok outside_call_def)
  note u = db_update_ok [OF n]
  show thesis
  proof (cases "n = 0")
    case True
    then have "filter (claimable name now ?s) (ml_reminders ?s) = []" using u(1) by simp
    then have "map (\<lambda>r. if claimable name now ?s r then ?f r else r) (ml_reminders ?s) = ml_reminders ?s"
      by (intro map_idI) (auto simp: filter_empty_conv)
    then have "mw_store w1 = ?s" using u(2) by simp
    then show thesis using True rest off Inr by auto
  next
    case False
    then obtain r where r: "r \<in> set (ml_reminders ?s)" "claimable name now ?s r"
      using u(1) by (auto simp: filter_empty_conv)
    let ?all = "sort_key rm_name (ml_reminders (mw_store w1))"
    have "n \<noteq> 0" using False .
    from rest [unfolded if_not_P [OF this] io_bind_eq_Ok] obtain all w2 where
      all: "reminders w1 = (Inr all, w2)" and rest2: "(case find (\<lambda>r. rm_name r = name) all of
         None \<Rightarrow> io_err ''panic''
       | Some r \<Rightarrow> (case rm_last_message r of
           None \<Rightarrow> io_err ''panic''
         | Some i \<Rightarrow> io_bind now_ms (\<lambda>t.
             let m = occurrence name r i (stampf t)
             in io_bind (write_message m ''reminder'') (\<lambda>_.
                io_bind tx_commit (\<lambda>_. io_ok (Some m)))))) w2 = (Inr res, w')" by auto
    have a: "all = ?all" "mw_store w2 = mw_store w1"
      using reminders_ok_read [OF all] by simp_all
    obtain r' where r': "find (\<lambda>r. rm_name r = name) ?all = Some r'"
      using rest2 a(1) by (cases "find (\<lambda>r. rm_name r = name) ?all") auto
    obtain i' where i': "rm_last_message r' = Some i'"
      using rest2 a(1) r' by (cases "rm_last_message r'") auto
    let ?m = "occurrence name r' i' (stampf (mw_clock w2 (mw_ticks w2)))"
    from rest2 a(1) r' i' obtain w3 w4 where
      w: "write_message ?m ''reminder'' (w2\<lparr>mw_ticks := mw_ticks w2 + 1\<rparr>) = (Inr (), w3)"
        "tx_commit w3 = (Inr (), w4)" "res = Some ?m" "w' = w4"
      by (auto simp: io_bind_eq_Ok now_ms_def Let_def)
    note wr = write_message_store [OF w(1)]
    have s4: "mw_store w' = mw_store w3" using w(2,4) tx_commit_ok by simp
    have s2: "mw_store w2 = ?s\<lparr>ml_reminders := map (\<lambda>r. if claimable name now ?s r then claimed name now i r else r) (ml_reminders ?s)\<rparr>"
      using a(2) u(2) by (simp add: claimed_def)
    have same: "mg_id ?m = i \<and> mg_to ?m = rm_route r" if d: "distinct (map rm_name (ml_reminders ?s))"
    proof -
      have "r' \<in> set (ml_reminders (mw_store w1))" "rm_name r' = name" using find_in [OF r'] by simp_all
      then obtain r0 where r0: "r0 \<in> set (ml_reminders ?s)" "r' = (if claimable name now ?s r0 then claimed name now i r0 else r0)"
        using s2 a(2) by auto
      then have "rm_name r0 = name" using \<open>rm_name r' = name\<close> by (auto simp: claimed_def split: if_splits)
      then have "r0 = r" using d r r0 by (auto simp: claimable_def distinct_map inj_on_def)
      then show ?thesis using r0 r i' by (simp add: occurrence_def claimed_def)
    qed
    have put: "ml_mail (put_mail ?m (mw_store w2)) = ml_mail (put_mail ?m ?s)"
      using s2 by (simp add: put_mail_def Let_def)
    show thesis
    proof (rule fired [of ?m "fst (mint (mw_out w))" r])
      show "x = Inr (Some ?m)" using Inr w(3) by simp
      show "fst (mint (mw_out w)) = fst (mint (mw_out w))" ..
      show "r \<in> set (ml_reminders ?s)" "claimable name now ?s r" using r .
      show "ml_reminders (mw_store w') = map (\<lambda>r. if claimable name now ?s r then claimed name now (fst (mint (mw_out w))) r else r) (ml_reminders ?s)"
        using wr s4 s2 i by simp
      show "mg_kind ?m = MkRequest" by (simp add: occurrence_def kind_from_def kind_words_def)
      show "mg_reply_to ?m = None" by (simp add: occurrence_def)
      show "distinct (map rm_name (ml_reminders ?s)) \<Longrightarrow> mg_id ?m = fst (mint (mw_out w)) \<and> mg_to ?m = rm_route r"
        using same i by simp
      show "ml_mail (mw_store w') = ml_mail (put_mail ?m ?s)" using wr s4 put by simp
      show "if has_transition (mg_id ?m) ?s then ml_transitions (mw_store w') = ml_transitions ?s
         else with_row (mg_id ?m) ''appended'' ''reminder'' ?s (mw_store w')"
        using wr s4 by (simp add: s2 split: if_splits)
    qed
  qed
qed

lemma retry_cases:
  assumes "reminder_retry name now w = (x, w')" and d: "distinct (map rm_name (ml_reminders (mw_store w)))"
  obtains (off) "mw_store w' = mw_store w" "\<And>m. x \<noteq> Inr (Some m)"
    | (fired) r m where "x = Inr (Some m)"
      "r \<in> set (ml_reminders (mw_store w))" "retriable name (i64 now) (mw_store w) r"
      "ml_reminders (mw_store w') = map (\<lambda>r. if retriable name (i64 now) (mw_store w) r
        then r\<lparr>rm_next_ms := i64 now + rm_every_ms r\<rparr> else r) (ml_reminders (mw_store w))"
      "ml_mail (mw_store w') = ml_mail (mw_store w)"
      "rm_last_message r = Some (mg_id m)"
      "with_row (mg_id m) ''submitted-to-harness'' ''reminder retry claimed; outcome uncertain until receipt'' (mw_store w) (mw_store w')"
proof (cases x)
  case (Inl e)
  then show thesis using assms(1) off tx_err unfolding reminder_retry_def by blast
next
  case (Inr res)
  let ?s = "mw_store w" and ?f = "\<lambda>r. r\<lparr>rm_next_ms := i64 now + rm_every_ms r\<rparr>"
  let ?last = "\<lambda>s. Option.bind (find (\<lambda>r. rm_name r = name) (ml_reminders s)) rm_last_message"
  let ?app = "\<lambda>i m. append_delivery_transition i (mg_to m) None ''submitted-to-harness''
                ''reminder retry claimed; outcome uncertain until receipt'' None now"
  obtain n w1 where n: "db_update (retriable name (i64 now)) ?f w = (Inr n, w1)"
    and rest: "(if n = 0 then io_ok None
     else io_bind (db_read ?last) (\<lambda>last. case last of None \<Rightarrow> io_err ''Query returned no rows''
       | Some i \<Rightarrow> io_bind messages_in (\<lambda>ms. let found = find (\<lambda>m. mg_id m = i) ms
         in io_bind (case found of None \<Rightarrow> io_ok () | Some m \<Rightarrow> ?app i m) (\<lambda>_. io_bind tx_commit (\<lambda>_. io_ok found))))) w1 = (Inr res, w')"
    using assms(1) Inr by (auto simp: reminder_retry_def tx_ok io_bind_eq_Ok)
  note u = db_update_ok [OF n]
  show thesis
  proof (cases "n = 0")
    case True
    then have "filter (retriable name (i64 now) ?s) (ml_reminders ?s) = []" using u(1) by simp
    then have "map (\<lambda>r. if retriable name (i64 now) ?s r then ?f r else r) (ml_reminders ?s) = ml_reminders ?s"
      by (intro map_idI) (auto simp: filter_empty_conv)
    then have "mw_store w1 = ?s" using u(2) by simp
    then show thesis using True rest off Inr by auto
  next
    case False
    then obtain r where r: "r \<in> set (ml_reminders ?s)" "retriable name (i64 now) ?s r"
      using u(1) by (auto simp: filter_empty_conv)
    from rest [unfolded if_not_P [OF False] io_bind_eq_Ok] obtain last w2 where
      l: "db_read ?last w1 = (Inr last, w2)" and rest2: "(case last of None \<Rightarrow> io_err ''Query returned no rows''
       | Some i \<Rightarrow> io_bind messages_in (\<lambda>ms. let found = find (\<lambda>m. mg_id m = i) ms
         in io_bind (case found of None \<Rightarrow> io_ok () | Some m \<Rightarrow> ?app i m) (\<lambda>_. io_bind tx_commit (\<lambda>_. io_ok found)))) w2 = (Inr res, w')"
      by auto
    note l = db_read_ok [OF l]
    obtain i where i: "last = Some i" using rest2 by (cases last) auto
    obtain ms w3 where ms: "messages_in w2 = (Inr ms, w3)" and
      rest3: "io_bind (case find (\<lambda>m. mg_id m = i) ms of None \<Rightarrow> io_ok () | Some m \<Rightarrow> ?app i m)
        (\<lambda>_. io_bind tx_commit (\<lambda>_. io_ok (find (\<lambda>m. mg_id m = i) ms))) w3 = (Inr res, w')"
      using rest2 i unfolding io_bind_eq_Ok by (auto simp: io_bind_eq_Ok Let_def)
    have ms': "ms = ml_mail ?s" "mw_store w3 = mw_store w1"
      using db_read_ok [OF ms [unfolded messages_in_def]] l(2) u(2) by auto
    have s3: "mw_store w3 = ?s\<lparr>ml_reminders := map (\<lambda>r. if retriable name (i64 now) ?s r then ?f r else r) (ml_reminders ?s)\<rparr>"
      using ms'(2) u(2) by simp
    have "find (\<lambda>r. rm_name r = name) (ml_reminders (mw_store w1)) = Some (?f r)"
    proof -
      have "find (\<lambda>r. rm_name r = name) (ml_reminders (mw_store w1)) \<noteq> None"
        using l(1) i by (cases "find (\<lambda>r. rm_name r = name) (ml_reminders (mw_store w1))") auto
      then obtain r' where r': "find (\<lambda>r. rm_name r = name) (ml_reminders (mw_store w1)) = Some r'" by blast
      then obtain r0 where r0: "r0 \<in> set (ml_reminders ?s)" "r' = (if retriable name (i64 now) ?s r0 then ?f r0 else r0)"
        using u(2) find_in [OF r'] by auto
      then have "rm_name r0 = name" using find_in [OF r'] by (auto split: if_splits)
      then have "r0 = r" using d r r0 by (auto simp: retriable_def distinct_map inj_on_def)
      then show ?thesis using r0 r r' by simp
    qed
    then have last: "rm_last_message r = Some i" using l(1) i by simp
    have "find (\<lambda>m. mg_id m = i) ms \<noteq> None"
      using r(2) last ms'(1) by (auto simp: retriable_def find_None_iff list_ex_iff)
    then obtain m where m: "find (\<lambda>m. mg_id m = i) ms = Some m" by blast
    have mi: "mg_id m = i" using find_in [OF m] by simp
    obtain w4 w5 where w: "?app i m w3 = (Inr (), w4)" "tx_commit w4 = (Inr (), w5)" "res = Some m" "w' = w5"
      using rest3 m by (auto simp: io_bind_eq_Ok)
    note st = append_transition_store [OF w(1)]
    have s5: "mw_store w' = mw_store w4" using w(2,4) tx_commit_ok by simp
    show thesis
    proof (rule fired [of m r])
      show "x = Inr (Some m)" using Inr w(3) by simp
      show "r \<in> set (ml_reminders ?s)" "retriable name (i64 now) ?s r" using r .
      show "ml_reminders (mw_store w') = map (\<lambda>r. if retriable name (i64 now) ?s r then ?f r else r) (ml_reminders ?s)"
        using st s5 s3 by simp
      show "ml_mail (mw_store w') = ml_mail ?s" using st s5 s3 by simp
      show "rm_last_message r = Some (mg_id m)" using last mi by simp
      show "with_row (mg_id m) ''submitted-to-harness'' ''reminder retry claimed; outcome uncertain until receipt'' ?s (mw_store w')"
        using st s5 mi by (simp add: s3)
    qed
  qed
qed

subsection \<open>The other operations\<close>

text \<open>Only the table of reminders differs.\<close>

definition table_only :: "mail_store \<Rightarrow> mail_store \<Rightarrow> bool" where
  "table_only s s' \<longleftrightarrow> (\<exists>rs. s' = s\<lparr>ml_reminders := rs\<rparr>)"

lemma table_only_same: "s' = s \<Longrightarrow> table_only s s'"
  by (simp add: table_only_def, rule exI [of _ "ml_reminders s"], simp)

lemma update_cases:
  assumes "io_bind (db_update sel f) (\<lambda>n. io_ok (g n)) w = (x, w')"
  shows "mw_store w' = mw_store w \<or> mw_store w' = (mw_store w)\<lparr>ml_reminders :=
      map (\<lambda>r. if sel (mw_store w) r then f r else r) (ml_reminders (mw_store w))\<rparr>"
  using assms by (cases rule: bind_run) (auto dest: db_update_err db_update_ok)

lemma add_cases:
  assumes "reminder_add name route body every til now w = (x, w')"
  obtains (off) "mw_store w' = mw_store w"
    | (added) r where "mw_store w' = (mw_store w)\<lparr>ml_reminders := ml_reminders (mw_store w) @ [r]\<rparr>"
      "rm_name r = name" "rm_route r = route" "rm_last_message r = None" "0 < rm_every_ms r" "reminder_is_active r"
      "\<And>y. y \<in> set (ml_reminders (mw_store w)) \<Longrightarrow> rm_name y \<noteq> name \<and> \<not> (reminder_is_active y \<and> rm_route y = route)"
      "length (filter reminder_is_active (ml_reminders (mw_store w))) < 32"
proof (cases x)
  case (Inl e)
  then show thesis using assms off tx_err unfolding reminder_add_def by blast
next
  case (Inr u)
  let ?r = "\<lparr>rm_name = name, rm_route = route, rm_body = body, rm_every_ms = every, rm_until_ms = til,
        rm_next_ms = now + every, rm_state = ''active'', rm_last_message = None, rm_detail = []\<rparr>"
  have run: "reminder_add name route body every til now w = (Inr (), w')" using assms Inr by simp
  then obtain rs w1 all w2 w3 where a: "0 < every" "db_read ml_routes w = (Inr rs, w1)" "reminders w1 = (Inr all, w2)"
      "length (filter reminder_is_active all) < 32" "insert_reminder ?r w2 = (Inr (), w3)" "tx_commit w3 = (Inr (), w')"
    unfolding reminder_add_def tx_ok by (auto simp: io_bind_eq_Ok ensure_ok)
  have s2: "mw_store w2 = mw_store w" "all = sort_key rm_name (ml_reminders (mw_store w))"
    using reminders_ok_read [OF a(3)] db_read_ok(2) [OF a(2)] by simp_all
  have ins: "mw_store w3 = (mw_store w)\<lparr>ml_reminders := ml_reminders (mw_store w) @ [?r]\<rparr>"
      "\<not> list_ex (\<lambda>x. rm_name x = name \<or> reminder_is_active x \<and> rm_route x = route) (ml_reminders (mw_store w))"
    using a(5) s2(1) by (auto simp: insert_reminder_def split: if_splits dest: db_write_ok)
  have "length (filter reminder_is_active all) = length (filter reminder_is_active (ml_reminders (mw_store w)))"
    by (simp add: s2(2) filter_sort)
  then show thesis
    using ins a tx_commit_ok [OF a(6)]
    by (intro added [of ?r]) (auto simp: list_ex_iff reminder_is_active_def)
qed

subsection \<open>Runs\<close>

text \<open>What a runner and the callers do, in any order, between arbitrary changes elsewhere. A run
  yields the occurrences it sends, as the name and the time given.\<close>

datatype 'o reminder_op =
  OpAdd string string string int int int
| OpCancel string
| OpExpire int
| OpDetail string string
| OpClaim string int
| OpRetry string u64
| OpElsewhere "'o mail_world \<Rightarrow> 'o mail_world"

fun sent :: "string \<Rightarrow> int \<Rightarrow> string + message option \<Rightarrow> (string \<times> int) list" where
  "sent name now (Inr (Some m)) = [(name, now)]"
| "sent name now x = []"

fun reminder_op_step ::
  "('o \<Rightarrow> string \<times> 'o) \<Rightarrow> (u64 \<Rightarrow> string) \<Rightarrow> 'o reminder_op \<Rightarrow> 'o mail_world \<Rightarrow> (string \<times> int) list \<times> 'o mail_world" where
  "reminder_op_step mint stampf (OpAdd name route body every til now) w = ([], snd (reminder_add name route body every til now w))"
| "reminder_op_step mint stampf (OpCancel name) w = ([], snd (reminder_cancel name w))"
| "reminder_op_step mint stampf (OpExpire now) w = ([], snd (reminder_expire now w))"
| "reminder_op_step mint stampf (OpDetail name d) w = ([], snd (reminder_detail name d w))"
| "reminder_op_step mint stampf (OpClaim name now) w =
     (case reminder_claim mint stampf name now w of (x, w') \<Rightarrow> (sent name now x, w'))"
| "reminder_op_step mint stampf (OpRetry name now) w =
     (case reminder_retry name now w of (x, w') \<Rightarrow> (sent name (i64 now) x, w'))"
| "reminder_op_step mint stampf (OpElsewhere f) w = ([], f w)"

fun reminder_run ::
  "('o \<Rightarrow> string \<times> 'o) \<Rightarrow> (u64 \<Rightarrow> string) \<Rightarrow> 'o reminder_op list \<Rightarrow> 'o mail_world \<Rightarrow> (string \<times> int) list \<times> 'o mail_world" where
  "reminder_run mint stampf [] w = ([], w)"
| "reminder_run mint stampf (op # ops) w =
     (case reminder_op_step mint stampf op w of (xs, w1) \<Rightarrow>
      (case reminder_run mint stampf ops w1 of (ys, w2) \<Rightarrow> (xs @ ys, w2)))"

text \<open>A change elsewhere does not write the table of reminders.\<close>

fun leaves_reminders :: "'o reminder_op \<Rightarrow> bool" where
  "leaves_reminders (OpElsewhere f) \<longleftrightarrow> (\<forall>w. ml_reminders (mw_store (f w)) = ml_reminders (mw_store w))"
| "leaves_reminders op \<longleftrightarrow> True"

subsection \<open>The table\<close>

definition reminders_ok :: "reminder list \<Rightarrow> bool" where
  "reminders_ok rs \<longleftrightarrow> distinct (map rm_name rs) \<and> distinct (map rm_route (filter reminder_is_active rs)) \<and>
     length (filter reminder_is_active rs) \<le> 32 \<and> list_all (\<lambda>r. 0 < rm_every_ms r) rs"

text \<open>A change of rows that keeps names, routes and intervals and activates nothing.\<close>

lemma reminders_ok_map:
  assumes ok: "reminders_ok rs"
    and f: "\<And>r. rm_name (f r) = rm_name r \<and> rm_route (f r) = rm_route r \<and> rm_every_ms (f r) = rm_every_ms r \<and>
      (reminder_is_active (f r) \<longrightarrow> reminder_is_active r)"
  shows "reminders_ok (map f rs)"
proof -
  have "distinct (map rm_route (filter reminder_is_active xs)) \<Longrightarrow> distinct (map rm_route (filter reminder_is_active (map f xs)))
    \<and> set (map rm_route (filter reminder_is_active (map f xs))) \<subseteq> set (map rm_route (filter reminder_is_active xs))
    \<and> length (filter reminder_is_active (map f xs)) \<le> length (filter reminder_is_active xs)" for xs
    by (induction xs) (use f in auto)
  moreover have "map (rm_name \<circ> f) rs = map rm_name rs" by (rule map_cong) (simp_all add: f)
  then have "distinct (map (rm_name \<circ> f) rs)" using ok unfolding reminders_ok_def by metis
  moreover have "list_all (\<lambda>r. 0 < rm_every_ms r) (map f rs)" using ok f by (simp add: reminders_ok_def list_all_iff)
  ultimately show ?thesis using ok unfolding reminders_ok_def
    by (metis (no_types, lifting) map_map order_trans)
qed

lemma reminders_ok_add:
  assumes "reminders_ok rs" "0 < rm_every_ms r" "length (filter reminder_is_active rs) < 32"
    and "\<And>y. y \<in> set rs \<Longrightarrow> rm_name y \<noteq> rm_name r \<and> \<not> (reminder_is_active y \<and> rm_route y = rm_route r)"
  shows "reminders_ok (rs @ [r])"
proof -
  have "rm_name r \<notin> set (map rm_name rs)" "reminder_is_active r \<longrightarrow> rm_route r \<notin> set (map rm_route (filter reminder_is_active rs))"
    using assms(4) by force+
  then show ?thesis using assms(1-3) by (simp add: reminders_ok_def)
qed

lemma update_ok:
  assumes run: "io_bind (db_update sel f) (\<lambda>n. io_ok (g n)) w = (x, w')"
    and ok: "reminders_ok (ml_reminders (mw_store w))"
    and f: "\<And>r. rm_name (f r) = rm_name r \<and> rm_route (f r) = rm_route r \<and> rm_every_ms (f r) = rm_every_ms r \<and>
      (reminder_is_active (f r) \<longrightarrow> reminder_is_active r)"
  shows "reminders_ok (ml_reminders (mw_store w'))"
  using update_cases [OF run]
proof
  assume "mw_store w' = mw_store w"
  then show ?thesis using ok by simp
next
  assume "mw_store w' = (mw_store w)\<lparr>ml_reminders :=
      map (\<lambda>r. if sel (mw_store w) r then f r else r) (ml_reminders (mw_store w))\<rparr>"
  then show ?thesis using reminders_ok_map [OF ok, of "\<lambda>r. if sel (mw_store w) r then f r else r"] f by simp
qed

lemma op_ok:
  assumes ok: "reminders_ok (ml_reminders (mw_store w))" and l: "leaves_reminders op"
  shows "reminders_ok (ml_reminders (mw_store (snd (reminder_op_step mint stampf op w))))"
proof (cases op)
  case (OpAdd name route body every til now)
  obtain x w' where x: "reminder_add name route body every til now w = (x, w')" by fastforce
  from x show ?thesis
    by (cases rule: add_cases) (use OpAdd x ok in \<open>auto intro: reminders_ok_add\<close>)
next
  case (OpCancel name)
  obtain x w' where x: "reminder_cancel name w = (x, w')" by fastforce
  show ?thesis using OpCancel x update_ok [OF x [unfolded reminder_cancel_def] ok]
    by (simp add: reminder_is_active_def)
next
  case (OpExpire now)
  obtain x w' where x: "reminder_expire now w = (x, w')" by fastforce
  show ?thesis using OpExpire x update_ok [OF x [unfolded reminder_expire_def] ok]
    by (simp add: reminder_is_active_def)
next
  case (OpDetail name d)
  obtain x w' where x: "reminder_detail name d w = (x, w')" by fastforce
  show ?thesis using OpDetail x update_ok [OF x [unfolded reminder_detail_def] ok]
    by (simp add: reminder_is_active_def)
next
  case (OpClaim name now)
  obtain x w' where x: "reminder_claim mint stampf name now w = (x, w')" by fastforce
  from x have "reminders_ok (ml_reminders (mw_store w'))"
  proof (cases rule: claim_cases)
    case off then show ?thesis using ok by simp
  next
    case (fired r i m)
    show ?thesis unfolding fired(5)
      by (rule reminders_ok_map [OF ok]) (simp add: claimed_def reminder_is_active_def)
  qed
  then show ?thesis using OpClaim x by simp
next
  case (OpRetry name now)
  obtain x w' where x: "reminder_retry name now w = (x, w')" by fastforce
  have d: "distinct (map rm_name (ml_reminders (mw_store w)))" using ok by (simp add: reminders_ok_def)
  from x d have "reminders_ok (ml_reminders (mw_store w'))"
  proof (cases rule: retry_cases)
    case off then show ?thesis using ok by simp
  next
    case (fired r m)
    show ?thesis unfolding fired(4)
      by (rule reminders_ok_map [OF ok]) (simp add: reminder_is_active_def)
  qed
  then show ?thesis using OpRetry x by simp
next
  case (OpElsewhere f)
  then show ?thesis using ok l by simp
qed

lemma run_ok:
  "reminders_ok (ml_reminders (mw_store w)) \<Longrightarrow> list_all leaves_reminders ops \<Longrightarrow>
   reminders_ok (ml_reminders (mw_store (snd (reminder_run mint stampf ops w))))"
proof (induction ops arbitrary: w)
  case (Cons op ops)
  then show ?case using op_ok [of w op mint stampf] by (auto split: prod.splits) (metis snd_conv)
qed simp

subsection \<open>One reminder in time\<close>

definition reminder_row :: "string \<Rightarrow> mail_store \<Rightarrow> reminder option" where
  "reminder_row name s = find (\<lambda>r. rm_name r = name) (ml_reminders s)"

lemma reminder_row_map:
  assumes "\<And>r. rm_name (f r) = rm_name r"
  shows "find (\<lambda>r. rm_name r = name) (map f rs) = map_option f (find (\<lambda>r. rm_name r = name) rs)"
  by (induction rs) (simp_all add: assms)

lemma reminder_row_in:
  assumes "distinct (map rm_name (ml_reminders s))" "r \<in> set (ml_reminders s)" "rm_name r = name"
  shows "reminder_row name s = Some r"
proof -
  obtain y where y: "reminder_row name s = Some y"
    using assms(2,3) by (cases "reminder_row name s") (auto simp: reminder_row_def find_None_iff)
  then have "y \<in> set (ml_reminders s)" "rm_name y = name" using find_in unfolding reminder_row_def by fastforce+
  then show ?thesis using y assms by (auto simp: distinct_map inj_on_def)
qed

lemma find_app: "find P xs = Some r \<Longrightarrow> find P (xs @ ys) = Some r"
  by (induction xs) (auto split: if_splits)

text \<open>What one operation does to the row of a name: its interval and expiry stay, and its due time
  moves exactly when an occurrence is sent.\<close>

definition row_moves :: "string \<Rightarrow> reminder \<Rightarrow> (string \<times> int) list \<Rightarrow> reminder \<Rightarrow> bool" where
  "row_moves name r fired r' \<longleftrightarrow> rm_route r' = rm_route r \<and> rm_every_ms r' = rm_every_ms r \<and> rm_until_ms r' = rm_until_ms r \<and>
     (if \<exists>t. (name, t) \<in> set fired
      then \<exists>t. fired = [(name, t)] \<and> rm_next_ms r \<le> t \<and> t < rm_until_ms r \<and> rm_next_ms r' = t + rm_every_ms r
      else rm_next_ms r' = rm_next_ms r)"

lemma update_row:
  assumes run: "io_bind (db_update sel f) (\<lambda>n. io_ok (g n)) w = (x, w')" and r: "reminder_row name (mw_store w) = Some r"
    and f: "\<And>r. rm_name (f r) = rm_name r \<and> rm_route (f r) = rm_route r \<and> rm_every_ms (f r) = rm_every_ms r \<and>
      rm_until_ms (f r) = rm_until_ms r \<and> rm_next_ms (f r) = rm_next_ms r"
  shows "\<exists>r'. reminder_row name (mw_store w') = Some r' \<and> row_moves name r [] r'"
  using update_cases [OF run]
proof
  assume "mw_store w' = mw_store w"
  then show ?thesis using r by (simp add: row_moves_def)
next
  assume w': "mw_store w' = (mw_store w)\<lparr>ml_reminders :=
      map (\<lambda>r. if sel (mw_store w) r then f r else r) (ml_reminders (mw_store w))\<rparr>"
  have "rm_name (if sel (mw_store w) r then f r else r) = rm_name r" for r using f by simp
  then have "reminder_row name (mw_store w') = Some (if sel (mw_store w) r then f r else r)"
    using r reminder_row_map [of "\<lambda>r. if sel (mw_store w) r then f r else r" name] unfolding reminder_row_def w' by simp
  then show ?thesis using f by (simp add: row_moves_def)
qed

lemma mapped_row:
  assumes "ml_reminders s' = map (\<lambda>r. if P r then f r else r) (ml_reminders s)" "\<And>r. rm_name (f r) = rm_name r"
    and "reminder_row name s = Some r"
  shows "reminder_row name s' = Some (if P r then f r else r)"
proof -
  have "rm_name (if P r then f r else r) = rm_name r" for r using assms(2) by simp
  then show ?thesis using assms(1,3) reminder_row_map [of "\<lambda>r. if P r then f r else r" name "ml_reminders s"]
    unfolding reminder_row_def by simp
qed

lemma op_row:
  assumes ok: "reminders_ok (ml_reminders (mw_store w))" and l: "leaves_reminders op"
    and r: "reminder_row name (mw_store w) = Some r"
  shows "\<exists>r'. reminder_row name (mw_store (snd (reminder_op_step mint stampf op w))) = Some r' \<and>
    row_moves name r (fst (reminder_op_step mint stampf op w)) r'"
proof -
  have d: "distinct (map rm_name (ml_reminders (mw_store w)))" using ok by (simp add: reminders_ok_def)
  show ?thesis
  proof (cases op)
    case (OpAdd n route body every til now)
    obtain x w' where x: "reminder_add n route body every til now w = (x, w')" by fastforce
    from x have "\<exists>r'. reminder_row name (mw_store w') = Some r' \<and> row_moves name r [] r'"
    proof (cases rule: add_cases)
      case off then show ?thesis using r by (simp add: row_moves_def)
    next
      case (added y)
      have "reminder_row name (mw_store w') = Some r"
        using r added(1) unfolding reminder_row_def by (simp add: find_app)
      then show ?thesis by (simp add: row_moves_def)
    qed
    then show ?thesis using OpAdd x by simp
  next
    case (OpCancel n)
    obtain x w' where x: "reminder_cancel n w = (x, w')" by fastforce
    show ?thesis using OpCancel x update_row [OF x [unfolded reminder_cancel_def] r] by simp
  next
    case (OpExpire now)
    obtain x w' where x: "reminder_expire now w = (x, w')" by fastforce
    show ?thesis using OpExpire x update_row [OF x [unfolded reminder_expire_def] r] by simp
  next
    case (OpDetail n d)
    obtain x w' where x: "reminder_detail n d w = (x, w')" by fastforce
    show ?thesis using OpDetail x update_row [OF x [unfolded reminder_detail_def] r] by simp
  next
    case (OpClaim n now)
    obtain x w' where x: "reminder_claim mint stampf n now w = (x, w')" by fastforce
    from x have "\<exists>r'. reminder_row name (mw_store w') = Some r' \<and> row_moves name r (sent n now x) r'"
    proof (cases rule: claim_cases)
      case off
      then have "sent n now x = []" by (cases x; cases "projr x") auto
      then show ?thesis using r off by (simp add: row_moves_def)
    next
      case (fired y i m)
      have row: "reminder_row name (mw_store w') = Some (if claimable n now (mw_store w) r then claimed n now i r else r)"
        by (rule mapped_row [OF fired(5) _ r]) (simp add: claimed_def)
      have n: "rm_name y = n" using fired(4) by (simp add: claimable_def)
      show ?thesis
      proof (cases "n = name")
        case True
        then have "y = r" using reminder_row_in [OF d fired(3) n] r by simp
        then show ?thesis using row fired(1,4) True by (auto simp: row_moves_def claimed_def claimable_def)
      next
        case False
        have "rm_name r = name" using r find_in unfolding reminder_row_def by fastforce
        then show ?thesis using row fired(1) False by (auto simp: row_moves_def claimable_def)
      qed
    qed
    then show ?thesis using OpClaim x by simp
  next
    case (OpRetry n now)
    obtain x w' where x: "reminder_retry n now w = (x, w')" by fastforce
    from x d have "\<exists>r'. reminder_row name (mw_store w') = Some r' \<and> row_moves name r (sent n (i64 now) x) r'"
    proof (cases rule: retry_cases)
      case off
      then have "sent n (i64 now) x = []" by (cases x; cases "projr x") auto
      then show ?thesis using r off by (simp add: row_moves_def)
    next
      case (fired y m)
      have row: "reminder_row name (mw_store w') =
          Some (if retriable n (i64 now) (mw_store w) r then r\<lparr>rm_next_ms := i64 now + rm_every_ms r\<rparr> else r)"
        by (rule mapped_row [OF fired(4) _ r]) simp
      have n: "rm_name y = n" using fired(3) by (simp add: retriable_def)
      show ?thesis
      proof (cases "n = name")
        case True
        then have "y = r" using reminder_row_in [OF d fired(2) n] r by simp
        then show ?thesis using row fired(1,3) True by (auto simp: row_moves_def retriable_def)
      next
        case False
        have "rm_name r = name" using r find_in unfolding reminder_row_def by fastforce
        then show ?thesis using row fired(1) False by (auto simp: row_moves_def retriable_def)
      qed
    qed
    then show ?thesis using OpRetry x by simp
  next
    case (OpElsewhere f)
    then show ?thesis using r l by (auto simp: row_moves_def reminder_row_def)
  qed
qed

definition fires :: "string \<Rightarrow> (string \<times> int) list \<Rightarrow> int list" where
  "fires name xs = map snd (filter (\<lambda>(n, t). n = name) xs)"

lemma fires_append [simp]: "fires name (xs @ ys) = fires name xs @ fires name ys"
  by (simp add: fires_def)

lemma fires_moves:
  assumes "row_moves name r xs r'"
  shows "rm_every_ms r' = rm_every_ms r" "rm_until_ms r' = rm_until_ms r"
    and "fires name xs = [] \<and> rm_next_ms r' = rm_next_ms r \<or>
      (\<exists>t. fires name xs = [t] \<and> rm_next_ms r \<le> t \<and> t < rm_until_ms r \<and> rm_next_ms r' = t + rm_every_ms r)"
proof -
  show "rm_every_ms r' = rm_every_ms r" "rm_until_ms r' = rm_until_ms r" using assms by (simp_all add: row_moves_def)
  show "fires name xs = [] \<and> rm_next_ms r' = rm_next_ms r \<or>
      (\<exists>t. fires name xs = [t] \<and> rm_next_ms r \<le> t \<and> t < rm_until_ms r \<and> rm_next_ms r' = t + rm_every_ms r)"
  proof (cases "\<exists>t. (name, t) \<in> set xs")
    case True
    then show ?thesis using assms by (auto simp: row_moves_def fires_def)
  next
    case False
    then have "fires name xs = []" by (auto simp: fires_def filter_empty_conv)
    then show ?thesis using assms False by (simp add: row_moves_def)
  qed
qed

lemma run_paced:
  assumes "reminders_ok (ml_reminders (mw_store w))" "list_all leaves_reminders ops"
    and "reminder_row name (mw_store w) = Some r"
  shows "sorted_wrt (\<lambda>a b. a + rm_every_ms r \<le> b) (fires name (fst (reminder_run mint stampf ops w))) \<and>
    list_all (\<lambda>t. rm_next_ms r \<le> t \<and> t < rm_until_ms r) (fires name (fst (reminder_run mint stampf ops w)))"
  using assms
proof (induction ops arbitrary: w r)
  case Nil then show ?case by (simp add: fires_def)
next
  case (Cons op ops)
  obtain xs w1 where x: "reminder_op_step mint stampf op w = (xs, w1)" by fastforce
  obtain ys w2 where y: "reminder_run mint stampf ops w1 = (ys, w2)" by fastforce
  have ok: "reminders_ok (ml_reminders (mw_store w1))" and ops: "list_all leaves_reminders ops"
    using op_ok [of w op mint stampf] Cons.prems x by auto
  obtain r' where r': "reminder_row name (mw_store w1) = Some r'" "row_moves name r xs r'"
    using op_row [of w op name r mint stampf] Cons.prems x by auto
  have "r \<in> set (ml_reminders (mw_store w))" using Cons.prems(3) find_in unfolding reminder_row_def by fastforce
  then have every: "0 < rm_every_ms r" using Cons.prems(1) by (simp add: reminders_ok_def list_all_iff)
  note m = fires_moves [OF r'(2)]
  have ih: "sorted_wrt (\<lambda>a b. a + rm_every_ms r \<le> b) (fires name ys)"
    "list_all (\<lambda>t. rm_next_ms r' \<le> t \<and> t < rm_until_ms r) (fires name ys)"
    using Cons.IH [OF ok ops r'(1)] m(1,2) y by simp_all
  show ?case using x y ih m(3) every by (auto simp: list_all_iff)
qed

lemma spaced_count:
  fixes e :: int
  assumes "0 < e"
  shows "sorted_wrt (\<lambda>a b. a + e \<le> b) ts \<Longrightarrow> list_all (\<lambda>t. lo \<le> t \<and> t < hi) ts \<Longrightarrow> ts \<noteq> [] \<Longrightarrow>
    int (length ts - 1) * e < hi - lo"
proof (induction ts arbitrary: lo)
  case (Cons t ts)
  show ?case
  proof (cases ts)
    case Nil then show ?thesis using Cons.prems by simp
  next
    case (Cons u us)
    have "list_all (\<lambda>x. t + e \<le> x \<and> x < hi) ts" using Cons.prems by (auto simp: list_all_iff)
    then have "int (length ts - 1) * e < hi - (t + e)" using Cons.IH [of "t + e"] Cons.prems \<open>ts = u # us\<close> by simp
    moreover have "lo \<le> t" using Cons.prems by simp
    moreover have "int (length (t # ts) - 1) * e = int (length ts - 1) * e + e"
      using \<open>ts = u # us\<close> by (simp add: algebra_simps)
    ultimately show ?thesis by linarith
  qed
qed simp

subsection \<open>Waiting for a receipt\<close>

text \<open>The occurrence \<open>i\<close> of the reminder \<open>nm\<close> was sent on \<open>route\<close> and nothing is known of it yet.\<close>

definition waits :: "string \<Rightarrow> string \<Rightarrow> string \<Rightarrow> mail_store \<Rightarrow> bool" where
  "waits i route nm s \<longleftrightarrow>
     list_ex (\<lambda>r. rm_name r = nm \<and> rm_route r = route \<and> rm_last_message r = Some i) (ml_reminders s) \<and>
     \<not> completed i route s \<and> uncertain (latest_outcome i s) \<and>
     list_all (\<lambda>y. rm_name y \<noteq> nm \<longrightarrow> rm_last_message y \<noteq> Some i \<and>
       (rm_route y = route \<and> reminder_is_active y \<longrightarrow> rm_last_message y = None)) (ml_reminders s)"

lemma waits_blocks:
  assumes w: "waits i route nm s" and d: "distinct (map rm_name (ml_reminders s))" and y: "y \<in> set (ml_reminders s)"
  shows "claimable name now s y \<Longrightarrow> rm_route y \<noteq> route" and "retriable name now s y \<Longrightarrow> rm_route y \<noteq> route"
    and "claimable name now s y \<or> retriable name now s y \<Longrightarrow> rm_name y \<noteq> nm"
proof -
  obtain r where r: "r \<in> set (ml_reminders s)" "rm_name r = nm" "rm_route r = route" "rm_last_message r = Some i"
    using w by (auto simp: waits_def list_ex_iff)
  have same: "rm_name y = nm \<Longrightarrow> y = r" using d y r by (auto simp: distinct_map inj_on_def)
  have nm: "claimable name now s y \<or> retriable name now s y \<Longrightarrow> rm_name y \<noteq> nm"
    using same r w by (auto simp: waits_def claimable_def retriable_def uncertain_def refused_def)
  then show "claimable name now s y \<or> retriable name now s y \<Longrightarrow> rm_name y \<noteq> nm" .
  show "claimable name now s y \<Longrightarrow> rm_route y \<noteq> route"
  proof
    assume c: "claimable name now s y" "rm_route y = route"
    then have "outstanding_elsewhere s y"
      using nm r w unfolding outstanding_elsewhere_def list_ex_iff waits_def
      by (intro bexI [OF _ r(1)]) auto
    then show False using c by (simp add: claimable_def)
  qed
  show "retriable name now s y \<Longrightarrow> rm_route y \<noteq> route"
    using nm y w by (auto simp: waits_def retriable_def list_all_iff split: option.splits)
qed

text \<open>The state of the occurrence depends on its own transitions and the replies to it.\<close>

definition same_occurrence :: "string \<Rightarrow> mail_store \<Rightarrow> mail_store \<Rightarrow> bool" where
  "same_occurrence i s s' \<longleftrightarrow> message_transitions i s' = message_transitions i s \<and>
     (\<forall>m\<in>set (ml_mail s'). mg_reply_to m = Some i \<longrightarrow> m \<in> set (ml_mail s))"

lemma completed_rows:
  "completed i route s \<longleftrightarrow>
     list_ex (\<lambda>t. dr_outcome t \<in> {''turn-ended'', ''reply-appended''}) (message_transitions i s) \<or>
     list_ex (\<lambda>m. mg_reply_to m = Some i \<and> kind_str (mg_kind m) = ''reply'' \<and> mg_from m = route) (ml_mail s)"
  by (auto simp: completed_def message_transitions_def list_ex_iff)

lemma same_occurrence_state:
  "same_occurrence i s s' \<Longrightarrow> \<not> completed i route s \<Longrightarrow> \<not> completed i route s'"
  "same_occurrence i s s' \<Longrightarrow> latest_outcome i s' = latest_outcome i s"
  by (auto simp: same_occurrence_def completed_rows latest_outcome_def list_ex_iff)

lemma waits_map:
  assumes w: "waits i route nm s" and o: "same_occurrence i s s'"
    and rs: "ml_reminders s' = map f (ml_reminders s)"
    and f: "\<And>r. rm_name (f r) = rm_name r \<and> rm_route (f r) = rm_route r \<and> (reminder_is_active (f r) \<longrightarrow> reminder_is_active r)"
    and last: "\<And>r. r \<in> set (ml_reminders s) \<Longrightarrow> rm_last_message (f r) = rm_last_message r \<or>
      rm_name r \<noteq> nm \<and> rm_route r \<noteq> route \<and> rm_last_message (f r) \<noteq> Some i"
  shows "waits i route nm s'"
proof -
  obtain r where r: "r \<in> set (ml_reminders s)" "rm_name r = nm" "rm_route r = route" "rm_last_message r = Some i"
    using w by (auto simp: waits_def list_ex_iff)
  have "list_ex (\<lambda>r. rm_name r = nm \<and> rm_route r = route \<and> rm_last_message r = Some i) (ml_reminders s')"
    unfolding rs list_ex_iff using r f last [OF r(1)] by (intro bexI [of _ "f r"]) auto
  moreover have "list_all (\<lambda>y. rm_name y \<noteq> nm \<longrightarrow> rm_last_message y \<noteq> Some i \<and>
       (rm_route y = route \<and> reminder_is_active y \<longrightarrow> rm_last_message y = None)) (ml_reminders s')"
    unfolding rs list_all_iff using w f last by (fastforce simp: waits_def list_all_iff)
  ultimately show ?thesis using w same_occurrence_state [OF o] unfolding waits_def by metis
qed

lemma same_occurrence_table [simp]: "same_occurrence i s (s\<lparr>ml_reminders := rs\<rparr>)"
  by (simp add: same_occurrence_def message_transitions_def)

lemma same_occurrence_refl [simp]: "same_occurrence i s s"
  by (simp add: same_occurrence_def)

lemma with_row_other:
  assumes "with_row j oc d s s'" "j \<noteq> i"
  shows "message_transitions i s' = message_transitions i s"
  using assms by (auto simp: with_row_def message_transitions_def)

lemma put_mail_replies:
  "mg_reply_to m = None \<Longrightarrow> x \<in> set (ml_mail (put_mail m s)) \<Longrightarrow> mg_reply_to x = Some i \<Longrightarrow> x \<in> set (ml_mail s)"
  by (auto simp: put_mail_def Let_def split: if_splits)

text \<open>A change elsewhere that brings no news of the occurrence.\<close>

fun no_news :: "string \<Rightarrow> 'o reminder_op \<Rightarrow> bool" where
  "no_news i (OpElsewhere f) \<longleftrightarrow> (\<forall>w. ml_reminders (mw_store (f w)) = ml_reminders (mw_store w) \<and>
     same_occurrence i (mw_store w) (mw_store (f w)))"
| "no_news i op \<longleftrightarrow> True"

lemma no_news_leaves: "no_news i op \<Longrightarrow> leaves_reminders op"
  by (cases op) simp_all


lemma update_waits:
  assumes run: "io_bind (db_update sel f) (\<lambda>n. io_ok (g n)) w = (x, w')" and w: "waits i route nm (mw_store w)"
    and f: "\<And>r. rm_name (f r) = rm_name r \<and> rm_route (f r) = rm_route r \<and> rm_last_message (f r) = rm_last_message r \<and>
      (reminder_is_active (f r) \<longrightarrow> reminder_is_active r)"
  shows "waits i route nm (mw_store w')"
  using update_cases [OF run]
proof
  assume "mw_store w' = mw_store w"
  then show ?thesis using w by simp
next
  assume "mw_store w' = (mw_store w)\<lparr>ml_reminders :=
      map (\<lambda>r. if sel (mw_store w) r then f r else r) (ml_reminders (mw_store w))\<rparr>"
  then show ?thesis
    by (intro waits_map [OF w, where f = "\<lambda>r. if sel (mw_store w) r then f r else r"]) (use f in auto)
qed

text \<open>No reminder of the route is sent, and the wait goes on.\<close>

lemma op_waits:
  assumes w: "waits i route nm (mw_store w)" and ok: "reminders_ok (ml_reminders (mw_store w))"
    and n: "no_news i op" and fresh: "\<forall>q. fst (mint q) \<noteq> i"
  shows "waits i route nm (mw_store (snd (reminder_op_step mint stampf op w)))"
    and "list_all (\<lambda>(n, t). list_ex (\<lambda>y. rm_name y = n \<and> rm_route y \<noteq> route) (ml_reminders (mw_store w)))
      (fst (reminder_op_step mint stampf op w))"
proof -
  have d: "distinct (map rm_name (ml_reminders (mw_store w)))" using ok by (simp add: reminders_ok_def)
  let ?quiet = "\<lambda>fired. list_all (\<lambda>(n, t). list_ex (\<lambda>y. rm_name y = n \<and> rm_route y \<noteq> route) (ml_reminders (mw_store w))) fired"
  have "waits i route nm (mw_store (snd (reminder_op_step mint stampf op w))) \<and>
    ?quiet (fst (reminder_op_step mint stampf op w))"
  proof (cases op)
    case (OpAdd name rt body every til now)
    obtain x w' where x: "reminder_add name rt body every til now w = (x, w')" by fastforce
    from x have "waits i route nm (mw_store w')"
    proof (cases rule: add_cases)
      case off then show ?thesis using w by simp
    next
      case (added r)
      have o: "same_occurrence i (mw_store w) (mw_store w')" using added(1) by simp
      show ?thesis
        using w added same_occurrence_state [OF o] by (auto simp: waits_def)
    qed
    then show ?thesis using OpAdd x by simp
  next
    case (OpCancel n)
    obtain x w' where x: "reminder_cancel n w = (x, w')" by fastforce
    show ?thesis using OpCancel x update_waits [OF x [unfolded reminder_cancel_def] w] by (simp add: reminder_is_active_def)
  next
    case (OpExpire now)
    obtain x w' where x: "reminder_expire now w = (x, w')" by fastforce
    show ?thesis using OpExpire x update_waits [OF x [unfolded reminder_expire_def] w] by (simp add: reminder_is_active_def)
  next
    case (OpDetail n d)
    obtain x w' where x: "reminder_detail n d w = (x, w')" by fastforce
    show ?thesis using OpDetail x update_waits [OF x [unfolded reminder_detail_def] w] by (simp add: reminder_is_active_def)
  next
    case (OpClaim n now)
    obtain x w' where x: "reminder_claim mint stampf n now w = (x, w')" by fastforce
    from x have "waits i route nm (mw_store w') \<and> ?quiet (sent n now x)"
    proof (cases rule: claim_cases)
      case off
      then have "sent n now x = []" by (cases x; cases "projr x") auto
      then show ?thesis using w off by simp
    next
      case (fired y j m)
      note b = waits_blocks [OF w d]
      have j: "mg_id m \<noteq> i" "j \<noteq> i" using fired(2) fired(8) [OF d] fresh by auto
      have "message_transitions i (mw_store w') = message_transitions i (mw_store w)"
        using fired(10) with_row_other [OF _ j(1)] by (auto simp: message_transitions_def split: if_splits)
      then have o: "same_occurrence i (mw_store w) (mw_store w')"
        using fired(9) put_mail_replies [OF fired(7)] by (auto simp: same_occurrence_def)
      have "waits i route nm (mw_store w')"
        by (rule waits_map [OF w o fired(5)]) (use b(1) b(3) [OF _ disjI1] j(2) in \<open>auto simp: claimed_def reminder_is_active_def\<close>)
      moreover have "rm_name y = n" using fired(4) by (simp add: claimable_def)
      ultimately show ?thesis using fired(1,3,4) b(1) [OF fired(3)] by (auto simp: list_ex_iff)
    qed
    then show ?thesis using OpClaim x by simp
  next
    case (OpRetry n now)
    obtain x w' where x: "reminder_retry n now w = (x, w')" by fastforce
    from x d have "waits i route nm (mw_store w') \<and> ?quiet (sent n (i64 now) x)"
    proof (cases rule: retry_cases)
      case off
      then have "sent n (i64 now) x = []" by (cases x; cases "projr x") auto
      then show ?thesis using w off by simp
    next
      case (fired y m)
      note b = waits_blocks [OF w d]
      have "rm_name y \<noteq> nm" using b(3) [OF fired(2)] fired(3) by blast
      then have j: "mg_id m \<noteq> i" using w fired(2,6) by (auto simp: waits_def list_all_iff)
      have o: "same_occurrence i (mw_store w) (mw_store w')"
        using with_row_other [OF fired(7) j] fired(5) by (simp add: same_occurrence_def)
      have "waits i route nm (mw_store w')"
        by (rule waits_map [OF w o fired(4)]) (auto simp: reminder_is_active_def)
      moreover have "rm_name y = n" using fired(3) by (simp add: retriable_def)
      ultimately show ?thesis using fired(1,2,3) b(2) [OF fired(2)] by (auto simp: list_ex_iff)
    qed
    then show ?thesis using OpRetry x by simp
  next
    case (OpElsewhere f)
    then have o: "same_occurrence i (mw_store w) (mw_store (f w))"
      and rs: "ml_reminders (mw_store (f w)) = ml_reminders (mw_store w)" using n by simp_all
    have "waits i route nm (mw_store (f w))"
      using w same_occurrence_state [OF o] by (auto simp: waits_def rs)
    then show ?thesis using OpElsewhere by simp
  qed
  then show "waits i route nm (mw_store (snd (reminder_op_step mint stampf op w)))"
    "?quiet (fst (reminder_op_step mint stampf op w))" by auto
qed

lemma run_route:
  assumes "reminders_ok (ml_reminders (mw_store w))" "list_all leaves_reminders ops" "reminder_row name (mw_store w) = Some r"
  shows "map_option rm_route (reminder_row name (mw_store (snd (reminder_run mint stampf ops w)))) = Some (rm_route r)"
  using assms
proof (induction ops arbitrary: w r)
  case (Cons op ops)
  obtain xs w1 where x: "reminder_op_step mint stampf op w = (xs, w1)" by fastforce
  have ok: "reminders_ok (ml_reminders (mw_store w1))" using op_ok [of w op mint stampf] Cons.prems x by auto
  obtain r' where r': "reminder_row name (mw_store w1) = Some r'" "row_moves name r xs r'"
    using op_row [of w op name r mint stampf] Cons.prems x by auto
  then show ?case using Cons.IH [OF ok _ r'(1)] Cons.prems(2) x by (auto simp: row_moves_def split: prod.splits)
qed simp

lemma run_waits:
  assumes "waits i route nm (mw_store w)" "reminders_ok (ml_reminders (mw_store w))"
    and "list_all (no_news i) ops" "\<forall>q. fst (mint q) \<noteq> i"
  shows "list_all (\<lambda>(n, t). map_option rm_route (reminder_row n (mw_store (snd (reminder_run mint stampf ops w)))) \<noteq> Some route)
    (fst (reminder_run mint stampf ops w))"
  using assms(1-3)
proof (induction ops arbitrary: w)
  case (Cons op ops)
  obtain xs w1 where x: "reminder_op_step mint stampf op w = (xs, w1)" by fastforce
  obtain ys w2 where y: "reminder_run mint stampf ops w1 = (ys, w2)" by fastforce
  have l: "list_all leaves_reminders (op # ops)" using Cons.prems(3) by (auto simp: list_all_iff intro: no_news_leaves)
  have ok: "reminders_ok (ml_reminders (mw_store w1))" using op_ok [of w op mint stampf] Cons.prems(2) l x by auto
  note st = op_waits [OF Cons.prems(1,2) _ assms(4), where op = op and stampf = stampf]
  have "waits i route nm (mw_store w1)" using st(1) Cons.prems(3) x by simp
  then have ih: "list_all (\<lambda>(n, t). map_option rm_route (reminder_row n (mw_store w2)) \<noteq> Some route) ys"
    using Cons.IH [OF _ ok] Cons.prems(3) y by simp
  have "list_all (\<lambda>(n, t). map_option rm_route (reminder_row n (mw_store w2)) \<noteq> Some route) xs"
    unfolding list_all_iff
  proof
    fix p assume p: "p \<in> set xs"
    obtain n t where nt: "p = (n, t)" by fastforce
    obtain z where z: "z \<in> set (ml_reminders (mw_store w))" "rm_name z = n" "rm_route z \<noteq> route"
      using st(2) Cons.prems(3) x p nt by (auto simp: list_all_iff list_ex_iff)
    have "reminder_row n (mw_store w) = Some z"
      using reminder_row_in [OF _ z(1,2)] Cons.prems(2) by (simp add: reminders_ok_def)
    then show "case p of (n, t) \<Rightarrow> map_option rm_route (reminder_row n (mw_store w2)) \<noteq> Some route"
      using run_route [OF Cons.prems(2) l, of n z mint stampf] z(3) x y nt by auto
  qed
  then show ?case using ih x y by simp
qed simp

text \<open>An identity no one has used.\<close>

definition unused :: "string \<Rightarrow> mail_store \<Rightarrow> bool" where
  "unused i s \<longleftrightarrow> \<not> has_transition i s \<and> list_all (\<lambda>x. mg_reply_to x \<noteq> Some i) (ml_mail s) \<and>
     list_all (\<lambda>y. rm_last_message y \<noteq> Some i) (ml_reminders s)"

lemma claim_waits:
  assumes run: "reminder_claim mint stampf name now w = (Inr (Some m), w')"
    and ok: "reminders_ok (ml_reminders (mw_store w))" and u: "unused (mg_id m) (mw_store w)"
  shows "waits (mg_id m) (mg_to m) name (mw_store w')"
  using run
proof (cases rule: claim_cases)
  case off then show ?thesis by blast
next
  case (fired r i m')
  have d: "distinct (map rm_name (ml_reminders (mw_store w)))" "distinct (map rm_route (filter reminder_is_active (ml_reminders (mw_store w))))"
    using ok by (simp_all add: reminders_ok_def)
  have m: "m' = m" "mg_id m = i" "mg_to m = rm_route r" using fired(1) fired(8) [OF d(1)] by auto
  have name: "rm_name r = name" "reminder_is_active r" using fired(4) by (auto simp: claimable_def)
  have row: "message_transitions i (mw_store w) = []" "with_row i ''appended'' ''reminder'' (mw_store w) (mw_store w')"
    using u fired(10) m by (auto simp: unused_def has_transition_def message_transitions_def list_ex_iff filter_empty_conv)
  have none: "filter (\<lambda>t. dr_message t = i) (ml_transitions (mw_store w)) = []"
    using u m by (auto simp: unused_def has_transition_def list_ex_iff filter_empty_conv)
  obtain t where t: "message_transitions i (mw_store w') = [t]" "dr_outcome t = ''appended''"
    using row(2) none by (auto simp: with_row_def message_transitions_def)
  have nc: "\<not> completed i (rm_route r) (mw_store w')"
    using t put_mail_replies [OF fired(7), of _ "mw_store w" i] fired(9) u m
    by (auto simp: completed_rows unused_def list_all_iff list_ex_iff)
  have lo: "uncertain (latest_outcome i (mw_store w'))" using t by (simp add: latest_outcome_def uncertain_def)
  have mine: "list_ex (\<lambda>y. rm_name y = name \<and> rm_route y = rm_route r \<and> rm_last_message y = Some i) (ml_reminders (mw_store w'))"
    unfolding fired(5) list_ex_iff using fired(3,4) name m(2) fired(2)
    by (intro bexI [of _ "claimed name now i r"]) (auto simp: claimed_def image_iff intro!: bexI [of _ r])
  have others: "rm_last_message y \<noteq> Some i \<and> \<not> (rm_route y = rm_route r \<and> reminder_is_active y)"
    if y: "y \<in> set (ml_reminders (mw_store w))" "rm_name y \<noteq> name" for y
  proof -
    have "y \<noteq> r" using y(2) name by auto
    then have "\<not> (rm_route y = rm_route r \<and> reminder_is_active y)"
      using d(2) y(1) fired(3) name(2) by (auto simp: distinct_map inj_on_def)
    then show ?thesis using u y(1) m by (auto simp: unused_def list_all_iff)
  qed
  have "list_all (\<lambda>y. rm_name y \<noteq> name \<longrightarrow> rm_last_message y \<noteq> Some i \<and>
       (rm_route y = rm_route r \<and> reminder_is_active y \<longrightarrow> rm_last_message y = None)) (ml_reminders (mw_store w'))"
    unfolding fired(5) list_all_iff using others by (auto simp: claimed_def claimable_def)
  then show ?thesis using mine nc lo m unfolding waits_def by simp
qed

text \<open>C14 -- An occurrence is waited for: after a claim, as long as nothing is heard of its message (no
  transition and no reply of it arrives), no reminder of its route sends anything, whatever is
  added, cancelled, claimed or retried at whatever times. The id of the message was unused and is
  not minted again; the code only makes that likely.\<close>

theorem reminder_waits_for_receipt:
  assumes "reminder_claim mint stampf name now w = (Inr (Some m), w')"
    and "reminders_ok (ml_reminders (mw_store w))" and "unused (mg_id m) (mw_store w)"
    and "list_all (no_news (mg_id m)) ops" and "\<forall>q. fst (mint' q) \<noteq> mg_id m"
    and "reminder_run mint' stampf' ops w' = (fired, w'')"
  shows "list_all (\<lambda>(n, t). map_option rm_route (reminder_row n (mw_store w'')) \<noteq> Some (mg_to m)) fired"
proof -
  have "reminders_ok (ml_reminders (mw_store w'))"
    using op_ok [of w "OpClaim name now" mint stampf] assms(1,2) by simp
  then show ?thesis
    using run_waits [OF claim_waits [OF assms(1-3)] _ assms(4,5), where stampf = stampf'] assms(6) by simp
qed

text \<open>C15 -- In any run the occurrences of a reminder are at least its interval apart, none comes before
  its due time or at or after its expiry, and so there are at most as many as intervals begin
  between the two.\<close>

theorem reminder_paced:
  assumes "reminders_ok (ml_reminders (mw_store w))" and "list_all leaves_reminders ops"
    and "reminder_row name (mw_store w) = Some r"
    and "ts = fires name (fst (reminder_run mint stampf ops w))"
  shows "sorted_wrt (\<lambda>a b. a + rm_every_ms r \<le> b) ts \<and>
    list_all (\<lambda>t. rm_next_ms r \<le> t \<and> t < rm_until_ms r) ts \<and>
    (ts = [] \<or> int (length ts - 1) * rm_every_ms r < rm_until_ms r - rm_next_ms r)"
proof -
  have "r \<in> set (ml_reminders (mw_store w))" using assms(3) find_in unfolding reminder_row_def by fastforce
  then have "0 < rm_every_ms r" using assms(1) by (simp add: reminders_ok_def list_all_iff)
  then show ?thesis using run_paced [OF assms(1-3)] spaced_count assms(4) by blast
qed

text \<open>The table stays consistent in any run: one row per name, at most one active reminder per
  route, at most 32 active in all, every interval positive.\<close>

theorem reminder_table_consistent:
  assumes "reminders_ok (ml_reminders (mw_store w))" and "list_all leaves_reminders ops"
    and "rs = ml_reminders (mw_store (snd (reminder_run mint stampf ops w)))"
  shows "distinct (map rm_name rs) \<and> distinct (map rm_route (filter reminder_is_active rs)) \<and>
    length (filter reminder_is_active rs) \<le> 32 \<and> list_all (\<lambda>r. 0 < rm_every_ms r) rs"
  using run_ok [OF assms(1,2)] assms(3) by (simp add: reminders_ok_def)

end
