(* ===== verification/MailSamples.thy ===== *)
theory MailSamples
  imports MailTheorems ReminderProofs
begin

text \<open>Concrete deliveries: the properties applied, and two the model showed.\<close>

definition s_route :: route where
  "s_route = \<lparr>rt_kind = RkNative, rt_harness = Some HKimi, rt_tmux = Some ''w.%1'', rt_cwd = None, rt_model = None,
     rt_mode = Some ''acpx'', rt_session_id = None, rt_source_path = None, rt_parent = None, rt_goal = None,
     rt_registered_at = None, rt_base_sha = None, rt_worktree_dir = None, rt_app_server_socket = None\<rparr>"

definition s_mail :: message where
  "s_mail = \<lparr>mg_id = ''m1'', mg_from = ''lane'', mg_to = ''boss'', mg_from_timestamp = ''t0'', mg_to_timestamp = None,
     mg_kind = MkHail, mg_reply_to = None, mg_body = ''hi'', mg_ref = None, mg_rc = None, mg_detail = None\<rparr>"

definition s_store :: mail_store where
  "s_store = \<lparr>ml_path = Some ''db'', ml_mail = [s_mail], ml_latest = [], ml_transitions = [], ml_blowouts = [],
     ml_subscriptions = [], ml_pushes = [], ml_reported = [], ml_notices = [], ml_reminders = [], ml_live = [],
     ml_routes = [(''boss'', s_route)]\<rparr>"

text \<open>The outside counts the lines typed and submitted.\<close>

definition s_env :: "(string + string) \<Rightarrow> string option \<Rightarrow> nat ladder_env" where
  "s_env reply submit = \<lparr>le_policy = (\<lambda>_. PolicyKeystrokes), le_submit_key = (\<lambda>_. Some ''Enter''), le_all = [HKimi],
     le_hook = (\<lambda>_ _ _ _. False), le_live = (\<lambda>_ _ q. (Inr None, q)), le_deliver = (\<lambda>_ _ _ q. (Inr Injected, q)),
     le_acpx = (\<lambda>_ _ q. (reply, q)), le_alive = (\<lambda>_ _. True), le_paste = (\<lambda>p _ q. (Some p, q + 1)),
     le_submit = (\<lambda>p _ q. (submit, q)), le_try_lock = (\<lambda>_ q. (Inr True, q)), le_unlock = (\<lambda>_ q. q),
     le_mood = (\<lambda>_. ''{body}''), le_url = Some, le_iso = (\<lambda>_. ''t1''),
     le_budget = default_budget, le_fail_cooldown = 120000, le_dead_attempts = 3\<rparr>"

definition s_world :: "nat mail_world" where
  "s_world = \<lparr>mw_store = s_store, mw_out = 0, mw_clock = (\<lambda>n. 1000000 + of_nat n), mw_ticks = 0,
     mw_faults = (\<lambda>_. False), mw_calls = 0, mw_log = []\<rparr>"

definition s_first :: "(string + landing) \<times> nat mail_world" where
  "s_first = deliver_hail_budgeted (s_env (Inr ''ok'') None) (ml_routes s_store) s_mail default_budget s_world"

lemma s_first_landing: "fst s_first = Inr (landing_acpx ''ok'')"
  by code_simp

lemma s_first_log: "mw_log (snd s_first) = [EvAcpx ''boss'' ''hi'' (Inr ''ok'')]"
  by code_simp

lemma s_first_run:
  "deliver_hail_budgeted (s_env (Inr ''ok'') None) (ml_routes s_store) s_mail default_budget s_world =
     (Inr (landing_acpx ''ok''), snd s_first)"
  by (metis s_first_def s_first_landing prod.collapse)

lemma s_mail_names: "mg_id s_mail = ''m1''" "mg_to s_mail = ''boss''" "mg_body s_mail = ''hi''"
  by (simp_all add: s_mail_def)

theorem mail_at_most_once_witness:
  "mw_log (snd (deliver_hail_budgeted (s_env (Inr ''again'') None) (ml_routes s_store) s_mail default_budget (snd s_first))) =
     [EvAcpx ''boss'' ''hi'' (Inr ''ok'')] \<and>
   ''m1'' \<notin> set (map mg_id (held_rows ''boss'' (mw_store (snd s_first))))"
  using mail_at_most_once [OF s_first_run _ later_same refl refl,
      of "s_env (Inr ''again'') None" "ml_routes s_store" default_budget]
  by (simp add: s_first_log s_mail_names)

theorem door_push_within_budget_witness:
  "\<exists>n. \<not> in_force (1000000 + of_nat n) (newest_blowout ''boss'' s_store) \<and>
     pushes_since ''boss'' (saturating_sub (1000000 + of_nat n) 60000) s_store < allowance default_budget ''boss'' (ml_routes s_store)"
proof -
  have "mw_log (snd s_first) = mw_log s_world @ [EvAcpx ''boss'' ''hi'' (Inr ''ok'')]"
    by (simp add: s_first_log s_world_def)
  from door_push_within_budget [OF s_first_run this, of "EvAcpx ''boss'' ''hi'' (Inr ''ok'')"] show ?thesis
    by (auto simp: s_mail_names s_world_def default_budget_def)
qed

theorem landing_leaves_its_mark_witness:
  "stamped ''m1'' (ml_mail (mw_store (snd s_first))) \<and>
   (\<exists>t. t \<in> set (ml_transitions (mw_store (snd s_first))) \<and> dr_message t = ''m1'' \<and> dr_outcome t = ''accepted-by-harness'')"
proof -
  have "landing_outcome (landing_acpx ''ok'') = ''accepted-by-harness''" by code_simp
  then show ?thesis using landing_leaves_its_mark [OF s_first_run]
    by (auto simp: s_mail_names landing_acpx_def)
qed

theorem door_columns_roundtrip_witness:
  "door_address Some (Some ''app-server'') (Some ''/tmp/a.sock#t1'') = AppServer ''/tmp/a.sock'' ''t1''"
  using door_columns_roundtrip [of "AppServer ''/tmp/a.sock'' ''t1''" Some] by simp

subsection \<open>A send can fail on a store that works\<close>

text \<open>No statement of the store is refused; the queue is.\<close>

definition s_refused :: "(string + landing) \<times> nat mail_world" where
  "s_refused = deliver_hail_budgeted (s_env (Inl ''queue refused'') None) (ml_routes s_store) s_mail default_budget s_world"

lemma s_refused_log: "mw_log (snd s_refused) = [EvAcpx ''boss'' ''hi'' (Inl ''queue refused'')]"
  by code_simp

theorem acpx_error_fails_send_witness:
  "mw_faults s_world = (\<lambda>_. False) \<and> fst s_refused = Inl ''queue refused'' \<and>
   ml_mail (mw_store (snd s_refused)) = ml_mail (mw_store s_world)"
proof -
  have "deliver_hail_budgeted (s_env (Inl ''queue refused'') None) (ml_routes s_store) s_mail default_budget s_world =
      (fst s_refused, snd s_refused)" by (simp add: s_refused_def)
  moreover have "mw_log (snd s_refused) = mw_log s_world @ [EvAcpx ''boss'' ''hi'' (Inl ''queue refused'')]"
    by (simp add: s_refused_log s_world_def)
  ultimately show ?thesis using acpx_error_fails_send [of _ _ _ _ s_world "fst s_refused" "snd s_refused"]
    by (auto simp: s_world_def)
qed

subsection \<open>A line that was typed and not submitted\<close>

definition s_keys :: routes where
  "s_keys = [(''boss'', s_route\<lparr>rt_mode := None\<rparr>)]"

definition typed_once :: "(string + landing) \<times> nat mail_world" where
  "typed_once = deliver_hail_budgeted (s_env (Inr []) None) s_keys s_mail default_budget s_world"

text \<open>When the submit key fails after the body was typed the message stays held, and the next
  delivery types the body a second time behind the first, before it submits the line.\<close>

lemma unsubmitted_line_typed_again:
  "fst typed_once = Inr (landing_new RgMailbox no_door_mail) \<and>
   map mg_id (held_rows ''boss'' (mw_store (snd typed_once))) = [''m1''] \<and>
   mw_log (snd (deliver_hail_budgeted (s_env (Inr []) (Some ''%1'')) s_keys s_mail default_budget (snd typed_once))) =
     [EvTyped ''%1'' ''hi'', EvTyped ''%1'' ''hi'', EvSubmit ''%1'' ''hi'']"
proof (intro conjI)
  show "fst typed_once = Inr (landing_new RgMailbox no_door_mail)" by code_simp
  show "map mg_id (held_rows ''boss'' (mw_store (snd typed_once))) = [''m1'']" by code_simp
  show "mw_log (snd (deliver_hail_budgeted (s_env (Inr []) (Some ''%1'')) s_keys s_mail default_budget (snd typed_once))) =
     [EvTyped ''%1'' ''hi'', EvTyped ''%1'' ''hi'', EvSubmit ''%1'' ''hi'']" by code_simp
qed

text \<open>The reminder properties on concrete runs.\<close>

definition s_tick :: reminder where
  "s_tick = \<lparr>rm_name = ''tick'', rm_route = ''boss'', rm_body = ''go'', rm_every_ms = 1000, rm_until_ms = 900000,
     rm_next_ms = 1000, rm_state = ''active'', rm_last_message = None, rm_detail = []\<rparr>"

definition s_plan :: "nat mail_world" where
  "s_plan = s_world\<lparr>mw_store := s_store\<lparr>ml_mail := [], ml_reminders := [s_tick],
     ml_routes := [(''aide'', s_route), (''boss'', s_route)]\<rparr>\<rparr>"

definition s_mint :: "string \<Rightarrow> nat \<Rightarrow> string \<times> nat" where
  "s_mint p q = (p @ show_nat q, q + 1)"

text \<open>The turn on the occurrence ends.\<close>

definition s_ended :: "nat mail_world \<Rightarrow> nat mail_world" where
  "s_ended w = w\<lparr>mw_store := (mw_store w)\<lparr>ml_transitions := ml_transitions (mw_store w) @
     [\<lparr>dr_message = ''r0'', dr_sequence = 2, dr_route = ''boss'', dr_harness = None, dr_outcome = ''turn-ended'',
       dr_detail = ''turn'', dr_error_code = None, dr_at_ms = 0\<rparr>]\<rparr>\<rparr>"

definition s_ops :: "nat reminder_op list" where
  "s_ops = [OpClaim ''tick'' 2000, OpClaim ''tick'' 9000, OpElsewhere s_ended, OpClaim ''tick'' 2999, OpClaim ''tick'' 3000]"

lemma s_plan_ok: "reminders_ok (ml_reminders (mw_store s_plan))"
  by code_simp

lemma s_plan_row: "reminder_row ''tick'' (mw_store s_plan) = Some s_tick"
  by code_simp

lemma s_ops_leave: "list_all leaves_reminders s_ops"
  by (simp add: s_ops_def s_ended_def)

lemma s_fires: "fires ''tick'' (fst (reminder_run (s_mint ''r'') (\<lambda>_. ''t1'') s_ops s_plan)) = [2000, 3000]"
  by code_simp

theorem reminder_paced_witness:
  "sorted_wrt (\<lambda>a b. a + 1000 \<le> b) [2000, 3000 :: int] \<and> int (length [2000, 3000 :: int] - 1) * 1000 < 900000 - 1000"
  using reminder_paced [OF s_plan_ok s_ops_leave s_plan_row s_fires [symmetric]] by (simp add: s_tick_def)

theorem reminder_table_consistent_witness:
  "distinct (map rm_name (ml_reminders (mw_store (snd (reminder_run (s_mint ''r'') (\<lambda>_. ''t1'') s_ops s_plan)))))"
  using reminder_table_consistent [OF s_plan_ok s_ops_leave refl, of "s_mint ''r''" "\<lambda>_. ''t1''"] by simp

subsection \<open>Waiting\<close>

definition s_claim :: "(string + message option) \<times> nat mail_world" where
  "s_claim = reminder_claim (s_mint ''r'') (\<lambda>_. ''t1'') ''tick'' 2000 s_plan"

definition s_hold :: "nat reminder_op list" where
  "s_hold = [OpRetry ''tick'' 5000, OpCancel ''tick'', OpAdd ''tock'' ''boss'' ''b'' 500 900000 2500, OpClaim ''tock'' 4000,
     OpAdd ''other'' ''aide'' ''b'' 500 900000 2500, OpElsewhere id, OpClaim ''other'' 4000]"

definition s_sent :: message where
  "s_sent = occurrence ''tick'' s_tick ''r0'' ''t1''"

lemma s_claim_sent: "fst s_claim = Inr (Some s_sent)"
  by code_simp

lemma s_hold_fired: "fst (reminder_run (s_mint ''s'') (\<lambda>_. ''t1'') s_hold (snd s_claim)) = [(''other'', 4000)]"
  by code_simp

theorem reminder_waits_for_receipt_witness:
  "map_option rm_route (reminder_row ''other''
     (mw_store (snd (reminder_run (s_mint ''s'') (\<lambda>_. ''t1'') s_hold (snd s_claim))))) \<noteq> Some ''boss''"
proof -
  have run: "reminder_claim (s_mint ''r'') (\<lambda>_. ''t1'') ''tick'' 2000 s_plan = (Inr (Some s_sent), snd s_claim)"
    by (metis s_claim_def s_claim_sent prod.collapse)
  have m: "mg_id s_sent = ''r0''" "mg_to s_sent = ''boss''" by (simp_all add: s_sent_def occurrence_def s_tick_def)
  have u: "unused (mg_id s_sent) (mw_store s_plan)"
    by (simp add: m unused_def has_transition_def s_plan_def s_store_def s_world_def s_tick_def)
  have n: "list_all (no_news (mg_id s_sent)) s_hold"
    by (simp add: s_hold_def)
  have f: "\<forall>q. fst (s_mint ''s'' q) \<noteq> mg_id s_sent" by (simp add: s_mint_def m)
  have r: "reminder_run (s_mint ''s'') (\<lambda>_. ''t1'') s_hold (snd s_claim) =
      ([(''other'', 4000)], snd (reminder_run (s_mint ''s'') (\<lambda>_. ''t1'') s_hold (snd s_claim)))"
    by (metis s_hold_fired prod.collapse)
  show ?thesis using reminder_waits_for_receipt [OF run s_plan_ok u n f r] by (simp add: m)
qed

end
