(* ===== verification/Arena.thy ===== *)
theory Arena
  imports Prelude
begin

text \<open>
  The arena of the \<open>redux\<close> crate, \<open>redux/src/1_pool.rs\<close>: a fixed pool of slots and a first-fit
  allocator of free spans. The array of \<open>CAP\<close> spans is a list of that length and the count a
  \<open>u32\<close>, as in the code; arithmetic wraps as in a release build, and an index out of range, where
  Rust panics, is the value \<open>None\<close>.
\<close>

record handle =
  h_start :: u32
  h_len :: u32

definition EMPTY_HANDLE :: handle where
  "EMPTY_HANDLE = \<lparr>h_start = 0, h_len = 0\<rparr>"

definition handle_is_empty :: "handle \<Rightarrow> bool" where
  "handle_is_empty h \<longleftrightarrow> h_len h = 0"

record span =
  sp_start :: u32
  sp_len :: u32

definition EMPTY_SPAN :: span where
  "EMPTY_SPAN = \<lparr>sp_start = 0, sp_len = 0\<rparr>"

record free_spans =
  fs_spans :: "span list"
  fs_count :: u32

definition free_new :: "nat \<Rightarrow> u32 \<Rightarrow> free_spans" where
  "free_new cap len =
     (let spans = replicate cap EMPTY_SPAN
      in if 0 < len \<and> 0 < cap
         then \<lparr>fs_spans = spans[0 := \<lparr>sp_start = 0, sp_len = len\<rparr>], fs_count = 1\<rparr>
         else \<lparr>fs_spans = spans, fs_count = 0\<rparr>)"

text \<open>The two shifting loops run over the indices in the order of the code.\<close>

definition free_remove :: "nat \<Rightarrow> free_spans \<Rightarrow> free_spans" where
  "free_remove idx f =
     (let last = unat (fs_count f) - 1;
          spans = foldl (\<lambda>xs cursor. xs[cursor := xs ! (cursor + 1)]) (fs_spans f) [idx..<last]
      in \<lparr>fs_spans = spans[last := EMPTY_SPAN], fs_count = fs_count f - 1\<rparr>)"

definition free_insert :: "nat \<Rightarrow> span \<Rightarrow> free_spans \<Rightarrow> free_spans option" where
  "free_insert idx s f =
     (if unat (fs_count f) < length (fs_spans f)
      then let spans = foldl (\<lambda>xs cursor. xs[cursor := xs ! (cursor - 1)]) (fs_spans f)
                 (rev [idx + 1..<unat (fs_count f) + 1])
           in Some \<lparr>fs_spans = spans[idx := s], fs_count = fs_count f + 1\<rparr>
      else None)"

definition free_alloc :: "u32 \<Rightarrow> free_spans \<Rightarrow> u32 option \<times> free_spans" where
  "free_alloc n f =
     (case find (\<lambda>idx. n \<le> sp_len (fs_spans f ! idx)) [0..<unat (fs_count f)] of
        None \<Rightarrow> (None, f)
      | Some idx \<Rightarrow>
          let s = fs_spans f ! idx;
              s' = \<lparr>sp_start = sp_start s + n, sp_len = sp_len s - n\<rparr>;
              f' = f\<lparr>fs_spans := (fs_spans f)[idx := s']\<rparr>
          in (Some (sp_start s), if sp_len s' = 0 then free_remove idx f' else f'))"

definition insert_point :: "u32 \<Rightarrow> free_spans \<Rightarrow> nat" where
  "insert_point start f =
     length (takeWhile (\<lambda>s. sp_start s < start) (take (unat (fs_count f)) (fs_spans f)))"

text \<open>The right neighbour is merged and removed, then the left one extended, else a span inserted.\<close>

definition free_free :: "u32 \<Rightarrow> u32 \<Rightarrow> free_spans \<Rightarrow> free_spans option" where
  "free_free start n f =
     (if n = 0 then Some f
      else let idx = insert_point start f;
               touches_right = (idx < unat (fs_count f) \<and> start + n = sp_start (fs_spans f ! idx));
               merged = \<lparr>sp_start = start,
                         sp_len = (if touches_right then n + sp_len (fs_spans f ! idx) else n)\<rparr>;
               f1 = (if touches_right then free_remove idx f else f);
               prev = fs_spans f1 ! (idx - 1)
           in if 0 < idx \<and> sp_start prev + sp_len prev = start
              then Some (f1\<lparr>fs_spans := (fs_spans f1)
                              [idx - 1 := prev\<lparr>sp_len := sp_len prev + sp_len merged\<rparr>]\<rparr>)
              else free_insert idx merged f1)"

definition free_total :: "free_spans \<Rightarrow> u64" where
  "free_total f = sum_list (map (\<lambda>s. ucast (sp_len s)) (take (unat (fs_count f)) (fs_spans f)))"

definition frag_count :: "free_spans \<Rightarrow> nat" where
  "frag_count f = unat (fs_count f)"

subsection \<open>The pool\<close>

record 'a pool =
  pl_slots :: "'a list"
  pl_free :: free_spans

definition pool_new :: "nat \<Rightarrow> nat \<Rightarrow> 'a \<Rightarrow> 'a pool" where
  "pool_new n cap fill = \<lparr>pl_slots = replicate n fill, pl_free = free_new cap (word_of_nat n)\<rparr>"

definition pool_alloc :: "u32 \<Rightarrow> 'a pool \<Rightarrow> handle option \<times> 'a pool" where
  "pool_alloc n p =
     (let (start, f) = free_alloc n (pl_free p)
      in (map_option (\<lambda>s. \<lparr>h_start = s, h_len = n\<rparr>) start, p\<lparr>pl_free := f\<rparr>))"

definition pool_free :: "handle \<Rightarrow> 'a pool \<Rightarrow> 'a pool option" where
  "pool_free h p = map_option (\<lambda>f. p\<lparr>pl_free := f\<rparr>) (free_free (h_start h) (h_len h) (pl_free p))"

definition handle_bounds :: "handle \<Rightarrow> 'a pool \<Rightarrow> (nat \<times> nat) option" where
  "handle_bounds h p =
     (let a = unat (h_start h); b = unat (h_start h + h_len h)
      in if a \<le> b \<and> b \<le> length (pl_slots p) then Some (a, b) else None)"

definition pool_get :: "handle \<Rightarrow> 'a pool \<Rightarrow> 'a list option" where
  "pool_get h p = map_option (\<lambda>(a, b). take (b - a) (drop a (pl_slots p))) (handle_bounds h p)"

text \<open>\<open>get_mut\<close> with what its caller does to the slice: \<open>f\<close> keeps the length.\<close>

definition pool_modify :: "handle \<Rightarrow> ('a list \<Rightarrow> 'a list) \<Rightarrow> 'a pool \<Rightarrow> 'a pool option" where
  "pool_modify h f p = map_option (\<lambda>(a, b).
     p\<lparr>pl_slots := take a (pl_slots p) @ f (take (b - a) (drop a (pl_slots p))) @ drop b (pl_slots p)\<rparr>)
     (handle_bounds h p)"

definition pool_frag_count :: "'a pool \<Rightarrow> nat" where
  "pool_frag_count p = frag_count (pl_free p)"

definition pool_free_total :: "'a pool \<Rightarrow> u64" where
  "pool_free_total p = free_total (pl_free p)"

end
