(* ===== verification/ArenaProofs.thy ===== *)
theory ArenaProofs
  imports Arena
begin

text \<open>
  The arena as a set of free slots. A well-formed allocator is the canonical image \<open>spans_of\<close> of
  its list of free spans; on such an image the array operations are list operations, which
  carve the lowest run that fits and merge what touches.
\<close>

subsection \<open>Spans as intervals\<close>

abbreviation sp_from :: "span \<Rightarrow> nat" where "sp_from s \<equiv> unat (sp_start s)"

definition sp_end :: "span \<Rightarrow> nat" where
  "sp_end s = unat (sp_start s) + unat (sp_len s)"

definition covered :: "span list \<Rightarrow> nat set" where
  "covered xs = (\<Union>s \<in> set xs. {sp_from s..<sp_end s})"

text \<open>Non-empty spans in ascending order with a gap between neighbours, below \<open>hi\<close>.\<close>

fun spans_ok :: "nat \<Rightarrow> nat \<Rightarrow> span list \<Rightarrow> bool" where
  "spans_ok lo hi [] \<longleftrightarrow> True"
| "spans_ok lo hi (s # ss) \<longleftrightarrow> lo \<le> sp_from s \<and> 0 < sp_len s \<and> sp_end s \<le> hi \<and> spans_ok (Suc (sp_end s)) hi ss"

fun next_from :: "nat \<Rightarrow> span list \<Rightarrow> nat" where
  "next_from lo [] = lo"
| "next_from lo (s # ss) = next_from (Suc (sp_end s)) ss"

lemma covered_simps [simp]:
  "covered [] = {}" "covered (s # ss) = {sp_from s..<sp_end s} \<union> covered ss"
  "covered (xs @ ys) = covered xs \<union> covered ys"
  by (auto simp: covered_def)

lemma spans_ok_append [simp]:
  "spans_ok lo hi (xs @ ys) \<longleftrightarrow> spans_ok lo hi xs \<and> spans_ok (next_from lo xs) hi ys"
  by (induction xs arbitrary: lo) auto

lemma next_from_append [simp]: "next_from lo (xs @ ys) = next_from (next_from lo xs) ys"
  by (induction xs arbitrary: lo) auto

lemma spans_ok_mono: "spans_ok lo hi xs \<Longrightarrow> lo' \<le> lo \<Longrightarrow> spans_ok lo' hi xs"
  by (cases xs) auto

lemma sp_pos: "0 < sp_len s \<Longrightarrow> sp_from s < sp_end s"
  by (simp add: sp_end_def word_less_nat_alt)

lemma spans_ok_above: "spans_ok lo hi xs \<Longrightarrow> i \<in> covered xs \<Longrightarrow> lo \<le> i \<and> i < hi"
proof (induction xs arbitrary: lo)
  case (Cons s ss)
  then show ?case using sp_pos [of s] by fastforce
qed simp

lemma spans_ok_next: "spans_ok lo hi xs \<Longrightarrow> i \<in> covered xs \<Longrightarrow> Suc i < next_from lo xs"
proof (induction xs arbitrary: lo)
  case (Cons s ss)
  have mono: "spans_ok l hi ss \<Longrightarrow> l \<le> next_from l ss" for l
  proof (induction ss arbitrary: l)
    case (Cons t ts)
    then show ?case using sp_pos [of t] by fastforce
  qed simp
  from Cons show ?case using mono [of "Suc (sp_end s)"] by fastforce
qed simp

text \<open>The list of spans is determined by the slots it covers.\<close>

lemma covered_first:
  assumes "spans_ok lo hi (s # ss)"
  shows "sp_from s \<in> covered (s # ss)" "\<And>i. i \<in> covered (s # ss) \<Longrightarrow> sp_from s \<le> i"
    "sp_end s \<notin> covered (s # ss)" "{sp_from s..<sp_end s} \<subseteq> covered (s # ss)"
  using assms sp_pos [of s] by (auto dest: spans_ok_above)

lemma covered_inj: "spans_ok lo hi xs \<Longrightarrow> spans_ok lo' hi' ys \<Longrightarrow> covered xs = covered ys \<Longrightarrow> xs = ys"
proof (induction xs arbitrary: ys lo lo')
  case Nil
  then show ?case using covered_first(1) by (cases ys) fastforce+
next
  case (Cons s ss)
  from Cons.prems obtain t ts where ys: "ys = t # ts"
    using covered_first(1) [OF Cons.prems(1)] by (cases ys) auto
  note s = covered_first [OF Cons.prems(1)] and t = covered_first [OF Cons.prems(2) [unfolded ys]]
  have from_eq: "sp_from s = sp_from t"
    using s(1,2) t(1,2) Cons.prems(3) ys by (metis le_antisym)
  have "sp_end s = sp_end t"
  proof (rule ccontr)
    assume "sp_end s \<noteq> sp_end t"
    then consider "sp_end s < sp_end t" | "sp_end t < sp_end s" by linarith
    then show False
    proof cases
      case 1
      then have "sp_end s \<in> covered ys" using t(4) ys from_eq sp_pos [of s] Cons.prems(1) by auto
      then show False using s(3) unfolding Cons.prems(3) by contradiction
    next
      case 2
      then have "sp_end t \<in> covered (s # ss)" using s(4) ys from_eq sp_pos [of t] Cons.prems(2) by auto
      then show False using t(3) unfolding Cons.prems(3) [unfolded ys] by contradiction
    qed
  qed
  then have st: "s = t" using from_eq by (intro span.equality) (simp_all add: sp_end_def word_unat_eq_iff)
  have rest: "covered ss = covered (s # ss) - {sp_from s..<sp_end s}"
      "covered ts = covered (t # ts) - {sp_from t..<sp_end t}"
    using Cons.prems(1,2) ys by (auto dest: spans_ok_above)
  then have "covered ss = covered ts" using Cons.prems(3) ys st by simp
  then have "ss = ts" using Cons.IH Cons.prems(1,2) ys by auto
  then show ?case using ys st by simp
qed

lemma covered_finite [simp]: "finite (covered xs)"
  by (simp add: covered_def)

lemma covered_card: "spans_ok lo hi xs \<Longrightarrow> card (covered xs) = sum_list (map (\<lambda>s. unat (sp_len s)) xs)"
proof (induction xs arbitrary: lo)
  case (Cons s ss)
  then have "{sp_from s..<sp_end s} \<inter> covered ss = {}" by (auto dest: spans_ok_above)
  then have "card (covered (s # ss)) = (sp_end s - sp_from s) + card (covered ss)" by (simp add: card_Un_disjoint)
  then show ?case using Cons.IH [of "Suc (sp_end s)"] Cons.prems by (simp add: sp_end_def)
qed simp

subsection \<open>The canonical image\<close>

definition spans_of :: "nat \<Rightarrow> span list \<Rightarrow> free_spans" where
  "spans_of cap xs = \<lparr>fs_spans = xs @ replicate (cap - length xs) EMPTY_SPAN, fs_count = word_of_nat (length xs)\<rparr>"

lemma unat_length: "length xs \<le> cap \<Longrightarrow> cap < 2 ^ 32 \<Longrightarrow> unat (word_of_nat (length xs) :: u32) = length xs"
  by (simp add: unat_of_nat take_bit_nat_eq_self)

lemma shift_left:
  "i + n < length xs \<Longrightarrow>
     foldl (\<lambda>xs cursor. xs[cursor := xs ! (cursor + 1)]) xs [i..<i + n]
       = take i xs @ take n (drop (Suc i) xs) @ drop (i + n) xs"
proof (induction n)
  case 0
  then show ?case by simp
next
  case (Suc n)
  let ?ys = "take i xs @ take n (drop (Suc i) xs) @ drop (i + n) xs"
  have ys: "foldl (\<lambda>xs cursor. xs[cursor := xs ! (cursor + 1)]) xs [i..<i + n] = ?ys"
    using Suc by simp
  have len: "length (take i xs @ take n (drop (Suc i) xs)) = i + n" using Suc.prems by simp
  have "?ys[i + n := ?ys ! (i + n + 1)]
      = (take i xs @ take n (drop (Suc i) xs)) @ (drop (i + n) xs)[0 := xs ! (i + n + 1)]"
    using Suc.prems len by (simp add: list_update_append nth_append)
  also have "(drop (i + n) xs)[0 := xs ! (i + n + 1)] = xs ! Suc (i + n) # drop (Suc (i + n)) xs"
    using Suc.prems by (simp add: Cons_nth_drop_Suc [symmetric])
  also have "take (Suc n) (drop (Suc i) xs) = take n (drop (Suc i) xs) @ [xs ! Suc (i + n)]"
    using Suc.prems by (simp add: take_Suc_conv_app_nth)
  ultimately show ?case using ys by simp
qed

lemma shift_right:
  "i + n < length xs \<Longrightarrow>
     foldl (\<lambda>xs cursor. xs[cursor := xs ! (cursor - 1)]) xs (rev [i + 1..<i + n + 1])
       = take (Suc i) xs @ take n (drop i xs) @ drop (i + n + 1) xs"
proof (induction n arbitrary: xs)
  case 0
  then show ?case by simp
next
  case (Suc n)
  let ?ys = "xs[i + n + 1 := xs ! (i + n)]"
  have "foldl (\<lambda>xs cursor. xs[cursor := xs ! (cursor - 1)]) xs (rev [i + 1..<i + Suc n + 1])
      = foldl (\<lambda>xs cursor. xs[cursor := xs ! (cursor - 1)]) ?ys (rev [i + 1..<i + n + 1])"
    by simp
  also have "\<dots> = take (Suc i) ?ys @ take n (drop i ?ys) @ drop (i + n + 1) ?ys"
    using Suc by simp
  also have "take (Suc i) ?ys = take (Suc i) xs" by simp
  also have "take n (drop i ?ys) = take n (drop i xs)" by (simp add: drop_update_swap)
  also have "drop (i + n + 1) ?ys = xs ! (i + n) # drop (i + n + 2) xs"
    using Suc.prems by (metis Suc_1 add_Suc_right add_Suc_shift Cons_nth_drop_Suc drop_update_cancel
      length_list_update lessI nth_list_update_eq One_nat_def add.right_neutral)
  also have "take (Suc i) xs @ take n (drop i xs) @ xs ! (i + n) # drop (i + n + 2) xs
      = take (Suc i) xs @ take (Suc n) (drop i xs) @ drop (i + Suc n + 1) xs"
    using Suc.prems by (simp add: take_Suc_conv_app_nth)
  finally show ?case .
qed

lemma remove_spans_of:
  assumes "i < length xs" "length xs \<le> cap" "cap < 2 ^ 32"
  shows "free_remove i (spans_of cap xs) = spans_of cap (take i xs @ drop (Suc i) xs)"
proof -
  obtain n where n: "length xs - 1 = i + n" using assms(1) by (metis add_diff_cancel_left' less_Suc_eq_le Suc_diff_1 le_Suc_ex length_greater_0_conv list.size(3) not_less0)
  let ?full = "xs @ replicate (cap - length xs) EMPTY_SPAN"
  have last: "unat (word_of_nat (length xs) :: u32) - 1 = i + n"
    using unat_length [OF assms(2,3)] n by simp
  have len: "length xs = Suc (i + n)" using n assms(1) by simp
  have "foldl (\<lambda>xs cursor. xs[cursor := xs ! (cursor + 1)]) ?full [i..<i + n]
      = take i ?full @ take n (drop (Suc i) ?full) @ drop (i + n) ?full"
    by (rule shift_left) (use len assms(2) in simp)
  also have "\<dots> = (take i xs @ drop (Suc i) xs) @ xs ! (i + n) # replicate (cap - length xs) EMPTY_SPAN"
    using len by (simp add: Cons_nth_drop_Suc [symmetric])
  finally have "(foldl (\<lambda>xs cursor. xs[cursor := xs ! (cursor + 1)]) ?full [i..<i + n])[i + n := EMPTY_SPAN]
      = (take i xs @ drop (Suc i) xs) @ EMPTY_SPAN # replicate (cap - length xs) EMPTY_SPAN"
    using len by (simp add: list_update_append)
  moreover have "cap - (i + n) = Suc (cap - length xs)" using len assms(2) by simp
  moreover have "(word_of_nat (Suc (i + n)) :: u32) - 1 = word_of_nat (i + n)" by simp
  ultimately show ?thesis
    unfolding free_remove_def spans_of_def using last len by (simp add: Let_def)
qed

lemma insert_spans_of:
  assumes "i \<le> length xs" "length xs < cap" "cap < 2 ^ 32"
  shows "free_insert i s (spans_of cap xs) = Some (spans_of cap (take i xs @ s # drop i xs))"
proof -
  obtain n where n: "length xs = i + n" using assms(1) le_Suc_ex by blast
  obtain k where k: "cap - length xs = Suc k" using assms(2) by (metis Suc_diff_Suc)
  let ?full = "xs @ replicate (cap - length xs) EMPTY_SPAN"
  have u: "unat (word_of_nat (length xs) :: u32) = i + n" using unat_length [of xs cap] assms n by simp
  have "foldl (\<lambda>xs cursor. xs[cursor := xs ! (cursor - 1)]) ?full (rev [i + 1..<i + n + 1])
      = take (Suc i) ?full @ take n (drop i ?full) @ drop (i + n + 1) ?full"
    by (rule shift_right) (use n k in simp)
  also have "\<dots> = take (Suc i) ?full @ drop i xs @ replicate k EMPTY_SPAN"
    using n k by simp
  finally have "(foldl (\<lambda>xs cursor. xs[cursor := xs ! (cursor - 1)]) ?full (rev [i + 1..<i + n + 1]))[i := s]
      = take i xs @ s # drop i xs @ replicate k EMPTY_SPAN"
    using n k by (cases "n = 0") (simp_all add: take_Suc_conv_app_nth list_update_append nth_append)
  moreover have "cap - Suc (length xs) = k" using k by simp
  ultimately show ?thesis
    unfolding free_insert_def spans_of_def using u assms n
    by (simp add: Let_def add.commute)
qed

subsection \<open>Well-formed allocators\<close>

definition free_slots :: "free_spans \<Rightarrow> nat set" where
  "free_slots f = covered (take (unat (fs_count f)) (fs_spans f))"

definition arena_ok :: "nat \<Rightarrow> nat \<Rightarrow> free_spans \<Rightarrow> bool" where
  "arena_ok cap n f \<longleftrightarrow>
     cap < 2 ^ 32 \<and> n < 2 ^ 32 \<and> (\<exists>xs. length xs \<le> cap \<and> spans_ok 0 n xs \<and> f = spans_of cap xs)"

lemma spans_of_simps [simp]:
  assumes "length xs \<le> cap" "cap < 2 ^ 32"
  shows "unat (fs_count (spans_of cap xs)) = length xs"
    "take (length xs) (fs_spans (spans_of cap xs)) = xs" "free_slots (spans_of cap xs) = covered xs"
    "i < length xs \<Longrightarrow> fs_spans (spans_of cap xs) ! i = xs ! i"
    "i < length xs \<Longrightarrow> (spans_of cap xs)\<lparr>fs_spans := (fs_spans (spans_of cap xs))[i := s]\<rparr> = spans_of cap (xs[i := s])"
  using unat_length [OF assms] by (simp_all add: spans_of_def free_slots_def nth_append list_update_append)

lemma arena_okE:
  assumes "arena_ok cap n f"
  obtains xs where "cap < 2 ^ 32" "n < 2 ^ 32" "length xs \<le> cap" "spans_ok 0 n xs" "f = spans_of cap xs"
    "free_slots f = covered xs"
  using assms spans_of_simps(3) unfolding arena_ok_def by metis

lemma arena_okI:
  "cap < 2 ^ 32 \<Longrightarrow> n < 2 ^ 32 \<Longrightarrow> length xs \<le> cap \<Longrightarrow> spans_ok 0 n xs \<Longrightarrow> arena_ok cap n (spans_of cap xs)"
  by (auto simp: arena_ok_def)

lemma free_slots_bounded: "arena_ok cap n f \<Longrightarrow> i \<in> free_slots f \<Longrightarrow> i < n"
  by (erule arena_okE) (auto dest: spans_ok_above)

lemma arena_new:
  assumes "0 < cap" "cap < 2 ^ 32"
  shows "arena_ok cap (unat len) (free_new cap len)" "free_slots (free_new cap len) = {0..<unat len}"
proof -
  let ?xs = "if 0 < len then [\<lparr>sp_start = 0, sp_len = len\<rparr>] else []"
  obtain c where c: "cap = Suc c" using assms(1) by (cases cap) auto
  have eq: "free_new cap len = spans_of cap ?xs"
    using c by (simp add: free_new_def spans_of_def)
  have len: "length ?xs \<le> cap" using assms(1) by simp
  show "free_slots (free_new cap len) = {0..<unat len}"
    unfolding eq spans_of_simps(3) [OF len assms(2)] by (auto simp: sp_end_def word_gt_0)
  show "arena_ok cap (unat len) (free_new cap len)"
    unfolding eq
    by (rule arena_okI [OF assms(2) _ len]) (use unsigned_less [of len] in \<open>simp_all add: sp_end_def\<close>)
qed

theorem free_spans_canonical:
  assumes "arena_ok cap n f" "arena_ok cap m g" "free_slots f = free_slots g"
  shows "f = g"
proof -
  from assms(1) obtain xs where xs: "spans_ok 0 n xs" "f = spans_of cap xs" "free_slots f = covered xs" by (rule arena_okE)
  from assms(2) obtain ys where ys: "spans_ok 0 m ys" "g = spans_of cap ys" "free_slots g = covered ys" by (rule arena_okE)
  have "xs = ys" by (rule covered_inj [OF xs(1) ys(1)]) (use xs(3) ys(3) assms(3) in simp)
  then show ?thesis using xs(2) ys(2) by simp
qed

subsection \<open>Allocation\<close>

text \<open>A run of free slots lies in one span.\<close>

lemma run_in_span:
  "spans_ok lo hi xs \<Longrightarrow> {b..<b + n} \<subseteq> covered xs \<Longrightarrow> 0 < n \<Longrightarrow> \<exists>s \<in> set xs. sp_from s \<le> b \<and> b + n \<le> sp_end s"
proof (induction xs arbitrary: lo)
  case (Cons s ss)
  show ?case
  proof (cases "b \<in> {sp_from s..<sp_end s}")
    case True
    have "sp_end s \<notin> {b..<b + n}" using covered_first(3) [OF Cons.prems(1)] Cons.prems(2) by blast
    then show ?thesis using True by auto
  next
    case False
    moreover have "b \<in> covered (s # ss)"
      by (rule subsetD [OF Cons.prems(2)]) (use Cons.prems(3) in simp)
    ultimately have "b \<in> covered ss" by auto
    then have b: "sp_end s < b" using Cons.prems(1) by (auto dest: spans_ok_above)
    then have "{b..<b + n} \<subseteq> covered ss" using Cons.prems(2) by fastforce
    then show ?thesis using Cons.IH [of "Suc (sp_end s)"] Cons.prems(1,3) by auto
  qed
qed simp

lemma spans_ok_nth: "spans_ok lo hi xs \<Longrightarrow> i < length xs \<Longrightarrow> 0 < sp_len (xs ! i) \<and> sp_end (xs ! i) \<le> hi"
  by (induction xs arbitrary: lo i) (auto simp: nth_Cons split: nat.splits)

lemma spans_sorted: "spans_ok lo hi xs \<Longrightarrow> i < j \<Longrightarrow> j < length xs \<Longrightarrow> sp_end (xs ! i) < sp_from (xs ! j)"
proof (induction xs arbitrary: lo i j)
  case (Cons s ss)
  obtain k where k: "j = Suc k" using Cons.prems(2) by (cases j) auto
  show ?case
  proof (cases i)
    case 0
    have "sp_from (ss ! k) \<in> covered ss"
      using Cons.prems k sp_pos [of "ss ! k"] spans_ok_nth [of _ hi ss k] by (auto simp: covered_def)
    then show ?thesis using Cons.prems k 0 by (auto dest: spans_ok_above)
  next
    case (Suc i')
    then show ?thesis using Cons.IH [of "Suc (sp_end s)" i' k] Cons.prems k by simp
  qed
qed simp

text \<open>Carving the front of span \<open>i\<close>: the span shrinks or goes.\<close>

lemma carve:
  assumes "spans_ok lo hi xs" "i < length xs" "0 < n" "n \<le> sp_len (xs ! i)"
  defines "s' \<equiv> \<lparr>sp_start = sp_start (xs ! i) + n, sp_len = sp_len (xs ! i) - n\<rparr>"
  defines "ys \<equiv> (if sp_len s' = 0 then take i xs @ drop (Suc i) xs else xs[i := s'])"
  assumes "hi < 2 ^ 32"
  shows "spans_ok lo hi ys \<and> covered ys = covered xs - {sp_from (xs ! i)..<sp_from (xs ! i) + unat n} \<and> length ys \<le> length xs"
proof -
  let ?s = "xs ! i"
  have xs: "xs = take i xs @ ?s # drop (Suc i) xs" by (rule id_take_nth_drop [OF assms(2)])
  have ok: "spans_ok lo hi (take i xs @ ?s # drop (Suc i) xs)" using assms(1) xs by simp
  have len: "unat n \<le> unat (sp_len ?s)" using assms(4) by (simp add: word_le_nat_alt)
  have sum: "sp_from ?s + unat n < 2 ^ 32" using ok len assms(7) by (auto simp: sp_end_def)
  have s': "sp_from s' = sp_from ?s + unat n" "unat (sp_len s') = unat (sp_len ?s) - unat n"
    using sum assms(4) by (simp_all add: s'_def unat_word_ariths unat_sub)
  then have e: "sp_end s' = sp_end ?s" using len by (simp add: sp_end_def)
  have before: "covered (take i xs) \<inter> {sp_from ?s..<sp_from ?s + unat n} = {}"
    using ok spans_ok_next [of lo hi "take i xs"] by fastforce
  have after: "covered (drop (Suc i) xs) \<inter> {sp_from ?s..<sp_from ?s + unat n} = {}"
    using ok len spans_ok_above [of "Suc (sp_end ?s)" hi "drop (Suc i) xs"] by (fastforce simp: sp_end_def)
  have cov: "covered xs - {sp_from ?s..<sp_from ?s + unat n}
      = covered (take i xs) \<union> {sp_from ?s + unat n..<sp_end ?s} \<union> covered (drop (Suc i) xs)"
    using before after by (subst (1) xs) auto
  show ?thesis
  proof (cases "sp_len s' = 0")
    case True
    then have "sp_from ?s + unat n = sp_end ?s" using s'(2) len by (simp add: sp_end_def)
    then show ?thesis using True cov ok assms(2) by (auto simp: ys_def elim: spans_ok_mono)
  next
    case False
    then have "ys = take i xs @ s' # drop (Suc i) xs" using assms(2) by (simp add: ys_def upd_conv_take_nth_drop)
    then show ?thesis using False cov ok e s'(1) assms(2) by (auto simp: word_neq_0_conv)
  qed
qed

lemma alloc_cases:
  assumes ok: "arena_ok cap size_n f" and n: "0 < n"
  shows "(\<exists>a f'. free_alloc n f = (Some a, f') \<and> arena_ok cap size_n f' \<and>
      {unat a..<unat a + unat n} \<subseteq> free_slots f \<and> free_slots f' = free_slots f - {unat a..<unat a + unat n} \<and>
      (\<forall>b. {b..<b + unat n} \<subseteq> free_slots f \<longrightarrow> unat a \<le> b)) \<or>
    free_alloc n f = (None, f) \<and> (\<nexists>b. {b..<b + unat n} \<subseteq> free_slots f)"
proof -
  from ok obtain xs where xs: "cap < 2 ^ 32" "size_n < 2 ^ 32" "length xs \<le> cap" "spans_ok 0 size_n xs" "f = spans_of cap xs"
      "free_slots f = covered xs" by (rule arena_okE)
  have n': "0 < unat n" using n by (simp add: word_less_nat_alt)
  have wide: "\<exists>i < length xs. n \<le> sp_len (xs ! i) \<and> sp_from (xs ! i) \<le> b" if run: "{b..<b + unat n} \<subseteq> covered xs" for b
  proof -
    obtain s where "s \<in> set xs" "sp_from s \<le> b" "b + unat n \<le> sp_end s" using run_in_span [OF xs(4) run n'] by blast
    then show ?thesis by (auto simp: in_set_conv_nth sp_end_def word_le_nat_alt)
  qed
  have found: "find (\<lambda>i. n \<le> sp_len (fs_spans f ! i)) [0..<unat (fs_count f)]
      = find (\<lambda>i. n \<le> sp_len (xs ! i)) [0..<length xs]"
    unfolding xs(5) using xs(1,3) by (intro find_cong) auto
  show ?thesis
  proof (cases "find (\<lambda>i. n \<le> sp_len (xs ! i)) [0..<length xs]")
    case None
    then have none: "\<forall>i < length xs. \<not> n \<le> sp_len (xs ! i)" by (auto simp: find_None_iff)
    then have "free_alloc n f = (None, f)" using found None by (simp add: free_alloc_def)
    moreover have "\<nexists>b. {b..<b + unat n} \<subseteq> free_slots f" using none wide xs(6) by metis
    ultimately show ?thesis by blast
  next
    case (Some i)
    then have i: "i < length xs" "n \<le> sp_len (xs ! i)" "\<forall>j < i. \<not> n \<le> sp_len (xs ! j)"
      by (auto simp: find_Some_iff)
    let ?s' = "\<lparr>sp_start = sp_start (xs ! i) + n, sp_len = sp_len (xs ! i) - n\<rparr>"
    let ?ys = "if sp_len ?s' = 0 then take i xs @ drop (Suc i) xs else xs[i := ?s']"
    have ys: "spans_ok 0 size_n ?ys" "covered ?ys = covered xs - {sp_from (xs ! i)..<sp_from (xs ! i) + unat n}"
        "length ?ys \<le> length xs" using carve [OF xs(4) i(1) n i(2) xs(2)] by blast+
    have "free_alloc n f = (Some (sp_start (xs ! i)), spans_of cap ?ys)"
    proof (cases "sp_len (xs ! i) = n")
      case True
      then show ?thesis using Some found i xs(1,3,5) remove_spans_of [of i "xs[i := \<lparr>sp_start = sp_start (xs ! i) + n, sp_len = 0\<rparr>]" cap]
        by (simp add: free_alloc_def Let_def)
    next
      case False
      then show ?thesis using Some found i xs(1,3,5) by (simp add: free_alloc_def Let_def)
    qed
    moreover have "arena_ok cap size_n (spans_of cap ?ys)" by (rule arena_okI) (use xs ys in auto)
    moreover have "free_slots (spans_of cap ?ys) = covered ?ys" using spans_of_simps(3) [of ?ys cap] xs(1,3) ys(3) by simp
    moreover have "{sp_from (xs ! i)..<sp_from (xs ! i) + unat n} \<subseteq> covered xs"
      using i by (auto simp: covered_def sp_end_def word_le_nat_alt intro!: bexI [of _ "xs ! i"])
    moreover have "sp_from (xs ! i) \<le> b" if b: "{b..<b + unat n} \<subseteq> covered xs" for b
    proof -
      obtain j where j: "j < length xs" "n \<le> sp_len (xs ! j)" "sp_from (xs ! j) \<le> b" using wide [OF b] by blast
      then have "i \<le> j" using i(3) by (meson not_less)
      then show ?thesis using spans_sorted [OF xs(4), of i j] j sp_pos [of "xs ! i"] spans_ok_nth [OF xs(4) i(1)]
        by (cases "i = j") auto
    qed
    ultimately show ?thesis using ys(2) xs(6) by auto
  qed
qed

subsection \<open>Freeing\<close>

definition merge_right :: "u32 \<Rightarrow> u32 \<Rightarrow> span list \<Rightarrow> span \<times> span list" where
  "merge_right a n rs =
     (case rs of [] \<Rightarrow> (\<lparr>sp_start = a, sp_len = n\<rparr>, [])
      | r # rs' \<Rightarrow> if a + n = sp_start r then (\<lparr>sp_start = a, sp_len = n + sp_len r\<rparr>, rs')
          else (\<lparr>sp_start = a, sp_len = n\<rparr>, rs))"

lemma merge_right_ok:
  assumes "spans_ok (unat a + unat n) hi rs" "0 < n" "unat a + unat n \<le> hi" "hi < 2 ^ 32"
    "merge_right a n rs = (m, ys)"
  shows "spans_ok (unat a) hi (m # ys)" "sp_start m = a"
    "covered (m # ys) = {unat a..<unat a + unat n} \<union> covered rs"
proof -
  have sum: "unat (a + n) = unat a + unat n" using assms(3,4) by (simp add: unat_word_ariths)
  have plain: "spans_ok (unat a) hi (m # ys) \<and> sp_start m = a \<and>
      covered (m # ys) = {unat a..<unat a + unat n} \<union> covered rs"
    if "m = \<lparr>sp_start = a, sp_len = n\<rparr>" "ys = rs" "spans_ok (Suc (unat a + unat n)) hi rs"
    using that assms(2,3) by (simp add: sp_end_def)
  have "spans_ok (unat a) hi (m # ys) \<and> sp_start m = a \<and>
      covered (m # ys) = {unat a..<unat a + unat n} \<union> covered rs"
  proof (cases rs)
    case Nil
    then have "m = \<lparr>sp_start = a, sp_len = n\<rparr>" "ys = rs" using assms(5) by (auto simp: merge_right_def)
    then show ?thesis by (rule plain) (simp add: Nil)
  next
    case (Cons r rs')
    show ?thesis
    proof (cases "a + n = sp_start r")
      case True
      then have r: "sp_from r = unat a + unat n" using sum by metis
      have "unat n + unat (sp_len r) < 2 ^ 32" using assms(1,4) Cons r by (simp add: sp_end_def)
      then have l: "unat (n + sp_len r) = unat n + unat (sp_len r)" by (simp add: unat_word_ariths)
      have m: "m = \<lparr>sp_start = a, sp_len = n + sp_len r\<rparr>" "ys = rs'"
        using assms(5) True Cons by (simp_all add: merge_right_def)
      have "sp_end m = sp_end r" using m l r by (simp add: sp_end_def)
      moreover have "0 < sp_len m" using m l assms(2) by (simp add: word_less_nat_alt)
      ultimately show ?thesis using assms(1) Cons m r sp_pos [of r] by (auto simp: sp_end_def add.assoc)
    next
      case False
      then have "sp_from r \<noteq> unat a + unat n" using sum by (metis word_unat_eq_iff)
      then have "spans_ok (Suc (unat a + unat n)) hi rs" using assms(1) Cons by simp
      moreover have "m = \<lparr>sp_start = a, sp_len = n\<rparr>" "ys = rs"
        using assms(5) Cons False by (simp_all add: merge_right_def)
      ultimately show ?thesis by (intro plain)
    qed
  qed
  then show "spans_ok (unat a) hi (m # ys)" "sp_start m = a"
    "covered (m # ys) = {unat a..<unat a + unat n} \<union> covered rs" by blast+
qed

lemma merge_right_length: "merge_right a n rs = (m, ys) \<Longrightarrow> length ys \<le> length rs"
  by (auto simp: merge_right_def split: list.splits if_splits)

definition merge_left :: "span list \<Rightarrow> span \<Rightarrow> span list" where
  "merge_left ls m =
     (if ls \<noteq> [] \<and> sp_start (last ls) + sp_len (last ls) = sp_start m
      then butlast ls @ [(last ls)\<lparr>sp_len := sp_len (last ls) + sp_len m\<rparr>] else ls @ [m])"

lemma next_from_last: "next_from lo (ls @ [l]) = Suc (sp_end l)"
  by simp

lemma merge_left_ok:
  assumes "spans_ok lo hi ls" "\<And>s. s \<in> set ls \<Longrightarrow> sp_end s \<le> sp_from m" "spans_ok (sp_from m) hi (m # ys)"
    "lo \<le> sp_from m" "hi < 2 ^ 32"
  shows "spans_ok lo hi (merge_left ls m @ ys)" "covered (merge_left ls m) = covered ls \<union> {sp_from m..<sp_end m}"
proof -
  have "spans_ok lo hi (merge_left ls m @ ys) \<and> covered (merge_left ls m) = covered ls \<union> {sp_from m..<sp_end m}"
  proof (cases ls rule: rev_cases)
    case Nil
    then show ?thesis using assms(3,4) by (simp add: merge_left_def)
  next
    case (snoc ls' l)
    have l: "spans_ok (next_from lo ls') hi [l]" "sp_end l \<le> hi" "sp_end l \<le> sp_from m" using assms(1,2) snoc by simp_all
    then have sum: "unat (sp_start l + sp_len l) = sp_end l"
      using assms(5) by (simp add: sp_end_def unat_word_ariths)
    show ?thesis
    proof (cases "sp_start l + sp_len l = sp_start m")
      case True
      then have m: "sp_from m = sp_end l" using sum by metis
      have len: "unat (sp_len l + sp_len m) = unat (sp_len l) + unat (sp_len m)"
        using assms(3,5) m by (simp add: sp_end_def unat_word_ariths)
      let ?l = "l\<lparr>sp_len := sp_len l + sp_len m\<rparr>"
      have e: "sp_end ?l = sp_end m" using len m by (simp add: sp_end_def)
      have "0 < sp_len ?l" using len l(1) by (simp add: word_less_nat_alt)
      moreover have "merge_left ls m = ls' @ [?l]" using True snoc by (simp add: merge_left_def)
      moreover have "sp_from l \<le> sp_end l" "sp_end l \<le> sp_end m" using m by (simp_all add: sp_end_def)
      ultimately show ?thesis using e assms(1,3) snoc m by auto
    next
      case False
      then have "sp_end l < sp_from m" using l(3) sum by (metis le_neq_implies_less word_unat_eq_iff)
      then show ?thesis using False assms(1,3) snoc by (auto simp: merge_left_def)
    qed
  qed
  then show "spans_ok lo hi (merge_left ls m @ ys)" "covered (merge_left ls m) = covered ls \<union> {sp_from m..<sp_end m}" by blast+
qed

text \<open>The array code on the canonical image, cut at the insertion point.\<close>

definition merges_left :: "span list \<Rightarrow> u32 \<Rightarrow> bool" where
  "merges_left ls a \<longleftrightarrow> ls \<noteq> [] \<and> sp_start (last ls) + sp_len (last ls) = a"

lemma free_free_lists:
  assumes cut: "xs = ls @ rs" "\<forall>s \<in> set ls. sp_start s < a" "rs \<noteq> [] \<longrightarrow> \<not> sp_start (hd rs) < a"
    and cap: "length xs \<le> cap" "cap < 2 ^ 32" and n: "n \<noteq> 0" and m: "merge_right a n rs = (m, ys)"
  shows "free_free a n (spans_of cap xs) =
    (if merges_left ls a \<or> length (ls @ ys) < cap then Some (spans_of cap (merge_left ls m @ ys)) else None)"
proof -
  let ?f = "spans_of cap xs" and ?idx = "length ls"
  note u = spans_of_simps [OF cap]
  have idx: "insert_point a ?f = ?idx"
  proof -
    have "take (unat (fs_count ?f)) (fs_spans ?f) = xs" using u(1,2) by simp
    moreover have "takeWhile (\<lambda>s. sp_start s < a) xs = ls @ takeWhile (\<lambda>s. sp_start s < a) rs"
      unfolding cut(1) using cut(2) by (simp add: takeWhile_append2)
    ultimately show ?thesis unfolding insert_point_def using cut(3) by (cases rs) simp_all
  qed
  define touches where "touches = (?idx < unat (fs_count ?f) \<and> a + n = sp_start (fs_spans ?f ! ?idx))"
  have head: "rs = r # rs' \<Longrightarrow> fs_spans ?f ! ?idx = r" for r rs' using u(4) [of ?idx] cut(1) by simp
  have merged: "m = \<lparr>sp_start = a, sp_len = (if touches then n + sp_len (fs_spans ?f ! ?idx) else n)\<rparr>"
      "(if touches then free_remove ?idx ?f else ?f) = spans_of cap (ls @ ys)" "length (ls @ ys) \<le> cap"
    using m u(1) cut(1) head cap remove_spans_of [of ?idx xs cap]
    by (auto simp: touches_def merge_right_def split: list.splits if_splits)
  note v = spans_of_simps [OF merged(3) cap(2)]
  have prev: "ls \<noteq> [] \<Longrightarrow> fs_spans (spans_of cap (ls @ ys)) ! (?idx - 1) = last ls"
    using v(4) [of "?idx - 1"] by (cases ls rule: rev_cases) (simp_all add: nth_append)
  have start: "sp_start m = a" using merged(1) by simp
  have upd: "ls \<noteq> [] \<Longrightarrow> (ls @ ys)[?idx - 1 := s] = butlast ls @ [s] @ ys" for s
    by (cases ls rule: rev_cases) (simp_all add: list_update_append)
  have "free_free a n ?f =
      (let f1 = spans_of cap (ls @ ys); prev = fs_spans f1 ! (?idx - 1)
       in if 0 < ?idx \<and> sp_start prev + sp_len prev = a
          then Some (f1\<lparr>fs_spans := (fs_spans f1)[?idx - 1 := prev\<lparr>sp_len := sp_len prev + sp_len m\<rparr>]\<rparr>)
          else free_insert ?idx m f1)"
    unfolding free_free_def Let_def idx merged(2) [symmetric] using n merged(1) by (simp add: touches_def)
  also have "\<dots> = (if merges_left ls a \<or> length (ls @ ys) < cap then Some (spans_of cap (merge_left ls m @ ys)) else None)"
  proof (cases "merges_left ls a")
    case True
    then have "ls \<noteq> []" "sp_start (last ls) + sp_len (last ls) = a" by (simp_all add: merges_left_def)
    moreover from this(1) have "?idx - 1 < length (ls @ ys)" by (cases ls) simp_all
    ultimately show ?thesis using True v(5) [of "?idx - 1"] prev upd start by (simp add: Let_def merge_left_def)
  next
    case False
    then have no: "\<not> (0 < ?idx \<and> sp_start (last ls) + sp_len (last ls) = a)" by (simp add: merges_left_def)
    have "merge_left ls m = ls @ [m]" using False start by (auto simp: merges_left_def merge_left_def)
    moreover have "free_insert ?idx m (spans_of cap (ls @ ys)) = None" if "\<not> length (ls @ ys) < cap"
    proof -
      have "\<not> unat (fs_count (spans_of cap (ls @ ys))) < length (fs_spans (spans_of cap (ls @ ys)))"
        unfolding v(1) using that merged(3) by (simp add: spans_of_def)
      then show ?thesis by (simp only: free_insert_def if_False)
    qed
    ultimately show ?thesis using False no prev insert_spans_of [of ?idx "ls @ ys" cap m] cap(2)
      by (cases "ls = []") (auto simp: Let_def)
  qed
  finally show ?thesis .
qed

lemma free_cases:
  assumes ok: "arena_ok cap hi f" and n: "0 < n" and fits: "unat a + unat n \<le> hi"
    and apart: "{unat a..<unat a + unat n} \<inter> free_slots f = {}"
  shows "\<exists>zs. spans_ok 0 hi zs \<and> covered zs = free_slots f \<union> {unat a..<unat a + unat n} \<and>
    free_free a n f = (if length zs \<le> cap then Some (spans_of cap zs) else None)"
proof -
  from ok obtain xs where xs: "cap < 2 ^ 32" "hi < 2 ^ 32" "length xs \<le> cap" "spans_ok 0 hi xs" "f = spans_of cap xs"
      "free_slots f = covered xs" by (rule arena_okE)
  let ?ls = "takeWhile (\<lambda>s. sp_start s < a) xs" and ?rs = "dropWhile (\<lambda>s. sp_start s < a) xs"
  have cut: "xs = ?ls @ ?rs" "\<forall>s \<in> set ?ls. sp_start s < a" "?rs \<noteq> [] \<longrightarrow> \<not> sp_start (hd ?rs) < a"
    using hd_dropWhile [of "\<lambda>s. sp_start s < a" xs] by (auto dest: set_takeWhileD)
  obtain m ys where m: "merge_right a n ?rs = (m, ys)" by fastforce
  have ok': "spans_ok 0 hi ?ls" "spans_ok (next_from 0 ?ls) hi ?rs" using xs(4) cut(1) by (metis spans_ok_append)+
  have cov: "covered xs = covered ?ls \<union> covered ?rs" using cut(1) by (metis covered_simps(3))
  have n': "0 < unat n" using n by (simp add: word_less_nat_alt)
  have left: "sp_end s \<le> unat a" if s: "s \<in> set ?ls" for s
  proof (rule ccontr)
    assume "\<not> sp_end s \<le> unat a"
    moreover have "sp_from s < unat a" using cut(2) s by (simp add: word_less_nat_alt)
    ultimately have "unat a \<in> covered ?ls" using s by (force simp: covered_def)
    moreover have "unat a \<in> {unat a..<unat a + unat n}" using n' by simp
    ultimately show False using apart xs(6) cov by blast
  qed
  have right: "spans_ok (unat a + unat n) hi ?rs"
  proof (cases ?rs)
    case (Cons r rs')
    have "sp_from r \<in> covered ?rs" using ok'(2) Cons sp_pos [of r] by simp
    then have "sp_from r \<notin> {unat a..<unat a + unat n}" using apart xs(6) cov by blast
    moreover have "unat a \<le> sp_from r" using cut(3) unfolding Cons by (simp add: word_le_nat_alt [symmetric] not_less)
    ultimately show ?thesis using ok'(2) Cons by simp
  next
    case Nil
    show ?thesis unfolding Nil by simp
  qed
  note R = merge_right_ok [OF right n fits xs(2) m]
  have ml: "spans_ok 0 hi (merge_left ?ls m @ ys)" "covered (merge_left ?ls m) = covered ?ls \<union> {sp_from m..<sp_end m}"
  proof -
    have a: "\<And>s. s \<in> set ?ls \<Longrightarrow> sp_end s \<le> sp_from m" "spans_ok (sp_from m) hi (m # ys)" "0 \<le> sp_from m"
      using left R(1) unfolding R(2) by blast+
    show "spans_ok 0 hi (merge_left ?ls m @ ys)" "covered (merge_left ?ls m) = covered ?ls \<union> {sp_from m..<sp_end m}"
      using merge_left_ok [OF ok'(1) a xs(2)] by blast+
  qed
  note merge_right_length [OF m]
  moreover have "length xs = length ?ls + length ?rs" using cut(1) by (metis length_append)
  ultimately have short: "length (?ls @ ys) \<le> length xs" by simp
  have "length (merge_left ?ls m @ ys) = (if merges_left ?ls a then length (?ls @ ys) else Suc (length (?ls @ ys)))"
    using R(2) by (auto simp: merge_left_def merges_left_def)
  then have "free_free a n f = (if length (merge_left ?ls m @ ys) \<le> cap then Some (spans_of cap (merge_left ?ls m @ ys)) else None)"
    unfolding xs(5) using free_free_lists [OF cut xs(3,1) _ m] n short xs(3) by (auto simp: word_gt_0)
  moreover have "covered (merge_left ?ls m @ ys) = free_slots f \<union> {unat a..<unat a + unat n}"
    using ml(2) R(3) cov xs(6) by auto
  ultimately show ?thesis using ml(1) by blast
qed

lemma free_nothing: "free_free a 0 f = Some f"
  by (simp add: free_free_def)

end
