(* ===== verification/ArenaRuns.thy ===== *)
theory ArenaRuns
  imports ArenaProofs
begin

text \<open>
  A pool in use: every reachable pool is partitioned between its free slots and the handles that
  are live, the fragments are at most one more than the live handles, so a capacity above their
  number is never exceeded, and a write through one handle is seen through no other.
\<close>

definition handle_range :: "handle \<Rightarrow> nat set" where
  "handle_range h = {unat (h_start h)..<unat (h_start h) + unat (h_len h)}"

text \<open>The pools a client can reach that keeps fewer than \<open>cap\<close> handles and frees each once.\<close>

inductive pool_reach :: "nat \<Rightarrow> nat \<Rightarrow> 'a \<Rightarrow> 'a pool \<Rightarrow> handle list \<Rightarrow> bool" for n cap fill where
  reach_new: "pool_reach n cap fill (pool_new n cap fill) []"
| reach_alloc: "pool_reach n cap fill p live \<Longrightarrow> Suc (length live) < cap \<Longrightarrow> pool_alloc k p = (Some h, p') \<Longrightarrow>
    pool_reach n cap fill p' (live @ [h])"
| reach_full: "pool_reach n cap fill p live \<Longrightarrow> pool_alloc k p = (None, p') \<Longrightarrow> pool_reach n cap fill p' live"
| reach_free: "pool_reach n cap fill p (before @ h # after) \<Longrightarrow> pool_free h p = Some p' \<Longrightarrow>
    pool_reach n cap fill p' (before @ after)"
| reach_write: "pool_reach n cap fill p live \<Longrightarrow> h \<in> set live \<Longrightarrow> (\<And>xs. length (f xs) = length xs) \<Longrightarrow>
    pool_modify h f p = Some p' \<Longrightarrow> pool_reach n cap fill p' live"

definition apart :: "handle list \<Rightarrow> bool" where
  "apart live \<longleftrightarrow> sorted_wrt (\<lambda>g h. handle_range g \<inter> handle_range h = {}) live"

definition pool_ok :: "nat \<Rightarrow> nat \<Rightarrow> 'a pool \<Rightarrow> handle list \<Rightarrow> bool" where
  "pool_ok n cap p live \<longleftrightarrow>
     arena_ok cap n (pl_free p) \<and> length (pl_slots p) = n \<and> apart live \<and>
     free_slots (pl_free p) \<inter> (\<Union>h \<in> set live. handle_range h) = {} \<and>
     free_slots (pl_free p) \<union> (\<Union>h \<in> set live. handle_range h) = {0..<n} \<and>
     (\<forall>h \<in> set live. unat (h_start h) + unat (h_len h) \<le> n)"

lemma apart_append:
  "apart (xs @ ys) \<longleftrightarrow> apart xs \<and> apart ys \<and> (\<forall>g \<in> set xs. \<forall>h \<in> set ys. handle_range g \<inter> handle_range h = {})"
  by (simp add: apart_def sorted_wrt_append)

lemma apart_Cons: "apart (h # ys) \<longleftrightarrow> (\<forall>g \<in> set ys. handle_range h \<inter> handle_range g = {}) \<and> apart ys"
  by (simp add: apart_def)

subsection \<open>Fragments\<close>

lemma fragments_list:
  assumes ok: "spans_ok 0 n xs" and disj: "covered xs \<inter> (\<Union>h \<in> set live. handle_range h) = {}"
    and all: "covered xs \<union> (\<Union>h \<in> set live. handle_range h) = {0..<n}"
  shows "length xs \<le> Suc (length live)"
proof -
  let ?k = "length xs"
  have owner: "\<exists>j < length live. sp_end (xs ! i) \<in> handle_range (live ! j)" if i: "Suc i < ?k" for i
  proof -
    have "sp_end (xs ! i) < sp_from (xs ! Suc i)" using spans_sorted [OF ok, of i "Suc i"] i by simp
    moreover have "sp_from (xs ! Suc i) < n" using spans_ok_nth [OF ok i] sp_pos [of "xs ! Suc i"] by linarith
    ultimately have "sp_end (xs ! i) \<in> {0..<n}" by simp
    moreover have "sp_end (xs ! i) \<notin> covered xs"
    proof
      assume "sp_end (xs ! i) \<in> covered xs"
      then obtain j where j: "j < ?k" "sp_from (xs ! j) \<le> sp_end (xs ! i)" "sp_end (xs ! i) < sp_end (xs ! j)"
        by (auto simp: covered_def in_set_conv_nth)
      then show False using spans_sorted [OF ok, of i j] spans_sorted [OF ok, of j i] i sp_pos [of "xs ! i"]
          spans_ok_nth [OF ok, of i]
        by (cases i j rule: linorder_cases) auto
    qed
    ultimately have "sp_end (xs ! i) \<in> (\<Union>h \<in> set live. handle_range h)"
      using all by blast
    then show ?thesis by (auto simp: in_set_conv_nth)
  qed
  define own where "own i = (SOME j. j < length live \<and> sp_end (xs ! i) \<in> handle_range (live ! j))" for i
  have own: "own i < length live \<and> sp_end (xs ! i) \<in> handle_range (live ! own i)" if "Suc i < ?k" for i
    unfolding own_def using someI_ex [OF owner [OF that]] .
  have differ: "own i \<noteq> own j" if ij: "i < j" "Suc j < ?k" for i j
  proof
    assume eq: "own i = own j"
    let ?h = "live ! own i"
    have a: "sp_end (xs ! i) \<in> handle_range ?h" "sp_end (xs ! j) \<in> handle_range ?h" "own i < length live"
      using own [of i] own [of j] ij eq by auto
    have "sp_end (xs ! i) < sp_from (xs ! Suc i)" using spans_sorted [OF ok, of i "Suc i"] ij by simp
    moreover have "sp_from (xs ! Suc i) < sp_end (xs ! j)"
      using spans_sorted [OF ok, of "Suc i" j] ij sp_pos spans_ok_nth [OF ok, of "Suc i"] spans_ok_nth [OF ok, of j]
      by (cases "Suc i = j") (fastforce intro: sp_pos less_trans)+
    ultimately have "sp_from (xs ! Suc i) \<in> handle_range ?h" using a by (auto simp: handle_range_def)
    moreover have "sp_from (xs ! Suc i) \<in> covered xs"
      using ij spans_ok_nth [OF ok, of "Suc i"] sp_pos [of "xs ! Suc i"]
      by (auto simp: covered_def intro!: bexI [of _ "xs ! Suc i"])
    moreover have "?h \<in> set live" using a(3) by simp
    ultimately show False using disj by blast
  qed
  have "inj_on own {..<?k - 1}"
    by (rule linorder_inj_onI) (use differ in force)+
  moreover have "own ` {..<?k - 1} \<subseteq> {..<length live}" using own by auto
  ultimately have "?k - 1 \<le> length live" using card_inj_on_le [of own "{..<?k - 1}" "{..<length live}"] by simp
  then show ?thesis by simp
qed

lemma fragments_bounded:
  assumes ok: "pool_ok n cap p live"
  shows "frag_count (pl_free p) \<le> Suc (length live)"
proof -
  from ok obtain xs where xs: "length xs \<le> cap" "cap < 2 ^ 32" "spans_ok 0 n xs" "pl_free p = spans_of cap xs"
      "free_slots (pl_free p) = covered xs" unfolding pool_ok_def by (auto elim: arena_okE)
  have "length xs \<le> Suc (length live)"
    by (rule fragments_list [OF xs(3)]) (use ok xs(5) in \<open>simp_all add: pool_ok_def\<close>)
  then show ?thesis using spans_of_simps(1) [OF xs(1,2)] xs(4) by (simp add: frag_count_def)
qed

subsection \<open>Every reachable pool\<close>

lemma pool_ok_apart_free:
  "pool_ok n cap p live \<Longrightarrow> h \<in> set live \<Longrightarrow> handle_range h \<inter> free_slots (pl_free p) = {}"
  by (auto simp: pool_ok_def)

lemma pool_ok_new:
  assumes "0 < cap" "cap < 2 ^ 32" "n < 2 ^ 32"
  shows "pool_ok n cap (pool_new n cap fill) []"
proof -
  have "unat (word_of_nat n :: u32) = n" using assms(3) by (simp add: unat_of_nat take_bit_nat_eq_self)
  then show ?thesis using arena_new [OF assms(1,2), of "word_of_nat n"] by (simp add: pool_ok_def pool_new_def apart_def)
qed

lemma free_alloc_zero:
  assumes "free_alloc 0 f = (r, f')" "arena_ok cap n f"
  shows "f' = f \<and> (\<forall>a. r = Some a \<longrightarrow> unat a \<le> n)"
proof -
  from assms(2) obtain xs where xs: "length xs \<le> cap" "cap < 2 ^ 32" "spans_ok 0 n xs" "f = spans_of cap xs" by (auto elim: arena_okE)
  note u = spans_of_simps [OF xs(1,2)]
  show ?thesis
  proof (cases xs)
    case Nil
    then show ?thesis using assms(1) xs(4) u(1) by (simp add: free_alloc_def)
  next
    case (Cons s ss)
    then have "[0..<unat (fs_count f)] = 0 # [1..<unat (fs_count f)]"
      using u(1) xs(4) by (simp add: upt_conv_Cons del: upt_Suc)
    moreover have "fs_spans f ! 0 = s" using u(4) [of 0] Cons xs(4) by simp
    moreover have "sp_len s \<noteq> 0" "sp_from s \<le> n" using xs(3) Cons by (auto simp: sp_end_def)
    moreover have "\<lparr>sp_start = sp_start s, sp_len = sp_len s\<rparr> = s" by simp
    moreover from this have "(fs_spans f)[0 := \<lparr>sp_start = sp_start s, sp_len = sp_len s\<rparr>] = fs_spans f"
      using calculation(2) by (metis list_update_id)
    ultimately show ?thesis using assms(1) by (auto simp: free_alloc_def Let_def)
  qed
qed

lemma pool_ok_alloc:
  assumes ok: "pool_ok n cap p live" and alloc: "pool_alloc k p = (r, p')"
  shows "case r of None \<Rightarrow> p' = p | Some h \<Rightarrow> pool_ok n cap p' (live @ [h])"
proof -
  obtain s f' where fa: "free_alloc k (pl_free p) = (s, f')" by fastforce
  then have r: "r = map_option (\<lambda>a. \<lparr>h_start = a, h_len = k\<rparr>) s" "p' = p\<lparr>pl_free := f'\<rparr>"
    using alloc by (simp_all add: pool_alloc_def)
  have arena: "arena_ok cap n (pl_free p)" using ok by (simp add: pool_ok_def)
  show ?thesis
  proof (cases "k = 0")
    case True
    then show ?thesis using free_alloc_zero [OF _ arena, of s f'] fa r ok
      by (cases s) (auto simp: pool_ok_def apart_append apart_Cons handle_range_def, simp add: apart_def)
  next
    case False
    then have k: "0 < k" by (simp add: word_gt_0)
    show ?thesis
    proof (cases s)
      case None
      then show ?thesis using alloc_cases [OF arena k] fa r by auto
    next
      case (Some a)
      have new: "arena_ok cap n f'" "{unat a..<unat a + unat k} \<subseteq> free_slots (pl_free p)"
          "free_slots f' = free_slots (pl_free p) - {unat a..<unat a + unat k}"
        using alloc_cases [OF arena k] fa Some by auto
      have "0 < unat k" using k by (simp add: word_less_nat_alt)
      then have "unat a + unat k - 1 \<in> {unat a..<unat a + unat k}" by simp
      then have "unat a + unat k - 1 < n" using new(2) free_slots_bounded [OF arena] by blast
      then have le: "unat a + unat k \<le> n" by linarith
      let ?h = "\<lparr>h_start = a, h_len = k\<rparr>"
      have h: "handle_range ?h = {unat a..<unat a + unat k}" by (simp add: handle_range_def)
      have "\<forall>g \<in> set live. handle_range g \<inter> handle_range ?h = {}"
        using pool_ok_apart_free [OF ok] new(2) h by blast
      then have "apart (live @ [?h])" using ok by (simp add: pool_ok_def apart_append) (simp add: apart_def)
      moreover have "free_slots f' \<inter> (\<Union>g \<in> set (live @ [?h]). handle_range g) = {}"
        using ok new(3) h by (auto simp: pool_ok_def)
      moreover have "free_slots f' \<union> (\<Union>g \<in> set (live @ [?h]). handle_range g) = {0..<n}"
        using ok new(2,3) h by (auto simp: pool_ok_def)
      ultimately show ?thesis using ok new(1) le Some r by (simp add: pool_ok_def)
    qed
  qed
qed

lemma pool_ok_free:
  assumes ok: "pool_ok n cap p (before @ h # after)" and room: "Suc (length (before @ after)) < cap"
  shows "\<exists>p'. pool_free h p = Some p' \<and> pool_ok n cap p' (before @ after)"
proof (cases "h_len h = 0")
  case True
  then have "pool_free h p = Some p" by (simp add: pool_free_def free_nothing)
  moreover have "handle_range h = {}" using True by (simp add: handle_range_def)
  ultimately show ?thesis using ok by (auto simp: pool_ok_def apart_append apart_Cons)
next
  case False
  then have n: "0 < h_len h" by (simp add: word_gt_0)
  have arena: "arena_ok cap n (pl_free p)" and le: "unat (h_start h) + unat (h_len h) \<le> n"
    using ok by (simp_all add: pool_ok_def)
  have h: "handle_range h = {unat (h_start h)..<unat (h_start h) + unat (h_len h)}" by (simp add: handle_range_def)
  have disj: "{unat (h_start h)..<unat (h_start h) + unat (h_len h)} \<inter> free_slots (pl_free p) = {}"
    using pool_ok_apart_free [OF ok, of h] h by simp
  obtain zs where zs: "spans_ok 0 n zs" "covered zs = free_slots (pl_free p) \<union> handle_range h"
      "free_free (h_start h) (h_len h) (pl_free p) = (if length zs \<le> cap then Some (spans_of cap zs) else None)"
    using free_cases [OF arena n le disj] h by auto
  have others: "handle_range h \<inter> (\<Union>g \<in> set (before @ after). handle_range g) = {}" "apart (before @ after)"
    using ok by (auto simp: pool_ok_def apart_append apart_Cons)
  have part: "covered zs \<inter> (\<Union>g \<in> set (before @ after). handle_range g) = {}"
      "covered zs \<union> (\<Union>g \<in> set (before @ after). handle_range g) = {0..<n}"
    using ok others(1) zs(2) by (auto simp: pool_ok_def)
  have size: "length zs \<le> cap" using fragments_list [OF zs(1) part] room by linarith
  have cap: "cap < 2 ^ 32" "n < 2 ^ 32" using arena by (auto simp: arena_ok_def)
  let ?p = "p\<lparr>pl_free := spans_of cap zs\<rparr>"
  have "pool_free h p = Some ?p" using zs(3) size by (simp add: pool_free_def)
  moreover have "pool_ok n cap ?p (before @ after)"
    using ok part others(2) arena_okI [OF cap size zs(1)] spans_of_simps(3) [OF size cap(1)] by (auto simp: pool_ok_def)
  ultimately show ?thesis by blast
qed

lemma pool_ok_bounds:
  assumes "pool_ok n cap p live" "h \<in> set live"
  shows "handle_bounds h p = Some (unat (h_start h), unat (h_start h) + unat (h_len h))"
proof -
  have "unat (h_start h) + unat (h_len h) \<le> n" "n < 2 ^ 32" "length (pl_slots p) = n"
    using assms by (auto simp: pool_ok_def arena_ok_def)
  then show ?thesis by (simp add: handle_bounds_def Let_def unat_word_ariths)
qed

lemma pool_modify_eq:
  assumes "pool_ok n cap p live" "h \<in> set live" "\<And>xs. length (f xs) = length xs" "pool_modify h f p = Some p'"
  shows "pool_ok n cap p' live" "\<And>i. i < n \<Longrightarrow> i \<notin> handle_range h \<Longrightarrow> pl_slots p' ! i = pl_slots p ! i"
    "pool_get h p' = map_option f (pool_get h p)"
proof -
  let ?a = "unat (h_start h)" and ?b = "unat (h_start h) + unat (h_len h)"
  have len: "?b \<le> length (pl_slots p)" "length (pl_slots p) = n" using assms(1,2) by (auto simp: pool_ok_def)
  let ?ys = "take ?a (pl_slots p) @ f (take (?b - ?a) (drop ?a (pl_slots p))) @ drop ?b (pl_slots p)"
  have p': "p' = p\<lparr>pl_slots := ?ys\<rparr>"
    using assms(4) pool_ok_bounds [OF assms(1,2)] by (simp add: pool_modify_def)
  have mid: "length (f (take (?b - ?a) (drop ?a (pl_slots p)))) = ?b - ?a" using len by (simp add: assms(3))
  then have "length ?ys = n" using len by simp
  then show ok: "pool_ok n cap p' live" using assms(1) p' by (simp add: pool_ok_def)
  show "pl_slots p' ! i = pl_slots p ! i" if "i < n" "i \<notin> handle_range h" for i
    using that len mid unfolding p' by (auto simp: nth_append handle_range_def)
  show "pool_get h p' = map_option f (pool_get h p)"
    using pool_ok_bounds [OF assms(1,2)] pool_ok_bounds [OF ok assms(2)] len mid by (simp add: pool_get_def p')
qed

lemma pool_reach_ok:
  assumes "pool_reach n cap fill p live" and caps: "0 < cap" "cap < 2 ^ 32" "n < 2 ^ 32"
  shows "pool_ok n cap p live \<and> length live < cap"
  using assms(1)
proof induction
  case reach_new
  then show ?case using pool_ok_new [OF caps] caps(1) by simp
next
  case (reach_alloc p live k h p')
  then show ?case using pool_ok_alloc [of n cap p live k "Some h" p'] by simp
next
  case (reach_full p live k p')
  then show ?case using pool_ok_alloc [of n cap p live k None p'] by simp
next
  case (reach_free p before h after p')
  then have "Suc (length (before @ after)) < cap" by simp
  then show ?case using pool_ok_free [of n cap p before h after] reach_free by auto
next
  case (reach_write p live h f p')
  then show ?case using pool_modify_eq(1) by blast
qed

lemma free_total_card:
  assumes "arena_ok cap n f"
  shows "unat (free_total f) = card (free_slots f)"
proof -
  from assms obtain xs where xs: "length xs \<le> cap" "cap < 2 ^ 32" "n < 2 ^ 32" "spans_ok 0 n xs" "f = spans_of cap xs"
      "free_slots f = covered xs" by (auto elim: arena_okE)
  have small: "sum_list (map (\<lambda>s. unat (sp_len s)) xs) \<le> n"
    using covered_card [OF xs(4)] card_mono [of "{0..<n}" "covered xs"] spans_ok_above [OF xs(4)] by (fastforce simp: subset_iff)
  have sum: "sum_list (map (\<lambda>s. unat (sp_len s)) ys) < 2 ^ 64 \<Longrightarrow>
      unat (sum_list (map (\<lambda>s. ucast (sp_len s) :: u64) ys)) = sum_list (map (\<lambda>s. unat (sp_len s)) ys)" for ys
    by (induction ys) (simp_all add: unat_word_ariths unsigned_ucast_eq take_bit_nat_eq_self)
  have "free_total f = sum_list (map (\<lambda>s. ucast (sp_len s)) xs)"
    using spans_of_simps(1,2) [OF xs(1,2)] xs(5) by (simp add: free_total_def)
  then show ?thesis using sum [of xs] small xs(3,6) covered_card [OF xs(4)] by simp
qed

text \<open>C37 -- A reachable pool of \<open>CAP\<close> fragments with fewer than \<open>CAP\<close> live handles: every slot is free or
  in exactly one live handle, the free count is what is left, every live handle can be read and freed
  without a panic, and freeing it gives a reachable pool again.\<close>

theorem pool_partition:
  assumes "pool_reach n cap fill p live" "0 < cap" "cap < 2 ^ 32" "n < 2 ^ 32"
  shows "free_slots (pl_free p) \<union> (\<Union>h \<in> set live. handle_range h) = {0..<n} \<and>
    free_slots (pl_free p) \<inter> (\<Union>h \<in> set live. handle_range h) = {} \<and>
    sorted_wrt (\<lambda>g h. handle_range g \<inter> handle_range h = {}) live \<and>
    unat (pool_free_total p) + card (\<Union>h \<in> set live. handle_range h) = n \<and>
    pool_frag_count p \<le> length live + 1 \<and>
    list_all (\<lambda>h. pool_get h p \<noteq> None \<and> pool_free h p \<noteq> None) live"
proof -
  have ok: "pool_ok n cap p live" and len: "length live < cap" using pool_reach_ok [OF assms] by auto
  have "pool_get h p \<noteq> None \<and> pool_free h p \<noteq> None" if h: "h \<in> set live" for h
  proof
    show "pool_get h p \<noteq> None" using pool_ok_bounds [OF ok h] by (simp add: pool_get_def)
    obtain xs ys where live: "live = xs @ h # ys" using split_list [OF h] by blast
    then have "Suc (length (xs @ ys)) < cap" using len by simp
    then show "pool_free h p \<noteq> None" using pool_ok_free [of n cap p xs h ys] ok live by auto
  qed
  moreover have "unat (pool_free_total p) + card (\<Union>h \<in> set live. handle_range h) = n"
  proof -
    have "finite (free_slots (pl_free p))" "finite (\<Union>h \<in> set live. handle_range h)"
      by (simp_all add: free_slots_def handle_range_def)
    then have "card (free_slots (pl_free p)) + card (\<Union>h \<in> set live. handle_range h) = card {0..<n}"
      using ok by (metis card_Un_disjoint pool_ok_def)
    then show ?thesis using free_total_card [of cap n "pl_free p"] ok by (simp add: pool_free_total_def pool_ok_def)
  qed
  ultimately show ?thesis using ok fragments_bounded [OF ok]
    by (simp add: pool_ok_def apart_def pool_frag_count_def list_all_iff)
qed

text \<open>Live handles do not alias: a write through one leaves what every other handle reads.\<close>

theorem pool_writes_apart:
  assumes "pool_reach n cap fill p (xs @ g # ys)" "0 < cap" "cap < 2 ^ 32" "n < 2 ^ 32"
    and "h \<in> set xs \<union> set ys" "\<And>zs. length (f zs) = length zs"
  shows "\<exists>p'. pool_modify h f p = Some p' \<and> pool_get g p' = pool_get g p \<and> pool_get h p' = map_option f (pool_get h p)"
proof -
  have ok: "pool_ok n cap p (xs @ g # ys)" using pool_reach_ok [OF assms(1-4)] by simp
  have mem: "h \<in> set (xs @ g # ys)" "g \<in> set (xs @ g # ys)" using assms(5) by auto
  obtain p' where p': "pool_modify h f p = Some p'"
    using pool_ok_bounds [OF ok mem(1)] by (simp add: pool_modify_def)
  note w = pool_modify_eq [OF ok mem(1) assms(6) p']
  have disj: "handle_range g \<inter> handle_range h = {}" using ok assms(5) by (auto simp: pool_ok_def apart_append apart_Cons)
  let ?a = "unat (h_start g)" and ?b = "unat (h_start g) + unat (h_len g)"
  have len: "length (pl_slots p) = n" "length (pl_slots p') = n" "?b \<le> n"
    using ok w(1) mem(2) by (auto simp: pool_ok_def)
  have "take (?b - ?a) (drop ?a (pl_slots p')) = take (?b - ?a) (drop ?a (pl_slots p))"
  proof (rule nth_equalityI)
    fix i assume "i < length (take (?b - ?a) (drop ?a (pl_slots p')))"
    then have i: "i < ?b - ?a" using len by simp
    then have "?a + i \<in> handle_range g" by (simp add: handle_range_def)
    then have "?a + i \<notin> handle_range h" using disj by blast
    then show "take (?b - ?a) (drop ?a (pl_slots p')) ! i = take (?b - ?a) (drop ?a (pl_slots p)) ! i"
      using w(2) [of "?a + i"] i len by simp
  qed (use len in simp)
  then have "pool_get g p' = pool_get g p"
    using pool_ok_bounds [OF ok mem(2)] pool_ok_bounds [OF w(1) mem(2)] by (simp add: pool_get_def)
  then show ?thesis using p' w(3) by blast
qed

text \<open>C38 -- First fit: an allocation takes the lowest run of free slots that is long enough and changes
  no slot; it fails, leaving the pool untouched, exactly when there is no such run.\<close>

theorem pool_alloc_first_fit:
  assumes "pool_reach n cap fill p live" "0 < cap" "cap < 2 ^ 32" "n < 2 ^ 32" "0 < k"
  shows "case pool_alloc k p of
      (Some h, p') \<Rightarrow> h_len h = k \<and> unat (h_start h) = (LEAST b. {b..<b + unat k} \<subseteq> free_slots (pl_free p)) \<and>
        free_slots (pl_free p') = free_slots (pl_free p) - handle_range h \<and>
        handle_range h \<subseteq> free_slots (pl_free p) \<and> pl_slots p' = pl_slots p
    | (None, p') \<Rightarrow> p' = p \<and> (\<nexists>b. {b..<b + unat k} \<subseteq> free_slots (pl_free p))"
proof -
  have arena: "arena_ok cap n (pl_free p)" using pool_reach_ok [OF assms(1-4)] by (simp add: pool_ok_def)
  from alloc_cases [OF arena assms(5)] show ?thesis
  proof (elim disjE exE conjE)
    fix a f'
    assume "free_alloc k (pl_free p) = (Some a, f')" "{unat a..<unat a + unat k} \<subseteq> free_slots (pl_free p)"
      "free_slots f' = free_slots (pl_free p) - {unat a..<unat a + unat k}"
      "\<forall>b. {b..<b + unat k} \<subseteq> free_slots (pl_free p) \<longrightarrow> unat a \<le> b"
    moreover from this have "(LEAST b. {b..<b + unat k} \<subseteq> free_slots (pl_free p)) = unat a"
      by (intro Least_equality) auto
    ultimately show ?thesis by (simp add: pool_alloc_def handle_range_def)
  qed (simp add: pool_alloc_def)
qed

text \<open>The state of the allocator is a function of its free slots: two pools of one capacity that
  are reached in different ways and have the same free slots hold the same array, so equality of the
  derived \<open>PartialEq\<close> and a checksum over the bytes depend on nothing else.\<close>

theorem pool_canonical:
  assumes "pool_reach n cap fill p live" "pool_reach m cap fill' q live'"
    and "0 < cap" "cap < 2 ^ 32" "n < 2 ^ 32" "m < 2 ^ 32"
    and "free_slots (pl_free p) = free_slots (pl_free q)"
  shows "pl_free p = pl_free q"
  using free_spans_canonical [of cap n "pl_free p" m "pl_free q"] assms(7)
    pool_reach_ok [OF assms(1,3,4,5)] pool_reach_ok [OF assms(2,3,4,6)] by (simp add: pool_ok_def)

subsection \<open>A pool of eight slots\<close>

definition first_pool :: "nat pool" where
  "first_pool = snd (pool_alloc 3 (pool_new 8 4 0))"

definition second_pool :: "nat pool" where
  "second_pool = snd (pool_alloc 2 first_pool)"

abbreviation first_handle :: handle where "first_handle \<equiv> \<lparr>h_start = 0, h_len = 3\<rparr>"
abbreviation second_handle :: handle where "second_handle \<equiv> \<lparr>h_start = 3, h_len = 2\<rparr>"

lemma first_reached: "pool_reach 8 4 0 first_pool [first_handle]"
proof -
  have "pool_alloc 3 (pool_new 8 4 (0::nat)) = (Some first_handle, first_pool)" by code_simp
  from reach_alloc [OF reach_new _ this] show ?thesis by simp
qed

lemma second_reached: "pool_reach 8 4 0 second_pool [first_handle, second_handle]"
proof -
  have "pool_alloc 2 first_pool = (Some second_handle, second_pool)" by code_simp
  from reach_alloc [OF first_reached _ this] show ?thesis by simp
qed

theorem pool_partition_witness:
  "free_slots (pl_free second_pool) \<union> (\<Union>h \<in> {first_handle, second_handle}. handle_range h) = {0..<8} \<and>
   pool_frag_count second_pool \<le> 3 \<and> pool_free first_handle second_pool \<noteq> None"
  using pool_partition [OF second_reached] by simp

theorem pool_writes_apart_witness:
  "\<exists>p'. pool_modify first_handle (map Suc) second_pool = Some p' \<and>
    pool_get second_handle p' = pool_get second_handle second_pool"
  using pool_writes_apart [of 8 4 "0::nat" second_pool "[first_handle]" second_handle "[]" first_handle "map Suc"]
    second_reached by auto

theorem pool_alloc_first_fit_witness:
  "case pool_alloc 2 first_pool of
      (Some h, p') \<Rightarrow> unat (h_start h) = (LEAST b. {b..<b + 2} \<subseteq> free_slots (pl_free first_pool))
    | (None, p') \<Rightarrow> False"
proof -
  have "pool_alloc 2 first_pool = (Some second_handle, second_pool)" by code_simp
  then show ?thesis using pool_alloc_first_fit [OF first_reached, of 2] by simp
qed

text \<open>Freeing both in either order gives back the fresh allocator.\<close>

definition both_freed :: "nat pool" where
  "both_freed = the (pool_free second_handle (the (pool_free first_handle second_pool)))"

lemma both_freed_reached: "pool_reach 8 4 0 both_freed []"
proof -
  have "pool_free first_handle second_pool = Some (the (pool_free first_handle second_pool))"
      "pool_free second_handle (the (pool_free first_handle second_pool)) = Some both_freed" by code_simp+
  with reach_free [of 8 4 "0::nat" second_pool "[]" first_handle "[second_handle]"]
    reach_free [of 8 4 "0::nat" "the (pool_free first_handle second_pool)" "[]" second_handle "[]"]
  show ?thesis using second_reached by simp
qed

theorem pool_canonical_witness: "pl_free both_freed = pl_free (pool_new 8 4 (0::nat))"
  by (rule pool_canonical [OF both_freed_reached reach_new]) (simp_all, code_simp)

end
