(* ===== verification/Slices.thy ===== *)
theory Slices
  imports Prelude
begin

text \<open>
  The reducers of the \<open>redux\<close> crate: \<open>Store\<close> and \<open>replay\<close> of \<open>redux/src/lib.rs\<close>, the slice algebra
  of \<open>0_slice.rs\<close> and \<open>reduce_then_apply\<close> of \<open>2_effects.rs\<close>. A slice is a function of state, event
  and context that returns its output, the new state and the effects it handed to the sink, in
  that order; the sink of the code can only be called, so running it is folding it over that
  list. A subscriber is a function on the world outside the store.
\<close>

subsection \<open>The store\<close>

record ('s, 'a, 'k) store =
  so_state :: 's
  so_reducer :: "'s \<Rightarrow> 'a \<Rightarrow> 's"
  so_subs :: "(u64 \<times> ('s \<Rightarrow> 'k \<Rightarrow> 'k)) list"
  so_next :: u64

definition store_new :: "('s \<Rightarrow> 'a \<Rightarrow> 's) \<Rightarrow> 's \<Rightarrow> ('s, 'a, 'k) store" where
  "store_new reducer initial = \<lparr>so_state = initial, so_reducer = reducer, so_subs = [], so_next = 0\<rparr>"

definition notify :: "('s, 'a, 'k) store \<Rightarrow> 'k \<Rightarrow> 'k" where
  "notify s k = foldl (\<lambda>k (i, f). f (so_state s) k) k (so_subs s)"

definition dispatch :: "'a \<Rightarrow> ('s, 'a, 'k) store \<times> 'k \<Rightarrow> ('s, 'a, 'k) store \<times> 'k" where
  "dispatch a = (\<lambda>(s, k).
     let s' = s\<lparr>so_state := so_reducer s (so_state s) a\<rparr> in (s', notify s' k))"

definition subscribe :: "('s \<Rightarrow> 'k \<Rightarrow> 'k) \<Rightarrow> ('s, 'a, 'k) store \<Rightarrow> u64 \<times> ('s, 'a, 'k) store" where
  "subscribe f s = (so_next s, s\<lparr>so_next := so_next s + 1, so_subs := so_subs s @ [(so_next s, f)]\<rparr>)"

definition unsubscribe :: "u64 \<Rightarrow> ('s, 'a, 'k) store \<Rightarrow> ('s, 'a, 'k) store" where
  "unsubscribe i s = s\<lparr>so_subs := filter (\<lambda>(j, f). j \<noteq> i) (so_subs s)\<rparr>"

definition replace_reducer :: "('s \<Rightarrow> 'a \<Rightarrow> 's) \<Rightarrow> ('s, 'a, 'k) store \<Rightarrow> ('s, 'a, 'k) store" where
  "replace_reducer r s = s\<lparr>so_reducer := r\<rparr>"

definition replay_actions :: "('s \<Rightarrow> 'a \<Rightarrow> 's) \<Rightarrow> 's \<Rightarrow> 'a list \<Rightarrow> 's" where
  "replay_actions reducer initial actions = foldl reducer initial actions"

subsection \<open>Slices\<close>

type_synonym ('st, 'ev, 'cx, 'out, 'fx) slice = "'st \<Rightarrow> 'ev \<Rightarrow> 'cx \<Rightarrow> 'out \<times> 'st \<times> 'fx list"

definition then_slice ::
  "('st, 'ev, 'cx, 'mid, 'fx) slice \<Rightarrow> ('st, 'mid, 'cx, 'out, 'fx) slice \<Rightarrow> ('st, 'ev, 'cx, 'out, 'fx) slice" where
  "then_slice A B st ev cx =
     (let (mid, st1, e1) = A st ev cx; (out, st2, e2) = B st1 mid cx in (out, st2, e1 @ e2))"

definition map_effect ::
  "('st, 'ev, 'cx, 'out, 'fx) slice \<Rightarrow> ('fx \<Rightarrow> 'gx) \<Rightarrow> ('st, 'ev, 'cx, 'out, 'gx) slice" where
  "map_effect A conv st ev cx = (let (out, st', es) = A st ev cx in (out, st', map conv es))"

text \<open>A lens is the projection to a part of the state and its replacement.\<close>

record ('outer, 'inner) lens =
  ln_get :: "'outer \<Rightarrow> 'inner"
  ln_put :: "'inner \<Rightarrow> 'outer \<Rightarrow> 'outer"

definition zoom ::
  "('outer, 'inner) lens \<Rightarrow> ('inner, 'ev, 'cx, 'out, 'fx) slice \<Rightarrow> ('outer, 'ev, 'cx, 'out, 'fx) slice" where
  "zoom L A st ev cx = (let (out, v, es) = A (ln_get L st) ev cx in (out, ln_put L v st, es))"

text \<open>The tuple impls are chains of \<open>Then\<close>; the macro writes them for two to eight slices.\<close>

definition tuple2 where "tuple2 A B = then_slice A B"
definition tuple3 where "tuple3 A B C = then_slice A (tuple2 B C)"
definition tuple4 where "tuple4 A B C D = then_slice A (tuple3 B C D)"
definition tuple5 where "tuple5 A B C D E = then_slice A (tuple4 B C D E)"
definition tuple6 where "tuple6 A B C D E F = then_slice A (tuple5 B C D E F)"
definition tuple7 where "tuple7 A B C D E F G = then_slice A (tuple6 B C D E F G)"
definition tuple8 where "tuple8 A B C D E F G H = then_slice A (tuple7 B C D E F G H)"

record ('ev, 'cx, 'out) each_cx =
  ec_live :: nat
  ec_idle :: 'out
  ec_event :: "nat \<Rightarrow> 'ev"
  ec_slot :: "nat \<Rightarrow> 'cx"

text \<open>One slot after the other; an index past the array panics.\<close>

fun each_from ::
  "('st, 'ev, 'cx, 'out, 'fx) slice \<Rightarrow> ('ev, 'cx, 'out) each_cx \<Rightarrow> nat list \<Rightarrow> 'st list \<Rightarrow> 'out list \<Rightarrow> 'fx list \<Rightarrow>
     ('out list \<times> 'st list \<times> 'fx list) option" where
  "each_from A cx [] st out es = Some (out, st, es)"
| "each_from A cx (i # slots) st out es =
     (if i < length st
      then let (o', s', e) = A (st ! i) (ec_event cx i) (ec_slot cx i)
           in each_from A cx slots (st[i := s']) (out[i := o']) (es @ e)
      else None)"

definition each_slice ::
  "('st, 'ev, 'cx, 'out, 'fx) slice \<Rightarrow> 'st list \<Rightarrow> ('ev, 'cx, 'out) each_cx \<Rightarrow>
     ('out list \<times> 'st list \<times> 'fx list) option" where
  "each_slice A st cx = each_from A cx [0..<ec_live cx] st (replicate (length st) (ec_idle cx)) []"

definition run_slice ::
  "('st, 'ev, 'cx, 'out, 'fx) slice \<Rightarrow> 'st \<Rightarrow> 'ev \<Rightarrow> 'cx \<Rightarrow> ('fx \<Rightarrow> 'k \<Rightarrow> 'k) \<Rightarrow> 'k \<Rightarrow> 'out \<times> 'st \<times> 'k" where
  "run_slice A st ev cx fx k = (let (out, st', es) = A st ev cx in (out, st', foldl (\<lambda>k e. fx e k) k es))"

text \<open>The buffer is cleared, filled by the reduction and drained into the state.\<close>

definition reduce_then_apply ::
  "('st, 'ev, 'cx, 'out, 'fx) slice \<Rightarrow> 'st \<Rightarrow> 'ev \<Rightarrow> 'cx \<Rightarrow> 'fx list \<Rightarrow> ('st \<times> 'k \<Rightarrow> 'fx \<Rightarrow> 'st \<times> 'k) \<Rightarrow> 'k \<Rightarrow>
     'out \<times> ('st \<times> 'k) \<times> 'fx list" where
  "reduce_then_apply A st ev cx effects apply k =
     (let (out, st', buffer) = run_slice A st ev cx (\<lambda>e b. b @ [e]) []
      in (out, foldl apply (st', k) buffer, []))"

subsection \<open>The algebra\<close>

lemma then_assoc: "then_slice (then_slice A B) C = then_slice A (then_slice B C)"
  by (intro ext) (simp add: then_slice_def split: prod.splits)

lemma map_effect_then: "map_effect (then_slice A B) conv = then_slice (map_effect A conv) (map_effect B conv)"
  by (intro ext) (simp add: then_slice_def map_effect_def split: prod.splits)

lemma map_effect_comp: "map_effect (map_effect A f) g = map_effect A (g \<circ> f)"
  by (intro ext) (simp add: map_effect_def split: prod.splits)

lemma map_effect_id: "map_effect A id = A"
  by (intro ext) (simp add: map_effect_def split: prod.splits)

lemma run_then:
  "run_slice (then_slice A B) st ev cx fx k =
     (let (mid, st', k') = run_slice A st ev cx fx k in run_slice B st' mid cx fx k')"
  by (simp add: run_slice_def then_slice_def split: prod.splits)

lemma run_map_effect: "run_slice (map_effect A conv) st ev cx fx k = run_slice A st ev cx (fx \<circ> conv) k"
  by (simp add: run_slice_def map_effect_def foldl_map split: prod.splits)

text \<open>What \<open>Lens\<close> asks of its implementations: \<open>get\<close> and \<open>get_mut\<close> name one place.\<close>

locale lens_laws =
  fixes L :: "('outer, 'inner) lens"
  assumes get_put: "ln_get L (ln_put L v s) = v"
    and put_put: "ln_put L v (ln_put L u s) = ln_put L v s"
    and put_get: "ln_put L (ln_get L s) s = s"
begin

lemma zoom_then: "zoom L (then_slice A B) = then_slice (zoom L A) (zoom L B)"
  by (intro ext) (simp add: zoom_def then_slice_def get_put put_put split: prod.splits)

lemma zoom_inner:
  assumes "zoom L A st ev cx = (out, st', es)"
  shows "A (ln_get L st) ev cx = (out, ln_get L st', es)" "ln_put L (ln_get L st) st' = st"
  using assms by (auto simp: zoom_def get_put put_put put_get split: prod.splits)

end

definition lens_comp :: "('o, 'm) lens \<Rightarrow> ('m, 'i) lens \<Rightarrow> ('o, 'i) lens" where
  "lens_comp L M = \<lparr>ln_get = ln_get M \<circ> ln_get L, ln_put = (\<lambda>v s. ln_put L (ln_put M v (ln_get L s)) s)\<rparr>"

lemma zoom_comp: "zoom L (zoom M A) = zoom (lens_comp L M) A"
  by (intro ext) (simp add: zoom_def lens_comp_def split: prod.splits)

text \<open>The state of a store is a place in it, the only one a dispatch writes.\<close>

definition state_lens :: "(('s, 'a, 'k) store, 's) lens" where
  "state_lens = \<lparr>ln_get = so_state, ln_put = (\<lambda>v s. s\<lparr>so_state := v\<rparr>)\<rparr>"

interpretation state_lens: lens_laws state_lens
  by unfold_locales (simp_all add: state_lens_def)

lemma dispatch_zooms:
  "fst (dispatch a (s, k)) = fst (snd (zoom state_lens (\<lambda>st ev cx. ((), so_reducer s st ev, [])) s a ()))"
  by (simp add: dispatch_def zoom_def state_lens_def Let_def)

subsection \<open>Each slot by itself\<close>

lemma each_from_panics: "\<exists>i \<in> set slots. length st \<le> i \<Longrightarrow> each_from A cx slots st out es = None"
proof (induction slots arbitrary: st out es)
  case (Cons i slots)
  then have "i < length st \<Longrightarrow> \<exists>j \<in> set slots. length (st[i := s]) \<le> j" for s by auto
  with Cons.IH show ?case by (auto split: prod.splits)
qed simp

lemma each_from_slots:
  assumes "distinct slots" "\<forall>i \<in> set slots. i < length st" "length out = length st"
  shows "\<exists>out' st'. each_from A cx slots st out es =
      Some (out', st', es @ concat (map (\<lambda>i. snd (snd (A (st ! i) (ec_event cx i) (ec_slot cx i)))) slots)) \<and>
    length out' = length st \<and> length st' = length st \<and>
    (\<forall>i < length st. out' ! i = (if i \<in> set slots then fst (A (st ! i) (ec_event cx i) (ec_slot cx i)) else out ! i) \<and>
      st' ! i = (if i \<in> set slots then fst (snd (A (st ! i) (ec_event cx i) (ec_slot cx i))) else st ! i))"
  using assms
proof (induction slots arbitrary: st out es)
  case (Cons i slots)
  obtain o' s' e where A: "A (st ! i) (ec_event cx i) (ec_slot cx i) = (o', s', e)" by (metis surj_pair)
  have same: "map (\<lambda>j. snd (snd (A (st[i := s'] ! j) (ec_event cx j) (ec_slot cx j)))) slots
      = map (\<lambda>j. snd (snd (A (st ! j) (ec_event cx j) (ec_slot cx j)))) slots"
  proof (intro map_cong refl)
    fix j assume "j \<in> set slots"
    then have "j \<noteq> i" using Cons.prems(1) by auto
    then show "snd (snd (A (st[i := s'] ! j) (ec_event cx j) (ec_slot cx j))) = snd (snd (A (st ! j) (ec_event cx j) (ec_slot cx j)))"
      by simp
  qed
  have tail: "distinct slots" "\<forall>j \<in> set slots. j < length (st[i := s'])" "length (out[i := o']) = length (st[i := s'])"
    using Cons.prems by auto
  from Cons.IH [OF tail, of "es @ e"] obtain out' st' where ih:
      "each_from A cx slots (st[i := s']) (out[i := o']) (es @ e) =
         Some (out', st', es @ e @ concat (map (\<lambda>j. snd (snd (A (st ! j) (ec_event cx j) (ec_slot cx j)))) slots))"
      "length out' = length st" "length st' = length st"
      "\<And>j. j < length st \<Longrightarrow>
         out' ! j = (if j \<in> set slots then fst (A (st[i := s'] ! j) (ec_event cx j) (ec_slot cx j)) else out[i := o'] ! j) \<and>
         st' ! j = (if j \<in> set slots then fst (snd (A (st[i := s'] ! j) (ec_event cx j) (ec_slot cx j))) else st[i := s'] ! j)"
    unfolding same by auto
  show ?case
  proof (intro exI conjI)
    show "each_from A cx (i # slots) st out es =
        Some (out', st', es @ concat (map (\<lambda>i. snd (snd (A (st ! i) (ec_event cx i) (ec_slot cx i)))) (i # slots)))"
      using ih(1) A Cons.prems(2) by simp
    show "\<forall>j < length st. out' ! j = (if j \<in> set (i # slots) then fst (A (st ! j) (ec_event cx j) (ec_slot cx j)) else out ! j) \<and>
        st' ! j = (if j \<in> set (i # slots) then fst (snd (A (st ! j) (ec_event cx j) (ec_slot cx j))) else st ! j)"
    proof (intro allI impI)
      fix j assume j: "j < length st"
      show "out' ! j = (if j \<in> set (i # slots) then fst (A (st ! j) (ec_event cx j) (ec_slot cx j)) else out ! j) \<and>
        st' ! j = (if j \<in> set (i # slots) then fst (snd (A (st ! j) (ec_event cx j) (ec_slot cx j))) else st ! j)"
        using ih(4) [OF j] A Cons.prems j by (cases "j = i") auto
    qed
  qed (use ih in auto)
qed auto

end
