(* ===== verification/Stores.thy ===== *)
theory Stores
  imports Slices
begin

text \<open>
  What a store promises over a history of calls: its state is the fold of the dispatched actions,
  a subscriber sees every state committed while it is attached, in order, and nothing else, and
  a handle detaches its own subscriber only.
\<close>

datatype ('s, 'a, 'k) store_op =
  DoDispatch 'a
| DoSubscribe "'s \<Rightarrow> 'k \<Rightarrow> 'k"
| DoUnsubscribe u64
| DoReplace "'s \<Rightarrow> 'a \<Rightarrow> 's"

fun store_op_step :: "('s, 'a, 'k) store_op \<Rightarrow> ('s, 'a, 'k) store \<times> 'k \<Rightarrow> ('s, 'a, 'k) store \<times> 'k" where
  "store_op_step (DoDispatch a) sk = dispatch a sk"
| "store_op_step (DoSubscribe f) (s, k) = (snd (subscribe f s), k)"
| "store_op_step (DoUnsubscribe i) (s, k) = (unsubscribe i s, k)"
| "store_op_step (DoReplace r) (s, k) = (replace_reducer r s, k)"

definition store_run :: "('s, 'a, 'k) store_op list \<Rightarrow> ('s, 'a, 'k) store \<times> 'k \<Rightarrow> ('s, 'a, 'k) store \<times> 'k" where
  "store_run ops sk = foldl (\<lambda>sk op. store_op_step op sk) sk ops"

text \<open>The states a history commits, from the reducer and the state it starts with.\<close>

fun committed :: "('s \<Rightarrow> 'a \<Rightarrow> 's) \<Rightarrow> 's \<Rightarrow> ('s, 'a, 'k) store_op list \<Rightarrow> 's list" where
  "committed r s [] = []"
| "committed r s (DoDispatch a # ops) = r s a # committed r (r s a) ops"
| "committed r s (DoReplace r' # ops) = committed r' s ops"
| "committed r s (_ # ops) = committed r s ops"

lemma store_run_Cons: "store_run (op # ops) sk = store_run ops (store_op_step op sk)"
  by (simp add: store_run_def)

lemma store_run_state: "so_state (fst (store_run ops (s, k))) = last (so_state s # committed (so_reducer s) (so_state s) ops)"
proof (induction ops arbitrary: s k)
  case (Cons op ops)
  then show ?case
    by (cases op) (simp_all add: store_run_Cons dispatch_def subscribe_def unsubscribe_def replace_reducer_def Let_def)
qed (simp add: store_run_def)

text \<open>One listener among others: \<open>log\<close> is the part of the world it writes and no other listener does.\<close>

definition listens :: "('k \<Rightarrow> 's list) \<Rightarrow> ('s \<Rightarrow> 'k \<Rightarrow> 'k) \<Rightarrow> bool" where
  "listens log f \<longleftrightarrow> (\<forall>s k. log (f s k) = log k @ [s])"

definition silent :: "('k \<Rightarrow> 's list) \<Rightarrow> ('s \<Rightarrow> 'k \<Rightarrow> 'k) \<Rightarrow> bool" where
  "silent log f \<longleftrightarrow> (\<forall>s k. log (f s k) = log k)"

definition attached :: "('k \<Rightarrow> 's list) \<Rightarrow> u64 \<Rightarrow> ('s, 'a, 'k) store \<Rightarrow> bool" where
  "attached log i s \<longleftrightarrow> (\<exists>before f after. so_subs s = before @ (i, f) # after \<and> listens log f \<and>
     (\<forall>(j, g) \<in> set (before @ after). silent log g \<and> j \<noteq> i))"

definition leaves :: "('k \<Rightarrow> 's list) \<Rightarrow> u64 \<Rightarrow> ('s, 'a, 'k) store_op list \<Rightarrow> bool" where
  "leaves log i ops \<longleftrightarrow> (\<forall>op \<in> set ops. case op of
     DoSubscribe g \<Rightarrow> silent log g | DoUnsubscribe j \<Rightarrow> j \<noteq> i | _ \<Rightarrow> True)"

lemma silent_fold: "\<forall>(j, g) \<in> set subs. silent log g \<Longrightarrow> log (foldl (\<lambda>k (i, f). f s k) k subs) = log k"
  by (induction subs arbitrary: k) (auto simp: silent_def)

lemma attached_notify: "attached log i s \<Longrightarrow> log (notify s k) = log k @ [so_state s]"
proof -
  assume "attached log i s"
  then obtain before f after where s: "so_subs s = before @ (i, f) # after" "listens log f"
      "\<forall>(j, g) \<in> set before. silent log g" "\<forall>(j, g) \<in> set after. silent log g"
    by (fastforce simp: attached_def)
  then show ?thesis using silent_fold [OF s(4), where s = "so_state s"] silent_fold [OF s(3), where s = "so_state s"]
    by (simp add: notify_def listens_def)
qed

text \<open>The handles of a store are below its counter, until the counter wraps.\<close>

definition handles_below :: "('s, 'a, 'k) store \<Rightarrow> bool" where
  "handles_below s \<longleftrightarrow> (\<forall>(j, g) \<in> set (so_subs s). j < so_next s)"

definition subscriptions :: "('s, 'a, 'k) store_op list \<Rightarrow> nat" where
  "subscriptions ops = length (filter (\<lambda>op. case op of DoSubscribe g \<Rightarrow> True | _ \<Rightarrow> False) ops)"

lemma subscriptions_Cons:
  "subscriptions (op # ops) = (case op of DoSubscribe g \<Rightarrow> 1 | _ \<Rightarrow> 0) + subscriptions ops"
  by (simp add: subscriptions_def split: store_op.splits)

lemma next_step:
  assumes "unat (so_next s) + subscriptions (op # ops) < 2 ^ 64"
  shows "unat (so_next (fst (store_op_step op (s, k)))) = unat (so_next s) + (case op of DoSubscribe g \<Rightarrow> 1 | _ \<Rightarrow> 0)"
  using assms
  by (cases op) (simp_all add: dispatch_def subscribe_def unsubscribe_def replace_reducer_def Let_def
    subscriptions_Cons unat_word_ariths)

lemma handles_below_step:
  assumes "handles_below s" "unat (so_next s) + subscriptions (op # ops) < 2 ^ 64"
  shows "handles_below (fst (store_op_step op (s, k)))"
proof (cases op)
  case (DoSubscribe f)
  have "so_next s < so_next s + 1"
    using assms(2) DoSubscribe by (simp add: subscriptions_Cons word_less_nat_alt unat_word_ariths)
  then show ?thesis using assms(1) DoSubscribe by (fastforce simp: handles_below_def subscribe_def)
qed (use assms(1) in \<open>auto simp: handles_below_def dispatch_def unsubscribe_def replace_reducer_def Let_def\<close>)

lemma attached_step:
  assumes "attached log i s" "leaves log i (op # ops)" "i < so_next s"
  shows "attached log i (fst (store_op_step op (s, k)))"
proof -
  from assms(1) obtain before f after where s: "so_subs s = before @ (i, f) # after" "listens log f"
      "\<forall>(j, g) \<in> set (before @ after). silent log g \<and> j \<noteq> i" by (auto simp: attached_def)
  show ?thesis
  proof (cases op)
    case (DoSubscribe g)
    then have "so_subs (fst (store_op_step op (s, k))) = before @ (i, f) # (after @ [(so_next s, g)])"
      using s(1) by (simp add: subscribe_def)
    then show ?thesis using s DoSubscribe assms(2,3)
      unfolding attached_def by (intro exI [of _ before] exI [of _ f] exI [of _ "after @ [(so_next s, g)]"])
        (auto simp: leaves_def)
  next
    case (DoUnsubscribe j)
    let ?keep = "filter (\<lambda>(j', g). j' \<noteq> j)"
    have "so_subs (fst (store_op_step op (s, k))) = ?keep before @ (i, f) # ?keep after"
      using s(1) DoUnsubscribe assms(2) by (auto simp: unsubscribe_def leaves_def)
    then show ?thesis using s
      unfolding attached_def by (intro exI [of _ "?keep before"] exI [of _ f] exI [of _ "?keep after"]) auto
  qed (use assms(1) in \<open>simp_all add: attached_def dispatch_def replace_reducer_def Let_def\<close>)
qed

lemma attached_run:
  assumes "attached log i s" "handles_below s" "leaves log i ops" "unat (so_next s) + subscriptions ops < 2 ^ 64"
  shows "log (snd (store_run ops (s, k))) = log k @ committed (so_reducer s) (so_state s) ops"
  using assms
proof (induction ops arbitrary: s k)
  case (Cons op ops)
  obtain s' k' where step: "store_op_step op (s, k) = (s', k')" by fastforce
  have below: "i < so_next s" using Cons.prems(1,2) by (fastforce simp: attached_def handles_below_def)
  have s': "attached log i s'" "handles_below s'" "leaves log i ops" "unat (so_next s') + subscriptions ops < 2 ^ 64"
    using attached_step [OF Cons.prems(1,3) below, of k] handles_below_step [OF Cons.prems(2,4), of k]
      Cons.prems(3,4) next_step [OF Cons.prems(4), of k] step
    by (auto simp: leaves_def subscriptions_Cons)
  have "log k' @ committed (so_reducer s') (so_state s') ops = log k @ committed (so_reducer s) (so_state s) (op # ops)"
  proof (cases op)
    case (DoDispatch a)
    have "attached log i (s\<lparr>so_state := so_reducer s (so_state s) a\<rparr>)" using Cons.prems(1) by (simp add: attached_def)
    then show ?thesis using attached_notify step DoDispatch by (fastforce simp: dispatch_def Let_def)
  qed (use step in \<open>auto simp: subscribe_def unsubscribe_def replace_reducer_def\<close>)
  then show ?case using Cons.IH [OF s', of k'] step by (simp add: store_run_Cons)
qed (simp add: store_run_def)

text \<open>Live dispatch is replay, whoever is subscribed: after any history of calls the state is the
  last one committed, and for a store that only dispatches it is the fold of the action log.\<close>

theorem store_replays:
  "so_state (fst (store_run ops (s, k))) = last (so_state s # committed (so_reducer s) (so_state s) ops) \<and>
   so_state (fst (store_run (map DoDispatch log) (s, k))) = replay_actions (so_reducer s) (so_state s) log"
proof -
  have "last (x # committed r x (map DoDispatch log)) = replay_actions r x log" for r :: "'a \<Rightarrow> 'b \<Rightarrow> 'a" and x
    by (induction log arbitrary: x) (simp_all add: replay_actions_def)
  then show ?thesis using store_run_state by metis
qed

text \<open>C39 -- A subscriber that is not detached sees exactly the states committed after it subscribed, in
  order, whatever other subscribers come and go and whichever reducer is swapped in.\<close>

theorem subscriber_sees_commits:
  assumes "handles_below s" "\<forall>(j, g) \<in> set (so_subs s). silent log g" "listens log f"
    and "subscribe f s = (i, s')" "leaves log i ops" "unat (so_next s) + 1 + subscriptions ops < 2 ^ 64"
  shows "log (snd (store_run ops (s', k))) = log k @ committed (so_reducer s) (so_state s) ops"
proof -
  have s': "i = so_next s" "so_subs s' = so_subs s @ [(i, f)]" "so_next s' = so_next s + 1"
      "so_reducer s' = so_reducer s" "so_state s' = so_state s"
    using assms(4) by (auto simp: subscribe_def)
  have "attached log i s'"
    unfolding attached_def
    by (intro exI [of _ "so_subs s"] exI [of _ f] exI [of _ "[]"]) (use assms(1,2,3) s' in \<open>auto simp: handles_below_def\<close>)
  moreover have next_eq: "unat (so_next s') = unat (so_next s) + 1"
    using assms(6) s'(3) by (simp add: unat_word_ariths)
  moreover from this have "so_next s < so_next s + 1" using s'(3) by (simp add: word_less_nat_alt)
  then have "handles_below s'" using assms(1) s' by (fastforce simp: handles_below_def)
  ultimately show ?thesis using attached_run [of log i s' ops k] assms(5,6) s'(4,5) by simp
qed

theorem subscriber_sees_commits_witness:
  "snd (store_run [DoDispatch 3, DoSubscribe (\<lambda>s k. k), DoDispatch 4, DoUnsubscribe 1, DoDispatch 5]
     (snd (subscribe (\<lambda>s k. k @ [s]) (store_new (+) (0::nat))), [])) = [3, 7, 12]"
proof -
  let ?s = "store_new (+) (0::nat) :: (nat, nat, nat list) store"
  let ?f = "\<lambda>(s::nat) k. k @ [s]"
  have "subscribe ?f ?s = (0, snd (subscribe ?f ?s))" by (simp add: subscribe_def store_new_def)
  from subscriber_sees_commits [where log = "\<lambda>k. k" and f = ?f and k = "[]"
      and ops = "[DoDispatch 3, DoSubscribe (\<lambda>s k. k), DoDispatch 4, DoUnsubscribe 1, DoDispatch 5]", OF _ _ _ this]
  show ?thesis by (simp add: handles_below_def store_new_def listens_def silent_def leaves_def subscriptions_def)
qed

subsection \<open>Slices and their effects\<close>

text \<open>\<open>reduce_then_apply\<close> reduces first and then applies the emitted effects in the order of their
  emission, whatever was in the buffer, which it leaves empty; a pipeline's effects are applied after
  its last stage.\<close>

theorem reduce_then_apply_defers:
  "reduce_then_apply A st ev cx effects apply k =
     (let (out, st', es) = A st ev cx in (out, foldl apply (st', k) es, [])) \<and>
   reduce_then_apply (then_slice B C) st ev cx effects apply k =
     (let (mid, st1, e1) = B st ev cx; (out, st2, e2) = C st1 mid cx in (out, foldl apply (foldl apply (st2, k) e1) e2, []))"
proof -
  have push: "foldl (\<lambda>b e. b @ [e]) bs es = bs @ es" for bs es :: "'x list" by (induction es arbitrary: bs) simp_all
  show ?thesis
    unfolding reduce_then_apply_def run_slice_def push then_slice_def by (simp add: Let_def split: prod.splits)
qed

text \<open>\<open>Each\<close> runs the inner slice once per live slot on that slot's own state, event and context:
  every live slot gets its own output and new state, the others keep theirs and read idle, the
  effects come in slot order, and it panics exactly when there are more live slots than slots.\<close>

theorem each_slice_slots:
  "(each_slice A st cx = None \<longleftrightarrow> length st < ec_live cx) \<and>
   (ec_live cx \<le> length st \<longrightarrow> each_slice A st cx = Some
     (map (\<lambda>i. if i < ec_live cx then fst (A (st ! i) (ec_event cx i) (ec_slot cx i)) else ec_idle cx) [0..<length st],
      map (\<lambda>i. if i < ec_live cx then fst (snd (A (st ! i) (ec_event cx i) (ec_slot cx i))) else st ! i) [0..<length st],
      concat (map (\<lambda>i. snd (snd (A (st ! i) (ec_event cx i) (ec_slot cx i)))) [0..<ec_live cx])))"
proof (cases "length st < ec_live cx")
  case True
  then have "\<exists>i \<in> set [0..<ec_live cx]. length st \<le> i" by (intro bexI [of _ "length st"]) simp_all
  from each_from_panics [OF this] show ?thesis using True by (simp add: each_slice_def)
next
  case False
  then have slots: "distinct [0..<ec_live cx]" "\<forall>i \<in> set [0..<ec_live cx]. i < length st" by auto
  from each_from_slots [OF slots, of "replicate (length st) (ec_idle cx)" A cx "[]"] obtain out' st' where
      "each_slice A st cx = Some (out', st', concat (map (\<lambda>i. snd (snd (A (st ! i) (ec_event cx i) (ec_slot cx i)))) [0..<ec_live cx]))"
      "length out' = length st" "length st' = length st"
      "\<forall>i < length st. out' ! i = (if i < ec_live cx then fst (A (st ! i) (ec_event cx i) (ec_slot cx i)) else ec_idle cx) \<and>
        st' ! i = (if i < ec_live cx then fst (snd (A (st ! i) (ec_event cx i) (ec_slot cx i))) else st ! i)"
    by (auto simp: each_slice_def)
  then show ?thesis using False by (auto intro!: nth_equalityI)
qed

theorem each_slice_slots_witness:
  "each_slice (\<lambda>st ev cx. (st * ev, st + ev, [cx])) [1, 2, 3 :: nat]
     \<lparr>ec_live = 2, ec_idle = 0, ec_event = (\<lambda>i. i + 10), ec_slot = id\<rparr> = Some ([10, 22, 0], [11, 13, 3], [0, 1])"
  using each_slice_slots [of "\<lambda>st ev cx. (st * ev, st + ev, [cx])" "[1, 2, 3 :: nat]"
    "\<lparr>ec_live = 2, ec_idle = 0, ec_event = (\<lambda>i. i + 10), ec_slot = id\<rparr>"]
  by (simp add: upt_rec)

end
