(* ===== verification/Machines.thy ===== *)
theory Machines
  imports Slices
begin

text \<open>
  The enum-state machine of the \<open>redux\<close> crate, \<open>redux/src/_3_machine.rs\<close>. The macro writes one slice
  and two constants from a list of rows; a machine here is that list. A row keeps the labels the
  macro stringifies and what it compiles them to: the state pattern, the event pattern with its
  bindings, the guard, the action and the target, which is absent for \<open>[stay]\<close>.
\<close>

record graph_node = nd_id :: string

record edge =
  ed_id :: string
  ed_source :: string
  ed_event :: string
  ed_guard :: "string option"
  ed_action :: "string option"
  ed_target :: string

record graph =
  gr_nodes :: "graph_node list"
  gr_edges :: "edge list"

datatype graph_error =
  NoNodes
| DuplicateNode string
| DuplicateEdge string
| UnknownNode string string

definition graph_new :: "graph_node list \<Rightarrow> edge list \<Rightarrow> graph" where
  "graph_new nodes edges = \<lparr>gr_nodes = nodes, gr_edges = edges\<rparr>"

text \<open>The two loops, with the elements already passed.\<close>

fun check_nodes :: "graph_node list \<Rightarrow> graph_node list \<Rightarrow> graph_error + unit" where
  "check_nodes seen [] = Inr ()"
| "check_nodes seen (n # rest) =
     (if list_ex (\<lambda>m. nd_id m = nd_id n) seen then Inl (DuplicateNode (nd_id n))
      else check_nodes (seen @ [n]) rest)"

definition check_endpoint :: "graph_node list \<Rightarrow> edge \<Rightarrow> string \<Rightarrow> graph_error + unit" where
  "check_endpoint nodes e endpoint =
     (if list_ex (\<lambda>n. nd_id n = endpoint) nodes then Inr () else Inl (UnknownNode (ed_id e) endpoint))"

fun check_edges :: "graph_node list \<Rightarrow> edge list \<Rightarrow> edge list \<Rightarrow> graph_error + unit" where
  "check_edges nodes seen [] = Inr ()"
| "check_edges nodes seen (e # rest) =
     (if list_ex (\<lambda>d. ed_id d = ed_id e) seen then Inl (DuplicateEdge (ed_id e))
      else rbind (check_endpoint nodes e (ed_source e)) (\<lambda>_.
        rbind (check_endpoint nodes e (ed_target e)) (\<lambda>_. check_edges nodes (seen @ [e]) rest)))"

definition graph_validate :: "graph \<Rightarrow> graph_error + unit" where
  "graph_validate g =
     (if gr_nodes g = [] then Inl NoNodes
      else rbind (check_nodes [] (gr_nodes g)) (\<lambda>_. check_edges (gr_nodes g) [] (gr_edges g)))"

subsection \<open>Rows\<close>

record ('st, 'ev, 'cx, 'fx, 'b) machine_row =
  mr_id :: string
  mr_source :: string
  mr_event :: string
  mr_guard_name :: "string option"
  mr_action_name :: "string option"
  mr_target :: "string option"
  mr_matches :: "'st \<Rightarrow> bool"
  mr_bind :: "'ev \<Rightarrow> 'b option"
  mr_guard :: "('st \<Rightarrow> 'cx \<Rightarrow> 'ev \<Rightarrow> bool) option"
  mr_action :: "('st \<Rightarrow> 'cx \<Rightarrow> 'ev \<Rightarrow> 'st \<times> 'fx list) option"
  mr_assign :: "('b \<Rightarrow> 'st \<Rightarrow> 'cx \<Rightarrow> 'ev \<Rightarrow> 'st) option"

datatype machine_outcome = Handled | Unhandled

text \<open>One row: the action, then the assignment of the target. The target expression is written by the
  caller in the scope of the event bindings and of the four names it gave \<open>reduce\<close>, so it sees the
  state the action left, the context and the event; that it emits effects itself is left out.\<close>

definition row_guard :: "('st, 'ev, 'cx, 'fx, 'b) machine_row \<Rightarrow> 'st \<Rightarrow> 'cx \<Rightarrow> 'ev \<Rightarrow> bool" where
  "row_guard r st cx ev = (case mr_guard r of None \<Rightarrow> True | Some g \<Rightarrow> g st cx ev)"

definition row_fire :: "('st, 'ev, 'cx, 'fx, 'b) machine_row \<Rightarrow> 'b \<Rightarrow> 'st \<Rightarrow> 'cx \<Rightarrow> 'ev \<Rightarrow> 'st \<times> 'fx list" where
  "row_fire r b st cx ev =
     (let (st', es) = (case mr_action r of None \<Rightarrow> (st, []) | Some a \<Rightarrow> a st cx ev)
      in (case mr_assign r of None \<Rightarrow> st' | Some f \<Rightarrow> f b st' cx ev, es))"

fun machine_reduce ::
  "('st, 'ev, 'cx, 'fx, 'b) machine_row list \<Rightarrow> ('st, 'ev, 'cx, machine_outcome, 'fx) slice" where
  "machine_reduce [] st ev cx = (Unhandled, st, [])"
| "machine_reduce (r # rows) st ev cx =
     (case (if mr_matches r st then mr_bind r ev else None) of
        Some b \<Rightarrow> if row_guard r st cx ev then let (st', es) = row_fire r b st cx ev in (Handled, st', es)
                  else machine_reduce rows st ev cx
      | None \<Rightarrow> machine_reduce rows st ev cx)"

definition row_edge :: "('st, 'ev, 'cx, 'fx, 'b) machine_row \<Rightarrow> edge" where
  "row_edge r =
     \<lparr>ed_id = mr_id r, ed_source = mr_source r, ed_event = mr_event r, ed_guard = mr_guard_name r,
      ed_action = mr_action_name r, ed_target = (case mr_target r of None \<Rightarrow> mr_source r | Some t \<Rightarrow> t)\<rparr>"

definition machine_graph :: "string list \<Rightarrow> ('st, 'ev, 'cx, 'fx, 'b) machine_row list \<Rightarrow> graph" where
  "machine_graph states rows = graph_new (map (\<lambda>s. \<lparr>nd_id = s\<rparr>) states) (map row_edge rows)"

subsection \<open>Validation\<close>

lemma list_ex_image: "list_ex (\<lambda>m. f m = x) xs \<longleftrightarrow> x \<in> f ` set xs"
  by (auto simp: list_ex_iff)

lemma check_nodes_ok:
  "check_nodes seen ns = Inr () \<longleftrightarrow> distinct (map nd_id ns) \<and> nd_id ` set seen \<inter> nd_id ` set ns = {}"
  by (induction seen ns rule: check_nodes.induct) (auto simp: list_ex_image simp del: image_iff)

lemma check_endpoint_ok: "check_endpoint nodes e x = Inr () \<longleftrightarrow> x \<in> nd_id ` set nodes"
  by (auto simp: check_endpoint_def list_ex_iff)

lemma check_edges_ok:
  "check_edges nodes seen es = Inr () \<longleftrightarrow> distinct (map ed_id es) \<and> ed_id ` set seen \<inter> ed_id ` set es = {} \<and>
     (\<forall>e \<in> set es. ed_source e \<in> nd_id ` set nodes \<and> ed_target e \<in> nd_id ` set nodes)"
proof (induction nodes seen es rule: check_edges.induct)
  case (2 nodes seen e rest)
  have "rbind (check_endpoint nodes e x) f = Inr () \<longleftrightarrow> x \<in> nd_id ` set nodes \<and> f () = Inr ()" for x f
    using check_endpoint_ok [of nodes e x] by (cases "check_endpoint nodes e x") (auto simp: rbind_def)
  then show ?case using 2 by (auto simp: list_ex_image simp del: image_iff)
qed simp

lemma graph_ok:
  "graph_validate g = Inr () \<longleftrightarrow>
     gr_nodes g \<noteq> [] \<and> distinct (map nd_id (gr_nodes g)) \<and> distinct (map ed_id (gr_edges g)) \<and>
     list_all (\<lambda>e. ed_source e \<in> nd_id ` set (gr_nodes g) \<and> ed_target e \<in> nd_id ` set (gr_nodes g)) (gr_edges g)"
proof -
  have "rbind (check_nodes [] (gr_nodes g)) f = Inr () \<longleftrightarrow> check_nodes [] (gr_nodes g) = Inr () \<and> f () = Inr ()" for f
    by (cases "check_nodes [] (gr_nodes g)") (auto simp: rbind_def)
  then show ?thesis
    using check_nodes_ok [of "[]" "gr_nodes g"] check_edges_ok [of "gr_nodes g" "[]" "gr_edges g"]
    by (simp add: graph_validate_def list_all_iff)
qed

text \<open>A declared graph validates exactly when it has a node, no two nodes and no two edges share
  an id, and every edge connects declared nodes.\<close>

theorem graph_validate_exact:
  "graph_validate g = Inr () \<longleftrightarrow>
     gr_nodes g \<noteq> [] \<and> distinct (map nd_id (gr_nodes g)) \<and> distinct (map ed_id (gr_edges g)) \<and>
     list_all (\<lambda>e. ed_source e \<in> nd_id ` set (gr_nodes g) \<and> ed_target e \<in> nd_id ` set (gr_nodes g)) (gr_edges g)"
  by (rule graph_ok)

subsection \<open>A machine walks its graph\<close>

text \<open>What the macro makes of a row, with \<open>node_of\<close> the variant of a state: the pattern begins with
  the source variant, and there is a target constructor, of the variant named, unless the row
  stays. Nothing is asked of guards and actions.\<close>

definition row_typed :: "('st \<Rightarrow> string) \<Rightarrow> ('st, 'ev, 'cx, 'fx, 'b) machine_row \<Rightarrow> bool" where
  "row_typed node_of r \<longleftrightarrow>
     (\<forall>st. mr_matches r st \<longrightarrow> node_of st = mr_source r) \<and>
     (case (mr_target r, mr_assign r) of
        (None, None) \<Rightarrow> True
      | (Some t, Some f) \<Rightarrow> (\<forall>b st cx ev. node_of (f b st cx ev) = t)
      | _ \<Rightarrow> False)"

text \<open>The row that takes an event is the first whose patterns and guard accept it.\<close>

definition row_takes :: "('st, 'ev, 'cx, 'fx, 'b) machine_row \<Rightarrow> 'st \<Rightarrow> 'cx \<Rightarrow> 'ev \<Rightarrow> bool" where
  "row_takes r st cx ev \<longleftrightarrow> mr_matches r st \<and> mr_bind r ev \<noteq> None \<and> row_guard r st cx ev"

text \<open>What the action of a row leaves of the state; a row without one leaves it as it is.\<close>

definition after_action :: "('st, 'ev, 'cx, 'fx, 'b) machine_row \<Rightarrow> 'st \<Rightarrow> 'cx \<Rightarrow> 'ev \<Rightarrow> 'st" where
  "after_action r st cx ev = (case mr_action r of None \<Rightarrow> st | Some a \<Rightarrow> fst (a st cx ev))"

text \<open>A step along an edge: it leaves the variant of the state and ends in the variant it names; the
  edge of a stay row is a loop, and the state is what the action of the row left.\<close>

definition steps_along ::
  "('st \<Rightarrow> string) \<Rightarrow> ('st, 'ev, 'cx, 'fx, 'b) machine_row \<Rightarrow> 'st \<Rightarrow> 'cx \<Rightarrow> 'ev \<Rightarrow> 'st \<Rightarrow> bool" where
  "steps_along node_of r st cx ev st' \<longleftrightarrow> ed_source (row_edge r) = node_of st \<and>
     (if mr_target r = None then ed_target (row_edge r) = node_of st \<and> st' = after_action r st cx ev
      else ed_target (row_edge r) = node_of st')"

lemma machine_first_row:
  "machine_reduce rows st ev cx =
     (case find (\<lambda>r. row_takes r st cx ev) rows of
        None \<Rightarrow> (Unhandled, st, [])
      | Some r \<Rightarrow> (Handled, row_fire r (the (mr_bind r ev)) st cx ev))"
  by (induction rows) (auto simp: row_takes_def split: option.splits)

lemma row_steps:
  assumes "row_typed node_of r" "row_takes r st cx ev"
  shows "steps_along node_of r st cx ev (fst (row_fire r b st cx ev))"
  using assms
  by (cases "mr_target r"; cases "mr_assign r"; cases "mr_action r")
    (auto simp: row_typed_def row_takes_def steps_along_def row_edge_def row_fire_def after_action_def split: prod.splits)

text \<open>The states a machine goes through, with the events and what each reduction answered.\<close>

fun machine_walk :: "('st, 'ev, 'cx, 'fx, 'b) machine_row list \<Rightarrow> 'st \<Rightarrow> ('ev \<times> 'cx) list \<Rightarrow>
     ('st \<times> ('ev \<times> 'cx) \<times> machine_outcome \<times> 'fx list \<times> 'st) list" where
  "machine_walk rows st [] = []"
| "machine_walk rows st ((ev, cx) # es) =
     (let (out, st', fx) = machine_reduce rows st ev cx in (st, (ev, cx), out, fx, st') # machine_walk rows st' es)"

lemma machine_walk_step:
  "(st, (ev, cx), out, fx, st') \<in> set (machine_walk rows start events) \<Longrightarrow> machine_reduce rows st ev cx = (out, st', fx)"
  by (induction events arbitrary: start) (auto split: prod.splits)

lemma machine_edge:
  assumes typed: "\<forall>r \<in> set rows. row_typed node_of r" and step: "machine_reduce rows st ev cx = (out, st', fx)"
  shows "case find (\<lambda>r. row_takes r st cx ev) rows of
      None \<Rightarrow> out = Unhandled \<and> st' = st \<and> fx = []
    | Some r \<Rightarrow> out = Handled \<and> row_edge r \<in> set (gr_edges (machine_graph states rows)) \<and> steps_along node_of r st cx ev st'"
proof (cases "find (\<lambda>r. row_takes r st cx ev) rows")
  case None
  then show ?thesis using step by (auto simp: machine_first_row)
next
  case (Some r)
  then have fire: "out = Handled" "row_fire r (the (mr_bind r ev)) st cx ev = (st', fx)"
    using step by (simp_all add: machine_first_row)
  from Some have r: "r \<in> set rows" "row_takes r st cx ev" by (auto simp: find_Some_iff)
  have "steps_along node_of r st cx ev st'"
    using row_steps [of node_of r st cx ev "the (mr_bind r ev)"] typed r fire(2) by simp
  then show ?thesis using Some fire(1) r(1) by (simp add: machine_graph_def graph_new_def)
qed

lemma walk_declared:
  assumes typed: "\<forall>r \<in> set rows. row_typed node_of r"
    and valid: "graph_validate (machine_graph states rows) = Inr ()"
    and stay: "\<forall>r \<in> set rows. mr_target r = None \<longrightarrow> (\<forall>st cx ev. node_of (after_action r st cx ev) = node_of st)"
  shows "node_of start \<in> set states \<Longrightarrow> (st, e, out, fx, st') \<in> set (machine_walk rows start events) \<Longrightarrow>
    node_of st' \<in> set states"
proof (induction events arbitrary: start)
  case (Cons x events)
  obtain ev cx where x: "x = (ev, cx)" by force
  obtain o1 s1 f1 where step: "machine_reduce rows start ev cx = (o1, s1, f1)" by (metis surj_pair)
  have nodes: "nd_id ` set (gr_nodes (machine_graph states rows)) = set states"
    by (simp add: machine_graph_def graph_new_def image_image)
  have "node_of s1 \<in> set states"
  proof (cases "find (\<lambda>r. row_takes r start cx ev) rows")
    case None
    then show ?thesis using machine_edge [OF typed step, of states] Cons.prems(1) by simp
  next
    case (Some r)
    then have r: "row_edge r \<in> set (gr_edges (machine_graph states rows))" "steps_along node_of r start cx ev s1"
      using machine_edge [OF typed step, of states] by simp_all
    have in_rows: "r \<in> set rows" using Some by (auto simp: find_Some_iff)
    have "ed_target (row_edge r) \<in> set states"
      using valid r(1) nodes by (simp add: graph_ok list_all_iff)
    then show ?thesis using r(2) in_rows stay Cons.prems(1) by (auto simp: steps_along_def split: if_splits)
  qed
  then show ?case using Cons.IH [of s1] Cons.prems(2) step x by auto
qed simp

text \<open>C40 -- The emitted graph covers the machine. In every step of every walk either no row takes the
  event, the answer is \<open>Unhandled\<close> and nothing happens; or the first row that takes it answers
  \<open>Handled\<close>, its edge is emitted, leaves the variant of the state and, if the row has a target,
  ends in the variant of the next one; the edge of a stay row is a loop and the state is what
  the row's action left. So with a graph that validates, from a declared variant, if the
  actions of stay rows keep the variant (they may change it: they take the state by \<open>&mut\<close>),
  every variant reached is a declared node.\<close>

theorem machine_walks_graph:
  assumes "\<forall>r \<in> set rows. row_typed node_of r" and "(st, (ev, cx), out, fx, st') \<in> set (machine_walk rows start events)"
  shows "(case find (\<lambda>r. row_takes r st cx ev) rows of
      None \<Rightarrow> out = Unhandled \<and> st' = st \<and> fx = []
    | Some r \<Rightarrow> out = Handled \<and> row_edge r \<in> set (gr_edges (machine_graph states rows)) \<and> steps_along node_of r st cx ev st') \<and>
    (graph_validate (machine_graph states rows) = Inr () \<and> node_of start \<in> set states \<and>
     (\<forall>r \<in> set rows. mr_target r = None \<longrightarrow> (\<forall>st cx ev. node_of (after_action r st cx ev) = node_of st)) \<longrightarrow>
       node_of st' \<in> set states)"
  using machine_edge [OF assms(1) machine_walk_step [OF assms(2)]] walk_declared [OF assms(1)] assms(2) by blast

subsection \<open>A door\<close>

datatype door = DoorIdle | DoorOpen nat

definition door_node :: "door \<Rightarrow> string" where
  "door_node d = (case d of DoorIdle \<Rightarrow> ''Idle'' | DoorOpen _ \<Rightarrow> ''Open'')"

definition door_rows :: "(door, nat, unit, unit, nat) machine_row list" where
  "door_rows =
     [\<lparr>mr_id = ''GO'', mr_source = ''Idle'', mr_event = ''Go'', mr_guard_name = None, mr_action_name = None,
       mr_target = Some ''Open'', mr_matches = (\<lambda>st. st = DoorIdle), mr_bind = Some, mr_guard = None,
       mr_action = None, mr_assign = Some (\<lambda>b st cx ev. DoorOpen b)\<rparr>]"

lemma door_walk:
  "machine_walk door_rows DoorIdle [(4, ()), (5, ())] =
     [(DoorIdle, (4, ()), Handled, [], DoorOpen 4), (DoorOpen 4, (5, ()), Unhandled, [], DoorOpen 4)]"
  by code_simp

theorem machine_walks_graph_witness:
  "ed_source (row_edge (hd door_rows)) = ''Idle'' \<and> ed_target (row_edge (hd door_rows)) = door_node (DoorOpen 4) \<and>
   door_node (DoorOpen 4) \<in> set [''Idle'', ''Open'']"
proof -
  have typed: "\<forall>r \<in> set door_rows. row_typed door_node r" by (simp add: door_rows_def row_typed_def door_node_def)
  have valid: "graph_validate (machine_graph [''Idle'', ''Open''] door_rows) = Inr ()" by code_simp
  have step: "(DoorIdle, (4, ()), Handled, [], DoorOpen 4) \<in> set (machine_walk door_rows DoorIdle [(4, ()), (5, ())])"
    unfolding door_walk by simp
  have "find (\<lambda>r. row_takes r DoorIdle () 4) door_rows = Some (hd door_rows)"
    by (simp add: door_rows_def row_takes_def row_guard_def)
  then have "steps_along door_node (hd door_rows) DoorIdle () 4 (DoorOpen 4)"
    and "door_node (DoorOpen 4) \<in> set [''Idle'', ''Open'']"
    using machine_walks_graph [OF typed step, of "[''Idle'', ''Open'']"] valid
    by (simp_all add: door_node_def door_rows_def)
  then show ?thesis by (simp add: steps_along_def door_rows_def door_node_def)
qed

end
