(* ===== verification/Spec2Isabelle.thy ===== *)
theory Spec2Isabelle
  imports EditProofs ActionProofs PlanSamples SpanSamples PipeSamples WatchSamples Refs Repositories
    Acquisition RevisionGraph GitFiles TrackedSamples MailSamples ArenaRuns Stores Machines
begin

text \<open>
  A model of three parts of the workspace: \<open>soopy\<close> (\<open>crates/soopy\<close>), which enumerates, reads and
  watches the files of a directory or a Git repository and turns requests of several producers
  into one checked, durable, recoverable change; the mail of the agent lanes (\<open>boop-store\<close>,
  \<open>boop-proc\<close>), which puts each message in front of its recipient once; and \<open>redux\<close>
  (\<open>crates/redux\<close>), the state containers the others are written with.

  \<^bold>\<open>How an edit runs.\<close> Producers submit actions (create, replace with text edits, delete, move),
  each with the content it was computed from. \<open>plan_mutations\<close> checks the request, groups it per
  source, reads every source once, compares and derives the new bytes. A stage store seals the
  plan under the digest of its canonical bytes and keeps it in memory or on disk.
  \<open>CommitEngine::commit\<close> takes the lock of the root, checks the stage against the tree, places
  the payloads, writes a journal, applies it operation by operation and leaves a receipt;
  \<open>recover\<close> replays a journal after a crash. Beside this, the read side answers what is there:
  snapshots of the worktree, of a revision and of the refs, spans and positions in a source,
  the tracked state of every path, the revision graph, and watchers that turn notifications
  into deltas.

  \<^bold>\<open>The base.\<close> \<open>Prelude\<close> has the \<open>Result\<close> type as a sum, the state-and-error monad of every effectful
  function, machine integers and the checked operations on them. \<open>BTree\<close> is \<open>BTreeMap\<close> and
  \<open>BTreeSet\<close> as sorted lists, \<open>StdPath\<close> is \<open>std::path\<close> on Unix, \<open>DebugText\<close> the text of derived
  \<open>Debug\<close>, \<open>FileSystem\<close> the calls of \<open>std::fs\<close> over an explicit tree with modes, locks and a log
  of device syncs, and \<open>FsFacts\<close> and \<open>FlatDir\<close> their
  effect on the lookup function of the tree. \<open>External\<close> is the record of what the crate calls
  but does not contain: the digest, the hexadecimal form, Git's object reader, and which files
  the operating system refuses to open or to read although they are there.

  \<^bold>\<open>How mail moves.\<close> A message is a row of the mailbox and every step of its delivery a row of the
  ledger of transitions. \<open>deliver_hail_budgeted\<close> takes the lock of the route, stops at what the ledger
  says was done, and walks the ladder: the mailbox for progress rows, the turn boundary of a lane,
  the acpx queue, the door of a live session within its budget, the inbox hook, the pane. A drain
  retries what stayed held, and a route that stays dead is retired.

  \<^bold>\<open>Components of \<open>soopy\<close>.\<close> Each theory is named with the file under \<open>crates/soopy/src\<close> it translates.

    \<^item> \<open>Types\<close>: identities and coordinates of \<open>_0_types.rs\<close> and \<open>_7b_source_actions.rs\<close>, with the
      orders that the \<open>BTreeMap\<close>s use.
    \<^item> \<open>Actions\<close>: the shape check, deduplication and edit producers of \<open>_7b_source_actions.rs\<close> and
      \<open>_7c_edit_producers.rs\<close>. \<open>ActionProofs\<close>: the errors are exactly the malformed actions, in
      order; deduplication is canonical and changes no plan.
    \<^item> \<open>Edits\<close> and \<open>Plan\<close>: \<open>_7d_mutation_plan.rs\<close>. \<open>EditProofs\<close>: normalization succeeds exactly on
      compatible edits, and applying a normalized list from the last edit to the first gives
      the text woven from the left. \<open>PlanProofs\<close>, \<open>PlanReads\<close>, \<open>PlanTotal\<close>, \<open>PlanExact\<close>, \<open>PlanOrder\<close> and
      \<open>PlanTheorems\<close>: the content of an accepted plan, its independence of the submission order,
      confinement to the root, the one case that panics, no two outputs at a path of a directory root and
      the two outputs a stale revision makes in a Git root.
    \<^item> \<open>Readers\<close>: the roots of \<open>_2a_directory.rs\<close>, \<open>_4a_git_root.rs\<close>, the paths of \<open>_1a_path.rs\<close>, and the
      readers of \<open>_3a_files.rs\<close>, \<open>_6_git_batch.rs\<close> and \<open>_7_source_tree.rs\<close>.
    \<^item> \<open>DurableWrite\<close>: \<open>_0a_durable_write.rs\<close>, publication and the meter of device syncs.
    \<^item> \<open>StageStore\<close>: the stores of \<open>_7e_stage_store.rs\<close>. \<open>StageSpec\<close> is the contract of the trait, the
      locale \<open>stage_store\<close>: a store is a map from identities to stages. \<open>MemStore\<close> and \<open>DiskStore\<close>
      interpret it for the two implementations, \<open>StageTheorems\<close> draws the consequences.
    \<^item> \<open>Commit\<close>: \<open>_7f_commit.rs\<close>. \<open>TreeOps\<close> is the specification of one journal operation on the
      tree, \<open>Refine\<close> shows that the engine's operations implement it, \<open>RedoLog\<close> is the replay
      of an interrupted list of operations in general, as a locale. \<open>Payloads\<close>, \<open>CommitRun\<close>,
      \<open>CommitOnce\<close>, \<open>CommitProofs\<close>, \<open>CommitTheorems\<close> and \<open>CommitAgain\<close> carry that through the whole
      engine: recovery of a commit that was stopped at any of the engine's own fail points, the
      tree after a commit, refusals, the lock, the syncs, and a second commit of the same stage.
      All of it is for stages whose files have paths apart from each other (\<open>files_apart\<close>); the
      preflight does not check that, and such a stage can end half way.
    \<^item> \<open>Pipeline\<close>: the entry points of \<open>_7e_stage_store.rs\<close>; a planned request saved, loaded and committed leaves the planned tree.
    \<^item> \<open>Spans\<close>: \<open>_7a_spans.rs\<close>. \<open>SpanProofs\<close>: the batched readers answer what reading one by one
      answers; offsets and line-column positions round trip.
    \<^item> \<open>Observed\<close>, \<open>Repositories\<close>, \<open>Snapshots\<close>, \<open>Refs\<close>, \<open>Diffs\<close>: the observed surfaces of
      \<open>_0_types.rs\<close>, discovery and revisions (\<open>_2_repository.rs\<close>, \<open>_3_revision.rs\<close>), snapshots with
      their content caches (\<open>_3a_files.rs\<close>, \<open>_4_worktree.rs\<close>, \<open>_5_git_tree.rs\<close>), refs
      (\<open>_11_refs.rs\<close>) and the differences between two snapshots. \<open>SnapshotProofs\<close>: a disk that
      changes between and during the walks; the worktree cache reports no stale content but for one race of a
      walk that crosses a second, and that race; the directory cache can be stale without one. \<open>DeltaReplay\<close>: the deltas,
      replayed on a mirror of the first snapshot, give the second.
    \<^item> \<open>Watch\<close> and \<open>Watchers\<close>: \<open>_8_watch.rs\<close>, \<open>_8a_watch_core.rs\<close>. \<open>WatchPlanProofs\<close>: the plan observes
      every path the filter accepts, and how long a batch lasts. \<open>WatchClient\<close>: what one
      receive does, and that a client which replays the deltas stays in step with the watcher.
    \<^item> \<open>TrackedState\<close>: \<open>_5a_git_status.rs\<close>. \<open>TrackedProofs\<close>: rows are in path order and every
      classification agrees with its own comparisons; the \<open>expect\<close> on the hash worker never fails; a
      hash worker that has ended stays.
    \<^item> \<open>GitFiles\<close>, \<open>RevisionGraph\<close>, \<open>Acquisition\<close>: \<open>_9_git_files.rs\<close>, \<open>_12_revision_graph.rs\<close>,
      \<open>_13_fetch.rs\<close>. The commit parser returns the parents a commit object records; a fetch runs
      only under a policy that allows it.
    \<^item> \<open>Samples\<close>, \<open>PlanSamples\<close>, \<open>PipeSamples\<close>, \<open>SpanSamples\<close>, \<open>WatchSamples\<close> (also the
      snapshots), \<open>TrackedSamples\<close>: the concrete instances on which the properties are applied.

  \<^bold>\<open>Components of the mail.\<close>

    \<^item> \<open>Mail\<close>: kinds, delivery states, envelopes and routes (\<open>boop-store/src/bus.rs\<close>, \<open>ident.rs\<close>,
      \<open>harness_id.rs\<close>, \<open>session.rs\<close>). Then the ledger, the tables that delivery reads and writes, one function
      per query, and the world: the store, the outside, a clock, a plan of refused statements and a
      log of what recipients were given.
    \<^item> \<open>Ladder\<close>: \<open>boop-proc/src/deliver.rs\<close> and \<open>1_dead_route.rs\<close>. The adapters, the panes,
      the locks and the environment are the record \<open>ladder_env\<close>.
    \<^item> \<open>DeliverProofs\<close>: relations between the worlds before and after each operation (the locale
      \<open>world_order\<close>, interpreted for three of them) and the specification \<open>land_rel\<close> of the ladder.
      \<open>MailTheorems\<close>: at most once, the budget, the marks of a landing, a queue that refuses, door
      addresses.
      \<open>MailSamples\<close>: concrete deliveries and reminders.
    \<^item> \<open>Reminders\<close>: \<open>boop-store/src/1_reminder.rs\<close>, the schedules. \<open>ReminderProofs\<close>: over any run of their
      operations between arbitrary changes elsewhere, the table is consistent, occurrences keep their
      interval, and none follows one whose outcome is uncertain.

  \<^bold>\<open>Components of \<open>redux\<close>.\<close>

    \<^item> \<open>Arena\<close>: the allocator of \<open>1_pool.rs\<close>. \<open>ArenaProofs\<close>: its free spans are the maximal runs of free
      slots. \<open>ArenaRuns\<close>: reachable pools are partitioned, first fit, writes apart, canonical state.
    \<^item> \<open>Slices\<close>: the store of \<open>lib.rs\<close>, the slices of \<open>0_slice.rs\<close> and \<open>2_effects.rs\<close>, with the laws of a lens
      as a locale. \<open>Stores\<close>: replay, what a subscriber sees, deferred effects, slots.
    \<^item> \<open>Machines\<close>: \<open>_3_machine.rs\<close>. Validation is exact, and a machine moves along its graph,
      but for what the action of a stay row does to the state it is given.

  \<^bold>\<open>Parameters.\<close> BLAKE3 and its hexadecimal form, the serde encodings, \<open>diffy\<close>, \<open>globset\<close> and every
  answer of a Git process are functions given to the model. What the theorems assume of them
  is named where it is used: digests have 32 bytes (\<open>digests_ok\<close>), the bytes at hand do not
  collide (\<open>no_collision\<close>), an encoding that was written is read back. Git is a function from
  the arguments and a state to an answer and a state, so a repository may change between two calls.

  \<^bold>\<open>Bounds and idealizations.\<close> Loops are structural recursions over the lists they iterate; there is
  no fuel. A crash of a commit is a fail point of the engine; there is no crash within one call of
  \<open>std::fs\<close>, nor one that loses writes that were not synced. Sizes are 64-bit words; \<open>usize\<close> is 64 bits. A \<open>str\<close> is the
  list of its UTF-8 bytes. An \<open>anyhow::Error\<close> is its outermost message. A panic is the value \<open>None\<close>
  of an option. One operation of the planner, of a store or of the engine runs on a tree nobody else changes, and one receive
  of a watcher in one outside; between receives anything may change (\<open>WatchClient\<close>), and during a
  walk the disk does (\<open>SnapshotProofs\<close>). A directory listing has the order of the
  tree. Permissions other than the mode bits, hard-link counts and extended attributes are
  not modelled, nor are timings and the tracing spans, which have no effect on a result. A table
  of SQLite is the list of its rows and a query the list function its text denotes; a statement
  fails when the world's fault plan says so, and only the columns that delivery reads are kept.
  A subscriber of a store is a function on the client's memory. The pool is proved for fewer than
  \<open>2 ^ 32\<close> slots and fragments, as its 32-bit offsets require, with the wrap-around of a release build.

  \<^bold>\<open>Not modelled.\<close> Of \<open>soopy\<close>: serde and \<open>Display\<close> impls, plain getters, the command line
  (\<open>main.rs\<close>), the wrapper of \<open>globset\<close> (\<open>_1_pattern.rs\<close>) and the refresh load harness
  (\<open>_14_multi_repo_refresh.rs\<close>). Of the mail: the import of
  legacy mailbox files, the schema and its migrations, claim files, the mood of a recipient (a
  parameter), and the drain over all routes with its deadline. The other crates of the workspace
  (the command lines, the supervision of lanes, transcript readers, terminal and GUI code, the
  language readers over tree-sitter and the generated clients) are not modelled.
\<close>

end
